(* ===== verification/Prelude.thy ===== *)
theory Prelude
  imports Main "HOL-Library.Sublist"
begin

text \<open>
  What the components share. Text is a list of Unicode scalar values (a Rust
  \<open>String\<close> or \<open>&str\<close>), written with \<open>lit\<close> where the source has a literal;
  the functions of this theory are the operations of Rust's standard library the
  modelled code calls on strings and vectors, and the lemmas are the facts about
  them that several components use.
\<close>

section \<open>Text\<close>

type_synonym uchar = nat
type_synonym ustring = "uchar list"

definition uc :: "char \<Rightarrow> uchar" where
  "uc c = of_char c"

definition lit :: "string \<Rightarrow> ustring" where
  "lit s = map uc s"

named_theorems text_eval \<open>equations that evaluate operations on literal text\<close>

lemma uc_inject [simp]: "uc a = uc b \<longleftrightarrow> a = b"
  by (simp add: uc_def)

lemma inj_uc: "inj uc"
  by (simp add: inj_def)

lemma lit_inject [simp]: "lit a = lit b \<longleftrightarrow> a = b"
  by (simp add: lit_def inj_map_eq_map inj_uc)

lemma lit_Nil [simp]: "lit [] = []"
  by (simp add: lit_def)

lemma lit_eq_Nil [simp]: "lit s = [] \<longleftrightarrow> s = []"
  by (simp add: lit_def)

lemma Nil_eq_lit [simp]: "[] = lit s \<longleftrightarrow> s = []"
  by (auto simp: lit_def)

lemma length_lit [simp]: "length (lit s) = length s"
  by (simp add: lit_def)

lemma lit_append: "lit (s @ t) = lit s @ lit t"
  by (simp add: lit_def)

lemma drop_lit [text_eval]: "drop n (lit s) = lit (drop n s)"
  by (simp add: lit_def drop_map)

lemma take_lit [text_eval]: "take n (lit s) = lit (take n s)"
  by (simp add: lit_def take_map)

lemma prefix_map_inj: "inj f \<Longrightarrow> prefix (map f a) (map f b) \<longleftrightarrow> prefix a b"
proof (induction a arbitrary: b)
  case (Cons x xs)
  then show ?case by (cases b) (auto dest: injD)
qed simp

lemma prefix_lit [simp]: "prefix (lit a) (lit b) \<longleftrightarrow> prefix a b"
  by (simp add: lit_def prefix_map_inj inj_uc)

lemma lit_in_set_map_lit [simp]: "lit a \<in> lit ` S \<longleftrightarrow> a \<in> S"
  by (auto simp: image_iff)

text \<open>\<open>char::is_whitespace\<close>: the Unicode property White_Space.\<close>

definition is_whitespace :: "uchar \<Rightarrow> bool" where
  "is_whitespace c \<longleftrightarrow>
     (9 \<le> c \<and> c \<le> 13) \<or> c = 32 \<or> c = 133 \<or> c = 160 \<or> c = 5760 \<or>
     (8192 \<le> c \<and> c \<le> 8202) \<or> c = 8232 \<or> c = 8233 \<or> c = 8239 \<or> c = 8287 \<or> c = 12288"

definition is_ascii_digit :: "uchar \<Rightarrow> bool" where
  "is_ascii_digit c \<longleftrightarrow> 48 \<le> c \<and> c \<le> 57"

definition to_ascii_lower :: "uchar \<Rightarrow> uchar" where
  "to_ascii_lower c = (if 65 \<le> c \<and> c \<le> 90 then c + 32 else c)"

definition to_ascii_lowercase :: "ustring \<Rightarrow> ustring" where
  "to_ascii_lowercase s = map to_ascii_lower s"

definition trim_start :: "ustring \<Rightarrow> ustring" where
  "trim_start s = dropWhile is_whitespace s"

definition trim_end :: "ustring \<Rightarrow> ustring" where
  "trim_end s = rev (dropWhile is_whitespace (rev s))"

definition trim :: "ustring \<Rightarrow> ustring" where
  "trim s = trim_end (trim_start s)"

text \<open>\<open>char::len_utf8\<close> and the byte length of a string.\<close>

definition len_utf8 :: "uchar \<Rightarrow> nat" where
  "len_utf8 c = (if c < 128 then 1 else if c < 2048 then 2 else if c < 65536 then 3 else 4)"

definition byte_len :: "ustring \<Rightarrow> nat" where
  "byte_len s = sum_list (map len_utf8 s)"

definition strip_prefix :: "ustring \<Rightarrow> ustring \<Rightarrow> ustring option" where
  "strip_prefix p s = (if prefix p s then Some (drop (length p) s) else None)"

definition strip_suffix :: "ustring \<Rightarrow> ustring \<Rightarrow> ustring option" where
  "strip_suffix p s = (if suffix p s then Some (take (length s - length p) s) else None)"

text \<open>\<open>str::split\<close> on one character, \<open>slice::join\<close>, and \<open>str::lines\<close>.\<close>

fun split_on :: "'a \<Rightarrow> 'a list \<Rightarrow> 'a list list" where
  "split_on c [] = [[]]"
| "split_on c (x # xs) =
     (if x = c then [] # split_on c xs
      else (case split_on c xs of [] \<Rightarrow> [[x]] | s # ss \<Rightarrow> (x # s) # ss))"

fun join_with :: "'a list \<Rightarrow> 'a list list \<Rightarrow> 'a list" where
  "join_with sep [] = []"
| "join_with sep [s] = s"
| "join_with sep (s # t # ss) = s @ sep @ join_with sep (t # ss)"

definition newline :: uchar where
  "newline = 10"

definition strip_cr :: "ustring \<Rightarrow> ustring" where
  "strip_cr s = (case strip_suffix [13] s of None \<Rightarrow> s | Some t \<Rightarrow> t)"

definition str_lines :: "ustring \<Rightarrow> ustring list" where
  "str_lines s =
     (let parts = split_on newline s
      in map strip_cr (butlast parts) @ (if last parts = [] then [] else [last parts]))"

text \<open>\<open>str::find\<close> with a string pattern (positions count scalar values).\<close>

fun find_sub :: "'a list \<Rightarrow> 'a list \<Rightarrow> nat option" where
  "find_sub p [] = (if p = [] then Some 0 else None)"
| "find_sub p (x # xs) =
     (if prefix p (x # xs) then Some 0 else map_option Suc (find_sub p xs))"

definition contains :: "'a list \<Rightarrow> 'a list \<Rightarrow> bool" where
  "contains p s \<longleftrightarrow> find_sub p s \<noteq> None"

text \<open>\<open>Iterator::position\<close> and removal of the element it finds.\<close>

fun position :: "('a \<Rightarrow> bool) \<Rightarrow> 'a list \<Rightarrow> nat option" where
  "position P [] = None"
| "position P (x # xs) = (if P x then Some 0 else map_option Suc (position P xs))"

text \<open>\<open>str::split_once\<close> on a character.\<close>

definition split_once :: "uchar \<Rightarrow> ustring \<Rightarrow> (ustring \<times> ustring) option" where
  "split_once c s =
     map_option (\<lambda>i. (take i s, drop (Suc i) s)) (position (\<lambda>x. x = c) s)"

definition remove_nth :: "nat \<Rightarrow> 'a list \<Rightarrow> 'a list" where
  "remove_nth i xs = take i xs @ drop (Suc i) xs"

definition insert_nth :: "nat \<Rightarrow> 'a \<Rightarrow> 'a list \<Rightarrow> 'a list" where
  "insert_nth i x xs = take i xs @ x # drop i xs"

text \<open>\<open>Iterator::find_map\<close>.\<close>

fun find_map :: "('a \<Rightarrow> 'b option) \<Rightarrow> 'a list \<Rightarrow> 'b option" where
  "find_map f [] = None"
| "find_map f (x # xs) = (case f x of None \<Rightarrow> find_map f xs | Some y \<Rightarrow> Some y)"

section \<open>Facts about them\<close>

lemma split_on_nonempty [simp]: "split_on c s \<noteq> []"
  by (induction s) (auto split: list.splits)

lemma join_with_Cons: "ss \<noteq> [] \<Longrightarrow> join_with sep (s # ss) = s @ sep @ join_with sep ss"
  by (cases ss) auto

lemma join_with_snoc: "ss \<noteq> [] \<Longrightarrow> join_with sep (ss @ [t]) = join_with sep ss @ sep @ t"
proof (induction ss)
  case (Cons s ss)
  then show ?case by (cases ss) auto
qed simp

lemma join_split_on [simp]: "join_with [c] (split_on c s) = s"
proof (induction s)
  case (Cons x xs)
  then show ?case
    by (cases "split_on c xs"; cases "tl (split_on c xs)")
      (auto simp: join_with_Cons split: list.splits)
qed simp

lemma split_on_no_sep: "s \<in> set (split_on c xs) \<Longrightarrow> c \<notin> set s"
  by (induction xs arbitrary: s) (fastforce split: list.splits if_splits)+

lemma split_on_append: "split_on c (xs @ c # t) = split_on c xs @ split_on c t"
proof (induction xs)
  case (Cons x xs)
  then show ?case by (cases "split_on c xs") auto
qed simp

lemma split_on_append_sep: "c \<notin> set s \<Longrightarrow> split_on c (s @ c # t) = s # split_on c t"
  by (induction s) auto

lemma split_on_single: "c \<notin> set s \<Longrightarrow> split_on c s = [s]"
  by (induction s) auto

lemma split_join:
  "ss \<noteq> [] \<Longrightarrow> \<forall>s \<in> set ss. c \<notin> set s \<Longrightarrow> split_on c (join_with [c] ss) = ss"
proof (induction ss)
  case (Cons s ss)
  then show ?case
    by (cases ss) (auto simp: join_with_Cons split_on_append_sep split_on_single)
qed simp

lemma find_sub_Some: "find_sub p s = Some i \<Longrightarrow> i + length p \<le> length s \<and> take (length p) (drop i s) = p"
proof (induction s arbitrary: i)
  case (Cons x xs)
  then show ?case
    by (auto simp: prefix_def dest: arg_cong [where f = length] split: if_splits)
qed (auto split: if_splits)

lemma position_Some:
  "position P xs = Some i \<Longrightarrow> i < length xs \<and> P (xs ! i) \<and> (\<forall>j<i. \<not> P (xs ! j))"
proof (induction xs arbitrary: i)
  case (Cons x xs)
  show ?case
  proof (cases "P x")
    case False
    with Cons.prems obtain k where k: "position P xs = Some k" "i = Suc k" by auto
    with Cons.IH [of k] False show ?thesis by (auto simp: less_Suc_eq_0_disj)
  qed (use Cons.prems in auto)
qed simp

lemma position_None: "position P xs = None \<longleftrightarrow> (\<forall>x \<in> set xs. \<not> P x)"
  by (induction xs) auto

lemma in_set_map_filter [simp]:
  "y \<in> set (List.map_filter f xs) \<longleftrightarrow> (\<exists>x \<in> set xs. f x = Some y)"
  by (induction xs) (auto simp: List.map_filter_simps split: option.splits)

lemma find_map_Some: "find_map f xs = Some y \<Longrightarrow> \<exists>x \<in> set xs. f x = Some y"
  by (induction xs) (auto split: option.splits)

lemma find_map_None: "find_map f xs = None \<longleftrightarrow> (\<forall>x \<in> set xs. f x = None)"
  by (induction xs) (auto split: option.splits)

lemma strip_prefix_Some: "strip_prefix p s = Some t \<longleftrightarrow> s = p @ t"
  by (auto simp: strip_prefix_def prefix_def)

lemma strip_prefix_lit [text_eval]:
  "strip_prefix (lit p) (lit s) = (if prefix p s then Some (lit (drop (length p) s)) else None)"
  by (simp add: strip_prefix_def drop_lit)

lemma trim_Nil [simp]: "trim [] = []" "trim_start [] = []" "trim_end [] = []"
  by (simp_all add: trim_def trim_start_def trim_end_def)

lemma trim_idem_start [simp]: "trim_start (trim_start s) = trim_start s"
  by (simp add: trim_start_def dropWhile_idem)

lemma Max_UN:
  assumes "finite A" "A \<noteq> {}" "\<And>x. x \<in> A \<Longrightarrow> finite (B x) \<and> B x \<noteq> {}"
  shows "Max (\<Union>x \<in> A. B x) = Max ((\<lambda>x. Max (B x)) ` A)"
proof (rule Max_eqI)
  show "finite (\<Union>x \<in> A. B x)" using assms by auto
next
  fix y assume "y \<in> (\<Union>x \<in> A. B x)"
  then obtain x where x: "x \<in> A" "y \<in> B x" by blast
  then have "y \<le> Max (B x)" using assms(3) by simp
  also have "\<dots> \<le> Max ((\<lambda>x. Max (B x)) ` A)" using assms(1) x(1) by simp
  finally show "y \<le> Max ((\<lambda>x. Max (B x)) ` A)" .
next
  have "Max ((\<lambda>x. Max (B x)) ` A) \<in> (\<lambda>x. Max (B x)) ` A" using assms by (intro Max_in) auto
  then obtain x where "x \<in> A" "Max ((\<lambda>x. Max (B x)) ` A) = Max (B x)" by blast
  moreover have "Max (B x) \<in> B x" using assms(3) [OF \<open>x \<in> A\<close>] by (intro Max_in) auto
  ultimately show "Max ((\<lambda>x. Max (B x)) ` A) \<in> (\<Union>x \<in> A. B x)" by auto
qed

lemma trim_id:
  assumes "s = [] \<or> \<not> is_whitespace (hd s) \<and> \<not> is_whitespace (last s)"
  shows "trim s = s"
proof -
  have "trim_start s = s" using assms by (auto simp: trim_start_def dropWhile_eq_self_iff)
  moreover have "trim_end s = s"
    using assms by (auto simp: trim_end_def dropWhile_eq_self_iff hd_rev rev_swap)
  ultimately show ?thesis by (simp add: trim_def)
qed

lemma strip_cr_id: "l = [] \<or> last l \<noteq> 13 \<Longrightarrow> strip_cr l = l"
  by (auto simp: strip_cr_def strip_suffix_def suffix_def)

text \<open>Whole lines joined by newlines are read back as they were.\<close>

lemma str_lines_join:
  assumes "ls \<noteq> []" and "last ls \<noteq> []"
    and "\<forall>l \<in> set ls. newline \<notin> set l \<and> (l = [] \<or> last l \<noteq> 13)"
  shows "str_lines (join_with [newline] ls) = ls"
proof -
  have "split_on newline (join_with [newline] ls) = ls"
    using assms(1,3) by (intro split_join) auto
  moreover have "map strip_cr (butlast ls) = butlast ls"
    using assms(3) by (intro map_idI strip_cr_id) (auto dest: in_set_butlastD)
  ultimately show ?thesis using assms(1,2) by (simp add: str_lines_def)
qed

section \<open>Loops that may not end\<close>

text \<open>
  \<open>loop { \<dots> }\<close>: an iteration ends with a result or goes on with a new state; \<open>None\<close> when the
  loop goes on forever.
\<close>

partial_function (option) run_loop :: "('s \<Rightarrow> 'r + 's) \<Rightarrow> 's \<Rightarrow> 'r option" where
  "run_loop f s = (case f s of Inl r \<Rightarrow> Some r | Inr s' \<Rightarrow> run_loop f s')"

declare run_loop.simps [code]

lemma run_loop_Inl: "f s = Inl r \<Longrightarrow> run_loop f s = Some r"
  by (subst run_loop.simps) simp

lemma run_loop_Inr: "f s = Inr s' \<Longrightarrow> run_loop f s = run_loop f s'"
  by (subst run_loop.simps) simp

lemma run_loop_invariant:
  fixes f :: "'s \<Rightarrow> 'r + 's"
  assumes ret: "run_loop f s = Some r" and "I s"
    and keep: "\<And>s s'. I s \<Longrightarrow> f s = Inr s' \<Longrightarrow> I s'" and post: "\<And>s r. I s \<Longrightarrow> f s = Inl r \<Longrightarrow> Q r"
  shows "Q r"
proof -
  have "(\<forall>s s'. I s \<longrightarrow> f s = Inr s' \<longrightarrow> I s') \<longrightarrow> (\<forall>s r. I s \<longrightarrow> f s = Inl r \<longrightarrow> Q r) \<longrightarrow> I s \<longrightarrow> Q r"
  proof (rule run_loop.raw_induct [where P = "\<lambda>f s r. (\<forall>s s'. I s \<longrightarrow> f s = Inr s' \<longrightarrow> I s') \<longrightarrow>
      (\<forall>s r. I s \<longrightarrow> f s = Inl r \<longrightarrow> Q r) \<longrightarrow> I s \<longrightarrow> Q r", OF _ ret])
    fix rec :: "('s \<Rightarrow> 'r + 's) \<Rightarrow> 's \<Rightarrow> 'r option" and f s r
    assume IH: "\<And>f s r. rec f s = Some r \<Longrightarrow> (\<forall>s s'. I s \<longrightarrow> f s = Inr s' \<longrightarrow> I s') \<longrightarrow>
        (\<forall>s r. I s \<longrightarrow> f s = Inl r \<longrightarrow> Q r) \<longrightarrow> I s \<longrightarrow> Q r"
      and eq: "(case f s of Inl r \<Rightarrow> Some r | Inr s' \<Rightarrow> rec f s') = Some r"
    show "(\<forall>s s'. I s \<longrightarrow> f s = Inr s' \<longrightarrow> I s') \<longrightarrow> (\<forall>s r. I s \<longrightarrow> f s = Inl r \<longrightarrow> Q r) \<longrightarrow> I s \<longrightarrow> Q r"
    proof (cases "f s")
      case (Inl a)
      with eq show ?thesis by simp
    next
      case (Inr s')
      with eq have "rec f s' = Some r" by simp
      from IH [OF this] Inr show ?thesis by blast
    qed
  qed
  with assms show ?thesis by blast
qed

lemma run_loop_returns:
  assumes "I s" and less: "\<And>s s'. I s \<Longrightarrow> f s = Inr s' \<Longrightarrow> I s' \<and> \<mu> s' < (\<mu> s :: nat)"
  shows "\<exists>r. run_loop f s = Some r"
  using assms(1)
proof (induction "\<mu> s" arbitrary: s rule: less_induct)
  case less
  then show ?case
  proof (cases "f s")
    case (Inl r)
    then show ?thesis using run_loop_Inl [of f s r] by blast
  next
    case (Inr s')
    with assms(2) [OF less.prems Inr] less.hyps [of s'] run_loop_Inr [of f s s'] show ?thesis by auto
  qed
qed

lemma run_loop_diverges:
  assumes "I s" and "\<And>s. I s \<Longrightarrow> \<exists>s'. f s = Inr s' \<and> I s'"
  shows "run_loop f s = None"
proof (rule ccontr)
  assume "run_loop f s \<noteq> None"
  then obtain r where r: "run_loop f s = Some r" by blast
  have False
    by (rule run_loop_invariant [OF r, where I = I and Q = "\<lambda>_. False"]) (use assms in \<open>fastforce+\<close>)
  then show False .
qed

section \<open>Errors of the operating system\<close>

text \<open>\<open>std::io::Error\<close>: its kind, as far as the code looks at it, and its message.\<close>

datatype io_error_kind = NotFound | AlreadyExists | InvalidInput | OtherKind

datatype io_error = IoFailure (io_kind: io_error_kind) (io_message: ustring)

end
