(* ===== verification/Numbers.thy ===== *)
theory Numbers
  imports Prelude Complex_Main "HOL-Library.Log_Nat"
begin

text \<open>
  Machine numbers several components share: the bounds of \<open>i64\<close> and \<open>usize\<close> (64 bits) with the
  saturating operations on them, the rounding of \<open>f64\<close> arithmetic, and \<open>Display\<close> of an
  unsigned integer. A value of an integer type is a mathematical integer inside its bounds.
\<close>

section \<open>Integers\<close>

definition i64_max :: int where
  "i64_max = 2 ^ 63 - 1"

definition i64_min :: int where
  "i64_min = - (2 ^ 63)"

definition usize_max :: nat where
  "usize_max = 2 ^ 64 - 1"

definition sat_add_usize :: "nat \<Rightarrow> nat \<Rightarrow> nat" where
  "sat_add_usize a b = min usize_max (a + b)"

definition sat_mul_usize :: "nat \<Rightarrow> nat \<Rightarrow> nat" where
  "sat_mul_usize a b = min usize_max (a * b)"

definition clamp_i64 :: "int \<Rightarrow> int" where
  "clamp_i64 x = max i64_min (min i64_max x)"

definition sat_add_i64 :: "int \<Rightarrow> int \<Rightarrow> int" where
  "sat_add_i64 a b = clamp_i64 (a + b)"

definition sat_sub_i64 :: "int \<Rightarrow> int \<Rightarrow> int" where
  "sat_sub_i64 a b = clamp_i64 (a - b)"

definition sat_mul_i64 :: "int \<Rightarrow> int \<Rightarrow> int" where
  "sat_mul_i64 a b = clamp_i64 (a * b)"

text \<open>
  The plain operators on \<open>i64\<close>: a build with debug assertions panics on overflow (\<open>None\<close>), a
  release build wraps around.
\<close>

definition wrap_i64 :: "int \<Rightarrow> int" where
  "wrap_i64 x = (x + 2 ^ 63) mod 2 ^ 64 - 2 ^ 63"

definition checked_i64 :: "bool \<Rightarrow> int \<Rightarrow> int option" where
  "checked_i64 debug x =
     (if i64_min \<le> x \<and> x \<le> i64_max then Some x else if debug then None else Some (wrap_i64 x))"

lemma checked_i64_release: "\<exists>y. checked_i64 False x = Some y \<and> i64_min \<le> y \<and> y \<le> i64_max"
  by (auto simp: checked_i64_def wrap_i64_def i64_min_def i64_max_def)

text \<open>\<open>i64::try_from\<close> of an unsigned number, with \<open>i64::MAX\<close> where it does not fit.\<close>

definition i64_of_nat :: "nat \<Rightarrow> int" where
  "i64_of_nat n = min i64_max (int n)"

lemma i64_of_nat_bounds [simp]: "0 \<le> i64_of_nat n" "i64_of_nat n \<le> i64_max"
  by (simp_all add: i64_of_nat_def i64_max_def)

lemma clamp_i64_bounds [simp]: "i64_min \<le> clamp_i64 x" "clamp_i64 x \<le> i64_max"
  by (simp_all add: clamp_i64_def i64_min_def i64_max_def)

lemma clamp_i64_nonneg [simp]: "0 \<le> x \<Longrightarrow> 0 \<le> clamp_i64 x"
  by (simp add: clamp_i64_def i64_min_def i64_max_def)

lemma clamp_i64_id: "i64_min \<le> x \<Longrightarrow> x \<le> i64_max \<Longrightarrow> clamp_i64 x = x"
  by (simp add: clamp_i64_def)

lemma clamp_i64_mono: "x \<le> y \<Longrightarrow> clamp_i64 x \<le> clamp_i64 y"
  by (auto simp: clamp_i64_def)

text \<open>Sums that saturate at every step saturate as a whole, as long as nothing is negative.\<close>

lemma fold_sat_add_i64:
  assumes "0 \<le> a" "a \<le> i64_max" "\<And>x. x \<in> set xs \<Longrightarrow> 0 \<le> x"
  shows "fold (\<lambda>x acc. sat_add_i64 acc x) xs a = min i64_max (a + sum_list xs)"
  using assms
proof (induction xs arbitrary: a)
  case (Cons x xs)
  have x: "0 \<le> x" using Cons.prems by simp
  have rest: "0 \<le> sum_list xs" using Cons.prems by (intro sum_list_nonneg) simp
  have "0 \<le> a + x" using Cons.prems(1) x by simp
  then have step: "sat_add_i64 a x = min i64_max (a + x)"
    by (simp add: sat_add_i64_def clamp_i64_def i64_min_def i64_max_def)
  have "fold (\<lambda>x acc. sat_add_i64 acc x) xs (min i64_max (a + x)) =
      min i64_max (min i64_max (a + x) + sum_list xs)"
    by (rule Cons.IH) (use Cons.prems x in \<open>auto simp: i64_max_def\<close>)
  then show ?case using rest by (auto simp: step min_def)
qed simp

section \<open>Display\<close>

fun decimal :: "nat \<Rightarrow> ustring" where
  "decimal n = (if n < 10 then [48 + n] else decimal (n div 10) @ [48 + n mod 10])"

declare decimal.simps [simp del]

lemma decimal_nonempty [simp]: "decimal n \<noteq> []"
  by (subst decimal.simps) simp

lemma decimal_digits: "\<forall>c \<in> set (decimal n). is_ascii_digit c"
proof (induction n rule: decimal.induct)
  case (1 n)
  then show ?case by (subst decimal.simps) (auto simp: is_ascii_digit_def)
qed

text \<open>Reading the digits back gives the number.\<close>

definition undecimal :: "ustring \<Rightarrow> nat" where
  "undecimal s = foldl (\<lambda>n c. 10 * n + (c - 48)) 0 s"

lemma undecimal_decimal [simp]: "undecimal (decimal n) = n"
proof (induction n rule: decimal.induct)
  case (1 n)
  then show ?case by (subst decimal.simps) (auto simp: undecimal_def)
qed

section \<open>Floating point\<close>

text \<open>The finite values of \<open>f64\<close> are rationals; results are rounded to the nearest, ties to even.\<close>

definition f64_exponent :: "rat \<Rightarrow> int" where
  "f64_exponent q =
     (case quotient_of q of (n, d) \<Rightarrow>
        (let e = int (floorlog 2 (nat n)) - int (floorlog 2 (nat d))
         in if 2 powi e \<le> q then e else e - 1))"

definition round_half_even :: "rat \<Rightarrow> int" where
  "round_half_even x =
     (let f = \<lfloor>x\<rfloor>; d = x - of_int f in if d < 1 / 2 \<or> (d = 1 / 2 \<and> even f) then f else f + 1)"

definition f64_round :: "rat \<Rightarrow> rat" where
  "f64_round q =
     (if q = 0 then 0
      else let u = 2 powi (max (- 1022) (f64_exponent \<bar>q\<bar>) - 52) in of_int (round_half_even (q / u)) * u)"

end
