(* ===== verification/Utf8Text.thy ===== *)
theory Utf8Text
  imports Numbers
begin

text \<open>
  Text addressed by byte offsets. The code slices strings at positions that count UTF-8
  bytes; a position inside a character has no slice (\<open>str::get\<close> gives \<open>None\<close> and the
  indexing \<open>&s[..n]\<close> panics), which is why the slices here are options.
\<close>

lemma len_utf8_pos [simp]: "0 < len_utf8 c"
  by (simp add: len_utf8_def)

lemma len_utf8_neq_0 [simp]: "len_utf8 c \<noteq> 0"
  by (simp add: len_utf8_def)

lemma byte_len_Nil [simp]: "byte_len [] = 0"
  by (simp add: byte_len_def)

lemma byte_len_Cons [simp]: "byte_len (c # s) = len_utf8 c + byte_len s"
  by (simp add: byte_len_def)

lemma byte_len_append [simp]: "byte_len (a @ b) = byte_len a + byte_len b"
  by (simp add: byte_len_def)

lemma byte_len_0 [simp]: "byte_len s = 0 \<longleftrightarrow> s = []"
  by (cases s) auto

lemma length_le_byte_len: "length s \<le> byte_len s"
proof (induction s)
  case (Cons c s)
  then show ?case using len_utf8_pos [of c] by (simp del: len_utf8_pos)
qed simp

fun byte_split :: "nat \<Rightarrow> ustring \<Rightarrow> (ustring \<times> ustring) option" where
  "byte_split n [] = (if n = 0 then Some ([], []) else None)"
| "byte_split n (c # s) =
     (if n = 0 then Some ([], c # s)
      else if n < len_utf8 c then None
      else map_option (\<lambda>(a, b). (c # a, b)) (byte_split (n - len_utf8 c) s))"

text \<open>\<open>&s[..n]\<close> and \<open>&s[n..]\<close>.\<close>

definition str_upto :: "nat \<Rightarrow> ustring \<Rightarrow> ustring option" where
  "str_upto n s = map_option fst (byte_split n s)"

definition str_from :: "nat \<Rightarrow> ustring \<Rightarrow> ustring option" where
  "str_from n s = map_option snd (byte_split n s)"

definition eq_ignore_ascii_case :: "ustring \<Rightarrow> ustring \<Rightarrow> bool" where
  "eq_ignore_ascii_case a b \<longleftrightarrow> to_ascii_lowercase a = to_ascii_lowercase b"

lemma byte_split_append [simp]: "byte_split (byte_len a) (a @ b) = Some (a, b)"
proof (induction a)
  case Nil
  then show ?case by (cases b) auto
qed simp

lemma byte_split_whole [simp]: "byte_split (byte_len a) a = Some (a, [])"
  using byte_split_append [of a "[]"] by simp

lemma byte_split_Some: "byte_split n s = Some (a, b) \<longleftrightarrow> s = a @ b \<and> byte_len a = n"
proof
  show "byte_split n s = Some (a, b) \<Longrightarrow> s = a @ b \<and> byte_len a = n"
    by (induction n s arbitrary: a rule: byte_split.induct) (auto split: if_splits)
qed auto

lemma str_upto_append [simp]: "str_upto (byte_len a) (a @ b) = Some a"
  by (simp add: str_upto_def)

lemma str_from_append [simp]: "str_from (byte_len a) (a @ b) = Some b"
  by (simp add: str_from_def)

lemma str_upto_whole [simp]: "str_upto (byte_len a) a = Some a"
  by (simp add: str_upto_def)

lemma str_from_whole [simp]: "str_from (byte_len a) a = Some []"
  by (simp add: str_from_def)

lemma str_upto_0 [simp]: "str_upto 0 s = Some []"
  using str_upto_append [of "[]" s] by simp

lemma str_upto_Some: "str_upto n s = Some a \<longleftrightarrow> (\<exists>b. s = a @ b) \<and> byte_len a = n"
  by (auto simp: str_upto_def byte_split_Some)

lemma eq_ignore_ascii_case_refl [simp]: "eq_ignore_ascii_case a a"
  by (simp add: eq_ignore_ascii_case_def)

end
