(* ===== verification/ResponseItems.thy ===== *)
theory ResponseItems
  imports Prelude
begin

text \<open>
  The items of a conversation (\<open>protocol/src/models.rs\<close>). The type of a JSON value
  (\<open>serde_json::Value\<close>) is the parameter \<open>'j\<close>; a hash map is the list of its entries.
\<close>

datatype image_detail = AutoDetail | LowDetail | HighDetail | OriginalDetail

datatype content_item =
    InputText ustring
  | InputImage ustring "image_detail option"
  | OutputText ustring

text \<open>\<open>FunctionCallOutputContentItem\<close> and the payload of a tool output.\<close>

datatype output_item =
    OutputItemText ustring
  | OutputItemImage ustring "image_detail option"

datatype output_body = TextBody ustring | ContentItems "output_item list"

record output_payload =
  payload_body :: output_body
  payload_success :: "bool option"

definition payload_from_text :: "ustring \<Rightarrow> output_payload" where
  "payload_from_text content = \<lparr>payload_body = TextBody content, payload_success = None\<rparr>"

definition payload_from_content_items :: "output_item list \<Rightarrow> output_payload" where
  "payload_from_content_items xs = \<lparr>payload_body = ContentItems xs, payload_success = None\<rparr>"

definition payload_text_content :: "output_payload \<Rightarrow> ustring option" where
  "payload_text_content p = (case payload_body p of TextBody content \<Rightarrow> Some content | ContentItems _ \<Rightarrow> None)"

definition payload_content_items :: "output_payload \<Rightarrow> output_item list option" where
  "payload_content_items p = (case payload_body p of TextBody _ \<Rightarrow> None | ContentItems xs \<Rightarrow> Some xs)"

text \<open>The plain text of a tool output, for surfaces that show one: images are left out.\<close>

definition function_call_output_content_items_to_text :: "output_item list \<Rightarrow> ustring option" where
  "function_call_output_content_items_to_text xs =
     (let segments = List.map_filter (\<lambda>it. case it of
          OutputItemText t \<Rightarrow> if trim t \<noteq> [] then Some t else None
        | OutputItemImage _ _ \<Rightarrow> None) xs
      in if segments = [] then None else Some (join_with [newline] segments))"

definition output_body_to_text :: "output_body \<Rightarrow> ustring option" where
  "output_body_to_text b =
     (case b of TextBody content \<Rightarrow> Some content
      | ContentItems xs \<Rightarrow> function_call_output_content_items_to_text xs)"

datatype message_phase = Commentary | FinalAnswer

datatype local_shell_status = ShellCompleted | ShellInProgress | ShellIncomplete

record local_shell_exec_action =
  shell_command :: "ustring list"
  shell_timeout_ms :: "nat option"
  shell_working_directory :: "ustring option"
  shell_env :: "(ustring \<times> ustring) list option"
  shell_user :: "ustring option"

datatype local_shell_action = ExecAction local_shell_exec_action

datatype web_search_action =
    SearchAction "ustring option" "ustring list option"
  | OpenPageAction "ustring option"
  | FindInPageAction "ustring option" "ustring option"
  | OtherSearchAction

datatype reasoning_summary = SummaryText ustring

datatype reasoning_content = ReasoningText ustring | PlainText ustring

record ghost_commit =
  commit_id :: ustring
  commit_parent :: "ustring option"
  preexisting_untracked_files :: "ustring list"
  preexisting_untracked_dirs :: "ustring list"

datatype 'j response_item =
    Message (msg_id: "ustring option") (msg_role: ustring) (msg_content: "content_item list")
      (msg_end_turn: "bool option") (msg_phase: "message_phase option")
  | Reasoning ustring "reasoning_summary list" "reasoning_content list option" "ustring option"
  | LocalShellCall "ustring option" "ustring option" local_shell_status local_shell_action
  | FunctionCall "ustring option" ustring "ustring option" ustring ustring
  | ToolSearchCall "ustring option" "ustring option" "ustring option" ustring 'j
  | FunctionCallOutput ustring output_payload
  | CustomToolCall "ustring option" "ustring option" ustring ustring ustring
  | CustomToolCallOutput ustring "ustring option" output_payload
  | ToolSearchOutput "ustring option" ustring ustring "'j list"
  | WebSearchCall "ustring option" "ustring option" "web_search_action option"
  | ImageGenerationCall ustring ustring "ustring option" ustring
  | GhostSnapshot ghost_commit
  | Compaction ustring
  | OtherItem

text \<open>
  Its arguments are those of the source in its order: a \<open>FunctionCall\<close> is its id, name,
  namespace, arguments and call id; a \<open>ToolSearchCall\<close> id, call id, status, execution and
  arguments; a \<open>CustomToolCall\<close> id, status, call id, name and input; a \<open>CustomToolCallOutput\<close>
  call id, name and output; a \<open>ToolSearchOutput\<close> call id, status, execution and tools.
\<close>

section \<open>Images in the items\<close>

fun is_image :: "content_item \<Rightarrow> bool" where
  "is_image (InputImage _ _) = True"
| "is_image _ = False"

fun is_output_image :: "output_item \<Rightarrow> bool" where
  "is_output_image (OutputItemImage _ _) = True"
| "is_output_image _ = False"

text \<open>The texts and the images of a tool output, each in their order.\<close>

definition output_texts :: "output_item list \<Rightarrow> ustring list" where
  "output_texts xs = List.map_filter (\<lambda>it. case it of OutputItemText t \<Rightarrow> Some t | OutputItemImage _ _ \<Rightarrow> None) xs"

definition output_images :: "output_item list \<Rightarrow> output_item list" where
  "output_images xs = filter is_output_image xs"

lemma output_texts_simps [simp]:
  "output_texts [] = []"
  "output_texts (OutputItemText t # xs) = t # output_texts xs"
  "output_texts (OutputItemImage u d # xs) = output_texts xs"
  "output_texts (xs @ ys) = output_texts xs @ output_texts ys"
  by (simp_all add: output_texts_def List.map_filter_simps) (simp add: List.map_filter_def)

lemma output_images_simps [simp]:
  "output_images [] = []"
  "output_images (OutputItemText t # xs) = output_images xs"
  "output_images (OutputItemImage u d # xs) = OutputItemImage u d # output_images xs"
  "output_images (xs @ ys) = output_images xs @ output_images ys"
  by (simp_all add: output_images_def)

lemma output_texts_images [simp]: "output_texts (output_images xs) = []"
proof (induction xs)
  case (Cons it xs)
  then show ?case by (cases it) simp_all
qed simp

lemma output_images_images [simp]: "output_images (output_images xs) = output_images xs"
  by (simp add: output_images_def)

end
