(* ===== verification/ContextFragments.thy ===== *)
theory ContextFragments
  imports Utf8Text ResponseItems
begin

text \<open>
  Which messages of a conversation are context the program injected
  (\<open>core/src/event_mapping.rs\<close>, \<open>core/src/context/{fragment,contextual_user_message}.rs\<close>) and
  how a response item becomes an item of the turn shown to the user. The XML reader
  (\<open>quick_xml\<close>) that recognises a hook prompt is the parameter \<open>xml\<close>: the text and the
  \<open>hook_run_id\<close> of the element, when its argument is one.
\<close>

type_synonym xml_reader = "ustring \<Rightarrow> (ustring \<times> ustring) option"

section \<open>Markers\<close>

text \<open>\<open>ContextualUserFragment::matches_text\<close> for the markers of a fragment type.\<close>

definition matches_text :: "ustring \<times> ustring \<Rightarrow> ustring \<Rightarrow> bool" where
  "matches_text markers text =
     (case markers of (start_marker, end_marker) \<Rightarrow>
        if start_marker = [] \<or> end_marker = [] then False
        else let trimmed = trim_start text;
                 starts_with_marker =
                   (case str_upto (byte_len start_marker) trimmed of
                      None \<Rightarrow> False | Some candidate \<Rightarrow> eq_ignore_ascii_case candidate start_marker);
                 trimmed = trim_end trimmed;
                 ends_with_marker =
                   (case str_from (byte_len trimmed - byte_len end_marker) trimmed of
                      None \<Rightarrow> False | Some candidate \<Rightarrow> eq_ignore_ascii_case candidate end_marker)
             in starts_with_marker \<and> ends_with_marker)"

definition render :: "ustring \<times> ustring \<Rightarrow> ustring \<Rightarrow> ustring" where
  "render markers body =
     (case markers of (start_marker, end_marker) \<Rightarrow>
        if start_marker = [] \<and> end_marker = [] then body else start_marker @ body @ end_marker)"

definition fragment_into :: "ustring \<Rightarrow> ustring \<times> ustring \<Rightarrow> ustring \<Rightarrow> 'j response_item" where
  "fragment_into role markers body = Message None role [InputText (render markers body)] None None"

definition user_instructions :: "ustring \<times> ustring" where
  "user_instructions = (lit ''# AGENTS.md instructions for '', lit ''</INSTRUCTIONS>'')"

definition environment_context :: "ustring \<times> ustring" where
  "environment_context = (lit ''<environment_context>'', lit ''</environment_context>'')"

definition skill_instructions :: "ustring \<times> ustring" where
  "skill_instructions = (lit ''<skill>'', lit ''</skill>'')"

definition user_shell_command :: "ustring \<times> ustring" where
  "user_shell_command = (lit ''<user_shell_command>'', lit ''</user_shell_command>'')"

definition turn_aborted :: "ustring \<times> ustring" where
  "turn_aborted = (lit ''<turn_aborted>'', lit ''</turn_aborted>'')"

definition subagent_notification :: "ustring \<times> ustring" where
  "subagent_notification = (lit ''<subagent_notification>'', lit ''</subagent_notification>'')"

definition CONTEXTUAL_USER_FRAGMENTS :: "(ustring \<times> ustring) list" where
  "CONTEXTUAL_USER_FRAGMENTS =
     [user_instructions, environment_context, skill_instructions, user_shell_command,
      turn_aborted, subagent_notification]"

definition MEMORY_EXCLUDED_CONTEXTUAL_USER_FRAGMENTS :: "(ustring \<times> ustring) list" where
  "MEMORY_EXCLUDED_CONTEXTUAL_USER_FRAGMENTS = [user_instructions, skill_instructions]"

definition is_standard_contextual_user_text :: "ustring \<Rightarrow> bool" where
  "is_standard_contextual_user_text text = list_ex (\<lambda>m. matches_text m text) CONTEXTUAL_USER_FRAGMENTS"

definition is_memory_excluded_contextual_user_fragment :: "content_item \<Rightarrow> bool" where
  "is_memory_excluded_contextual_user_fragment it =
     (case it of InputText text \<Rightarrow>
        list_ex (\<lambda>m. matches_text m text) MEMORY_EXCLUDED_CONTEXTUAL_USER_FRAGMENTS
      | _ \<Rightarrow> False)"

section \<open>Hook prompts\<close>

record hook_prompt_fragment =
  hook_text :: ustring
  hook_run_id :: ustring

definition parse_hook_prompt_fragment :: "xml_reader \<Rightarrow> ustring \<Rightarrow> hook_prompt_fragment option" where
  "parse_hook_prompt_fragment xml text =
     (case xml (trim text) of
        None \<Rightarrow> None
      | Some (t, run_id) \<Rightarrow> if trim run_id = [] then None else Some \<lparr>hook_text = t, hook_run_id = run_id\<rparr>)"

definition is_contextual_user_fragment :: "xml_reader \<Rightarrow> content_item \<Rightarrow> bool" where
  "is_contextual_user_fragment xml it =
     (case it of InputText text \<Rightarrow>
        parse_hook_prompt_fragment xml text \<noteq> None \<or> is_standard_contextual_user_text text
      | _ \<Rightarrow> False)"

definition is_contextual_user_message_content :: "xml_reader \<Rightarrow> content_item list \<Rightarrow> bool" where
  "is_contextual_user_message_content xml message = list_ex (is_contextual_user_fragment xml) message"

definition CONTEXTUAL_DEVELOPER_PREFIXES :: "ustring list" where
  "CONTEXTUAL_DEVELOPER_PREFIXES =
     [lit ''<permissions instructions>'', lit ''<model_switch>'', lit ''<collaboration_mode>'',
      lit ''<realtime_conversation>'', lit ''<personality_spec>'']"

definition is_contextual_dev_fragment :: "content_item \<Rightarrow> bool" where
  "is_contextual_dev_fragment it =
     (case it of InputText text \<Rightarrow>
        (let trimmed = trim_start text in
         list_ex (\<lambda>p. case str_upto (byte_len p) trimmed of
             None \<Rightarrow> False | Some candidate \<Rightarrow> eq_ignore_ascii_case candidate p)
           CONTEXTUAL_DEVELOPER_PREFIXES)
      | _ \<Rightarrow> False)"

definition is_contextual_dev_message_content :: "content_item list \<Rightarrow> bool" where
  "is_contextual_dev_message_content message = list_ex is_contextual_dev_fragment message"

definition has_non_contextual_dev_message_content :: "content_item list \<Rightarrow> bool" where
  "has_non_contextual_dev_message_content message = list_ex (\<lambda>it. \<not> is_contextual_dev_fragment it) message"

record hook_prompt_item =
  hook_item_id :: ustring
  hook_fragments :: "hook_prompt_fragment list"

text \<open>\<open>fresh\<close> is the UUID the code would generate.\<close>

definition hook_prompt_from_fragments :: "ustring \<Rightarrow> ustring option \<Rightarrow> hook_prompt_fragment list \<Rightarrow> hook_prompt_item" where
  "hook_prompt_from_fragments fresh item_id fragments =
     \<lparr>hook_item_id = (case item_id of Some i \<Rightarrow> i | None \<Rightarrow> fresh), hook_fragments = fragments\<rparr>"

fun collect_hook_fragments ::
  "xml_reader \<Rightarrow> content_item list \<Rightarrow> hook_prompt_fragment list \<Rightarrow> hook_prompt_fragment list option"
where
  "collect_hook_fragments xml [] fragments = Some fragments"
| "collect_hook_fragments xml (InputText text # rest) fragments =
     (case parse_hook_prompt_fragment xml text of
        Some fragment \<Rightarrow> collect_hook_fragments xml rest (fragments @ [fragment])
      | None \<Rightarrow>
          if is_standard_contextual_user_text text then collect_hook_fragments xml rest fragments else None)"
| "collect_hook_fragments xml (InputImage _ _ # rest) fragments = None"
| "collect_hook_fragments xml (OutputText _ # rest) fragments = None"

definition parse_visible_hook_prompt_message ::
  "xml_reader \<Rightarrow> ustring \<Rightarrow> ustring option \<Rightarrow> content_item list \<Rightarrow> hook_prompt_item option" where
  "parse_visible_hook_prompt_message xml fresh item_id content =
     (case collect_hook_fragments xml content [] of
        None \<Rightarrow> None
      | Some fragments \<Rightarrow>
          if fragments = [] then None else Some (hook_prompt_from_fragments fresh item_id fragments))"

section \<open>Injected fragments are recognised\<close>

lemma trim_start_id: "s \<noteq> [] \<Longrightarrow> \<not> is_whitespace (hd s) \<Longrightarrow> trim_start s = s"
  by (cases s) (simp_all add: trim_start_def)

lemma trim_end_id: "s \<noteq> [] \<Longrightarrow> \<not> is_whitespace (last s) \<Longrightarrow> trim_end s = s"
  by (cases s rule: rev_cases) (simp_all add: trim_end_def)

lemma rendered_matches:
  assumes "a \<noteq> []" "b \<noteq> []" "\<not> is_whitespace (hd a)" "\<not> is_whitespace (last b)"
  shows "matches_text (a, b) (render (a, b) body)"
proof -
  have "trim_start (a @ body @ b) = a @ body @ b" using assms by (intro trim_start_id) simp_all
  moreover have "trim_end (a @ body @ b) = a @ body @ b" using assms by (intro trim_end_id) simp_all
  moreover have "str_from (byte_len a + byte_len body) (a @ body @ b) = Some b"
    using str_from_append [of "a @ body" b] by simp
  ultimately show ?thesis using assms by (simp add: matches_text_def render_def Let_def)
qed

lemma fragment_markers_plain:
  "m \<in> set CONTEXTUAL_USER_FRAGMENTS \<Longrightarrow>
   fst m \<noteq> [] \<and> snd m \<noteq> [] \<and> \<not> is_whitespace (hd (fst m)) \<and> \<not> is_whitespace (last (snd m))"
  by (auto simp: CONTEXTUAL_USER_FRAGMENTS_def user_instructions_def environment_context_def
      skill_instructions_def user_shell_command_def turn_aborted_def subagent_notification_def
      is_whitespace_def lit_def uc_def)

lemma injected_fragment_is_contextual:
  "m \<in> set CONTEXTUAL_USER_FRAGMENTS \<Longrightarrow> is_contextual_user_fragment xml (InputText (render m body))"
  using rendered_matches [of "fst m" "snd m" body] fragment_markers_plain [of m]
  by (auto simp: is_contextual_user_fragment_def is_standard_contextual_user_text_def list_ex_iff)

lemma memory_excluded_is_contextual:
  "is_memory_excluded_contextual_user_fragment it \<Longrightarrow> is_contextual_user_fragment xml it"
  by (cases it) (auto simp: is_memory_excluded_contextual_user_fragment_def is_contextual_user_fragment_def
      is_standard_contextual_user_text_def MEMORY_EXCLUDED_CONTEXTUAL_USER_FRAGMENTS_def
      CONTEXTUAL_USER_FRAGMENTS_def)

text \<open>What evaluates the recognition of a literal text.\<close>

lemmas contextual_text_eval =
  is_standard_contextual_user_text_def CONTEXTUAL_USER_FRAGMENTS_def user_instructions_def
  environment_context_def skill_instructions_def user_shell_command_def turn_aborted_def
  subagent_notification_def matches_text_def trim_start_def is_whitespace_def str_upto_def len_utf8_def
  eq_ignore_ascii_case_def to_ascii_lowercase_def to_ascii_lower_def lit_def uc_def

end
