(* ===== verification/TurnItems.thy ===== *)
theory TurnItems
  imports ContextFragments
begin

text \<open>
  From what the user enters to the message the model sees and back to the item the user is
  shown (\<open>protocol/src/{models,items,user_input}.rs\<close>, \<open>core/src/event_mapping.rs\<close>,
  \<open>core/src/web_search.rs\<close>). Reading a file and preparing an image for the prompt are
  parameters; \<open>fresh\<close> is the UUID the code generates where an item has no id of its own.
\<close>

section \<open>User input\<close>

record byte_range =
  range_start :: nat
  range_end :: nat

record text_element =
  element_range :: byte_range
  element_placeholder :: "ustring option"

definition map_range :: "(byte_range \<Rightarrow> byte_range) \<Rightarrow> text_element \<Rightarrow> text_element" where
  "map_range f e = e\<lparr>element_range := f (element_range e)\<rparr>"

text \<open>\<open>str::get(a..b)\<close>.\<close>

definition str_range :: "nat \<Rightarrow> nat \<Rightarrow> ustring \<Rightarrow> ustring option" where
  "str_range a b s = (if a \<le> b then Option.bind (str_upto b s) (str_from a) else None)"

definition placeholder_of :: "text_element \<Rightarrow> ustring \<Rightarrow> ustring option" where
  "placeholder_of e text =
     (case element_placeholder e of
        Some p \<Rightarrow> Some p
      | None \<Rightarrow> str_range (range_start (element_range e)) (range_end (element_range e)) text)"

datatype user_input =
    UserText ustring "text_element list"
  | UserImage ustring
  | UserLocalImage ustring
  | UserSkill ustring ustring
  | UserMention ustring ustring

section \<open>The message of a user input\<close>

definition IMAGE_OPEN_TAG :: ustring where
  "IMAGE_OPEN_TAG = lit ''<image>''"

definition IMAGE_CLOSE_TAG :: ustring where
  "IMAGE_CLOSE_TAG = lit ''</image>''"

definition LOCAL_IMAGE_OPEN_TAG_PREFIX :: ustring where
  "LOCAL_IMAGE_OPEN_TAG_PREFIX = lit ''<image name=''"

definition LOCAL_IMAGE_OPEN_TAG_SUFFIX :: ustring where
  "LOCAL_IMAGE_OPEN_TAG_SUFFIX = lit ''>''"

definition local_image_label_text :: "nat \<Rightarrow> ustring" where
  "local_image_label_text n = lit ''[Image #'' @ decimal n @ lit '']''"

definition local_image_open_tag_text :: "nat \<Rightarrow> ustring" where
  "local_image_open_tag_text n =
     LOCAL_IMAGE_OPEN_TAG_PREFIX @ local_image_label_text n @ LOCAL_IMAGE_OPEN_TAG_SUFFIX"

definition is_local_image_open_tag_text :: "ustring \<Rightarrow> bool" where
  "is_local_image_open_tag_text text =
     (case strip_prefix LOCAL_IMAGE_OPEN_TAG_PREFIX text of
        None \<Rightarrow> False | Some rest \<Rightarrow> suffix LOCAL_IMAGE_OPEN_TAG_SUFFIX rest)"

definition is_image_open_tag_text :: "ustring \<Rightarrow> bool" where
  "is_image_open_tag_text text \<longleftrightarrow> text = IMAGE_OPEN_TAG"

definition is_image_close_tag_text :: "ustring \<Rightarrow> bool" where
  "is_image_close_tag_text text \<longleftrightarrow> text = IMAGE_CLOSE_TAG"

definition is_local_image_close_tag_text :: "ustring \<Rightarrow> bool" where
  "is_local_image_close_tag_text text = is_image_close_tag_text text"

text \<open>
  \<open>ImageProcessingError\<close>: the text of the error, and for a decoding error whether the file
  is no image at all.
\<close>

datatype image_error =
    ImageReadError ustring
  | ImageEncodeError ustring
  | ImageDecodeError bool ustring
  | UnsupportedImageFormat ustring

record image_files =
  read_image_file :: "ustring \<Rightarrow> ustring + nat list"
  load_for_prompt :: "ustring \<Rightarrow> nat list \<Rightarrow> image_error + ustring"

definition local_image_error_placeholder :: "ustring \<Rightarrow> ustring \<Rightarrow> content_item" where
  "local_image_error_placeholder path e =
     InputText (lit ''Codex could not read the local image at `'' @ path @ lit ''`: '' @ e)"

definition invalid_image_error_placeholder :: "ustring \<Rightarrow> ustring \<Rightarrow> content_item" where
  "invalid_image_error_placeholder path e =
     InputText (lit ''Image located at `'' @ path @ lit ''` is invalid: '' @ e)"

definition unsupported_image_error_placeholder :: "ustring \<Rightarrow> ustring \<Rightarrow> content_item" where
  "unsupported_image_error_placeholder path mime =
     InputText (lit ''Codex cannot attach image at `'' @ path @ lit ''`: unsupported image `'' @ mime @ lit ''`.'')"

definition local_image_content_items_with_label_number ::
  "image_files \<Rightarrow> ustring \<Rightarrow> nat list \<Rightarrow> nat option \<Rightarrow> content_item list" where
  "local_image_content_items_with_label_number fs path file_bytes label_number =
     (case load_for_prompt fs path file_bytes of
        Inr url \<Rightarrow>
          (case label_number of Some n \<Rightarrow> [InputText (local_image_open_tag_text n)] | None \<Rightarrow> [])
          @ [InputImage url (Some HighDetail)]
          @ (case label_number of Some _ \<Rightarrow> [InputText IMAGE_CLOSE_TAG] | None \<Rightarrow> [])
      | Inl (ImageReadError e) \<Rightarrow> [local_image_error_placeholder path e]
      | Inl (ImageEncodeError e) \<Rightarrow> [local_image_error_placeholder path e]
      | Inl (ImageDecodeError invalid e) \<Rightarrow>
          if invalid then [invalid_image_error_placeholder path e] else [local_image_error_placeholder path e]
      | Inl (UnsupportedImageFormat mime) \<Rightarrow> [unsupported_image_error_placeholder path mime])"

text \<open>\<open>From<Vec<UserInput>>\<close>: the images are numbered from one, whatever their kind.\<close>

fun input_contents :: "image_files \<Rightarrow> nat \<Rightarrow> user_input list \<Rightarrow> content_item list" where
  "input_contents fs image_index [] = []"
| "input_contents fs image_index (UserText text _ # inputs) =
     InputText text # input_contents fs image_index inputs"
| "input_contents fs image_index (UserImage url # inputs) =
     [InputText IMAGE_OPEN_TAG, InputImage url (Some HighDetail), InputText IMAGE_CLOSE_TAG]
     @ input_contents fs (image_index + 1) inputs"
| "input_contents fs image_index (UserLocalImage path # inputs) =
     (case read_image_file fs path of
        Inr file_bytes \<Rightarrow>
          local_image_content_items_with_label_number fs path file_bytes (Some (image_index + 1))
      | Inl e \<Rightarrow> [local_image_error_placeholder path e])
     @ input_contents fs (image_index + 1) inputs"
| "input_contents fs image_index (UserSkill _ _ # inputs) = input_contents fs image_index inputs"
| "input_contents fs image_index (UserMention _ _ # inputs) = input_contents fs image_index inputs"

definition message_of_user_input :: "image_files \<Rightarrow> user_input list \<Rightarrow> 'j response_item" where
  "message_of_user_input fs inputs = Message None (lit ''user'') (input_contents fs 0 inputs) None None"

section \<open>Turn items\<close>

record user_message_item =
  user_item_id :: ustring
  user_item_content :: "user_input list"

record memory_citation_entry =
  cited_path :: ustring
  line_start :: nat
  line_end :: nat
  cited_note :: ustring

record memory_citation =
  citation_entries :: "memory_citation_entry list"
  citation_rollout_ids :: "ustring list"

datatype agent_message_content = AgentText ustring

record agent_message_item =
  agent_item_id :: ustring
  agent_item_content :: "agent_message_content list"
  agent_phase :: "message_phase option"
  agent_memory_citation :: "memory_citation option"

record plan_item =
  plan_item_id :: ustring
  plan_text :: ustring

record reasoning_item =
  reasoning_item_id :: ustring
  summary_text :: "ustring list"
  raw_content :: "ustring list"

record web_search_item =
  search_item_id :: ustring
  search_query :: ustring
  search_action :: web_search_action

record image_generation_item =
  image_item_id :: ustring
  image_status :: ustring
  image_revised_prompt :: "ustring option"
  image_result :: ustring
  image_saved_path :: "ustring option"

datatype turn_item =
    UserMessageTurn user_message_item
  | HookPromptTurn hook_prompt_item
  | AgentMessageTurn agent_message_item
  | PlanTurn plan_item
  | ReasoningTurn reasoning_item
  | WebSearchTurn web_search_item
  | ImageGenerationTurn image_generation_item
  | ContextCompactionTurn ustring

fun turn_item_id :: "turn_item \<Rightarrow> ustring" where
  "turn_item_id (UserMessageTurn it) = user_item_id it"
| "turn_item_id (HookPromptTurn it) = hook_item_id it"
| "turn_item_id (AgentMessageTurn it) = agent_item_id it"
| "turn_item_id (PlanTurn it) = plan_item_id it"
| "turn_item_id (ReasoningTurn it) = reasoning_item_id it"
| "turn_item_id (WebSearchTurn it) = search_item_id it"
| "turn_item_id (ImageGenerationTurn it) = image_item_id it"
| "turn_item_id (ContextCompactionTurn i) = i"

text \<open>\<open>parse_user_message\<close> looks at the neighbours of a text to leave image tags out.\<close>

definition image_at :: "content_item list \<Rightarrow> nat \<Rightarrow> bool" where
  "image_at message i \<longleftrightarrow> i < length message \<and> is_image (message ! i)"

definition skips_text :: "content_item list \<Rightarrow> nat \<Rightarrow> ustring \<Rightarrow> bool" where
  "skips_text message idx text \<longleftrightarrow>
     (is_local_image_open_tag_text text \<or> is_image_open_tag_text text) \<and> image_at message (idx + 1)
     \<or> idx > 0 \<and> (is_local_image_close_tag_text text \<or> is_image_close_tag_text text) \<and> image_at message (idx - 1)"

fun parse_user_content :: "content_item list \<Rightarrow> nat \<Rightarrow> content_item list \<Rightarrow> user_input list" where
  "parse_user_content message idx [] = []"
| "parse_user_content message idx (InputText text # rest) =
     (if skips_text message idx text then parse_user_content message (idx + 1) rest
      else UserText text [] # parse_user_content message (idx + 1) rest)"
| "parse_user_content message idx (InputImage url _ # rest) =
     UserImage url # parse_user_content message (idx + 1) rest"
| "parse_user_content message idx (OutputText _ # rest) = parse_user_content message (idx + 1) rest"

definition parse_user_message :: "xml_reader \<Rightarrow> ustring \<Rightarrow> content_item list \<Rightarrow> user_message_item option" where
  "parse_user_message xml fresh message =
     (if is_contextual_user_message_content xml message then None
      else Some \<lparr>user_item_id = fresh, user_item_content = parse_user_content message 0 message\<rparr>)"

definition parse_agent_message ::
  "ustring \<Rightarrow> ustring option \<Rightarrow> content_item list \<Rightarrow> message_phase option \<Rightarrow> agent_message_item" where
  "parse_agent_message fresh item_id message phase =
     \<lparr>agent_item_id = (case item_id of Some i \<Rightarrow> i | None \<Rightarrow> fresh),
      agent_item_content = List.map_filter (\<lambda>it. case it of
          InputText t \<Rightarrow> Some (AgentText t) | OutputText t \<Rightarrow> Some (AgentText t) | InputImage _ _ \<Rightarrow> None) message,
      agent_phase = phase, agent_memory_citation = None\<rparr>"

definition search_first_query :: "ustring list option \<Rightarrow> ustring" where
  "search_first_query queries =
     (let first = (case queries of Some (q # _) \<Rightarrow> q | _ \<Rightarrow> [])
      in if (case queries of Some qs \<Rightarrow> length qs > 1 | None \<Rightarrow> False) \<and> first \<noteq> []
         then first @ lit '' ...'' else first)"

definition search_action_detail :: "ustring option \<Rightarrow> ustring list option \<Rightarrow> ustring" where
  "search_action_detail query queries =
     (case query of
        Some q \<Rightarrow> if q \<noteq> [] then q else search_first_query queries
      | None \<Rightarrow> search_first_query queries)"

fun web_search_action_detail :: "web_search_action \<Rightarrow> ustring" where
  "web_search_action_detail (SearchAction query queries) = search_action_detail query queries"
| "web_search_action_detail (OpenPageAction url) = (case url of Some u \<Rightarrow> u | None \<Rightarrow> [])"
| "web_search_action_detail (FindInPageAction url pattern) =
     (case (pattern, url) of
        (Some p, Some u) \<Rightarrow> lit [CHR 0x27] @ p @ lit [CHR 0x27] @ lit '' in '' @ u
      | (Some p, None) \<Rightarrow> lit [CHR 0x27] @ p @ lit [CHR 0x27]
      | (None, Some u) \<Rightarrow> u
      | (None, None) \<Rightarrow> [])"
| "web_search_action_detail OtherSearchAction = []"

definition web_search_detail :: "web_search_action option \<Rightarrow> ustring \<Rightarrow> ustring" where
  "web_search_detail action query =
     (let detail = (case action of Some a \<Rightarrow> web_search_action_detail a | None \<Rightarrow> [])
      in if detail = [] then query else detail)"

fun summary_entry_text :: "reasoning_summary \<Rightarrow> ustring" where
  "summary_entry_text (SummaryText t) = t"

fun reasoning_entry_text :: "reasoning_content \<Rightarrow> ustring" where
  "reasoning_entry_text (ReasoningText t) = t"
| "reasoning_entry_text (PlainText t) = t"

fun parse_turn_item :: "xml_reader \<Rightarrow> ustring \<Rightarrow> 'j response_item \<Rightarrow> turn_item option" where
  "parse_turn_item xml fresh (Message item_id role content _ phase) =
     (if role = lit ''user'' then
        (case parse_visible_hook_prompt_message xml fresh item_id content of
           Some h \<Rightarrow> Some (HookPromptTurn h)
         | None \<Rightarrow> map_option UserMessageTurn (parse_user_message xml fresh content))
      else if role = lit ''assistant'' then
        Some (AgentMessageTurn (parse_agent_message fresh item_id content phase))
      else None)"
| "parse_turn_item xml fresh (Reasoning item_id summary content _) =
     Some (ReasoningTurn \<lparr>reasoning_item_id = item_id, summary_text = map summary_entry_text summary,
       raw_content = map reasoning_entry_text (case content of Some c \<Rightarrow> c | None \<Rightarrow> [])\<rparr>)"
| "parse_turn_item xml fresh (WebSearchCall item_id _ action) =
     Some (WebSearchTurn
       (let (a, q) = (case action of
            Some a \<Rightarrow> (a, web_search_action_detail a) | None \<Rightarrow> (OtherSearchAction, []))
        in \<lparr>search_item_id = (case item_id of Some i \<Rightarrow> i | None \<Rightarrow> []), search_query = q, search_action = a\<rparr>))"
| "parse_turn_item xml fresh (ImageGenerationCall item_id status revised_prompt result) =
     Some (ImageGenerationTurn \<lparr>image_item_id = item_id, image_status = status,
       image_revised_prompt = revised_prompt, image_result = result, image_saved_path = None\<rparr>)"
| "parse_turn_item xml fresh _ = None"

section \<open>Legacy events\<close>

datatype legacy_event =
    UserMessageEvent ustring "ustring list option" "ustring list" "text_element list"
  | AgentMessageEvent ustring "message_phase option" "memory_citation option"
  | AgentReasoningEvent ustring
  | AgentReasoningRawContentEvent ustring
  | WebSearchEndEvent ustring ustring web_search_action
  | ImageGenerationEndEvent ustring ustring "ustring option" ustring "ustring option"
  | ContextCompactedEvent

definition user_item_message :: "user_message_item \<Rightarrow> ustring" where
  "user_item_message it =
     concat (map (\<lambda>c. case c of UserText text _ \<Rightarrow> text | _ \<Rightarrow> []) (user_item_content it))"

fun text_elements_loop :: "nat \<Rightarrow> user_input list \<Rightarrow> text_element list" where
  "text_elements_loop offset [] = []"
| "text_elements_loop offset (UserText text elems # inputs) =
     map (\<lambda>e. \<lparr>element_range = \<lparr>range_start = offset + range_start (element_range e),
                                range_end = offset + range_end (element_range e)\<rparr>,
               element_placeholder = placeholder_of e text\<rparr>) elems
     @ text_elements_loop (offset + byte_len text) inputs"
| "text_elements_loop offset (_ # inputs) = text_elements_loop offset inputs"

definition user_item_text_elements :: "user_message_item \<Rightarrow> text_element list" where
  "user_item_text_elements it = text_elements_loop 0 (user_item_content it)"

definition user_item_image_urls :: "user_message_item \<Rightarrow> ustring list" where
  "user_item_image_urls it =
     List.map_filter (\<lambda>c. case c of UserImage url \<Rightarrow> Some url | _ \<Rightarrow> None) (user_item_content it)"

definition user_item_local_image_paths :: "user_message_item \<Rightarrow> ustring list" where
  "user_item_local_image_paths it =
     List.map_filter (\<lambda>c. case c of UserLocalImage path \<Rightarrow> Some path | _ \<Rightarrow> None) (user_item_content it)"

fun as_legacy_events :: "bool \<Rightarrow> turn_item \<Rightarrow> legacy_event list" where
  "as_legacy_events raw (UserMessageTurn it) =
     [UserMessageEvent (user_item_message it) (Some (user_item_image_urls it))
        (user_item_local_image_paths it) (user_item_text_elements it)]"
| "as_legacy_events raw (HookPromptTurn it) = []"
| "as_legacy_events raw (AgentMessageTurn it) =
     map (\<lambda>c. case c of AgentText t \<Rightarrow> AgentMessageEvent t (agent_phase it) (agent_memory_citation it))
       (agent_item_content it)"
| "as_legacy_events raw (PlanTurn it) = []"
| "as_legacy_events raw (WebSearchTurn it) =
     [WebSearchEndEvent (search_item_id it) (search_query it) (search_action it)]"
| "as_legacy_events raw (ImageGenerationTurn it) =
     [ImageGenerationEndEvent (image_item_id it) (image_status it) (image_revised_prompt it)
        (image_result it) (image_saved_path it)]"
| "as_legacy_events raw (ReasoningTurn it) =
     map AgentReasoningEvent (summary_text it)
     @ (if raw then map AgentReasoningRawContentEvent (raw_content it) else [])"
| "as_legacy_events raw (ContextCompactionTurn i) = [ContextCompactedEvent]"

section \<open>What comes back\<close>

text \<open>What the user is shown for an input: skills and mentions are dropped, a local image is its
  data URL or the text that says why it could not be attached.\<close>

fun shown_input :: "image_files \<Rightarrow> user_input \<Rightarrow> user_input list" where
  "shown_input fs (UserText text _) = [UserText text []]"
| "shown_input fs (UserImage url) = [UserImage url]"
| "shown_input fs (UserLocalImage path) =
     (case read_image_file fs path of
        Inl e \<Rightarrow> [UserText (lit ''Codex could not read the local image at `'' @ path @ lit ''`: '' @ e) []]
      | Inr file_bytes \<Rightarrow>
          (case load_for_prompt fs path file_bytes of
             Inr url \<Rightarrow> [UserImage url]
           | Inl _ \<Rightarrow>
               map (\<lambda>c. case c of InputText t \<Rightarrow> UserText t [] | _ \<Rightarrow> UserText [] [])
                 (local_image_content_items_with_label_number fs path file_bytes None)))"
| "shown_input fs (UserSkill _ _) = []"
| "shown_input fs (UserMention _ _) = []"

text \<open>The first and the last content item an input contributes are never images.\<close>

lemma parse_user_content_text:
  assumes "\<not> image_at message (idx + 1)" "idx = 0 \<or> \<not> image_at message (idx - 1)"
  shows "parse_user_content message idx (InputText text # rest) =
    UserText text [] # parse_user_content message (idx + 1) rest"
  using assms by (auto simp: skips_text_def)

lemma image_at_append:
  "image_at (pre @ c # rest) (length pre) = is_image c"
  "image_at (pre @ c # d # rest) (Suc (length pre)) = is_image d"
  by (simp_all add: image_at_def nth_append)

lemma head_not_image: "\<not> image_at (pre @ input_contents fs n inputs) (length pre)"
  by (induction fs n inputs rule: input_contents.induct)
    (auto simp: image_at_def nth_append local_image_content_items_with_label_number_def
      local_image_error_placeholder_def invalid_image_error_placeholder_def
      unsupported_image_error_placeholder_def split: sum.splits image_error.splits)

lemma local_open_tag: "is_local_image_open_tag_text (local_image_open_tag_text n)"
  by (simp add: is_local_image_open_tag_text_def local_image_open_tag_text_def strip_prefix_def
      suffix_append)

lemma parse_tagged_image:
  assumes "is_local_image_open_tag_text t \<or> is_image_open_tag_text t"
    and "message = pre @ InputText t # InputImage url d # InputText IMAGE_CLOSE_TAG # rest"
  shows "parse_user_content message (length pre) (InputText t # InputImage url d # InputText IMAGE_CLOSE_TAG # rest) =
    UserImage url # parse_user_content message (length pre + 3) rest"
proof -
  have "image_at message (length pre + 1)"
    using assms(2) by (simp add: image_at_def nth_append)
  then have "skips_text message (length pre) t" "skips_text message (length pre + 2) IMAGE_CLOSE_TAG"
    using assms(1) by (auto simp: skips_text_def is_image_close_tag_text_def)
  then show ?thesis by (simp add: numeral_eq_Suc)
qed

lemma parse_plain_text:
  assumes "message = pre @ InputText t # input_contents fs n inputs"
    and "pre = [] \<or> \<not> is_image (last pre)"
  shows "parse_user_content message (length pre) (InputText t # input_contents fs n inputs) =
    UserText t [] # parse_user_content message (length pre + 1) (input_contents fs n inputs)"
proof (rule parse_user_content_text)
  show "\<not> image_at message (length pre + 1)"
    using head_not_image [of "pre @ [InputText t]" fs n inputs] assms(1) by simp
  show "length pre = 0 \<or> \<not> image_at message (length pre - 1)"
    using assms by (cases pre rule: rev_cases) (auto simp: image_at_def nth_append)
qed

lemma parse_input_contents:
  assumes "message = pre @ input_contents fs n inputs" "pre = [] \<or> \<not> is_image (last pre)"
  shows "parse_user_content message (length pre) (input_contents fs n inputs) =
    concat (map (shown_input fs) inputs)"
  using assms
proof (induction inputs arbitrary: n pre)
  case (Cons c inputs)
  have plain: "parse_user_content message (length pre) (InputText t # input_contents fs k inputs) =
      UserText t [] # concat (map (shown_input fs) inputs)"
    if "message = pre @ InputText t # input_contents fs k inputs" for t k
    using parse_plain_text [OF that Cons.prems(2)] Cons.IH [of "pre @ [InputText t]" k] that by simp
  have image: "parse_user_content message (length pre)
        (InputText t # InputImage url d # InputText IMAGE_CLOSE_TAG # input_contents fs k inputs) =
      UserImage url # concat (map (shown_input fs) inputs)"
    if "message = pre @ InputText t # InputImage url d # InputText IMAGE_CLOSE_TAG # input_contents fs k inputs"
      and "is_local_image_open_tag_text t \<or> is_image_open_tag_text t" for t url d k
    using parse_tagged_image [OF that(2,1)] that(1)
      Cons.IH [of "pre @ [InputText t, InputImage url d, InputText IMAGE_CLOSE_TAG]" k]
    by (simp add: numeral_eq_Suc)
  show ?case
  proof (cases c)
    case (UserText t e)
    then show ?thesis using plain Cons.prems(1) by simp
  next
    case (UserImage url)
    then show ?thesis using image Cons.prems(1) by (simp add: is_image_open_tag_text_def)
  next
    case (UserLocalImage path)
    then show ?thesis
      using plain image [OF _ disjI1 [OF local_open_tag]] Cons.prems(1)
      by (auto simp: local_image_content_items_with_label_number_def local_image_error_placeholder_def
          invalid_image_error_placeholder_def unsupported_image_error_placeholder_def
          split: sum.splits image_error.splits if_splits)
  next
    case (UserSkill a b)
    then show ?thesis using Cons by simp
  next
    case (UserMention a b)
    then show ?thesis using Cons by simp
  qed
qed simp

text \<open>
  What the user entered is what the user is shown: the item read back from the message has
  the texts and images of the input in their order, without the tags that wrap the images,
  unless one of the texts is a context fragment.
\<close>

theorem user_input_is_shown_back:
  assumes "\<not> is_contextual_user_message_content xml (input_contents fs 0 inputs)"
  shows "parse_user_message xml fresh (input_contents fs 0 inputs) =
    Some \<lparr>user_item_id = fresh, user_item_content = concat (map (shown_input fs) inputs)\<rparr>"
  using assms parse_input_contents [of "input_contents fs 0 inputs" "[]" fs 0 inputs]
  by (simp add: parse_user_message_def)

theorem user_input_is_shown_back_witness:
  "parse_user_message (\<lambda>_. None) (lit ''id'')
     (input_contents \<lparr>read_image_file = \<lambda>_. Inr [1], load_for_prompt = \<lambda>_ _. Inr (lit ''data:'')\<rparr> 0
       [UserText (lit ''<image>'') [], UserLocalImage (lit ''a.png''), UserText (lit ''</image>'') []]) =
   Some \<lparr>user_item_id = lit ''id'',
     user_item_content = [UserText (lit ''<image>'') [], UserImage (lit ''data:''), UserText (lit ''</image>'') []]\<rparr>"
proof -
  let ?fs = "\<lparr>read_image_file = \<lambda>_. Inr [1], load_for_prompt = \<lambda>_ _. Inr (lit ''data:'')\<rparr>"
  have "\<not> is_contextual_user_message_content (\<lambda>_. None) (input_contents ?fs 0
       [UserText (lit ''<image>'') [], UserLocalImage (lit ''a.png''), UserText (lit ''</image>'') []])"
    by (simp add: is_contextual_user_message_content_def is_contextual_user_fragment_def
        parse_hook_prompt_fragment_def local_image_content_items_with_label_number_def
        local_image_open_tag_text_def local_image_label_text_def LOCAL_IMAGE_OPEN_TAG_PREFIX_def
        LOCAL_IMAGE_OPEN_TAG_SUFFIX_def IMAGE_CLOSE_TAG_def decimal.simps contextual_text_eval)
  from user_input_is_shown_back [OF this, of "lit ''id''"] show ?thesis by simp
qed

end
