(* ===== verification/ContextNormalize.thy ===== *)
theory ContextNormalize
  imports ResponseItems
begin

text \<open>
  Repairing a conversation before it is sent (\<open>core/src/context_manager/normalize.rs\<close>): a call
  without an output gets one, an output without a call goes, images go where the model takes
  none. \<open>error_or_panic\<close> panics in a build with debug assertions, which is the argument
  \<open>debug\<close>; a panic is \<open>None\<close>.
\<close>

section \<open>Outputs for calls without one\<close>

definition IMAGE_CONTENT_OMITTED_PLACEHOLDER :: ustring where
  "IMAGE_CONTENT_OMITTED_PLACEHOLDER = lit ''image content omitted because you do not support image input''"

definition error_or_panic :: "bool \<Rightarrow> 'a \<Rightarrow> 'a option" where
  "error_or_panic debug continue = (if debug then None else Some continue)"

text \<open>The tests of the code's match arms.\<close>

fun is_function_output_for :: "ustring \<Rightarrow> 'j response_item \<Rightarrow> bool" where
  "is_function_output_for call_id (FunctionCallOutput existing _) \<longleftrightarrow> existing = call_id"
| "is_function_output_for call_id _ \<longleftrightarrow> False"

fun is_tool_search_output_for :: "ustring \<Rightarrow> 'j response_item \<Rightarrow> bool" where
  "is_tool_search_output_for call_id (ToolSearchOutput (Some existing) _ _ _) \<longleftrightarrow> existing = call_id"
| "is_tool_search_output_for call_id _ \<longleftrightarrow> False"

fun is_custom_output_for :: "ustring \<Rightarrow> 'j response_item \<Rightarrow> bool" where
  "is_custom_output_for call_id (CustomToolCallOutput existing _ _) \<longleftrightarrow> existing = call_id"
| "is_custom_output_for call_id _ \<longleftrightarrow> False"

fun is_function_call_for :: "ustring \<Rightarrow> 'j response_item \<Rightarrow> bool" where
  "is_function_call_for call_id (FunctionCall _ _ _ _ existing) \<longleftrightarrow> existing = call_id"
| "is_function_call_for call_id _ \<longleftrightarrow> False"

fun is_local_shell_call_for :: "ustring \<Rightarrow> 'j response_item \<Rightarrow> bool" where
  "is_local_shell_call_for call_id (LocalShellCall _ (Some existing) _ _) \<longleftrightarrow> existing = call_id"
| "is_local_shell_call_for call_id _ \<longleftrightarrow> False"

fun is_tool_search_call_for :: "ustring \<Rightarrow> 'j response_item \<Rightarrow> bool" where
  "is_tool_search_call_for call_id (ToolSearchCall _ (Some existing) _ _ _) \<longleftrightarrow> existing = call_id"
| "is_tool_search_call_for call_id _ \<longleftrightarrow> False"

fun is_custom_call_for :: "ustring \<Rightarrow> 'j response_item \<Rightarrow> bool" where
  "is_custom_call_for call_id (CustomToolCall _ _ existing _ _) \<longleftrightarrow> existing = call_id"
| "is_custom_call_for call_id _ \<longleftrightarrow> False"

definition aborted_payload :: output_payload where
  "aborted_payload = payload_from_text (lit ''aborted'')"

text \<open>
  One step of the loop: the output to insert after an item, if any. A missing output of a
  custom tool call or of a local shell call is reported by \<open>error_or_panic\<close>.
\<close>

fun missing_output :: "bool \<Rightarrow> 'j response_item list \<Rightarrow> 'j response_item \<Rightarrow> 'j response_item option option" where
  "missing_output debug xs (FunctionCall _ _ _ _ call_id) =
     (if list_ex (is_function_output_for call_id) xs then Some None
      else Some (Some (FunctionCallOutput call_id aborted_payload)))"
| "missing_output debug xs (ToolSearchCall _ (Some call_id) _ _ _) =
     (if list_ex (is_tool_search_output_for call_id) xs then Some None
      else Some (Some (ToolSearchOutput (Some call_id) (lit ''completed'') (lit ''client'') [])))"
| "missing_output debug xs (CustomToolCall _ _ call_id _ _) =
     (if list_ex (is_custom_output_for call_id) xs then Some None
      else error_or_panic debug (Some (CustomToolCallOutput call_id None aborted_payload)))"
| "missing_output debug xs (LocalShellCall _ (Some call_id) _ _) =
     (if list_ex (is_function_output_for call_id) xs then Some None
      else error_or_panic debug (Some (FunctionCallOutput call_id aborted_payload)))"
| "missing_output debug xs _ = Some None"

fun missing_outputs_to_insert ::
  "bool \<Rightarrow> 'j response_item list \<Rightarrow> nat \<Rightarrow> 'j response_item list \<Rightarrow> (nat \<times> 'j response_item) list option"
where
  "missing_outputs_to_insert debug xs idx [] = Some []"
| "missing_outputs_to_insert debug xs idx (it # rest) =
     (case missing_output debug xs it of
        None \<Rightarrow> None
      | Some None \<Rightarrow> missing_outputs_to_insert debug xs (idx + 1) rest
      | Some (Some out) \<Rightarrow> map_option (Cons (idx, out)) (missing_outputs_to_insert debug xs (idx + 1) rest))"

text \<open>The insertions run over the reversed list so that earlier positions stay valid.\<close>

definition ensure_call_outputs_present :: "bool \<Rightarrow> 'j response_item list \<Rightarrow> 'j response_item list option" where
  "ensure_call_outputs_present debug xs =
     map_option (\<lambda>ms. foldl (\<lambda>acc (idx, out). insert_nth (idx + 1) out acc) xs (rev ms))
       (missing_outputs_to_insert debug xs 0 xs)"

section \<open>Outputs without a call\<close>

definition function_call_ids :: "'j response_item list \<Rightarrow> ustring list" where
  "function_call_ids xs = List.map_filter (\<lambda>it. case it of FunctionCall _ _ _ _ c \<Rightarrow> Some c | _ \<Rightarrow> None) xs"

definition tool_search_call_ids :: "'j response_item list \<Rightarrow> ustring list" where
  "tool_search_call_ids xs = List.map_filter (\<lambda>it. case it of ToolSearchCall _ c _ _ _ \<Rightarrow> c | _ \<Rightarrow> None) xs"

definition local_shell_call_ids :: "'j response_item list \<Rightarrow> ustring list" where
  "local_shell_call_ids xs = List.map_filter (\<lambda>it. case it of LocalShellCall _ c _ _ \<Rightarrow> c | _ \<Rightarrow> None) xs"

definition custom_tool_call_ids :: "'j response_item list \<Rightarrow> ustring list" where
  "custom_tool_call_ids xs = List.map_filter (\<lambda>it. case it of CustomToolCall _ _ c _ _ \<Rightarrow> Some c | _ \<Rightarrow> None) xs"

definition keep_or_report :: "bool \<Rightarrow> bool \<Rightarrow> bool option" where
  "keep_or_report debug has_match = (if has_match then Some True else error_or_panic debug False)"

text \<open>The closure of \<open>retain\<close>: whether an item stays.\<close>

fun keeps_output :: "bool \<Rightarrow> 'j response_item list \<Rightarrow> 'j response_item \<Rightarrow> bool option" where
  "keeps_output debug xs (FunctionCallOutput call_id _) =
     keep_or_report debug (call_id \<in> set (function_call_ids xs) \<or> call_id \<in> set (local_shell_call_ids xs))"
| "keeps_output debug xs (CustomToolCallOutput call_id _ _) =
     keep_or_report debug (call_id \<in> set (custom_tool_call_ids xs))"
| "keeps_output debug xs (ToolSearchOutput call_id _ execution _) =
     (if execution = lit ''server'' then Some True
      else case call_id of
          Some c \<Rightarrow> keep_or_report debug (c \<in> set (tool_search_call_ids xs))
        | None \<Rightarrow> Some True)"
| "keeps_output debug xs _ = Some True"

fun retain_outputs :: "bool \<Rightarrow> 'j response_item list \<Rightarrow> 'j response_item list \<Rightarrow> 'j response_item list option" where
  "retain_outputs debug xs [] = Some []"
| "retain_outputs debug xs (it # rest) =
     (case keeps_output debug xs it of
        None \<Rightarrow> None
      | Some keep \<Rightarrow> map_option (\<lambda>kept. if keep then it # kept else kept) (retain_outputs debug xs rest))"

definition remove_orphan_outputs :: "bool \<Rightarrow> 'j response_item list \<Rightarrow> 'j response_item list option" where
  "remove_orphan_outputs debug xs = retain_outputs debug xs xs"

section \<open>The counterpart of a removed item\<close>

definition remove_first_matching :: "('a \<Rightarrow> bool) \<Rightarrow> 'a list \<Rightarrow> 'a list" where
  "remove_first_matching p xs = (case position p xs of Some pos \<Rightarrow> remove_nth pos xs | None \<Rightarrow> xs)"

fun remove_corresponding_for :: "'j response_item list \<Rightarrow> 'j response_item \<Rightarrow> 'j response_item list" where
  "remove_corresponding_for xs (FunctionCall _ _ _ _ call_id) =
     remove_first_matching (is_function_output_for call_id) xs"
| "remove_corresponding_for xs (FunctionCallOutput call_id _) =
     (case position (is_function_call_for call_id) xs of
        Some pos \<Rightarrow> remove_nth pos xs
      | None \<Rightarrow>
          (case position (is_local_shell_call_for call_id) xs of
             Some pos \<Rightarrow> remove_nth pos xs
           | None \<Rightarrow> xs))"
| "remove_corresponding_for xs (ToolSearchCall _ (Some call_id) _ _ _) =
     remove_first_matching (is_tool_search_output_for call_id) xs"
| "remove_corresponding_for xs (ToolSearchOutput (Some call_id) _ _ _) =
     remove_first_matching (is_tool_search_call_for call_id) xs"
| "remove_corresponding_for xs (CustomToolCall _ _ call_id _ _) =
     remove_first_matching (is_custom_output_for call_id) xs"
| "remove_corresponding_for xs (CustomToolCallOutput call_id _ _) =
     remove_first_matching (is_custom_call_for call_id) xs"
| "remove_corresponding_for xs (LocalShellCall _ (Some call_id) _ _) =
     remove_first_matching (is_function_output_for call_id) xs"
| "remove_corresponding_for xs _ = xs"

section \<open>Images a model does not take\<close>

datatype input_modality = TextModality | ImageModality

definition strip_content_images :: "content_item list \<Rightarrow> content_item list" where
  "strip_content_images content =
     map (\<lambda>it. case it of InputImage _ _ \<Rightarrow> InputText IMAGE_CONTENT_OMITTED_PLACEHOLDER | _ \<Rightarrow> it) content"

definition strip_output_images :: "ustring \<Rightarrow> output_payload \<Rightarrow> output_payload" where
  "strip_output_images placeholder p =
     (case payload_body p of
        TextBody _ \<Rightarrow> p
      | ContentItems xs \<Rightarrow>
          p\<lparr>payload_body := ContentItems (map (\<lambda>it. case it of
              OutputItemImage _ _ \<Rightarrow> OutputItemText placeholder | _ \<Rightarrow> it) xs)\<rparr>)"

fun strip_item_images :: "'j response_item \<Rightarrow> 'j response_item" where
  "strip_item_images (Message item_id role content end_turn phase) =
     Message item_id role (strip_content_images content) end_turn phase"
| "strip_item_images (FunctionCallOutput call_id output) =
     FunctionCallOutput call_id (strip_output_images IMAGE_CONTENT_OMITTED_PLACEHOLDER output)"
| "strip_item_images (CustomToolCallOutput call_id name output) =
     CustomToolCallOutput call_id name (strip_output_images IMAGE_CONTENT_OMITTED_PLACEHOLDER output)"
| "strip_item_images (ImageGenerationCall item_id status revised_prompt _) =
     ImageGenerationCall item_id status revised_prompt []"
| "strip_item_images it = it"

definition strip_images_when_unsupported ::
  "input_modality list \<Rightarrow> 'j response_item list \<Rightarrow> 'j response_item list" where
  "strip_images_when_unsupported modalities xs =
     (if ImageModality \<in> set modalities then xs else map strip_item_images xs)"

text \<open>\<open>normalize_history\<close> of \<open>history.rs\<close>.\<close>

definition normalize_history :: "bool \<Rightarrow> input_modality list \<Rightarrow> 'j response_item list \<Rightarrow> 'j response_item list option" where
  "normalize_history debug modalities xs =
     map_option (strip_images_when_unsupported modalities)
       (Option.bind (ensure_call_outputs_present debug xs) (remove_orphan_outputs debug))"

section \<open>Calls and outputs by key\<close>

text \<open>The kind of a call and its id; a local shell call is answered like a function call.\<close>

datatype pair_key = FunctionKey ustring | SearchKey ustring | CustomKey ustring

fun call_key :: "'j response_item \<Rightarrow> pair_key option" where
  "call_key (FunctionCall _ _ _ _ c) = Some (FunctionKey c)"
| "call_key (LocalShellCall _ c _ _) = map_option FunctionKey c"
| "call_key (ToolSearchCall _ c _ _ _) = map_option SearchKey c"
| "call_key (CustomToolCall _ _ c _ _) = Some (CustomKey c)"
| "call_key _ = None"

fun output_key :: "'j response_item \<Rightarrow> pair_key option" where
  "output_key (FunctionCallOutput c _) = Some (FunctionKey c)"
| "output_key (CustomToolCallOutput c _ _) = Some (CustomKey c)"
| "output_key (ToolSearchOutput c _ _ _) = map_option SearchKey c"
| "output_key _ = None"

text \<open>The output of a search the server ran itself needs no call.\<close>

fun needs_call :: "'j response_item \<Rightarrow> bool" where
  "needs_call (ToolSearchOutput _ _ execution _) \<longleftrightarrow> execution \<noteq> lit ''server''"
| "needs_call _ \<longleftrightarrow> True"

definition call_keys :: "'j response_item list \<Rightarrow> pair_key list" where
  "call_keys xs = List.map_filter call_key xs"

definition output_keys :: "'j response_item list \<Rightarrow> pair_key list" where
  "output_keys xs = List.map_filter output_key xs"

definition every_call_answered :: "'j response_item list \<Rightarrow> bool" where
  "every_call_answered xs \<longleftrightarrow> set (call_keys xs) \<subseteq> set (output_keys xs)"

definition every_output_called :: "'j response_item list \<Rightarrow> bool" where
  "every_output_called xs \<longleftrightarrow> set (output_keys (filter needs_call xs)) \<subseteq> set (call_keys xs)"

definition paired :: "'j response_item list \<Rightarrow> bool" where
  "paired xs \<longleftrightarrow> every_call_answered xs \<and> every_output_called xs"

fun has_image :: "'j response_item \<Rightarrow> bool" where
  "has_image (Message _ _ content _ _) \<longleftrightarrow> list_ex is_image content"
| "has_image (FunctionCallOutput _ p) \<longleftrightarrow>
     (case payload_body p of ContentItems xs \<Rightarrow> list_ex is_output_image xs | _ \<Rightarrow> False)"
| "has_image (CustomToolCallOutput _ _ p) \<longleftrightarrow>
     (case payload_body p of ContentItems xs \<Rightarrow> list_ex is_output_image xs | _ \<Rightarrow> False)"
| "has_image (ImageGenerationCall _ _ _ result) \<longleftrightarrow> result \<noteq> []"
| "has_image _ \<longleftrightarrow> False"

section \<open>The match arms in terms of keys\<close>

lemma function_output_key [simp]: "is_function_output_for c it \<longleftrightarrow> output_key it = Some (FunctionKey c)"
  by (induction c it rule: is_function_output_for.induct) auto

lemma tool_search_output_key [simp]: "is_tool_search_output_for c it \<longleftrightarrow> output_key it = Some (SearchKey c)"
  by (induction c it rule: is_tool_search_output_for.induct) auto

lemma custom_output_key [simp]: "is_custom_output_for c it \<longleftrightarrow> output_key it = Some (CustomKey c)"
  by (induction c it rule: is_custom_output_for.induct) auto

lemma tool_search_call_key [simp]: "is_tool_search_call_for c it \<longleftrightarrow> call_key it = Some (SearchKey c)"
  by (induction c it rule: is_tool_search_call_for.induct) auto

lemma custom_call_key [simp]: "is_custom_call_for c it \<longleftrightarrow> call_key it = Some (CustomKey c)"
  by (induction c it rule: is_custom_call_for.induct) auto

lemma function_call_key:
  "is_function_call_for c it \<or> is_local_shell_call_for c it \<longleftrightarrow> call_key it = Some (FunctionKey c)"
proof -
  have "is_function_call_for c it \<Longrightarrow> call_key it = Some (FunctionKey c)"
    by (induction c it rule: is_function_call_for.induct) auto
  moreover have "is_local_shell_call_for c it \<Longrightarrow> call_key it = Some (FunctionKey c)"
    by (induction c it rule: is_local_shell_call_for.induct) auto
  moreover have "call_key it = Some (FunctionKey c) \<Longrightarrow> is_function_call_for c it \<or> is_local_shell_call_for c it"
    by (cases it) (auto split: option.splits)
  ultimately show ?thesis by blast
qed

lemma call_or_output [simp]: "call_key it = Some k \<Longrightarrow> output_key it = None"
  by (cases it) auto

lemma output_or_call [simp]: "output_key it = Some k \<Longrightarrow> call_key it = None"
  by (cases it) auto

lemma in_output_keys [simp]: "k \<in> set (output_keys xs) \<longleftrightarrow> (\<exists>it \<in> set xs. output_key it = Some k)"
  by (simp add: output_keys_def)

lemma in_call_keys [simp]: "k \<in> set (call_keys xs) \<longleftrightarrow> (\<exists>it \<in> set xs. call_key it = Some k)"
  by (simp add: call_keys_def)

lemma paired_iff:
  "paired xs \<longleftrightarrow>
     (\<forall>it \<in> set xs. \<forall>k. call_key it = Some k \<longrightarrow> (\<exists>out \<in> set xs. output_key out = Some k)) \<and>
     (\<forall>it \<in> set xs. \<forall>k. needs_call it \<longrightarrow> output_key it = Some k \<longrightarrow> (\<exists>call \<in> set xs. call_key call = Some k))"
  by (auto simp: paired_def every_call_answered_def every_output_called_def subset_iff)

section \<open>Every call is answered\<close>

fun synthetic_output :: "pair_key \<Rightarrow> 'j response_item" where
  "synthetic_output (FunctionKey c) = FunctionCallOutput c aborted_payload"
| "synthetic_output (SearchKey c) = ToolSearchOutput (Some c) (lit ''completed'') (lit ''client'') []"
| "synthetic_output (CustomKey c) = CustomToolCallOutput c None aborted_payload"

lemma synthetic_keys [simp]:
  "output_key (synthetic_output k) = Some k" "call_key (synthetic_output k) = None"
  by (cases k; simp)+

definition answer :: "'j response_item list \<Rightarrow> 'j response_item \<Rightarrow> 'j response_item option" where
  "answer xs it = (case call_key it of
     None \<Rightarrow> None
   | Some k \<Rightarrow> if k \<in> set (output_keys xs) then None else Some (synthetic_output k))"

lemma missing_output_release: "missing_output False xs it = Some (answer xs it)"
  by (induction "False" xs it rule: missing_output.induct)
    (auto simp: answer_def error_or_panic_def list_ex_iff)

lemma missing_output_answered: "k \<in> set (output_keys xs) \<Longrightarrow> call_key it = Some k \<Longrightarrow> missing_output debug xs it = Some None"
  by (induction debug xs it rule: missing_output.induct) (auto simp: list_ex_iff)

lemma missing_output_no_call: "call_key it = None \<Longrightarrow> missing_output debug xs it = Some None"
  by (induction debug xs it rule: missing_output.induct) auto

lemma insertions:
  "missing_outputs_to_insert False xs (length pre) rest = Some ms \<Longrightarrow>
   foldl (\<lambda>acc (idx, out). insert_nth (idx + 1) out acc) (pre @ rest) (rev ms) =
   pre @ concat (map (\<lambda>it. it # (case answer xs it of None \<Rightarrow> [] | Some out \<Rightarrow> [out])) rest)"
proof (induction rest arbitrary: pre ms)
  case (Cons it rest)
  show ?case
  proof (cases "answer xs it")
    case None
    then show ?thesis using Cons.IH [of "pre @ [it]" ms] Cons.prems by (simp add: missing_output_release)
  next
    case (Some out)
    then obtain ms' where ms': "missing_outputs_to_insert False xs (length (pre @ [it])) rest = Some ms'"
        "ms = (length pre, out) # ms'"
      using Cons.prems by (auto simp: missing_output_release)
    show ?thesis using Cons.IH [OF ms'(1)] ms'(2) Some by (simp add: insert_nth_def)
  qed
qed simp

lemma missing_outputs_release: "\<exists>ms. missing_outputs_to_insert False xs idx rest = Some ms"
proof (induction rest arbitrary: idx)
  case (Cons it rest)
  from Cons.IH [of "idx + 1"] obtain ms where "missing_outputs_to_insert False xs (idx + 1) rest = Some ms" ..
  then show ?case by (simp add: missing_output_release split: option.split)
qed simp

definition answered :: "'j response_item list \<Rightarrow> 'j response_item list" where
  "answered xs = concat (map (\<lambda>it. it # (case answer xs it of None \<Rightarrow> [] | Some out \<Rightarrow> [out])) xs)"

lemma ensure_release: "ensure_call_outputs_present False xs = Some (answered xs)"
proof -
  obtain ms where "missing_outputs_to_insert False xs (length []) xs = Some ms"
    using missing_outputs_release by (metis list.size(3))
  then show ?thesis using insertions [of xs "[]" xs ms] by (simp add: ensure_call_outputs_present_def answered_def)
qed

lemma ensure_paired: "every_call_answered xs \<Longrightarrow> ensure_call_outputs_present debug xs = Some xs"
proof -
  assume "every_call_answered xs"
  then have "missing_output debug xs it = Some None" if "it \<in> set xs" for it
    using that missing_output_answered [of _ xs it debug] missing_output_no_call [of it debug xs]
    by (cases "call_key it") (auto simp: every_call_answered_def subset_iff)
  then have "set rest \<subseteq> set xs \<Longrightarrow> missing_outputs_to_insert debug xs idx rest = Some []" for idx rest
    by (induction rest arbitrary: idx) auto
  then show ?thesis by (simp add: ensure_call_outputs_present_def)
qed

section \<open>Every output is called for\<close>

definition called :: "'j response_item list \<Rightarrow> 'j response_item \<Rightarrow> bool" where
  "called xs it \<longleftrightarrow> (case output_key it of
     None \<Rightarrow> True | Some k \<Rightarrow> needs_call it \<longrightarrow> k \<in> set (call_keys xs))"

lemma call_ids:
  "c \<in> set (function_call_ids xs) \<or> c \<in> set (local_shell_call_ids xs) \<longleftrightarrow> FunctionKey c \<in> set (call_keys xs)"
  "c \<in> set (tool_search_call_ids xs) \<longleftrightarrow> SearchKey c \<in> set (call_keys xs)"
  "c \<in> set (custom_tool_call_ids xs) \<longleftrightarrow> CustomKey c \<in> set (call_keys xs)"
proof -
  have f: "call_key it = Some (FunctionKey c) \<longleftrightarrow>
      (case it of FunctionCall _ _ _ _ c \<Rightarrow> Some c | _ \<Rightarrow> None) = Some c \<or>
      (case it of LocalShellCall _ c _ _ \<Rightarrow> c | _ \<Rightarrow> None) = Some c" for it :: "'a response_item"
    by (cases it) auto
  have s: "call_key it = Some (SearchKey c) \<longleftrightarrow>
      (case it of ToolSearchCall _ c _ _ _ \<Rightarrow> c | _ \<Rightarrow> None) = Some c" for it :: "'a response_item"
    by (cases it) auto
  have u: "call_key it = Some (CustomKey c) \<longleftrightarrow>
      (case it of CustomToolCall _ _ c _ _ \<Rightarrow> Some c | _ \<Rightarrow> None) = Some c" for it :: "'a response_item"
    by (cases it) auto
  show "c \<in> set (function_call_ids xs) \<or> c \<in> set (local_shell_call_ids xs) \<longleftrightarrow> FunctionKey c \<in> set (call_keys xs)"
    unfolding function_call_ids_def local_shell_call_ids_def in_call_keys in_set_map_filter f by blast
  show "c \<in> set (tool_search_call_ids xs) \<longleftrightarrow> SearchKey c \<in> set (call_keys xs)"
    unfolding tool_search_call_ids_def in_call_keys in_set_map_filter s by blast
  show "c \<in> set (custom_tool_call_ids xs) \<longleftrightarrow> CustomKey c \<in> set (call_keys xs)"
    unfolding custom_tool_call_ids_def in_call_keys in_set_map_filter u by blast
qed

lemma keeps_output_called:
  "keeps_output debug xs it = (if called xs it then Some True else error_or_panic debug False)"
  by (induction debug xs it rule: keeps_output.induct)
    (auto simp only: keeps_output.simps keep_or_report_def called_def output_key.simps needs_call.simps
      call_ids option.case option.map simp_thms if_True if_False split: option.splits if_splits)

lemma retain_release: "retain_outputs False xs ys = Some (filter (called xs) ys)"
  by (induction ys) (auto simp: keeps_output_called error_or_panic_def)

lemma remove_orphans_release: "remove_orphan_outputs False xs = Some (filter (called xs) xs)"
  by (simp add: remove_orphan_outputs_def retain_release)

lemma remove_orphans_called: "every_output_called xs \<Longrightarrow> remove_orphan_outputs debug xs = Some xs"
proof -
  assume "every_output_called xs"
  then have ok: "called xs it" if "it \<in> set xs" for it
    using that by (auto simp: called_def every_output_called_def subset_iff split: option.split)
  have "set ys \<subseteq> set xs \<Longrightarrow> retain_outputs debug xs ys = Some ys" for ys
    by (induction ys) (auto simp: keeps_output_called ok)
  then show ?thesis by (simp add: remove_orphan_outputs_def)
qed

section \<open>Images\<close>

lemma strip_keys [simp]:
  "call_key (strip_item_images it) = call_key it"
  "output_key (strip_item_images it) = output_key it"
  "needs_call (strip_item_images it) = needs_call it"
  by (cases it; simp)+

lemma strip_content_no_image: "\<not> list_ex is_image (strip_content_images content)"
  by (auto simp: strip_content_images_def list_ex_iff split: content_item.splits elim!: is_image.elims)

lemma strip_output_no_image:
  "payload_body (strip_output_images t p) = ContentItems xs \<Longrightarrow> \<not> list_ex is_output_image xs"
  by (auto simp: strip_output_images_def list_ex_iff split: output_body.splits output_item.splits
      elim!: is_output_image.elims)

lemma strip_item_no_image [simp]: "\<not> has_image (strip_item_images it)"
  by (cases it) (auto simp: strip_content_no_image dest: strip_output_no_image split: output_body.splits)

lemma paired_strip [simp]: "paired (strip_images_when_unsupported modalities xs) = paired xs"
  by (auto simp: paired_iff strip_images_when_unsupported_def)

section \<open>The repaired history\<close>

lemma answered_set: "set (answered xs) = set xs \<union> {out. \<exists>it \<in> set xs. answer xs it = Some out}"
  by (auto simp: answered_def split: option.splits)

lemma answer_Some: "answer xs it = Some out \<longleftrightarrow>
    (\<exists>k. call_key it = Some k \<and> k \<notin> set (output_keys xs) \<and> out = synthetic_output k)"
  by (auto simp: answer_def split: option.split)

lemma answered_answers: "every_call_answered (answered xs)"
  unfolding every_call_answered_def
proof
  fix k assume "k \<in> set (call_keys (answered xs))"
  then obtain it where it: "it \<in> set xs" "call_key it = Some k"
    by (auto simp: answered_set answer_Some)
  show "k \<in> set (output_keys (answered xs))"
  proof (cases "k \<in> set (output_keys xs)")
    case True
    then show ?thesis by (auto simp: answered_set)
  next
    case False
    then have "answer xs it = Some (synthetic_output k)" using it by (auto simp: answer_Some)
    then have "synthetic_output k \<in> set (answered xs)" using it unfolding answered_set by blast
    then show ?thesis unfolding in_output_keys using synthetic_keys(1) by blast
  qed
qed

lemma call_keys_filter_called [simp]: "set (call_keys (filter (called xs) ys)) = set (call_keys ys)"
  by (force simp: called_def)

lemma output_keys_filter_called: "every_call_answered xs \<Longrightarrow> every_call_answered (filter (called xs) xs)"
  unfolding every_call_answered_def
proof
  fix k assume answered: "set (call_keys xs) \<subseteq> set (output_keys xs)"
    and "k \<in> set (call_keys (filter (called xs) xs))"
  then have k: "k \<in> set (call_keys xs)" by (simp only: call_keys_filter_called)
  from subsetD [OF answered this] obtain out where "out \<in> set xs" "output_key out = Some k" by auto
  moreover from this k have "called xs out" by (simp only: called_def option.case simp_thms)
  ultimately show "k \<in> set (output_keys (filter (called xs) xs))" by auto
qed

lemma paired_filter_called: "every_call_answered xs \<Longrightarrow> paired (filter (called xs) xs)"
proof -
  assume a: "every_call_answered xs"
  have "every_output_called (filter (called xs) xs)"
    unfolding every_output_called_def call_keys_filter_called
    by (auto simp: called_def)
  then show ?thesis using output_keys_filter_called [OF a] by (simp add: paired_def)
qed

lemma normalize_release:
  "normalize_history False modalities xs =
     Some (strip_images_when_unsupported modalities (filter (called (answered xs)) (answered xs)))"
  by (simp add: normalize_history_def ensure_release remove_orphans_release)

lemma answered_others: "filter (\<lambda>it. output_key it = None) (answered xs) = filter (\<lambda>it. output_key it = None) xs"
proof -
  have "filter (\<lambda>it. output_key it = None)
      (concat (map (\<lambda>it. it # (case answer xs it of None \<Rightarrow> [] | Some out \<Rightarrow> [out])) ys)) =
    filter (\<lambda>it. output_key it = None) ys" for ys
    by (induction ys) (auto simp: answer_Some split: option.split)
  then show ?thesis by (simp add: answered_def)
qed

lemma filter_others_called: "filter (\<lambda>it. output_key it = None) (filter (called xs) ys) = filter (\<lambda>it. output_key it = None) ys"
  by (induction ys) (auto simp: called_def)

text \<open>
  C15: What is sent to the model is well formed: in a release build the repair always answers,
  every call in its result has an output, every output (but those of searches the server ran)
  has a call, no image is left when the model takes none, and the items that are not outputs
  are those of the history, in its order, up to the images.
\<close>

theorem normalized_history_is_paired:
  "\<exists>ys. normalize_history False modalities xs = Some ys \<and> paired ys \<and>
     \<not> (ImageModality \<notin> set modalities \<and> list_ex has_image ys) \<and>
     filter (\<lambda>it. output_key it = None) ys =
       strip_images_when_unsupported modalities (filter (\<lambda>it. output_key it = None) xs)"
proof -
  let ?zs = "filter (called (answered xs)) (answered xs)"
  have "paired ?zs" using paired_filter_called answered_answers by blast
  moreover have "filter (\<lambda>it. output_key it = None) ?zs = filter (\<lambda>it. output_key it = None) xs"
    by (simp only: filter_others_called answered_others)
  moreover have "filter (\<lambda>it. output_key it = None) (strip_images_when_unsupported modalities ys) =
      strip_images_when_unsupported modalities (filter (\<lambda>it. output_key it = None) ys)" for ys :: "'a response_item list"
    by (simp add: strip_images_when_unsupported_def filter_map o_def)
  moreover have "\<not> (ImageModality \<notin> set modalities \<and> list_ex has_image (strip_images_when_unsupported modalities ys))"
      for ys :: "'a response_item list"
    by (auto simp: strip_images_when_unsupported_def list_ex_iff)
  ultimately show ?thesis by (simp add: normalize_release del: filter_filter)
qed

text \<open>
  The repair leaves a well-formed history alone, images apart, and does not panic on it in
  a debug build either: running it again changes nothing.
\<close>

theorem normalize_keeps_paired_history:
  assumes "paired xs"
  shows "normalize_history debug modalities xs = Some (strip_images_when_unsupported modalities xs)"
  using assms ensure_paired [of xs debug] remove_orphans_called [of xs debug]
  by (simp add: paired_def normalize_history_def)

theorem normalize_keeps_paired_history_witness:
  "normalize_history True [TextModality]
     [FunctionCall None (lit ''shell'') None (lit ''{}'') (lit ''c1''),
      FunctionCallOutput (lit ''c1'') (payload_from_content_items [OutputItemImage (lit ''data:'') None]),
      LocalShellCall None None ShellCompleted
        (ExecAction \<lparr>shell_command = [], shell_timeout_ms = None, shell_working_directory = None,
           shell_env = None, shell_user = None\<rparr>)] =
   Some [FunctionCall None (lit ''shell'') None (lit ''{}'') (lit ''c1''),
      FunctionCallOutput (lit ''c1'')
        (payload_from_content_items [OutputItemText IMAGE_CONTENT_OMITTED_PLACEHOLDER]),
      LocalShellCall None None ShellCompleted
        (ExecAction \<lparr>shell_command = [], shell_timeout_ms = None, shell_working_directory = None,
           shell_env = None, shell_user = None\<rparr>)]"
  by (subst normalize_keeps_paired_history)
    (auto simp: paired_iff strip_images_when_unsupported_def strip_output_images_def payload_from_content_items_def)

section \<open>Removing an item with its counterpart\<close>

lemma position_split:
  "position p xs = Some i \<Longrightarrow> \<exists>a x b. xs = a @ x # b \<and> length a = i \<and> p x \<and> (\<forall>y \<in> set a. \<not> p y)"
proof (induction xs arbitrary: i)
  case (Cons x xs)
  show ?case
  proof (cases "p x")
    case True
    then show ?thesis using Cons.prems by (intro exI [of _ "[]"]) auto
  next
    case False
    then obtain j where j: "position p xs = Some j" "i = Suc j" using Cons.prems by auto
    from Cons.IH [OF j(1)] obtain a y b where "xs = a @ y # b" "length a = j" "p y" "\<forall>y \<in> set a. \<not> p y" by blast
    then show ?thesis using False j by (intro exI [of _ "x # a"]) auto
  qed
qed simp

lemma remove_first_matching_cases:
  obtains a x b where "xs = a @ x # b" "p x" "remove_first_matching p xs = a @ b"
  | "\<forall>x \<in> set xs. \<not> p x" "remove_first_matching p xs = xs"
proof (cases "position p xs")
  case None
  then have "remove_first_matching p xs = xs" by (simp add: remove_first_matching_def)
  moreover have "\<forall>x \<in> set xs. \<not> p x" using None by (simp add: position_None)
  ultimately show thesis by (rule that(2) [rotated])
next
  case (Some i)
  from position_split [OF this] obtain a x b where "xs = a @ x # b" "length a = i" "p x" by blast
  then show thesis using Some that(1) [of a x b] by (simp add: remove_first_matching_def remove_nth_def)
qed

definition unique_keys :: "'j response_item list \<Rightarrow> bool" where
  "unique_keys xs \<longleftrightarrow> distinct (call_keys xs) \<and> distinct (output_keys xs)"

lemma keys_append [simp]:
  "call_keys (a @ b) = call_keys a @ call_keys b" "output_keys (a @ b) = output_keys a @ output_keys b"
  by (simp_all add: call_keys_def output_keys_def List.map_filter_def)

lemma keys_Cons:
  "call_keys (it # xs) = (case call_key it of None \<Rightarrow> call_keys xs | Some k \<Rightarrow> k # call_keys xs)"
  "output_keys (it # xs) = (case output_key it of None \<Rightarrow> output_keys xs | Some k \<Rightarrow> k # output_keys xs)"
  by (auto simp: call_keys_def output_keys_def List.map_filter_simps split: option.split)

text \<open>Where no two calls share a key, the code's search for the counterpart is one by key.\<close>

lemma for_key_predicates:
  "is_function_output_for c = (\<lambda>i. output_key i = Some (FunctionKey c))"
  "is_tool_search_output_for c = (\<lambda>i. output_key i = Some (SearchKey c))"
  "is_custom_output_for c = (\<lambda>i. output_key i = Some (CustomKey c))"
  "is_tool_search_call_for c = (\<lambda>i. call_key i = Some (SearchKey c))"
  "is_custom_call_for c = (\<lambda>i. call_key i = Some (CustomKey c))"
  by (simp_all add: fun_eq_iff)

lemma counterpart_of_call:
  "call_key it = Some k \<Longrightarrow> remove_corresponding_for xs it = remove_first_matching (\<lambda>i. output_key i = Some k) xs"
  by (induction xs it rule: remove_corresponding_for.induct) (auto simp: for_key_predicates)

lemma counterpart_of_none: "call_key it = None \<Longrightarrow> output_key it = None \<Longrightarrow> remove_corresponding_for xs it = xs"
  by (induction xs it rule: remove_corresponding_for.induct) auto

lemma unique_call:
  assumes "distinct (call_keys (a @ x # b))" "call_key x = Some k"
  shows "\<forall>y \<in> set (a @ b). call_key y \<noteq> Some k"
proof -
  have "k \<notin> set (call_keys (a @ b))" using assms by (auto simp: keys_Cons simp del: in_call_keys)
  then show ?thesis by auto
qed

lemma unique_output:
  assumes "distinct (output_keys (a @ x # b))" "output_key x = Some k"
  shows "\<forall>y \<in> set (a @ b). output_key y \<noteq> Some k"
proof -
  have "k \<notin> set (output_keys (a @ b))" using assms by (auto simp: keys_Cons simp del: in_output_keys)
  then show ?thesis by auto
qed

lemma counterpart_of_output:
  assumes "output_key it = Some k" "distinct (call_keys xs)"
  shows "(\<exists>a x b. xs = a @ x # b \<and> call_key x = Some k \<and> remove_corresponding_for xs it = a @ b) \<or>
    (\<forall>x \<in> set xs. call_key x \<noteq> Some k) \<and> remove_corresponding_for xs it = xs"
proof (cases k)
  case (FunctionKey c)
  then obtain p where it: "it = FunctionCallOutput c p" using assms(1) by (cases it) auto
  have split: "\<exists>a x b. xs = a @ x # b \<and> call_key x = Some k \<and> remove_nth i xs = a @ b"
    if "position q xs = Some i" "\<And>x. q x \<Longrightarrow> call_key x = Some k" for q i
    using position_split [OF that(1)] that(2) by (fastforce simp: remove_nth_def)
  have q: "\<And>x :: 'a response_item. is_function_call_for c x \<Longrightarrow> call_key x = Some k"
      "\<And>x :: 'a response_item. is_local_shell_call_for c x \<Longrightarrow> call_key x = Some k"
    using function_call_key FunctionKey by blast+
  show ?thesis
  proof (cases "position (is_function_call_for c) xs")
    case (Some i)
    then show ?thesis using split [OF Some q(1)] it by simp
  next
    case None
    note no_call = this
    show ?thesis
    proof (cases "position (is_local_shell_call_for c) xs")
      case (Some i)
      then show ?thesis using split [OF Some q(2)] it no_call by simp
    next
      case None
      then have "remove_corresponding_for xs it = xs" using it no_call by simp
      moreover have "\<forall>x \<in> set xs. call_key x \<noteq> Some k"
        using None no_call FunctionKey by (auto simp: position_None simp flip: function_call_key)
      ultimately show ?thesis by blast
    qed
  qed
next
  case (SearchKey c)
  have "remove_corresponding_for xs it = remove_first_matching (\<lambda>i. call_key i = Some k) xs"
    using assms(1) SearchKey by (induction xs it rule: remove_corresponding_for.induct) (auto simp: for_key_predicates)
  then show ?thesis by (rule_tac remove_first_matching_cases [of xs "\<lambda>i. call_key i = Some k"]) auto
next
  case (CustomKey c)
  have "remove_corresponding_for xs it = remove_first_matching (\<lambda>i. call_key i = Some k) xs"
    using assms(1) CustomKey by (induction xs it rule: remove_corresponding_for.induct) (auto simp: for_key_predicates)
  then show ?thesis by (rule_tac remove_first_matching_cases [of xs "\<lambda>i. call_key i = Some k"]) auto
qed

lemma unique_keys_rest: "unique_keys (it # xs) \<Longrightarrow> unique_keys xs"
  by (auto simp: unique_keys_def keys_Cons split: option.splits)

lemma unique_keys_remove: "unique_keys (a @ x # b) \<Longrightarrow> unique_keys (a @ b)"
  by (auto simp: unique_keys_def keys_Cons split: option.splits simp del: in_call_keys in_output_keys)

lemma pairedI:
  assumes "\<And>y k. y \<in> set ys \<Longrightarrow> call_key y = Some k \<Longrightarrow> \<exists>out \<in> set ys. output_key out = Some k"
    and "\<And>y k. y \<in> set ys \<Longrightarrow> needs_call y \<Longrightarrow> output_key y = Some k \<Longrightarrow> \<exists>call \<in> set ys. call_key call = Some k"
  shows "paired ys"
  using assms unfolding paired_iff by blast

lemma paired_answer: "paired ys \<Longrightarrow> y \<in> set ys \<Longrightarrow> call_key y = Some k \<Longrightarrow> \<exists>out \<in> set ys. output_key out = Some k"
  unfolding paired_iff by blast

lemma paired_call:
  "paired ys \<Longrightarrow> y \<in> set ys \<Longrightarrow> needs_call y \<Longrightarrow> output_key y = Some k \<Longrightarrow> \<exists>call \<in> set ys. call_key call = Some k"
  unfolding paired_iff by blast

lemma paired_without_pair:
  assumes paired: "paired (it # a @ x # b)"
    and other: "\<forall>y \<in> set (a @ b). call_key y \<noteq> Some k \<and> output_key y \<noteq> Some k"
    and pair: "call_key it = Some k \<and> output_key x = Some k \<or> output_key it = Some k \<and> call_key x = Some k"
  shows "paired (a @ b)"
proof (rule pairedI)
  fix y k' assume y: "y \<in> set (a @ b)" "call_key y = Some k'"
  then obtain out where "out \<in> set (it # a @ x # b)" "output_key out = Some k'"
    using paired_answer [OF paired, of y k'] by auto
  moreover have "k' \<noteq> k" using y other by auto
  ultimately show "\<exists>out \<in> set (a @ b). output_key out = Some k'"
    using pair by (intro bexI [of _ out]) auto
next
  fix y k' assume y: "y \<in> set (a @ b)" "needs_call y" "output_key y = Some k'"
  then obtain c where "c \<in> set (it # a @ x # b)" "call_key c = Some k'"
    using paired_call [OF paired, of y k'] by auto
  moreover have "k' \<noteq> k" using y other by auto
  ultimately show "\<exists>c \<in> set (a @ b). call_key c = Some k'"
    using pair by (intro bexI [of _ c]) auto
qed

lemma paired_without_single:
  assumes paired: "paired (it # xs)" and it: "call_key it = None"
    and other: "\<And>k y. output_key it = Some k \<Longrightarrow> y \<in> set xs \<Longrightarrow> call_key y \<noteq> Some k"
  shows "paired xs"
proof (rule pairedI)
  fix y k assume y: "y \<in> set xs" "call_key y = Some k"
  then obtain out where "out \<in> set (it # xs)" "output_key out = Some k"
    using paired_answer [OF paired, of y k] by auto
  moreover have "output_key it \<noteq> Some k" using other [of k y] y by blast
  ultimately show "\<exists>out \<in> set xs. output_key out = Some k" by auto
next
  fix y k assume "y \<in> set xs" "needs_call y" "output_key y = Some k"
  then obtain c where "c \<in> set (it # xs)" "call_key c = Some k"
    using paired_call [OF paired, of y k] by auto
  then show "\<exists>c \<in> set xs. call_key c = Some k" using it by auto
qed

lemma removal_keeps_paired:
  assumes paired: "paired (it # xs)" and unique: "unique_keys (it # xs)"
  shows "paired (remove_corresponding_for xs it) \<and> unique_keys (remove_corresponding_for xs it)"
proof -
  have uxs: "unique_keys xs" using unique_keys_rest [OF unique] .
  have others: "\<forall>y \<in> set xs. call_key y \<noteq> Some k" if "call_key it = Some k" for k
    using unique_call [of "[]" it xs] unique that by (simp add: unique_keys_def)
  have other_outs: "\<forall>y \<in> set xs. output_key y \<noteq> Some k" if "output_key it = Some k" for k
    using unique_output [of "[]" it xs] unique that by (simp add: unique_keys_def)
  consider (is_call) k where "call_key it = Some k" | (is_output) k where "output_key it = Some k"
    | (none) "call_key it = None" "output_key it = None" by blast
  then show ?thesis
  proof cases
    case (is_call k)
    then have "\<exists>out \<in> set xs. output_key out = Some k" using paired by (auto simp: paired_iff)
    then obtain a x b where x: "xs = a @ x # b" "output_key x = Some k"
        "remove_corresponding_for xs it = a @ b"
      using counterpart_of_call [OF is_call, of xs] remove_first_matching_cases [of xs "\<lambda>i. output_key i = Some k"]
      by metis
    have "paired (a @ b)"
      using paired_without_pair [of it a x b k] paired x is_call others [OF is_call] unique_output [of a x b k] uxs
      by (auto simp: unique_keys_def)
    then show ?thesis using x unique_keys_remove uxs by auto
  next
    case (is_output k)
    from counterpart_of_output [OF is_output, of xs] uxs
    consider (found) a x b where "xs = a @ x # b" "call_key x = Some k" "remove_corresponding_for xs it = a @ b"
      | (missing) "\<forall>x \<in> set xs. call_key x \<noteq> Some k" "remove_corresponding_for xs it = xs"
      by (auto simp: unique_keys_def)
    then show ?thesis
    proof cases
      case found
      have "paired (a @ b)"
        using paired_without_pair [of it a x b k] paired found is_output other_outs [OF is_output]
          unique_call [of a x b k] uxs by (auto simp: unique_keys_def)
      then show ?thesis using found unique_keys_remove uxs by auto
    next
      case missing
      then show ?thesis using paired_without_single [OF paired] is_output uxs by auto
    qed
  next
    case none
    then show ?thesis using paired_without_single [OF paired] uxs by (simp add: counterpart_of_none)
  qed
qed

lemma paired_unique_rotate:
  "paired (xs @ [it]) \<longleftrightarrow> paired (it # xs)" "unique_keys (xs @ [it]) \<longleftrightarrow> unique_keys (it # xs)"
proof -
  show "paired (xs @ [it]) \<longleftrightarrow> paired (it # xs)" by (auto simp: paired_iff)
  show "unique_keys (xs @ [it]) \<longleftrightarrow> unique_keys (it # xs)"
    by (auto simp: unique_keys_def keys_Cons simp del: in_call_keys in_output_keys
        split: option.splits) (auto simp: call_keys_def output_keys_def List.map_filter_simps)
qed

end
