(* ===== verification/Truncation.thy ===== *)
theory Truncation
  imports Utf8Text ResponseItems
begin

text \<open>
  Cutting the middle out of long text (\<open>utils/string/src/truncate.rs\<close>,
  \<open>utils/output-truncation/src/lib.rs\<close>, \<open>TruncationPolicy\<close> of \<open>protocol/src/protocol.rs\<close>) and
  the small string utilities of \<open>utils/string/src/lib.rs\<close>. Sizes are UTF-8 bytes; the slices
  of the code are options (\<open>None\<close> is the panic of a slice inside a character) and the
  theorems show that none of them is ever outside a boundary.
\<close>

section \<open>Token estimates\<close>

definition APPROX_BYTES_PER_TOKEN :: nat where
  "APPROX_BYTES_PER_TOKEN = 4"

definition approx_token_count :: "ustring \<Rightarrow> nat" where
  "approx_token_count text =
     sat_add_usize (byte_len text) (APPROX_BYTES_PER_TOKEN - 1) div APPROX_BYTES_PER_TOKEN"

definition approx_bytes_for_tokens :: "nat \<Rightarrow> nat" where
  "approx_bytes_for_tokens tokens = sat_mul_usize tokens APPROX_BYTES_PER_TOKEN"

definition approx_tokens_from_byte_count :: "nat \<Rightarrow> nat" where
  "approx_tokens_from_byte_count n =
     sat_add_usize n (APPROX_BYTES_PER_TOKEN - 1) div APPROX_BYTES_PER_TOKEN"

definition approx_tokens_from_byte_count_i64 :: "int \<Rightarrow> int" where
  "approx_tokens_from_byte_count_i64 n =
     (if n \<le> 0 then 0 else i64_of_nat (approx_tokens_from_byte_count (nat n)))"

section \<open>Keeping the two ends\<close>

text \<open>
  The loop over \<open>char_indices\<close>: the end of the prefix, the start of the suffix, the number of
  removed characters and whether the suffix has started.
\<close>

fun split_loop :: "nat \<Rightarrow> nat \<Rightarrow> nat \<Rightarrow> ustring \<Rightarrow> nat \<times> nat \<times> nat \<times> bool \<Rightarrow> nat \<times> nat \<times> nat \<times> bool"
where
  "split_loop beginning target idx [] st = st"
| "split_loop beginning target idx (ch # s) (prefix_end, suffix_start, removed, started) =
     (let char_end = idx + len_utf8 ch in
      split_loop beginning target char_end s
        (if char_end \<le> beginning then (char_end, suffix_start, removed, started)
         else if idx \<ge> target then (prefix_end, if started then suffix_start else idx, removed, True)
         else (prefix_end, suffix_start, sat_add_usize removed 1, started)))"

definition split_string :: "ustring \<Rightarrow> nat \<Rightarrow> nat \<Rightarrow> (nat \<times> ustring \<times> ustring) option" where
  "split_string s beginning_bytes end_bytes =
     (if s = [] then Some (0, [], [])
      else let total = byte_len s;
               (prefix_end, suffix_start, removed, started) =
                 split_loop beginning_bytes (total - end_bytes) 0 s (0, total, 0, False);
               suffix_start = (if suffix_start < prefix_end then prefix_end else suffix_start)
           in case (str_upto prefix_end s, str_from suffix_start s) of
                (Some before, Some after) \<Rightarrow> Some (removed, before, after)
              | _ \<Rightarrow> None)"

definition split_budget :: "nat \<Rightarrow> nat \<times> nat" where
  "split_budget budget = (let left = budget div 2 in (left, budget - left))"

text \<open>The marker is written between two horizontal ellipses (U+2026).\<close>

definition format_truncation_marker :: "bool \<Rightarrow> nat \<Rightarrow> ustring" where
  "format_truncation_marker use_tokens removed_count =
     (if use_tokens then [8230] @ decimal removed_count @ lit '' tokens truncated'' @ [8230]
      else [8230] @ decimal removed_count @ lit '' chars truncated'' @ [8230])"

definition removed_units :: "bool \<Rightarrow> nat \<Rightarrow> nat \<Rightarrow> nat" where
  "removed_units use_tokens removed_bytes removed_chars =
     (if use_tokens then approx_tokens_from_byte_count removed_bytes else removed_chars)"

definition assemble_truncated_output :: "ustring \<Rightarrow> ustring \<Rightarrow> ustring \<Rightarrow> ustring" where
  "assemble_truncated_output p s marker = p @ marker @ s"

definition truncate_with_byte_estimate :: "ustring \<Rightarrow> nat \<Rightarrow> bool \<Rightarrow> ustring option" where
  "truncate_with_byte_estimate s max_bytes use_tokens =
     (if s = [] then Some []
      else if max_bytes = 0 then
        Some (format_truncation_marker use_tokens (removed_units use_tokens (byte_len s) (length s)))
      else if byte_len s \<le> max_bytes then Some s
      else let (left_budget, right_budget) = split_budget max_bytes
           in case split_string s left_budget right_budget of
                None \<Rightarrow> None
              | Some (removed_chars, left, right) \<Rightarrow>
                  Some (assemble_truncated_output left right
                    (format_truncation_marker use_tokens
                      (removed_units use_tokens (byte_len s - max_bytes) removed_chars))))"

definition truncate_middle_chars :: "ustring \<Rightarrow> nat \<Rightarrow> ustring option" where
  "truncate_middle_chars s max_bytes = truncate_with_byte_estimate s max_bytes False"

definition truncate_middle_with_token_budget :: "ustring \<Rightarrow> nat \<Rightarrow> (ustring \<times> nat option) option" where
  "truncate_middle_with_token_budget s max_tokens =
     (if s = [] then Some ([], None)
      else if max_tokens > 0 \<and> byte_len s \<le> approx_bytes_for_tokens max_tokens then Some (s, None)
      else case truncate_with_byte_estimate s (approx_bytes_for_tokens max_tokens) True of
             None \<Rightarrow> None
           | Some truncated \<Rightarrow>
               Some (truncated, if truncated = s then None else Some (approx_token_count s)))"

section \<open>Policies\<close>

datatype truncation_policy = Bytes nat | Tokens nat

fun token_budget :: "truncation_policy \<Rightarrow> nat" where
  "token_budget (Bytes n) = approx_tokens_from_byte_count n"
| "token_budget (Tokens n) = n"

fun byte_budget :: "truncation_policy \<Rightarrow> nat" where
  "byte_budget (Bytes n) = n"
| "byte_budget (Tokens n) = approx_bytes_for_tokens n"

text \<open>
  \<open>Mul<f64>\<close>: the number and the product are rounded to \<open>f64\<close>, the cast of the ceiling
  saturates. The multiplier is the rational a finite \<open>f64\<close> stands for.
\<close>

definition mul_f64 :: "nat \<Rightarrow> rat \<Rightarrow> nat" where
  "mul_f64 n multiplier = min usize_max (nat \<lceil>f64_round (f64_round (of_nat n) * multiplier)\<rceil>)"

fun policy_times :: "truncation_policy \<Rightarrow> rat \<Rightarrow> truncation_policy" where
  "policy_times (Bytes n) multiplier = Bytes (mul_f64 n multiplier)"
| "policy_times (Tokens n) multiplier = Tokens (mul_f64 n multiplier)"

definition truncate_text :: "ustring \<Rightarrow> truncation_policy \<Rightarrow> ustring option" where
  "truncate_text content policy =
     (case policy of Bytes n \<Rightarrow> truncate_middle_chars content n
      | Tokens n \<Rightarrow> map_option fst (truncate_middle_with_token_budget content n))"

definition formatted_truncate_text :: "ustring \<Rightarrow> truncation_policy \<Rightarrow> ustring option" where
  "formatted_truncate_text content policy =
     (if byte_len content \<le> byte_budget policy then Some content
      else map_option
        (\<lambda>result. lit ''Total output lines: '' @ decimal (length (str_lines content)) @ [newline, newline] @ result)
        (truncate_text content policy))"

section \<open>Tool outputs of several items\<close>

definition combine_segments :: "ustring list \<Rightarrow> ustring" where
  "combine_segments segments =
     foldl (\<lambda>combined text. (if combined \<noteq> [] then combined @ [newline] else combined) @ text) [] segments"

definition formatted_truncate_text_content_items_with_policy ::
  "output_item list \<Rightarrow> truncation_policy \<Rightarrow> (output_item list \<times> nat option) option" where
  "formatted_truncate_text_content_items_with_policy xs policy =
     (let segments = output_texts xs in
      if segments = [] then Some (xs, None)
      else let combined = combine_segments segments in
        if byte_len combined \<le> byte_budget policy then Some (xs, None)
        else map_option
          (\<lambda>text. (OutputItemText text # output_images xs, Some (approx_token_count combined)))
          (formatted_truncate_text combined policy))"

definition segment_cost :: "truncation_policy \<Rightarrow> ustring \<Rightarrow> nat" where
  "segment_cost policy text = (case policy of Bytes _ \<Rightarrow> byte_len text | Tokens _ \<Rightarrow> approx_token_count text)"

definition with_budget :: "truncation_policy \<Rightarrow> nat \<Rightarrow> truncation_policy" where
  "with_budget policy n = (case policy of Bytes _ \<Rightarrow> Bytes n | Tokens _ \<Rightarrow> Tokens n)"

text \<open>The loop over the items: the remaining budget, the omitted texts and the output.\<close>

fun truncate_items_loop ::
  "truncation_policy \<Rightarrow> output_item list \<Rightarrow> nat \<Rightarrow> nat \<Rightarrow> output_item list \<Rightarrow> (nat \<times> output_item list) option"
where
  "truncate_items_loop policy [] remaining omitted out = Some (omitted, out)"
| "truncate_items_loop policy (OutputItemImage url d # xs) remaining omitted out =
     truncate_items_loop policy xs remaining omitted (out @ [OutputItemImage url d])"
| "truncate_items_loop policy (OutputItemText text # xs) remaining omitted out =
     (if remaining = 0 then truncate_items_loop policy xs remaining (omitted + 1) out
      else let cost = segment_cost policy text in
        if cost \<le> remaining then
          truncate_items_loop policy xs (remaining - cost) omitted (out @ [OutputItemText text])
        else case truncate_text text (with_budget policy remaining) of
            None \<Rightarrow> None
          | Some snippet \<Rightarrow>
              if snippet = [] then truncate_items_loop policy xs 0 (omitted + 1) out
              else truncate_items_loop policy xs 0 omitted (out @ [OutputItemText snippet]))"

definition omitted_note :: "nat \<Rightarrow> ustring" where
  "omitted_note n = lit ''[omitted '' @ decimal n @ lit '' text items ...]''"

definition truncate_function_output_items_with_policy ::
  "output_item list \<Rightarrow> truncation_policy \<Rightarrow> output_item list option" where
  "truncate_function_output_items_with_policy xs policy =
     map_option (\<lambda>(omitted, out). if omitted > 0 then out @ [OutputItemText (omitted_note omitted)] else out)
       (truncate_items_loop policy xs
         (case policy of Bytes _ \<Rightarrow> byte_budget policy | Tokens _ \<Rightarrow> token_budget policy) 0 [])"

section \<open>Other string utilities\<close>

fun take_loop :: "nat \<Rightarrow> nat \<Rightarrow> ustring \<Rightarrow> nat \<Rightarrow> nat" where
  "take_loop maxb i [] last_ok = last_ok"
| "take_loop maxb i (ch # s) last_ok =
     (let nb = i + len_utf8 ch in if nb > maxb then last_ok else take_loop maxb nb s nb)"

definition take_bytes_at_char_boundary :: "ustring \<Rightarrow> nat \<Rightarrow> ustring option" where
  "take_bytes_at_char_boundary s maxb =
     (if byte_len s \<le> maxb then Some s else str_upto (take_loop maxb 0 s 0) s)"

definition is_ascii_alphanumeric :: "uchar \<Rightarrow> bool" where
  "is_ascii_alphanumeric c \<longleftrightarrow> is_ascii_digit c \<or> (65 \<le> c \<and> c \<le> 90) \<or> (97 \<le> c \<and> c \<le> 122)"

definition trim_matches :: "uchar \<Rightarrow> ustring \<Rightarrow> ustring" where
  "trim_matches c s = rev (dropWhile (\<lambda>x. x = c) (rev (dropWhile (\<lambda>x. x = c) s)))"

definition sanitize_metric_tag_value :: "ustring \<Rightarrow> ustring option" where
  "sanitize_metric_tag_value v =
     (let sanitized = map (\<lambda>ch. if is_ascii_alphanumeric ch \<or> ch \<in> set (lit ''._-/'') then ch else uc (CHR ''_'')) v;
          trimmed = trim_matches (uc (CHR ''_'')) sanitized
      in if trimmed = [] \<or> list_all (\<lambda>ch. \<not> is_ascii_alphanumeric ch) trimmed then Some (lit ''unspecified'')
         else if byte_len trimmed \<le> 256 then Some trimmed
         else str_upto 256 trimmed)"

definition parse_markdown_hash_location_point :: "ustring \<Rightarrow> (ustring \<times> ustring option) option" where
  "parse_markdown_hash_location_point point =
     (case strip_prefix (lit ''L'') point of
        None \<Rightarrow> None
      | Some p \<Rightarrow>
          (case split_once (uc (CHR ''C'')) p of
             Some (line, column) \<Rightarrow> Some (line, Some column)
           | None \<Rightarrow> Some (p, None)))"

definition push_point :: "ustring \<Rightarrow> ustring \<times> ustring option \<Rightarrow> ustring" where
  "push_point out point =
     (case point of (line, None) \<Rightarrow> out @ line | (line, Some column) \<Rightarrow> out @ line @ lit '':'' @ column)"

definition normalize_markdown_hash_location_suffix :: "ustring \<Rightarrow> ustring option" where
  "normalize_markdown_hash_location_suffix suf =
     (case strip_prefix (lit ''#'') suf of
        None \<Rightarrow> None
      | Some fragment \<Rightarrow>
          (let (start, end_point) = (case split_once (uc (CHR ''-'')) fragment of
                 Some (a, b) \<Rightarrow> (a, Some b) | None \<Rightarrow> (fragment, None))
           in case parse_markdown_hash_location_point start of
                None \<Rightarrow> None
              | Some p \<Rightarrow>
                  (case end_point of
                     None \<Rightarrow> Some (push_point (lit '':'') p)
                   | Some e \<Rightarrow>
                       (case parse_markdown_hash_location_point e of
                          None \<Rightarrow> None
                        | Some q \<Rightarrow> Some (push_point (push_point (lit '':'') p @ lit ''-'') q)))))"

section \<open>What is kept\<close>

lemma prefix_within:
  "\<exists>a r. s = a @ r \<and> byte_len a \<le> n \<and> (r = [] \<or> n < byte_len a + len_utf8 (hd r))"
proof (induction s arbitrary: n)
  case (Cons c s)
  show ?case
  proof (cases "len_utf8 c \<le> n")
    case True
    from Cons.IH [of "n - len_utf8 c"] obtain a r where
      ar: "s = a @ r" "byte_len a \<le> n - len_utf8 c" "r = [] \<or> n - len_utf8 c < byte_len a + len_utf8 (hd r)"
      by blast
    show ?thesis by (intro exI [of _ "c # a"] exI [of _ r]) (use ar True in auto)
  next
    case False
    then show ?thesis by (intro exI [of _ "[]"] exI [of _ "c # s"]) auto
  qed
qed simp

lemma tail_from:
  "\<exists>m b. r = m @ b \<and> (m = [] \<or> i + byte_len (butlast m) < t) \<and> (b = [] \<or> t \<le> i + byte_len m)"
proof (induction r arbitrary: i)
  case (Cons c r)
  show ?case
  proof (cases "t \<le> i")
    case True
    then show ?thesis by (intro exI [of _ "[]"] exI [of _ "c # r"]) auto
  next
    case False
    from Cons.IH [of "i + len_utf8 c"] obtain m b where
      mb: "r = m @ b" "m = [] \<or> i + len_utf8 c + byte_len (butlast m) < t"
        "b = [] \<or> t \<le> i + len_utf8 c + byte_len m"
      by blast
    show ?thesis by (intro exI [of _ "c # m"] exI [of _ b]) (use mb False in \<open>auto simp: add.assoc\<close>)
  qed
qed simp

text \<open>The loop runs through the prefix, then the removed middle, then the suffix.\<close>

lemma split_loop_prefix:
  "i + byte_len a \<le> beginning \<Longrightarrow>
   split_loop beginning t i (a @ r) (p, q, n, st) =
   split_loop beginning t (i + byte_len a) r (if a = [] then p else i + byte_len a, q, n, st)"
  by (induction a arbitrary: i p) (auto simp: add.assoc Let_def)

lemma split_loop_middle:
  assumes "m = [] \<or> beginning < i + len_utf8 (hd m)" "m = [] \<or> i + byte_len (butlast m) < t"
    and "n \<le> usize_max"
  shows "split_loop beginning t i (m @ r) (p, q, n, st) =
    split_loop beginning t (i + byte_len m) r (p, q, min usize_max (n + length m), st)"
  using assms
proof (induction m arbitrary: i n)
  case (Cons c m)
  have "i < t" using Cons.prems(2) by (auto split: if_splits)
  moreover have "split_loop beginning t (i + len_utf8 c) (m @ r) (p, q, sat_add_usize n 1, st) =
      split_loop beginning t (i + len_utf8 c + byte_len m) r
        (p, q, min usize_max (sat_add_usize n 1 + length m), st)"
    by (rule Cons.IH) (use Cons.prems in \<open>auto simp: sat_add_usize_def add.assoc split: if_splits\<close>)
  moreover have "min usize_max (sat_add_usize n 1 + length m) = min usize_max (n + length (c # m))"
    by (simp add: sat_add_usize_def)
  ultimately show ?case using Cons.prems by (auto simp: Let_def add.assoc)
qed (simp add: min_absorb2)

lemma split_loop_suffix:
  assumes "b = [] \<or> beginning < i + len_utf8 (hd b)" "b = [] \<or> t \<le> i"
  shows "split_loop beginning t i b (p, q, n, st) = (p, if st \<or> b = [] then q else i, n, st \<or> b \<noteq> [])"
  using assms
proof (induction b arbitrary: i q st)
  case (Cons c b)
  have "split_loop beginning t (i + len_utf8 c) b (p, q', n, True) = (p, q', n, True)" for q'
    using Cons.IH [of "i + len_utf8 c" q' True] Cons.prems by auto
  then show ?case using Cons.prems by (auto simp: Let_def)
qed simp

lemma split_string_keeps_ends:
  assumes more: "left + right < byte_len s"
  obtains a m b where "s = a @ m @ b" "m \<noteq> []" "byte_len a \<le> left" "left < byte_len (a @ [hd m])"
    "byte_len b \<le> right" "right < byte_len (last m # b)"
    "split_string s left right = Some (min usize_max (length m), a, b)"
proof -
  define t where "t = byte_len s - right"
  obtain a r where ar: "s = a @ r" "byte_len a \<le> left" "r = [] \<or> left < byte_len a + len_utf8 (hd r)"
    using prefix_within by blast
  obtain m b where mb: "r = m @ b" "m = [] \<or> byte_len a + byte_len (butlast m) < t"
      "b = [] \<or> t \<le> byte_len a + byte_len m"
    using tail_from by blast
  have bytes: "byte_len s = byte_len a + byte_len m + byte_len b" using ar mb by simp
  have b: "byte_len b \<le> right" using mb(3) bytes more by (auto simp: t_def)
  have m: "m \<noteq> []" using ar(2) b bytes more by auto
  have last: "byte_len m = byte_len (butlast m) + len_utf8 (last m)"
    using m append_butlast_last_id [OF m] byte_len_append [of "butlast m" "[last m]"] by simp
  have first: "left < byte_len a + len_utf8 (hd m)" using ar(3) mb(1) m by simp
  have "split_loop left t 0 s (0, byte_len s, 0, False) =
      split_loop left t (byte_len a) (m @ b) (byte_len a, byte_len s, 0, False)"
    using ar mb split_loop_prefix [of 0 a left t "m @ b" 0] by (cases "a = []") auto
  also have "\<dots> = split_loop left t (byte_len a + byte_len m) b (byte_len a, byte_len s, min usize_max (length m), False)"
    using split_loop_middle [of m left "byte_len a" t 0 b] first mb(2) by simp
  also have "\<dots> = (byte_len a, byte_len a + byte_len m, min usize_max (length m), b \<noteq> [])"
    using split_loop_suffix [of b left "byte_len a + byte_len m" t] mb(3) first bytes m last
    by (cases m) (auto simp: less_le_trans)
  finally have loop: "split_loop left t 0 s (0, byte_len s, 0, False) = \<dots>" .
  have "str_upto (byte_len a) s = Some a" using ar by simp
  moreover have "str_from (byte_len a + byte_len m) s = Some b"
    using str_from_append [of "a @ m" b] ar mb by simp
  ultimately have "split_string s left right = Some (min usize_max (length m), a, b)"
    using loop more by (auto simp: split_string_def t_def Let_def)
  moreover have "right < byte_len (last m # b)" using mb(2) m bytes last more by (auto simp: t_def)
  ultimately show thesis using that [of a m b] ar mb m b first by simp
qed

lemma truncate_fits: "byte_len s \<le> n \<Longrightarrow> truncate_with_byte_estimate s n use_tokens = Some s"
  by (auto simp: truncate_with_byte_estimate_def)

lemma truncate_cuts:
  assumes "0 < n" "n < byte_len s"
  obtains a m b where "s = a @ m @ b" "m \<noteq> []" "byte_len a \<le> n div 2" "n div 2 < byte_len (a @ [hd m])"
    "byte_len b \<le> n - n div 2" "n - n div 2 < byte_len (last m # b)"
    "\<And>use_tokens. truncate_with_byte_estimate s n use_tokens =
       Some (a @ format_truncation_marker use_tokens
         (if use_tokens then approx_tokens_from_byte_count (byte_len s - n) else min usize_max (length m)) @ b)"
proof -
  obtain a m b where
    ends: "s = a @ m @ b" "m \<noteq> []" "byte_len a \<le> n div 2" "n div 2 < byte_len (a @ [hd m])"
      "byte_len b \<le> n - n div 2" "n - n div 2 < byte_len (last m # b)"
    and split: "split_string s (n div 2) (n - n div 2) = Some (min usize_max (length m), a, b)"
    by (rule split_string_keeps_ends [of "n div 2" "n - n div 2" s]) (use assms in auto)
  have "truncate_with_byte_estimate s n use_tokens =
       Some (a @ format_truncation_marker use_tokens
         (if use_tokens then approx_tokens_from_byte_count (byte_len s - n) else min usize_max (length m)) @ b)"
    for use_tokens
    using assms split
    by (auto simp: truncate_with_byte_estimate_def split_budget_def Let_def removed_units_def
        assemble_truncated_output_def)
  with ends show thesis using that by blast
qed

text \<open>No slice is taken inside a character: the truncation always answers.\<close>

lemma truncate_with_byte_estimate_total: "\<exists>t. truncate_with_byte_estimate s n use_tokens = Some t"
proof -
  consider "byte_len s \<le> n" | "n = 0" | "0 < n" "n < byte_len s" by linarith
  then show ?thesis
  proof cases
    case 1
    then show ?thesis by (simp add: truncate_fits)
  next
    case 2
    then show ?thesis by (simp add: truncate_with_byte_estimate_def)
  next
    case 3
    then show ?thesis by (rule truncate_cuts) simp
  qed
qed

lemma truncate_text_total: "\<exists>t. truncate_text s policy = Some t"
proof (cases policy)
  case (Bytes n)
  then show ?thesis
    using truncate_with_byte_estimate_total [of s n False] by (simp add: truncate_text_def truncate_middle_chars_def)
next
  case (Tokens n)
  then show ?thesis
    using truncate_with_byte_estimate_total [of s "approx_bytes_for_tokens n" True]
    by (auto simp: truncate_text_def truncate_middle_with_token_budget_def)
qed

lemma formatted_truncate_text_total: "\<exists>t. formatted_truncate_text s policy = Some t"
  using truncate_text_total [of s policy] by (auto simp: formatted_truncate_text_def)

lemma marker_nonempty [simp]: "format_truncation_marker use_tokens n \<noteq> []"
  by (simp add: format_truncation_marker_def)

lemma truncate_text_nonempty: "truncate_text s policy = Some t \<Longrightarrow> s \<noteq> [] \<Longrightarrow> t \<noteq> []"
proof -
  have "truncate_with_byte_estimate s n use_tokens = Some t \<Longrightarrow> s \<noteq> [] \<Longrightarrow> t \<noteq> []" for n use_tokens t
    by (auto simp: truncate_with_byte_estimate_def assemble_truncated_output_def Let_def split_budget_def
        split: if_splits option.splits)
  then show "truncate_text s policy = Some t \<Longrightarrow> s \<noteq> [] \<Longrightarrow> t \<noteq> []"
    by (auto simp: truncate_text_def truncate_middle_chars_def truncate_middle_with_token_budget_def
        split: truncation_policy.splits option.splits if_splits)
qed

text \<open>
  The budget of a tool output is spent on its texts in order: \<open>kept\<close> verbatim, at most one
  cut, the rest counted.
\<close>

definition spent :: "truncation_policy \<Rightarrow> ustring list \<Rightarrow> nat" where
  "spent policy texts = sum_list (map (segment_cost policy) texts)"

definition text_limit :: "truncation_policy \<Rightarrow> nat" where
  "text_limit policy = (case policy of Bytes n \<Rightarrow> n | Tokens n \<Rightarrow> n)"

lemma spent_simps [simp]: "spent policy [] = 0" "spent policy (t # ts) = segment_cost policy t + spent policy ts"
  by (simp_all add: spent_def)

lemma loop_spent_out:
  "truncate_items_loop policy xs 0 n out = Some (n + length (output_texts xs), out @ output_images xs)"
  by (induction policy xs "0::nat" n out rule: truncate_items_loop.induct) auto

lemma loop_spends:
  "\<exists>kept rest out'. output_texts xs = kept @ rest \<and>
     truncate_items_loop policy xs budget n out =
       Some (n + (if rest = [] then 0 else length rest - (if spent policy kept < budget then 1 else 0)), out @ out') \<and>
     spent policy kept \<le> budget \<and> output_images out' = output_images xs \<and>
     (case rest of
        [] \<Rightarrow> out' = xs
      | t # _ \<Rightarrow>
          if spent policy kept = budget then output_texts out' = kept
          else budget < spent policy kept + segment_cost policy t \<and>
            (\<exists>snippet. truncate_text t (with_budget policy (budget - spent policy kept)) = Some snippet \<and>
               output_texts out' = kept @ [snippet]))"
  (is "\<exists>kept rest out'. ?P xs budget n out kept rest out'")
proof (induction xs arbitrary: budget out)
  case Nil
  show ?case by (intro exI [of _ "[]"]) simp
next
  case (Cons it xs)
  show ?case
  proof (cases it)
    case (OutputItemImage u d)
    from Cons.IH [of budget "out @ [it]"] obtain kept rest out' where
      IH: "?P xs budget n (out @ [it]) kept rest out'" by blast
    show ?thesis
      by (rule exI [of _ kept], rule exI [of _ rest], rule exI [of _ "it # out'"])
        (use IH OutputItemImage in \<open>auto split: list.splits\<close>)
  next
    case (OutputItemText t)
    consider "budget = 0" | "0 < budget" "segment_cost policy t \<le> budget" | "0 < budget" "budget < segment_cost policy t"
      by linarith
    then show ?thesis
    proof cases
      case 1
      show ?thesis
        by (rule exI [of _ "[]"], rule exI [of _ "t # output_texts xs"], rule exI [of _ "output_images xs"])
          (use 1 OutputItemText in \<open>auto simp: loop_spent_out\<close>)
    next
      case 2
      from Cons.IH [of "budget - segment_cost policy t" "out @ [it]"] obtain kept rest out' where
        IH: "?P xs (budget - segment_cost policy t) n (out @ [it]) kept rest out'" by blast
      show ?thesis
        by (rule exI [of _ "t # kept"], rule exI [of _ rest], rule exI [of _ "it # out'"])
          (use IH OutputItemText 2 in \<open>auto simp: Let_def split: list.splits if_splits\<close>)
    next
      case 3
      obtain snippet where snippet: "truncate_text t (with_budget policy budget) = Some snippet"
        using truncate_text_total by blast
      have "t \<noteq> []" using 3 by (cases policy) (auto simp: segment_cost_def approx_token_count_def sat_add_usize_def usize_max_def APPROX_BYTES_PER_TOKEN_def)
      with snippet have "snippet \<noteq> []" by (rule truncate_text_nonempty)
      then show ?thesis
        by (intro exI [of _ "[]"] exI [of _ "t # output_texts xs"] exI [of _ "OutputItemText snippet # output_images xs"])
          (use 3 OutputItemText snippet in \<open>auto simp: Let_def loop_spent_out\<close>)
    qed
  qed
qed

lemma formatted_items_total:
  "\<exists>out n. formatted_truncate_text_content_items_with_policy xs policy = Some (out, n) \<and>
     output_images out = output_images xs \<and>
     (case n of None \<Rightarrow> out = xs | Some _ \<Rightarrow> length (output_texts out) = 1)"
proof -
  obtain t where "formatted_truncate_text (combine_segments (output_texts xs)) policy = Some t"
    using formatted_truncate_text_total by blast
  then show ?thesis by (auto simp: formatted_truncate_text_content_items_with_policy_def Let_def)
qed

section \<open>The other utilities\<close>

lemma take_loop_prefix:
  "i + byte_len a \<le> maxb \<Longrightarrow> r = [] \<or> maxb < i + byte_len a + len_utf8 (hd r) \<Longrightarrow>
   take_loop maxb i (a @ r) i = i + byte_len a"
proof (induction a arbitrary: i)
  case Nil
  then show ?case by (cases r) (auto simp: Let_def)
next
  case (Cons c a)
  then show ?case by (auto simp: Let_def add.assoc)
qed

lemma take_bytes_longest_prefix:
  "\<exists>a b. s = a @ b \<and> take_bytes_at_char_boundary s maxb = Some a \<and> byte_len a \<le> maxb \<and>
     (b = [] \<or> maxb < byte_len (a @ [hd b]))"
proof (cases "byte_len s \<le> maxb")
  case True
  then show ?thesis by (intro exI [of _ s] exI [of _ "[]"]) (simp add: take_bytes_at_char_boundary_def)
next
  case False
  obtain a r where ar: "s = a @ r" "byte_len a \<le> maxb" "r = [] \<or> maxb < byte_len a + len_utf8 (hd r)"
    using prefix_within by blast
  then have "take_loop maxb 0 s 0 = byte_len a" using take_loop_prefix [of 0 a maxb r] by simp
  then show ?thesis
    using ar False by (intro exI [of _ a] exI [of _ r]) (simp add: take_bytes_at_char_boundary_def)
qed

definition tag_char :: "uchar \<Rightarrow> bool" where
  "tag_char ch \<longleftrightarrow> is_ascii_alphanumeric ch \<or> ch \<in> set (lit ''._-/'')"

lemma tag_char_ascii: "tag_char c \<Longrightarrow> len_utf8 c = 1"
  by (auto simp: tag_char_def is_ascii_alphanumeric_def is_ascii_digit_def len_utf8_def lit_def uc_def)

lemma byte_len_tag: "\<forall>c \<in> set t. tag_char c \<Longrightarrow> byte_len t = length t"
  by (induction t) (auto simp: tag_char_ascii)

lemma set_trim_matches: "set (trim_matches c t) \<subseteq> set t"
  unfolding trim_matches_def by (auto dest!: set_dropWhileD)

text \<open>A tag value is never empty, at most 256 bytes long and of permitted characters.\<close>

lemma sanitized_tag_is_valid:
  "\<exists>t. sanitize_metric_tag_value v = Some t \<and> t \<noteq> [] \<and> byte_len t \<le> 256 \<and> (\<forall>c \<in> set t. tag_char c)"
proof -
  define san where "san = map (\<lambda>ch. if tag_char ch then ch else uc (CHR ''_'')) v"
  define tr where "tr = trim_matches (uc (CHR ''_'')) san"
  have "tag_char (uc (CHR ''_''))" by (simp add: tag_char_def lit_def)
  then have "\<forall>c \<in> set san. tag_char c" by (auto simp: san_def)
  then have ok: "\<forall>c \<in> set tr. tag_char c" using set_trim_matches [of "uc (CHR ''_'')" san] by (auto simp: tr_def)
  have u: "\<forall>c \<in> set (lit ''unspecified''). tag_char c"
    by (simp add: tag_char_def is_ascii_alphanumeric_def lit_def uc_def)
  have eq: "sanitize_metric_tag_value v =
      (if tr = [] \<or> list_all (\<lambda>ch. \<not> is_ascii_alphanumeric ch) tr then Some (lit ''unspecified'')
       else if byte_len tr \<le> 256 then Some tr else str_upto 256 tr)"
    by (simp add: sanitize_metric_tag_value_def san_def tr_def tag_char_def Let_def)
  show ?thesis
  proof (cases "tr = [] \<or> list_all (\<lambda>ch. \<not> is_ascii_alphanumeric ch) tr \<or> byte_len tr \<le> 256")
    case True
    then show ?thesis using ok u byte_len_tag [OF u] by (auto simp: eq)
  next
    case False
    have cut: "byte_len (take 256 tr) = 256"
      using False ok byte_len_tag [OF ok] byte_len_tag [of "take 256 tr"] by (auto dest: in_set_takeD)
    then have "str_upto 256 tr = Some (take 256 tr)"
      using str_upto_append [of "take 256 tr" "drop 256 tr"] by simp
    then show ?thesis using False ok cut by (auto simp: eq dest: in_set_takeD)
  qed
qed

lemma position_append: "c \<notin> set a \<Longrightarrow> position (\<lambda>x. x = c) (a @ c # b) = Some (length a)"
  by (induction a) auto

lemma split_once_append: "c \<notin> set a \<Longrightarrow> split_once c (a @ c # b) = Some (a, b)"
  by (simp add: split_once_def position_append)

lemma split_once_absent: "c \<notin> set a \<Longrightarrow> split_once c a = None"
  by (auto simp: split_once_def position_None)

text \<open>A location range \<open>#L\<close>line\<open>C\<close>column\<open>-L\<close>line\<open>C\<close>column becomes \<open>:\<close>line\<open>:\<close>column\<open>-\<close>line\<open>:\<close>column.\<close>

lemma markdown_range_normalized:
  assumes "uc (CHR ''C'') \<notin> set l" "uc (CHR ''-'') \<notin> set l" "uc (CHR ''-'') \<notin> set c"
    and "uc (CHR ''C'') \<notin> set l'"
  shows "normalize_markdown_hash_location_suffix
      (lit ''#L'' @ l @ lit ''C'' @ c @ lit ''-L'' @ l' @ lit ''C'' @ c') =
    Some (lit '':'' @ l @ lit '':'' @ c @ lit ''-'' @ l' @ lit '':'' @ c')"
proof -
  have "split_once (uc (CHR ''-'')) ((lit ''L'' @ l @ lit ''C'' @ c) @ uc (CHR ''-'') # lit ''L'' @ l' @ lit ''C'' @ c')
      = Some (lit ''L'' @ l @ lit ''C'' @ c, lit ''L'' @ l' @ lit ''C'' @ c')"
    by (rule split_once_append) (use assms in \<open>auto simp: lit_def uc_def\<close>)
  moreover have "parse_markdown_hash_location_point (lit ''L'' @ l @ lit ''C'' @ c) = Some (l, Some c)"
      if "uc (CHR ''C'') \<notin> set l" for l c
    using that split_once_append [OF that, of c]
    by (simp add: parse_markdown_hash_location_point_def strip_prefix_def lit_def)
  ultimately show ?thesis
    using assms by (simp add: normalize_markdown_hash_location_suffix_def strip_prefix_def lit_def push_point_def)
qed

section \<open>Properties\<close>

text \<open>
  C17: What is kept of a text that does not fit: the longest prefix within half the budget, the
  longest suffix within the other half, and between them a marker with the exact number of
  removed characters.
\<close>

theorem truncate_middle_keeps_ends:
  assumes "0 < n" "n < byte_len s" "byte_len s \<le> usize_max"
  shows "\<exists>a m b. s = a @ m @ b \<and>
    byte_len a \<le> n div 2 \<and> n div 2 < byte_len (a @ [hd m]) \<and>
    byte_len b \<le> n - n div 2 \<and> n - n div 2 < byte_len (last m # b) \<and>
    truncate_middle_chars s n = Some (a @ format_truncation_marker False (length m) @ b)"
proof -
  obtain a m b where ends: "s = a @ m @ b" "byte_len a \<le> n div 2" "n div 2 < byte_len (a @ [hd m])"
      "byte_len b \<le> n - n div 2" "n - n div 2 < byte_len (last m # b)"
    and cut: "\<And>use_tokens. truncate_with_byte_estimate s n use_tokens =
       Some (a @ format_truncation_marker use_tokens
         (if use_tokens then approx_tokens_from_byte_count (byte_len s - n) else min usize_max (length m)) @ b)"
    by (rule truncate_cuts [OF assms(1,2)]) blast
  have "length m \<le> usize_max" using length_le_byte_len [of m] ends(1) assms(3) by simp
  then show ?thesis using ends cut [of False] by (auto simp: truncate_middle_chars_def)
qed

theorem truncate_middle_keeps_ends_witness:
  "\<exists>a m b. lit ''abcdefgh'' = a @ m @ b \<and>
    byte_len a \<le> 2 \<and> 2 < byte_len (a @ [hd m]) \<and> byte_len b \<le> 2 \<and> 2 < byte_len (last m # b) \<and>
    truncate_middle_chars (lit ''abcdefgh'') 4 = Some (a @ format_truncation_marker False (length m) @ b)"
proof -
  have "byte_len (lit ''abcdefgh'') = 8" by (simp add: byte_len_def len_utf8_def lit_def uc_def)
  then show ?thesis using truncate_middle_keeps_ends [of 4 "lit ''abcdefgh''"] by (simp add: usize_max_def)
qed

text \<open>
  C16: A tool output of several items never panics and keeps its images in order; its texts are
  kept verbatim while the budget lasts, the one that exceeds it is truncated to what is left,
  and the number of texts after it is noted.
\<close>

theorem tool_output_budget:
  "\<exists>kept rest out. output_texts xs = kept @ rest \<and>
    truncate_function_output_items_with_policy xs policy = Some out \<and>
    output_images out = output_images xs \<and> spent policy kept \<le> text_limit policy \<and>
    (case rest of
       [] \<Rightarrow> out = xs
     | t # ts \<Rightarrow>
         if spent policy kept = text_limit policy then output_texts out = kept @ [omitted_note (length rest)]
         else text_limit policy < spent policy (kept @ [t]) \<and>
           (\<exists>snippet. truncate_text t (with_budget policy (text_limit policy - spent policy kept)) = Some snippet \<and>
              output_texts out = kept @ snippet # (if ts = [] then [] else [omitted_note (length ts)])))"
proof -
  have limit: "(case policy of Bytes _ \<Rightarrow> byte_budget policy | Tokens _ \<Rightarrow> token_budget policy) = text_limit policy"
    by (simp add: text_limit_def split: truncation_policy.split)
  from loop_spends [of xs policy "text_limit policy" 0 "[]"] obtain kept rest out' where
    L: "output_texts xs = kept @ rest"
      "truncate_items_loop policy xs (text_limit policy) 0 [] =
        Some (if rest = [] then 0 else length rest - (if spent policy kept < text_limit policy then 1 else 0), out')"
      "spent policy kept \<le> text_limit policy" "output_images out' = output_images xs"
      "case rest of [] \<Rightarrow> out' = xs
       | t # _ \<Rightarrow>
          if spent policy kept = text_limit policy then output_texts out' = kept
          else text_limit policy < spent policy kept + segment_cost policy t \<and>
            (\<exists>snippet. truncate_text t (with_budget policy (text_limit policy - spent policy kept)) = Some snippet \<and>
               output_texts out' = kept @ [snippet])"
    by auto
  have [simp]: "spent policy (kept @ [t]) = spent policy kept + segment_cost policy t" for t
    by (simp add: spent_def)
  show ?thesis
    by (rule exI [of _ kept], rule exI [of _ rest])
      (use L limit in \<open>auto simp: truncate_function_output_items_with_policy_def split: list.splits\<close>)
qed

end
