(* ===== verification/TokenUsage.thy ===== *)
theory TokenUsage
  imports Numbers
begin

text \<open>
  Token counts of a session (\<open>TokenUsage\<close> and \<open>TokenUsageInfo\<close> of \<open>protocol/src/protocol.rs\<close>).
  The counts are \<open>i64\<close>; the plain additions and subtractions of the code are checked in a
  build with debug assertions (\<open>debug\<close>, a panic is \<open>None\<close>) and wrap in a release build.
\<close>

section \<open>Counts\<close>

record token_usage =
  input_tokens :: int
  cached_input_tokens :: int
  output_tokens :: int
  reasoning_output_tokens :: int
  total_tokens :: int

definition default_usage :: token_usage where
  "default_usage = \<lparr>input_tokens = 0, cached_input_tokens = 0, output_tokens = 0,
     reasoning_output_tokens = 0, total_tokens = 0\<rparr>"

definition BASELINE_TOKENS :: int where
  "BASELINE_TOKENS = 12000"

definition is_zero_usage :: "token_usage \<Rightarrow> bool" where
  "is_zero_usage u \<longleftrightarrow> total_tokens u = 0"

definition cached_input :: "token_usage \<Rightarrow> int" where
  "cached_input u = max (cached_input_tokens u) 0"

definition non_cached_input :: "bool \<Rightarrow> token_usage \<Rightarrow> int option" where
  "non_cached_input debug u =
     map_option (\<lambda>d. max d 0) (checked_i64 debug (input_tokens u - cached_input u))"

definition blended_total :: "bool \<Rightarrow> token_usage \<Rightarrow> int option" where
  "blended_total debug u =
     (case non_cached_input debug u of
        None \<Rightarrow> None
      | Some n \<Rightarrow> map_option (\<lambda>t. max t 0) (checked_i64 debug (n + max (output_tokens u) 0)))"

definition tokens_in_context_window :: "token_usage \<Rightarrow> int" where
  "tokens_in_context_window u = total_tokens u"

text \<open>\<open>f64::round\<close> of a number that is not negative.\<close>

definition f64_round_nonneg :: "rat \<Rightarrow> int" where
  "f64_round_nonneg x = \<lfloor>x + 1 / 2\<rfloor>"

definition percent_of_context_window_remaining :: "bool \<Rightarrow> token_usage \<Rightarrow> int \<Rightarrow> int option" where
  "percent_of_context_window_remaining debug u context_window =
     (if context_window \<le> BASELINE_TOKENS then Some 0
      else let effective_window = context_window - BASELINE_TOKENS in
        case checked_i64 debug (tokens_in_context_window u - BASELINE_TOKENS) of
          None \<Rightarrow> None
        | Some d \<Rightarrow>
            (let used = max d 0;
                 remaining = max (effective_window - used) 0;
                 ratio = f64_round (f64_round (of_int remaining) / f64_round (of_int effective_window))
             in Some (f64_round_nonneg (min 100 (max 0 (f64_round (ratio * 100)))))))"

text \<open>\<open>add_assign\<close>: five additions, each of which may overflow.\<close>

definition add_usage :: "bool \<Rightarrow> token_usage \<Rightarrow> token_usage \<Rightarrow> token_usage option" where
  "add_usage debug u v =
     (case checked_i64 debug (input_tokens u + input_tokens v) of None \<Rightarrow> None | Some i \<Rightarrow>
      case checked_i64 debug (cached_input_tokens u + cached_input_tokens v) of None \<Rightarrow> None | Some c \<Rightarrow>
      case checked_i64 debug (output_tokens u + output_tokens v) of None \<Rightarrow> None | Some out \<Rightarrow>
      case checked_i64 debug (reasoning_output_tokens u + reasoning_output_tokens v) of None \<Rightarrow> None | Some r \<Rightarrow>
      case checked_i64 debug (total_tokens u + total_tokens v) of None \<Rightarrow> None | Some t \<Rightarrow>
        Some \<lparr>input_tokens = i, cached_input_tokens = c, output_tokens = out,
              reasoning_output_tokens = r, total_tokens = t\<rparr>)"

section \<open>The usage of a session\<close>

record token_usage_info =
  total_token_usage :: token_usage
  last_token_usage :: token_usage
  model_context_window :: "int option"

definition append_last_usage :: "bool \<Rightarrow> token_usage \<Rightarrow> token_usage_info \<Rightarrow> token_usage_info option" where
  "append_last_usage debug last_usage info =
     map_option (\<lambda>total. info\<lparr>total_token_usage := total, last_token_usage := last_usage\<rparr>)
       (add_usage debug (total_token_usage info) last_usage)"

definition new_or_append ::
  "bool \<Rightarrow> token_usage_info option \<Rightarrow> token_usage option \<Rightarrow> int option \<Rightarrow> token_usage_info option option"
where
  "new_or_append debug info last_usage window =
     (if info = None \<and> last_usage = None then Some None
      else let info = (case info of Some i \<Rightarrow> i
             | None \<Rightarrow> \<lparr>total_token_usage = default_usage, last_token_usage = default_usage,
                        model_context_window = window\<rparr>)
           in case (case last_usage of Some u \<Rightarrow> append_last_usage debug u info | None \<Rightarrow> Some info) of
                None \<Rightarrow> None
              | Some info \<Rightarrow>
                  Some (Some (case window of
                      Some w \<Rightarrow> info\<lparr>model_context_window := Some w\<rparr> | None \<Rightarrow> info)))"

definition fill_to_context_window :: "bool \<Rightarrow> int \<Rightarrow> token_usage_info \<Rightarrow> token_usage_info option" where
  "fill_to_context_window debug context_window info =
     map_option (\<lambda>d. info\<lparr>model_context_window := Some context_window,
         total_token_usage := default_usage\<lparr>total_tokens := context_window\<rparr>,
         last_token_usage := default_usage\<lparr>total_tokens := max d 0\<rparr>\<rparr>)
       (checked_i64 debug (context_window - total_tokens (total_token_usage info)))"

definition full_context_window :: "bool \<Rightarrow> int \<Rightarrow> token_usage_info option" where
  "full_context_window debug context_window =
     fill_to_context_window debug context_window
       \<lparr>total_token_usage = default_usage, last_token_usage = default_usage,
        model_context_window = Some context_window\<rparr>"

section \<open>Facts\<close>

text \<open>A release build always answers, whatever the counts.\<close>

lemma checked_release_not_None [simp]: "checked_i64 False x \<noteq> None"
  using checked_i64_release [of x] by auto

lemma add_usage_release: "add_usage False u v \<noteq> None"
  by (auto simp: add_usage_def split: option.split)

lemma new_or_append_release: "new_or_append False info last_usage window \<noteq> None"
  using add_usage_release
  by (auto simp: new_or_append_def append_last_usage_def Let_def split: option.split)

lemma fill_to_context_window_release: "fill_to_context_window False w info \<noteq> None"
  by (simp add: fill_to_context_window_def)

lemma percent_bounds:
  "percent_of_context_window_remaining debug u w = Some p \<Longrightarrow> 0 \<le> p \<and> p \<le> 100"
proof -
  have "0 \<le> f64_round_nonneg (min 100 (max 0 x)) \<and> f64_round_nonneg (min 100 (max 0 x)) \<le> 100" for x
  proof -
    have "0 \<le> min 100 (max 0 x) + 1 / 2" "min 100 (max 0 x) + 1 / 2 < of_int 101" by auto
    then show ?thesis unfolding f64_round_nonneg_def
      by (auto simp: le_floor_iff floor_le_iff)
  qed
  then show "percent_of_context_window_remaining debug u w = Some p \<Longrightarrow> 0 \<le> p \<and> p \<le> 100"
    by (auto simp: percent_of_context_window_remaining_def Let_def split: if_splits option.splits)
qed

lemma percent_small_window: "w \<le> BASELINE_TOKENS \<Longrightarrow> percent_of_context_window_remaining debug u w = Some 0"
  by (simp add: percent_of_context_window_remaining_def)

end
