(* ===== verification/ContextHistory.thy ===== *)
theory ContextHistory
  imports TokenUsage Truncation TurnItems ContextNormalize
begin

text \<open>
  The transcript of a thread (\<open>ContextManager\<close> of \<open>core/src/context_manager/history.rs\<close>):
  recording, the preparation for a request, removal, rollback, and the estimate of its size
  in tokens. What packages compute is the record \<open>history_env\<close>: the reader of hook prompts,
  whether a text is a serialised inter-agent message, the length of an item as JSON, and the
  size of an image. The cache of image sizes is not modelled: it returns what it would
  compute again. The context snapshot (\<open>TurnContextItem\<close>) is opaque, the type \<open>'c\<close>.
\<close>

section \<open>State\<close>

record 'j history_env =
  read_hook_xml :: xml_reader
  is_agent_message :: "ustring \<Rightarrow> bool"
  json_length :: "'j response_item \<Rightarrow> nat option"
  image_dimensions :: "ustring \<Rightarrow> (nat \<times> nat) option"

record ('j, 'c) context_manager =
  history_items :: "'j response_item list"
  history_version :: nat
  token_info :: "token_usage_info option"
  reference_context_item :: "'c option"

text \<open>\<open>new_or_append(&None, &None, None)\<close> is \<open>None\<close>.\<close>

definition new_history :: "('j, 'c) context_manager" where
  "new_history = \<lparr>history_items = [], history_version = 0, token_info = None, reference_context_item = None\<rparr>"

definition set_token_info :: "token_usage_info option \<Rightarrow> ('j, 'c) context_manager \<Rightarrow> ('j, 'c) context_manager" where
  "set_token_info info m = m\<lparr>token_info := info\<rparr>"

definition set_reference_context_item :: "'c option \<Rightarrow> ('j, 'c) context_manager \<Rightarrow> ('j, 'c) context_manager" where
  "set_reference_context_item it m = m\<lparr>reference_context_item := it\<rparr>"

definition set_token_usage_full :: "bool \<Rightarrow> int \<Rightarrow> ('j, 'c) context_manager \<Rightarrow> ('j, 'c) context_manager option" where
  "set_token_usage_full debug context_window m =
     map_option (\<lambda>info. m\<lparr>token_info := Some info\<rparr>)
       (case token_info m of
          Some info \<Rightarrow> fill_to_context_window debug context_window info
        | None \<Rightarrow> full_context_window debug context_window)"

definition update_token_info ::
  "bool \<Rightarrow> token_usage \<Rightarrow> int option \<Rightarrow> ('j, 'c) context_manager \<Rightarrow> ('j, 'c) context_manager option" where
  "update_token_info debug usage window m =
     map_option (\<lambda>info. m\<lparr>token_info := info\<rparr>) (new_or_append debug (token_info m) (Some usage) window)"

section \<open>Kinds of items\<close>

fun is_api_message :: "'j response_item \<Rightarrow> bool" where
  "is_api_message (Message _ role _ _ _) \<longleftrightarrow> role \<noteq> lit ''system''"
| "is_api_message (GhostSnapshot _) \<longleftrightarrow> False"
| "is_api_message OtherItem \<longleftrightarrow> False"
| "is_api_message _ \<longleftrightarrow> True"

fun is_ghost_snapshot :: "'j response_item \<Rightarrow> bool" where
  "is_ghost_snapshot (GhostSnapshot _) \<longleftrightarrow> True"
| "is_ghost_snapshot _ \<longleftrightarrow> False"

fun is_model_generated_item :: "'j response_item \<Rightarrow> bool" where
  "is_model_generated_item (Message _ role _ _ _) \<longleftrightarrow> role = lit ''assistant''"
| "is_model_generated_item (FunctionCallOutput _ _) \<longleftrightarrow> False"
| "is_model_generated_item (ToolSearchOutput _ _ _ _) \<longleftrightarrow> False"
| "is_model_generated_item (CustomToolCallOutput _ _ _) \<longleftrightarrow> False"
| "is_model_generated_item (GhostSnapshot _) \<longleftrightarrow> False"
| "is_model_generated_item OtherItem \<longleftrightarrow> False"
| "is_model_generated_item _ \<longleftrightarrow> True"

fun is_codex_generated_item :: "'j response_item \<Rightarrow> bool" where
  "is_codex_generated_item (FunctionCallOutput _ _) \<longleftrightarrow> True"
| "is_codex_generated_item (ToolSearchOutput _ _ _ _) \<longleftrightarrow> True"
| "is_codex_generated_item (CustomToolCallOutput _ _ _) \<longleftrightarrow> True"
| "is_codex_generated_item (Message _ role _ _ _) \<longleftrightarrow> role = lit ''developer''"
| "is_codex_generated_item _ \<longleftrightarrow> False"

text \<open>\<open>InterAgentCommunication::is_message_content\<close>: one text that parses as such a message.\<close>

fun is_inter_agent_instruction_content :: "'j history_env \<Rightarrow> content_item list \<Rightarrow> bool" where
  "is_inter_agent_instruction_content env [InputText text] \<longleftrightarrow> is_agent_message env text"
| "is_inter_agent_instruction_content env [OutputText text] \<longleftrightarrow> is_agent_message env text"
| "is_inter_agent_instruction_content env _ \<longleftrightarrow> False"

fun is_user_turn_boundary :: "'j history_env \<Rightarrow> 'j response_item \<Rightarrow> bool" where
  "is_user_turn_boundary env (Message _ role content _ _) \<longleftrightarrow>
     role = lit ''user'' \<and> \<not> is_contextual_user_message_content (read_hook_xml env) content
     \<or> role = lit ''assistant'' \<and> is_inter_agent_instruction_content env content"
| "is_user_turn_boundary env _ \<longleftrightarrow> False"

fun positions_loop :: "'j history_env \<Rightarrow> nat \<Rightarrow> 'j response_item list \<Rightarrow> nat list" where
  "positions_loop env idx [] = []"
| "positions_loop env idx (it # rest) =
     (if is_user_turn_boundary env it then idx # positions_loop env (idx + 1) rest
      else positions_loop env (idx + 1) rest)"

definition user_message_positions :: "'j history_env \<Rightarrow> 'j response_item list \<Rightarrow> nat list" where
  "user_message_positions env xs = positions_loop env 0 xs"

text \<open>\<open>Iterator::rposition\<close>.\<close>

definition rposition :: "('a \<Rightarrow> bool) \<Rightarrow> 'a list \<Rightarrow> nat option" where
  "rposition p xs = map_option (\<lambda>i. length xs - 1 - i) (position p (rev xs))"

section \<open>Recording\<close>

definition truncate_function_output_payload :: "output_payload \<Rightarrow> truncation_policy \<Rightarrow> output_payload option" where
  "truncate_function_output_payload output policy =
     map_option (\<lambda>b. \<lparr>payload_body = b, payload_success = payload_success output\<rparr>)
       (case payload_body output of
          TextBody content \<Rightarrow> map_option TextBody (truncate_text content policy)
        | ContentItems xs \<Rightarrow> map_option ContentItems (truncate_function_output_items_with_policy xs policy))"

text \<open>The multiplier \<open>1.2\<close> is the nearest \<open>f64\<close>.\<close>

definition serialization_multiplier :: rat where
  "serialization_multiplier = 5404319552844595 / 2 ^ 52"

fun process_item :: "'j response_item \<Rightarrow> truncation_policy \<Rightarrow> 'j response_item option" where
  "process_item (FunctionCallOutput call_id output) policy =
     map_option (FunctionCallOutput call_id)
       (truncate_function_output_payload output (policy_times policy serialization_multiplier))"
| "process_item (CustomToolCallOutput call_id name output) policy =
     map_option (CustomToolCallOutput call_id name)
       (truncate_function_output_payload output (policy_times policy serialization_multiplier))"
| "process_item it policy = Some it"

fun record_loop :: "'j response_item list \<Rightarrow> truncation_policy \<Rightarrow> 'j response_item list \<Rightarrow> 'j response_item list option" where
  "record_loop recorded policy [] = Some recorded"
| "record_loop recorded policy (it # rest) =
     (if \<not> is_api_message it \<and> \<not> is_ghost_snapshot it then record_loop recorded policy rest
      else case process_item it policy of
          None \<Rightarrow> None
        | Some processed \<Rightarrow> record_loop (recorded @ [processed]) policy rest)"

definition record_items ::
  "'j response_item list \<Rightarrow> truncation_policy \<Rightarrow> ('j, 'c) context_manager \<Rightarrow> ('j, 'c) context_manager option" where
  "record_items xs policy m =
     map_option (\<lambda>recorded. m\<lparr>history_items := recorded\<rparr>) (record_loop (history_items m) policy xs)"

definition for_prompt :: "bool \<Rightarrow> input_modality list \<Rightarrow> ('j, 'c) context_manager \<Rightarrow> 'j response_item list option" where
  "for_prompt debug modalities m =
     map_option (filter (\<lambda>it. \<not> is_ghost_snapshot it)) (normalize_history debug modalities (history_items m))"

section \<open>Removal and replacement\<close>

definition bump_version :: "nat \<Rightarrow> nat" where
  "bump_version v = min (2 ^ 64 - 1) (v + 1)"

definition remove_first_item :: "('j, 'c) context_manager \<Rightarrow> ('j, 'c) context_manager" where
  "remove_first_item m =
     (case history_items m of
        [] \<Rightarrow> m
      | removed # rest \<Rightarrow> m\<lparr>history_items := remove_corresponding_for rest removed\<rparr>)"

definition remove_last_item :: "('j, 'c) context_manager \<Rightarrow> ('j, 'c) context_manager \<times> bool" where
  "remove_last_item m =
     (if history_items m = [] then (m, False)
      else (m\<lparr>history_items := remove_corresponding_for (butlast (history_items m)) (last (history_items m)),
              history_version := bump_version (history_version m)\<rparr>, True))"

definition replace :: "'j response_item list \<Rightarrow> ('j, 'c) context_manager \<Rightarrow> ('j, 'c) context_manager" where
  "replace xs m = m\<lparr>history_items := xs, history_version := bump_version (history_version m)\<rparr>"

definition replace_last_turn_images ::
  "'j history_env \<Rightarrow> ustring \<Rightarrow> ('j, 'c) context_manager \<Rightarrow> ('j, 'c) context_manager \<times> bool" where
  "replace_last_turn_images env placeholder m =
     (case rposition (\<lambda>it. (case it of FunctionCallOutput _ _ \<Rightarrow> True | _ \<Rightarrow> False) \<or> is_user_turn_boundary env it)
             (history_items m) of
        None \<Rightarrow> (m, False)
      | Some index \<Rightarrow>
          (case history_items m ! index of
             FunctionCallOutput call_id output \<Rightarrow>
               (case payload_content_items output of
                  None \<Rightarrow> (m, False)
                | Some content \<Rightarrow>
                    let replaced = list_ex is_output_image content;
                        m = m\<lparr>history_items :=
                          (history_items m)[index := FunctionCallOutput call_id (strip_output_images placeholder output)]\<rparr>
                    in if replaced then (m\<lparr>history_version := bump_version (history_version m)\<rparr>, True)
                       else (m, False))
           | _ \<Rightarrow> (m, False)))"

section \<open>Rollback\<close>

fun is_pre_turn_context :: "'j history_env \<Rightarrow> 'j response_item \<Rightarrow> bool" where
  "is_pre_turn_context env (Message _ role content _ _) \<longleftrightarrow>
     role = lit ''developer'' \<and> is_contextual_dev_message_content content
     \<or> role = lit ''user'' \<and> is_contextual_user_message_content (read_hook_xml env) content"
| "is_pre_turn_context env _ \<longleftrightarrow> False"

text \<open>A contextual developer message that also holds other text clears the reference context.\<close>

fun is_mixed_bundle :: "'j response_item \<Rightarrow> bool" where
  "is_mixed_bundle (Message _ role content _ _) \<longleftrightarrow>
     role = lit ''developer'' \<and> is_contextual_dev_message_content content
     \<and> has_non_contextual_dev_message_content content"
| "is_mixed_bundle _ \<longleftrightarrow> False"

fun trim_pre_turn_context_updates ::
  "'j history_env \<Rightarrow> 'j response_item list \<Rightarrow> nat \<Rightarrow> nat \<Rightarrow> 'c option \<Rightarrow> nat \<times> 'c option" where
  "trim_pre_turn_context_updates env snapshot first_idx cut_idx reference =
     (if cut_idx > first_idx \<and> is_pre_turn_context env (snapshot ! (cut_idx - 1)) then
        trim_pre_turn_context_updates env snapshot first_idx (cut_idx - 1)
          (if is_mixed_bundle (snapshot ! (cut_idx - 1)) then None else reference)
      else (cut_idx, reference))"

declare trim_pre_turn_context_updates.simps [simp del]

definition drop_last_n_user_turns ::
  "'j history_env \<Rightarrow> nat \<Rightarrow> ('j, 'c) context_manager \<Rightarrow> ('j, 'c) context_manager" where
  "drop_last_n_user_turns env num_turns m =
     (if num_turns = 0 then m
      else let snapshot = history_items m; positions = user_message_positions env snapshot in
        case positions of
          [] \<Rightarrow> replace snapshot m
        | first_idx # _ \<Rightarrow>
            let cut_idx = (if num_turns \<ge> length positions then first_idx
                           else positions ! (length positions - num_turns));
                (cut_idx, reference) =
                  trim_pre_turn_context_updates env snapshot first_idx cut_idx (reference_context_item m)
            in replace (take cut_idx snapshot) (m\<lparr>reference_context_item := reference\<rparr>))"

text \<open>The scan back from a turn, which marks the context items right before it.\<close>

fun scan_back :: "'j history_env \<Rightarrow> 'j response_item list \<Rightarrow> nat \<Rightarrow> nat \<Rightarrow> bool list \<times> bool \<Rightarrow> bool list \<times> bool" where
  "scan_back env snapshot lower_bound scan (removed, removed_any) =
     (if scan > lower_bound \<and> is_pre_turn_context env (snapshot ! (scan - 1)) then
        scan_back env snapshot lower_bound (scan - 1) (removed[scan - 1 := True], True)
      else (removed, removed_any))"

declare scan_back.simps [simp del]

fun strip_loop :: "'j history_env \<Rightarrow> 'j response_item list \<Rightarrow> nat \<Rightarrow> nat list \<Rightarrow> bool list \<times> bool \<Rightarrow> bool list \<times> bool" where
  "strip_loop env snapshot lower_bound [] st = st"
| "strip_loop env snapshot lower_bound (user_pos # rest) st =
     strip_loop env snapshot (user_pos + 1) rest (scan_back env snapshot lower_bound user_pos st)"

definition strip_pre_turn_context_updates ::
  "'j history_env \<Rightarrow> ('j, 'c) context_manager \<Rightarrow> ('j, 'c) context_manager \<times> bool" where
  "strip_pre_turn_context_updates env m =
     (let snapshot = history_items m; positions = user_message_positions env snapshot in
      if positions = [] then (m, False)
      else let (removed, removed_any) =
             strip_loop env snapshot 0 positions (replicate (length snapshot) False, False)
        in if \<not> removed_any then (m, False)
           else (replace (map fst (filter (\<lambda>(it, gone). \<not> gone) (zip snapshot removed))) m, True))"

section \<open>Size in tokens\<close>

definition estimate_reasoning_length :: "nat \<Rightarrow> nat" where
  "estimate_reasoning_length encoded_len = sat_mul_usize encoded_len 3 div 4 - 650"

definition RESIZED_IMAGE_BYTES_ESTIMATE :: int where
  "RESIZED_IMAGE_BYTES_ESTIMATE = 7373"

definition ORIGINAL_IMAGE_PATCH_SIZE :: int where
  "ORIGINAL_IMAGE_PATCH_SIZE = 32"

text \<open>
  The first five bytes are those of \<open>data:\<close> up to case, so the slices after it and around the
  comma are at character boundaries.
\<close>

definition starts_ignoring_case :: "ustring \<Rightarrow> ustring \<Rightarrow> bool" where
  "starts_ignoring_case p s =
     (case str_upto (byte_len p) s of None \<Rightarrow> False | Some candidate \<Rightarrow> eq_ignore_ascii_case candidate p)"

definition parse_base64_image_data_url :: "ustring \<Rightarrow> ustring option" where
  "parse_base64_image_data_url url =
     (if \<not> starts_ignoring_case (lit ''data:'') url then None
      else case split_once (uc (CHR '','')) url of
          None \<Rightarrow> None
        | Some (metadata, payload) \<Rightarrow>
            let parts = split_on (uc (CHR '';'')) (drop (length (lit ''data:'')) metadata);
                mime_type = hd parts;
                has_base64_marker = list_ex (\<lambda>part. eq_ignore_ascii_case part (lit ''base64'')) (tl parts)
            in if \<not> starts_ignoring_case (lit ''image/'') mime_type then None
               else if \<not> has_base64_marker then None
               else Some payload)"

definition patches :: "nat \<Rightarrow> int" where
  "patches n =
     sat_add_i64 (int n) (sat_sub_i64 ORIGINAL_IMAGE_PATCH_SIZE 1) div ORIGINAL_IMAGE_PATCH_SIZE"

definition estimate_original_image_bytes :: "'j history_env \<Rightarrow> ustring \<Rightarrow> int option" where
  "estimate_original_image_bytes env url =
     (case parse_base64_image_data_url url of
        None \<Rightarrow> None
      | Some payload \<Rightarrow>
          (case image_dimensions env payload of
             None \<Rightarrow> None
           | Some (width, height) \<Rightarrow>
               let patch_count = min usize_max (nat (sat_mul_i64 (patches width) (patches height)))
               in Some (i64_of_nat (approx_bytes_for_tokens patch_count))))"

text \<open>The images of an item, and one step of the closure \<open>accumulate\<close>.\<close>

fun images_of :: "'j response_item \<Rightarrow> (ustring \<times> image_detail option) list" where
  "images_of (Message _ _ content _ _) =
     List.map_filter (\<lambda>it. case it of InputImage url d \<Rightarrow> Some (url, d) | _ \<Rightarrow> None) content"
| "images_of (FunctionCallOutput _ output) =
     (case payload_body output of
        ContentItems xs \<Rightarrow>
          List.map_filter (\<lambda>it. case it of OutputItemImage url d \<Rightarrow> Some (url, d) | _ \<Rightarrow> None) xs
      | TextBody _ \<Rightarrow> [])"
| "images_of (CustomToolCallOutput _ _ output) =
     (case payload_body output of
        ContentItems xs \<Rightarrow>
          List.map_filter (\<lambda>it. case it of OutputItemImage url d \<Rightarrow> Some (url, d) | _ \<Rightarrow> None) xs
      | TextBody _ \<Rightarrow> [])"
| "images_of _ = []"

definition accumulate :: "'j history_env \<Rightarrow> int \<times> int \<Rightarrow> ustring \<times> image_detail option \<Rightarrow> int \<times> int" where
  "accumulate env acc img =
     (case (acc, img) of ((payload_bytes, replacement_bytes), (url, detail)) \<Rightarrow>
        case parse_base64_image_data_url url of
          None \<Rightarrow> acc
        | Some payload \<Rightarrow>
            (sat_add_i64 payload_bytes (i64_of_nat (byte_len payload)),
             sat_add_i64 replacement_bytes
               (if detail = Some OriginalDetail then
                  (case estimate_original_image_bytes env url of
                     Some n \<Rightarrow> n | None \<Rightarrow> RESIZED_IMAGE_BYTES_ESTIMATE)
                else RESIZED_IMAGE_BYTES_ESTIMATE)))"

definition image_data_url_estimate_adjustment :: "'j history_env \<Rightarrow> 'j response_item \<Rightarrow> int \<times> int" where
  "image_data_url_estimate_adjustment env it = foldl (accumulate env) (0, 0) (images_of it)"

definition estimate_serialized_bytes :: "'j history_env \<Rightarrow> 'j response_item \<Rightarrow> int" where
  "estimate_serialized_bytes env it =
     (let raw = (case json_length env it of Some n \<Rightarrow> i64_of_nat n | None \<Rightarrow> 0);
          (payload_bytes, replacement_bytes) = image_data_url_estimate_adjustment env it
      in if payload_bytes = 0 \<or> replacement_bytes = 0 then raw
         else sat_add_i64 (sat_sub_i64 raw payload_bytes) replacement_bytes)"

fun estimate_response_item_model_visible_bytes :: "'j history_env \<Rightarrow> 'j response_item \<Rightarrow> int" where
  "estimate_response_item_model_visible_bytes env (GhostSnapshot _) = 0"
| "estimate_response_item_model_visible_bytes env (Reasoning _ _ _ (Some content)) =
     i64_of_nat (estimate_reasoning_length (byte_len content))"
| "estimate_response_item_model_visible_bytes env (Compaction content) =
     i64_of_nat (estimate_reasoning_length (byte_len content))"
| "estimate_response_item_model_visible_bytes env it = estimate_serialized_bytes env it"

definition estimate_item_token_count :: "'j history_env \<Rightarrow> 'j response_item \<Rightarrow> int" where
  "estimate_item_token_count env it =
     approx_tokens_from_byte_count_i64 (estimate_response_item_model_visible_bytes env it)"

definition sum_tokens :: "'j history_env \<Rightarrow> 'j response_item list \<Rightarrow> int" where
  "sum_tokens env xs = foldl sat_add_i64 0 (map (estimate_item_token_count env) xs)"

definition sum_bytes :: "'j history_env \<Rightarrow> 'j response_item list \<Rightarrow> int" where
  "sum_bytes env xs = foldl sat_add_i64 0 (map (estimate_response_item_model_visible_bytes env) xs)"

definition estimate_token_count_with_base_instructions ::
  "'j history_env \<Rightarrow> ustring \<Rightarrow> ('j, 'c) context_manager \<Rightarrow> int option" where
  "estimate_token_count_with_base_instructions env base_instructions m =
     Some (sat_add_i64 (i64_of_nat (approx_token_count base_instructions)) (sum_tokens env (history_items m)))"

fun is_encrypted_reasoning :: "'j response_item \<Rightarrow> bool" where
  "is_encrypted_reasoning (Reasoning _ _ _ (Some _)) \<longleftrightarrow> True"
| "is_encrypted_reasoning _ \<longleftrightarrow> False"

definition get_non_last_reasoning_items_tokens :: "'j history_env \<Rightarrow> ('j, 'c) context_manager \<Rightarrow> int" where
  "get_non_last_reasoning_items_tokens env m =
     (case rposition (is_user_turn_boundary env) (history_items m) of
        None \<Rightarrow> 0
      | Some last_user_index \<Rightarrow>
          sum_tokens env (filter is_encrypted_reasoning (take last_user_index (history_items m))))"

definition items_after_last_model_generated_item :: "('j, 'c) context_manager \<Rightarrow> 'j response_item list" where
  "items_after_last_model_generated_item m =
     drop (case rposition is_model_generated_item (history_items m) of
             None \<Rightarrow> length (history_items m) | Some index \<Rightarrow> index + 1)
       (history_items m)"

definition last_api_tokens :: "('j, 'c) context_manager \<Rightarrow> int" where
  "last_api_tokens m =
     (case token_info m of None \<Rightarrow> 0 | Some info \<Rightarrow> total_tokens (last_token_usage info))"

definition get_total_token_usage :: "'j history_env \<Rightarrow> bool \<Rightarrow> ('j, 'c) context_manager \<Rightarrow> int" where
  "get_total_token_usage env server_reasoning_included m =
     (let after = sum_tokens env (items_after_last_model_generated_item m) in
      if server_reasoning_included then sat_add_i64 (last_api_tokens m) after
      else sat_add_i64 (sat_add_i64 (last_api_tokens m) (get_non_last_reasoning_items_tokens env m)) after)"

record total_token_usage_breakdown =
  last_api_response_total_tokens :: int
  all_history_items_model_visible_bytes :: int
  estimated_tokens_since_last_response :: int
  estimated_bytes_since_last_response :: int

definition get_total_token_usage_breakdown ::
  "'j history_env \<Rightarrow> ('j, 'c) context_manager \<Rightarrow> total_token_usage_breakdown" where
  "get_total_token_usage_breakdown env m =
     \<lparr>last_api_response_total_tokens = last_api_tokens m,
      all_history_items_model_visible_bytes = sum_bytes env (history_items m),
      estimated_tokens_since_last_response = sum_tokens env (items_after_last_model_generated_item m),
      estimated_bytes_since_last_response = sum_bytes env (items_after_last_model_generated_item m)\<rparr>"

section \<open>Facts about the parts\<close>

lemma rposition_Some:
  "rposition p xs = Some i \<Longrightarrow> \<exists>a x b. xs = a @ x # b \<and> length a = i \<and> p x \<and> (\<forall>y \<in> set b. \<not> p y)"
proof -
  assume "rposition p xs = Some i"
  then obtain j where j: "position p (rev xs) = Some j" "i = length xs - 1 - j"
    by (auto simp: rposition_def)
  from position_split [OF j(1)] obtain a x b where
    "rev xs = a @ x # b" "length a = j" "p x" "\<forall>y \<in> set a. \<not> p y" by blast
  then have "xs = rev b @ x # rev a" by (simp add: rev_swap)
  then show ?thesis using j(2) \<open>length a = j\<close> \<open>p x\<close> \<open>\<forall>y \<in> set a. \<not> p y\<close>
    by (rule_tac exI [of _ "rev b"], rule_tac exI [of _ x], rule_tac exI [of _ "rev a"]) simp
qed

lemma rposition_None: "rposition p xs = None \<longleftrightarrow> (\<forall>x \<in> set xs. \<not> p x)"
  by (simp add: rposition_def position_None)

text \<open>Recording never meets a slice inside a character.\<close>

lemma truncate_items_total: "\<exists>out. truncate_function_output_items_with_policy xs policy = Some out"
proof -
  have "\<exists>r. truncate_items_loop policy xs budget 0 [] = Some r" for budget
    using loop_spends [of xs policy budget 0 "[]"] by (elim exE conjE) simp
  then show ?thesis by (auto simp: truncate_function_output_items_with_policy_def)
qed

lemma truncate_payload_total: "\<exists>p. truncate_function_output_payload output policy = Some p"
proof (cases "payload_body output")
  case (TextBody t)
  then show ?thesis using truncate_text_total [of t policy] by (auto simp: truncate_function_output_payload_def)
next
  case (ContentItems xs)
  then show ?thesis using truncate_items_total [of xs policy] by (auto simp: truncate_function_output_payload_def)
qed

definition recordable :: "'j response_item \<Rightarrow> bool" where
  "recordable it \<longleftrightarrow> is_api_message it \<or> is_ghost_snapshot it"

lemma process_item_total: "\<exists>it'. process_item it policy = Some it' \<and> recordable it' = recordable it \<and>
    call_key it' = call_key it \<and> output_key it' = output_key it"
proof (cases it)
  case (FunctionCallOutput c p)
  then show ?thesis
    using truncate_payload_total [of p "policy_times policy serialization_multiplier"] by (auto simp: recordable_def)
next
  case (CustomToolCallOutput c n p)
  then show ?thesis
    using truncate_payload_total [of p "policy_times policy serialization_multiplier"] by (auto simp: recordable_def)
qed auto

lemma record_loop_total:
  "\<exists>added. record_loop recorded policy xs = Some (recorded @ added) \<and>
     length added = length (filter recordable xs) \<and> list_all recordable added"
proof (induction xs arbitrary: recorded)
  case (Cons it xs)
  show ?case
  proof (cases "recordable it")
    case True
    obtain it' where it': "process_item it policy = Some it'" "recordable it'"
      using process_item_total [of it policy] True by auto
    from Cons.IH [of "recorded @ [it']"] obtain added where
      "record_loop (recorded @ [it']) policy xs = Some ((recorded @ [it']) @ added)"
      "length added = length (filter recordable xs)" "list_all recordable added" by blast
    moreover have "record_loop recorded policy (it # xs) = record_loop (recorded @ [it']) policy xs"
      using True it'(1) by (auto simp: recordable_def)
    ultimately show ?thesis using True it'(2) by (intro exI [of _ "it' # added"]) simp
  next
    case False
    then show ?thesis using Cons.IH [of recorded] by (simp add: recordable_def)
  qed
qed simp

section \<open>Removal keeps calls and outputs together\<close>

text \<open>
  Trimming the history from either end keeps it well formed: when every call has its
  output and every output its call, and no two calls or outputs share a key, this still holds
  after the oldest or the newest item is removed, with its counterpart.
\<close>

theorem trimming_keeps_history_paired:
  assumes "paired (history_items m)" "unique_keys (history_items m)"
  shows "paired (history_items (remove_first_item m)) \<and> unique_keys (history_items (remove_first_item m)) \<and>
    paired (history_items (fst (remove_last_item m))) \<and> unique_keys (history_items (fst (remove_last_item m)))"
proof (cases "history_items m")
  case Nil
  then show ?thesis using assms by (simp add: remove_first_item_def remove_last_item_def)
next
  case (Cons it rest)
  then have ne: "history_items m \<noteq> []" by simp
  have last: "paired (last (history_items m) # butlast (history_items m))"
      "unique_keys (last (history_items m) # butlast (history_items m))"
    using assms append_butlast_last_id [OF ne] by (metis paired_unique_rotate(1), metis paired_unique_rotate(2))
  show ?thesis
    using removal_keeps_paired [of it rest] removal_keeps_paired [OF last] assms Cons
    by (simp add: remove_first_item_def remove_last_item_def)
qed

definition paired_example :: "(nat, nat) context_manager" where
  "paired_example = new_history\<lparr>history_items :=
     [CustomToolCall None None (lit ''c1'') (lit ''apply_patch'') [],
      FunctionCall None (lit ''shell'') None [] (lit ''c1''),
      FunctionCallOutput (lit ''c1'') (payload_from_text []),
      CustomToolCallOutput (lit ''c1'') None (payload_from_text [])]\<rparr>"

theorem trimming_keeps_history_paired_witness:
  "paired (history_items (remove_first_item paired_example)) \<and>
   history_items (remove_first_item paired_example) =
     [FunctionCall None (lit ''shell'') None [] (lit ''c1''), FunctionCallOutput (lit ''c1'') (payload_from_text [])]"
proof -
  have "paired (history_items paired_example)" by (auto simp: paired_example_def paired_iff)
  moreover have "unique_keys (history_items paired_example)"
    by (simp add: paired_example_def unique_keys_def keys_Cons) (simp add: call_keys_def output_keys_def)
  ultimately show ?thesis
    using trimming_keeps_history_paired [of paired_example]
    by (simp add: paired_example_def remove_first_item_def remove_first_matching_def remove_nth_def)
qed

section \<open>Rollback\<close>

lemma trim_spec:
  assumes "first_idx \<le> cut_idx" "cut_idx \<le> length snapshot"
  shows "\<exists>cut'. trim_pre_turn_context_updates env snapshot first_idx cut_idx reference =
      (cut', if list_ex is_mixed_bundle (drop cut' (take cut_idx snapshot)) then None else reference) \<and>
    first_idx \<le> cut' \<and> cut' \<le> cut_idx \<and>
    list_all (is_pre_turn_context env) (drop cut' (take cut_idx snapshot)) \<and>
    (cut' = first_idx \<or> \<not> is_pre_turn_context env (snapshot ! (cut' - 1)))"
  using assms
proof (induction "cut_idx - first_idx" arbitrary: cut_idx reference)
  case 0
  then show ?case by (subst trim_pre_turn_context_updates.simps) auto
next
  case (Suc d)
  let ?it = "snapshot ! (cut_idx - 1)"
  show ?case
  proof (cases "is_pre_turn_context env ?it")
    case False
    then show ?thesis using Suc by (subst trim_pre_turn_context_updates.simps) (intro exI [of _ cut_idx], auto)
  next
    case True
    from Suc have lt: "first_idx < cut_idx" by simp
    let ?ref = "if is_mixed_bundle ?it then None else reference"
    have "\<exists>cut'. trim_pre_turn_context_updates env snapshot first_idx (cut_idx - 1) ?ref =
        (cut', if list_ex is_mixed_bundle (drop cut' (take (cut_idx - 1) snapshot)) then None else ?ref) \<and>
      first_idx \<le> cut' \<and> cut' \<le> cut_idx - 1 \<and>
      list_all (is_pre_turn_context env) (drop cut' (take (cut_idx - 1) snapshot)) \<and>
      (cut' = first_idx \<or> \<not> is_pre_turn_context env (snapshot ! (cut' - 1)))"
      by (rule Suc.hyps(1)) (use Suc.hyps(2) Suc.prems lt in auto)
    then obtain cut' where cut': "trim_pre_turn_context_updates env snapshot first_idx (cut_idx - 1) ?ref =
        (cut', if list_ex is_mixed_bundle (drop cut' (take (cut_idx - 1) snapshot)) then None else ?ref)"
      "first_idx \<le> cut'" "cut' \<le> cut_idx - 1"
      "list_all (is_pre_turn_context env) (drop cut' (take (cut_idx - 1) snapshot))"
      "cut' = first_idx \<or> \<not> is_pre_turn_context env (snapshot ! (cut' - 1))" by blast
    have "take cut_idx snapshot = take (cut_idx - 1) snapshot @ [?it]"
      using lt Suc.prems(2) take_Suc_conv_app_nth [of "cut_idx - 1" snapshot] by simp
    then have cut: "drop cut' (take cut_idx snapshot) = drop cut' (take (cut_idx - 1) snapshot) @ [?it]"
      using cut'(3) Suc.prems(2) by simp
    show ?thesis
      using cut' True lt
      by (subst trim_pre_turn_context_updates.simps) (intro exI [of _ cut'], auto simp: cut)
  qed
qed

lemma pre_turn_context_no_boundary: "is_pre_turn_context env it \<Longrightarrow> \<not> is_user_turn_boundary env it"
  by (cases it) auto

text \<open>The positions of the boundaries split the history.\<close>

lemma positions_loop_empty: "positions_loop env i xs = [] \<longleftrightarrow> filter (is_user_turn_boundary env) xs = []"
  by (induction xs arbitrary: i) auto

lemma length_positions: "length (positions_loop env i xs) = length (filter (is_user_turn_boundary env) xs)"
  by (induction xs arbitrary: i) auto

lemma positions_nth:
  "k < length (positions_loop env i xs) \<Longrightarrow>
   \<exists>a x b. xs = a @ x # b \<and> positions_loop env i xs ! k = i + length a \<and> is_user_turn_boundary env x \<and>
     length (filter (is_user_turn_boundary env) a) = k"
proof (induction xs arbitrary: i k)
  case (Cons it xs)
  show ?case
  proof (cases "is_user_turn_boundary env it \<and> k = 0")
    case True
    then show ?thesis by (rule_tac exI [of _ "[]"], rule_tac exI [of _ it], rule_tac exI [of _ xs]) simp
  next
    case False
    let ?k = "if is_user_turn_boundary env it then k - 1 else k"
    from Cons.prems False have "?k < length (positions_loop env (i + 1) xs)" by (auto split: if_splits)
    from Cons.IH [OF this] obtain a x b where "xs = a @ x # b" "positions_loop env (i + 1) xs ! ?k = i + 1 + length a"
        "is_user_turn_boundary env x" "length (filter (is_user_turn_boundary env) a) = ?k" by blast
    then show ?thesis
      using False by (rule_tac exI [of _ "it # a"], rule_tac exI [of _ x], rule_tac exI [of _ b]) (auto simp: nth_Cons')
  qed
qed simp

lemma take_boundary_prefix:
  "filter (is_user_turn_boundary env) a = [] \<Longrightarrow> is_user_turn_boundary env x \<Longrightarrow>
   takeWhile (\<lambda>it. \<not> is_user_turn_boundary env it) (a @ x # b) = a"
  by (auto simp: filter_empty_conv takeWhile_append2)

lemma takeWhile_kept:
  assumes s: "s = a0 @ x0 # b0" and a0: "filter (is_user_turn_boundary env) a0 = []"
    and x0: "is_user_turn_boundary env x0" and cut: "s = a @ x # b"
    and c: "length a0 \<le> c" "c \<le> length a"
  shows "takeWhile (\<lambda>it. \<not> is_user_turn_boundary env it) (take c a) =
    takeWhile (\<lambda>it. \<not> is_user_turn_boundary env it) s"
proof -
  have whole: "takeWhile (\<lambda>it. \<not> is_user_turn_boundary env it) s = a0"
    using take_boundary_prefix [OF a0 x0] s by simp
  have same: "take c a = take c s" using cut c(2) by simp
  show ?thesis
  proof (cases "c = length a0")
    case True
    then have "take c s = a0" using s by simp
    then show ?thesis using whole same a0 by (auto simp: filter_empty_conv takeWhile_eq_all_conv)
  next
    case False
    then obtain k where "c = length a0 + Suc k" using c(1) by (metis add_Suc_right le_neq_implies_less less_imp_Suc_add)
    then have "take c s = a0 @ x0 # take k b0" using s by simp
    then show ?thesis using whole same take_boundary_prefix [OF a0 x0] by simp
  qed
qed

lemma rollback_cut:
  assumes "\<not> (n = 0 \<or> positions_loop env 0 s = [])"
  defines "k \<equiv> if n \<ge> length (positions_loop env 0 s) then 0 else length (positions_loop env 0 s) - n"
  shows "\<exists>a0 x0 b0 a x b.
    (s = a0 @ x0 # b0 \<and> hd (positions_loop env 0 s) = length a0 \<and> is_user_turn_boundary env x0 \<and>
       filter (is_user_turn_boundary env) a0 = []) \<and>
    (s = a @ x # b \<and> positions_loop env 0 s ! k = length a \<and> is_user_turn_boundary env x \<and>
       length (filter (is_user_turn_boundary env) a) = k) \<and>
    length a0 \<le> length a"
proof -
  let ?ps = "positions_loop env 0 s"
  have "k < length ?ps" using assms by (cases ?ps) (auto simp: k_def)
  from positions_nth [OF this] obtain a x b where
    cut: "s = a @ x # b" "?ps ! k = length a" "is_user_turn_boundary env x"
      "length (filter (is_user_turn_boundary env) a) = k" by auto
  have "0 < length ?ps" using assms(1) by simp
  from positions_nth [OF this] assms(1) obtain a0 x0 b0 where
    first: "s = a0 @ x0 # b0" "hd ?ps = length a0" "is_user_turn_boundary env x0"
      "filter (is_user_turn_boundary env) a0 = []" by (auto simp: hd_conv_nth)
  have "length a0 \<le> length a"
  proof (rule ccontr)
    assume "\<not> length a0 \<le> length a"
    then have "x \<in> set a0"
      using cut(1) first(1) nth_append_length [of a x b] nth_append [of a0 "x0 # b0" "length a"] by auto
    then show False using first(4) cut(3) by (auto simp: filter_empty_conv)
  qed
  with cut first show ?thesis by blast
qed

text \<open>The kept part after the first turn does not end in context, when trimming stopped before it.\<close>

lemma context_trimmed:
  assumes s: "s = a0 @ x0 # b0" and a0: "filter (is_user_turn_boundary env) a0 = []"
    and cut: "s = a @ x # b" and c: "length a0 \<le> c" "c \<le> length a"
    and stop: "c = length a0 \<or> \<not> is_pre_turn_context env (s ! (c - 1))"
  shows "takeWhile (is_pre_turn_context env)
    (rev (dropWhile (\<lambda>it. \<not> is_user_turn_boundary env it) (take c a))) = []"
proof (cases "dropWhile (\<lambda>it. \<not> is_user_turn_boundary env it) (take c a)" rule: rev_cases)
  case (snoc ys y)
  have same: "take c a = take c s" using cut c(2) by simp
  have "c \<noteq> length a0"
  proof
    assume "c = length a0"
    then have "take c a = a0" using s same by simp
    moreover have "dropWhile (\<lambda>it. \<not> is_user_turn_boundary env it) a0 = []"
      using a0 by (simp add: filter_empty_conv)
    ultimately show False using snoc by (metis snoc_eq_iff_butlast)
  qed
  then have "0 < c" using c(1) by linarith
  have "last (take c a) = y"
    using snoc suffix_dropWhile [of "\<lambda>it. \<not> is_user_turn_boundary env it" "take c a"]
    by (auto simp: suffix_def)
  moreover have "last (take c a) = s ! (c - 1)"
    using \<open>0 < c\<close> c(2) cut same by (subst last_conv_nth) (auto simp: nth_append)
  ultimately show ?thesis using snoc stop \<open>c \<noteq> length a0\<close> by simp
next
  case Nil
  then show ?thesis by (simp only: rev.simps takeWhile.simps)
qed

text \<open>What a rollback leaves: the items up to the cut, less the context right before it.\<close>

lemma rollback_result:
  assumes "\<not> (n = 0 \<or> positions_loop env 0 (history_items m) = [])"
  defines "k \<equiv> if n \<ge> length (positions_loop env 0 (history_items m)) then 0
    else length (positions_loop env 0 (history_items m)) - n"
  shows "\<exists>a0 x0 b0 a x b c.
    (history_items m = a0 @ x0 # b0 \<and> is_user_turn_boundary env x0 \<and>
       filter (is_user_turn_boundary env) a0 = []) \<and>
    (history_items m = a @ x # b \<and> is_user_turn_boundary env x \<and>
       length (filter (is_user_turn_boundary env) a) = k) \<and>
    (length a0 \<le> c \<and> c \<le> length a \<and> list_all (is_pre_turn_context env) (drop c a) \<and>
       (c = length a0 \<or> \<not> is_pre_turn_context env (history_items m ! (c - 1)))) \<and>
    drop_last_n_user_turns env n m = replace (take c a) (m\<lparr>reference_context_item :=
      if list_ex is_mixed_bundle (drop c a) then None else reference_context_item m\<rparr>)"
proof -
  let ?b = "is_user_turn_boundary env" and ?s = "history_items m"
  let ?ps = "positions_loop env 0 ?s"
  from assms obtain a0 x0 b0 a x b where
    first: "?s = a0 @ x0 # b0" "hd ?ps = length a0" "?b x0" "filter ?b a0 = []" and
    cut: "?s = a @ x # b" "?ps ! k = length a" "?b x" "length (filter ?b a) = k" and
    le: "length a0 \<le> length a"
    using rollback_cut [of n env ?s] by blast
  from first(2) obtain more where ps: "?ps = length a0 # more" using assms(1) by (cases ?ps) auto
  from trim_spec [OF le, of ?s env "reference_context_item m"] cut(1) obtain c where
    c: "trim_pre_turn_context_updates env ?s (length a0) (length a) (reference_context_item m) =
        (c, if list_ex is_mixed_bundle (drop c a) then None else reference_context_item m)"
      "length a0 \<le> c" "c \<le> length a" "list_all (is_pre_turn_context env) (drop c a)"
      "c = length a0 \<or> \<not> is_pre_turn_context env (?s ! (c - 1))"
    by auto
  have "drop_last_n_user_turns env n m =
      replace (take c a) (m\<lparr>reference_context_item :=
        if list_ex is_mixed_bundle (drop c a) then None else reference_context_item m\<rparr>)"
    using assms(1) ps cut c by (auto simp: drop_last_n_user_turns_def user_message_positions_def Let_def k_def)
  with first(1,3,4) cut(1,3,4) c(2-5) show ?thesis by blast
qed

text \<open>
  C14: A rollback of \<open>n\<close> turns cuts the history where a turn begins: exactly the last \<open>n\<close> turn
  boundaries go (all of them when there are fewer) with what follows. When something goes,
  all the injected context right before the cut goes too: between the first turn and the end
  of what is kept, the last item is not such context. What precedes the first turn stays, and
  nothing else is trimmed. The reference context is forgotten exactly when a trimmed developer
  message also held other instructions.
\<close>

theorem rollback_drops_turns:
  "\<exists>kept trimmed dropped.
     history_items m = kept @ trimmed @ dropped \<and>
     history_items (drop_last_n_user_turns env n m) = kept \<and>
     length (filter (is_user_turn_boundary env) dropped) =
       min n (length (filter (is_user_turn_boundary env) (history_items m))) \<and>
     (dropped = [] \<or> is_user_turn_boundary env (hd dropped)) \<and>
     list_all (is_pre_turn_context env) trimmed \<and>
     (if dropped = [] then trimmed = []
      else takeWhile (is_pre_turn_context env)
             (rev (dropWhile (\<lambda>it. \<not> is_user_turn_boundary env it) kept)) = []) \<and>
     takeWhile (\<lambda>it. \<not> is_user_turn_boundary env it) kept =
       takeWhile (\<lambda>it. \<not> is_user_turn_boundary env it) (history_items m) \<and>
     reference_context_item (drop_last_n_user_turns env n m) =
       (if list_ex is_mixed_bundle trimmed then None else reference_context_item m)"
proof (cases "n = 0 \<or> positions_loop env 0 (history_items m) = []")
  case True
  then consider "n = 0" | "positions_loop env 0 (history_items m) = []"
      "filter (is_user_turn_boundary env) (history_items m) = []"
    by (auto simp: positions_loop_empty)
  then show ?thesis
    by cases (rule_tac exI [of _ "history_items m"], rule_tac exI [of _ "[]"], rule_tac exI [of _ "[]"],
      simp add: drop_last_n_user_turns_def user_message_positions_def replace_def)+
next
  case False
  let ?b = "is_user_turn_boundary env" and ?s = "history_items m"
  let ?ps = "positions_loop env 0 ?s"
  let ?k = "if n \<ge> length ?ps then 0 else length ?ps - n"
  from rollback_result [OF False] obtain a0 x0 b0 a x b c where
    first: "?s = a0 @ x0 # b0" "?b x0" "filter ?b a0 = []" and
    cut: "?s = a @ x # b" "?b x" "length (filter ?b a) = ?k" and
    c: "length a0 \<le> c" "c \<le> length a" "list_all (is_pre_turn_context env) (drop c a)"
      "c = length a0 \<or> \<not> is_pre_turn_context env (?s ! (c - 1))" and
    result: "drop_last_n_user_turns env n m = replace (take c a) (m\<lparr>reference_context_item :=
        if list_ex is_mixed_bundle (drop c a) then None else reference_context_item m\<rparr>)"
    by blast
  have count: "length (filter ?b (x # b)) = min n (length (filter ?b ?s))"
  proof -
    have "length (filter ?b ?s) = length ?ps" by (simp add: length_positions)
    moreover have "length (filter ?b ?s) = ?k + length (filter ?b (x # b))" using cut(1,3) by simp
    moreover have "?k + min n (length ?ps) = length ?ps" by auto
    ultimately show ?thesis by linarith
  qed
  have start: "takeWhile (\<lambda>it. \<not> ?b it) (take c a) = takeWhile (\<lambda>it. \<not> ?b it) ?s"
    by (rule takeWhile_kept [OF first(1,3,2) cut(1) c(1,2)])
  have trimmed: "takeWhile (is_pre_turn_context env) (rev (dropWhile (\<lambda>it. \<not> ?b it) (take c a))) = []"
    by (rule context_trimmed [OF first(1,3) cut(1) c(1,2,4)])
  show ?thesis
  proof (rule exI, rule exI, rule exI, intro conjI)
    show "if x # b = [] then drop c a = []
      else takeWhile (is_pre_turn_context env) (rev (dropWhile (\<lambda>it. \<not> ?b it) (take c a))) = []"
      using trimmed by simp
    show "?s = take c a @ drop c a @ x # b" using cut(1) by simp
    show "history_items (drop_last_n_user_turns env n m) = take c a" by (simp add: result replace_def)
    show "length (filter ?b (x # b)) = min n (length (filter ?b ?s))" by (rule count)
    show "x # b = [] \<or> ?b (hd (x # b))" using cut(2) by simp
    show "list_all (is_pre_turn_context env) (drop c a)" by (rule c(3))
    show "takeWhile (\<lambda>it. \<not> ?b it) (take c a) = takeWhile (\<lambda>it. \<not> ?b it) ?s" by (rule start)
    show "reference_context_item (drop_last_n_user_turns env n m) =
        (if list_ex is_mixed_bundle (drop c a) then None else reference_context_item m)"
      by (simp add: result replace_def)
  qed
qed

section \<open>Histories a session can reach\<close>

text \<open>
  Every operation of the manager; a caller that replaces the history (compaction) gives items
  that recording would accept. The flag \<open>debug\<close> is any build.
\<close>

inductive history_step :: "'j history_env \<Rightarrow> ('j, 'c) context_manager \<Rightarrow> ('j, 'c) context_manager \<Rightarrow> bool"
  for env :: "'j history_env" where
  recorded: "record_items xs policy m = Some m' \<Longrightarrow> history_step env m m'"
| first_removed: "history_step env m (remove_first_item m)"
| last_removed: "history_step env m (fst (remove_last_item m))"
| replaced: "list_all recordable xs \<Longrightarrow> history_step env m (replace xs m)"
| images_replaced: "history_step env m (fst (replace_last_turn_images env placeholder m))"
| rolled_back: "history_step env m (drop_last_n_user_turns env n m)"
| stripped: "history_step env m (fst (strip_pre_turn_context_updates env m))"
| info_set: "history_step env m (set_token_info info m)"
| reference_set: "history_step env m (set_reference_context_item it m)"
| usage_full: "set_token_usage_full debug w m = Some m' \<Longrightarrow> history_step env m m'"
| usage_updated: "update_token_info debug usage w m = Some m' \<Longrightarrow> history_step env m m'"

inductive history_run :: "'j history_env \<Rightarrow> ('j, 'c) context_manager \<Rightarrow> bool"
  for env :: "'j history_env" where
  fresh: "history_run env new_history"
| more: "history_run env m \<Longrightarrow> history_step env m m' \<Longrightarrow> history_run env m'"

lemma set_remove_nth: "set (remove_nth i xs) \<subseteq> set xs"
  unfolding remove_nth_def by (auto dest: in_set_takeD in_set_dropD)

lemma set_remove_first_matching: "set (remove_first_matching p xs) \<subseteq> set xs"
  by (auto simp: remove_first_matching_def split: option.splits dest: subsetD [OF set_remove_nth])

lemma set_remove_corresponding: "set (remove_corresponding_for xs it) \<subseteq> set xs"
  by (induction xs it rule: remove_corresponding_for.induct)
    (auto split: option.splits dest!: subsetD [OF set_remove_first_matching] subsetD [OF set_remove_nth])

lemma recorded_items:
  "record_items xs policy m = Some m' \<Longrightarrow> list_all recordable (history_items m) \<Longrightarrow>
   list_all recordable (history_items m')"
  using record_loop_total [of "history_items m" policy xs] by (auto simp: record_items_def)

lemma list_all_subset: "set ys \<subseteq> set xs \<Longrightarrow> list_all p xs \<Longrightarrow> list_all p ys"
  by (auto simp: list_all_iff)

lemma rollback_items: "set (history_items (drop_last_n_user_turns env n m)) \<subseteq> set (history_items m)"
proof (cases "n = 0 \<or> user_message_positions env (history_items m) = []")
  case True
  then show ?thesis by (auto simp: drop_last_n_user_turns_def replace_def)
next
  case False
  then show ?thesis
    by (cases "user_message_positions env (history_items m)")
      (simp_all add: drop_last_n_user_turns_def replace_def Let_def set_take_subset split: prod.split)
qed

lemma strip_items: "set (history_items (fst (strip_pre_turn_context_updates env m))) \<subseteq> set (history_items m)"
proof -
  have kept: "set (map fst (filter q (zip xs ys))) \<subseteq> set xs" for q :: "'a response_item \<times> bool \<Rightarrow> bool" and xs ys
    by (auto dest: set_zip_leftD)
  show ?thesis
    by (simp add: strip_pre_turn_context_updates_def replace_def Let_def kept split: prod.split del: set_map)
qed

lemma replaced_images_items:
  "list_all recordable (history_items m) \<Longrightarrow>
   list_all recordable (history_items (fst (replace_last_turn_images env placeholder m)))"
proof -
  assume ok: "list_all recordable (history_items m)"
  have "list_all recordable ((history_items m)[i := FunctionCallOutput c p])" for i c p
    using ok set_update_subset_insert [of "history_items m" i "FunctionCallOutput c p"]
    by (auto simp: list_all_iff recordable_def)
  then show ?thesis
    using ok by (auto simp: replace_last_turn_images_def Let_def split: option.split response_item.split)
qed

lemma history_step_recordable:
  "history_step env m m' \<Longrightarrow> list_all recordable (history_items m) \<Longrightarrow> list_all recordable (history_items m')"
proof (induction rule: history_step.induct)
  case (recorded xs policy m m')
  then show ?case by (rule recorded_items)
next
  case (first_removed m)
  then show ?case
    using set_remove_corresponding by (fastforce simp: remove_first_item_def list_all_iff split: list.split)
next
  case (last_removed m)
  then show ?case
    using subsetD [OF set_remove_corresponding [of "butlast (history_items m)" "last (history_items m)"]]
    by (auto simp: remove_last_item_def list_all_iff dest: in_set_butlastD)
next
  case (rolled_back m n)
  then show ?case by (rule list_all_subset [OF rollback_items])
next
  case (stripped m)
  then show ?case by (rule list_all_subset [OF strip_items])
qed (auto simp: replace_def replaced_images_items set_token_info_def set_reference_context_item_def
    set_token_usage_full_def update_token_info_def)

lemma history_run_recordable: "history_run env m \<Longrightarrow> list_all recordable (history_items m)"
  by (induction rule: history_run.induct) (auto simp: new_history_def intro: history_step_recordable)

section \<open>What is sent\<close>

lemma ghost_has_no_key: "is_ghost_snapshot it \<Longrightarrow> call_key it = None \<and> output_key it = None"
  by (cases it) auto

lemma paired_without_ghosts: "paired xs \<Longrightarrow> paired (filter (\<lambda>it. \<not> is_ghost_snapshot it) xs)"
proof (rule pairedI)
  fix y k assume p: "paired xs" and y: "y \<in> set (filter (\<lambda>it. \<not> is_ghost_snapshot it) xs)" "call_key y = Some k"
  then obtain out where "out \<in> set xs" "output_key out = Some k" using paired_answer [OF p, of y k] by auto
  then show "\<exists>out \<in> set (filter (\<lambda>it. \<not> is_ghost_snapshot it) xs). output_key out = Some k"
    using ghost_has_no_key [of out] by auto
next
  fix y k assume p: "paired xs" and y: "y \<in> set (filter (\<lambda>it. \<not> is_ghost_snapshot it) xs)" "needs_call y"
    "output_key y = Some k"
  then obtain c where "c \<in> set xs" "call_key c = Some k" using paired_call [OF p, of y k] by auto
  then show "\<exists>c \<in> set (filter (\<lambda>it. \<not> is_ghost_snapshot it) xs). call_key c = Some k"
    using ghost_has_no_key [of c] by auto
qed

lemma synthetic_recordable [simp]: "recordable (synthetic_output k)"
  by (cases k) (simp_all add: recordable_def)

lemma strip_recordable [simp]: "recordable (strip_item_images it) = recordable it"
  by (cases it) (simp_all add: recordable_def)

lemma normalized_recordable:
  "normalize_history False modalities xs = Some ys \<Longrightarrow> list_all recordable xs \<Longrightarrow> list_all recordable ys"
  by (cases "ImageModality \<in> set modalities")
    (auto simp: normalize_release strip_images_when_unsupported_def list_all_iff answered_set answer_Some)

text \<open>
  C13: What a reachable history sends to the model: a release build always prepares it, every
  item is an API message (no system message, no snapshot, nothing unknown), calls and outputs
  are paired, and no image is sent to a model that takes none.
\<close>

theorem prompt_is_well_formed:
  assumes "history_run env m"
  shows "\<exists>ys. for_prompt False modalities m = Some ys \<and> list_all is_api_message ys \<and> paired ys \<and>
    \<not> (ImageModality \<notin> set modalities \<and> list_ex has_image ys)"
proof -
  let ?zs = "strip_images_when_unsupported modalities
      (filter (called (answered (history_items m))) (answered (history_items m)))"
  let ?ys = "filter (\<lambda>it. \<not> is_ghost_snapshot it) ?zs"
  have norm: "normalize_history False modalities (history_items m) = Some ?zs" by (rule normalize_release)
  have "list_all recordable ?zs" using normalized_recordable [OF norm] history_run_recordable [OF assms] by simp
  then have api: "list_all is_api_message ?ys" by (auto simp: list_all_iff recordable_def)
  have "paired ?zs" using paired_filter_called [OF answered_answers] by simp
  then have "paired ?ys" by (rule paired_without_ghosts)
  moreover have "\<not> (ImageModality \<notin> set modalities \<and> list_ex has_image ?ys)"
    by (auto simp: strip_images_when_unsupported_def list_ex_iff)
  ultimately show ?thesis using api norm by (simp add: for_prompt_def)
qed

theorem prompt_is_well_formed_witness:
  "\<exists>ys. for_prompt False [TextModality]
       ((new_history :: (nat, nat) context_manager)\<lparr>history_items := [FunctionCall None (lit ''shell'') None [] (lit ''c1'')]\<rparr>)
     = Some ys \<and> list_all is_api_message ys \<and> paired ys \<and> \<not> list_ex has_image ys"
proof -
  let ?m = "(new_history :: (nat, nat) context_manager)\<lparr>history_items := [FunctionCall None (lit ''shell'') None [] (lit ''c1'')]\<rparr>"
  let ?env = "\<lparr>read_hook_xml = \<lambda>_. None, is_agent_message = \<lambda>_. False, json_length = \<lambda>_. None,
    image_dimensions = \<lambda>_. None\<rparr> :: nat history_env"
  have "record_items [OtherItem, FunctionCall None (lit ''shell'') None [] (lit ''c1'')] (Bytes 10) new_history = Some ?m"
    by (simp add: record_items_def new_history_def)
  then have "history_run ?env ?m" by (rule history_run.more [OF history_run.fresh history_step.recorded])
  from prompt_is_well_formed [OF this, of "[TextModality]"] show ?thesis by simp
qed

section \<open>Estimates stay in range\<close>

lemma estimate_item_bounds: "0 \<le> estimate_item_token_count env it" "estimate_item_token_count env it \<le> i64_max"
proof -
  have "0 \<le> i64_max" by (simp add: i64_max_def)
  then show "0 \<le> estimate_item_token_count env it" "estimate_item_token_count env it \<le> i64_max"
    by (simp_all add: estimate_item_token_count_def approx_tokens_from_byte_count_i64_def)
qed

lemma sum_tokens_saturates:
  "sum_tokens env xs = min i64_max (sum_list (map (estimate_item_token_count env) xs))"
proof -
  have "foldl sat_add_i64 0 ys = fold (\<lambda>x acc. sat_add_i64 acc x) ys 0" for ys
    by (simp add: foldl_conv_fold)
  moreover have "fold (\<lambda>x acc. sat_add_i64 acc x) (map (estimate_item_token_count env) xs) 0 =
      min i64_max (0 + sum_list (map (estimate_item_token_count env) xs))"
    by (rule fold_sat_add_i64) (auto simp: estimate_item_bounds i64_max_def)
  ultimately show ?thesis by (simp add: sum_tokens_def)
qed

lemma sum_tokens_bounds: "0 \<le> sum_tokens env xs" "sum_tokens env xs \<le> i64_max"
proof -
  have "0 \<le> sum_list (map (estimate_item_token_count env) xs)"
    by (rule sum_list_nonneg) (auto simp: estimate_item_bounds)
  then show "0 \<le> sum_tokens env xs" "sum_tokens env xs \<le> i64_max"
    by (simp_all add: sum_tokens_saturates i64_max_def)
qed

text \<open>Recording never lowers the estimate, as long as it has not saturated.\<close>

lemma sum_tokens_append: "sum_tokens env xs \<le> sum_tokens env (xs @ ys)"
proof -
  have "0 \<le> sum_list (map (estimate_item_token_count env) ys)"
    by (rule sum_list_nonneg) (auto simp: estimate_item_bounds)
  then show ?thesis by (simp add: sum_tokens_saturates)
qed

text \<open>Past reasoning that the server did not count never lowers the usage.\<close>

lemma sat_add_i64_mono: "a \<le> b \<Longrightarrow> sat_add_i64 a c \<le> sat_add_i64 b c"
  by (simp add: sat_add_i64_def clamp_i64_mono)

lemma sat_add_i64_ge: "a \<le> i64_max \<Longrightarrow> 0 \<le> c \<Longrightarrow> a \<le> sat_add_i64 a c"
  by (simp add: sat_add_i64_def clamp_i64_def)

lemma reasoning_not_negative: "0 \<le> get_non_last_reasoning_items_tokens env m"
  by (simp add: get_non_last_reasoning_items_tokens_def sum_tokens_bounds split: option.split)

lemma server_reasoning_lowers_usage:
  "last_api_tokens m \<le> i64_max \<Longrightarrow> get_total_token_usage env True m \<le> get_total_token_usage env False m"
  by (simp add: get_total_token_usage_def Let_def sat_add_i64_mono sat_add_i64_ge reasoning_not_negative)

text \<open>
  Only the last function output is looked at: an image of an earlier output of the same turn,
  or of a custom tool, is not replaced.
\<close>

lemma earlier_image_not_replaced:
  "replace_last_turn_images env placeholder
     (m\<lparr>history_items := xs @ [FunctionCallOutput c p, FunctionCallOutput d (payload_from_text t)]\<rparr>) =
   (m\<lparr>history_items := xs @ [FunctionCallOutput c p, FunctionCallOutput d (payload_from_text t)]\<rparr>, False)"
  by (simp add: replace_last_turn_images_def rposition_def payload_content_items_def payload_from_text_def nth_append)

end
