(* ===== verification/Paths.thy ===== *)
theory Paths
  imports Prelude
begin

text \<open>
  Unix paths: \<open>std::path\<close>'s components, file name and stem, and
  \<open>AbsolutePathBuf\<close> (\<open>utils/absolute-path\<close>), which every component of the
  command and patch pipelines uses to compare and resolve paths. A path is its text; the
  normalised buffer that \<open>normalize_path\<close> builds by pushing components is the list
  of those components, rendered at the end.
\<close>

section \<open>Components of a path\<close>

datatype component = RootDir | CurDir | ParentDir | NormalComp ustring

definition slash :: uchar where
  "slash = 47"

fun segment_component :: "ustring \<Rightarrow> component option" where
  "segment_component s =
     (if s = [] \<or> s = lit ''.'' then None
      else if s = lit ''..'' then Some ParentDir
      else Some (NormalComp s))"

definition is_absolute :: "ustring \<Rightarrow> bool" where
  "is_absolute p = prefix [slash] p"

text \<open>
  \<open>Path::components\<close>: repeated separators and \<open>.\<close> segments disappear, but a
  leading \<open>.\<close> of a relative path stays.
\<close>

definition path_components :: "ustring \<Rightarrow> component list" where
  "path_components p =
     (let segs = split_on slash p
      in (if is_absolute p then [RootDir]
          else if hd segs = lit ''.'' then [CurDir] else [])
         @ List.map_filter segment_component segs)"

definition path_file_name :: "ustring \<Rightarrow> ustring option" where
  "path_file_name p =
     (case rev (path_components p) of NormalComp s # _ \<Rightarrow> Some s | _ \<Rightarrow> None)"

text \<open>\<open>Path::file_stem\<close>: the file name up to its last dot, unless that dot starts it.\<close>

definition path_file_stem :: "ustring \<Rightarrow> ustring option" where
  "path_file_stem p =
     (case path_file_name p of
        None \<Rightarrow> None
      | Some name \<Rightarrow>
          (let parts = split_on 46 name
           in if length parts = 1 \<or> (length parts = 2 \<and> hd parts = []) then Some name
              else Some (join_with [46] (butlast parts))))"

section \<open>Absolute paths\<close>

definition push_component :: "component list \<Rightarrow> component \<Rightarrow> component list" where
  "push_component acc c = (if c = RootDir then [RootDir] else acc @ [c])"

text \<open>\<open>PathBuf::pop\<close>: drops the last component; the root has no parent.\<close>

definition pop_component :: "component list \<Rightarrow> component list" where
  "pop_component acc = (if acc = [] \<or> last acc = RootDir then acc else butlast acc)"

fun normalize_step :: "component list \<Rightarrow> component \<Rightarrow> component list" where
  "normalize_step acc CurDir = acc"
| "normalize_step acc ParentDir = pop_component acc"
| "normalize_step acc c = push_component acc c"

definition component_str :: "component \<Rightarrow> ustring" where
  "component_str c = (case c of RootDir \<Rightarrow> [] | CurDir \<Rightarrow> lit ''.'' | ParentDir \<Rightarrow> lit ''..''
                      | NormalComp s \<Rightarrow> s)"

definition render_components :: "component list \<Rightarrow> ustring" where
  "render_components cs =
     (if cs = [RootDir] then [slash] else join_with [slash] (map component_str cs))"

definition normalize_path :: "ustring \<Rightarrow> ustring" where
  "normalize_path p =
     (let normalized = foldl normalize_step [] (path_components p)
      in if normalized = [] then lit ''.'' else render_components normalized)"

text \<open>\<open>Path::join\<close> for a relative right side.\<close>

definition path_join :: "ustring \<Rightarrow> ustring \<Rightarrow> ustring" where
  "path_join base p =
     (if is_absolute p then p
      else if base = [] then p
      else if last base = slash then base @ p else base @ slash # p)"

definition path_with_base :: "ustring \<Rightarrow> ustring \<Rightarrow> ustring" where
  "path_with_base p base = (if is_absolute p then p else path_join base p)"

definition absolutize_from :: "ustring \<Rightarrow> ustring \<Rightarrow> ustring" where
  "absolutize_from p base = normalize_path (path_with_base p base)"

text \<open>
  The environment \<open>AbsolutePathBuf\<close> reads: the home directory (the \<open>dirs\<close>
  package) and the process working directory, either of which can be unavailable.
\<close>

record path_env =
  home_dir :: "ustring option"
  current_dir :: "ustring option"

definition maybe_expand_home_directory :: "path_env \<Rightarrow> ustring \<Rightarrow> ustring" where
  "maybe_expand_home_directory env p =
     (case home_dir env of
        None \<Rightarrow> p
      | Some home \<Rightarrow>
          (case strip_prefix (lit ''~'') p of
             None \<Rightarrow> p
           | Some rest \<Rightarrow>
               (if rest = [] then home
                else case strip_prefix [slash] rest of
                       Some rest' \<Rightarrow> path_join home (dropWhile (\<lambda>c. c = slash) rest')
                     | None \<Rightarrow> p)))"

definition resolve_path_against_base :: "path_env \<Rightarrow> ustring \<Rightarrow> ustring \<Rightarrow> ustring" where
  "resolve_path_against_base env p base =
     absolutize_from (maybe_expand_home_directory env p) base"

text \<open>\<open>TryFrom<String>\<close>: fails only when a relative path meets no working directory.\<close>

definition absolutize :: "path_env \<Rightarrow> ustring \<Rightarrow> ustring option" where
  "absolutize env p =
     (if is_absolute p then Some (normalize_path p)
      else map_option (absolutize_from p) (current_dir env))"

definition from_absolute_path :: "path_env \<Rightarrow> ustring \<Rightarrow> ustring option" where
  "from_absolute_path env p = absolutize env (maybe_expand_home_directory env p)"

definition abs_parent :: "ustring \<Rightarrow> ustring option" where
  "abs_parent p =
     (case rev (path_components p) of
        [] \<Rightarrow> None
      | RootDir # _ \<Rightarrow> None
      | _ # cs \<Rightarrow> Some (render_components (rev cs)))"

section \<open>Normalisation reaches a normal form\<close>

text \<open>
  The list a normalised absolute path is read back as: the root, then ordinary names.
\<close>

definition normal_name :: "ustring \<Rightarrow> bool" where
  "normal_name s \<longleftrightarrow> s \<noteq> [] \<and> s \<noteq> lit ''.'' \<and> s \<noteq> lit ''..'' \<and> slash \<notin> set s"

definition normal_absolute :: "component list \<Rightarrow> bool" where
  "normal_absolute cs \<longleftrightarrow>
     (\<exists>names. cs = RootDir # map NormalComp names \<and> (\<forall>s \<in> set names. normal_name s))"

lemma segment_component_normal:
  "segment_component s = Some (NormalComp t) \<Longrightarrow> slash \<notin> set s \<Longrightarrow> normal_name t"
  by (auto simp: normal_name_def split: if_splits)

lemma path_components_absolute:
  assumes "is_absolute p"
  shows "\<exists>cs. path_components p = RootDir # cs
     \<and> (\<forall>c \<in> set cs. c = ParentDir \<or> (\<exists>s. c = NormalComp s \<and> normal_name s))"
proof -
  let ?cs = "List.map_filter segment_component (split_on slash p)"
  have "c = ParentDir \<or> (\<exists>s. c = NormalComp s \<and> normal_name s)" if "c \<in> set ?cs" for c
  proof -
    from that obtain s where "s \<in> set (split_on slash p)" "segment_component s = Some c"
      by (auto simp: List.map_filter_def)
    moreover from this have "slash \<notin> set s" by (blast dest: split_on_no_sep)
    ultimately show ?thesis by (auto simp: normal_name_def split: if_splits)
  qed
  then show ?thesis using assms by (auto simp: path_components_def Let_def)
qed

lemma normalize_step_normal:
  assumes "normal_absolute acc" "c = ParentDir \<or> (\<exists>s. c = NormalComp s \<and> normal_name s)"
  shows "normal_absolute (normalize_step acc c)"
proof -
  from assms(1) obtain names where acc: "acc = RootDir # map NormalComp names"
    and names: "\<forall>s \<in> set names. normal_name s"
    by (auto simp: normal_absolute_def)
  show ?thesis
  proof (cases "c = ParentDir")
    case True
    with acc names show ?thesis
      by (cases names rule: rev_cases)
        (auto simp: normal_absolute_def pop_component_def)
  next
    case False
    with assms(2) obtain s where "c = NormalComp s" "normal_name s" by blast
    with acc names show ?thesis
      by (simp add: normal_absolute_def push_component_def)
        (rule exI [of _ "names @ [s]"], auto)
  qed
qed

lemma foldl_normalize_normal:
  "normal_absolute acc \<Longrightarrow> \<forall>c \<in> set cs. c = ParentDir \<or> (\<exists>s. c = NormalComp s \<and> normal_name s)
   \<Longrightarrow> normal_absolute (foldl normalize_step acc cs)"
  by (induction cs arbitrary: acc) (simp_all add: normalize_step_normal)

lemma map_filter_segment_names:
  "\<forall>s \<in> set names. normal_name s \<Longrightarrow> List.map_filter segment_component names = map NormalComp names"
  by (induction names) (auto simp: List.map_filter_def normal_name_def)

lemma path_components_render:
  assumes "normal_absolute cs"
  shows "path_components (render_components cs) = cs" and "is_absolute (render_components cs)"
proof -
  from assms obtain names where cs: "cs = RootDir # map NormalComp names"
    and names: "\<forall>s \<in> set names. normal_name s"
    by (auto simp: normal_absolute_def)
  have "path_components (render_components cs) = cs \<and> is_absolute (render_components cs)"
  proof (cases names)
    case Nil
    with cs show ?thesis
      by (simp add: render_components_def path_components_def is_absolute_def List.map_filter_def)
  next
    case (Cons n ns)
    have str: "component_str \<circ> NormalComp = (\<lambda>s. s)" by (auto simp: component_str_def)
    have r: "render_components cs = slash # join_with [slash] names"
      using cs Cons str by (simp add: render_components_def component_str_def o_def)
    have "split_on slash (slash # join_with [slash] names) = [] # names"
      using names Cons by (simp add: split_join normal_name_def)
    with r names cs show ?thesis
      by (simp add: path_components_def is_absolute_def map_filter_segment_names
          List.map_filter_simps)
  qed
  then show "path_components (render_components cs) = cs" and "is_absolute (render_components cs)"
    by simp_all
qed

lemma normalize_absolute_components:
  assumes "is_absolute p"
  shows "\<exists>cs. normal_absolute cs \<and> normalize_path p = render_components cs"
proof -
  from path_components_absolute [OF assms] obtain cs where cs: "path_components p = RootDir # cs"
    and ok: "\<forall>c \<in> set cs. c = ParentDir \<or> (\<exists>s. c = NormalComp s \<and> normal_name s)"
    by blast
  have "normal_absolute [RootDir]" by (simp add: normal_absolute_def)
  from foldl_normalize_normal [OF this ok] show ?thesis
    using cs by (auto simp: normalize_path_def push_component_def normal_absolute_def Let_def
        intro!: exI [of _ "foldl normalize_step [RootDir] cs"])
qed

lemma foldl_normalize_names:
  "foldl normalize_step acc (map NormalComp names) = acc @ map NormalComp names"
  by (induction names arbitrary: acc) (simp_all add: push_component_def)

lemma normalize_render:
  "normal_absolute cs \<Longrightarrow> normalize_path (render_components cs) = render_components cs"
  by (auto simp: normalize_path_def path_components_render Let_def)
    (auto simp: normal_absolute_def push_component_def foldl_normalize_names)

text \<open>
  Normalising an absolute path settles it: the result is absolute, holds no dot segment
  that a second pass would remove, and a second pass leaves it as it is.
\<close>

theorem normalize_path_idem:
  "is_absolute p \<Longrightarrow> normalize_path (normalize_path p) = normalize_path p
     \<and> is_absolute (normalize_path p)"
  using normalize_absolute_components [of p] normalize_render path_components_render by auto

lemma normalize_path_idem_witness:
  "is_absolute (lit ''/a/./b/../c'') \<and>
   normalize_path (normalize_path (lit ''/a/./b/../c'')) = normalize_path (lit ''/a/./b/../c'')"
  using normalize_path_idem [of "lit ''/a/./b/../c''"] by (simp add: is_absolute_def slash_def lit_def uc_def)

end
