(* ===== verification/ExecRule.thy ===== *)
theory ExecRule
  imports Paths
begin

text \<open>
  The rules of an exec policy (\<open>execpolicy/src/decision.rs\<close>, \<open>rule.rs\<close>,
  \<open>executable_name.rs\<close>, \<open>error.rs\<close>): decisions in increasing order of
  severity, prefix rules over command tokens, network rules and their host
  normalisation. The interface a policy relies on (the trait \<open>Rule\<close>) is the
  locale \<open>command_rule\<close>, interpreted on prefix rules.
\<close>

section \<open>Errors and decisions\<close>

record text_position =
  pos_line :: nat
  pos_column :: nat

record text_range =
  range_start :: text_position
  range_end :: text_position

record error_location =
  loc_path :: ustring
  loc_range :: text_range

text \<open>Errors of the Starlark evaluator are values of another package.\<close>

typedecl starlark_error

datatype policy_error =
    InvalidDecision ustring
  | InvalidPattern ustring
  | InvalidExample ustring
  | InvalidRule ustring
  | ExampleDidNotMatch "ustring list" "ustring list" "error_location option"
  | ExampleDidMatch ustring ustring "error_location option"
  | StarlarkErr starlark_error

fun with_location :: "policy_error \<Rightarrow> error_location \<Rightarrow> policy_error" where
  "with_location (ExampleDidNotMatch rules examples None) loc =
     ExampleDidNotMatch rules examples (Some loc)"
| "with_location (ExampleDidMatch rule example None) loc =
     ExampleDidMatch rule example (Some loc)"
| "with_location other loc = other"

text \<open>The span of a Starlark error, already resolved by its package, is the parameter.\<close>

fun error_location_of :: "(starlark_error \<Rightarrow> (ustring \<times> text_range) option) \<Rightarrow> policy_error
    \<Rightarrow> error_location option" where
  "error_location_of span (ExampleDidNotMatch _ _ loc) = loc"
| "error_location_of span (ExampleDidMatch _ _ loc) = loc"
| "error_location_of span (StarlarkErr err) =
     (case span err of
        None \<Rightarrow> None
      | Some (file, rng) \<Rightarrow>
          Some \<lparr>loc_path = file,
                loc_range = \<lparr>range_start = \<lparr>pos_line = pos_line (range_start rng) + 1,
                                          pos_column = pos_column (range_start rng) + 1\<rparr>,
                             range_end = \<lparr>pos_line = pos_line (range_end rng) + 1,
                                        pos_column = pos_column (range_end rng) + 1\<rparr>\<rparr>\<rparr>)"
| "error_location_of span _ = None"

datatype decision = Allow | Prompt | Forbidden

fun decision_rank :: "decision \<Rightarrow> nat" where
  "decision_rank Allow = 0"
| "decision_rank Prompt = 1"
| "decision_rank Forbidden = 2"

instantiation decision :: linorder
begin

definition less_eq_decision :: "decision \<Rightarrow> decision \<Rightarrow> bool" where
  "less_eq_decision a b \<longleftrightarrow> decision_rank a \<le> decision_rank b"

definition less_decision :: "decision \<Rightarrow> decision \<Rightarrow> bool" where
  "less_decision a b \<longleftrightarrow> decision_rank a < decision_rank b"

instance
proof
  fix a b c :: decision
  show "a < b \<longleftrightarrow> a \<le> b \<and> \<not> b \<le> a" by (auto simp: less_eq_decision_def less_decision_def)
  show "a \<le> a" by (simp add: less_eq_decision_def)
  show "a \<le> b \<Longrightarrow> b \<le> c \<Longrightarrow> a \<le> c" by (simp add: less_eq_decision_def)
  show "a \<le> b \<Longrightarrow> b \<le> a \<Longrightarrow> a = b"
    by (cases a; cases b) (simp_all add: less_eq_decision_def)
  show "a \<le> b \<or> b \<le> a" by (auto simp: less_eq_decision_def)
qed

end

lemma Allow_least [simp]: "Allow \<le> d"
  by (simp add: less_eq_decision_def)

lemma Forbidden_greatest [simp]: "d \<le> Forbidden"
  by (cases d) (simp_all add: less_eq_decision_def)

lemma le_Allow_iff [simp]: "d \<le> Allow \<longleftrightarrow> d = Allow"
  by (cases d) (simp_all add: less_eq_decision_def)

lemma Forbidden_le_iff [simp]: "Forbidden \<le> d \<longleftrightarrow> d = Forbidden"
  by (cases d) (simp_all add: less_eq_decision_def)

definition decision_parse :: "ustring \<Rightarrow> policy_error + decision" where
  "decision_parse raw =
     (if raw = lit ''allow'' then Inr Allow
      else if raw = lit ''prompt'' then Inr Prompt
      else if raw = lit ''forbidden'' then Inr Forbidden
      else Inl (InvalidDecision raw))"

text \<open>The Unix builds look executables up by their name as it is.\<close>

definition executable_lookup_key :: "ustring \<Rightarrow> ustring" where
  "executable_lookup_key raw = raw"

definition executable_path_lookup_key :: "ustring \<Rightarrow> ustring option" where
  "executable_path_lookup_key p = map_option executable_lookup_key (path_file_name p)"

section \<open>Patterns and rules\<close>

datatype pattern_token = Single ustring | Alts "ustring list"

fun token_matches :: "pattern_token \<Rightarrow> ustring \<Rightarrow> bool" where
  "token_matches (Single expected) tok = (expected = tok)"
| "token_matches (Alts alternatives) tok = (\<exists>alt \<in> set alternatives. alt = tok)"

fun token_alternatives :: "pattern_token \<Rightarrow> ustring list" where
  "token_alternatives (Single expected) = [expected]"
| "token_alternatives (Alts alternatives) = alternatives"

record prefix_pattern =
  pat_first :: ustring
  pat_rest :: "pattern_token list"

definition matches_prefix :: "prefix_pattern \<Rightarrow> ustring list \<Rightarrow> ustring list option" where
  "matches_prefix p cmd =
     (let pattern_length = length (pat_rest p) + 1
      in if length cmd < pattern_length \<or> cmd ! 0 \<noteq> pat_first p then None
         else if \<not> list_all (\<lambda>(pt, tok). token_matches pt tok)
                     (zip (pat_rest p) (take (length (pat_rest p)) (drop 1 cmd))) then None
         else Some (take pattern_length cmd))"

datatype rule_match =
    PrefixRuleMatch (matched_prefix: "ustring list") (match_decision: decision)
      (resolved_program: "ustring option") (match_justification: "ustring option")
  | HeuristicsRuleMatch (match_command: "ustring list") (match_decision: decision)

fun with_resolved_program :: "rule_match \<Rightarrow> ustring \<Rightarrow> rule_match" where
  "with_resolved_program (PrefixRuleMatch pre d _ j) prog = PrefixRuleMatch pre d (Some prog) j"
| "with_resolved_program other prog = other"

record prefix_rule =
  rule_pattern :: prefix_pattern
  rule_decision :: decision
  rule_justification :: "ustring option"

definition rule_program :: "prefix_rule \<Rightarrow> ustring" where
  "rule_program r = pat_first (rule_pattern r)"

definition rule_matches :: "prefix_rule \<Rightarrow> ustring list \<Rightarrow> rule_match option" where
  "rule_matches r cmd =
     map_option (\<lambda>pre. PrefixRuleMatch pre (rule_decision r) None (rule_justification r))
       (matches_prefix (rule_pattern r) cmd)"

datatype network_protocol = Http | Https | Socks5Tcp | Socks5Udp

definition network_protocol_parse :: "ustring \<Rightarrow> policy_error + network_protocol" where
  "network_protocol_parse raw =
     (if raw = lit ''http'' then Inr Http
      else if raw = lit ''https'' \<or> raw = lit ''https_connect'' \<or> raw = lit ''http-connect''
      then Inr Https
      else if raw = lit ''socks5_tcp'' then Inr Socks5Tcp
      else if raw = lit ''socks5_udp'' then Inr Socks5Udp
      else Inl (InvalidRule (lit ''network_rule protocol must be one of http, https, socks5_tcp, socks5_udp (got '' @ raw @ lit '')'')))"

fun as_policy_string :: "network_protocol \<Rightarrow> ustring" where
  "as_policy_string Http = lit ''http''"
| "as_policy_string Https = lit ''https''"
| "as_policy_string Socks5Tcp = lit ''socks5_tcp''"
| "as_policy_string Socks5Udp = lit ''socks5_udp''"

record network_rule =
  net_host :: ustring
  net_protocol :: network_protocol
  net_decision :: decision
  net_justification :: "ustring option"

section \<open>Host normalisation\<close>

definition rsplit_once :: "uchar \<Rightarrow> ustring \<Rightarrow> (ustring \<times> ustring) option" where
  "rsplit_once c s =
     map_option (\<lambda>(a, b). (rev b, rev a)) (split_once c (rev s))"

definition trim_end_matches :: "uchar \<Rightarrow> ustring \<Rightarrow> ustring" where
  "trim_end_matches c s = rev (dropWhile (\<lambda>x. x = c) (rev s))"

definition all_digits :: "ustring \<Rightarrow> bool" where
  "all_digits s = list_all is_ascii_digit s"

text \<open>The part of the host between optional brackets and before an optional port.\<close>

definition strip_brackets_and_port :: "ustring \<Rightarrow> ustring \<Rightarrow> policy_error + ustring" where
  "strip_brackets_and_port raw host =
     (case strip_prefix (lit ''['') host of
        Some stripped \<Rightarrow>
          (case split_once 93 stripped of
             None \<Rightarrow> Inl (InvalidRule (lit ''network_rule host has an invalid bracketed IPv6 literal''))
           | Some (inside, rest) \<Rightarrow>
               (let port_ok = (case strip_prefix (lit '':'') rest of
                                 None \<Rightarrow> False | Some port \<Rightarrow> port \<noteq> [] \<and> all_digits port)
                in if rest \<noteq> [] \<and> \<not> port_ok
                   then Inl (InvalidRule (lit ''network_rule host contains an unsupported suffix: '' @ raw))
                   else Inr inside))
      | None \<Rightarrow>
          (if count_list host 58 = 1
           then (case rsplit_once 58 host of
                   None \<Rightarrow> Inr host
                 | Some (candidate, port) \<Rightarrow>
                     if candidate \<noteq> [] \<and> port \<noteq> [] \<and> all_digits port then Inr candidate else Inr host)
           else Inr host))"

definition normalize_network_rule_host :: "ustring \<Rightarrow> policy_error + ustring" where
  "normalize_network_rule_host raw =
     (let host = trim raw
      in if host = [] then Inl (InvalidRule (lit ''network_rule host cannot be empty''))
         else if contains (lit ''://'') host \<or> 47 \<in> set host \<or> 63 \<in> set host \<or> 35 \<in> set host
         then Inl (InvalidRule (lit ''network_rule host must be a hostname or IP literal (without scheme or path)''))
         else case strip_brackets_and_port raw host of
                Inl e \<Rightarrow> Inl e
              | Inr host' \<Rightarrow>
                  (let normalized = to_ascii_lowercase (trim (trim_end_matches 46 host'))
                   in if normalized = []
                      then Inl (InvalidRule (lit ''network_rule host cannot be empty''))
                      else if 42 \<in> set normalized
                      then Inl (InvalidRule (lit ''network_rule host must be a specific host; wildcards are not allowed''))
                      else if \<exists>c \<in> set normalized. is_whitespace c
                      then Inl (InvalidRule (lit ''network_rule host cannot contain whitespace''))
                      else Inr normalized))"

text \<open>What every stored network host satisfies.\<close>

definition canonical_host :: "ustring \<Rightarrow> bool" where
  "canonical_host h \<longleftrightarrow>
     h \<noteq> [] \<and> 42 \<notin> set h \<and> list_all (\<lambda>c. \<not> is_whitespace c) h \<and> to_ascii_lowercase h = h"

lemma to_ascii_lower_idem [simp]: "to_ascii_lower (to_ascii_lower c) = to_ascii_lower c"
  by (simp add: to_ascii_lower_def)

lemma to_ascii_lowercase_idem [simp]:
  "to_ascii_lowercase (to_ascii_lowercase s) = to_ascii_lowercase s"
  by (simp add: to_ascii_lowercase_def)

lemma normalize_network_rule_host_canonical:
  "normalize_network_rule_host raw = Inr h \<Longrightarrow> canonical_host h"
  by (auto simp: normalize_network_rule_host_def canonical_host_def Let_def list_all_iff
      split: if_splits sum.splits)

section \<open>The rule interface\<close>

text \<open>
  A policy is a client of rules: it files a rule under its program and asks it for a
  match. What it relies on: a match names a non-empty prefix of the command that starts
  with the rule's program, carries no resolved program yet, and stays a match when more
  arguments follow.
\<close>

locale command_rule =
  fixes rmatches :: "'r \<Rightarrow> ustring list \<Rightarrow> rule_match option"
    and program :: "'r \<Rightarrow> ustring"
  assumes match_shape: "rmatches r cmd = Some m \<Longrightarrow>
      \<exists>pre d j. m = PrefixRuleMatch pre d None j \<and> prefix pre cmd \<and> pre \<noteq> [] \<and> hd pre = program r"
    and match_stable: "rmatches r cmd = Some m \<Longrightarrow> rmatches r (cmd @ extra) = Some m"
begin

lemma no_match_empty: "rmatches r [] = None"
proof (rule ccontr)
  assume "rmatches r [] \<noteq> None"
  then obtain m where "rmatches r [] = Some m" by blast
  from match_shape [OF this] show False by auto
qed

lemma match_program: "rmatches r cmd = Some m \<Longrightarrow> cmd \<noteq> [] \<and> hd cmd = program r"
  using match_shape [of r cmd m] by (auto simp: prefix_def)

lemma matches_stable:
  "set (List.map_filter (\<lambda>r. rmatches r cmd) rs)
     \<subseteq> set (List.map_filter (\<lambda>r. rmatches r (cmd @ extra)) rs)"
  by (fastforce intro: match_stable)

lemma matches_are_prefix_matches:
  "m \<in> set (List.map_filter (\<lambda>r. rmatches r cmd) rs) \<Longrightarrow> \<exists>pre d j. m = PrefixRuleMatch pre d None j
     \<and> prefix pre cmd \<and> pre \<noteq> []"
  by (auto dest!: match_shape)

end

lemma matches_prefix_Some:
  "matches_prefix p cmd = Some pre \<longleftrightarrow>
     (\<exists>extra. cmd = pre @ extra \<and> length pre = length (pat_rest p) + 1 \<and> pre ! 0 = pat_first p
       \<and> list_all2 token_matches (pat_rest p) (tl pre))"
  (is "?L \<longleftrightarrow> ?R")
proof
  assume ?L
  then have len: "length (pat_rest p) + 1 \<le> length cmd" and hd: "cmd ! 0 = pat_first p"
    and all: "list_all (\<lambda>(pt, tok). token_matches pt tok)
        (zip (pat_rest p) (take (length (pat_rest p)) (drop 1 cmd)))"
    and pre: "pre = take (length (pat_rest p) + 1) cmd"
    by (auto simp: matches_prefix_def Let_def split: if_splits)
  obtain c cs where cmd: "cmd = c # cs" using len by (cases cmd) auto
  have "list_all2 token_matches (pat_rest p) (take (length (pat_rest p)) cs)"
    using all len cmd by (auto simp: list_all2_iff list_all_iff)
  with len hd pre cmd show ?R
    by (intro exI [of _ "drop (length (pat_rest p) + 1) cmd"]) auto
next
  assume ?R
  then obtain extra where r: "cmd = pre @ extra" "length pre = length (pat_rest p) + 1"
    "pre ! 0 = pat_first p" "list_all2 token_matches (pat_rest p) (tl pre)" by blast
  then obtain c cs where pre: "pre = c # cs" by (cases pre) auto
  with r show ?L by (auto simp: matches_prefix_def Let_def list_all2_iff list_all_iff)
qed

lemma rule_matches_Some:
  "rule_matches r cmd = Some m \<longleftrightarrow>
     (\<exists>pre. matches_prefix (rule_pattern r) cmd = Some pre
       \<and> m = PrefixRuleMatch pre (rule_decision r) None (rule_justification r))"
  by (auto simp: rule_matches_def)

interpretation prefix_rule: command_rule rule_matches rule_program
proof
  fix r cmd m extra
  assume "rule_matches r cmd = Some m"
  then obtain pre where pre: "matches_prefix (rule_pattern r) cmd = Some pre"
    and m: "m = PrefixRuleMatch pre (rule_decision r) None (rule_justification r)"
    by (auto simp: rule_matches_Some)
  then show "\<exists>pre d j. m = PrefixRuleMatch pre d None j \<and> prefix pre cmd \<and> pre \<noteq> []
      \<and> hd pre = rule_program r"
    by (cases pre) (auto simp: matches_prefix_Some rule_program_def)
  show "rule_matches r (cmd @ extra) = Some m"
    using pre m by (auto simp: rule_matches_Some matches_prefix_Some)
qed

end
