(* ===== verification/ExecPolicy.thy ===== *)
theory ExecPolicy
  imports ExecRule "HOL-Library.List_Lexorder"
begin

text \<open>
  The exec policy itself (\<open>execpolicy/src/policy.rs\<close>): rules filed by program,
  network rules, host executables, and the evaluation of one or several commands
  against them with a heuristics fallback. The multimap of rules is the list of its
  entries, one per program, each with that program's rules in insertion order; the order
  of the entries stands for the unspecified iteration order of the hash map.
\<close>

section \<open>The multimap of rules\<close>

type_synonym 'v multimap = "(ustring \<times> 'v list) list"

definition mm_get :: "'v multimap \<Rightarrow> ustring \<Rightarrow> 'v list option" where
  "mm_get m k = map_of m k"

fun mm_insert :: "ustring \<Rightarrow> 'v \<Rightarrow> 'v multimap \<Rightarrow> 'v multimap" where
  "mm_insert k v [] = [(k, [v])]"
| "mm_insert k v ((k', vs) # m) =
     (if k = k' then (k', vs @ [v]) # m else (k', vs) # mm_insert k v m)"

definition mm_rules :: "'v multimap \<Rightarrow> ustring \<Rightarrow> 'v list" where
  "mm_rules m k = (case mm_get m k of None \<Rightarrow> [] | Some vs \<Rightarrow> vs)"

definition mm_wf :: "'v multimap \<Rightarrow> bool" where
  "mm_wf m \<longleftrightarrow> distinct (map fst m)"

lemma mm_rules_insert: "mm_rules (mm_insert k v m) j = (if j = k then mm_rules m k @ [v] else mm_rules m j)"
  by (induction m) (auto simp: mm_rules_def mm_get_def)

lemma mm_keys_insert: "fst ` set (mm_insert k v m) = insert k (fst ` set m)"
  by (induction k v m rule: mm_insert.induct) auto

lemma mm_wf_insert [simp]: "mm_wf m \<Longrightarrow> mm_wf (mm_insert k v m)"
proof (induction m)
  case (Cons e m)
  obtain k' vs where e: "e = (k', vs)" by (cases e)
  have "k' \<notin> fst ` set (mm_insert k v m)" if "k \<noteq> k'"
    using Cons.prems that e by (auto simp: mm_keys_insert mm_wf_def)
  with Cons e show ?case by (auto simp: mm_wf_def)
qed (simp add: mm_wf_def)

section \<open>The policy\<close>

record match_options =
  resolve_host_executables :: bool

record policy =
  rules_by_program :: "prefix_rule multimap"
  network_rules :: "network_rule list"
  host_executables_by_name :: "(ustring \<rightharpoonup> ustring list)"

definition policy_from_parts :: "prefix_rule multimap \<Rightarrow> network_rule list
    \<Rightarrow> (ustring \<rightharpoonup> ustring list) \<Rightarrow> policy" where
  "policy_from_parts rules net hosts =
     \<lparr>rules_by_program = rules, network_rules = net, host_executables_by_name = hosts\<rparr>"

definition policy_new :: "prefix_rule multimap \<Rightarrow> policy" where
  "policy_new rules = policy_from_parts rules [] Map.empty"

definition policy_empty :: policy where
  "policy_empty = policy_new []"

definition render_pattern_token :: "pattern_token \<Rightarrow> ustring" where
  "render_pattern_token t =
     (case t of Single v \<Rightarrow> v
      | Alts alternatives \<Rightarrow> lit ''['' @ join_with (lit ''|'') alternatives @ lit '']'')"

definition get_allowed_prefixes :: "policy \<Rightarrow> ustring list list" where
  "get_allowed_prefixes p =
     remdups_adj (sort
       (concat (map (\<lambda>(_, rules).
          List.map_filter (\<lambda>r.
            if rule_decision r \<noteq> Allow then None
            else Some (pat_first (rule_pattern r)
                       # map render_pattern_token (pat_rest (rule_pattern r)))) rules)
          (rules_by_program p))))"

definition add_prefix_rule :: "ustring list \<Rightarrow> decision \<Rightarrow> policy \<Rightarrow> policy_error + policy" where
  "add_prefix_rule pre d p =
     (case pre of
        [] \<Rightarrow> Inl (InvalidPattern (lit ''prefix cannot be empty''))
      | first # rest \<Rightarrow>
          Inr (p\<lparr>rules_by_program := mm_insert first
                   \<lparr>rule_pattern = \<lparr>pat_first = first, pat_rest = map Single rest\<rparr>,
                    rule_decision = d, rule_justification = None\<rparr> (rules_by_program p)\<rparr>))"

definition add_network_rule :: "ustring \<Rightarrow> network_protocol \<Rightarrow> decision \<Rightarrow> ustring option
    \<Rightarrow> policy \<Rightarrow> policy_error + policy" where
  "add_network_rule host protocol d justification p =
     (case normalize_network_rule_host host of
        Inl e \<Rightarrow> Inl e
      | Inr h \<Rightarrow>
          (if \<exists>raw \<in> set_option justification. trim raw = []
           then Inl (InvalidRule (lit ''justification cannot be empty''))
           else Inr (p\<lparr>network_rules := network_rules p @
                  [\<lparr>net_host = h, net_protocol = protocol, net_decision = d,
                    net_justification = justification\<rparr>]\<rparr>)))"

definition set_host_executable_paths :: "ustring \<Rightarrow> ustring list \<Rightarrow> policy \<Rightarrow> policy" where
  "set_host_executable_paths name paths p =
     p\<lparr>host_executables_by_name := (host_executables_by_name p)(name \<mapsto> paths)\<rparr>"

definition mm_extend :: "'v multimap \<Rightarrow> 'v multimap \<Rightarrow> 'v multimap" where
  "mm_extend base overlay =
     foldl (\<lambda>m (program, rules). foldl (\<lambda>m r. mm_insert program r m) m rules) base overlay"

definition merge_overlay :: "policy \<Rightarrow> policy \<Rightarrow> policy" where
  "merge_overlay base overlay =
     policy_from_parts
       (mm_extend (rules_by_program base) (rules_by_program overlay))
       (network_rules base @ network_rules overlay)
       (host_executables_by_name base ++ host_executables_by_name overlay)"

definition upsert_domain :: "ustring list \<Rightarrow> ustring \<Rightarrow> ustring list" where
  "upsert_domain entries host = filter (\<lambda>e. e \<noteq> host) entries @ [host]"

fun compile_domain_step :: "ustring list \<times> ustring list \<Rightarrow> network_rule
    \<Rightarrow> ustring list \<times> ustring list" where
  "compile_domain_step (allowed, denied) r =
     (case net_decision r of
        Allow \<Rightarrow> (upsert_domain allowed (net_host r), filter (\<lambda>e. e \<noteq> net_host r) denied)
      | Forbidden \<Rightarrow> (filter (\<lambda>e. e \<noteq> net_host r) allowed, upsert_domain denied (net_host r))
      | Prompt \<Rightarrow> (allowed, denied))"

definition compiled_network_domains :: "policy \<Rightarrow> ustring list \<times> ustring list" where
  "compiled_network_domains p = foldl compile_domain_step ([], []) (network_rules p)"

section \<open>Evaluation\<close>

record evaluation =
  eval_decision :: decision
  matched_rules :: "rule_match list"

fun is_policy_match :: "rule_match \<Rightarrow> bool" where
  "is_policy_match (PrefixRuleMatch _ _ _ _) = True"
| "is_policy_match (HeuristicsRuleMatch _ _) = False"

definition evaluation_is_match :: "evaluation \<Rightarrow> bool" where
  "evaluation_is_match e = list_ex is_policy_match (matched_rules e)"

text \<open>\<open>Evaluation::from_matches\<close> panics on an empty list: that is \<open>None\<close>.\<close>

definition from_matches :: "rule_match list \<Rightarrow> evaluation option" where
  "from_matches ms =
     (case ms of
        [] \<Rightarrow> None
      | m # rest \<Rightarrow> Some \<lparr>eval_decision = foldl (\<lambda>d m. max d (match_decision m)) (match_decision m) rest,
                       matched_rules = ms\<rparr>)"

definition match_exact_rules :: "policy \<Rightarrow> ustring list \<Rightarrow> rule_match list option" where
  "match_exact_rules p cmd =
     (case cmd of
        [] \<Rightarrow> None
      | first # _ \<Rightarrow>
          Some (case mm_get (rules_by_program p) first of
                  None \<Rightarrow> []
                | Some rules \<Rightarrow> List.map_filter (\<lambda>r. rule_matches r cmd) rules))"

definition match_host_executable_rules :: "path_env \<Rightarrow> policy \<Rightarrow> ustring list \<Rightarrow> rule_match list" where
  "match_host_executable_rules env p cmd =
     (case cmd of
        [] \<Rightarrow> []
      | first # args \<Rightarrow>
          (case from_absolute_path env first of
             None \<Rightarrow> []
           | Some program \<Rightarrow>
               (case executable_path_lookup_key program of
                  None \<Rightarrow> []
                | Some basename \<Rightarrow>
                    (case mm_get (rules_by_program p) basename of
                       None \<Rightarrow> []
                     | Some rules \<Rightarrow>
                         (if \<exists>paths \<in> set_option (host_executables_by_name p basename).
                                program \<notin> set paths
                          then []
                          else map (\<lambda>m. with_resolved_program m program)
                                 (List.map_filter (\<lambda>r. rule_matches r (basename # args)) rules))))))"

text \<open>Exact rules first; a host-executable lookup only when they give nothing.\<close>

definition matched_policy_rules :: "path_env \<Rightarrow> policy \<Rightarrow> ustring list \<Rightarrow> match_options
    \<Rightarrow> rule_match list" where
  "matched_policy_rules env p cmd opts =
     (case match_exact_rules p cmd of
        Some (m # ms) \<Rightarrow> m # ms
      | _ \<Rightarrow> (if resolve_host_executables opts then match_host_executable_rules env p cmd else []))"

definition matches_for_command_with_options :: "path_env \<Rightarrow> policy \<Rightarrow> ustring list
    \<Rightarrow> (ustring list \<Rightarrow> decision) option \<Rightarrow> match_options \<Rightarrow> rule_match list" where
  "matches_for_command_with_options env p cmd fallback opts =
     (let ms = matched_policy_rules env p cmd opts
      in case (ms, fallback) of
           ([], Some f) \<Rightarrow> [HeuristicsRuleMatch cmd (f cmd)]
         | _ \<Rightarrow> ms)"

definition matches_for_command :: "path_env \<Rightarrow> policy \<Rightarrow> ustring list
    \<Rightarrow> (ustring list \<Rightarrow> decision) option \<Rightarrow> rule_match list" where
  "matches_for_command env p cmd fallback =
     matches_for_command_with_options env p cmd fallback \<lparr>resolve_host_executables = False\<rparr>"

definition check_with_options :: "path_env \<Rightarrow> policy \<Rightarrow> ustring list
    \<Rightarrow> (ustring list \<Rightarrow> decision) \<Rightarrow> match_options \<Rightarrow> evaluation option" where
  "check_with_options env p cmd fallback opts =
     from_matches (matches_for_command_with_options env p cmd (Some fallback) opts)"

definition check :: "path_env \<Rightarrow> policy \<Rightarrow> ustring list \<Rightarrow> (ustring list \<Rightarrow> decision)
    \<Rightarrow> evaluation option" where
  "check env p cmd fallback =
     from_matches (matches_for_command_with_options env p cmd (Some fallback)
       \<lparr>resolve_host_executables = False\<rparr>)"

definition check_multiple_with_options :: "path_env \<Rightarrow> policy \<Rightarrow> ustring list list
    \<Rightarrow> (ustring list \<Rightarrow> decision) \<Rightarrow> match_options \<Rightarrow> evaluation option" where
  "check_multiple_with_options env p cmds fallback opts =
     from_matches (concat (map (\<lambda>cmd.
       matches_for_command_with_options env p cmd (Some fallback) opts) cmds))"

definition check_multiple :: "path_env \<Rightarrow> policy \<Rightarrow> ustring list list
    \<Rightarrow> (ustring list \<Rightarrow> decision) \<Rightarrow> evaluation option" where
  "check_multiple env p cmds fallback =
     check_multiple_with_options env p cmds fallback \<lparr>resolve_host_executables = False\<rparr>"

section \<open>What an evaluation is\<close>

lemma Max_insert_max:
  "finite A \<Longrightarrow> Max (insert (max a b) A) = Max (insert (a::decision) (insert b A))"
  by (cases "A = {}") (simp_all add: max.assoc)

lemma foldl_max_decision:
  "foldl (\<lambda>d m. max d (match_decision m)) d ms = Max (insert d (match_decision ` set ms))"
  by (induction ms arbitrary: d) (simp_all add: Max_insert_max)

lemma from_matches_None [simp]: "from_matches ms = None \<longleftrightarrow> ms = []"
  by (simp add: from_matches_def split: list.splits)

lemma from_matches_Some:
  "from_matches ms = Some e \<longleftrightarrow>
     ms \<noteq> [] \<and> e = \<lparr>eval_decision = Max (match_decision ` set ms), matched_rules = ms\<rparr>"
  by (cases ms) (auto simp: from_matches_def foldl_max_decision)

lemma from_matches_nonempty:
  "ms \<noteq> [] \<Longrightarrow> from_matches ms =
     Some \<lparr>eval_decision = Max (match_decision ` set ms), matched_rules = ms\<rparr>"
  by (simp add: from_matches_Some)

lemma from_matches_decision:
  assumes "from_matches ms = Some e"
  shows "eval_decision e \<in> match_decision ` set (matched_rules e)"
    and "m \<in> set ms \<Longrightarrow> match_decision m \<le> eval_decision e"
  using assms by (auto simp: from_matches_Some)

lemma from_matches_mono:
  assumes "from_matches ms = Some e" "from_matches ms' = Some e'" "set ms \<subseteq> set ms'"
  shows "eval_decision e \<le> eval_decision e'"
  using assms by (auto simp: from_matches_Some intro!: Max_mono)

lemma matches_with_fallback_nonempty [simp]:
  "matches_for_command_with_options env p cmd (Some f) opts \<noteq> []"
  by (auto simp: matches_for_command_with_options_def Let_def split: list.splits)

lemma matches_no_fallback [simp]:
  "matches_for_command_with_options env p cmd None opts = matched_policy_rules env p cmd opts"
  by (simp add: matches_for_command_with_options_def Let_def split: list.splits)

lemma matches_fallback_cases:
  "matches_for_command_with_options env p cmd (Some f) opts =
     (if matched_policy_rules env p cmd opts = [] then [HeuristicsRuleMatch cmd (f cmd)]
      else matched_policy_rules env p cmd opts)"
  by (auto simp: matches_for_command_with_options_def Let_def split: list.splits)

lemma exact_matches_eq:
  "match_exact_rules p cmd =
     (if cmd = [] then None
      else Some (List.map_filter (\<lambda>r. rule_matches r cmd) (mm_rules (rules_by_program p) (hd cmd))))"
  by (cases cmd)
    (auto simp: match_exact_rules_def mm_rules_def List.map_filter_simps split: option.splits)

lemma with_resolved_program_policy [simp]:
  "is_policy_match (with_resolved_program m prog) = is_policy_match m"
  "match_decision (with_resolved_program m prog) = match_decision m"
  by (cases m; simp)+

lemma rule_match_is_policy: "rule_matches r cmd = Some m \<Longrightarrow> is_policy_match m"
  by (auto simp: rule_matches_def)

lemma exact_matches_policy:
  "match_exact_rules p cmd = Some ms \<Longrightarrow> m \<in> set ms \<Longrightarrow> is_policy_match m"
  by (auto simp: exact_matches_eq split: if_splits dest: rule_match_is_policy)

lemma host_matches_policy:
  "m \<in> set (match_host_executable_rules env p cmd) \<Longrightarrow> is_policy_match m"
  by (auto simp: match_host_executable_rules_def
      split: option.splits list.splits if_splits dest: rule_match_is_policy)

lemma matched_policy_rules_policy:
  "m \<in> set (matched_policy_rules env p cmd opts) \<Longrightarrow> is_policy_match m"
  by (auto simp: matched_policy_rules_def split: option.splits list.splits if_splits
      dest: host_matches_policy exact_matches_policy)

section \<open>Well-formed policies\<close>

text \<open>
  Rules are filed under the program they start with, once per program; stored network
  hosts are canonical and justifications are not blank.
\<close>

definition mm_filed :: "('v \<Rightarrow> ustring) \<Rightarrow> 'v multimap \<Rightarrow> bool" where
  "mm_filed prog m \<longleftrightarrow> (\<forall>(k, rs) \<in> set m. \<forall>r \<in> set rs. prog r = k)"

definition network_rule_wf :: "network_rule \<Rightarrow> bool" where
  "network_rule_wf r \<longleftrightarrow>
     canonical_host (net_host r) \<and> pred_option (\<lambda>raw. trim raw \<noteq> []) (net_justification r)"

definition policy_wf :: "policy \<Rightarrow> bool" where
  "policy_wf p \<longleftrightarrow>
     mm_wf (rules_by_program p) \<and> mm_filed rule_program (rules_by_program p)
     \<and> list_all network_rule_wf (network_rules p)"

lemma mm_filed_insert: "mm_filed prog m \<Longrightarrow> prog v = k \<Longrightarrow> mm_filed prog (mm_insert k v m)"
  unfolding mm_filed_def by (induction k v m rule: mm_insert.induct) auto

lemma foldl_insert_wf:
  "mm_wf m \<Longrightarrow> mm_filed prog m \<Longrightarrow> \<forall>r \<in> set vs. prog r = k
   \<Longrightarrow> mm_wf (foldl (\<lambda>m r. mm_insert k r m) m vs) \<and> mm_filed prog (foldl (\<lambda>m r. mm_insert k r m) m vs)"
  by (induction vs arbitrary: m) (simp_all add: mm_filed_insert)

lemma mm_extend_wf:
  "mm_wf m \<Longrightarrow> mm_filed prog m \<Longrightarrow> mm_filed prog m'
   \<Longrightarrow> mm_wf (mm_extend m m') \<and> mm_filed prog (mm_extend m m')"
  unfolding mm_extend_def
proof (induction m' arbitrary: m)
  case (Cons e m')
  obtain k vs where e: "e = (k, vs)" by (cases e)
  with Cons.prems have "\<forall>r \<in> set vs. prog r = k" "mm_filed prog m'" by (auto simp: mm_filed_def)
  with Cons e show ?case by (simp add: foldl_insert_wf)
qed simp

lemma mm_rules_foldl_insert:
  "mm_rules (foldl (\<lambda>m r. mm_insert k r m) m vs) j =
     (if j = k then mm_rules m k @ vs else mm_rules m j)"
  by (induction vs arbitrary: m) (simp_all add: mm_rules_insert)

lemma mm_rules_extend:
  "mm_wf m' \<Longrightarrow> mm_rules (mm_extend m m') j = mm_rules m j @ mm_rules m' j"
  unfolding mm_extend_def
proof (induction m' arbitrary: m)
  case (Cons e m')
  obtain k vs where e: "e = (k, vs)" by (cases e)
  with Cons.prems have "mm_wf m'" and "k \<notin> fst ` set m'" by (auto simp: mm_wf_def)
  then have "mm_rules m' k = []"
    by (simp add: mm_rules_def mm_get_def flip: map_of_eq_None_iff)
  with Cons.IH [OF \<open>mm_wf m'\<close>] e show ?case
    by (auto simp: mm_rules_foldl_insert) (auto simp: mm_rules_def mm_get_def)
qed (simp add: mm_rules_def mm_get_def)

lemma mm_rules_filed: "mm_filed prog m \<Longrightarrow> r \<in> set (mm_rules m k) \<Longrightarrow> prog r = k"
  by (cases "map_of m k") (auto simp: mm_rules_def mm_get_def mm_filed_def dest!: map_of_SomeD)

lemma policy_wf_empty: "policy_wf policy_empty"
  by (simp add: policy_wf_def policy_empty_def policy_new_def policy_from_parts_def mm_wf_def mm_filed_def)

lemma policy_wf_add_prefix_rule: "policy_wf p \<Longrightarrow> add_prefix_rule pre d p = Inr p' \<Longrightarrow> policy_wf p'"
  by (cases pre) (auto simp: policy_wf_def add_prefix_rule_def rule_program_def mm_filed_insert)

lemma policy_wf_add_network_rule:
  "policy_wf p \<Longrightarrow> add_network_rule host protocol d j p = Inr p' \<Longrightarrow> policy_wf p'"
  by (cases j) (auto simp: policy_wf_def network_rule_wf_def add_network_rule_def
      split: sum.splits if_splits intro: normalize_network_rule_host_canonical)

lemma policy_wf_set_host_executable_paths:
  "policy_wf p \<Longrightarrow> policy_wf (set_host_executable_paths name paths p)"
  by (simp add: policy_wf_def set_host_executable_paths_def)

lemma policy_wf_merge_overlay: "policy_wf p \<Longrightarrow> policy_wf q \<Longrightarrow> policy_wf (merge_overlay p q)"
  using mm_extend_wf by (auto simp: policy_wf_def merge_overlay_def policy_from_parts_def)

lemmas policy_wf_intros = policy_wf_empty policy_wf_add_prefix_rule policy_wf_add_network_rule
  policy_wf_set_host_executable_paths policy_wf_merge_overlay

text \<open>C9: every operation that changes a policy (adding a prefix rule or a network rule,
  setting host executables, merging an overlay) keeps it well formed.\<close>

theorem policy_operations_wf:
  assumes "policy_wf p" "policy_wf q"
  shows "(\<forall>p'. add_prefix_rule pre d p = Inr p' \<longrightarrow> policy_wf p')
     \<and> (\<forall>p'. add_network_rule host protocol d justification p = Inr p' \<longrightarrow> policy_wf p')
     \<and> policy_wf (set_host_executable_paths name paths p)
     \<and> policy_wf (merge_overlay p q)"
  using assms by (blast intro: policy_wf_intros)

lemma policy_operations_wf_witness:
  "policy_wf policy_empty
   \<and> (case add_prefix_rule [lit ''ls''] Allow policy_empty of Inr p' \<Rightarrow> policy_wf p' | Inl _ \<Rightarrow> False)
   \<and> policy_wf (merge_overlay policy_empty policy_empty)"
  using policy_operations_wf [OF policy_wf_empty policy_wf_empty, of "[lit ''ls'']" Allow]
  by (simp add: policy_wf_empty add_prefix_rule_def)

section \<open>Evaluation properties\<close>

lemma matched_policy_rules_all: "list_all is_policy_match (matched_policy_rules env p cmd opts)"
  by (auto simp: list_all_iff dest: matched_policy_rules_policy)

text \<open>C29: evaluating one command never panics; its decision is the strictest of the
  matched rules and is reached by one of them; the heuristics fallback decides exactly
  when no policy rule matches, otherwise only policy rules are reported.\<close>

theorem check_strictest_rule_wins:
  "\<exists>e. check_with_options env p cmd f opts = Some e
     \<and> eval_decision e = Max (match_decision ` set (matched_rules e))
     \<and> matched_rules e =
         (if matched_policy_rules env p cmd opts = [] then [HeuristicsRuleMatch cmd (f cmd)]
          else matched_policy_rules env p cmd opts)
     \<and> (evaluation_is_match e \<longleftrightarrow> matched_policy_rules env p cmd opts \<noteq> [])"
proof -
  let ?ms = "matches_for_command_with_options env p cmd (Some f) opts"
  have "check_with_options env p cmd f opts = Some
      \<lparr>eval_decision = Max (match_decision ` set ?ms), matched_rules = ?ms\<rparr>"
    by (simp add: check_with_options_def from_matches_Some)
  moreover have "list_ex is_policy_match (matched_policy_rules env p cmd opts)
      \<longleftrightarrow> matched_policy_rules env p cmd opts \<noteq> []"
    using matched_policy_rules_all [of env p cmd opts]
    by (cases "matched_policy_rules env p cmd opts") auto
  ultimately show ?thesis
    by (simp add: matches_fallback_cases evaluation_is_match_def)
qed

lemma check_multiple_decision:
  "check_multiple_with_options env p cmds f opts = Some e \<Longrightarrow> cmd \<in> set cmds
   \<Longrightarrow> m \<in> set (matches_for_command_with_options env p cmd (Some f) opts)
   \<Longrightarrow> match_decision m \<le> eval_decision e"
  unfolding check_multiple_with_options_def by (erule from_matches_decision(2)) auto

text \<open>evaluating several commands panics only when there are none; otherwise the
  result allows the batch exactly when each command is allowed on its own, and forbids
  it as soon as one is forbidden.\<close>

theorem check_multiple_aggregates:
  "map_option eval_decision (check_multiple_with_options env p cmds f opts) =
   (if cmds = [] then None
    else Some (Max ((\<lambda>cmd. eval_decision (the (check_with_options env p cmd f opts))) ` set cmds)))"
proof -
  let ?g = "\<lambda>cmd. matches_for_command_with_options env p cmd (Some f) opts"
  have one: "eval_decision (the (check_with_options env p cmd f opts)) = Max (match_decision ` set (?g cmd))"
    for cmd by (simp add: check_with_options_def from_matches_nonempty)
  have union: "Max (\<Union>cmd \<in> set cmds. match_decision ` set (?g cmd))
      = Max ((\<lambda>cmd. Max (match_decision ` set (?g cmd))) ` set cmds)" if "cmds \<noteq> []"
    using that by (intro Max_UN) auto
  show ?thesis
  proof (cases "cmds = []")
    case False
    then have "concat (map ?g cmds) \<noteq> []" by (cases cmds) auto
    then show ?thesis using False
      by (simp add: check_multiple_with_options_def from_matches_nonempty image_UN union one)
  qed (simp add: check_multiple_with_options_def from_matches_def)
qed

lemma exact_decision_mono:
  assumes "match_exact_rules p cmd = Some (m # ms)" "match_exact_rules p' cmd' = Some ms'"
    and "set (m # ms) \<subseteq> set ms'"
    and "check_with_options env p cmd f opts = Some e"
    and "check_with_options env p' cmd' f opts = Some e'"
  shows "eval_decision e \<le> eval_decision e'"
proof -
  obtain n ns where ms': "ms' = n # ns" using assms(3) by (cases ms') auto
  with assms have "from_matches (m # ms) = Some e" "from_matches (n # ns) = Some e'"
    by (simp_all add: check_with_options_def matches_fallback_cases matched_policy_rules_def)
  with assms(3) ms' show ?thesis by (metis from_matches_mono)
qed

text \<open>where an exact rule already matches, more arguments never relax the decision:
  a command forbidden by a rule stays forbidden whatever is appended.\<close>

theorem longer_command_not_laxer:
  assumes "match_exact_rules p cmd = Some (m # ms)"
    and "check_with_options env p cmd f opts = Some e"
    and "check_with_options env p (cmd @ extra) f opts = Some e'"
  shows "eval_decision e \<le> eval_decision e'"
proof -
  have cmd: "cmd \<noteq> []" using assms(1) by (auto simp: match_exact_rules_def)
  let ?rs = "mm_rules (rules_by_program p) (hd cmd)"
  have "m # ms = List.map_filter (\<lambda>r. rule_matches r cmd) ?rs"
    using assms(1) cmd by (simp add: exact_matches_eq)
  then have "set (m # ms) \<subseteq> set (List.map_filter (\<lambda>r. rule_matches r (cmd @ extra)) ?rs)"
    using prefix_rule.matches_stable [of cmd ?rs extra] by simp
  moreover have "match_exact_rules p (cmd @ extra)
      = Some (List.map_filter (\<lambda>r. rule_matches r (cmd @ extra)) ?rs)"
    using cmd by (simp add: exact_matches_eq)
  ultimately show ?thesis using exact_decision_mono assms by blast
qed

text \<open>A policy with one rule, for the examples.\<close>

definition one_rule_policy :: "ustring \<Rightarrow> decision \<Rightarrow> policy" where
  "one_rule_policy prog d =
     policy_new [(prog, [\<lparr>rule_pattern = \<lparr>pat_first = prog, pat_rest = []\<rparr>,
                        rule_decision = d, rule_justification = None\<rparr>])]"

lemma one_rule_exact:
  "match_exact_rules (one_rule_policy prog d) (prog # args) = Some [PrefixRuleMatch [prog] d None None]"
  by (simp add: match_exact_rules_def one_rule_policy_def policy_new_def policy_from_parts_def
      mm_get_def List.map_filter_simps rule_matches_def matches_prefix_def)

lemma one_rule_check:
  "check_with_options env (one_rule_policy prog d) (prog # args) f opts =
     Some \<lparr>eval_decision = d, matched_rules = [PrefixRuleMatch [prog] d None None]\<rparr>"
  by (simp add: check_with_options_def matches_fallback_cases matched_policy_rules_def
      one_rule_exact from_matches_Some)

lemma one_rule_wf: "policy_wf (one_rule_policy prog d)"
  by (simp add: policy_wf_def one_rule_policy_def policy_new_def policy_from_parts_def mm_wf_def
      mm_filed_def rule_program_def)

lemma longer_command_not_laxer_witness:
  "eval_decision (the (check_with_options \<lparr>home_dir = None, current_dir = None\<rparr>
      (one_rule_policy (lit ''rm'') Forbidden) [lit ''rm'', lit ''-i''] (\<lambda>_. Allow)
      \<lparr>resolve_host_executables = True\<rparr>)) = Forbidden"
  using longer_command_not_laxer [where extra = "[lit ''-i'']", OF one_rule_exact one_rule_check]
    one_rule_check by fastforce



section \<open>Network domains and allowed prefixes\<close>

text \<open>The decision the last allowing or denying rule of a host gives it.\<close>

definition last_domain_decision :: "network_rule list \<Rightarrow> ustring \<Rightarrow> decision option" where
  "last_domain_decision rules h =
     (case rev (filter (\<lambda>r. net_host r = h \<and> net_decision r \<noteq> Prompt) rules) of
        [] \<Rightarrow> None | r # _ \<Rightarrow> Some (net_decision r))"

lemma last_domain_decision_snoc:
  "last_domain_decision (rules @ [r]) h =
     (if net_host r = h \<and> net_decision r \<noteq> Prompt then Some (net_decision r)
      else last_domain_decision rules h)"
  by (simp add: last_domain_decision_def)

lemma compile_domains_spec:
  "foldl compile_domain_step ([], []) rules = (allowed, denied) \<Longrightarrow>
     distinct allowed \<and> distinct denied
     \<and> (\<forall>h. (h \<in> set allowed) = (last_domain_decision rules h = Some Allow))
     \<and> (\<forall>h. (h \<in> set denied) = (last_domain_decision rules h = Some Forbidden))"
proof (induction rules arbitrary: allowed denied rule: rev_induct)
  case (snoc r rules)
  obtain a d where ad: "foldl compile_domain_step ([], []) rules = (a, d)" by fastforce
  from snoc.IH [OF ad] snoc.prems show ?case
    by (cases "net_decision r")
      (auto simp: ad upsert_domain_def last_domain_decision_snoc)
qed (simp add: last_domain_decision_def)

text \<open>the compiled network domains: no duplicates, no host both allowed and denied,
  and a host is on a list exactly when the last rule for it that is not a prompt says so.\<close>

theorem compiled_network_domains_last_rule:
  "let (allowed, denied) = compiled_network_domains p
   in distinct allowed \<and> distinct denied \<and> set allowed \<inter> set denied = {}
      \<and> set allowed = {h. last_domain_decision (network_rules p) h = Some Allow}
      \<and> set denied = {h. last_domain_decision (network_rules p) h = Some Forbidden}"
proof -
  obtain a d where ad: "compiled_network_domains p = (a, d)" by fastforce
  then show ?thesis
    using compile_domains_spec [of "network_rules p" a d]
    by (auto simp: compiled_network_domains_def)
qed

lemma sorted_remdups_adj_strict: "sorted xs \<Longrightarrow> distinct (remdups_adj (xs :: 'a::linorder list))"
  by (induction xs rule: remdups_adj.induct) (auto simp: order_le_less)

text \<open>the reported allowed prefixes are sorted without duplicates and are exactly the
  rendered patterns of the policy's allow rules.\<close>

theorem get_allowed_prefixes_spec:
  "sorted (get_allowed_prefixes p) \<and> distinct (get_allowed_prefixes p)
   \<and> set (get_allowed_prefixes p) =
       {pat_first (rule_pattern r) # map render_pattern_token (pat_rest (rule_pattern r)) | k rs r.
          (k, rs) \<in> set (rules_by_program p) \<and> r \<in> set rs \<and> rule_decision r = Allow}"
  by (auto simp: get_allowed_prefixes_def sorted_remdups_adj sorted_remdups_adj_strict
      split: if_splits)

end
