(* ===== verification/BashScript.thy ===== *)
theory BashScript
  imports Paths "HOL-Library.Multiset"
begin

text \<open>
  Shell invocations (\<open>shell-command/src/bash.rs\<close>, \<open>shell_detect.rs\<close>): which
  \<open>bash -lc\<close> scripts are read as plain commands. The syntax tree comes from
  tree-sitter, a package whose parser is a parameter; the functions below walk that
  tree, with the explicit stack of the code, and read the words off it.
\<close>

section \<open>Syntax trees\<close>

text \<open>
  A node of the tree: its kind, whether it is named, whether its subtree has an error,
  its first byte, its text if that is UTF-8, and its children.
\<close>

datatype ts_node = TsNode (kind: ustring) (is_named: bool) (has_error: bool)
  (start_byte: nat) (utf8_text: "ustring option") (children: "ts_node list")

definition named_children :: "ts_node \<Rightarrow> ts_node list" where
  "named_children n = filter is_named (children n)"

fun node_size :: "ts_node \<Rightarrow> nat" where
  "node_size (TsNode _ _ _ _ _ cs) = Suc (sum_list (map node_size cs))"

definition stack_size :: "ts_node list \<Rightarrow> nat" where
  "stack_size st = sum_list (map node_size st)"

lemma stack_size_rev [simp]: "stack_size (rev xs) = stack_size xs"
  by (simp add: stack_size_def rev_map [symmetric])

lemma stack_size_simps [simp]:
  "stack_size [] = 0" "stack_size (n # st) = node_size n + stack_size st"
  "stack_size (xs @ ys) = stack_size xs + stack_size ys"
  by (simp_all add: stack_size_def)

lemma node_size_children: "node_size n = Suc (stack_size (children n))"
  by (cases n) (simp add: stack_size_def)

lemma stack_size_filter: "stack_size (filter P xs) \<le> stack_size xs"
  by (induction xs) auto

lemma stack_size_named: "stack_size (named_children n) < node_size n"
  using stack_size_filter [of is_named "children n"]
  by (simp add: named_children_def node_size_children)

section \<open>Word-only command sequences\<close>

definition allowed_kinds :: "ustring list" where
  "allowed_kinds = map lit [''program'', ''list'', ''pipeline'', ''command'', ''command_name'',
     ''word'', ''string'', ''string_content'', ''raw_string'', ''number'', ''concatenation'']"

definition allowed_punct_tokens :: "ustring list" where
  "allowed_punct_tokens = map lit [''&&'', ''||'', '';'', ''|'', [CHR 0x22], [CHR 0x27]]"

definition node_rejected :: "ts_node \<Rightarrow> bool" where
  "node_rejected n =
     (if is_named n then kind n \<notin> set allowed_kinds
      else (\<exists>c \<in> set (kind n). c \<in> set (lit ''&;|'')) \<and> kind n \<notin> set allowed_punct_tokens
           \<or> \<not> (kind n \<in> set allowed_punct_tokens \<or> trim (kind n) = []))"

text \<open>The stack is a list whose head is its top, so children end up reversed on it.\<close>

function walk_commands :: "ts_node list \<Rightarrow> ts_node list \<Rightarrow> ts_node list option" where
  "walk_commands [] command_nodes = Some command_nodes"
| "walk_commands (n # st) command_nodes =
     (if node_rejected n then None
      else walk_commands (rev (children n) @ st)
             (if is_named n \<and> kind n = lit ''command'' then command_nodes @ [n] else command_nodes))"
  by pat_completeness auto
termination
  by (relation "measure (\<lambda>(st, _). stack_size st)") (simp_all add: node_size_children)

definition strip_quotes :: "uchar \<Rightarrow> ustring \<Rightarrow> ustring option" where
  "strip_quotes q raw = Option.bind (strip_prefix [q] raw) (strip_suffix [q])"

definition parse_double_quoted_string :: "ts_node \<Rightarrow> ustring option" where
  "parse_double_quoted_string n =
     (if kind n \<noteq> lit ''string'' then None
      else if \<not> list_all (\<lambda>part. kind part = lit ''string_content'') (named_children n) then None
      else Option.bind (utf8_text n) (strip_quotes 34))"

definition parse_raw_string :: "ts_node \<Rightarrow> ustring option" where
  "parse_raw_string n =
     (if kind n \<noteq> lit ''raw_string'' then None
      else Option.bind (utf8_text n) (strip_quotes 39))"

definition concatenation_part :: "ts_node \<Rightarrow> ustring option" where
  "concatenation_part part =
     (if kind part = lit ''word'' \<or> kind part = lit ''number'' then utf8_text part
      else if kind part = lit ''string'' then parse_double_quoted_string part
      else if kind part = lit ''raw_string'' then parse_raw_string part
      else None)"

text \<open>\<open>?\<close> inside a loop: the first \<open>None\<close> ends it.\<close>

fun collect :: "('a \<Rightarrow> 'b option) \<Rightarrow> 'a list \<Rightarrow> 'b list option" where
  "collect f [] = Some []"
| "collect f (x # xs) =
     (case f x of None \<Rightarrow> None | Some y \<Rightarrow> map_option (Cons y) (collect f xs))"

definition plain_word :: "ts_node \<Rightarrow> ustring option" where
  "plain_word child =
     (if kind child = lit ''command_name'' then
        (case named_children child of
           [] \<Rightarrow> None
         | word_node # _ \<Rightarrow>
             if kind word_node \<noteq> lit ''word'' then None else utf8_text word_node)
      else if kind child = lit ''word'' \<or> kind child = lit ''number'' then utf8_text child
      else if kind child = lit ''string'' then parse_double_quoted_string child
      else if kind child = lit ''raw_string'' then parse_raw_string child
      else if kind child = lit ''concatenation'' then
        (case collect concatenation_part (named_children child) of
           None \<Rightarrow> None
         | Some parts \<Rightarrow> if concat parts = [] then None else Some (concat parts))
      else None)"

definition parse_plain_command_from_node :: "ts_node \<Rightarrow> ustring list option" where
  "parse_plain_command_from_node cmd =
     (if kind cmd \<noteq> lit ''command'' then None else collect plain_word (named_children cmd))"

definition try_parse_word_only_commands_sequence :: "ts_node \<Rightarrow> ustring list list option" where
  "try_parse_word_only_commands_sequence root =
     (if has_error root then None
      else case walk_commands [root] [] of
             None \<Rightarrow> None
           | Some command_nodes \<Rightarrow>
               collect parse_plain_command_from_node (sort_key start_byte command_nodes))"

section \<open>Shell detection and extraction\<close>

datatype shell_type = Zsh | Bash | PowerShell | Sh | Cmd

definition shell_type_of_name :: "ustring \<Rightarrow> shell_type option" where
  "shell_type_of_name s =
     (if s = lit ''zsh'' then Some Zsh
      else if s = lit ''sh'' then Some Sh
      else if s = lit ''cmd'' then Some Cmd
      else if s = lit ''bash'' then Some Bash
      else if s = lit ''pwsh'' then Some PowerShell
      else if s = lit ''powershell'' then Some PowerShell
      else None)"

lemma length_join_butlast:
  assumes "length ss \<ge> 2" and "sep \<noteq> []"
  shows "length (join_with sep (butlast ss)) < length (join_with sep ss)"
proof -
  have "butlast ss \<noteq> []" using assms(1) by (cases ss; cases "tl ss") auto
  then have "join_with sep ss = join_with sep (butlast ss) @ sep @ last ss"
    using assms(1) join_with_snoc [of "butlast ss" sep "last ss"]
    by (cases "ss = []") auto
  then show ?thesis using assms(2) by simp
qed

lemma split_on_shorter: "s \<in> set (split_on c p) \<Longrightarrow> s = p \<or> length s < length p"
proof (induction p arbitrary: s)
  case (Cons x p)
  obtain t ts where t: "split_on c p = t # ts" by (cases "split_on c p") auto
  from Cons.prems t have "s = [] \<or> s = x # t \<or> s \<in> set (split_on c p)"
    by (auto split: if_splits)
  then show ?case using Cons.IH [of s] Cons.IH [of t] t by auto
qed simp

lemma path_file_name_split: "path_file_name p = Some name \<Longrightarrow> name \<in> set (split_on slash p)"
proof -
  assume "path_file_name p = Some name"
  then have "NormalComp name \<in> set (rev (path_components p))"
    by (auto simp: path_file_name_def simp del: set_rev split: list.splits component.splits)
  then show ?thesis
    by (auto simp: path_components_def Let_def List.map_filter_def split: if_splits)
qed

lemma path_file_stem_cases:
  assumes "path_file_stem p = Some stem"
  shows "stem = p \<or> length stem < length p"
proof -
  obtain name where n: "path_file_name p = Some name"
    using assms by (auto simp: path_file_stem_def split: option.splits)
  then have le: "name = p \<or> length name < length p"
    by (rule split_on_shorter [OF path_file_name_split])
  show ?thesis
  proof (cases "stem = name")
    case False
    then have "\<not> length (split_on 46 name) = 1"
      and stem: "stem = join_with [46] (butlast (split_on 46 name))"
      using assms n by (auto simp: path_file_stem_def Let_def split: if_splits)
    then have "length (split_on 46 name) \<ge> 2"
      using split_on_nonempty [of 46 name]
      by (metis One_nat_def Suc_leI length_0_conv le_eq_less_or_eq less_one not_less_eq_eq numeral_2_eq_2)
    from length_join_butlast [OF this, of "[46]"] stem le show ?thesis by auto
  qed (use le in simp)
qed

text \<open>
  \<open>detect_shell_type\<close>: the shell named by a path, by its text first and then by its
  file stem, as long as the stem is a different path.
\<close>

function detect_shell_type :: "ustring \<Rightarrow> shell_type option" where
  "detect_shell_type p =
     (case shell_type_of_name p of
        Some t \<Rightarrow> Some t
      | None \<Rightarrow>
          (case path_file_stem p of
             None \<Rightarrow> None
           | Some stem \<Rightarrow>
               if path_components stem \<noteq> path_components p then detect_shell_type stem
               else None))"
  by pat_completeness auto
termination
  by (relation "measure length") (use path_file_stem_cases in auto)

declare detect_shell_type.simps [simp del]

lemma path_file_name_no_slash: "slash \<notin> set q \<Longrightarrow> path_file_name q = Some n \<Longrightarrow> n = q"
  using path_file_name_split [of q n] by (simp add: split_on_single)

lemma prefix_join_butlast: "prefix (join_with [c] (butlast (split_on c s))) s"
proof (cases "butlast (split_on c s) = []")
  case False
  then have "join_with [c] (split_on c s) =
      join_with [c] (butlast (split_on c s)) @ [c] @ last (split_on c s)"
    using join_with_snoc [of "butlast (split_on c s)" "[c]" "last (split_on c s)"] by simp
  then show ?thesis by (metis join_split_on prefixI)
qed simp

lemma path_file_stem_prefix:
  assumes "path_file_stem p = Some stem"
  shows "\<exists>name. path_file_name p = Some name \<and> prefix stem name \<and> slash \<notin> set name"
proof -
  obtain name where n: "path_file_name p = Some name"
    using assms by (auto simp: path_file_stem_def split: option.splits)
  moreover have "slash \<notin> set name" by (rule split_on_no_sep [OF path_file_name_split [OF n]])
  moreover have "prefix stem name"
    using assms n prefix_join_butlast [of 46 name]
    by (auto simp: path_file_stem_def Let_def split: if_splits)
  ultimately show ?thesis by blast
qed

lemma shell_type_of_name_file_name:
  "shell_type_of_name p = Some t \<Longrightarrow> path_file_name p = Some p"
  by (auto simp: shell_type_of_name_def path_file_name_def path_components_def Let_def
      is_absolute_def slash_def lit_def uc_def List.map_filter_def split: if_splits)

text \<open>The shell found for a path is named by a prefix of the path's file name.\<close>

lemma detect_shell_type_prefix:
  "detect_shell_type p = Some t \<Longrightarrow>
   \<exists>name s. path_file_name p = Some name \<and> prefix s name \<and> shell_type_of_name s = Some t"
proof (induction p rule: detect_shell_type.induct)
  case (1 p)
  show ?case
  proof (cases "shell_type_of_name p")
    case (Some u)
    with 1(2) have "shell_type_of_name p = Some t" by (simp add: detect_shell_type.simps [of p])
    with shell_type_of_name_file_name [OF this] show ?thesis by blast
  next
    case None
    with 1(2) obtain stem where stem: "path_file_stem p = Some stem"
      "path_components stem \<noteq> path_components p" "detect_shell_type stem = Some t"
      by (auto simp: detect_shell_type.simps [of p] split: option.splits if_splits)
    from 1(1) [OF None this] obtain name s where
      s: "path_file_name stem = Some name" "prefix s name" "shell_type_of_name s = Some t" by blast
    from path_file_stem_prefix [OF stem(1)] obtain full where
      full: "path_file_name p = Some full" "prefix stem full" "slash \<notin> set full" by blast
    have "slash \<notin> set stem" using full(2,3) by (auto simp: prefix_def)
    with s(1) have "name = stem" by (simp add: path_file_name_no_slash)
    with s full show ?thesis by (meson prefix_order.trans)
  qed
qed

definition extract_bash_command :: "ustring list \<Rightarrow> (ustring \<times> ustring) option" where
  "extract_bash_command command =
     (case command of
        [shell, flag, script] \<Rightarrow>
          if flag \<notin> {lit ''-lc'', lit ''-c''}
             \<or> detect_shell_type shell \<notin> {Some Zsh, Some Bash, Some Sh} then None
          else Some (shell, script)
      | _ \<Rightarrow> None)"

definition parse_shell_lc_plain_commands ::
  "(ustring \<Rightarrow> ts_node option) \<Rightarrow> ustring list \<Rightarrow> ustring list list option" where
  "parse_shell_lc_plain_commands try_parse_shell command =
     (case extract_bash_command command of
        None \<Rightarrow> None
      | Some (_, script) \<Rightarrow>
          Option.bind (try_parse_shell script) try_parse_word_only_commands_sequence)"

section \<open>Here-document scripts\<close>

definition is_literal_word_or_number :: "ts_node \<Rightarrow> bool" where
  "is_literal_word_or_number n =
     (if kind n \<noteq> lit ''word'' \<and> kind n \<noteq> lit ''number'' then False
      else named_children n = [])"

definition is_allowed_heredoc_attachment_kind :: "ustring \<Rightarrow> bool" where
  "is_allowed_heredoc_attachment_kind k =
     (k \<in> set (map lit [''heredoc_body'', ''simple_heredoc_body'', ''heredoc_redirect'',
        ''herestring_redirect'', ''file_redirect'', ''redirected_statement'']))"

text \<open>A child adds a word, adds nothing, or ends the parse.\<close>

definition heredoc_child :: "ts_node \<Rightarrow> ustring list option" where
  "heredoc_child child =
     (if kind child = lit ''command_name'' then
        (case named_children child of
           [] \<Rightarrow> None
         | word_node # _ \<Rightarrow>
             if \<not> (kind word_node = lit ''word'' \<or> kind word_node = lit ''number'')
                \<or> \<not> is_literal_word_or_number word_node then None
             else map_option (\<lambda>w. [w]) (utf8_text word_node))
      else if kind child = lit ''word'' \<or> kind child = lit ''number'' then
        (if \<not> is_literal_word_or_number child then None
         else map_option (\<lambda>w. [w]) (utf8_text child))
      else if kind child = lit ''variable_assignment'' \<or> kind child = lit ''comment'' then Some []
      else if is_allowed_heredoc_attachment_kind (kind child) then Some []
      else None)"

definition parse_heredoc_command_words :: "ts_node \<Rightarrow> ustring list option" where
  "parse_heredoc_command_words cmd =
     (if kind cmd \<noteq> lit ''command'' then None
      else case collect heredoc_child (named_children cmd) of
             None \<Rightarrow> None
           | Some parts \<Rightarrow> if concat parts = [] then None else Some (concat parts))"

function single_command_loop :: "ts_node list \<Rightarrow> ts_node option \<Rightarrow> ts_node option" where
  "single_command_loop [] single_command = single_command"
| "single_command_loop (n # st) single_command =
     (if kind n = lit ''command'' then
        (if single_command \<noteq> None then None
         else single_command_loop (rev (named_children n) @ st) (Some n))
      else single_command_loop (rev (named_children n) @ st) single_command)"
  by pat_completeness auto
termination
  by (relation "measure (\<lambda>(st, _). stack_size st)") (use stack_size_named in simp_all)

definition find_single_command_node :: "ts_node \<Rightarrow> ts_node option" where
  "find_single_command_node root = single_command_loop [root] None"

function has_kind_loop :: "ts_node list \<Rightarrow> ustring \<Rightarrow> bool" where
  "has_kind_loop [] k = False"
| "has_kind_loop (n # st) k =
     (if kind n = k then True else has_kind_loop (rev (named_children n) @ st) k)"
  by pat_completeness auto
termination
  by (relation "measure (\<lambda>(st, _). stack_size st)") (use stack_size_named in simp_all)

definition has_named_descendant_kind :: "ts_node \<Rightarrow> ustring \<Rightarrow> bool" where
  "has_named_descendant_kind n k = has_kind_loop [n] k"

definition parse_shell_lc_single_command_prefix ::
  "(ustring \<Rightarrow> ts_node option) \<Rightarrow> ustring list \<Rightarrow> ustring list option" where
  "parse_shell_lc_single_command_prefix try_parse_shell command =
     (case extract_bash_command command of
        None \<Rightarrow> None
      | Some (_, script) \<Rightarrow>
          (case try_parse_shell script of
             None \<Rightarrow> None
           | Some root \<Rightarrow>
               if has_error root then None
               else if \<not> has_named_descendant_kind root (lit ''heredoc_redirect'') then None
               else Option.bind (find_single_command_node root) parse_heredoc_command_words))"

section \<open>What the walks visit\<close>

fun descendants :: "ts_node \<Rightarrow> ts_node list" where
  "descendants (TsNode k nm er s t cs) = TsNode k nm er s t cs # concat (map descendants cs)"

fun named_descendants :: "ts_node \<Rightarrow> ts_node list" where
  "named_descendants (TsNode k nm er s t cs) =
     TsNode k nm er s t cs # concat (map named_descendants (filter is_named cs))"

definition is_command_node :: "ts_node \<Rightarrow> bool" where
  "is_command_node n = (is_named n \<and> kind n = lit ''command'')"

lemma descendants_unfold: "descendants n = n # concat (map descendants (children n))"
  by (cases n) simp

lemma named_descendants_unfold:
  "named_descendants n = n # concat (map named_descendants (named_children n))"
  by (cases n) (simp add: named_children_def)

lemma mset_concat_rev [simp]: "mset (concat (rev xss)) = mset (concat xss)"
  by (induction xss) simp_all

lemma walk_commands_Some:
  "walk_commands st acc = Some cs \<Longrightarrow>
     (\<forall>n \<in> set (concat (map descendants st)). \<not> node_rejected n) \<and>
     mset cs = mset acc + mset (filter is_command_node (concat (map descendants st)))"
proof (induction st acc rule: walk_commands.induct)
  case (2 n st acc)
  then have nr: "\<not> node_rejected n" by (simp split: if_splits)
  from 2(1) [OF this] 2(2) nr show ?case
    by (simp add: descendants_unfold [of n] is_command_node_def [of n] split: if_splits)
      (auto simp: rev_map [symmetric])
qed simp

lemma walk_commands_None:
  "walk_commands st acc = None \<Longrightarrow> \<exists>n \<in> set (concat (map descendants st)). node_rejected n"
proof (induction st acc rule: walk_commands.induct)
  case (2 n st acc)
  show ?case
  proof (cases "node_rejected n")
    case True
    then show ?thesis by (simp add: descendants_unfold [of n])
  next
    case False
    from 2(1) [OF this] 2(2) False show ?thesis
      by (auto simp: descendants_unfold [of n] split: if_splits)
  qed
qed simp

lemma sort_key_unique:
  fixes f :: "'a \<Rightarrow> nat"
  assumes "mset xs = mset ys" and "sorted_wrt (<) (map f ys)"
  shows "sort_key f xs = ys"
proof (rule properties_for_sort_key [OF assms(1) [symmetric]])
  have inj: "inj_on f (set ys)" and d: "distinct ys"
    using assms(2) by (simp_all add: strict_sorted_iff distinct_map)
  fix k assume k: "k \<in> set ys"
  have one: "filter (\<lambda>x. f k = f x) zs = filter (\<lambda>x. x = k) zs" if "mset zs = mset ys" for zs
  proof (rule filter_cong [OF refl])
    fix z assume "z \<in> set zs"
    then have "z \<in> set ys" using that by (metis set_mset_mset)
    then show "(f k = f z) = (z = k)" using inj k by (auto dest: inj_onD)
  qed
  have eq: "filter (\<lambda>x. x = k) zs = replicate (count (mset zs) k) k" for zs
    by (induction zs) auto
  show "filter (\<lambda>x. f k = f x) ys = filter (\<lambda>x. f k = f x) xs"
    by (simp add: one assms(1) eq)
qed (use assms(2) in \<open>simp add: strict_sorted_iff\<close>)

lemma collect_Some: "collect f xs = Some ys \<longleftrightarrow> map f xs = map Some ys"
  by (induction xs arbitrary: ys) (auto split: option.splits simp: Cons_eq_map_conv)

lemma collect_None: "collect f xs = None \<longleftrightarrow> (\<exists>x \<in> set xs. f x = None)"
  by (induction xs) (auto split: option.splits)

lemma has_kind_loop_iff:
  "has_kind_loop st k \<longleftrightarrow> (\<exists>n \<in> set (concat (map named_descendants st)). kind n = k)"
proof (induction st k rule: has_kind_loop.induct)
  case (2 n st k)
  then show ?case by (auto simp: named_descendants_unfold [of n])
qed simp

lemma single_command_loop_spec:
  "mset cs = mset (filter (\<lambda>n. kind n = lit ''command'') (concat (map named_descendants st)))
   \<Longrightarrow> single_command_loop st single =
     (case cs of [] \<Rightarrow> single
      | [c] \<Rightarrow> if single = None then Some c else None
      | _ \<Rightarrow> None)"
proof (induction st single arbitrary: cs rule: single_command_loop.induct)
  case (2 n st single)
  let ?rest = "filter (\<lambda>n. kind n = lit ''command'')
    (concat (map named_descendants (rev (named_children n) @ st)))"
  have ms: "mset ?rest = mset (filter (\<lambda>n. kind n = lit ''command'')
      (concat (map named_descendants (named_children n)) @ concat (map named_descendants st)))"
    by (simp add: rev_map [symmetric])
  show ?case
  proof (cases "kind n = lit ''command''")
    case False
    then have "mset cs = mset ?rest"
      using 2(3) ms by (simp add: named_descendants_unfold [of n])
    from 2(2) [OF False this] False show ?thesis by simp
  next
    case True
    then have cs: "mset cs = add_mset n (mset ?rest)"
      using 2(3) ms by (simp add: named_descendants_unfold [of n])
    then have len: "length cs = Suc (length ?rest)"
      by (metis size_add_mset size_mset)
    show ?thesis
    proof (cases single)
      case None
      then have step: "single_command_loop (n # st) single =
          single_command_loop (rev (named_children n) @ st) (Some n)"
        using True by simp
      from True None have "single_command_loop (rev (named_children n) @ st) (Some n) =
          (case ?rest of [] \<Rightarrow> Some n | [c] \<Rightarrow> if Some n = None then Some c else None | _ \<Rightarrow> None)"
        by (intro 2(1)) auto
      then show ?thesis using step None len cs
        by (cases ?rest; cases cs; cases "tl cs") (auto split: list.splits)
    next
      case (Some m)
      with True len show ?thesis by (cases cs) (auto split: list.splits)
    qed
  qed
qed simp

definition leaf :: "string \<Rightarrow> nat \<Rightarrow> string \<Rightarrow> ts_node" where
  "leaf k b t = TsNode (lit k) (k \<notin> {''&&'', ''<<''}) False b (Some (lit t)) []"

definition inner :: "string \<Rightarrow> nat \<Rightarrow> ts_node list \<Rightarrow> ts_node" where
  "inner k b cs = TsNode (lit k) True False b None cs"

definition sample_list :: ts_node where
  "sample_list = inner ''program'' 0 [inner ''list'' 0
     [inner ''command'' 0 [inner ''command_name'' 0 [leaf ''word'' 0 ''ls''], leaf ''word'' 3 ''-l''],
      leaf ''&&'' 6 ''&&'',
      inner ''command'' 9 [inner ''command_name'' 9 [leaf ''word'' 9 ''pwd'']]]]"

definition sample_heredoc :: ts_node where
  "sample_heredoc = inner ''program'' 0 [inner ''redirected_statement'' 0
     [inner ''command'' 0 [inner ''command_name'' 0 [leaf ''word'' 0 ''cat'']],
      inner ''heredoc_redirect'' 4 [leaf ''<<'' 4 ''<<'', leaf ''heredoc_start'' 6 ''EOF'']]]"

lemmas sample_tree_simps = leaf_def inner_def sample_list_def sample_heredoc_def
  is_command_node_def named_children_def

section \<open>Properties\<close>

text \<open>
  A script is read as plain commands exactly when its tree has no error, every node of
  it is a word-only construct, and every command node reads as plain words; the commands
  come back in source order, none missed, whatever the stack's order of visit was.
\<close>

theorem word_only_commands_complete:
  assumes "sorted_wrt (<) (map start_byte (filter is_command_node (descendants root)))"
  shows "try_parse_word_only_commands_sequence root =
    (if has_error root \<or> (\<exists>n \<in> set (descendants root). node_rejected n) then None
     else collect parse_plain_command_from_node (filter is_command_node (descendants root)))"
proof (cases "walk_commands [root] []")
  case None
  then show ?thesis using walk_commands_None [OF None]
    by (simp add: try_parse_word_only_commands_sequence_def)
next
  case (Some cs)
  from walk_commands_Some [OF this] have
    "mset cs = mset (filter is_command_node (descendants root))"
    and "\<forall>n \<in> set (descendants root). \<not> node_rejected n" by simp_all
  then show ?thesis using Some sort_key_unique [OF _ assms, of cs]
    by (auto simp: try_parse_word_only_commands_sequence_def)
qed

lemma word_only_commands_complete_witness:
  "try_parse_word_only_commands_sequence sample_list =
     Some [[lit ''ls'', lit ''-l''], [lit ''pwd'']]"
proof -
  have "sorted_wrt (<) (map start_byte (filter is_command_node (descendants sample_list)))"
    by (simp add: sample_tree_simps)
  from word_only_commands_complete [OF this] show ?thesis
    by (simp add: sample_tree_simps node_rejected_def allowed_kinds_def allowed_punct_tokens_def
        parse_plain_command_from_node_def plain_word_def)
qed

text \<open>
  The prefix read off a here-document script belongs to the only command node of an
  error-free tree that does have a here-document, and it is never empty.
\<close>

theorem heredoc_prefix_single_command:
  assumes "parse_shell_lc_single_command_prefix parser command = Some words"
  shows "\<exists>shell flag script root cmd. command = [shell, flag, script] \<and> parser script = Some root \<and>
    \<not> has_error root \<and>
    lit ''heredoc_redirect'' \<in> kind ` set (named_descendants root) \<and>
    filter (\<lambda>n. kind n = lit ''command'') (named_descendants root) = [cmd] \<and>
    parse_heredoc_command_words cmd = Some words \<and> words \<noteq> []"
proof -
  obtain shell script root cmd where
    ext: "extract_bash_command command = Some (shell, script)" and
    root: "parser script = Some root" "\<not> has_error root"
      "has_named_descendant_kind root (lit ''heredoc_redirect'')" and
    cmd: "find_single_command_node root = Some cmd"
      "parse_heredoc_command_words cmd = Some words"
    using assms
    by (auto simp: parse_shell_lc_single_command_prefix_def bind_eq_Some_conv
        split: option.splits if_splits)
  obtain flag where "command = [shell, flag, script]"
    using ext by (auto simp: extract_bash_command_def split: list.splits if_splits)
  moreover have "filter (\<lambda>n. kind n = lit ''command'') (named_descendants root) = [cmd]"
    using cmd(1) single_command_loop_spec [OF refl, of "[root]" None]
    by (auto simp: find_single_command_node_def split: list.splits)
  moreover have "words \<noteq> []"
    using cmd(2) by (auto simp: parse_heredoc_command_words_def split: if_splits option.splits)
  ultimately show ?thesis
    using root cmd(2)
    by (auto simp: has_named_descendant_kind_def has_kind_loop_iff intro: rev_image_eqI)
qed

lemma heredoc_prefix_single_command_witness:
  "\<exists>cmd. filter (\<lambda>n. kind n = lit ''command'') (named_descendants sample_heredoc) = [cmd] \<and>
     parse_heredoc_command_words cmd = Some [lit ''cat'']"
proof -
  have "detect_shell_type (lit ''bash'') = Some Bash"
    by (simp add: detect_shell_type.simps [of "lit ''bash''"] shell_type_of_name_def)
  then have "parse_shell_lc_single_command_prefix (\<lambda>_. Some sample_heredoc)
      [lit ''bash'', lit ''-lc'', lit ''cat''] = Some [lit ''cat'']"
    by (simp add: parse_shell_lc_single_command_prefix_def extract_bash_command_def
        has_named_descendant_kind_def find_single_command_node_def parse_heredoc_command_words_def
        heredoc_child_def is_literal_word_or_number_def sample_tree_simps
        is_allowed_heredoc_attachment_kind_def)
  from heredoc_prefix_single_command [OF this] show ?thesis by (simp add: sample_tree_simps)
qed

end
