(* ===== verification/CommandSafety.thy ===== *)
theory CommandSafety
  imports BashScript ExecRule
begin

text \<open>
  The classification of commands (\<open>shell-command/src/command_safety\<close>): which argv are
  known to be read-only and so need no approval, and which might be dangerous. The
  functions are those of a Unix build; \<open>on_linux\<close> is \<open>cfg!(target_os = "linux")\<close>. The
  bash parser (tree-sitter) and the PowerShell parser (a \<open>pwsh\<close> process) are parameters.
\<close>

section \<open>Git options and subcommands\<close>

abbreviation any_prefix :: "ustring list \<Rightarrow> ustring \<Rightarrow> bool" where
  "any_prefix ps arg \<equiv> list_ex (\<lambda>p. prefix p arg) ps"

definition is_git_global_option_with_value :: "ustring \<Rightarrow> bool" where
  "is_git_global_option_with_value arg =
     (arg \<in> set (map lit [''-C'', ''-c'', ''--config-env'', ''--exec-path'', ''--git-dir'',
        ''--namespace'', ''--super-prefix'', ''--work-tree'']))"

definition is_git_global_option_with_inline_value :: "ustring \<Rightarrow> bool" where
  "is_git_global_option_with_inline_value arg =
     (any_prefix (map lit [''--config-env='', ''--exec-path='', ''--git-dir='', ''--namespace='',
        ''--super-prefix='', ''--work-tree='']) arg
      \<or> (prefix (lit ''-C'') arg \<or> prefix (lit ''-c'') arg) \<and> byte_len arg > 2)"

definition git_global_option_requires_prompt :: "ustring \<Rightarrow> bool" where
  "git_global_option_requires_prompt arg =
     (arg \<in> set (map lit [''-c'', ''--config-env'', ''--exec-path'', ''--git-dir'', ''--namespace'',
        ''--super-prefix'', ''--work-tree''])
      \<or> prefix (lit ''-c'') arg \<and> byte_len arg > 2
      \<or> any_prefix (map lit [''--config-env='', ''--exec-path='', ''--git-dir='', ''--namespace='',
          ''--super-prefix='', ''--work-tree='']) arg)"

definition executable_name_lookup_key :: "ustring \<Rightarrow> ustring option" where
  "executable_name_lookup_key raw = path_file_name raw"

text \<open>The scan of \<open>find_git_subcommand\<close>, with the index of its first argument.\<close>

fun git_subcommand_scan ::
  "ustring list \<Rightarrow> nat \<Rightarrow> bool \<Rightarrow> ustring list \<Rightarrow> (nat \<times> ustring) option" where
  "git_subcommand_scan subcommands idx skip_next [] = None"
| "git_subcommand_scan subcommands idx skip_next (arg # args) =
     (if skip_next then git_subcommand_scan subcommands (idx + 1) False args
      else if is_git_global_option_with_inline_value arg then
        git_subcommand_scan subcommands (idx + 1) False args
      else if is_git_global_option_with_value arg then
        git_subcommand_scan subcommands (idx + 1) True args
      else if arg = lit ''--'' \<or> prefix (lit ''-'') arg then
        git_subcommand_scan subcommands (idx + 1) False args
      else if arg \<in> set subcommands then Some (idx, arg)
      else None)"

definition find_git_subcommand ::
  "ustring list \<Rightarrow> ustring list \<Rightarrow> (nat \<times> ustring) option" where
  "find_git_subcommand command subcommands =
     (case command of
        [] \<Rightarrow> None
      | cmd0 # args \<Rightarrow>
          if executable_name_lookup_key cmd0 \<noteq> Some (lit ''git'') then None
          else git_subcommand_scan subcommands 1 False args)"

section \<open>Dangerous commands\<close>

fun is_dangerous_to_call_with_exec :: "ustring list \<Rightarrow> bool" where
  "is_dangerous_to_call_with_exec [] = False"
| "is_dangerous_to_call_with_exec (cmd0 # args) =
     (if cmd0 = lit ''rm'' then
        (case args of [] \<Rightarrow> False | flag # _ \<Rightarrow> flag \<in> {lit ''-f'', lit ''-rf''})
      else if cmd0 = lit ''sudo'' then is_dangerous_to_call_with_exec args
      else False)"

definition command_might_be_dangerous ::
  "(ustring \<Rightarrow> ts_node option) \<Rightarrow> ustring list \<Rightarrow> bool" where
  "command_might_be_dangerous try_parse_shell command =
     (if is_dangerous_to_call_with_exec command then True
      else case parse_shell_lc_plain_commands try_parse_shell command of
             None \<Rightarrow> False
           | Some all_commands \<Rightarrow> list_ex is_dangerous_to_call_with_exec all_commands)"

section \<open>Known safe commands\<close>

definition git_has_unsafe_global_option :: "ustring list \<Rightarrow> bool" where
  "git_has_unsafe_global_option command = list_ex git_global_option_requires_prompt (drop 1 command)"

definition git_subcommand_args_are_read_only :: "ustring list \<Rightarrow> bool" where
  "git_subcommand_args_are_read_only args =
     (\<not> list_ex (\<lambda>arg.
          arg \<in> set (map lit [''--output'', ''--ext-diff'', ''--textconv'', ''--exec'', ''--paginate''])
          \<or> prefix (lit ''--output='') arg \<or> prefix (lit ''--exec='') arg) args)"

definition branch_read_only_flag :: "ustring \<Rightarrow> bool" where
  "branch_read_only_flag arg =
     (arg \<in> set (map lit [''--list'', ''-l'', ''--show-current'', ''-a'', ''--all'', ''-r'',
        ''--remotes'', ''-v'', ''-vv'', ''--verbose''])
      \<or> prefix (lit ''--format='') arg)"

fun git_branch_loop :: "bool \<Rightarrow> ustring list \<Rightarrow> bool" where
  "git_branch_loop saw_read_only_flag [] = saw_read_only_flag"
| "git_branch_loop saw_read_only_flag (arg # args) =
     (if branch_read_only_flag arg then git_branch_loop True args else False)"

definition git_branch_is_read_only :: "ustring list \<Rightarrow> bool" where
  "git_branch_is_read_only branch_args =
     (if branch_args = [] then True else git_branch_loop False branch_args)"

definition is_valid_sed_n_arg :: "ustring option \<Rightarrow> bool" where
  "is_valid_sed_n_arg arg =
     (case arg of
        None \<Rightarrow> False
      | Some s \<Rightarrow>
          (case strip_suffix (lit ''p'') s of
             None \<Rightarrow> False
           | Some core \<Rightarrow>
               (case split_on 44 core of
                  [num] \<Rightarrow> num \<noteq> [] \<and> list_all is_ascii_digit num
                | [a, b] \<Rightarrow> a \<noteq> [] \<and> b \<noteq> [] \<and> list_all is_ascii_digit a \<and> list_all is_ascii_digit b
                | _ \<Rightarrow> False)))"

definition nth_arg :: "nat \<Rightarrow> 'a list \<Rightarrow> 'a option" where
  "nth_arg i xs = (if i < length xs then Some (xs ! i) else None)"

definition always_safe_programs :: "ustring list" where
  "always_safe_programs = map lit [''cat'', ''cd'', ''cut'', ''echo'', ''expr'', ''false'', ''grep'',
     ''head'', ''id'', ''ls'', ''nl'', ''paste'', ''pwd'', ''rev'', ''seq'', ''stat'', ''tail'', ''tr'',
     ''true'', ''uname'', ''uniq'', ''wc'', ''which'', ''whoami'']"

definition base64_args_safe :: "ustring list \<Rightarrow> bool" where
  "base64_args_safe command =
     (\<not> list_ex (\<lambda>arg. arg \<in> set (map lit [''-o'', ''--output'']) \<or> prefix (lit ''--output='') arg
          \<or> prefix (lit ''-o'') arg \<and> arg \<noteq> lit ''-o'') (drop 1 command))"

definition find_args_safe :: "ustring list \<Rightarrow> bool" where
  "find_args_safe command =
     (\<not> list_ex (\<lambda>arg. arg \<in> set (map lit [''-exec'', ''-execdir'', ''-ok'', ''-okdir'', ''-delete'',
          ''-fls'', ''-fprint'', ''-fprint0'', ''-fprintf''])) command)"

definition ripgrep_arg_unsafe :: "ustring \<Rightarrow> bool" where
  "ripgrep_arg_unsafe arg =
     (arg \<in> set (map lit [''--search-zip'', ''-z''])
      \<or> list_ex (\<lambda>opt. arg = opt \<or> prefix (opt @ lit ''='') arg)
          (map lit [''--pre'', ''--hostname-bin'']))"

definition git_command_safe :: "ustring list \<Rightarrow> bool" where
  "git_command_safe command =
     (if git_has_unsafe_global_option command then False
      else case find_git_subcommand command
                  (map lit [''status'', ''log'', ''diff'', ''show'', ''branch'']) of
             None \<Rightarrow> False
           | Some (subcommand_idx, subcommand) \<Rightarrow>
               (let subcommand_args = drop (subcommand_idx + 1) command
                in if subcommand \<in> set (map lit [''status'', ''log'', ''diff'', ''show''])
                   then git_subcommand_args_are_read_only subcommand_args
                   else if subcommand = lit ''branch''
                   then git_subcommand_args_are_read_only subcommand_args
                        \<and> git_branch_is_read_only subcommand_args
                   else False))"

definition is_safe_to_call_with_exec :: "bool \<Rightarrow> ustring list \<Rightarrow> bool" where
  "is_safe_to_call_with_exec on_linux command =
     (case command of
        [] \<Rightarrow> False
      | cmd0 # _ \<Rightarrow>
          (case executable_name_lookup_key cmd0 of
             None \<Rightarrow> False
           | Some cmd \<Rightarrow>
               if on_linux \<and> (cmd = lit ''numfmt'' \<or> cmd = lit ''tac'') then True
               else if cmd \<in> set always_safe_programs then True
               else if cmd = lit ''base64'' then base64_args_safe command
               else if cmd = lit ''find'' then find_args_safe command
               else if cmd = lit ''rg'' then \<not> list_ex ripgrep_arg_unsafe command
               else if cmd = lit ''git'' then git_command_safe command
               else if cmd = lit ''sed'' \<and> length command \<le> 4
                       \<and> nth_arg 1 command = Some (lit ''-n'')
                       \<and> is_valid_sed_n_arg (nth_arg 2 command) then True
               else False))"

section \<open>PowerShell invocations\<close>

datatype powershell_parse_outcome =
  Commands "ustring list list" | Unsupported | Failed

type_synonym powershell_parser = "ustring \<Rightarrow> ustring \<Rightarrow> powershell_parse_outcome"

definition is_powershell_executable :: "ustring \<Rightarrow> bool" where
  "is_powershell_executable exe =
     (let executable_name =
        to_ascii_lowercase (case path_file_name exe of None \<Rightarrow> exe | Some name \<Rightarrow> name)
      in executable_name \<in> set (map lit [''powershell'', ''powershell.exe'', ''pwsh'', ''pwsh.exe'']))"

definition parse_powershell_script ::
  "powershell_parser \<Rightarrow> ustring \<Rightarrow> ustring \<Rightarrow> ustring list list option" where
  "parse_powershell_script parse_with_powershell_ast executable script =
     (case parse_with_powershell_ast executable script of
        Commands commands \<Rightarrow> Some commands | _ \<Rightarrow> None)"

definition quote_argument :: "ustring \<Rightarrow> ustring" where
  "quote_argument arg =
     (if arg = [] then [39, 39]
      else if list_all (\<lambda>ch. \<not> is_whitespace ch) arg then arg
      else [39] @ concat (map (\<lambda>ch. if ch = 39 then [39, 39] else [ch]) arg) @ [39])"

definition join_arguments_as_script :: "ustring list \<Rightarrow> ustring" where
  "join_arguments_as_script args =
     join_with (lit '' '') (case args of [] \<Rightarrow> [] | f # rest \<Rightarrow> f # map quote_argument rest)"

text \<open>The arguments from the loop's current index on.\<close>

fun parse_powershell_invocation ::
  "powershell_parser \<Rightarrow> ustring \<Rightarrow> ustring list \<Rightarrow> ustring list list option" where
  "parse_powershell_invocation ast executable [] = None"
| "parse_powershell_invocation ast executable (arg # args) =
     (let lower = to_ascii_lowercase arg in
      if lower \<in> set (map lit [''-command'', ''/command'', ''-c'']) then
        (case args of
           [script] \<Rightarrow> parse_powershell_script ast executable script
         | _ \<Rightarrow> None)
      else if prefix (lit ''-command:'') lower \<or> prefix (lit ''/command:'') lower then
        (if args \<noteq> [] then None
         else case split_once 58 arg of
                None \<Rightarrow> None
              | Some (_, script) \<Rightarrow> parse_powershell_script ast executable script)
      else if lower \<in> set (map lit [''-nologo'', ''-noprofile'', ''-noninteractive'', ''-mta'', ''-sta''])
      then parse_powershell_invocation ast executable args
      else if lower \<in> set (map lit [''-encodedcommand'', ''-ec'', ''-file'', ''/file'', ''-windowstyle'',
                ''-executionpolicy'', ''-workingdirectory'']) then None
      else if prefix (lit ''-'') lower then None
      else parse_powershell_script ast executable (join_arguments_as_script (arg # args)))"

definition try_parse_powershell_command_sequence ::
  "powershell_parser \<Rightarrow> ustring list \<Rightarrow> ustring list list option" where
  "try_parse_powershell_command_sequence ast command =
     (case command of
        [] \<Rightarrow> None
      | exe # rest \<Rightarrow>
          if is_powershell_executable exe then parse_powershell_invocation ast exe rest else None)"

definition is_safe_ripgrep :: "ustring list \<Rightarrow> bool" where
  "is_safe_ripgrep words =
     (\<not> list_ex (\<lambda>arg. ripgrep_arg_unsafe (to_ascii_lowercase arg)) (drop 1 words))"

fun git_words_scan :: "ustring list \<Rightarrow> bool" where
  "git_words_scan [] = False"
| "git_words_scan (arg # args) =
     (let arg_lc = to_ascii_lowercase arg in
      if prefix (lit ''-'') arg then
        (if git_global_option_requires_prompt arg_lc \<or> arg_lc = lit ''--config''
            \<or> prefix (lit ''--config='') arg_lc then False
         else git_words_scan args)
      else arg_lc \<in> set (map lit [''status'', ''log'', ''show'', ''diff'', ''cat-file'']))"

definition is_safe_git_command :: "ustring list \<Rightarrow> bool" where
  "is_safe_git_command words = git_words_scan (drop 1 words)"

text \<open>The word without the parentheses around it and its leading dashes, in lower case.\<close>

definition cmdlet_name :: "ustring \<Rightarrow> ustring" where
  "cmdlet_name w =
     (let paren = (\<lambda>c. c \<in> set (lit ''()''));
          inner = rev (dropWhile paren (rev (dropWhile paren w)))
      in to_ascii_lowercase (dropWhile (\<lambda>c. c \<in> set (lit ''-'')) inner))"

definition side_effecting_cmdlets :: "ustring list" where
  "side_effecting_cmdlets = map lit [''set-content'', ''add-content'', ''out-file'', ''new-item'',
     ''remove-item'', ''move-item'', ''copy-item'', ''rename-item'', ''start-process'', ''stop-process'']"

definition read_only_cmdlets :: "ustring list" where
  "read_only_cmdlets = map lit [''echo'', ''write-output'', ''write-host'', ''dir'', ''ls'',
     ''get-childitem'', ''gci'', ''cat'', ''type'', ''gc'', ''get-content'', ''select-string'', ''sls'',
     ''findstr'', ''measure-object'', ''measure'', ''get-location'', ''gl'', ''pwd'', ''test-path'', ''tp'',
     ''resolve-path'', ''rvpa'', ''select-object'', ''select'', ''get-item'']"

definition is_safe_powershell_command :: "ustring list \<Rightarrow> bool" where
  "is_safe_powershell_command words =
     (case words of
        [] \<Rightarrow> False
      | w0 # _ \<Rightarrow>
          if list_ex (\<lambda>w. cmdlet_name w \<in> set side_effecting_cmdlets) words then False
          else (let command = cmdlet_name w0 in
                if command \<in> set read_only_cmdlets then True
                else if command = lit ''git'' then is_safe_git_command words
                else if command = lit ''rg'' then is_safe_ripgrep words
                else False))"

definition is_safe_command_windows :: "powershell_parser \<Rightarrow> ustring list \<Rightarrow> bool" where
  "is_safe_command_windows ast command =
     (case try_parse_powershell_command_sequence ast command of
        None \<Rightarrow> False
      | Some commands \<Rightarrow> list_all is_safe_powershell_command commands)"

section \<open>The check of a whole command\<close>

record command_parsers =
  powershell_ast :: powershell_parser
  shell_tree :: "ustring \<Rightarrow> ts_node option"
  on_linux :: bool

definition is_known_safe_command :: "command_parsers \<Rightarrow> ustring list \<Rightarrow> bool" where
  "is_known_safe_command env command0 =
     (let command = map (\<lambda>s. if s = lit ''zsh'' then lit ''bash'' else s) command0 in
      if is_safe_command_windows (powershell_ast env) command then True
      else if is_safe_to_call_with_exec (on_linux env) command then True
      else case parse_shell_lc_plain_commands (shell_tree env) command of
             None \<Rightarrow> False
           | Some all_commands \<Rightarrow>
               all_commands \<noteq> [] \<and> list_all (is_safe_to_call_with_exec (on_linux env)) all_commands)"

section \<open>Git invocations\<close>

lemma git_subcommand_scan_Some:
  "git_subcommand_scan subs idx skip args = Some (i, sub) \<Longrightarrow>
   \<exists>pre post. args = pre @ sub # post \<and> i = idx + length pre \<and> sub \<in> set subs \<and>
     \<not> prefix (lit ''-'') sub \<and>
     (\<forall>j < length pre. prefix (lit ''-'') (pre ! j) \<or>
        (if j = 0 then skip else is_git_global_option_with_value (pre ! (j - 1))))"
proof (induction subs idx skip args rule: git_subcommand_scan.induct)
  case (2 subs idx skip arg args)
  show ?case
  proof (cases "skip \<or> is_git_global_option_with_inline_value arg
      \<or> is_git_global_option_with_value arg \<or> arg = lit ''--'' \<or> prefix (lit ''-'') arg")
    case False
    then show ?thesis using 2(5) by (intro exI [of _ "[]"] exI [of _ args]) (auto split: if_splits)
  next
    case True
    have dash: "is_git_global_option_with_inline_value arg \<Longrightarrow> prefix (lit ''-'') arg"
      "is_git_global_option_with_value arg \<Longrightarrow> prefix (lit ''-'') arg"
      by (cases arg; auto simp: is_git_global_option_with_inline_value_def lit_def
          is_git_global_option_with_value_def)+
    obtain skip' where
      rest: "git_subcommand_scan subs (idx + 1) skip' args = Some (i, sub)"
      and ih: "git_subcommand_scan subs (idx + 1) skip' args = Some (i, sub) \<Longrightarrow>
        \<exists>pre post. args = pre @ sub # post \<and> i = idx + 1 + length pre \<and> sub \<in> set subs \<and>
          \<not> prefix (lit ''-'') sub \<and>
          (\<forall>j < length pre. prefix (lit ''-'') (pre ! j) \<or>
            (if j = 0 then skip' else is_git_global_option_with_value (pre ! (j - 1))))"
      and skip': "skip' \<Longrightarrow> is_git_global_option_with_value arg"
      using 2 True by (auto split: if_splits)
    from ih [OF rest] obtain pre post where
      a: "args = pre @ sub # post" "i = idx + 1 + length pre" "sub \<in> set subs"
        "\<not> prefix (lit ''-'') sub"
      and all: "\<forall>j < length pre. prefix (lit ''-'') (pre ! j) \<or>
         (if j = 0 then skip' else is_git_global_option_with_value (pre ! (j - 1)))" by blast
    have "prefix (lit ''-'') arg \<or> skip" using True dash by (auto simp: lit_def)
    then have "\<forall>j < length (arg # pre). prefix (lit ''-'') ((arg # pre) ! j) \<or>
         (if j = 0 then skip else is_git_global_option_with_value ((arg # pre) ! (j - 1)))"
      using all skip' by (auto simp: nth_Cons split: nat.splits if_splits)
    with a show ?thesis by (intro exI [of _ "arg # pre"] exI [of _ post]) auto
  qed
qed simp

lemma git_value_option_without_prompt:
  "is_git_global_option_with_value arg \<Longrightarrow> \<not> git_global_option_requires_prompt arg \<Longrightarrow> arg = lit ''-C''"
  by (auto simp: is_git_global_option_with_value_def git_global_option_requires_prompt_def)

lemma git_branch_loop_all: "git_branch_loop saw args \<Longrightarrow> list_all branch_read_only_flag args"
  by (induction saw args rule: git_branch_loop.induct) (auto split: if_splits)

lemma git_branch_all: "git_branch_is_read_only args \<Longrightarrow> list_all branch_read_only_flag args"
  by (auto simp: git_branch_is_read_only_def dest: git_branch_loop_all split: if_splits)

lemma safe_git: "executable_name_lookup_key cmd0 = Some (lit ''git'') \<Longrightarrow>
   is_safe_to_call_with_exec lx (cmd0 # args) = git_command_safe (cmd0 # args)"
  by (simp add: is_safe_to_call_with_exec_def always_safe_programs_def)

text \<open>A token that is the option \<open>opt\<close>, alone or with a value after \<open>=\<close>.\<close>

definition names_option :: "ustring \<Rightarrow> ustring \<Rightarrow> bool" where
  "names_option opt a \<longleftrightarrow> a = opt \<or> prefix (opt @ lit ''='') a"

lemma short_config_requires_prompt:
  assumes "prefix (lit ''-c'') a"
  shows "git_global_option_requires_prompt a"
proof (cases "a = lit ''-c''")
  case False
  then obtain x xs where "a = lit ''-c'' @ x # xs"
    using assms by (metis prefix_def append_Nil2 list.exhaust)
  then have "byte_len a > 2" by (simp add: byte_len_def len_utf8_def lit_def uc_def)
  then show ?thesis using assms by (simp add: git_global_option_requires_prompt_def)
qed (simp add: git_global_option_requires_prompt_def)

lemma redirecting_option_requires_prompt:
  "opt \<in> set (map lit [''--config-env'', ''--exec-path'', ''--git-dir'', ''--namespace'',
     ''--super-prefix'', ''--work-tree'']) \<Longrightarrow> names_option opt a \<Longrightarrow> git_global_option_requires_prompt a"
  by (auto simp: names_option_def git_global_option_requires_prompt_def lit_def uc_def)

lemma read_only_args_name_none:
  "git_subcommand_args_are_read_only args \<Longrightarrow> a \<in> set args \<Longrightarrow>
   \<not> names_option (lit ''--output'') a \<and> \<not> names_option (lit ''--exec'') a \<and>
   a \<notin> set (map lit [''--ext-diff'', ''--textconv'', ''--paginate''])"
  by (auto simp: names_option_def git_subcommand_args_are_read_only_def list_ex_iff lit_def uc_def)

text \<open>
  C5: A git invocation that is approved without asking runs one of five read-only subcommands:
  every token before the subcommand is an option or the directory of \<open>-C\<close>; no token of the
  command is an option, spelled in full, that redirects git's configuration or helpers
  (\<open>--config-env\<close>, \<open>--exec-path\<close>, \<open>--git-dir\<close>, \<open>--namespace\<close>, \<open>--super-prefix\<close>, \<open>--work-tree\<close>, alone or
  with a value, and anything that starts with \<open>-c\<close>); after the subcommand there is no \<open>--output\<close>
  or \<open>--exec\<close>, alone or with a value, no \<open>--ext-diff\<close>, \<open>--textconv\<close> and \<open>--paginate\<close>; and \<open>branch\<close> has
  only the listing flags. What git makes of other options, or of abbreviated ones, is not
  part of this.
\<close>

theorem git_auto_approved_is_read_only:
  assumes "is_safe_to_call_with_exec lx (cmd0 # args)"
    and "executable_name_lookup_key cmd0 = Some (lit ''git'')"
  shows "\<exists>pre sub post. args = pre @ sub # post \<and>
    sub \<in> set (map lit [''status'', ''log'', ''diff'', ''show'', ''branch'']) \<and>
    list_all (\<lambda>a. \<not> prefix (lit ''-c'') a \<and>
      \<not> list_ex (\<lambda>opt. names_option opt a) (map lit [''--config-env'', ''--exec-path'', ''--git-dir'',
          ''--namespace'', ''--super-prefix'', ''--work-tree''])) args \<and>
    list_all (\<lambda>a. \<not> names_option (lit ''--output'') a \<and> \<not> names_option (lit ''--exec'') a \<and>
      a \<notin> set (map lit [''--ext-diff'', ''--textconv'', ''--paginate''])) post \<and>
    (sub \<noteq> lit ''branch'' \<or>
      list_all (\<lambda>a. a \<in> set (map lit [''--list'', ''-l'', ''--show-current'', ''-a'', ''--all'', ''-r'',
        ''--remotes'', ''-v'', ''-vv'', ''--verbose'']) \<or> prefix (lit ''--format='') a) post) \<and>
    list_all (\<lambda>j. prefix (lit ''-'') (pre ! j) \<or> j > 0 \<and> pre ! (j - 1) = lit ''-C'') [0..<length pre]"
proof -
  from assms have safe: "git_command_safe (cmd0 # args)" by (simp add: safe_git)
  then obtain i sub where
    find: "find_git_subcommand (cmd0 # args)
        (map lit [''status'', ''log'', ''diff'', ''show'', ''branch'']) = Some (i, sub)"
    and opts: "\<not> list_ex git_global_option_requires_prompt args"
    and post: "git_subcommand_args_are_read_only (drop i args)"
      "sub \<noteq> lit ''branch'' \<or> git_branch_is_read_only (drop i args)"
    by (auto simp: git_command_safe_def git_has_unsafe_global_option_def Let_def
        split: option.splits if_splits)
  from find obtain pre rest where
    a: "args = pre @ sub # rest" "i = 1 + length pre"
      "sub \<in> set (map lit [''status'', ''log'', ''diff'', ''show'', ''branch''])"
    and pre: "\<forall>j < length pre. prefix (lit ''-'') (pre ! j) \<or>
      (if j = 0 then False else is_git_global_option_with_value (pre ! (j - 1)))"
    using git_subcommand_scan_Some [of _ 1 False args i sub]
    by (fastforce simp: find_git_subcommand_def split: if_splits)
  have quiet: "\<not> git_global_option_requires_prompt t" if "t \<in> set args" for t
    using opts that by (auto simp: list_ex_iff)
  have directory: "prefix (lit ''-'') (pre ! j) \<or> j > 0 \<and> pre ! (j - 1) = lit ''-C''"
    if "j < length pre" for j
  proof -
    have "j > 0 \<Longrightarrow> \<not> git_global_option_requires_prompt (pre ! (j - 1))"
      using quiet a(1) that by simp
    then show ?thesis using pre that git_value_option_without_prompt by (metis gr0I)
  qed
  have rest: "drop i args = rest" using a by simp
  have redirect: "list_all (\<lambda>a. \<not> prefix (lit ''-c'') a \<and>
      \<not> list_ex (\<lambda>opt. names_option opt a) (map lit [''--config-env'', ''--exec-path'', ''--git-dir'',
          ''--namespace'', ''--super-prefix'', ''--work-tree''])) args"
    unfolding list_all_iff list_ex_iff
    using quiet short_config_requires_prompt redirecting_option_requires_prompt by blast
  have effects: "list_all (\<lambda>a. \<not> names_option (lit ''--output'') a \<and> \<not> names_option (lit ''--exec'') a \<and>
      a \<notin> set (map lit [''--ext-diff'', ''--textconv'', ''--paginate''])) rest"
    unfolding list_all_iff using read_only_args_name_none post(1) rest by blast
  have branch: "sub \<noteq> lit ''branch'' \<or>
      list_all (\<lambda>a. a \<in> set (map lit [''--list'', ''-l'', ''--show-current'', ''-a'', ''--all'', ''-r'',
        ''--remotes'', ''-v'', ''-vv'', ''--verbose'']) \<or> prefix (lit ''--format='') a) rest"
    using post(2) git_branch_all [of rest] rest unfolding branch_read_only_flag_def by auto
  have options: "list_all (\<lambda>j. prefix (lit ''-'') (pre ! j) \<or> j > 0 \<and> pre ! (j - 1) = lit ''-C'') [0..<length pre]"
    unfolding list_all_iff using directory by simp
  show ?thesis
    by (rule exI [of _ pre], rule exI [of _ sub], rule exI [of _ rest])
      (intro conjI a(1,3) redirect effects branch options)
qed

lemma git_auto_approved_is_read_only_witness:
  "\<exists>pre sub post. map lit [''-C'', ''.'', ''diff'', ''--stat''] = pre @ sub # post \<and>
    list_all (\<lambda>a. \<not> names_option (lit ''--output'') a \<and> \<not> names_option (lit ''--exec'') a \<and>
      a \<notin> set (map lit [''--ext-diff'', ''--textconv'', ''--paginate''])) post"
proof -
  have name: "executable_name_lookup_key (lit ''git'') = Some (lit ''git'')"
    by (simp add: executable_name_lookup_key_def path_file_name_def path_components_def
        is_absolute_def slash_def lit_def uc_def List.map_filter_def)
  have "is_safe_to_call_with_exec False (lit ''git'' # map lit [''-C'', ''.'', ''diff'', ''--stat''])"
    by (simp only: safe_git [OF name] git_command_safe_def find_git_subcommand_def list.case name)
      (simp add: git_has_unsafe_global_option_def git_global_option_requires_prompt_def
        is_git_global_option_with_inline_value_def is_git_global_option_with_value_def
        git_subcommand_args_are_read_only_def git_branch_is_read_only_def branch_read_only_flag_def
        byte_len_def len_utf8_def lit_def uc_def)
  from git_auto_approved_is_read_only [OF this name] show ?thesis by blast
qed

section \<open>Safe and dangerous exclude each other\<close>

definition plain_dangerous_head :: "ustring \<Rightarrow> bool" where
  "plain_dangerous_head s = (s = lit ''rm'' \<or> s = lit ''sudo'')"

lemma dangerous_head: "is_dangerous_to_call_with_exec (c # cs) \<Longrightarrow> plain_dangerous_head c"
  by (auto simp: plain_dangerous_head_def split: if_splits)

text \<open>
  A command is dangerous by itself exactly when, after any number of \<open>sudo\<close>, it is
  \<open>rm -f\<close> or \<open>rm -rf\<close>.
\<close>

theorem dangerous_iff_forced_rm_under_sudo:
  "is_dangerous_to_call_with_exec command =
   (\<exists>n flag rest. flag \<in> {lit ''-f'', lit ''-rf''} \<and>
      command = replicate n (lit ''sudo'') @ lit ''rm'' # flag # rest)"
proof (induction command)
  case (Cons c cs)
  show ?case (is "?l = (\<exists>n. ?r n)")
  proof
    assume l: ?l
    show "\<exists>n. ?r n"
    proof (cases "c = lit ''sudo''")
      case True
      with l Cons.IH obtain n flag rest where
        "flag \<in> {lit ''-f'', lit ''-rf''}" "cs = replicate n (lit ''sudo'') @ lit ''rm'' # flag # rest"
        by auto
      with True show ?thesis by (intro exI [of _ "Suc n"]) auto
    next
      case False
      with l show ?thesis
        by (intro exI [of _ 0]) (auto split: if_splits list.splits)
    qed
  next
    assume "\<exists>n. ?r n"
    then obtain n flag rest where
      f: "flag \<in> {lit ''-f'', lit ''-rf''}"
        "c # cs = replicate n (lit ''sudo'') @ lit ''rm'' # flag # rest" by blast
    show ?l
    proof (cases n)
      case 0
      with f show ?thesis by auto
    next
      case (Suc m)
      with f Cons.IH show ?thesis by auto
    qed
  qed
qed simp

definition posix_shell_names :: "ustring list" where
  "posix_shell_names = map lit [''zsh'', ''sh'', ''bash'']"

lemma posix_shell_prefix:
  assumes "extract_bash_command (shell # rest) = Some x"
  obtains name s where "path_file_name shell = Some name" "prefix s name"
    "s \<in> set posix_shell_names"
proof -
  from assms obtain t where t: "detect_shell_type shell = Some t" "t \<in> {Zsh, Bash, Sh}"
    by (auto simp: extract_bash_command_def split: list.splits if_splits)
  from detect_shell_type_prefix [OF t(1)] obtain name s where
    "path_file_name shell = Some name" "prefix s name" "shell_type_of_name s = Some t" by blast
  with t(2) that show ?thesis
    by (auto simp: shell_type_of_name_def posix_shell_names_def split: if_splits)
qed

lemma shell_not_safe_to_call:
  assumes "extract_bash_command command = Some x"
  shows "\<not> is_safe_to_call_with_exec lx command"
proof -
  obtain shell rest where c: "command = shell # rest"
    using assms by (auto simp: extract_bash_command_def split: list.splits)
  from assms [unfolded c] obtain name s where
    "path_file_name shell = Some name" "prefix s name" "s \<in> set posix_shell_names"
    by (rule posix_shell_prefix)
  moreover have "name \<notin> set (map lit [''numfmt'', ''tac'', ''base64'', ''find'', ''rg'', ''git'', ''sed''])
      \<and> name \<notin> set always_safe_programs"
    using calculation(2,3) by (auto simp: posix_shell_names_def always_safe_programs_def)
  ultimately show ?thesis
    by (auto simp: c is_safe_to_call_with_exec_def executable_name_lookup_key_def)
qed

lemma shell_not_powershell:
  assumes "extract_bash_command (shell # rest) = Some x"
  shows "\<not> is_powershell_executable shell"
proof -
  from assms obtain name s where n: "path_file_name shell = Some name" and
    "prefix s name" "s \<in> set posix_shell_names" by (rule posix_shell_prefix)
  then have "\<exists>c cs. name = c # cs \<and> c \<in> {uc CHR ''z'', uc CHR ''s'', uc CHR ''b''}"
    by (auto simp: posix_shell_names_def lit_def prefix_def)
  then show ?thesis
    by (auto simp: is_powershell_executable_def n to_ascii_lowercase_def to_ascii_lower_def
        lit_def uc_def)
qed

lemma dangerous_head_file_name: "plain_dangerous_head c \<Longrightarrow> path_file_name c = Some c"
  by (auto simp: plain_dangerous_head_def path_file_name_def path_components_def Let_def
      is_absolute_def slash_def lit_def uc_def List.map_filter_def)

lemma dangerous_head_no_shell:
  assumes "plain_dangerous_head c"
  shows "extract_bash_command (c # cs) = None"
proof (rule ccontr)
  assume "extract_bash_command (c # cs) \<noteq> None"
  then obtain x where "extract_bash_command (c # cs) = Some x" by auto
  then obtain name s where "path_file_name c = Some name" "prefix s name" "s \<in> set posix_shell_names"
    by (rule posix_shell_prefix)
  then have "prefix s c" "s \<in> set posix_shell_names"
    using dangerous_head_file_name [OF assms] by auto
  with assms show False by (auto simp: plain_dangerous_head_def posix_shell_names_def)
qed

lemma safe_not_dangerous_head:
  "plain_dangerous_head c \<Longrightarrow> \<not> is_safe_to_call_with_exec lx (c # cs)"
  "plain_dangerous_head c \<Longrightarrow> \<not> is_safe_command_windows ast (c # cs)"
proof -
  assume h: "plain_dangerous_head c"
  then have f: "path_file_name c = Some c" by (rule dangerous_head_file_name)
  show "\<not> is_safe_to_call_with_exec lx (c # cs)"
    using h f by (auto simp: is_safe_to_call_with_exec_def executable_name_lookup_key_def
        plain_dangerous_head_def always_safe_programs_def)
  show "\<not> is_safe_command_windows ast (c # cs)"
    using h f by (auto simp: is_safe_command_windows_def try_parse_powershell_command_sequence_def
        is_powershell_executable_def plain_dangerous_head_def to_ascii_lowercase_def
        to_ascii_lower_def lit_def uc_def)
qed

lemma safe_exec_not_dangerous:
  "is_safe_to_call_with_exec lx c \<Longrightarrow> \<not> is_dangerous_to_call_with_exec c"
  by (cases c) (auto dest: safe_not_dangerous_head(1) dest!: dangerous_head
      simp del: is_dangerous_to_call_with_exec.simps(2))

lemma extract_zsh_as_bash:
  assumes "extract_bash_command (shell # rest) = Some (sh, script)" and "lit ''zsh'' \<notin> set rest"
  shows "\<exists>sh'. extract_bash_command
    (map (\<lambda>s. if s = lit ''zsh'' then lit ''bash'' else s) (shell # rest)) = Some (sh', script)"
proof -
  have same: "map (\<lambda>s. if s = lit ''zsh'' then lit ''bash'' else s) rest = rest"
    using assms(2) by (intro map_idI) auto
  have "detect_shell_type (lit ''bash'') = Some Bash"
    by (simp add: detect_shell_type.simps [of "lit ''bash''"] shell_type_of_name_def)
  with assms(1) show ?thesis
    unfolding list.map same by (auto simp: extract_bash_command_def split: list.splits if_splits)
qed

text \<open>
  C7: No command is both approved as known safe and reported as possibly dangerous, on any
  platform flag and with any parsers; the condition excludes arguments that are the word
  \<open>zsh\<close>, which the safety check rewrites before it parses the script.
\<close>

theorem known_safe_not_dangerous:
  assumes "is_known_safe_command env command" and "lit ''zsh'' \<notin> set (tl command)"
  shows "\<not> command_might_be_dangerous (shell_tree env) command"
proof
  let ?z = "\<lambda>s. if s = lit ''zsh'' then lit ''bash'' else s"
  assume d: "command_might_be_dangerous (shell_tree env) command"
  obtain shell rest where c: "command = shell # rest"
    using d by (cases command)
      (auto simp: command_might_be_dangerous_def parse_shell_lc_plain_commands_def extract_bash_command_def)
  show False
  proof (cases "is_dangerous_to_call_with_exec command")
    case True
    then have h: "plain_dangerous_head shell" unfolding c by (rule dangerous_head)
    then have "?z shell = shell" by (auto simp: plain_dangerous_head_def)
    moreover have "extract_bash_command (map ?z command) = None"
      using calculation dangerous_head_no_shell [OF h] by (simp add: c)
    ultimately show False
      using assms(1) safe_not_dangerous_head [OF h]
      by (auto simp: is_known_safe_command_def c parse_shell_lc_plain_commands_def
          simp del: is_dangerous_to_call_with_exec.simps split: if_splits)
  next
    case False
    then obtain all_commands sh script where
      p: "parse_shell_lc_plain_commands (shell_tree env) command = Some all_commands"
        "list_ex is_dangerous_to_call_with_exec all_commands"
      and ext: "extract_bash_command (shell # rest) = Some (sh, script)"
      using d by (auto simp: command_might_be_dangerous_def parse_shell_lc_plain_commands_def c
          split: option.splits)
    from extract_zsh_as_bash [OF ext] assms(2) obtain sh' where
      ext': "extract_bash_command (map ?z command) = Some (sh', script)" by (auto simp: c)
    then have "extract_bash_command (?z shell # map ?z rest) = Some (sh', script)" by (simp add: c)
    from shell_not_powershell [OF this] have "\<not> is_safe_command_windows (powershell_ast env) (map ?z command)"
      by (simp add: c is_safe_command_windows_def try_parse_powershell_command_sequence_def)
    moreover have "parse_shell_lc_plain_commands (shell_tree env) (map ?z command) = Some all_commands"
      using p(1) ext ext' by (simp add: parse_shell_lc_plain_commands_def c)
    ultimately have "list_all (is_safe_to_call_with_exec (on_linux env)) all_commands"
      using assms(1) shell_not_safe_to_call [OF ext', of "on_linux env"]
      by (simp add: is_known_safe_command_def Let_def split: if_splits)
    with p(2) show False by (auto simp: list_all_iff list_ex_iff dest: safe_exec_not_dangerous)
  qed
qed

lemma known_safe_not_dangerous_witness:
  "\<not> command_might_be_dangerous (\<lambda>_. None) [lit ''ls'', lit ''-l'']"
proof -
  let ?env = "\<lparr>powershell_ast = \<lambda>_ _. Failed, shell_tree = \<lambda>_. None, on_linux = True\<rparr>"
  have "path_file_name (lit ''ls'') = Some (lit ''ls'')"
    by (simp add: path_file_name_def path_components_def is_absolute_def slash_def lit_def uc_def
        List.map_filter_def)
  then have "is_known_safe_command ?env [lit ''ls'', lit ''-l'']"
    by (simp add: is_known_safe_command_def is_safe_to_call_with_exec_def
        executable_name_lookup_key_def always_safe_programs_def)
  from known_safe_not_dangerous [OF this] show ?thesis by simp
qed

text \<open>
  A script given to a POSIX shell is approved exactly when it reads as a non-empty
  sequence of plain commands, each of which would be approved on its own.
\<close>

theorem shell_script_safe_iff_each_command_safe:
  assumes "extract_bash_command command = Some (shell, script)" and "lit ''zsh'' \<notin> set (tl command)"
  shows "is_known_safe_command env command =
    (\<exists>tree cmds. shell_tree env script = Some tree \<and>
       try_parse_word_only_commands_sequence tree = Some cmds \<and>
       cmds \<noteq> [] \<and> list_all (is_safe_to_call_with_exec (on_linux env)) cmds)"
proof -
  let ?z = "\<lambda>s. if s = lit ''zsh'' then lit ''bash'' else s"
  obtain hd_c rest where c: "command = hd_c # rest"
    using assms(1) by (cases command) (auto simp: extract_bash_command_def)
  from extract_zsh_as_bash [of hd_c rest shell script] assms obtain sh' where
    ext': "extract_bash_command (map ?z command) = Some (sh', script)" by (auto simp: c)
  then have "extract_bash_command (?z hd_c # map ?z rest) = Some (sh', script)" by (simp add: c)
  from shell_not_powershell [OF this] have "\<not> is_safe_command_windows (powershell_ast env) (map ?z command)"
    by (simp add: c is_safe_command_windows_def try_parse_powershell_command_sequence_def)
  then show ?thesis
    using shell_not_safe_to_call [OF ext', of "on_linux env"] ext'
    by (auto simp: is_known_safe_command_def Let_def parse_shell_lc_plain_commands_def
        bind_eq_Some_conv split: option.splits)
qed

lemma shell_script_safe_iff_each_command_safe_witness:
  "\<not> is_known_safe_command
     \<lparr>powershell_ast = \<lambda>_ _. Failed, shell_tree = \<lambda>_. None, on_linux = True\<rparr>
     [lit ''bash'', lit ''-lc'', lit ''rm x'']"
proof -
  have "extract_bash_command [lit ''bash'', lit ''-lc'', lit ''rm x''] = Some (lit ''bash'', lit ''rm x'')"
    by (simp add: extract_bash_command_def detect_shell_type.simps [of "lit ''bash''"]
        shell_type_of_name_def)
  from shell_script_safe_iff_each_command_safe [OF this] show ?thesis by simp
qed

section \<open>Writes that are approved\<close>

text \<open>
  Three invocations that write a file or start a pager are approved although the
  safelist is meant for commands that only read: \<open>uniq\<close> with an output file, \<open>sed -n\<close>
  with a second script after its line range, and git's global \<open>--paginate\<close>; and the
  PowerShell list accepts the \<open>--output\<close> flag of git that the other list refuses.
\<close>

theorem approved_commands_with_effects:
  "is_safe_to_call_with_exec lx (map lit [''uniq'', ''in'', ''out'']) \<and>
   is_safe_to_call_with_exec lx (map lit [''sed'', ''-n'', ''1p'', ''-ew/tmp/out'']) \<and>
   is_safe_to_call_with_exec lx (map lit [''git'', ''--paginate'', ''log'']) \<and>
   is_safe_powershell_command (map lit [''git'', ''log'', ''--output=x'']) \<and>
   \<not> is_safe_to_call_with_exec lx (map lit [''git'', ''log'', ''--output=x''])"
proof (intro conjI)
  have names: "path_file_name (lit ''uniq'') = Some (lit ''uniq'')"
    "path_file_name (lit ''sed'') = Some (lit ''sed'')" "path_file_name (lit ''git'') = Some (lit ''git'')"
    by (simp_all add: path_file_name_def path_components_def is_absolute_def slash_def lit_def
        uc_def List.map_filter_def)
  show "is_safe_to_call_with_exec lx (map lit [''uniq'', ''in'', ''out''])"
    by (simp add: is_safe_to_call_with_exec_def executable_name_lookup_key_def names
        always_safe_programs_def)
  have "is_valid_sed_n_arg (Some (lit ''1p''))"
    by (simp add: is_valid_sed_n_arg_def strip_suffix_def suffix_to_prefix strip_prefix_def
        lit_def uc_def is_ascii_digit_def)
  then show "is_safe_to_call_with_exec lx (map lit [''sed'', ''-n'', ''1p'', ''-ew/tmp/out''])"
    by (simp add: is_safe_to_call_with_exec_def executable_name_lookup_key_def names
        always_safe_programs_def nth_arg_def)
  have key: "executable_name_lookup_key (lit ''git'') = Some (lit ''git'')"
    by (simp add: executable_name_lookup_key_def names)
  show "is_safe_to_call_with_exec lx (map lit [''git'', ''--paginate'', ''log''])"
    by (simp only: list.map safe_git [OF key] git_command_safe_def find_git_subcommand_def list.case key)
      (simp add: git_has_unsafe_global_option_def git_global_option_requires_prompt_def
        is_git_global_option_with_inline_value_def is_git_global_option_with_value_def
        git_subcommand_args_are_read_only_def byte_len_def len_utf8_def lit_def uc_def)
  show "is_safe_powershell_command (map lit [''git'', ''log'', ''--output=x''])"
    by (simp add: is_safe_powershell_command_def cmdlet_name_def side_effecting_cmdlets_def
        read_only_cmdlets_def is_safe_git_command_def to_ascii_lowercase_def to_ascii_lower_def
        git_global_option_requires_prompt_def lit_def uc_def Let_def)
  show "\<not> is_safe_to_call_with_exec lx (map lit [''git'', ''log'', ''--output=x''])"
    by (simp only: list.map safe_git [OF key] git_command_safe_def find_git_subcommand_def list.case key)
      (simp add: git_has_unsafe_global_option_def git_global_option_requires_prompt_def
        is_git_global_option_with_inline_value_def is_git_global_option_with_value_def
        git_subcommand_args_are_read_only_def byte_len_def len_utf8_def lit_def uc_def)
qed

end
