(* ===== verification/ExecAmend.thy ===== *)
theory ExecAmend
  imports ExecRule
begin

text \<open>
  Amending the policy file (\<open>execpolicy/src/amend.rs\<close>): a rule is rendered as one line and
  appended under a lock, unless the file has the line already. The file is its contents
  (\<open>None\<close> before it exists); what the operating system answers is a record of parameters,
  and so is the JSON rendering of strings (\<open>serde_json\<close>).
\<close>

datatype amend_error =
    EmptyPrefix
  | InvalidNetworkRule policy_error
  | BlankJustification
  | MissingParent ustring
  | CreatePolicyDir ustring io_error
  | SerializePrefix
  | SerializeNetworkRule
  | OpenPolicyFile ustring io_error
  | WritePolicyFile ustring io_error
  | LockPolicyFile ustring io_error
  | SeekPolicyFile ustring io_error
  | ReadPolicyFile ustring io_error

text \<open>
  Each call fails with an error or succeeds; a write returns the contents it leaves, so
  that a partial write is possible.
\<close>

record policy_file_io =
  create_dir_error :: "ustring \<Rightarrow> io_error option"
  open_error :: "io_error option"
  lock_error :: "io_error option"
  seek_error :: "io_error option"
  read_error :: "io_error option"
  write_all :: "ustring \<Rightarrow> ustring \<Rightarrow> ustring \<times> io_error option"
  json_string :: "ustring \<Rightarrow> ustring option"

type_synonym file_contents = "ustring option"

definition ends_with :: "ustring \<Rightarrow> uchar \<Rightarrow> bool" where
  "ends_with s c = (s \<noteq> [] \<and> last s = c)"

definition append_locked_line ::
  "policy_file_io \<Rightarrow> file_contents \<Rightarrow> ustring \<Rightarrow> ustring \<Rightarrow> (amend_error + unit) \<times> file_contents" where
  "append_locked_line io file policy_path line =
     (case open_error io of
        Some e \<Rightarrow> (Inl (OpenPolicyFile policy_path e), file)
      | None \<Rightarrow>
          (let contents = (case file of None \<Rightarrow> [] | Some c \<Rightarrow> c) in
           case lock_error io of
             Some e \<Rightarrow> (Inl (LockPolicyFile policy_path e), Some contents)
           | None \<Rightarrow>
               (case seek_error io of
                  Some e \<Rightarrow> (Inl (SeekPolicyFile policy_path e), Some contents)
                | None \<Rightarrow>
                    (case read_error io of
                       Some e \<Rightarrow> (Inl (ReadPolicyFile policy_path e), Some contents)
                     | None \<Rightarrow>
                         if line \<in> set (str_lines contents) then (Inr (), Some contents)
                         else
                           (let (contents1, err1) =
                              if contents \<noteq> [] \<and> \<not> ends_with contents newline
                              then write_all io contents [newline] else (contents, None)
                            in case err1 of
                                 Some e \<Rightarrow> (Inl (WritePolicyFile policy_path e), Some contents1)
                               | None \<Rightarrow>
                                   (let (contents2, err2) = write_all io contents1 (line @ [newline])
                                    in case err2 of
                                         Some e \<Rightarrow> (Inl (WritePolicyFile policy_path e), Some contents2)
                                       | None \<Rightarrow> (Inr (), Some contents2)))))))"

definition append_rule_line ::
  "policy_file_io \<Rightarrow> file_contents \<Rightarrow> ustring \<Rightarrow> ustring \<Rightarrow> (amend_error + unit) \<times> file_contents" where
  "append_rule_line io file policy_path rule =
     (case abs_parent policy_path of
        None \<Rightarrow> (Inl (MissingParent policy_path), file)
      | Some dir \<Rightarrow>
          (case create_dir_error io dir of
             None \<Rightarrow> append_locked_line io file policy_path rule
           | Some e \<Rightarrow>
               if io_kind e = AlreadyExists then append_locked_line io file policy_path rule
               else (Inl (CreatePolicyDir dir e), file)))"

fun collect_tokens :: "('a \<Rightarrow> 'b option) \<Rightarrow> 'a list \<Rightarrow> 'b list option" where
  "collect_tokens f [] = Some []"
| "collect_tokens f (x # xs) =
     Option.bind (f x) (\<lambda>y. map_option (Cons y) (collect_tokens f xs))"

definition blocking_append_allow_prefix_rule ::
  "policy_file_io \<Rightarrow> file_contents \<Rightarrow> ustring \<Rightarrow> ustring list \<Rightarrow> (amend_error + unit) \<times> file_contents" where
  "blocking_append_allow_prefix_rule io file policy_path pre =
     (if pre = [] then (Inl EmptyPrefix, file)
      else case collect_tokens (json_string io) pre of
             None \<Rightarrow> (Inl SerializePrefix, file)
           | Some tokens \<Rightarrow>
               append_rule_line io file policy_path
                 (lit ''prefix_rule(pattern=['' @ join_with (lit '', '') tokens @
                  lit ''], decision=\"allow\")''))"

fun policy_file_decision :: "decision \<Rightarrow> ustring" where
  "policy_file_decision Allow = lit ''allow''"
| "policy_file_decision Prompt = lit ''prompt''"
| "policy_file_decision Forbidden = lit ''deny''"

definition blocking_append_network_rule ::
  "policy_file_io \<Rightarrow> file_contents \<Rightarrow> ustring \<Rightarrow> ustring \<Rightarrow> network_protocol \<Rightarrow> decision
   \<Rightarrow> ustring option \<Rightarrow> (amend_error + unit) \<times> file_contents" where
  "blocking_append_network_rule io file policy_path raw_host protocol d justification =
     (case normalize_network_rule_host raw_host of
        Inl e \<Rightarrow> (Inl (InvalidNetworkRule e), file)
      | Inr host \<Rightarrow>
          if \<exists>raw \<in> set_option justification. trim raw = [] then (Inl BlankJustification, file)
          else
            (case collect_tokens (json_string io)
                    ([host, as_policy_string protocol, policy_file_decision d]
                     @ (case justification of None \<Rightarrow> [] | Some j \<Rightarrow> [j])) of
               None \<Rightarrow> (Inl SerializeNetworkRule, file)
             | Some rendered \<Rightarrow>
                 append_rule_line io file policy_path
                   (lit ''network_rule('' @
                    join_with (lit '', '')
                      (map (\<lambda>(name, v). name @ v)
                        (zip (map lit [''host='', ''protocol='', ''decision='', ''justification='']) rendered))
                    @ lit '')'')))"

section \<open>Appending a line\<close>

definition faithful_writes :: "policy_file_io \<Rightarrow> bool" where
  "faithful_writes io \<longleftrightarrow> (\<forall>c d c'. write_all io c d = (c', None) \<longrightarrow> c' = c @ d)"

lemma str_lines_append_line:
  assumes "newline \<notin> set line" and "\<not> ends_with line 13" and "contents = [] \<or> ends_with contents newline"
  shows "line \<in> set (str_lines (contents @ line @ [newline]))"
proof -
  have line: "split_on newline (line @ [newline]) = [line, []]"
    using assms(1) by (simp add: split_on_append_sep)
  have "\<exists>ss. split_on newline (contents @ line @ [newline]) = ss @ [line, []]"
  proof (cases "contents = []")
    case False
    then obtain b where b: "contents = b @ [newline]"
      using assms(3) by (metis append_butlast_last_id ends_with_def)
    show ?thesis using split_on_append [of newline b "line @ [newline]"] line by (simp add: b)
  qed (use line in simp)
  then obtain ss where ss: "split_on newline (contents @ line @ [newline]) = ss @ [line, []]" by blast
  moreover have "strip_cr line = line"
    using assms(2) by (auto simp: strip_cr_def strip_suffix_def ends_with_def suffix_def split: if_splits)
  ultimately show ?thesis by (simp add: str_lines_def butlast_append)
qed

text \<open>
  When appending a line succeeds, nothing that was in the file is lost, the file has the
  line, and appending it once more succeeds and changes nothing. Lines are those of
  \<open>str::lines\<close>, so the line itself has no newline and no carriage return at its end.
\<close>

theorem append_locked_line_idempotent:
  assumes "faithful_writes io" and "newline \<notin> set line" and "\<not> ends_with line 13"
    and "append_locked_line io (Some contents) path line = (Inr (), Some contents')"
  shows "prefix contents contents' \<and> line \<in> set (str_lines contents') \<and>
    append_locked_line io (Some contents') path line = (Inr (), Some contents')"
proof -
  have io: "open_error io = None" "lock_error io = None" "seek_error io = None" "read_error io = None"
    using assms(4) by (auto simp: append_locked_line_def split: option.splits)
  have "prefix contents contents' \<and> line \<in> set (str_lines contents')"
  proof (cases "line \<in> set (str_lines contents)")
    case True
    with assms(4) io show ?thesis by (simp add: append_locked_line_def)
  next
    case False
    obtain contents1 where c1: "contents1 =
        (if contents \<noteq> [] \<and> \<not> ends_with contents newline then contents @ [newline] else contents)"
      by blast
    have w: "\<And>c d c'. write_all io c d = (c', None) \<Longrightarrow> c' = c @ d"
      using assms(1) by (simp add: faithful_writes_def)
    have "contents' = contents1 @ line @ [newline]"
      using assms(4) io False
      by (auto simp: append_locked_line_def c1 Let_def split: option.splits prod.splits if_splits
          dest!: w)
    moreover have "contents1 = [] \<or> ends_with contents1 newline"
      by (auto simp: c1 ends_with_def)
    ultimately show ?thesis
      using str_lines_append_line [OF assms(2,3)] by (auto simp: c1 split: if_splits)
  qed
  then show ?thesis using io by (simp add: append_locked_line_def)
qed

definition ideal_io :: policy_file_io where
  "ideal_io = \<lparr>create_dir_error = \<lambda>_. None, open_error = None,
     lock_error = None, seek_error = None, read_error = None,
     write_all = (\<lambda>c d. (c @ d, None)), json_string = (\<lambda>s. Some ([34] @ s @ [34]))\<rparr>"

lemma append_locked_line_idempotent_witness:
  "append_locked_line ideal_io (Some (lit ''a'' @ [10] @ lit ''b'' @ [10])) (lit ''p'') (lit ''b'') =
     (Inr (), Some (lit ''a'' @ [10] @ lit ''b'' @ [10]))"
proof -
  have "append_locked_line ideal_io (Some (lit ''a'')) (lit ''p'') (lit ''b'') =
      (Inr (), Some (lit ''a'' @ [10] @ lit ''b'' @ [10]))"
    by (simp add: append_locked_line_def ideal_io_def str_lines_def newline_def ends_with_def
        lit_def uc_def)
  from append_locked_line_idempotent [OF _ _ _ this] show ?thesis
    by (simp add: faithful_writes_def ideal_io_def newline_def ends_with_def lit_def uc_def)
qed

end
