(* ===== verification/SandboxPolicy.thy ===== *)
theory SandboxPolicy
  imports Paths
begin

text \<open>
  Sandbox settings (\<open>protocol/src/protocol.rs\<close>, \<open>models.rs\<close>, \<open>permissions.rs\<close>): the approval
  settings, the legacy sandbox policies with their readable and writable roots, and what of
  the file system they look at: whether a path is a file, a directory or a symbolic link,
  its canonical form, the contents of a git pointer file, and \<open>TMPDIR\<close>. Those answers are a
  record of functions, fixed while a policy is evaluated. The build is a Unix one.
\<close>

section \<open>Approval settings\<close>

record granular_approval_config =
  sandbox_approval :: bool
  rules_approval :: bool
  skill_approval :: bool
  request_permissions :: bool
  mcp_elicitations :: bool

datatype ask_for_approval =
  UnlessTrusted | OnFailure | OnRequest | Granular granular_approval_config | Never

datatype network_access = NetworkRestricted | NetworkEnabled

datatype read_only_access = RestrictedReads bool "ustring list" | FullAccess

datatype sandbox_policy =
    DangerFullAccess
  | ReadOnly read_only_access bool
  | ExternalSandboxPolicy network_access
  | WorkspaceWrite "ustring list" read_only_access bool bool bool

datatype sandbox_permissions = UseDefault | RequireEscalated | WithAdditionalPermissions

definition requests_sandbox_override :: "sandbox_permissions \<Rightarrow> bool" where
  "requests_sandbox_override s = (s \<noteq> UseDefault)"

datatype file_system_sandbox_kind = Restricted | Unrestricted | ExternalSandbox

section \<open>What is read of the file system\<close>

record fs_view =
  view_paths :: path_env
  tmpdir_var :: "ustring option"
  path_is_file :: "ustring \<Rightarrow> bool"
  path_is_dir :: "ustring \<Rightarrow> bool"
  path_exists :: "ustring \<Rightarrow> bool"
  read_to_string :: "ustring \<Rightarrow> ustring option"
  is_symlink :: "ustring \<Rightarrow> bool option"
  canonical_path :: "ustring \<Rightarrow> ustring option"

text \<open>\<open>Path::starts_with\<close>, \<open>strip_prefix\<close> and \<open>ancestors\<close> (of an absolute path).\<close>

definition path_starts_with :: "ustring \<Rightarrow> ustring \<Rightarrow> bool" where
  "path_starts_with p base = prefix (path_components base) (path_components p)"

definition path_strip_prefix :: "ustring \<Rightarrow> ustring \<Rightarrow> ustring option" where
  "path_strip_prefix p base =
     (if path_starts_with p base
      then Some (render_components (drop (length (path_components base)) (path_components p)))
      else None)"

definition path_ancestors :: "ustring \<Rightarrow> ustring list" where
  "path_ancestors p = map render_components (rev (tl (prefixes (path_components p))))"

definition abs_join :: "fs_view \<Rightarrow> ustring \<Rightarrow> ustring \<Rightarrow> ustring" where
  "abs_join v base p = resolve_path_against_base (view_paths v) p base"

definition should_preserve_logical_path :: "fs_view \<Rightarrow> ustring \<Rightarrow> bool" where
  "should_preserve_logical_path v logical =
     list_ex (\<lambda>ancestor. is_symlink v ancestor = Some True
                \<and> Option.bind (abs_parent ancestor) abs_parent \<noteq> None) (path_ancestors logical)"

definition canonicalize_preserving_symlinks :: "fs_view \<Rightarrow> ustring \<Rightarrow> ustring option" where
  "canonicalize_preserving_symlinks v p =
     map_option (\<lambda>logical.
       (case canonical_path v p of
          Some canonical \<Rightarrow>
            if should_preserve_logical_path v logical \<and> canonical \<noteq> logical then logical else canonical
        | None \<Rightarrow> logical)) (from_absolute_path (view_paths v) p)"

definition canonicalize_existing_preserving_symlinks :: "fs_view \<Rightarrow> ustring \<Rightarrow> ustring option" where
  "canonicalize_existing_preserving_symlinks v p =
     Option.bind (from_absolute_path (view_paths v) p) (\<lambda>logical.
       map_option (\<lambda>canonical.
         if should_preserve_logical_path v logical \<and> canonical \<noteq> logical then logical else canonical)
         (canonical_path v p))"

section \<open>Protected paths under a writable root\<close>

definition dedup_paths :: "ustring list \<Rightarrow> ustring list" where
  "dedup_paths paths = foldl (\<lambda>seen p. if p \<in> set seen then seen else seen @ [p]) [] paths"

definition is_git_pointer_file :: "fs_view \<Rightarrow> ustring \<Rightarrow> bool" where
  "is_git_pointer_file v p = (path_is_file v p \<and> path_file_name p = Some (lit ''.git''))"

definition resolve_gitdir_from_file :: "fs_view \<Rightarrow> ustring \<Rightarrow> ustring option" where
  "resolve_gitdir_from_file v dot_git =
     (case read_to_string v dot_git of
        None \<Rightarrow> None
      | Some contents \<Rightarrow>
          (case split_once 58 (trim contents) of
             None \<Rightarrow> None
           | Some (_, gitdir_raw) \<Rightarrow>
               (let gitdir_raw = trim gitdir_raw
                in if gitdir_raw = [] then None
                   else (case abs_parent dot_git of
                           None \<Rightarrow> None
                         | Some base \<Rightarrow>
                             (let gitdir_path = resolve_path_against_base (view_paths v) gitdir_raw base
                              in if path_exists v gitdir_path then Some gitdir_path else None)))))"

definition default_read_only_subpaths_for_writable_root :: "fs_view \<Rightarrow> ustring \<Rightarrow> bool \<Rightarrow> ustring list" where
  "default_read_only_subpaths_for_writable_root v writable_root protect_missing_dot_codex =
     (let top_level_git = abs_join v writable_root (lit ''.git'');
          git_is_file = path_is_file v top_level_git;
          git_is_dir = path_is_dir v top_level_git;
          git_paths =
            (if git_is_dir \<or> git_is_file then
               (if git_is_file \<and> is_git_pointer_file v top_level_git
                then (case resolve_gitdir_from_file v top_level_git of
                        Some gitdir \<Rightarrow> [gitdir] | None \<Rightarrow> [])
                else []) @ [top_level_git]
             else []);
          top_level_agents = abs_join v writable_root (lit ''.agents'');
          agents_paths = (if path_is_dir v top_level_agents then [top_level_agents] else []);
          top_level_codex = abs_join v writable_root (lit ''.codex'');
          codex_paths = (if protect_missing_dot_codex \<or> path_is_dir v top_level_codex
                         then [top_level_codex] else [])
      in dedup_paths (git_paths @ agents_paths @ codex_paths))"

section \<open>The legacy policies\<close>

definition network_is_enabled :: "network_access \<Rightarrow> bool" where
  "network_is_enabled n = (n = NetworkEnabled)"

definition reads_full_disk :: "read_only_access \<Rightarrow> bool" where
  "reads_full_disk a = (a = FullAccess)"

fun reads_platform_defaults :: "read_only_access \<Rightarrow> bool" where
  "reads_platform_defaults (RestrictedReads include_platform_defaults _) = include_platform_defaults"
| "reads_platform_defaults FullAccess = False"

fun access_readable_roots :: "fs_view \<Rightarrow> ustring \<Rightarrow> read_only_access \<Rightarrow> ustring list" where
  "access_readable_roots v cwd FullAccess = []"
| "access_readable_roots v cwd (RestrictedReads _ readable_roots) =
     dedup_paths (readable_roots @ (case from_absolute_path (view_paths v) cwd of
                                      Some cwd_root \<Rightarrow> [cwd_root] | None \<Rightarrow> []))"

definition new_read_only_policy :: sandbox_policy where
  "new_read_only_policy = ReadOnly FullAccess False"

definition new_workspace_write_policy :: sandbox_policy where
  "new_workspace_write_policy = WorkspaceWrite [] FullAccess False False False"

fun policy_full_disk_read :: "sandbox_policy \<Rightarrow> bool" where
  "policy_full_disk_read DangerFullAccess = True"
| "policy_full_disk_read (ExternalSandboxPolicy _) = True"
| "policy_full_disk_read (ReadOnly access _) = reads_full_disk access"
| "policy_full_disk_read (WorkspaceWrite _ read_only_access _ _ _) = reads_full_disk read_only_access"

fun policy_full_disk_write :: "sandbox_policy \<Rightarrow> bool" where
  "policy_full_disk_write DangerFullAccess = True"
| "policy_full_disk_write (ExternalSandboxPolicy _) = True"
| "policy_full_disk_write (ReadOnly _ _) = False"
| "policy_full_disk_write (WorkspaceWrite _ _ _ _ _) = False"

fun policy_full_network :: "sandbox_policy \<Rightarrow> bool" where
  "policy_full_network DangerFullAccess = True"
| "policy_full_network (ExternalSandboxPolicy network_access) = network_is_enabled network_access"
| "policy_full_network (ReadOnly _ network_access) = network_access"
| "policy_full_network (WorkspaceWrite _ _ network_access _ _) = network_access"

definition policy_platform_defaults :: "sandbox_policy \<Rightarrow> bool" where
  "policy_platform_defaults p =
     (\<not> policy_full_disk_read p \<and>
      (case p of ReadOnly access _ \<Rightarrow> reads_platform_defaults access
       | WorkspaceWrite _ read_only_access _ _ _ \<Rightarrow> reads_platform_defaults read_only_access
       | _ \<Rightarrow> False))"

record writable_root =
  root_path :: ustring
  read_only_subpaths :: "ustring list"

definition is_path_writable :: "writable_root \<Rightarrow> ustring \<Rightarrow> bool" where
  "is_path_writable r p =
     (path_starts_with p (root_path r) \<and> \<not> list_ex (path_starts_with p) (read_only_subpaths r))"

fun policy_writable_roots :: "fs_view \<Rightarrow> ustring \<Rightarrow> sandbox_policy \<Rightarrow> writable_root list" where
  "policy_writable_roots v cwd (WorkspaceWrite writable_roots _ _ exclude_tmpdir_env_var exclude_slash_tmp) =
     (let cwd_root = from_absolute_path (view_paths v) cwd;
          of_cwd = (case cwd_root of Some r \<Rightarrow> [r] | None \<Rightarrow> []);
          of_tmp = (if exclude_slash_tmp then []
                    else (case from_absolute_path (view_paths v) (lit ''/tmp'') of
                            Some slash_tmp \<Rightarrow> if path_is_dir v slash_tmp then [slash_tmp] else []
                          | None \<Rightarrow> []));
          of_tmpdir = (if exclude_tmpdir_env_var then []
                       else (case tmpdir_var v of
                               Some tmpdir \<Rightarrow>
                                 if tmpdir = [] then []
                                 else (case from_absolute_path (view_paths v) tmpdir of
                                         Some tmpdir_path \<Rightarrow> [tmpdir_path] | None \<Rightarrow> [])
                             | None \<Rightarrow> []))
      in map (\<lambda>r. \<lparr>root_path = r,
                    read_only_subpaths =
                      default_read_only_subpaths_for_writable_root v r (cwd_root = Some r)\<rparr>)
           (writable_roots @ of_cwd @ of_tmp @ of_tmpdir))"
| "policy_writable_roots v cwd _ = []"

definition policy_readable_roots :: "fs_view \<Rightarrow> ustring \<Rightarrow> sandbox_policy \<Rightarrow> ustring list" where
  "policy_readable_roots v cwd p =
     dedup_paths
       (case p of
          ReadOnly access _ \<Rightarrow> access_readable_roots v cwd access
        | WorkspaceWrite _ read_only_access _ _ _ \<Rightarrow>
            access_readable_roots v cwd read_only_access @ map root_path (policy_writable_roots v cwd p)
        | _ \<Rightarrow> [])"

end
