(* ===== verification/ExecApproval.thy ===== *)
theory ExecApproval
  imports ExecPolicy ExecAmend CommandSafety SandboxPolicy
begin

text \<open>
  The approval requirement of a shell command (\<open>core/src/exec_policy.rs\<close>): the commands a
  shell call stands for are evaluated against the exec policy, with the safelist and the
  sandbox settings as the fallback for commands no rule matches, and the decision becomes
  a requirement to skip, to ask for, or to refuse approval (\<open>core/src/tools/sandboxing.rs\<close>).
  The build is a Unix one.
\<close>

section \<open>Requirements\<close>

datatype exec_approval_requirement =
    Skip bool "ustring list option"
  | NeedsApproval "ustring option" "ustring list option"
  | ForbiddenRequirement ustring

fun proposed_execpolicy_amendment :: "exec_approval_requirement \<Rightarrow> ustring list option" where
  "proposed_execpolicy_amendment (NeedsApproval _ amendment) = amendment"
| "proposed_execpolicy_amendment (Skip _ amendment) = amendment"
| "proposed_execpolicy_amendment (ForbiddenRequirement _) = None"

definition default_exec_approval_requirement ::
  "ask_for_approval \<Rightarrow> file_system_sandbox_kind \<Rightarrow> exec_approval_requirement" where
  "default_exec_approval_requirement approval fs_kind =
     (let needs_approval =
        (case approval of
           Never \<Rightarrow> False | OnFailure \<Rightarrow> False
         | OnRequest \<Rightarrow> fs_kind = Restricted | Granular _ \<Rightarrow> fs_kind = Restricted
         | UnlessTrusted \<Rightarrow> True)
      in if needs_approval \<and> (case approval of Granular g \<Rightarrow> \<not> sandbox_approval g | _ \<Rightarrow> False)
         then ForbiddenRequirement (lit ''approval policy disallowed sandbox approval prompt'')
         else if needs_approval then NeedsApproval None None
         else Skip False None)"

section \<open>Prompts the settings refuse\<close>

definition PROMPT_CONFLICT_REASON :: ustring where
  "PROMPT_CONFLICT_REASON = lit ''approval required by policy, but AskForApproval is set to Never''"

definition REJECT_SANDBOX_APPROVAL_REASON :: ustring where
  "REJECT_SANDBOX_APPROVAL_REASON =
     lit ''approval required by policy, but AskForApproval::Granular.sandbox_approval is false''"

definition REJECT_RULES_APPROVAL_REASON :: ustring where
  "REJECT_RULES_APPROVAL_REASON =
     lit ''approval required by policy rule, but AskForApproval::Granular.rules is false''"

definition prompt_is_rejected_by_policy :: "ask_for_approval \<Rightarrow> bool \<Rightarrow> ustring option" where
  "prompt_is_rejected_by_policy approval prompt_is_rule =
     (case approval of
        Never \<Rightarrow> Some PROMPT_CONFLICT_REASON
      | OnFailure \<Rightarrow> None
      | OnRequest \<Rightarrow> None
      | UnlessTrusted \<Rightarrow> None
      | Granular g \<Rightarrow>
          (if prompt_is_rule then
             (if \<not> rules_approval g then Some REJECT_RULES_APPROVAL_REASON else None)
           else if \<not> sandbox_approval g then Some REJECT_SANDBOX_APPROVAL_REASON
           else None))"

section \<open>Commands no rule matches\<close>

definition render_decision_for_unmatched_command ::
  "command_parsers \<Rightarrow> ask_for_approval \<Rightarrow> sandbox_policy \<Rightarrow> file_system_sandbox_kind
   \<Rightarrow> ustring list \<Rightarrow> sandbox_permissions \<Rightarrow> bool \<Rightarrow> decision" where
  "render_decision_for_unmatched_command env approval sandbox fs_kind command permissions
      used_complex_parsing =
     (if is_known_safe_command env command \<and> \<not> used_complex_parsing then Allow
      else if command_might_be_dangerous (shell_tree env) command then
        (case approval of
           Never \<Rightarrow>
             (case sandbox of
                DangerFullAccess \<Rightarrow> Allow
              | ExternalSandboxPolicy _ \<Rightarrow> Allow
              | _ \<Rightarrow> Forbidden)
         | _ \<Rightarrow> Prompt)
      else
        (case approval of
           Never \<Rightarrow> Allow
         | OnFailure \<Rightarrow> Allow
         | UnlessTrusted \<Rightarrow> Prompt
         | OnRequest \<Rightarrow>
             (if fs_kind = Restricted then
                (if requests_sandbox_override permissions then Prompt else Allow)
              else Allow)
         | Granular _ \<Rightarrow>
             (if fs_kind = Restricted then
                (if requests_sandbox_override permissions then Prompt else Allow)
              else Allow)))"

definition commands_for_exec_policy ::
  "(ustring \<Rightarrow> ts_node option) \<Rightarrow> ustring list \<Rightarrow> ustring list list \<times> bool" where
  "commands_for_exec_policy tree command =
     (case parse_shell_lc_plain_commands tree command of
        Some (c # cs) \<Rightarrow> (c # cs, False)
      | _ \<Rightarrow>
          (case parse_shell_lc_single_command_prefix tree command of
             Some single_command \<Rightarrow> ([single_command], True)
           | None \<Rightarrow> ([command], False)))"

section \<open>Amendments\<close>

definition try_derive_execpolicy_amendment_for_prompt_rules ::
  "rule_match list \<Rightarrow> ustring list option" where
  "try_derive_execpolicy_amendment_for_prompt_rules ms =
     (if list_ex (\<lambda>m. is_policy_match m \<and> match_decision m = Prompt) ms then None
      else find_map (\<lambda>m. case m of HeuristicsRuleMatch command Prompt \<Rightarrow> Some command | _ \<Rightarrow> None) ms)"

definition try_derive_execpolicy_amendment_for_allow_rules ::
  "rule_match list \<Rightarrow> ustring list option" where
  "try_derive_execpolicy_amendment_for_allow_rules ms =
     (if list_ex is_policy_match ms then None
      else find_map (\<lambda>m. case m of HeuristicsRuleMatch command Allow \<Rightarrow> Some command | _ \<Rightarrow> None) ms)"

definition BANNED_PREFIX_SUGGESTIONS :: "ustring list list" where
  "BANNED_PREFIX_SUGGESTIONS = map (map lit)
     [[''python3''], [''python3'', ''-''], [''python3'', ''-c''],
      [''python''], [''python'', ''-''], [''python'', ''-c''],
      [''py''], [''py'', ''-3''], [''pythonw''], [''pyw''], [''pypy''], [''pypy3''],
      [''git''], [''bash''], [''bash'', ''-lc''],
      [''sh''], [''sh'', ''-c''], [''sh'', ''-lc''],
      [''zsh''], [''zsh'', ''-lc''], [''/bin/zsh''], [''/bin/zsh'', ''-lc''],
      [''/bin/bash''], [''/bin/bash'', ''-lc''],
      [''pwsh''], [''pwsh'', ''-Command''], [''pwsh'', ''-c''],
      [''powershell''], [''powershell'', ''-Command''], [''powershell'', ''-c''],
      [''powershell.exe''], [''powershell.exe'', ''-Command''], [''powershell.exe'', ''-c''],
      [''env''], [''sudo''], [''node''], [''node'', ''-e''], [''perl''], [''perl'', ''-e''],
      [''ruby''], [''ruby'', ''-e''], [''php''], [''php'', ''-r''],
      [''lua''], [''lua'', ''-e''], [''osascript'']]"

definition prefix_rule_would_approve_all_commands ::
  "path_env \<Rightarrow> policy \<Rightarrow> ustring list \<Rightarrow> ustring list list \<Rightarrow> (ustring list \<Rightarrow> decision)
   \<Rightarrow> match_options \<Rightarrow> bool" where
  "prefix_rule_would_approve_all_commands env exec_policy rule commands fallback opts =
     (case add_prefix_rule rule Allow exec_policy of
        Inl _ \<Rightarrow> False
      | Inr policy_with_prefix_rule \<Rightarrow>
          list_all (\<lambda>command.
            map_option eval_decision
              (check_with_options env policy_with_prefix_rule command fallback opts) = Some Allow)
            commands)"

definition derive_requested_execpolicy_amendment_from_prefix_rule ::
  "path_env \<Rightarrow> ustring list option \<Rightarrow> rule_match list \<Rightarrow> policy \<Rightarrow> ustring list list
   \<Rightarrow> (ustring list \<Rightarrow> decision) \<Rightarrow> match_options \<Rightarrow> ustring list option" where
  "derive_requested_execpolicy_amendment_from_prefix_rule env requested ms exec_policy commands
      fallback opts =
     (case requested of
        None \<Rightarrow> None
      | Some rule \<Rightarrow>
          if rule = [] then None
          else if rule \<in> set BANNED_PREFIX_SUGGESTIONS then None
          else if list_ex is_policy_match ms then None
          else if prefix_rule_would_approve_all_commands env exec_policy rule commands fallback opts
          then Some rule
          else None)"

section \<open>Reasons\<close>

text \<open>\<open>Iterator::max_by_key\<close>: the last of the greatest elements.\<close>

fun max_by_key :: "('a \<Rightarrow> nat) \<Rightarrow> 'a list \<Rightarrow> 'a option" where
  "max_by_key key [] = None"
| "max_by_key key (x # xs) =
     (case max_by_key key xs of
        None \<Rightarrow> Some x
      | Some y \<Rightarrow> if key y < key x then Some x else Some y)"

definition render_shlex_command :: "(ustring list \<Rightarrow> ustring option) \<Rightarrow> ustring list \<Rightarrow> ustring" where
  "render_shlex_command shlex_try_join args =
     (case shlex_try_join args of None \<Rightarrow> join_with (lit '' '') args | Some s \<Rightarrow> s)"

definition backquoted :: "ustring \<Rightarrow> ustring" where
  "backquoted s = lit [CHR 0x60] @ s @ lit [CHR 0x60]"

fun policy_reason_of :: "decision \<Rightarrow> rule_match \<Rightarrow> (ustring list \<times> ustring option) option" where
  "policy_reason_of d (PrefixRuleMatch pre d' _ justification) =
     (if d' = d then Some (pre, justification) else None)"
| "policy_reason_of d (HeuristicsRuleMatch _ _) = None"

definition most_specific :: "decision \<Rightarrow> rule_match list \<Rightarrow> (ustring list \<times> ustring option) option" where
  "most_specific d ms = max_by_key (\<lambda>(matched, _). length matched) (List.map_filter (policy_reason_of d) ms)"

definition derive_prompt_reason ::
  "(ustring list \<Rightarrow> ustring option) \<Rightarrow> ustring list \<Rightarrow> evaluation \<Rightarrow> ustring option" where
  "derive_prompt_reason shlex_try_join command_args e =
     (let command = render_shlex_command shlex_try_join command_args in
      case most_specific Prompt (matched_rules e) of
        Some (_, Some justification) \<Rightarrow>
          Some (backquoted command @ lit '' requires approval: '' @ justification)
      | Some (_, None) \<Rightarrow> Some (backquoted command @ lit '' requires approval by policy'')
      | None \<Rightarrow> None)"

definition derive_forbidden_reason ::
  "(ustring list \<Rightarrow> ustring option) \<Rightarrow> ustring list \<Rightarrow> evaluation \<Rightarrow> ustring" where
  "derive_forbidden_reason shlex_try_join command_args e =
     (let command = render_shlex_command shlex_try_join command_args in
      case most_specific Forbidden (matched_rules e) of
        Some (_, Some justification) \<Rightarrow> backquoted command @ lit '' rejected: '' @ justification
      | Some (pre, None) \<Rightarrow>
          backquoted command @ lit '' rejected: policy forbids commands starting with ''
            @ backquoted (render_shlex_command shlex_try_join pre)
      | None \<Rightarrow> backquoted command @ lit '' rejected: blocked by policy'')"

section \<open>The requirement\<close>

text \<open>What the manager's environment supplies, and one request.\<close>

record approval_env =
  paths_of :: path_env
  parsers_of :: command_parsers
  shlex_join_of :: "ustring list \<Rightarrow> ustring option"

record exec_approval_request =
  req_command :: "ustring list"
  req_approval_policy :: ask_for_approval
  req_sandbox_policy :: sandbox_policy
  req_fs_kind :: file_system_sandbox_kind
  req_sandbox_permissions :: sandbox_permissions
  req_prefix_rule :: "ustring list option"

definition host_match_options :: match_options where
  "host_match_options = \<lparr>resolve_host_executables = True\<rparr>"

definition exec_policy_fallback ::
  "approval_env \<Rightarrow> exec_approval_request \<Rightarrow> bool \<Rightarrow> ustring list \<Rightarrow> decision" where
  "exec_policy_fallback env req used_complex_parsing cmd =
     render_decision_for_unmatched_command (parsers_of env) (req_approval_policy req)
       (req_sandbox_policy req) (req_fs_kind req) cmd (req_sandbox_permissions req)
       used_complex_parsing"

text \<open>\<open>None\<close> is the panic of an evaluation without commands.\<close>

definition create_exec_approval_requirement_for_command ::
  "approval_env \<Rightarrow> policy \<Rightarrow> exec_approval_request \<Rightarrow> exec_approval_requirement option" where
  "create_exec_approval_requirement_for_command env exec_policy req =
     (let (commands, used_complex_parsing) =
            commands_for_exec_policy (shell_tree (parsers_of env)) (req_command req);
          auto_amendment_allowed = \<not> used_complex_parsing;
          fallback = exec_policy_fallback env req used_complex_parsing
      in case check_multiple_with_options (paths_of env) exec_policy commands fallback
                host_match_options of
           None \<Rightarrow> None
         | Some evaluation \<Rightarrow>
             (let ms = matched_rules evaluation;
                  requested_amendment =
                    derive_requested_execpolicy_amendment_from_prefix_rule (paths_of env)
                      (req_prefix_rule req) ms exec_policy commands fallback host_match_options
              in case eval_decision evaluation of
                   Forbidden \<Rightarrow>
                     Some (ForbiddenRequirement
                       (derive_forbidden_reason (shlex_join_of env) (req_command req) evaluation))
                 | Prompt \<Rightarrow>
                     (let prompt_is_rule =
                        list_ex (\<lambda>m. is_policy_match m \<and> match_decision m = Prompt) ms
                      in case prompt_is_rejected_by_policy (req_approval_policy req) prompt_is_rule of
                           Some reason \<Rightarrow> Some (ForbiddenRequirement reason)
                         | None \<Rightarrow>
                             Some (NeedsApproval
                               (derive_prompt_reason (shlex_join_of env) (req_command req) evaluation)
                               (case requested_amendment of
                                  Some amendment \<Rightarrow> Some amendment
                                | None \<Rightarrow>
                                    if auto_amendment_allowed
                                    then try_derive_execpolicy_amendment_for_prompt_rules ms
                                    else None)))
                 | Allow \<Rightarrow>
                     Some (Skip
                       (list_all (\<lambda>command.
                          list_ex (\<lambda>m. is_policy_match m \<and> match_decision m = Allow)
                            (matches_for_command_with_options (paths_of env) exec_policy command
                               None host_match_options)) commands)
                       (if auto_amendment_allowed
                        then try_derive_execpolicy_amendment_for_allow_rules ms
                        else None))))"

section \<open>The manager's updates\<close>

text \<open>
  The manager keeps the current policy; an update writes the policy file first and then
  stores the updated policy. The update lock makes each update one step.
\<close>

datatype exec_policy_update_error =
    AppendRule ustring amend_error
  | AddRule policy_error
  | EvaluationPanic

definition default_policy_path :: "ustring \<Rightarrow> ustring" where
  "default_policy_path codex_home = path_join (path_join codex_home (lit ''rules'')) (lit ''default.rules'')"

type_synonym manager_state = "policy \<times> file_contents"

definition append_amendment_and_update ::
  "path_env \<Rightarrow> policy_file_io \<Rightarrow> ustring \<Rightarrow> ustring list \<Rightarrow> manager_state
   \<Rightarrow> (exec_policy_update_error + unit) \<times> manager_state" where
  "append_amendment_and_update env io codex_home amendment st =
     (let (current_policy, file) = st;
          policy_path = default_policy_path codex_home;
          (appended, file') = blocking_append_allow_prefix_rule io file policy_path amendment
      in case appended of
           Inl source \<Rightarrow> (Inl (AppendRule policy_path source), (current_policy, file'))
         | Inr _ \<Rightarrow>
             (case check_multiple_with_options env current_policy [amendment] (\<lambda>_. Forbidden)
                     host_match_options of
                None \<Rightarrow> (Inl EvaluationPanic, (current_policy, file'))
              | Some existing_evaluation \<Rightarrow>
                  if eval_decision existing_evaluation = Allow
                     \<and> list_ex (\<lambda>m. is_policy_match m \<and> match_decision m = Allow)
                         (matched_rules existing_evaluation)
                  then (Inr (), (current_policy, file'))
                  else
                    (case add_prefix_rule amendment Allow current_policy of
                       Inl e \<Rightarrow> (Inl (AddRule e), (current_policy, file'))
                     | Inr updated_policy \<Rightarrow> (Inr (), (updated_policy, file')))))"

definition append_network_rule_and_update ::
  "policy_file_io \<Rightarrow> ustring \<Rightarrow> ustring \<Rightarrow> network_protocol \<Rightarrow> decision \<Rightarrow> ustring option
   \<Rightarrow> manager_state \<Rightarrow> (exec_policy_update_error + unit) \<times> manager_state" where
  "append_network_rule_and_update io codex_home host protocol d justification st =
     (let (current_policy, file) = st;
          policy_path = default_policy_path codex_home;
          (appended, file') =
            blocking_append_network_rule io file policy_path host protocol d justification
      in case appended of
           Inl source \<Rightarrow> (Inl (AppendRule policy_path source), (current_policy, file'))
         | Inr _ \<Rightarrow>
             (case add_network_rule host protocol d justification current_policy of
                Inl e \<Rightarrow> (Inl (AddRule e), (current_policy, file'))
              | Inr updated_policy \<Rightarrow> (Inr (), (updated_policy, file'))))"

section \<open>What the requirement means\<close>

abbreviation req_commands :: "approval_env \<Rightarrow> exec_approval_request \<Rightarrow> ustring list list" where
  "req_commands env req \<equiv> fst (commands_for_exec_policy (shell_tree (parsers_of env)) (req_command req))"

abbreviation req_complex :: "approval_env \<Rightarrow> exec_approval_request \<Rightarrow> bool" where
  "req_complex env req \<equiv> snd (commands_for_exec_policy (shell_tree (parsers_of env)) (req_command req))"

abbreviation req_matches ::
  "approval_env \<Rightarrow> policy \<Rightarrow> exec_approval_request \<Rightarrow> ustring list \<Rightarrow> rule_match list" where
  "req_matches env pol req cmd \<equiv> matches_for_command_with_options (paths_of env) pol cmd
     (Some (exec_policy_fallback env req (req_complex env req))) host_match_options"

abbreviation req_rules :: "approval_env \<Rightarrow> policy \<Rightarrow> ustring list \<Rightarrow> rule_match list" where
  "req_rules env pol cmd \<equiv> matched_policy_rules (paths_of env) pol cmd host_match_options"

lemma commands_nonempty [simp]: "fst (commands_for_exec_policy tree command) \<noteq> []"
  by (auto simp: commands_for_exec_policy_def split: option.splits list.splits)

definition req_evaluation :: "approval_env \<Rightarrow> policy \<Rightarrow> exec_approval_request \<Rightarrow> evaluation" where
  "req_evaluation env pol req = (let ms = concat (map (req_matches env pol req) (req_commands env req))
     in \<lparr>eval_decision = Max (match_decision ` set ms), matched_rules = ms\<rparr>)"

lemma req_evaluation_eq:
  "check_multiple_with_options (paths_of env) pol (req_commands env req)
     (exec_policy_fallback env req (req_complex env req)) host_match_options
   = Some (req_evaluation env pol req)"
proof -
  have "concat (map (req_matches env pol req) (req_commands env req)) \<noteq> []"
    using commands_nonempty [of "shell_tree (parsers_of env)" "req_command req"]
    by (cases "req_commands env req") auto
  then show ?thesis
    by (simp add: check_multiple_with_options_def from_matches_nonempty req_evaluation_def Let_def)
qed

lemma req_matched_rules:
  "set (matched_rules (req_evaluation env pol req)) =
     (\<Union>cmd \<in> set (req_commands env req). set (req_matches env pol req cmd))"
  by (simp add: req_evaluation_def Let_def)

lemma req_decision_max:
  "eval_decision (req_evaluation env pol req) =
     Max (\<Union>cmd \<in> set (req_commands env req). match_decision ` set (req_matches env pol req cmd))"
  by (simp add: req_evaluation_def Let_def image_UN)

lemma req_decision_ge:
  assumes "cmd \<in> set (req_commands env req)" and "m \<in> set (req_matches env pol req cmd)"
  shows "match_decision m \<le> eval_decision (req_evaluation env pol req)"
  unfolding req_decision_max using assms by (intro Max_ge) auto

lemma req_decision_in:
  "\<exists>cmd \<in> set (req_commands env req). \<exists>m \<in> set (req_matches env pol req cmd).
     match_decision m = eval_decision (req_evaluation env pol req)"
proof -
  let ?A = "\<Union>cmd \<in> set (req_commands env req). match_decision ` set (req_matches env pol req cmd)"
  have "?A \<noteq> {}"
    using commands_nonempty [of "shell_tree (parsers_of env)" "req_command req"]
    by (cases "req_commands env req") auto
  then have "Max ?A \<in> ?A" by (intro Max_in) auto
  then obtain cmd where cmd: "cmd \<in> set (req_commands env req)"
    and "Max ?A \<in> match_decision ` set (req_matches env pol req cmd)" by (rule UN_E)
  then obtain m where "Max ?A = match_decision m" "m \<in> set (req_matches env pol req cmd)"
    by (elim imageE)
  then show ?thesis unfolding req_decision_max
    by (intro bexI [OF _ cmd] bexI [of _ m]) simp_all
qed

lemma create_unfold:
  "create_exec_approval_requirement_for_command env pol req =
     (let e = req_evaluation env pol req; ms = matched_rules e;
          requested = derive_requested_execpolicy_amendment_from_prefix_rule (paths_of env)
             (req_prefix_rule req) ms pol (req_commands env req)
             (exec_policy_fallback env req (req_complex env req)) host_match_options;
          prompt_is_rule = list_ex (\<lambda>m. is_policy_match m \<and> match_decision m = Prompt) ms
      in case eval_decision e of
           Forbidden \<Rightarrow> Some (ForbiddenRequirement
             (derive_forbidden_reason (shlex_join_of env) (req_command req) e))
         | Prompt \<Rightarrow> (case prompt_is_rejected_by_policy (req_approval_policy req) prompt_is_rule of
             Some reason \<Rightarrow> Some (ForbiddenRequirement reason)
           | None \<Rightarrow> Some (NeedsApproval
               (derive_prompt_reason (shlex_join_of env) (req_command req) e)
               (case requested of Some a \<Rightarrow> Some a
                | None \<Rightarrow> if \<not> req_complex env req
                    then try_derive_execpolicy_amendment_for_prompt_rules ms else None)))
         | Allow \<Rightarrow> Some (Skip
             (list_all (\<lambda>cmd. list_ex (\<lambda>m. is_policy_match m \<and> match_decision m = Allow)
                (req_rules env pol cmd)) (req_commands env req))
             (if \<not> req_complex env req
              then try_derive_execpolicy_amendment_for_allow_rules ms else None)))"
proof -
  obtain cs b where c: "commands_for_exec_policy (shell_tree (parsers_of env)) (req_command req) = (cs, b)"
    by (cases "commands_for_exec_policy (shell_tree (parsers_of env)) (req_command req)")
  show ?thesis
    using req_evaluation_eq [of env pol req]
    unfolding create_exec_approval_requirement_for_command_def c
    by (simp add: Let_def cong: decision.case_cong)
qed

lemma req_matches_cases:
  "req_matches env pol req cmd =
     (if req_rules env pol cmd = []
      then [HeuristicsRuleMatch cmd (exec_policy_fallback env req (req_complex env req) cmd)]
      else req_rules env pol cmd)"
  by (rule matches_fallback_cases)

lemma req_rules_policy: "m \<in> set (req_rules env pol cmd) \<Longrightarrow> is_policy_match m"
  by (rule matched_policy_rules_policy)

lemma create_allow:
  "create_exec_approval_requirement_for_command env pol req = Some (Skip bypass amendment) \<Longrightarrow>
   eval_decision (req_evaluation env pol req) = Allow \<and>
   bypass = list_all (\<lambda>cmd. list_ex (\<lambda>m. is_policy_match m \<and> match_decision m = Allow)
      (req_rules env pol cmd)) (req_commands env req)"
  by (auto simp: create_unfold Let_def split: decision.splits option.splits)

lemma allow_all_matches:
  assumes "eval_decision (req_evaluation env pol req) = Allow"
    and "cmd \<in> set (req_commands env req)" and "m \<in> set (req_matches env pol req cmd)"
  shows "match_decision m = Allow"
  using req_decision_ge [OF assms(2,3)] assms(1) by simp

text \<open>
  C1: A command is run without asking only when nothing that matches any of its segments is
  stricter than allow, and the sandbox is bypassed exactly when every segment is matched by
  a policy rule, so an unmatched segment always stays sandboxed.
\<close>

theorem skip_requires_every_segment_allowed:
  assumes "create_exec_approval_requirement_for_command env pol req = Some (Skip bypass amendment)"
  shows "list_all (\<lambda>cmd. list_all (\<lambda>m. match_decision m = Allow) (req_matches env pol req cmd))
           (req_commands env req) \<and>
         bypass = list_all (\<lambda>cmd. req_rules env pol cmd \<noteq> []) (req_commands env req)"
proof -
  note c = create_allow [OF assms]
  have all: "match_decision m = Allow"
    if "cmd \<in> set (req_commands env req)" "m \<in> set (req_matches env pol req cmd)" for cmd m
    using allow_all_matches [OF conjunct1 [OF c] that] .
  have "list_ex (\<lambda>m. is_policy_match m \<and> match_decision m = Allow) (req_rules env pol cmd)
      \<longleftrightarrow> req_rules env pol cmd \<noteq> []" if "cmd \<in> set (req_commands env req)" for cmd
  proof (cases "req_rules env pol cmd")
    case (Cons m ms)
    then have "m \<in> set (req_matches env pol req cmd)" by (simp add: req_matches_cases)
    with all that Cons req_rules_policy [of m env pol cmd] show ?thesis by simp
  qed simp
  then show ?thesis using all c by (auto simp: list_all_iff)
qed

definition sample_env :: approval_env where
  "sample_env = \<lparr>paths_of = \<lparr>home_dir = None, current_dir = None\<rparr>,
     parsers_of = \<lparr>powershell_ast = \<lambda>_ _. Failed, shell_tree = \<lambda>_. None, on_linux = True\<rparr>,
     shlex_join_of = \<lambda>_. None\<rparr>"

definition sample_request :: "string \<Rightarrow> ask_for_approval \<Rightarrow> exec_approval_request" where
  "sample_request prog approval = \<lparr>req_command = [lit prog], req_approval_policy = approval,
     req_sandbox_policy = ReadOnly FullAccess False, req_fs_kind = Restricted,
     req_sandbox_permissions = UseDefault, req_prefix_rule = None\<rparr>"

lemma sample_commands [simp]:
  "commands_for_exec_policy tree (req_command (sample_request prog approval)) = ([[lit prog]], False)"
  by (simp add: commands_for_exec_policy_def parse_shell_lc_plain_commands_def
      parse_shell_lc_single_command_prefix_def extract_bash_command_def sample_request_def)

lemma sample_request_fields [simp]:
  "req_approval_policy (sample_request prog approval) = approval"
  "req_prefix_rule (sample_request prog approval) = None"
  by (simp_all add: sample_request_def)

lemma sample_rules_empty [simp]: "matched_policy_rules pe policy_empty [lit prog] opts = []"
  by (simp add: matched_policy_rules_def match_exact_rules_def match_host_executable_rules_def
      policy_empty_def policy_new_def policy_from_parts_def mm_get_def split: option.splits)

lemma sample_evaluation:
  "req_evaluation sample_env policy_empty (sample_request prog approval) =
     (let d = exec_policy_fallback sample_env (sample_request prog approval) False [lit prog]
      in \<lparr>eval_decision = d, matched_rules = [HeuristicsRuleMatch [lit prog] d]\<rparr>)"
  by (simp add: req_evaluation_def matches_fallback_cases Let_def)

lemma sample_fallback_ls:
  "exec_policy_fallback sample_env (sample_request ''ls'' approval) False [lit ''ls''] = Allow"
proof -
  have "path_file_name (lit ''ls'') = Some (lit ''ls'')"
    by (simp add: path_file_name_def path_components_def is_absolute_def slash_def lit_def uc_def
        List.map_filter_def)
  then show ?thesis
    by (simp add: exec_policy_fallback_def render_decision_for_unmatched_command_def
        is_known_safe_command_def is_safe_to_call_with_exec_def executable_name_lookup_key_def
        always_safe_programs_def)
qed

lemma sample_create_ls:
  "create_exec_approval_requirement_for_command sample_env policy_empty (sample_request ''ls'' approval)
     = Some (Skip False (Some [lit ''ls'']))"
  by (simp add: create_unfold sample_evaluation sample_fallback_ls Let_def
      try_derive_execpolicy_amendment_for_allow_rules_def)

lemma skip_requires_every_segment_allowed_witness:
  "\<not> list_all (\<lambda>cmd. req_rules sample_env policy_empty cmd \<noteq> [])
     (req_commands sample_env (sample_request ''ls'' Never))"
  using skip_requires_every_segment_allowed [OF sample_create_ls [of Never]] by blast

text \<open>
  With approvals set to ask unless trusted, a command runs without asking only when each
  of its segments is allowed by policy rules or is known to be safe, and a segment read off
  a here-document never counts as known safe.
\<close>

theorem unless_trusted_skips_only_trusted:
  assumes "create_exec_approval_requirement_for_command env pol req = Some (Skip bypass amendment)"
    and "req_approval_policy req = UnlessTrusted"
  shows "list_all (\<lambda>cmd. req_rules env pol cmd \<noteq> [] \<or>
           is_known_safe_command (parsers_of env) cmd \<and> \<not> req_complex env req)
         (req_commands env req)"
proof -
  have "is_known_safe_command (parsers_of env) cmd \<and> \<not> req_complex env req"
    if "cmd \<in> set (req_commands env req)" "req_rules env pol cmd = []" for cmd
  proof -
    have "exec_policy_fallback env req (req_complex env req) cmd = Allow"
      using allow_all_matches [OF conjunct1 [OF create_allow [OF assms(1)]] that(1)] that(2)
      by (simp add: req_matches_cases)
    with assms(2) show ?thesis
      by (simp add: exec_policy_fallback_def render_decision_for_unmatched_command_def
          split: if_splits)
  qed
  then show ?thesis by (auto simp: list_all_iff)
qed

lemma unless_trusted_skips_only_trusted_witness:
  "is_known_safe_command (parsers_of sample_env) [lit ''ls'']"
  using unless_trusted_skips_only_trusted [OF sample_create_ls [of UnlessTrusted]]
  by (simp add: sample_request_def [of _ UnlessTrusted] del: sample_commands)
    (simp add: sample_request_def [symmetric] commands_for_exec_policy_def
      parse_shell_lc_plain_commands_def parse_shell_lc_single_command_prefix_def
      extract_bash_command_def)

text \<open>
  C2: A forbidding rule cannot be talked around: when any segment of the command matches a
  rule that forbids it, the requirement is to refuse, whatever the approval settings.
\<close>

theorem forbidden_rule_always_refuses:
  assumes "cmd \<in> set (req_commands env req)" and "m \<in> set (req_rules env pol cmd)"
    and "match_decision m = Forbidden"
  shows "create_exec_approval_requirement_for_command env pol req =
    Some (ForbiddenRequirement (derive_forbidden_reason (shlex_join_of env) (req_command req)
      (req_evaluation env pol req)))"
proof -
  have "m \<in> set (req_matches env pol req cmd)"
    using assms(2) by (auto simp: req_matches_cases)
  from req_decision_ge [OF assms(1) this] assms(3)
  have "eval_decision (req_evaluation env pol req) = Forbidden" by simp
  then show ?thesis by (simp add: create_unfold Let_def)
qed

lemma forbidden_rule_always_refuses_witness:
  "\<exists>r. create_exec_approval_requirement_for_command sample_env (one_rule_policy (lit ''git'') Forbidden)
     (sample_request ''git'' OnRequest) = Some (ForbiddenRequirement r)"
proof -
  obtain m where "m \<in> set (req_rules sample_env (one_rule_policy (lit ''git'') Forbidden) [lit ''git''])"
    "match_decision m = Forbidden"
    by (simp add: matched_policy_rules_def one_rule_exact)
  from forbidden_rule_always_refuses [OF _ this, of "sample_request ''git'' OnRequest"] show ?thesis
    by simp
qed

text \<open>
  Approval is asked for only when the settings let the prompt be shown: never under
  \<open>Never\<close>, and under a granular configuration only if the kind of prompt at hand, from a
  policy rule or from the sandbox, is enabled.
\<close>

theorem needs_approval_only_if_askable:
  assumes "create_exec_approval_requirement_for_command env pol req = Some (NeedsApproval reason amendment)"
  shows "req_approval_policy req \<noteq> Never \<and>
    (case req_approval_policy req of
       Granular g \<Rightarrow>
         (if \<exists>cmd \<in> set (req_commands env req). \<exists>m \<in> set (req_rules env pol cmd).
               match_decision m = Prompt
          then rules_approval g else sandbox_approval g)
     | _ \<Rightarrow> True)"
proof -
  let ?e = "req_evaluation env pol req"
  let ?rule = "list_ex (\<lambda>m. is_policy_match m \<and> match_decision m = Prompt) (matched_rules ?e)"
  have none: "prompt_is_rejected_by_policy (req_approval_policy req) ?rule = None"
    using assms by (auto simp: create_unfold Let_def split: decision.splits option.splits)
  have "?rule \<longleftrightarrow> (\<exists>cmd \<in> set (req_commands env req). \<exists>m \<in> set (req_rules env pol cmd).
      match_decision m = Prompt)"
    unfolding list_ex_iff req_matched_rules
  proof (safe, goal_cases)
    case (1 m cmd)
    then show ?case by (auto simp: req_matches_cases split: if_splits)
  next
    case (2 cmd m)
    then have "m \<in> set (req_matches env pol req cmd)" by (auto simp: req_matches_cases)
    with 2 show ?case using req_rules_policy [of m env pol cmd] by blast
  qed
  with none show ?thesis
    by (auto simp: prompt_is_rejected_by_policy_def split: ask_for_approval.splits if_splits)
qed

lemma sample_create_xx:
  "create_exec_approval_requirement_for_command sample_env policy_empty
     (sample_request ''xx'' UnlessTrusted) = Some (NeedsApproval None (Some [lit ''xx'']))"
proof -
  have "path_file_name (lit ''xx'') = Some (lit ''xx'')"
    by (simp add: path_file_name_def path_components_def is_absolute_def slash_def lit_def uc_def
        List.map_filter_def)
  then have "exec_policy_fallback sample_env (sample_request ''xx'' UnlessTrusted) False [lit ''xx''] = Prompt"
    by (simp add: exec_policy_fallback_def render_decision_for_unmatched_command_def
        is_known_safe_command_def is_safe_to_call_with_exec_def executable_name_lookup_key_def
        always_safe_programs_def is_safe_command_windows_def try_parse_powershell_command_sequence_def
        is_powershell_executable_def parse_shell_lc_plain_commands_def extract_bash_command_def
        command_might_be_dangerous_def sample_request_def sample_env_def to_ascii_lowercase_def
        to_ascii_lower_def lit_def uc_def)
  then show ?thesis
    by (simp add: create_unfold sample_evaluation Let_def prompt_is_rejected_by_policy_def
        derive_requested_execpolicy_amendment_from_prefix_rule_def
        try_derive_execpolicy_amendment_for_prompt_rules_def derive_prompt_reason_def most_specific_def
        List.map_filter_simps)
qed

lemma needs_approval_only_if_askable_witness:
  "req_approval_policy (sample_request ''xx'' UnlessTrusted) \<noteq> Never"
  using needs_approval_only_if_askable [OF sample_create_xx] by blast

lemma requested_amendment_cases:
  assumes "derive_requested_execpolicy_amendment_from_prefix_rule pe requested ms pol cmds f opts = Some rule"
  shows "rule \<noteq> [] \<and> rule \<notin> set BANNED_PREFIX_SUGGESTIONS \<and> requested = Some rule \<and>
    prefix_rule_would_approve_all_commands pe pol rule cmds f opts"
  using assms by (auto simp: derive_requested_execpolicy_amendment_from_prefix_rule_def
      split: option.splits if_splits)

text \<open>
  A prefix rule the model asks for is proposed to the user only if it settles the
  question: it is not empty, not one of the banned interpreters, and once it is added to
  the policy the same request is run without asking.
\<close>

theorem requested_amendment_settles_request:
  assumes "derive_requested_execpolicy_amendment_from_prefix_rule (paths_of env) (req_prefix_rule req)
      ms pol (req_commands env req) (exec_policy_fallback env req (req_complex env req))
      host_match_options = Some rule"
  shows "rule \<noteq> [] \<and> rule \<notin> set BANNED_PREFIX_SUGGESTIONS \<and>
    (\<exists>pol' bypass amendment. add_prefix_rule rule Allow pol = Inr pol' \<and>
       create_exec_approval_requirement_for_command env pol' req = Some (Skip bypass amendment))"
proof -
  note r = requested_amendment_cases [OF assms]
  then obtain pol' where pol': "add_prefix_rule rule Allow pol = Inr pol'"
    and all: "list_all (\<lambda>command. map_option eval_decision (check_with_options (paths_of env) pol'
        command (exec_policy_fallback env req (req_complex env req)) host_match_options) = Some Allow)
      (req_commands env req)"
    by (auto simp: prefix_rule_would_approve_all_commands_def split: sum.splits)
  have "match_decision m = Allow"
    if "cmd \<in> set (req_commands env req)" "m \<in> set (req_matches env pol' req cmd)" for cmd m
  proof -
    from all that(1) have "Max (match_decision ` set (req_matches env pol' req cmd)) = Allow"
      by (auto simp: list_all_iff check_with_options_def from_matches_nonempty)
    then show ?thesis using that(2) by (metis List.finite_set Max_ge finite_imageI imageI le_Allow_iff)
  qed
  then have "eval_decision (req_evaluation env pol' req) = Allow"
    using req_decision_in [of env req pol'] by auto
  then show ?thesis using r pol' by (simp add: create_unfold Let_def)
qed

lemma requested_amendment_settles_request_witness:
  "[lit ''xx''] \<notin> set BANNED_PREFIX_SUGGESTIONS"
proof -
  let ?req = "(sample_request ''xx'' UnlessTrusted)\<lparr>req_prefix_rule := Some [lit ''xx'']\<rparr>"
  have cmds: "commands_for_exec_policy tree (req_command ?req) = ([[lit ''xx'']], False)" for tree
    using sample_commands [of tree "''xx''" UnlessTrusted] by simp
  have pol: "add_prefix_rule [lit ''xx''] Allow policy_empty = Inr (one_rule_policy (lit ''xx'') Allow)"
    by (simp add: add_prefix_rule_def policy_empty_def one_rule_policy_def policy_new_def
        policy_from_parts_def)
  have banned: "[lit ''xx''] \<notin> set BANNED_PREFIX_SUGGESTIONS"
    by (simp add: BANNED_PREFIX_SUGGESTIONS_def)
  have "derive_requested_execpolicy_amendment_from_prefix_rule (paths_of sample_env) (req_prefix_rule ?req)
      [] policy_empty (req_commands sample_env ?req)
      (exec_policy_fallback sample_env ?req (req_complex sample_env ?req)) host_match_options
      = Some [lit ''xx'']"
    unfolding derive_requested_execpolicy_amendment_from_prefix_rule_def
      prefix_rule_would_approve_all_commands_def cmds
    using banned by (simp add: pol one_rule_check)
  from requested_amendment_settles_request [OF this] show ?thesis by blast
qed

lemma append_amendment_eq:
  assumes "blocking_append_allow_prefix_rule io file (default_policy_path home) amendment = (appended, file1)"
  shows "append_amendment_and_update env io home amendment (pol, file) =
    (case appended of
       Inl e \<Rightarrow> (Inl (AppendRule (default_policy_path home) e), (pol, file1))
     | Inr _ \<Rightarrow>
         if matched_policy_rules env pol amendment host_match_options \<noteq> []
            \<and> list_all (\<lambda>m. match_decision m = Allow) (matched_policy_rules env pol amendment host_match_options)
         then (Inr (), (pol, file1))
         else (case add_prefix_rule amendment Allow pol of
                 Inl e \<Rightarrow> (Inl (AddRule e), (pol, file1))
               | Inr updated_policy \<Rightarrow> (Inr (), (updated_policy, file1))))"
proof -
  let ?ms = "matches_for_command_with_options env pol amendment (Some (\<lambda>_. Forbidden)) host_match_options"
  let ?rules = "matched_policy_rules env pol amendment host_match_options"
  have chk: "check_multiple_with_options env pol [amendment] (\<lambda>_. Forbidden) host_match_options =
      Some \<lparr>eval_decision = Max (match_decision ` set ?ms), matched_rules = ?ms\<rparr>"
    by (simp add: check_multiple_with_options_def from_matches_nonempty)
  have max_allow: "Max (match_decision ` set ms) = Allow \<longleftrightarrow> list_all (\<lambda>m. match_decision m = Allow) ms"
    if "ms \<noteq> []" for ms
  proof -
    have "Max (match_decision ` set ms) \<le> Allow \<longleftrightarrow> (\<forall>m \<in> set ms. match_decision m \<le> Allow)"
      using that by (subst Max_le_iff) auto
    then show ?thesis by (simp add: list_all_iff)
  qed
  have cond: "(Max (match_decision ` set ?ms) = Allow
        \<and> list_ex (\<lambda>m. is_policy_match m \<and> match_decision m = Allow) ?ms) \<longleftrightarrow>
      (?rules \<noteq> [] \<and> list_all (\<lambda>m. match_decision m = Allow) ?rules)"
  proof (cases ?rules)
    case (Cons m ms)
    then have "?ms = ?rules" "is_policy_match m"
      using matched_policy_rules_policy [of m env pol amendment host_match_options]
      by (simp_all add: matches_fallback_cases)
    with Cons max_allow [of ?rules] show ?thesis by auto
  qed (simp add: matches_fallback_cases)
  show ?thesis
    unfolding append_amendment_and_update_def Let_def prod.case assms chk option.case
      evaluation.simps cond
    by (cases appended) simp_all
qed

text \<open>
  C8: Accepting an amendment is effective: when the update reports success, the policy the
  manager then holds has an allow rule that matches the amended command, and the old policy
  is kept whenever the update fails.
\<close>

theorem accepted_amendment_takes_effect:
  assumes "append_amendment_and_update env io home amendment (pol, file) = (res, (pol', file'))"
  shows "case res of
      Inr _ \<Rightarrow> \<exists>m \<in> set (matched_policy_rules env pol' amendment host_match_options).
                 match_decision m = Allow
    | Inl _ \<Rightarrow> pol' = pol"
proof -
  obtain appended file1 where app: "blocking_append_allow_prefix_rule io file (default_policy_path home)
      amendment = (appended, file1)" by fastforce
  note eq = assms [unfolded append_amendment_eq [OF app]]
  let ?rules = "matched_policy_rules env pol amendment host_match_options"
  show ?thesis
  proof (cases "(\<exists>e. appended = Inl e) \<or> ?rules \<noteq> [] \<and> list_all (\<lambda>m. match_decision m = Allow) ?rules")
    case True
    with eq show ?thesis by (cases ?rules) (auto split: sum.splits if_splits)
  next
    case False
    show ?thesis
    proof (cases "add_prefix_rule amendment Allow pol")
      case (Inl e)
      with False eq show ?thesis by (cases appended) auto
    next
      case add0: (Inr p1)
      with False eq have r: "res = Inr ()" and add: "add_prefix_rule amendment Allow pol = Inr pol'"
        by (cases appended; auto)+
    obtain first rest where am: "amendment = first # rest"
      using add by (cases amendment) (auto simp: add_prefix_rule_def)
    let ?r = "\<lparr>rule_pattern = \<lparr>pat_first = first, pat_rest = map Single rest\<rparr>,
       rule_decision = Allow, rule_justification = None\<rparr>"
    have in_rules: "?r \<in> set (mm_rules (rules_by_program pol') first)"
      using add by (auto simp: add_prefix_rule_def am mm_rules_insert)
    have zip: "list_all (\<lambda>(pt, tok). token_matches pt tok) (zip (map Single rest) rest)"
      by (induction rest) auto
    have "rule_matches ?r amendment = Some (PrefixRuleMatch amendment Allow None None)"
      using zip by (simp add: rule_matches_def matches_prefix_def am)
    with in_rules obtain ms where ms: "match_exact_rules pol' amendment = Some ms"
      "PrefixRuleMatch amendment Allow None None \<in> set ms"
      by (auto simp: exact_matches_eq am in_set_map_filter)
    then have "PrefixRuleMatch amendment Allow None None
        \<in> set (matched_policy_rules env pol' amendment host_match_options)"
      by (cases ms) (auto simp: matched_policy_rules_def)
    then show ?thesis using r by force
    qed
  qed
qed

lemma accepted_amendment_takes_effect_witness:
  "\<exists>m \<in> set (matched_policy_rules (paths_of sample_env) (one_rule_policy (lit ''xx'') Allow)
     [lit ''xx''] host_match_options). match_decision m = Allow"
proof -
  have "add_prefix_rule [lit ''xx''] Allow policy_empty = Inr (one_rule_policy (lit ''xx'') Allow)"
    by (simp add: add_prefix_rule_def policy_empty_def one_rule_policy_def policy_new_def
        policy_from_parts_def)
  moreover obtain file' where "blocking_append_allow_prefix_rule ideal_io None
      (default_policy_path (lit ''/h'')) [lit ''xx''] = (Inr (), file')"
    by (simp add: blocking_append_allow_prefix_rule_def ideal_io_def append_rule_line_def
        abs_parent_def default_policy_path_def path_join_def path_components_def is_absolute_def
        slash_def List.map_filter_def append_locked_line_def str_lines_def lit_def uc_def)
  ultimately have "append_amendment_and_update (paths_of sample_env) ideal_io (lit ''/h'') [lit ''xx'']
      (policy_empty, None) = (Inr (), (one_rule_policy (lit ''xx'') Allow, file'))"
    by (simp add: append_amendment_eq)
  from accepted_amendment_takes_effect [OF this] show ?thesis by simp
qed

end
