(* ===== verification/PatchParser.thy ===== *)
theory PatchParser
  imports Paths
begin

text \<open>
  The patch format (\<open>apply-patch/src/parser.rs\<close>): the text between the begin and end
  markers is a sequence of hunks that add, delete or update a file. The parser keeps the
  lines left and the number of lines each hunk takes, as the code does; errors are values
  with the line they are reported at. The lemmas show that it always progresses and never
  slices out of range, and that it inverts a printer for well-formed hunks.
\<close>

section \<open>Hunks\<close>

datatype parse_error = InvalidPatchError ustring | InvalidHunkError ustring nat

record update_file_chunk =
  change_context :: "ustring option"
  old_lines :: "ustring list"
  new_lines :: "ustring list"
  is_end_of_file :: bool

datatype hunk =
    AddFile ustring ustring
  | DeleteFile ustring
  | UpdateFile ustring "ustring option" "update_file_chunk list"

definition hunk_path :: "hunk \<Rightarrow> ustring" where
  "hunk_path h =
     (case h of
        AddFile p _ \<Rightarrow> p
      | DeleteFile p \<Rightarrow> p
      | UpdateFile p move_path _ \<Rightarrow> (case move_path of Some m \<Rightarrow> m | None \<Rightarrow> p))"

definition hunk_resolve_path :: "path_env \<Rightarrow> hunk \<Rightarrow> ustring \<Rightarrow> ustring" where
  "hunk_resolve_path env h cwd =
     (let path = (case h of UpdateFile p _ _ \<Rightarrow> p | _ \<Rightarrow> hunk_path h)
      in resolve_path_against_base env path cwd)"

definition BEGIN_PATCH_MARKER :: ustring where "BEGIN_PATCH_MARKER = lit ''*** Begin Patch''"
definition END_PATCH_MARKER :: ustring where "END_PATCH_MARKER = lit ''*** End Patch''"
definition ADD_FILE_MARKER :: ustring where "ADD_FILE_MARKER = lit ''*** Add File: ''"
definition DELETE_FILE_MARKER :: ustring where "DELETE_FILE_MARKER = lit ''*** Delete File: ''"
definition UPDATE_FILE_MARKER :: ustring where "UPDATE_FILE_MARKER = lit ''*** Update File: ''"
definition MOVE_TO_MARKER :: ustring where "MOVE_TO_MARKER = lit ''*** Move to: ''"
definition EOF_MARKER :: ustring where "EOF_MARKER = lit ''*** End of File''"
definition CHANGE_CONTEXT_MARKER :: ustring where "CHANGE_CONTEXT_MARKER = lit ''@@ ''"
definition EMPTY_CHANGE_CONTEXT_MARKER :: ustring where "EMPTY_CHANGE_CONTEXT_MARKER = lit ''@@''"

abbreviation (input) quoted :: "ustring \<Rightarrow> ustring" where
  "quoted s \<equiv> [39] @ s @ [39]"

section \<open>One chunk\<close>

definition no_lines_message :: ustring where
  "no_lines_message = lit ''Update hunk does not contain any lines''"

definition unexpected_line_message :: "ustring \<Rightarrow> ustring" where
  "unexpected_line_message line = lit ''Unexpected line found in update hunk: '' @ quoted line
     @ lit ''. Every line should start with '' @ quoted (lit '' '') @ lit '' (context line), ''
     @ quoted (lit ''+'') @ lit '' (added line), or '' @ quoted (lit ''-'') @ lit '' (removed line)''"

definition push_old :: "ustring \<Rightarrow> update_file_chunk \<Rightarrow> update_file_chunk" where
  "push_old l c = c\<lparr>old_lines := old_lines c @ [l]\<rparr>"

definition push_new :: "ustring \<Rightarrow> update_file_chunk \<Rightarrow> update_file_chunk" where
  "push_new l c = c\<lparr>new_lines := new_lines c @ [l]\<rparr>"

text \<open>The loop over the lines of a chunk, after its context marker.\<close>

fun chunk_loop :: "nat \<Rightarrow> update_file_chunk \<Rightarrow> nat \<Rightarrow> ustring list
    \<Rightarrow> parse_error + (update_file_chunk \<times> nat)" where
  "chunk_loop line_number chunk parsed_lines [] = Inr (chunk, parsed_lines)"
| "chunk_loop line_number chunk parsed_lines (line # lines) =
     (if line = EOF_MARKER then
        (if parsed_lines = 0 then Inl (InvalidHunkError no_lines_message (line_number + 1))
         else Inr (chunk\<lparr>is_end_of_file := True\<rparr>, parsed_lines + 1))
      else case line of
             [] \<Rightarrow> chunk_loop line_number (push_new [] (push_old [] chunk)) (parsed_lines + 1) lines
           | c # rest \<Rightarrow>
               if c = uc CHR '' '' then
                 chunk_loop line_number (push_new rest (push_old rest chunk)) (parsed_lines + 1) lines
               else if c = uc CHR ''+'' then
                 chunk_loop line_number (push_new rest chunk) (parsed_lines + 1) lines
               else if c = uc CHR ''-'' then
                 chunk_loop line_number (push_old rest chunk) (parsed_lines + 1) lines
               else if parsed_lines = 0 then
                 Inl (InvalidHunkError (unexpected_line_message line) (line_number + 1))
               else Inr (chunk, parsed_lines))"

definition parse_update_file_chunk :: "ustring list \<Rightarrow> nat \<Rightarrow> bool
    \<Rightarrow> parse_error + (update_file_chunk \<times> nat)" where
  "parse_update_file_chunk lines line_number allow_missing_context =
     (case lines of
        [] \<Rightarrow> Inl (InvalidHunkError no_lines_message line_number)
      | first # _ \<Rightarrow>
          (let header =
             (if first = EMPTY_CHANGE_CONTEXT_MARKER then Some (None, 1)
              else case strip_prefix CHANGE_CONTEXT_MARKER first of
                     Some context \<Rightarrow> Some (Some context, 1)
                   | None \<Rightarrow> if \<not> allow_missing_context then None else Some (None, 0))
           in case header of
                None \<Rightarrow>
                  Inl (InvalidHunkError
                    (lit ''Expected update hunk to start with a @@ context marker, got: ''
                      @ quoted first) line_number)
              | Some (context, start_index) \<Rightarrow>
                  if start_index \<ge> length lines
                  then Inl (InvalidHunkError no_lines_message (line_number + 1))
                  else
                    (case chunk_loop line_number
                            \<lparr>change_context = context, old_lines = [], new_lines = [],
                             is_end_of_file = False\<rparr> 0 (drop start_index lines) of
                       Inl e \<Rightarrow> Inl e
                     | Inr (chunk, parsed_lines) \<Rightarrow> Inr (chunk, parsed_lines + start_index))))"

lemma chunk_loop_bounds:
  "chunk_loop ln c n lines = Inr (c', n') \<Longrightarrow> n \<le> n' \<and> n' \<le> n + length lines \<and>
     (n = 0 \<and> lines \<noteq> [] \<longrightarrow> 0 < n')"
  by (induction ln c n lines rule: chunk_loop.induct)
    (auto split: if_splits list.splits)

lemma parse_update_file_chunk_bounds:
  "parse_update_file_chunk lines ln allow = Inr (c, n) \<Longrightarrow> 1 \<le> n \<and> n \<le> length lines"
  by (auto simp: parse_update_file_chunk_def Let_def split: list.splits if_splits option.splits
      sum.splits dest!: chunk_loop_bounds)

section \<open>One hunk\<close>

fun add_lines_loop :: "ustring \<Rightarrow> nat \<Rightarrow> ustring list \<Rightarrow> ustring \<times> nat" where
  "add_lines_loop contents parsed_lines [] = (contents, parsed_lines)"
| "add_lines_loop contents parsed_lines (add_line # lines) =
     (case strip_prefix (lit ''+'') add_line of
        Some line_to_add \<Rightarrow>
          add_lines_loop (contents @ line_to_add @ [newline]) (parsed_lines + 1) lines
      | None \<Rightarrow> (contents, parsed_lines))"

text \<open>
  The loop over the chunks of an update: \<open>line_number\<close> is the hunk's, \<open>parsed_lines\<close>
  counts from its header.
\<close>

function update_loop :: "nat \<Rightarrow> bool \<Rightarrow> update_file_chunk list \<Rightarrow> nat \<Rightarrow> ustring list
    \<Rightarrow> parse_error + (update_file_chunk list \<times> nat)" where
  "update_loop line_number allow_incomplete chunks parsed_lines remaining_lines =
     (case remaining_lines of
        [] \<Rightarrow> Inr (chunks, parsed_lines)
      | first # rest \<Rightarrow>
          if trim first = [] then
            update_loop line_number allow_incomplete chunks (parsed_lines + 1) rest
          else if prefix (lit ''*'') first then Inr (chunks, parsed_lines)
          else if allow_incomplete \<and> first = lit ''@'' then Inr (chunks, parsed_lines)
          else
            (case parse_update_file_chunk remaining_lines (line_number + parsed_lines) (chunks = []) of
               Inr (chunk, chunk_lines) \<Rightarrow>
                 update_loop line_number allow_incomplete (chunks @ [chunk])
                   (parsed_lines + chunk_lines) (drop chunk_lines remaining_lines)
             | Inl (InvalidHunkError message ln) \<Rightarrow>
                 if allow_incomplete \<and> chunks \<noteq> [] then Inr (chunks, parsed_lines)
                 else Inl (InvalidHunkError message ln)
             | Inl err \<Rightarrow> Inl err))"
  by pat_completeness auto
termination
  by (relation "measure (\<lambda>(_, _, _, _, lines). length lines)")
    (use parse_update_file_chunk_bounds in fastforce)+

declare update_loop.simps [simp del]

lemma update_loop_simps:
  "update_loop ln allow chunks n [] = Inr (chunks, n)"
  "trim l = [] \<Longrightarrow> update_loop ln allow chunks n (l # ls) = update_loop ln allow chunks (n + 1) ls"
  "trim l \<noteq> [] \<Longrightarrow> prefix (lit ''*'') l \<Longrightarrow> update_loop ln allow chunks n (l # ls) = Inr (chunks, n)"
  by (simp_all add: update_loop.simps [of ln allow chunks n "l # ls"]
      update_loop.simps [of ln allow chunks n "[]"])

definition hunk_header_message :: "ustring \<Rightarrow> ustring" where
  "hunk_header_message first_line = quoted first_line
     @ lit '' is not a valid hunk header. Valid hunk headers: ''
     @ quoted (lit ''*** Add File: {path}'') @ lit '', ''
     @ quoted (lit ''*** Delete File: {path}'') @ lit '', ''
     @ quoted (lit ''*** Update File: {path}'')"

definition parse_one_hunk :: "ustring list \<Rightarrow> nat \<Rightarrow> bool \<Rightarrow> parse_error + (hunk \<times> nat)" where
  "parse_one_hunk lines line_number allow_incomplete =
     (let first_line = trim (hd lines) in
      case strip_prefix ADD_FILE_MARKER first_line of
        Some path \<Rightarrow>
          (let (contents, parsed_lines) = add_lines_loop [] 1 (tl lines)
           in Inr (AddFile path contents, parsed_lines))
      | None \<Rightarrow>
          (case strip_prefix DELETE_FILE_MARKER first_line of
             Some path \<Rightarrow> Inr (DeleteFile path, 1)
           | None \<Rightarrow>
               (case strip_prefix UPDATE_FILE_MARKER first_line of
                  Some path \<Rightarrow>
                    (let move_path = (case tl lines of
                            [] \<Rightarrow> None | x # _ \<Rightarrow> strip_prefix MOVE_TO_MARKER x);
                         remaining_lines = (if move_path \<noteq> None then drop 1 (tl lines) else tl lines);
                         parsed_lines = (if move_path \<noteq> None then 2 else 1)
                     in case update_loop line_number allow_incomplete [] parsed_lines remaining_lines of
                          Inl err \<Rightarrow> Inl err
                        | Inr (chunks, parsed) \<Rightarrow>
                            if chunks = [] then
                              Inl (InvalidHunkError (lit ''Update file hunk for path '' @ quoted path
                                @ lit '' is empty'') line_number)
                            else Inr (UpdateFile path move_path chunks, parsed))
                | None \<Rightarrow> Inl (InvalidHunkError (hunk_header_message first_line) line_number))))"

lemma add_lines_loop_bounds:
  "add_lines_loop acc n lines = (c, n') \<Longrightarrow> n \<le> n' \<and> n' \<le> n + length lines"
  by (induction acc n lines rule: add_lines_loop.induct) (auto split: option.splits)

lemma update_loop_bounds:
  "update_loop ln allow chunks n lines = Inr (cs, n') \<Longrightarrow> n \<le> n' \<and> n' \<le> n + length lines"
proof (induction ln allow chunks n lines rule: update_loop.induct)
  case (1 ln allow chunks n lines)
  show ?case
  proof (cases lines)
    case Nil
    with 1(3) show ?thesis by (simp add: update_loop_simps)
  next
    case (Cons l ls)
    note step = 1(3) [unfolded update_loop.simps [of ln allow chunks n lines], simplified Cons list.case]
    show ?thesis
    proof (cases "trim l = [] \<or> prefix (lit ''*'') l \<or> allow \<and> l = lit ''@''")
      case True
      then show ?thesis using step 1(1) [OF Cons] Cons by (auto split: if_splits)
    next
      case False
      show ?thesis
      proof (cases "parse_update_file_chunk lines (ln + n) (chunks = [])")
        case (Inl e)
        with False step Cons show ?thesis by (cases e) (auto split: if_splits)
      next
        case (Inr p)
        obtain c k where p: "p = (c, k)" by (cases p)
        have k: "1 \<le> k" "k \<le> length lines"
          using parse_update_file_chunk_bounds [of lines "ln + n" "chunks = []" c k] Inr p by auto
        have "update_loop ln allow (chunks @ [c]) (n + k) (drop k lines) = Inr (cs, n')"
          using step False Inr p Cons by (auto split: if_splits)
        with 1(2) [OF Cons] False Inr p Cons k show ?thesis by fastforce
      qed
    qed
  qed
qed

lemma parse_one_hunk_bounds:
  assumes "parse_one_hunk lines ln allow = Inr (h, n)" and "lines \<noteq> []"
  shows "1 \<le> n \<and> n \<le> length lines"
proof -
  obtain l ls where lines: "lines = l # ls" using assms(2) by (cases lines) auto
  show ?thesis using assms(1)
    by (auto simp: parse_one_hunk_def Let_def lines split: option.splits prod.splits sum.splits
        if_splits list.splits dest!: add_lines_loop_bounds update_loop_bounds)
qed

section \<open>The whole patch\<close>

function parse_hunks :: "bool \<Rightarrow> nat \<Rightarrow> hunk list \<Rightarrow> ustring list \<Rightarrow> parse_error + hunk list" where
  "parse_hunks allow_incomplete line_number hunks remaining_lines =
     (if remaining_lines = [] then Inr hunks
      else case parse_one_hunk remaining_lines line_number allow_incomplete of
             Inl err \<Rightarrow> Inl err
           | Inr (hunk, hunk_lines) \<Rightarrow>
               parse_hunks allow_incomplete (line_number + hunk_lines) (hunks @ [hunk])
                 (drop hunk_lines remaining_lines))"
  by pat_completeness auto
termination
  by (relation "measure (\<lambda>(_, _, _, lines). length lines)") (use parse_one_hunk_bounds in fastforce)+

declare parse_hunks.simps [simp del]

definition check_start_and_end_lines_strict ::
  "ustring option \<Rightarrow> ustring option \<Rightarrow> parse_error + unit" where
  "check_start_and_end_lines_strict first_line last_line =
     (let first_line = map_option trim first_line; last_line = map_option trim last_line
      in if first_line = Some BEGIN_PATCH_MARKER \<and> last_line = Some END_PATCH_MARKER then Inr ()
         else if first_line \<noteq> None \<and> first_line \<noteq> Some BEGIN_PATCH_MARKER
         then Inl (InvalidPatchError
           (lit ''The first line of the patch must be '' @ quoted (lit ''*** Begin Patch'')))
         else Inl (InvalidPatchError
           (lit ''The last line of the patch must be '' @ quoted (lit ''*** End Patch''))))"

type_synonym boundaries = "ustring list \<times> ustring list"

definition check_patch_boundaries_strict :: "ustring list \<Rightarrow> parse_error + boundaries" where
  "check_patch_boundaries_strict lines =
     (let (first_line, last_line) =
        (case lines of [] \<Rightarrow> (None, None) | first # _ \<Rightarrow> (Some first, Some (last lines)))
      in case check_start_and_end_lines_strict first_line last_line of
           Inl err \<Rightarrow> Inl err
         | Inr _ \<Rightarrow> Inr (lines, drop 1 (take (length lines - 1) lines)))"

definition check_patch_boundaries_lenient :: "ustring list \<Rightarrow> parse_error + boundaries" where
  "check_patch_boundaries_lenient original_lines =
     (case check_patch_boundaries_strict original_lines of
        Inr boundaries \<Rightarrow> Inr boundaries
      | Inl original_parse_error \<Rightarrow>
          if length original_lines \<ge> 4
             \<and> hd original_lines \<in> {lit ''<<EOF'', lit ''<<'' @ quoted (lit ''EOF''),
                  lit ''<<'' @ [34] @ lit ''EOF'' @ [34]}
             \<and> suffix (lit ''EOF'') (last original_lines)
          then check_patch_boundaries_strict
                 (drop 1 (take (length original_lines - 1) original_lines))
          else Inl original_parse_error)"

definition check_patch_boundaries_streaming :: "ustring list \<Rightarrow> parse_error + boundaries" where
  "check_patch_boundaries_streaming original_lines =
     (if original_lines \<noteq> [] \<and> trim (hd original_lines) = BEGIN_PATCH_MARKER then
        Inr (original_lines,
          if trim (last original_lines) = END_PATCH_MARKER
          then drop 1 (take (length original_lines - 1) original_lines)
          else drop 1 original_lines)
      else check_patch_boundaries_strict original_lines)"

datatype parse_mode = Strict | Lenient | Streaming

record apply_patch_args =
  args_patch :: ustring
  args_hunks :: "hunk list"
  args_workdir :: "ustring option"

definition parse_patch_text :: "ustring \<Rightarrow> parse_mode \<Rightarrow> parse_error + apply_patch_args" where
  "parse_patch_text patch mode =
     (let lines = str_lines (trim patch);
          boundaries = (case mode of
             Strict \<Rightarrow> check_patch_boundaries_strict lines
           | Lenient \<Rightarrow> check_patch_boundaries_lenient lines
           | Streaming \<Rightarrow> check_patch_boundaries_streaming lines)
      in case boundaries of
           Inl err \<Rightarrow> Inl err
         | Inr (patch_lines, hunk_lines) \<Rightarrow>
             (case parse_hunks (mode = Streaming) 2 [] hunk_lines of
                Inl err \<Rightarrow> Inl err
              | Inr hunks \<Rightarrow>
                  Inr \<lparr>args_patch = join_with [newline] patch_lines, args_hunks = hunks,
                       args_workdir = None\<rparr>))"

definition PARSE_IN_STRICT_MODE :: bool where
  "PARSE_IN_STRICT_MODE = False"

definition parse_patch :: "ustring \<Rightarrow> parse_error + apply_patch_args" where
  "parse_patch patch = parse_patch_text patch (if PARSE_IN_STRICT_MODE then Strict else Lenient)"

definition parse_patch_streaming :: "ustring \<Rightarrow> parse_error + apply_patch_args" where
  "parse_patch_streaming patch = parse_patch_text patch Streaming"

section \<open>A printer for patches\<close>

definition render_chunk :: "update_file_chunk \<Rightarrow> ustring list" where
  "render_chunk c =
     (case change_context c of None \<Rightarrow> EMPTY_CHANGE_CONTEXT_MARKER
      | Some ctx \<Rightarrow> CHANGE_CONTEXT_MARKER @ ctx)
     # map ((#) (uc CHR ''-'')) (old_lines c) @ map ((#) (uc CHR ''+'')) (new_lines c)
     @ (if is_end_of_file c then [EOF_MARKER] else [])"

definition render_hunk :: "hunk \<Rightarrow> ustring list" where
  "render_hunk h =
     (case h of
        AddFile p contents \<Rightarrow>
          (ADD_FILE_MARKER @ p) # map ((#) (uc CHR ''+'')) (butlast (split_on newline contents))
      | DeleteFile p \<Rightarrow> [DELETE_FILE_MARKER @ p]
      | UpdateFile p move_path chunks \<Rightarrow>
          (UPDATE_FILE_MARKER @ p)
          # (case move_path of None \<Rightarrow> [] | Some m \<Rightarrow> [MOVE_TO_MARKER @ m])
          @ concat (map render_chunk chunks))"

definition render_patch :: "hunk list \<Rightarrow> ustring" where
  "render_patch hunks =
     join_with [newline] (BEGIN_PATCH_MARKER # concat (map render_hunk hunks) @ [END_PATCH_MARKER])"

text \<open>
  What a hunk must satisfy to be printable: a path that trimming keeps, text to change in
  every chunk, whole lines in an added file, and lines that stay one line each.
\<close>

definition chunk_wf :: "update_file_chunk \<Rightarrow> bool" where
  "chunk_wf c = (old_lines c \<noteq> [] \<or> new_lines c \<noteq> [])"

definition header_path_wf :: "ustring \<Rightarrow> bool" where
  "header_path_wf p = (p \<noteq> [] \<and> \<not> is_whitespace (last p))"

definition line_ok :: "ustring \<Rightarrow> bool" where
  "line_ok l = (newline \<notin> set l \<and> (l = [] \<or> last l \<noteq> 13))"

definition hunk_wf :: "hunk \<Rightarrow> bool" where
  "hunk_wf h =
     (list_all line_ok (render_hunk h) \<and>
      (case h of
         AddFile p contents \<Rightarrow> header_path_wf p \<and> (contents = [] \<or> last contents = newline)
       | DeleteFile p \<Rightarrow> header_path_wf p
       | UpdateFile p _ chunks \<Rightarrow> header_path_wf p \<and> chunks \<noteq> [] \<and> list_all chunk_wf chunks))"

lemmas markers = ADD_FILE_MARKER_def DELETE_FILE_MARKER_def UPDATE_FILE_MARKER_def
  MOVE_TO_MARKER_def EOF_MARKER_def CHANGE_CONTEXT_MARKER_def EMPTY_CHANGE_CONTEXT_MARKER_def
  BEGIN_PATCH_MARKER_def END_PATCH_MARKER_def

section \<open>Parsing inverts printing\<close>

lemma chunk_loop_old:
  "chunk_loop ln c n (map ((#) (uc CHR ''-'')) os @ rest) =
   chunk_loop ln (c\<lparr>old_lines := old_lines c @ os\<rparr>) (n + length os) rest"
  by (induction os arbitrary: c n) (simp_all add: markers lit_def push_old_def)

lemma chunk_loop_new:
  "chunk_loop ln c n (map ((#) (uc CHR ''+'')) ns @ rest) =
   chunk_loop ln (c\<lparr>new_lines := new_lines c @ ns\<rparr>) (n + length ns) rest"
  by (induction ns arbitrary: c n) (simp_all add: markers lit_def push_new_def)

text \<open>The line after a chunk: nothing, a context marker or a header.\<close>

definition ends_chunk :: "ustring list \<Rightarrow> bool" where
  "ends_chunk rest =
     (case rest of [] \<Rightarrow> True
      | l # _ \<Rightarrow> l \<noteq> EOF_MARKER \<and> (case l of [] \<Rightarrow> False | c # _ \<Rightarrow> c \<in> {uc CHR ''@'', uc CHR ''*''}))"

lemma chunk_loop_end: "0 < n \<Longrightarrow> ends_chunk rest \<Longrightarrow> chunk_loop ln c n rest = Inr (c, n)"
  by (auto simp: ends_chunk_def split: list.splits)

lemma ends_chunk_render: "ends_chunk (render_chunk c @ rest)"
  by (simp add: ends_chunk_def render_chunk_def markers lit_def split: option.splits)

definition context_line :: "ustring option \<Rightarrow> ustring" where
  "context_line ctx = (case ctx of None \<Rightarrow> EMPTY_CHANGE_CONTEXT_MARKER | Some x \<Rightarrow> CHANGE_CONTEXT_MARKER @ x)"

lemma context_line_at: "\<exists>l. context_line ctx = uc CHR ''@'' # uc CHR ''@'' # l"
  by (cases ctx) (simp_all add: context_line_def markers lit_def)

lemma parse_context_line:
  assumes "body \<noteq> []"
  shows "parse_update_file_chunk (context_line ctx # body) ln allow =
    (case chunk_loop ln \<lparr>change_context = ctx, old_lines = [], new_lines = [], is_end_of_file = False\<rparr>
        0 body of Inl e \<Rightarrow> Inl e | Inr (chunk, k) \<Rightarrow> Inr (chunk, k + 1))"
proof -
  have "strip_prefix CHANGE_CONTEXT_MARKER (CHANGE_CONTEXT_MARKER @ x) = Some x"
    "CHANGE_CONTEXT_MARKER @ x \<noteq> EMPTY_CHANGE_CONTEXT_MARKER" for x
    by (simp_all add: strip_prefix_def markers lit_def)
  then show ?thesis using assms
    by (cases ctx) (simp_all add: parse_update_file_chunk_def context_line_def split: sum.split)
qed

lemma parse_rendered_chunk:
  assumes "chunk_wf c" and "ends_chunk rest"
  shows "parse_update_file_chunk (render_chunk c @ rest) ln allow = Inr (c, length (render_chunk c))"
proof -
  let ?tail = "(if is_end_of_file c then [EOF_MARKER] else []) @ rest"
  let ?body = "map ((#) (uc CHR ''-'')) (old_lines c) @ map ((#) (uc CHR ''+'')) (new_lines c) @ ?tail"
  let ?n = "length (old_lines c) + length (new_lines c)"
  have n: "0 < ?n" using assms(1) by (auto simp: chunk_wf_def)
  have "chunk_loop ln c' ?n ?tail =
      Inr (if is_end_of_file c then c'\<lparr>is_end_of_file := True\<rparr> else c', ?n + (if is_end_of_file c then 1 else 0))"
    for c' using n chunk_loop_end [OF n assms(2)] by auto
  then have loop: "chunk_loop ln \<lparr>change_context = change_context c, old_lines = [], new_lines = [],
      is_end_of_file = False\<rparr> 0 ?body = Inr (c, ?n + (if is_end_of_file c then 1 else 0))"
    by (simp only: chunk_loop_old chunk_loop_new) simp
  have ne: "?body \<noteq> []" using n by auto
  have eq: "render_chunk c @ rest = context_line (change_context c) # ?body"
    by (simp add: render_chunk_def context_line_def)
  show ?thesis
    unfolding eq parse_context_line [OF ne] loop by (simp add: render_chunk_def)
qed

text \<open>The line after a hunk: nothing or a header.\<close>

definition ends_hunk :: "ustring list \<Rightarrow> bool" where
  "ends_hunk rest =
     (case rest of [] \<Rightarrow> True
      | l # _ \<Rightarrow> l \<noteq> EOF_MARKER \<and> prefix (lit ''*'') l)"

lemma prefix_star: "prefix (lit ''*'') l \<longleftrightarrow> (\<exists>l'. l = uc CHR ''*'' # l')"
  by (cases l) (auto simp: lit_def)

lemma trim_nonblank: "\<not> is_whitespace c \<Longrightarrow> trim (c # l) \<noteq> []"
  by (simp add: trim_def trim_start_def trim_end_def dropWhile_eq_Nil_conv)

lemma ends_hunk_chunk: "ends_hunk rest \<Longrightarrow> ends_chunk rest"
  by (auto simp: ends_hunk_def ends_chunk_def prefix_star split: list.splits)

lemma not_blank_markers [simp]:
  "\<not> is_whitespace (uc CHR ''*'')" "\<not> is_whitespace (uc CHR ''@'')"
  by (simp_all add: is_whitespace_def uc_def)

lemma update_loop_chunk:
  "trim l \<noteq> [] \<Longrightarrow> \<not> prefix (lit ''*'') l \<Longrightarrow> l \<noteq> lit ''@''
   \<Longrightarrow> parse_update_file_chunk (l # ls) (ln + n) (chunks = []) = Inr (c, k)
   \<Longrightarrow> update_loop ln allow chunks n (l # ls) =
       update_loop ln allow (chunks @ [c]) (n + k) (drop k (l # ls))"
  by (simp add: update_loop.simps [of ln allow chunks n "l # ls"])

lemma update_loop_rendered:
  "list_all chunk_wf cs \<Longrightarrow> ends_hunk rest \<Longrightarrow>
   update_loop ln allow chunks n (concat (map render_chunk cs) @ rest) =
     Inr (chunks @ cs, n + length (concat (map render_chunk cs)))"
proof (induction cs arbitrary: chunks n)
  case Nil
  then show ?case
    by (cases rest) (auto simp: update_loop_simps ends_hunk_def prefix_star trim_nonblank)
next
  case (Cons c cs)
  let ?rest = "concat (map render_chunk cs) @ rest"
  have end_rest: "ends_chunk ?rest"
    using Cons.prems(2) ends_chunk_render ends_hunk_chunk by (cases cs) simp_all
  have parsed: "parse_update_file_chunk (render_chunk c @ ?rest) (ln + n) (chunks = []) =
      Inr (c, length (render_chunk c))"
    using Cons.prems(1) parse_rendered_chunk [OF _ end_rest] by simp
  obtain l where "context_line (change_context c) = uc CHR ''@'' # uc CHR ''@'' # l"
    using context_line_at by blast
  then obtain ls where hd: "render_chunk c @ ?rest = (uc CHR ''@'' # uc CHR ''@'' # l) # ls"
    by (simp add: render_chunk_def context_line_def)
  have "update_loop ln allow chunks n (render_chunk c @ ?rest) =
      update_loop ln allow (chunks @ [c]) (n + length (render_chunk c))
        (drop (length (render_chunk c)) (render_chunk c @ ?rest))"
    unfolding hd by (rule update_loop_chunk)
      (use parsed [unfolded hd] in \<open>simp_all add: trim_nonblank prefix_star lit_def\<close>)
  then show ?case using Cons.IH [of "chunks @ [c]" "n + length (render_chunk c)"] Cons.prems by simp
qed

lemma trim_header:
  "header_path_wf p \<Longrightarrow> m \<in> {ADD_FILE_MARKER, DELETE_FILE_MARKER, UPDATE_FILE_MARKER}
   \<Longrightarrow> trim (m @ p) = m @ p"
  by (rule trim_id) (auto simp: header_path_wf_def markers lit_def)

lemma strip_marker [simp]:
  "strip_prefix m (m @ p) = Some p"
  "strip_prefix ADD_FILE_MARKER (DELETE_FILE_MARKER @ p) = None"
  "strip_prefix ADD_FILE_MARKER (UPDATE_FILE_MARKER @ p) = None"
  "strip_prefix DELETE_FILE_MARKER (UPDATE_FILE_MARKER @ p) = None"
  "strip_prefix MOVE_TO_MARKER (EMPTY_CHANGE_CONTEXT_MARKER) = None"
  "strip_prefix MOVE_TO_MARKER (CHANGE_CONTEXT_MARKER @ p) = None"
  by (simp_all add: strip_prefix_def markers lit_def)

lemma add_lines_rendered:
  "ends_hunk rest \<Longrightarrow> add_lines_loop acc n (map ((#) (uc CHR ''+'')) ls @ rest) =
     (acc @ concat (map (\<lambda>l. l @ [newline]) ls), n + length ls)"
proof (induction ls arbitrary: acc n)
  case Nil
  then show ?case
    by (cases rest; cases "hd rest") (auto simp: ends_hunk_def strip_prefix_def lit_def)
qed (simp add: strip_prefix_def lit_def)

lemma concat_lines:
  "contents = [] \<or> last contents = c \<Longrightarrow>
   concat (map (\<lambda>l. l @ [c]) (butlast (split_on c contents))) = contents"
proof (induction contents)
  case (Cons x xs)
  obtain t ts where t: "split_on c xs = t # ts" by (cases "split_on c xs") auto
  show ?case
  proof (cases "xs = []")
    case False
    with Cons have ih: "concat (map (\<lambda>l. l @ [c]) (butlast (split_on c xs))) = xs" by simp
    with False t have "ts \<noteq> []" by auto
    with ih t show ?thesis by auto
  qed (use Cons.prems in auto)
qed simp

lemma parse_rendered_hunk:
  assumes "hunk_wf h" and "ends_hunk rest"
  shows "parse_one_hunk (render_hunk h @ rest) ln allow = Inr (h, length (render_hunk h))"
proof (cases h)
  case (AddFile p contents)
  then show ?thesis using assms add_lines_rendered [OF assms(2)]
    by (simp add: parse_one_hunk_def render_hunk_def hunk_wf_def trim_header concat_lines)
next
  case (DeleteFile p)
  then show ?thesis using assms
    by (simp add: parse_one_hunk_def render_hunk_def hunk_wf_def trim_header)
next
  case (UpdateFile p move_path chunks)
  with assms(1) have wf: "header_path_wf p" "chunks \<noteq> []" "list_all chunk_wf chunks"
    by (simp_all add: hunk_wf_def)
  note loop = update_loop_rendered [OF wf(3) assms(2)]
  show ?thesis
  proof (cases move_path)
    case None
    obtain c cs where chunks: "chunks = c # cs" using wf(2) by (cases chunks) auto
    obtain l ls where hd: "concat (map render_chunk chunks) @ rest = l # ls"
      and "strip_prefix MOVE_TO_MARKER l = None"
      by (cases "change_context c") (auto simp: chunks render_chunk_def)
    then show ?thesis using loop [of ln allow "[]" 1] wf
      by (simp add: UpdateFile None parse_one_hunk_def render_hunk_def trim_header)
  next
    case (Some m)
    then show ?thesis using loop [of ln allow "[]" 2] wf
      by (simp add: UpdateFile parse_one_hunk_def render_hunk_def trim_header)
  qed
qed

lemma ends_hunk_rendered: "ends_hunk (render_hunk h @ rest)"
  by (cases h) (simp_all add: ends_hunk_def render_hunk_def markers lit_def)

lemma parse_rendered_hunks:
  "list_all hunk_wf hs \<Longrightarrow>
   parse_hunks allow ln acc (concat (map render_hunk hs)) = Inr (acc @ hs)"
proof (induction hs arbitrary: ln acc)
  case Nil
  then show ?case by (simp add: parse_hunks.simps [of allow ln acc "[]"])
next
  case (Cons h hs)
  have "ends_hunk (concat (map render_hunk hs))"
    using ends_hunk_rendered by (cases hs) (simp_all add: ends_hunk_def [of "[]"])
  from parse_rendered_hunk [OF _ this] Cons.prems
  have p: "parse_one_hunk (render_hunk h @ concat (map render_hunk hs)) ln allow =
      Inr (h, length (render_hunk h))" by simp
  moreover have "render_hunk h @ concat (map render_hunk hs) \<noteq> []"
    by (cases h) (simp_all add: render_hunk_def)
  ultimately show ?case using Cons
    by (simp add: parse_hunks.simps [of allow ln acc "render_hunk h @ concat (map render_hunk hs)"])
qed

lemma hd_join_with: "s \<noteq> [] \<Longrightarrow> hd (join_with sep (s # ss)) = hd s"
  by (cases ss) auto

lemma last_join_with: "ss \<noteq> [] \<Longrightarrow> last ss \<noteq> [] \<Longrightarrow> last (join_with sep ss) = last (last ss)"
proof (cases ss rule: rev_cases)
  case (snoc ys y)
  assume "last ss \<noteq> []"
  with snoc show ?thesis by (cases "ys = []") (simp_all add: join_with_snoc)
qed simp

lemma join_with_ne: "s \<noteq> [] \<Longrightarrow> join_with sep (s # ss) \<noteq> []"
  by (cases ss) auto

lemma trim_markers [simp]:
  "trim BEGIN_PATCH_MARKER = BEGIN_PATCH_MARKER" "trim END_PATCH_MARKER = END_PATCH_MARKER"
  by (rule trim_id; simp add: markers lit_def uc_def is_whitespace_def)+

text \<open>
  C6: Parsing inverts printing, in every mode: the text printed for well-formed hunks
  (added, deleted, moved and updated files, with contexts and end-of-file chunks) parses
  to exactly those hunks, and the patch it returns is that text.
\<close>

theorem parse_patch_roundtrip:
  assumes "list_all hunk_wf hunks"
  shows "parse_patch_text (render_patch hunks) mode =
    Inr \<lparr>args_patch = render_patch hunks, args_hunks = hunks, args_workdir = None\<rparr>"
proof -
  let ?body = "concat (map render_hunk hunks)"
  let ?lines = "BEGIN_PATCH_MARKER # ?body @ [END_PATCH_MARKER]"
  have ends: "hd (render_patch hunks) = uc CHR ''*''" "last (render_patch hunks) = uc CHR ''h''"
    "render_patch hunks \<noteq> []"
    using last_join_with [of ?lines "[newline]"]
    by (simp_all add: render_patch_def hd_join_with join_with_ne markers lit_def)
  have "trim (render_patch hunks) = render_patch hunks"
    by (rule trim_id) (simp add: ends is_whitespace_def uc_def)
  moreover have "\<forall>l \<in> set ?lines. newline \<notin> set l \<and> (l = [] \<or> last l \<noteq> 13)"
  proof -
    have "\<forall>l \<in> set ?body. newline \<notin> set l \<and> (l = [] \<or> last l \<noteq> 13)"
      using assms by (auto simp: list_all_iff hunk_wf_def line_ok_def)
    then show ?thesis by (auto simp: markers lit_def newline_def uc_def)
  qed
  then have "str_lines (render_patch hunks) = ?lines"
    unfolding render_patch_def by (intro str_lines_join) (simp_all add: markers)
  ultimately have lines: "str_lines (trim (render_patch hunks)) = ?lines" by simp
  have strict: "check_patch_boundaries_strict ?lines = Inr (?lines, ?body)"
    by (simp add: check_patch_boundaries_strict_def check_start_and_end_lines_strict_def)
  then have lenient: "check_patch_boundaries_lenient ?lines = Inr (?lines, ?body)"
    by (simp add: check_patch_boundaries_lenient_def)
  have streaming: "check_patch_boundaries_streaming ?lines = Inr (?lines, ?body)"
    by (simp add: check_patch_boundaries_streaming_def)
  have hunks: "parse_hunks allow 2 [] ?body = Inr hunks" for allow
    using parse_rendered_hunks [OF assms, of allow 2 "[]"] by simp
  have joined: "join_with [newline] ?lines = render_patch hunks" by (simp only: render_patch_def)
  show ?thesis
    unfolding parse_patch_text_def Let_def lines
    by (cases mode)
      (simp_all only: parse_mode.case strict lenient streaming sum.case prod.case hunks joined)
qed

definition sample_hunks :: "hunk list" where
  "sample_hunks = [AddFile (lit ''a'') (lit ''x'' @ [10]),
     UpdateFile (lit ''b'') (Some (lit ''c''))
       [\<lparr>change_context = Some (lit ''fn''), old_lines = [lit ''1''], new_lines = [],
         is_end_of_file = True\<rparr>]]"

lemma sample_hunks_wf: "list_all hunk_wf sample_hunks"
  by (simp add: sample_hunks_def hunk_wf_def render_hunk_def render_chunk_def header_path_wf_def
      chunk_wf_def line_ok_def markers lit_def uc_def newline_def is_whitespace_def)

lemma parse_patch_roundtrip_witness:
  "parse_patch_text (render_patch sample_hunks) Lenient =
    Inr \<lparr>args_patch = render_patch sample_hunks, args_hunks = sample_hunks, args_workdir = None\<rparr>"
  using parse_patch_roundtrip [OF sample_hunks_wf] .

end
