(* ===== verification/PatchSeek.thy ===== *)
theory PatchSeek
  imports Prelude
begin

text \<open>
  Locating the lines a patch chunk replaces (\<open>apply-patch/src/seek_sequence.rs\<close>): four
  passes of decreasing strictness over the same window of start positions.
\<close>

definition normalise_char :: "uchar \<Rightarrow> uchar" where
  "normalise_char c =
     (if c \<in> {0x2010, 0x2011, 0x2012, 0x2013, 0x2014, 0x2015, 0x2212} then uc CHR ''-''
      else if c \<in> {0x2018, 0x2019, 0x201A, 0x201B} then 39
      else if c \<in> {0x201C, 0x201D, 0x201E, 0x201F} then 34
      else if c \<in> {0x00A0, 0x2002, 0x2003, 0x2004, 0x2005, 0x2006, 0x2007, 0x2008, 0x2009, 0x200A,
                    0x202F, 0x205F, 0x3000} then uc CHR '' ''
      else c)"

definition normalise :: "ustring \<Rightarrow> ustring" where
  "normalise s = map normalise_char (trim s)"

definition window :: "nat \<Rightarrow> nat \<Rightarrow> 'a list \<Rightarrow> 'a list" where
  "window i n xs = take n (drop i xs)"

text \<open>One pass: the first start position whose lines agree under \<open>key\<close>.\<close>

definition seek_pass :: "(ustring \<Rightarrow> ustring) \<Rightarrow> ustring list \<Rightarrow> ustring list \<Rightarrow> nat \<Rightarrow> nat option" where
  "seek_pass key lines pattern search_start =
     List.find (\<lambda>i. map key (window i (length pattern) lines) = map key pattern)
       [search_start ..< Suc (length lines - length pattern)]"

definition seek_sequence :: "ustring list \<Rightarrow> ustring list \<Rightarrow> nat \<Rightarrow> bool \<Rightarrow> nat option" where
  "seek_sequence lines pattern start eof =
     (if pattern = [] then Some start
      else if length pattern > length lines then None
      else
        (let search_start =
           (if eof \<and> length lines \<ge> length pattern then length lines - length pattern else start)
         in case seek_pass (\<lambda>s. s) lines pattern search_start of
              Some i \<Rightarrow> Some i
            | None \<Rightarrow>
                (case seek_pass trim_end lines pattern search_start of
                   Some i \<Rightarrow> Some i
                 | None \<Rightarrow>
                     (case seek_pass trim lines pattern search_start of
                        Some i \<Rightarrow> Some i
                      | None \<Rightarrow> seek_pass normalise lines pattern search_start))))"

section \<open>What a match is\<close>

lemma find_upt_Some:
  "List.find P [a ..< b] = Some i \<longleftrightarrow> a \<le> i \<and> i < b \<and> P i \<and> (\<forall>j. a \<le> j \<and> j < i \<longrightarrow> \<not> P j)"
proof
  assume "List.find P [a ..< b] = Some i"
  then obtain k where k: "k < b - a" "P (a + k)" "i = a + k" "\<forall>j < k. \<not> P (a + j)"
    by (auto simp: find_Some_iff)
  have "\<not> P j" if "a \<le> j" "j < i" for j
    using k(4) [rule_format, of "j - a"] k(3) that by simp
  with k show "a \<le> i \<and> i < b \<and> P i \<and> (\<forall>j. a \<le> j \<and> j < i \<longrightarrow> \<not> P j)" by simp
next
  assume r: "a \<le> i \<and> i < b \<and> P i \<and> (\<forall>j. a \<le> j \<and> j < i \<longrightarrow> \<not> P j)"
  then show "List.find P [a ..< b] = Some i"
    by (auto simp: find_Some_iff intro!: exI [of _ "i - a"])
qed

lemma seek_pass_Some:
  "seek_pass key lines pattern s = Some i \<longleftrightarrow>
     s \<le> i \<and> i < Suc (length lines - length pattern) \<and>
     map key (window i (length pattern) lines) = map key pattern \<and>
     (\<forall>j. s \<le> j \<and> j < i \<longrightarrow> map key (window j (length pattern) lines) \<noteq> map key pattern)"
  unfolding seek_pass_def find_upt_Some ..

lemma trim_end_trim: "trim_end s = trim_end t \<Longrightarrow> trim s = trim t"
proof -
  have "trim s = trim (trim_end s)" for s
  proof -
    obtain a b where s: "s = a @ b" "trim_end s = a" "\<forall>c \<in> set b. is_whitespace c"
    proof
      show "s = trim_end s @ rev (takeWhile is_whitespace (rev s))"
        unfolding trim_end_def by (metis rev_append rev_rev_ident takeWhile_dropWhile_id)
    qed (auto dest: set_takeWhileD)
    have end_ws: "trim_end (x @ b) = trim_end x" for x
      unfolding trim_end_def rev_append by (subst dropWhile_append2) (use s(3) in auto)
    show ?thesis
    proof (cases "\<forall>c \<in> set a. is_whitespace c")
      case True
      then have "trim_start s = []" "trim_start a = []"
        using s by (auto simp: trim_start_def dropWhile_eq_Nil_conv)
      then show ?thesis by (simp add: trim_def s(2))
    next
      case False
      then have "trim_start s = trim_start a @ b"
        unfolding s(1) trim_start_def by (auto simp: dropWhile_append1)
      then show ?thesis by (simp add: trim_def s(2) end_ws)
    qed
  qed
  then show "trim_end s = trim_end t \<Longrightarrow> trim s = trim t" by metis
qed

lemma map_key_mono:
  assumes "map f xs = map f ys" and "\<And>x y. f x = f y \<Longrightarrow> g x = g y"
  shows "map g xs = map g ys"
proof -
  have "map g xs = map g ys" if "map f xs = map f ys"
    using that
  proof (induction xs arbitrary: ys)
    case (Cons x xs)
    then obtain y ys' where "ys = y # ys'" "f x = f y" "map f xs = map f ys'" by (cases ys) auto
    then show ?case using Cons.IH assms(2) [of x y] by simp
  qed simp
  then show ?thesis using assms(1) .
qed

lemma seek_sequence_cases:
  assumes "seek_sequence lines pattern start eof = Some i" and "pattern \<noteq> []"
  obtains key where "key \<in> {\<lambda>s. s, trim_end, trim, normalise}"
    and "seek_pass key lines pattern (if eof then length lines - length pattern else start) = Some i"
    and "length pattern \<le> length lines"
  using assms by (auto simp: seek_sequence_def Let_def split: if_splits option.splits)

lemma key_normalise:
  assumes "key \<in> {\<lambda>s. s, trim_end, trim, normalise}" and "key x = key y"
  shows "normalise x = normalise y"
  using assms trim_end_trim [of x y] by (auto simp: normalise_def)

lemma seek_sequence_bounds:
  assumes "seek_sequence lines pattern start eof = Some i" and "pattern \<noteq> []"
  shows "i + length pattern \<le> length lines \<and> (eof \<or> start \<le> i)"
  by (rule seek_sequence_cases [OF assms]) (auto simp: seek_pass_Some)

text \<open>
  A position found for a pattern is in range, never before the start unless the chunk
  is tied to the end of the file, and the lines there agree with the pattern up to outer
  white space and typographic punctuation; when an exact match exists in the window, the
  first exact match is the one chosen.
\<close>

theorem seek_sequence_sound:
  assumes "seek_sequence lines pattern start eof = Some i" and "pattern \<noteq> []"
  shows "i + length pattern \<le> length lines \<and>
    (if eof then i = length lines - length pattern else start \<le> i) \<and>
    map normalise (window i (length pattern) lines) = map normalise pattern \<and>
    (case seek_pass (\<lambda>s. s) lines pattern (if eof then length lines - length pattern else start) of
       Some j \<Rightarrow> i = j \<and> window i (length pattern) lines = pattern
     | None \<Rightarrow> True)"
proof -
  from assms obtain key where key: "key \<in> {\<lambda>s. s, trim_end, trim, normalise}"
    and pass: "seek_pass key lines pattern (if eof then length lines - length pattern else start) = Some i"
    and len: "length pattern \<le> length lines" by (rule seek_sequence_cases)
  have "map normalise (window i (length pattern) lines) = map normalise pattern"
  proof (rule map_key_mono)
    show "map key (window i (length pattern) lines) = map key pattern"
      using pass by (simp add: seek_pass_Some)
  qed (rule key_normalise [OF key])
  moreover have "i = j \<and> window i (length pattern) lines = pattern"
    if j: "seek_pass (\<lambda>s. s) lines pattern (if eof then length lines - length pattern else start) = Some j"
    for j
  proof -
    have "i = j" using assms len j by (auto simp: seek_sequence_def Let_def)
    with j show ?thesis by (simp add: seek_pass_Some)
  qed
  ultimately show ?thesis
    using pass len by (auto simp: seek_pass_Some split: option.splits if_splits)
qed

lemma seek_sequence_sound_witness:
  "window 1 1 (map lit [''a'', ''b '']) = [lit ''b ''] \<and>
   map normalise (window 1 1 (map lit [''a'', ''b ''])) = map normalise [lit ''b'']"
proof -
  have "seek_sequence (map lit [''a'', ''b '']) [lit ''b''] 0 False = Some 1"
    by (simp add: seek_sequence_def seek_pass_def window_def trim_end_def lit_def uc_def
        is_whitespace_def upt_rec)
  from seek_sequence_sound [OF this] show ?thesis by (simp add: window_def)
qed

text \<open>
  For a chunk tied to the end of the file the start position plays no part and the
  search has one position only: there is no second search from the start.
\<close>

theorem eof_seek_ignores_start:
  "pattern = [] \<or> seek_sequence lines pattern start True = seek_sequence lines pattern start' True \<and>
   seek_sequence (map lit [''a'', ''b'']) [lit ''a''] 0 True = None \<and>
   seek_sequence (map lit [''a'', ''b'']) [lit ''a''] 0 False = Some 0"
  by (simp add: seek_sequence_def seek_pass_def window_def trim_def trim_start_def trim_end_def
      normalise_def normalise_char_def lit_def uc_def is_whitespace_def upt_rec)

end
