(* ===== verification/PatchApply.thy ===== *)
theory PatchApply
  imports PatchParser PatchSeek
begin

text \<open>
  Applying a patch (\<open>apply-patch/src/lib.rs\<close>): the replacements of an update are located
  in the original lines, sorted and spliced in from the last to the first; the hunks are
  then carried out one after the other on a file system. The file system is the trait
  \<open>ExecutorFileSystem\<close>: a record of operations on a state of any type. \<open>None\<close> stands for
  a panic, which only an insertion out of range could cause.
\<close>

section \<open>Replacements\<close>

datatype apply_patch_error =
    ParseErr parse_error
  | IoErr ustring io_error
  | ComputeReplacements ustring
  | ImplicitInvocation

type_synonym replacement = "nat \<times> nat \<times> ustring list"

definition last_is_empty :: "ustring list \<Rightarrow> bool" where
  "last_is_empty ls = (ls \<noteq> [] \<and> last ls = [])"

text \<open>Where a chunk's old lines are, with the pattern and new lines finally used.\<close>

definition locate_chunk :: "ustring list \<Rightarrow> update_file_chunk \<Rightarrow> nat
    \<Rightarrow> nat option \<times> ustring list \<times> ustring list" where
  "locate_chunk original_lines chunk line_index =
     (let pattern = old_lines chunk;
          found = seek_sequence original_lines pattern line_index (is_end_of_file chunk);
          new_slice = new_lines chunk
      in if found = None \<and> last_is_empty pattern then
           (let pattern = butlast pattern;
                new_slice = (if last_is_empty new_slice then butlast new_slice else new_slice)
            in (seek_sequence original_lines pattern line_index (is_end_of_file chunk),
                pattern, new_slice))
         else (found, pattern, new_slice))"

fun compute_loop :: "ustring list \<Rightarrow> ustring \<Rightarrow> update_file_chunk list \<Rightarrow> nat \<Rightarrow> replacement list
    \<Rightarrow> apply_patch_error + replacement list" where
  "compute_loop original_lines path [] line_index replacements = Inr replacements"
| "compute_loop original_lines path (chunk # chunks) line_index replacements =
     (let after_context =
        (case change_context chunk of
           None \<Rightarrow> Inr line_index
         | Some ctx_line \<Rightarrow>
             (case seek_sequence original_lines [ctx_line] line_index False of
                Some idx \<Rightarrow> Inr (idx + 1)
              | None \<Rightarrow> Inl (ComputeReplacements (lit ''Failed to find context '' @ quoted ctx_line
                  @ lit '' in '' @ path))))
      in case after_context of
           Inl e \<Rightarrow> Inl e
         | Inr line_index \<Rightarrow>
             if old_lines chunk = [] then
               (let insertion_idx = (if last_is_empty original_lines then length original_lines - 1
                                     else length original_lines)
                in compute_loop original_lines path chunks line_index
                     (replacements @ [(insertion_idx, 0, new_lines chunk)]))
             else
               (let (found, pattern, new_slice) = locate_chunk original_lines chunk line_index
                in case found of
                     Some start_idx \<Rightarrow>
                       compute_loop original_lines path chunks (start_idx + length pattern)
                         (replacements @ [(start_idx, length pattern, new_slice)])
                   | None \<Rightarrow>
                       Inl (ComputeReplacements (lit ''Failed to find expected lines in '' @ path
                         @ lit '':'' @ [newline] @ join_with [newline] (old_lines chunk)))))"

definition compute_replacements :: "ustring list \<Rightarrow> ustring \<Rightarrow> update_file_chunk list
    \<Rightarrow> apply_patch_error + replacement list" where
  "compute_replacements original_lines path chunks =
     map_sum (\<lambda>e. e) (sort_key fst) (compute_loop original_lines path chunks 0 [])"

definition remove_lines :: "nat \<Rightarrow> nat \<Rightarrow> 'a list \<Rightarrow> 'a list" where
  "remove_lines start_idx old_len lines =
     ((\<lambda>ls. if start_idx < length ls then remove_nth start_idx ls else ls) ^^ old_len) lines"

text \<open>\<open>Vec::insert\<close> panics when the index is past the end.\<close>

fun insert_lines :: "nat \<Rightarrow> 'a list \<Rightarrow> 'a list \<Rightarrow> 'a list option" where
  "insert_lines idx [] lines = Some lines"
| "insert_lines idx (l # ls) lines =
     (if idx \<le> length lines then insert_lines (idx + 1) ls (insert_nth idx l lines) else None)"

fun apply_in_order :: "replacement list \<Rightarrow> ustring list \<Rightarrow> ustring list option" where
  "apply_in_order [] lines = Some lines"
| "apply_in_order ((start_idx, old_len, new_segment) # reps) lines =
     Option.bind (insert_lines start_idx new_segment (remove_lines start_idx old_len lines))
       (apply_in_order reps)"

definition apply_replacements :: "ustring list \<Rightarrow> replacement list \<Rightarrow> ustring list option" where
  "apply_replacements lines replacements = apply_in_order (rev replacements) lines"

section \<open>The forward splice\<close>

text \<open>
  The reference for the edit: copy the lines before each replaced region, then its new
  lines, from the first region to the last.
\<close>

fun splice :: "nat \<Rightarrow> 'a list \<Rightarrow> (nat \<times> nat \<times> 'a list) list \<Rightarrow> 'a list" where
  "splice pos lines [] = drop pos lines"
| "splice pos lines ((s, n, new) # reps) =
     window pos (s - pos) lines @ new @ splice (s + n) lines reps"

text \<open>Regions in range; and in order, not overlapping, from a position on.\<close>

definition in_range :: "nat \<Rightarrow> replacement list \<Rightarrow> bool" where
  "in_range len reps = list_all (\<lambda>(s, n, _). s + n \<le> len) reps"

fun ordered_from :: "nat \<Rightarrow> nat \<Rightarrow> replacement list \<Rightarrow> bool" where
  "ordered_from len pos [] = (pos \<le> len)"
| "ordered_from len pos ((s, n, _) # reps) = (pos \<le> s \<and> s + n \<le> len \<and> ordered_from len (s + n) reps)"

lemma remove_lines_spec: "start_idx \<le> length lines \<Longrightarrow>
   remove_lines start_idx n lines = take start_idx lines @ drop (start_idx + n) lines"
proof (induction n)
  case (Suc n)
  have "remove_lines start_idx (Suc n) lines =
      (let ls = take start_idx lines @ drop (start_idx + n) lines
       in if start_idx < length ls then remove_nth start_idx ls else ls)"
    using Suc by (simp add: remove_lines_def Let_def)
  also have "\<dots> = take start_idx lines @ drop (start_idx + Suc n) lines"
    using Suc.prems by (auto simp: Let_def remove_nth_def)
  finally show ?case .
qed (simp add: remove_lines_def)

lemma insert_lines_spec: "idx \<le> length lines \<Longrightarrow>
   insert_lines idx new lines = Some (take idx lines @ new @ drop idx lines)"
proof (induction new arbitrary: idx lines)
  case (Cons l new)
  have "insert_lines (idx + 1) new (insert_nth idx l lines) =
      Some (take (idx + 1) (insert_nth idx l lines) @ new @ drop (idx + 1) (insert_nth idx l lines))"
    using Cons.prems by (intro Cons.IH) (simp add: insert_nth_def)
  then show ?case using Cons.prems by (simp add: insert_nth_def min_absorb2)
qed simp

lemma apply_in_order_append:
  "apply_in_order (xs @ ys) lines = Option.bind (apply_in_order xs lines) (apply_in_order ys)"
  by (induction xs arbitrary: lines) (auto split: bind_splits)

lemma apply_one:
  "s \<le> length lines \<Longrightarrow> apply_in_order [(s, n, new)] lines =
     Some (take s lines @ new @ drop (s + n) lines)"
  by (simp add: remove_lines_spec insert_lines_spec min_absorb2)

lemma ordered_from_bounds: "ordered_from len pos reps \<Longrightarrow> pos \<le> len"
  by (induction reps arbitrary: pos) fastforce+

lemma apply_replacements_splice:
  "ordered_from (length lines) pos reps \<Longrightarrow>
   apply_replacements lines reps = Some (take pos lines @ splice pos lines reps)"
proof (induction reps arbitrary: pos)
  case (Cons r reps)
  obtain s n new where r: "r = (s, n, new)" by (cases r)
  with Cons.prems have o: "pos \<le> s" "s + n \<le> length lines" "ordered_from (length lines) (s + n) reps"
    by auto
  from Cons.IH [OF o(3)] have
    "apply_replacements lines (r # reps) =
       apply_in_order [(s, n, new)] (take (s + n) lines @ splice (s + n) lines reps)"
    by (simp add: apply_replacements_def apply_in_order_append r)
  also have "\<dots> = Some (take s lines @ new @ splice (s + n) lines reps)"
    using o(2) by (subst apply_one) (simp_all add: min_absorb1)
  also have "take s lines = take pos lines @ window pos (s - pos) lines"
    using o(1) by (simp add: window_def take_add [symmetric])
  finally show ?case by (simp add: r)
qed (simp add: apply_replacements_def)

lemma apply_replacements_total:
  "sorted (map fst reps) \<Longrightarrow> in_range (length lines) reps \<Longrightarrow>
   \<exists>ls. apply_replacements lines reps = Some ls \<and>
     (case reps of [] \<Rightarrow> ls = lines | (s, _, _) # _ \<Rightarrow> s \<le> length ls)"
proof (induction reps)
  case (Cons r reps)
  obtain s n new where r: "r = (s, n, new)" by (cases r)
  from Cons obtain ls where ls: "apply_replacements lines reps = Some ls"
    "case reps of [] \<Rightarrow> ls = lines | (s, _, _) # _ \<Rightarrow> s \<le> length ls"
    by (auto simp: in_range_def)
  have "s \<le> length ls"
    using ls(2) Cons.prems by (cases reps) (auto simp: r in_range_def)
  then have "apply_replacements lines (r # reps) = Some (take s ls @ new @ drop (s + n) ls)"
    using ls(1) apply_one [of s ls n new]
    by (simp add: apply_replacements_def apply_in_order_append r del: apply_in_order.simps)
  with \<open>s \<le> length ls\<close> show ?case by (simp add: r)
qed (simp add: apply_replacements_def)

lemma locate_chunk_bounds:
  assumes "locate_chunk lines chunk li = (Some i, pattern, new)" and "li \<le> length lines"
  shows "i + length pattern \<le> length lines \<and> (is_end_of_file chunk \<or> li \<le> i)"
proof -
  have "seek_sequence lines pattern li (is_end_of_file chunk) = Some i"
    using assms(1) by (auto simp: locate_chunk_def Let_def split: if_splits)
  then show ?thesis
    using assms(2) seek_sequence_bounds [of lines pattern li "is_end_of_file chunk" i]
    by (cases "pattern = []") (auto simp: seek_sequence_def)
qed

text \<open>One chunk of the loop: the line index it starts from and the replacement it adds.\<close>

lemma compute_loop_step:
  assumes "compute_loop lines path (chunk # chunks) li acc = Inr reps" and "li \<le> length lines"
  obtains li' s n new li'' where "li \<le> li'" "s + n \<le> length lines" "li'' \<le> length lines"
    and "compute_loop lines path chunks li'' (acc @ [(s, n, new)]) = Inr reps"
    and "old_lines chunk = [] \<or> li'' = s + n \<and> (is_end_of_file chunk \<or> li' \<le> s)"
proof -
  obtain li' where li': "li \<le> li'" "li' \<le> length lines"
    and rest: "(if old_lines chunk = [] then
         compute_loop lines path chunks li' (acc @
           [(if last_is_empty lines then length lines - 1 else length lines, 0, new_lines chunk)])
       else (case locate_chunk lines chunk li' of
           (Some i, pattern, new) \<Rightarrow> compute_loop lines path chunks (i + length pattern)
             (acc @ [(i, length pattern, new)])
         | (None, _, _) \<Rightarrow> Inl (ComputeReplacements (lit ''Failed to find expected lines in '' @ path
             @ lit '':'' @ [newline] @ join_with [newline] (old_lines chunk))))) = Inr reps"
  proof (cases "change_context chunk")
    case None
    with that [of li] assms show thesis
      by (auto simp: Let_def split: if_splits prod.splits option.splits)
  next
    case (Some ctx)
    then obtain idx where idx: "seek_sequence lines [ctx] li False = Some idx"
      using assms(1) by (auto simp: Let_def split: option.splits)
    from seek_sequence_bounds [OF this] have "li \<le> idx + 1" "idx + 1 \<le> length lines" by auto
    with that [of "idx + 1"] assms(1) Some idx show thesis
      by (auto simp: Let_def split: if_splits prod.splits option.splits)
  qed
  show thesis
  proof (cases "old_lines chunk = []")
    case True
    with rest show thesis
      by (intro that [OF li'(1) _ li'(2)]) (auto split: if_splits)
  next
    case False
    then obtain i pattern new where loc: "locate_chunk lines chunk li' = (Some i, pattern, new)"
      and loop: "compute_loop lines path chunks (i + length pattern) (acc @ [(i, length pattern, new)]) = Inr reps"
      using rest by (auto split: prod.splits option.splits)
    from locate_chunk_bounds [OF loc li'(2)] loop show thesis
      by (intro that [OF li'(1)]) auto
  qed
qed

lemma compute_loop_in_range:
  "compute_loop lines path chunks li acc = Inr reps \<Longrightarrow> li \<le> length lines
   \<Longrightarrow> in_range (length lines) acc \<Longrightarrow> in_range (length lines) reps"
proof (induction chunks arbitrary: li acc)
  case (Cons chunk chunks)
  from Cons.prems(1,2) show ?case
    by (rule compute_loop_step) (use Cons.IH Cons.prems(3) in \<open>auto simp: in_range_def\<close>)
qed simp

text \<open>The usual chunks: they replace something and are not tied to the end of the file.\<close>

definition plain_chunk :: "update_file_chunk \<Rightarrow> bool" where
  "plain_chunk c = (old_lines c \<noteq> [] \<and> \<not> is_end_of_file c)"

lemma ordered_from_mono: "ordered_from len p reps \<Longrightarrow> q \<le> p \<Longrightarrow> ordered_from len q reps"
  by (cases reps) auto

lemma compute_loop_ordered:
  "compute_loop lines path chunks li acc = Inr reps \<Longrightarrow> li \<le> length lines
   \<Longrightarrow> list_all plain_chunk chunks
   \<Longrightarrow> \<exists>new. reps = acc @ new \<and> ordered_from (length lines) li new"
proof (induction chunks arbitrary: li acc)
  case (Cons chunk chunks)
  from Cons.prems(1,2) obtain li' s n new li'' where
    step: "li \<le> li'" "s + n \<le> length lines" "li'' \<le> length lines"
      "compute_loop lines path chunks li'' (acc @ [(s, n, new)]) = Inr reps"
      "old_lines chunk = [] \<or> li'' = s + n \<and> (is_end_of_file chunk \<or> li' \<le> s)"
    by (rule compute_loop_step)
  with Cons.prems(3) have "li'' = s + n" "li \<le> s" by (auto simp: plain_chunk_def)
  with Cons.IH [OF step(4,3)] Cons.prems(3) step(2) show ?case by auto
qed simp

lemma ordered_from_sorted: "ordered_from len pos reps \<Longrightarrow> sorted (map fst reps) \<and> (\<forall>r \<in> set reps. pos \<le> fst r)"
proof (induction reps arbitrary: pos)
  case (Cons r reps)
  obtain s n new where r: "r = (s, n, new)" by (cases r)
  with Cons.prems have "pos \<le> s" "ordered_from len (s + n) reps" by auto
  with Cons.IH [of "s + n"] r show ?case by fastforce
qed simp

lemma compute_replacements_total:
  assumes "compute_replacements lines path chunks = Inr reps"
  shows "in_range (length lines) reps \<and> sorted (map fst reps) \<and> apply_replacements lines reps \<noteq> None"
proof -
  from assms obtain rs where rs: "compute_loop lines path chunks 0 [] = Inr rs" "reps = sort_key fst rs"
    by (cases "compute_loop lines path chunks 0 []") (auto simp: compute_replacements_def)
  then have "in_range (length lines) rs"
    by (intro compute_loop_in_range [OF rs(1)]) (simp_all add: in_range_def)
  then have r: "in_range (length lines) reps" by (simp add: in_range_def list_all_iff rs(2))
  have s: "sorted (map fst reps)" by (simp add: rs(2))
  from apply_replacements_total [OF s r] r s show ?thesis by auto
qed

text \<open>
  For chunks that replace lines and are not tied to the end of the file, editing from
  the last region back to the first gives exactly the forward splice of the regions: they
  come in order, do not overlap, and the lines between them are untouched.
\<close>

theorem plain_chunks_splice:
  assumes "list_all plain_chunk chunks" and "compute_replacements lines path chunks = Inr reps"
  shows "ordered_from (length lines) 0 reps \<and> apply_replacements lines reps = Some (splice 0 lines reps)"
proof -
  from assms(2) obtain rs where rs: "compute_loop lines path chunks 0 [] = Inr rs" "reps = sort_key fst rs"
    by (cases "compute_loop lines path chunks 0 []") (auto simp: compute_replacements_def)
  from compute_loop_ordered [OF rs(1) _ assms(1)] have o: "ordered_from (length lines) 0 rs" by simp
  then have "reps = rs" using ordered_from_sorted rs(2) by (metis sort_key_id_if_sorted)
  with o apply_replacements_splice [OF o] show ?thesis by simp
qed

definition sample_chunk :: "string \<Rightarrow> string \<Rightarrow> update_file_chunk" where
  "sample_chunk old new = \<lparr>change_context = None, old_lines = [lit old], new_lines = [lit new],
     is_end_of_file = False\<rparr>"

lemma plain_chunks_splice_witness:
  "apply_replacements (map lit [''a'', ''b'', ''c'']) [(0, 1, [lit ''x'']), (2, 1, [lit ''y''])] =
     Some (map lit [''x'', ''b'', ''y''])"
proof -
  have "compute_replacements (map lit [''a'', ''b'', ''c'']) [] [sample_chunk ''a'' ''x'', sample_chunk ''c'' ''y''] =
      Inr [(0, 1, [lit ''x'']), (2, 1, [lit ''y''])]"
    by (simp add: compute_replacements_def sample_chunk_def locate_chunk_def seek_sequence_def
        seek_pass_def window_def last_is_empty_def upt_rec)
  from plain_chunks_splice [OF _ this] show ?thesis
    by (simp add: plain_chunk_def sample_chunk_def window_def)
qed

text \<open>
  Outside those chunks edits can be lost: a pure addition after a chunk that replaces
  the blank last line of the file, or a chunk tied to the end that overlaps an earlier one,
  succeeds and leaves its new lines out of the result.
\<close>

theorem overlapping_chunks_lose_edits:
  "Option.bind (Some [lit ''a'', []]) (\<lambda>ls. case compute_replacements ls []
      [\<lparr>change_context = None, old_lines = [lit ''a'', []], new_lines = [lit ''b''], is_end_of_file = False\<rparr>,
       \<lparr>change_context = None, old_lines = [], new_lines = [lit ''c''], is_end_of_file = False\<rparr>] of
     Inl e \<Rightarrow> None | Inr reps \<Rightarrow> apply_replacements ls reps) = Some [lit ''b'', []] \<and>
   Option.bind (Some [lit ''a'', lit ''b'']) (\<lambda>ls. case compute_replacements ls []
      [\<lparr>change_context = None, old_lines = [lit ''a'', lit ''b''], new_lines = [lit ''c'', lit ''d''],
         is_end_of_file = False\<rparr>,
       \<lparr>change_context = None, old_lines = [lit ''b''], new_lines = [lit ''e''], is_end_of_file = True\<rparr>] of
     Inl e \<Rightarrow> None | Inr reps \<Rightarrow> apply_replacements ls reps) = Some [lit ''c'', lit ''d'']"
  by (simp add: compute_replacements_def locate_chunk_def seek_sequence_def seek_pass_def window_def
      last_is_empty_def upt_rec apply_replacements_def remove_lines_def remove_nth_def insert_nth_def
      numeral_2_eq_2)

end
