(* ===== verification/PatchFiles.thy ===== *)
theory PatchFiles
  imports PatchApply
begin

text \<open>
  Carrying hunks out on files (\<open>apply-patch/src/lib.rs\<close>) and the preview that is shown for
  approval first (\<open>apply-patch/src/invocation.rs\<close>). The file system is the trait
  \<open>ExecutorFileSystem\<close>: each operation returns its result and the next state.
\<close>

section \<open>The file system\<close>

record 'fs file_system =
  read_file_text :: "'fs \<Rightarrow> ustring \<Rightarrow> io_error + ustring"
  write_file :: "'fs \<Rightarrow> ustring \<Rightarrow> ustring \<Rightarrow> (io_error + unit) \<times> 'fs"
  create_directory :: "'fs \<Rightarrow> ustring \<Rightarrow> (io_error + unit) \<times> 'fs"
  metadata_is_directory :: "'fs \<Rightarrow> ustring \<Rightarrow> io_error + bool"
  remove_path :: "'fs \<Rightarrow> ustring \<Rightarrow> (io_error + unit) \<times> 'fs"

text \<open>
  What \<open>anyhow\<close> carries out of the helper: a message, an I/O error under a context, or a
  patch error.
\<close>

datatype anyhow_error =
    Bail ustring
  | WithContext ustring io_error
  | PatchFailure apply_patch_error

fun parse_error_display :: "(nat \<Rightarrow> ustring) \<Rightarrow> parse_error \<Rightarrow> ustring" where
  "parse_error_display show_nat (InvalidPatchError message) = lit ''invalid patch: '' @ message"
| "parse_error_display show_nat (InvalidHunkError message line_number) =
     lit ''invalid hunk at line '' @ show_nat line_number @ lit '', '' @ message"

fun apply_patch_error_display :: "(nat \<Rightarrow> ustring) \<Rightarrow> apply_patch_error \<Rightarrow> ustring" where
  "apply_patch_error_display show_nat (ParseErr e) = parse_error_display show_nat e"
| "apply_patch_error_display show_nat (IoErr context source) = context @ lit '': '' @ io_message source"
| "apply_patch_error_display show_nat (ComputeReplacements message) = message"
| "apply_patch_error_display show_nat ImplicitInvocation =
     lit ''patch detected without explicit call to apply_patch. Rerun as ['' @ [34] @ lit ''apply_patch''
       @ [34] @ lit '', '' @ [34] @ lit ''<patch>'' @ [34] @ lit '']''"

fun anyhow_display :: "(nat \<Rightarrow> ustring) \<Rightarrow> anyhow_error \<Rightarrow> ustring" where
  "anyhow_display show_nat (Bail message) = message"
| "anyhow_display show_nat (WithContext context source) = context"
| "anyhow_display show_nat (PatchFailure e) = apply_patch_error_display show_nat e"

definition derive_new_contents_from_chunks ::
  "'fs file_system \<Rightarrow> 'fs \<Rightarrow> ustring \<Rightarrow> update_file_chunk list
   \<Rightarrow> (apply_patch_error + ustring \<times> ustring) option" where
  "derive_new_contents_from_chunks fs st path_abs chunks =
     (case read_file_text fs st path_abs of
        Inl err \<Rightarrow> Some (Inl (IoErr (lit ''Failed to read file to update '' @ path_abs) err))
      | Inr original_contents \<Rightarrow>
          (let split_lines = split_on newline original_contents;
               original_lines = (if last_is_empty split_lines then butlast split_lines else split_lines)
           in case compute_replacements original_lines path_abs chunks of
                Inl e \<Rightarrow> Some (Inl e)
              | Inr replacements \<Rightarrow>
                  (case apply_replacements original_lines replacements of
                     None \<Rightarrow> None
                   | Some edited \<Rightarrow>
                       (let all_lines = (if last_is_empty edited then edited else edited @ [[]])
                        in Some (Inr (original_contents, join_with [newline] all_lines))))))"

definition write_file_with_missing_parent_retry ::
  "'fs file_system \<Rightarrow> 'fs \<Rightarrow> ustring \<Rightarrow> ustring \<Rightarrow> (anyhow_error + unit) \<times> 'fs" where
  "write_file_with_missing_parent_retry fs st path_abs contents =
     (let failed = lit ''Failed to write file '' @ path_abs in
      case write_file fs st path_abs contents of
        (Inr _, st1) \<Rightarrow> (Inr (), st1)
      | (Inl err, st1) \<Rightarrow>
          if io_kind err = NotFound then
            (let (created, st2) =
               (case abs_parent path_abs of
                  None \<Rightarrow> (Inr (), st1)
                | Some parent_abs \<Rightarrow>
                    (case create_directory fs st1 parent_abs of
                       (Inr _, st2) \<Rightarrow> (Inr (), st2)
                     | (Inl e, st2) \<Rightarrow>
                         (Inl (WithContext (lit ''Failed to create parent directories for '' @ path_abs) e), st2)))
             in case created of
                  Inl e \<Rightarrow> (Inl e, st2)
                | Inr _ \<Rightarrow>
                    (case write_file fs st2 path_abs contents of
                       (Inr _, st3) \<Rightarrow> (Inr (), st3)
                     | (Inl e, st3) \<Rightarrow> (Inl (WithContext failed e), st3)))
          else (Inl (WithContext failed err), st1))"

definition remove_regular_file ::
  "'fs file_system \<Rightarrow> 'fs \<Rightarrow> ustring \<Rightarrow> ustring \<Rightarrow> (anyhow_error + unit) \<times> 'fs" where
  "remove_regular_file fs st path_abs context =
     (case metadata_is_directory fs st path_abs of
        Inl e \<Rightarrow> (Inl (WithContext context e), st)
      | Inr True \<Rightarrow>
          (Inl (WithContext context (IoFailure InvalidInput (lit ''path is a directory''))), st)
      | Inr False \<Rightarrow>
          (case remove_path fs st path_abs of
             (Inr _, st1) \<Rightarrow> (Inr (), st1)
           | (Inl e, st1) \<Rightarrow> (Inl (WithContext context e), st1)))"

record affected_paths =
  added :: "ustring list"
  modified :: "ustring list"
  deleted :: "ustring list"

datatype hunk_effect = Added | Modified | Deleted

text \<open>One turn of the loop over the hunks; \<open>None\<close> is a panic.\<close>

definition apply_one_hunk ::
  "path_env \<Rightarrow> 'fs file_system \<Rightarrow> ustring \<Rightarrow> hunk \<Rightarrow> 'fs
   \<Rightarrow> ((anyhow_error + hunk_effect) \<times> 'fs) option" where
  "apply_one_hunk env fs cwd h st =
     (let path_abs = hunk_resolve_path env h cwd in
      case h of
        AddFile _ contents \<Rightarrow>
          Some (case write_file_with_missing_parent_retry fs st path_abs contents of
                  (Inl e, st1) \<Rightarrow> (Inl e, st1)
                | (Inr _, st1) \<Rightarrow> (Inr Added, st1))
      | DeleteFile _ \<Rightarrow>
          Some (case remove_regular_file fs st path_abs (lit ''Failed to delete file '' @ path_abs) of
                  (Inl e, st1) \<Rightarrow> (Inl e, st1)
                | (Inr _, st1) \<Rightarrow> (Inr Deleted, st1))
      | UpdateFile _ move_path chunks \<Rightarrow>
          (case derive_new_contents_from_chunks fs st path_abs chunks of
             None \<Rightarrow> None
           | Some (Inl e) \<Rightarrow> Some (Inl (PatchFailure e), st)
           | Some (Inr (_, new_contents)) \<Rightarrow>
               Some (case move_path of
                 Some dest \<Rightarrow>
                   (case write_file_with_missing_parent_retry fs st
                           (resolve_path_against_base env dest cwd) new_contents of
                      (Inl e, st1) \<Rightarrow> (Inl e, st1)
                    | (Inr _, st1) \<Rightarrow>
                        (case remove_regular_file fs st1 path_abs
                                (lit ''Failed to remove original '' @ path_abs) of
                           (Inl e, st2) \<Rightarrow> (Inl e, st2)
                         | (Inr _, st2) \<Rightarrow> (Inr Modified, st2)))
               | None \<Rightarrow>
                   (case write_file fs st path_abs new_contents of
                      (Inr _, st1) \<Rightarrow> (Inr Modified, st1)
                    | (Inl e, st1) \<Rightarrow>
                        (Inl (WithContext (lit ''Failed to write file '' @ path_abs) e), st1)))))"

definition record_effect :: "hunk \<Rightarrow> hunk_effect \<Rightarrow> affected_paths \<Rightarrow> affected_paths" where
  "record_effect h effect a =
     (case effect of
        Added \<Rightarrow> a\<lparr>added := added a @ [hunk_path h]\<rparr>
      | Modified \<Rightarrow> a\<lparr>modified := modified a @ [hunk_path h]\<rparr>
      | Deleted \<Rightarrow> a\<lparr>deleted := deleted a @ [hunk_path h]\<rparr>)"

fun apply_hunks_loop ::
  "path_env \<Rightarrow> 'fs file_system \<Rightarrow> ustring \<Rightarrow> affected_paths \<Rightarrow> hunk list \<Rightarrow> 'fs
   \<Rightarrow> ((anyhow_error + affected_paths) \<times> 'fs) option" where
  "apply_hunks_loop env fs cwd affected [] st = Some (Inr affected, st)"
| "apply_hunks_loop env fs cwd affected (h # hs) st =
     (case apply_one_hunk env fs cwd h st of
        None \<Rightarrow> None
      | Some (Inl e, st1) \<Rightarrow> Some (Inl e, st1)
      | Some (Inr effect, st1) \<Rightarrow> apply_hunks_loop env fs cwd (record_effect h effect affected) hs st1)"

definition apply_hunks_to_files ::
  "path_env \<Rightarrow> 'fs file_system \<Rightarrow> hunk list \<Rightarrow> ustring \<Rightarrow> 'fs
   \<Rightarrow> ((anyhow_error + affected_paths) \<times> 'fs) option" where
  "apply_hunks_to_files env fs hunks cwd st =
     (if hunks = [] then Some (Inl (Bail (lit ''No files were modified.'')), st)
      else apply_hunks_loop env fs cwd \<lparr>added = [], modified = [], deleted = []\<rparr> hunks st)"

definition print_summary :: "affected_paths \<Rightarrow> ustring" where
  "print_summary affected =
     lit ''Success. Updated the following files:'' @ [newline]
     @ concat (map (\<lambda>p. lit ''A '' @ p @ [newline]) (added affected))
     @ concat (map (\<lambda>p. lit ''M '' @ p @ [newline]) (modified affected))
     @ concat (map (\<lambda>p. lit ''D '' @ p @ [newline]) (deleted affected))"

text \<open>
  The entry points write to two streams, here the texts they have received; a stream that
  refuses text is not modelled.
\<close>

record 'fs patch_output =
  out_result :: "apply_patch_error + unit"
  out_stdout :: ustring
  out_stderr :: ustring
  out_state :: 'fs

definition apply_hunks ::
  "(nat \<Rightarrow> ustring) \<Rightarrow> path_env \<Rightarrow> 'fs file_system \<Rightarrow> hunk list \<Rightarrow> ustring \<Rightarrow> 'fs
   \<Rightarrow> 'fs patch_output option" where
  "apply_hunks show_nat env fs hunks cwd st =
     (case apply_hunks_to_files env fs hunks cwd st of
        None \<Rightarrow> None
      | Some (Inr affected, st1) \<Rightarrow>
          Some \<lparr>out_result = Inr (), out_stdout = print_summary affected, out_stderr = [],
                out_state = st1\<rparr>
      | Some (Inl err, st1) \<Rightarrow>
          (let msg = anyhow_display show_nat err
           in Some \<lparr>out_result = Inl (case err of
                      WithContext _ io \<Rightarrow> IoErr (lit ''I/O error'') (IoFailure (io_kind io) (io_message io))
                    | _ \<Rightarrow> IoErr msg (IoFailure OtherKind msg)),
                    out_stdout = [], out_stderr = msg @ [newline], out_state = st1\<rparr>))"

definition apply_patch ::
  "(nat \<Rightarrow> ustring) \<Rightarrow> path_env \<Rightarrow> 'fs file_system \<Rightarrow> ustring \<Rightarrow> ustring \<Rightarrow> 'fs
   \<Rightarrow> 'fs patch_output option" where
  "apply_patch show_nat env fs patch cwd st =
     (case parse_patch patch of
        Inr source \<Rightarrow> apply_hunks show_nat env fs (args_hunks source) cwd st
      | Inl e \<Rightarrow>
          Some \<lparr>out_result = Inl (ParseErr e), out_stdout = [],
                out_stderr = (case e of
                    InvalidPatchError message \<Rightarrow> lit ''Invalid patch: '' @ message @ [newline]
                  | InvalidHunkError message line_number \<Rightarrow>
                      lit ''Invalid patch hunk on line '' @ show_nat line_number @ lit '': '' @ message
                      @ [newline]),
                out_state = st\<rparr>)"

section \<open>Recognising an invocation\<close>

datatype apply_patch_shell = Unix | PowerShellScript | CmdScript

datatype extract_heredoc_error =
    CommandDidNotStartWithApplyPatch
  | FailedToLoadBashGrammar
  | HeredocNotUtf8
  | FailedToParsePatchIntoAst
  | FailedToFindHeredocBody

definition APPLY_PATCH_COMMANDS :: "ustring list" where
  "APPLY_PATCH_COMMANDS = [lit ''apply_patch'', lit ''applypatch'']"

definition classify_shell_name :: "ustring \<Rightarrow> ustring option" where
  "classify_shell_name shell = map_option to_ascii_lowercase (path_file_stem shell)"

definition classify_shell :: "ustring \<Rightarrow> ustring \<Rightarrow> apply_patch_shell option" where
  "classify_shell shell flag =
     (case classify_shell_name shell of
        None \<Rightarrow> None
      | Some name \<Rightarrow>
          if name \<in> set (map lit [''bash'', ''zsh'', ''sh'']) \<and> flag \<in> set (map lit [''-lc'', ''-c''])
          then Some Unix
          else if name \<in> set (map lit [''pwsh'', ''powershell'']) \<and> to_ascii_lowercase flag = lit ''-command''
          then Some PowerShellScript
          else if name = lit ''cmd'' \<and> to_ascii_lowercase flag = lit ''/c'' then Some CmdScript
          else None)"

definition can_skip_flag :: "ustring \<Rightarrow> ustring \<Rightarrow> bool" where
  "can_skip_flag shell flag =
     (case classify_shell_name shell of
        None \<Rightarrow> False
      | Some name \<Rightarrow> name \<in> set (map lit [''pwsh'', ''powershell'']) \<and> to_ascii_lowercase flag = lit ''-noprofile'')"

definition parse_shell_script :: "ustring list \<Rightarrow> (apply_patch_shell \<times> ustring) option" where
  "parse_shell_script argv =
     (case argv of
        [shell, flag, script] \<Rightarrow> map_option (\<lambda>t. (t, script)) (classify_shell shell flag)
      | [shell, skip_flag, flag, script] \<Rightarrow>
          if can_skip_flag shell skip_flag
          then map_option (\<lambda>t. (t, script)) (classify_shell shell flag) else None
      | _ \<Rightarrow> None)"

text \<open>
  The matches of the tree-sitter query on a script, each the captures in order with the
  text of the captured node if that is UTF-8.
\<close>

type_synonym captures = "(ustring \<times> ustring option) list"

fun scan_captures :: "captures \<Rightarrow> ustring option \<Rightarrow> ustring option
    \<Rightarrow> extract_heredoc_error + (ustring option \<times> ustring option)" where
  "scan_captures [] heredoc_text cd_path = Inr (heredoc_text, cd_path)"
| "scan_captures ((name, node_text) # captures) heredoc_text cd_path =
     (if name \<in> set (map lit [''heredoc'', ''cd_path'', ''cd_raw_string'']) then
        (case node_text of
           None \<Rightarrow> Inl HeredocNotUtf8
         | Some txt \<Rightarrow>
             if name = lit ''heredoc'' then
               scan_captures captures (Some (rev (dropWhile (\<lambda>c. c = newline) (rev txt)))) cd_path
             else if name = lit ''cd_path'' then scan_captures captures heredoc_text (Some txt)
             else scan_captures captures heredoc_text
                    (Some (case Option.bind (strip_prefix [39] txt) (strip_suffix [39]) of
                             None \<Rightarrow> txt | Some trimmed \<Rightarrow> trimmed)))
      else scan_captures captures heredoc_text cd_path)"

fun first_heredoc :: "captures list \<Rightarrow> extract_heredoc_error + (ustring \<times> ustring option)" where
  "first_heredoc [] = Inl CommandDidNotStartWithApplyPatch"
| "first_heredoc (m # ms) =
     (case scan_captures m None None of
        Inl e \<Rightarrow> Inl e
      | Inr (Some heredoc, cd_path) \<Rightarrow> Inr (heredoc, cd_path)
      | Inr (None, _) \<Rightarrow> first_heredoc ms)"

type_synonym heredoc_query = "ustring \<Rightarrow> extract_heredoc_error + captures list"

definition extract_apply_patch_from_bash ::
  "heredoc_query \<Rightarrow> ustring \<Rightarrow> extract_heredoc_error + (ustring \<times> ustring option)" where
  "extract_apply_patch_from_bash query src =
     (case query src of Inl e \<Rightarrow> Inl e | Inr matches \<Rightarrow> first_heredoc matches)"

datatype maybe_apply_patch =
    Body apply_patch_args
  | ShellParseError extract_heredoc_error
  | PatchParseError parse_error
  | NotApplyPatch

definition maybe_parse_apply_patch :: "heredoc_query \<Rightarrow> ustring list \<Rightarrow> maybe_apply_patch" where
  "maybe_parse_apply_patch query argv =
     (case (case argv of [cmd, body] \<Rightarrow> if cmd \<in> set APPLY_PATCH_COMMANDS then Some body else None
                       | _ \<Rightarrow> None) of
        Some body \<Rightarrow> (case parse_patch body of Inr source \<Rightarrow> Body source | Inl e \<Rightarrow> PatchParseError e)
      | None \<Rightarrow>
          (case parse_shell_script argv of
             None \<Rightarrow> NotApplyPatch
           | Some (_, script) \<Rightarrow>
               (case extract_apply_patch_from_bash query script of
                  Inl CommandDidNotStartWithApplyPatch \<Rightarrow> NotApplyPatch
                | Inl e \<Rightarrow> ShellParseError e
                | Inr (body, workdir) \<Rightarrow>
                    (case parse_patch body of
                       Inr source \<Rightarrow> Body (source\<lparr>args_workdir := workdir\<rparr>)
                     | Inl e \<Rightarrow> PatchParseError e))))"

section \<open>The preview\<close>

datatype file_change =
    AddChange ustring
  | DeleteChange ustring
  | UpdateChange ustring "ustring option" ustring

record apply_patch_action =
  action_changes :: "ustring \<rightharpoonup> file_change"
  action_patch :: ustring
  action_cwd :: ustring

datatype maybe_apply_patch_verified =
    VerifiedBody apply_patch_action
  | VerifiedShellParseError extract_heredoc_error
  | CorrectnessError apply_patch_error
  | VerifiedNotApplyPatch

text \<open>\<open>diff\<close> is the unified diff of the package \<open>similar\<close>.\<close>

definition change_of_hunk ::
  "(ustring \<Rightarrow> ustring \<Rightarrow> ustring) \<Rightarrow> path_env \<Rightarrow> 'fs file_system \<Rightarrow> 'fs \<Rightarrow> ustring \<Rightarrow> hunk
   \<Rightarrow> (apply_patch_error + file_change) option" where
  "change_of_hunk diff env fs st cwd h =
     (let path = hunk_resolve_path env h cwd in
      case h of
        AddFile _ contents \<Rightarrow> Some (Inr (AddChange contents))
      | DeleteFile _ \<Rightarrow>
          Some (case read_file_text fs st path of
                  Inr content \<Rightarrow> Inr (DeleteChange content)
                | Inl e \<Rightarrow> Inl (IoErr (lit ''Failed to read '' @ path) e))
      | UpdateFile _ move_path chunks \<Rightarrow>
          (case derive_new_contents_from_chunks fs st path chunks of
             None \<Rightarrow> None
           | Some (Inl e) \<Rightarrow> Some (Inl e)
           | Some (Inr (original_contents, new_contents)) \<Rightarrow>
               Some (Inr (UpdateChange (diff original_contents new_contents)
                 (map_option (\<lambda>p. resolve_path_against_base env p cwd) move_path) new_contents))))"

fun changes_loop ::
  "(ustring \<Rightarrow> ustring \<Rightarrow> ustring) \<Rightarrow> path_env \<Rightarrow> 'fs file_system \<Rightarrow> 'fs \<Rightarrow> ustring \<Rightarrow> hunk list
   \<Rightarrow> (ustring \<rightharpoonup> file_change) \<Rightarrow> (apply_patch_error + (ustring \<rightharpoonup> file_change)) option" where
  "changes_loop diff env fs st cwd [] changes = Some (Inr changes)"
| "changes_loop diff env fs st cwd (h # hs) changes =
     (case change_of_hunk diff env fs st cwd h of
        None \<Rightarrow> None
      | Some (Inl e) \<Rightarrow> Some (Inl e)
      | Some (Inr c) \<Rightarrow>
          changes_loop diff env fs st cwd hs (changes(hunk_resolve_path env h cwd \<mapsto> c)))"

definition maybe_parse_apply_patch_verified ::
  "heredoc_query \<Rightarrow> (ustring \<Rightarrow> ustring \<Rightarrow> ustring) \<Rightarrow> path_env \<Rightarrow> 'fs file_system \<Rightarrow> 'fs
   \<Rightarrow> ustring list \<Rightarrow> ustring \<Rightarrow> maybe_apply_patch_verified option" where
  "maybe_parse_apply_patch_verified query diff env fs st argv cwd =
     (if (case argv of [body] \<Rightarrow> isl (parse_patch body) = False | _ \<Rightarrow> False)
         \<or> (case parse_shell_script argv of
              Some (_, script) \<Rightarrow> isl (parse_patch script) = False | None \<Rightarrow> False)
      then Some (CorrectnessError ImplicitInvocation)
      else
        (case maybe_parse_apply_patch query argv of
           Body args \<Rightarrow>
             (let effective_cwd = (case args_workdir args of
                     None \<Rightarrow> cwd | Some dir \<Rightarrow> resolve_path_against_base env dir cwd)
              in case changes_loop diff env fs st effective_cwd (args_hunks args) Map.empty of
                   None \<Rightarrow> None
                 | Some (Inl e) \<Rightarrow> Some (CorrectnessError e)
                 | Some (Inr changes) \<Rightarrow>
                     Some (VerifiedBody \<lparr>action_changes = changes, action_patch = args_patch args,
                                         action_cwd = effective_cwd\<rparr>))
         | ShellParseError e \<Rightarrow> Some (VerifiedShellParseError e)
         | PatchParseError e \<Rightarrow> Some (CorrectnessError (ParseErr e))
         | NotApplyPatch \<Rightarrow> Some VerifiedNotApplyPatch))"

section \<open>Laws of a file system\<close>

text \<open>
  What the trait documents and the code relies on: a successful write is what is read
  next, a removed path cannot be read, and no operation changes what another path reads.
\<close>

definition file_system_laws :: "'fs file_system \<Rightarrow> bool" where
  "file_system_laws fs \<longleftrightarrow>
     (\<forall>st p c r st'. write_file fs st p c = (r, st') \<longrightarrow>
        (\<not> isl r \<longrightarrow> read_file_text fs st' p = Inr c) \<and>
        (\<forall>q. q \<noteq> p \<longrightarrow> read_file_text fs st' q = read_file_text fs st q)) \<and>
     (\<forall>st p r st'. remove_path fs st p = (r, st') \<longrightarrow>
        (\<not> isl r \<longrightarrow> isl (read_file_text fs st' p)) \<and>
        (\<forall>q. q \<noteq> p \<longrightarrow> read_file_text fs st' q = read_file_text fs st q)) \<and>
     (\<forall>st p r st' q. create_directory fs st p = (r, st') \<longrightarrow>
        read_file_text fs st' q = read_file_text fs st q)"

text \<open>A file system on a map from paths to contents, for the examples.\<close>

definition map_fs :: "(ustring \<rightharpoonup> ustring) file_system" where
  "map_fs = \<lparr>read_file_text = (\<lambda>m p. case m p of None \<Rightarrow> Inl (IoFailure NotFound []) | Some c \<Rightarrow> Inr c),
     write_file = (\<lambda>m p c. (Inr (), m(p \<mapsto> c))),
     create_directory = (\<lambda>m p. (Inr (), m)),
     metadata_is_directory = (\<lambda>m p. if m p = None then Inl (IoFailure NotFound []) else Inr False),
     remove_path = (\<lambda>m p. if m p = None then (Inl (IoFailure NotFound []), m) else (Inr (), m(p := None)))\<rparr>"

lemma map_fs_laws: "file_system_laws map_fs"
  by (auto simp: file_system_laws_def map_fs_def split: if_splits option.splits)

lemma write_file_reads:
  assumes "file_system_laws fs" and "write_file fs st p c = (r, st')"
  shows "\<not> isl r \<Longrightarrow> read_file_text fs st' p = Inr c"
    and "q \<noteq> p \<Longrightarrow> read_file_text fs st' q = read_file_text fs st q"
  using assms by (auto simp: file_system_laws_def)

lemma remove_path_reads:
  assumes "file_system_laws fs" and "remove_path fs st p = (r, st')"
  shows "\<not> isl r \<Longrightarrow> isl (read_file_text fs st' p)"
    and "q \<noteq> p \<Longrightarrow> read_file_text fs st' q = read_file_text fs st q"
  using assms by (auto simp: file_system_laws_def)

lemma create_directory_reads:
  "file_system_laws fs \<Longrightarrow> create_directory fs st p = (r, st') \<Longrightarrow>
   read_file_text fs st' q = read_file_text fs st q"
  by (auto simp: file_system_laws_def)

lemma write_retry_reads:
  assumes laws: "file_system_laws fs"
    and w: "write_file_with_missing_parent_retry fs st p c = (r, st')"
  shows "\<not> isl r \<Longrightarrow> read_file_text fs st' p = Inr c"
    and "q \<noteq> p \<Longrightarrow> read_file_text fs st' q = read_file_text fs st q"
proof -
  obtain r1 st1 where w1: "write_file fs st p c = (r1, st1)" by fastforce
  obtain r2 st2 where d: "(case abs_parent p of None \<Rightarrow> (Inr (), st1)
      | Some d \<Rightarrow> (case create_directory fs st1 d of (Inr _, s) \<Rightarrow> (Inr (), s)
         | (Inl e, s) \<Rightarrow> (Inl (WithContext (lit ''Failed to create parent directories for '' @ p) e), s)))
      = (r2, st2)" by fastforce
  obtain r3 st3 where w3: "write_file fs st2 p c = (r3, st3)" by fastforce
  have same: "read_file_text fs st2 q = read_file_text fs st1 q" for q
    using d create_directory_reads [OF laws] by (auto split: option.splits prod.splits sum.splits)
  from w have cases: "(\<not> isl r1 \<and> \<not> isl r \<and> st' = st1) \<or> (isl r1 \<and> isl r \<and> st' = st1)
      \<or> (isl r \<and> st' = st2) \<or> (\<not> isl r3 \<and> \<not> isl r \<and> st' = st3) \<or> (isl r3 \<and> isl r \<and> st' = st3)"
    unfolding write_file_with_missing_parent_retry_def Let_def w1 prod.case d
    by (cases r1; cases r2; cases r3) (auto simp: w3 split: if_splits)
  note r1 = write_file_reads [OF laws w1] and r3 = write_file_reads [OF laws w3]
  show "\<not> isl r \<Longrightarrow> read_file_text fs st' p = Inr c" using cases r1(1) r3(1) by auto
  show "q \<noteq> p \<Longrightarrow> read_file_text fs st' q = read_file_text fs st q"
    using cases r1(2) r3(2) same by auto
qed

lemma remove_regular_reads:
  assumes "file_system_laws fs" and "remove_regular_file fs st p ctx = (r, st')"
  shows "\<not> isl r \<Longrightarrow> isl (read_file_text fs st' p)"
    and "q \<noteq> p \<Longrightarrow> read_file_text fs st' q = read_file_text fs st q"
proof -
  obtain r1 st1 where r1: "remove_path fs st p = (r1, st1)" by fastforce
  have cases: "(\<not> isl r1 \<and> \<not> isl r \<and> st' = st1) \<or> (isl r \<and> st' = st1) \<or> (isl r \<and> st' = st)"
    using assms(2) r1 unfolding remove_regular_file_def
    by (cases r1) (auto split: sum.splits bool.splits)
  note n = remove_path_reads [OF assms(1) r1]
  show "\<not> isl r \<Longrightarrow> isl (read_file_text fs st' p)" using cases n(1) by auto
  show "q \<noteq> p \<Longrightarrow> read_file_text fs st' q = read_file_text fs st q" using cases n(2) by auto
qed

section \<open>No panic\<close>

lemma derive_no_panic [simp]: "derive_new_contents_from_chunks fs st p chunks \<noteq> None"
  using compute_replacements_total
  by (fastforce simp: derive_new_contents_from_chunks_def Let_def split: sum.splits option.splits)

lemma apply_one_hunk_no_panic [simp]: "apply_one_hunk env fs cwd h st \<noteq> None"
  by (auto simp: apply_one_hunk_def Let_def split: hunk.splits option.splits sum.splits prod.splits)

lemma apply_hunks_loop_no_panic: "apply_hunks_loop env fs cwd a hs st \<noteq> None"
  by (induction hs arbitrary: a st) (auto split: option.splits sum.splits)

lemma changes_loop_no_panic: "changes_loop diff env fs st cwd hs changes \<noteq> None"
proof (induction hs arbitrary: changes)
  case (Cons h hs)
  have "change_of_hunk diff env fs st cwd h \<noteq> None"
    by (auto simp: change_of_hunk_def Let_def split: hunk.splits option.splits sum.splits)
  with Cons show ?case by (auto split: option.splits sum.splits)
qed simp

text \<open>
  Neither previewing nor applying a patch panics, for any patch text, any invocation and
  any file system: the edit of the lines never inserts out of range.
\<close>

theorem patch_never_panics:
  "apply_patch show_nat env fs patch cwd st \<noteq> None \<and>
   maybe_parse_apply_patch_verified query diff env fs st argv cwd \<noteq> None"
proof
  show "apply_patch show_nat env fs patch cwd st \<noteq> None"
    by (auto simp: apply_hunks_loop_no_panic apply_patch_def apply_hunks_def apply_hunks_to_files_def Let_def
        split: sum.splits option.splits)
  show "maybe_parse_apply_patch_verified query diff env fs st argv cwd \<noteq> None"
    by (auto simp: changes_loop_no_panic maybe_parse_apply_patch_verified_def Let_def
        split: maybe_apply_patch.splits option.splits sum.splits)
qed

section \<open>The preview and the result\<close>

definition touched :: "path_env \<Rightarrow> ustring \<Rightarrow> hunk \<Rightarrow> ustring list" where
  "touched env cwd h = hunk_resolve_path env h cwd
     # (case h of UpdateFile _ (Some dest) _ \<Rightarrow> [resolve_path_against_base env dest cwd] | _ \<Rightarrow> [])"

fun change_carried_out :: "'fs file_system \<Rightarrow> 'fs \<Rightarrow> ustring \<Rightarrow> file_change \<Rightarrow> bool" where
  "change_carried_out fs st p (AddChange content) = (read_file_text fs st p = Inr content)"
| "change_carried_out fs st p (DeleteChange _) = isl (read_file_text fs st p)"
| "change_carried_out fs st p (UpdateChange _ None new_content) =
     (read_file_text fs st p = Inr new_content)"
| "change_carried_out fs st p (UpdateChange _ (Some dest) new_content) =
     (isl (read_file_text fs st p) \<and> read_file_text fs st dest = Inr new_content)"

lemma derive_cong:
  "read_file_text fs st p = read_file_text fs st0 p \<Longrightarrow>
   derive_new_contents_from_chunks fs st p chunks = derive_new_contents_from_chunks fs st0 p chunks"
  by (simp add: derive_new_contents_from_chunks_def)

lemma change_of_hunk_cong:
  "read_file_text fs st (hunk_resolve_path env h cwd) = read_file_text fs st0 (hunk_resolve_path env h cwd)
   \<Longrightarrow> change_of_hunk diff env fs st cwd h = change_of_hunk diff env fs st0 cwd h"
  using derive_cong [of fs st "hunk_resolve_path env h cwd" st0]
  by (cases h) (simp_all add: change_of_hunk_def)

lemma apply_one_hunk_effect:
  assumes laws: "file_system_laws fs" and d: "distinct (touched env cwd h)"
    and c: "change_of_hunk diff env fs st cwd h = Some (Inr c)"
    and a: "apply_one_hunk env fs cwd h st = Some (Inr eff, st')"
  shows "change_carried_out fs st' (hunk_resolve_path env h cwd) c"
    and "q \<notin> set (touched env cwd h) \<Longrightarrow> read_file_text fs st' q = read_file_text fs st q"
proof -
  let ?p = "hunk_resolve_path env h cwd"
  have "change_carried_out fs st' ?p c \<and>
    (q \<notin> set (touched env cwd h) \<longrightarrow> read_file_text fs st' q = read_file_text fs st q)"
  proof (cases h)
    case (AddFile p contents)
    obtain r st1 where w: "write_file_with_missing_parent_retry fs st ?p contents = (r, st1)" by fastforce
    with a AddFile have "\<not> isl r" "st' = st1"
      by (auto simp: apply_one_hunk_def Let_def split: sum.splits)
    with write_retry_reads [OF laws w] c AddFile show ?thesis
      by (auto simp: change_of_hunk_def touched_def)
  next
    case (DeleteFile p)
    obtain r st1 where w: "remove_regular_file fs st ?p (lit ''Failed to delete file '' @ ?p) = (r, st1)"
      by fastforce
    with a DeleteFile have "\<not> isl r" "st' = st1"
      by (auto simp: apply_one_hunk_def Let_def split: sum.splits)
    with remove_regular_reads [OF laws w] c DeleteFile show ?thesis
      by (auto simp: change_of_hunk_def touched_def Let_def split: sum.splits)
  next
    case (UpdateFile p move_path chunks)
    then obtain orig new where der: "derive_new_contents_from_chunks fs st ?p chunks = Some (Inr (orig, new))"
      using c by (auto simp: change_of_hunk_def Let_def split: option.splits sum.splits)
    show ?thesis
    proof (cases move_path)
      case None
      obtain r st1 where w: "write_file fs st ?p new = (r, st1)" by fastforce
      with a UpdateFile None der have "\<not> isl r" "st' = st1"
        by (auto simp: apply_one_hunk_def Let_def split: sum.splits)
      with write_file_reads [OF laws w] c UpdateFile None der show ?thesis
        by (auto simp: change_of_hunk_def touched_def)
    next
      case (Some dest)
      let ?d = "resolve_path_against_base env dest cwd"
      obtain r st1 where w: "write_file_with_missing_parent_retry fs st ?d new = (r, st1)" by fastforce
      obtain r2 st2 where m: "remove_regular_file fs st1 ?p (lit ''Failed to remove original '' @ ?p) = (r2, st2)"
        by fastforce
      from a UpdateFile Some der w m have "\<not> isl r" "\<not> isl r2" "st' = st2"
        by (auto simp: apply_one_hunk_def Let_def split: sum.splits)
      moreover have "?d \<noteq> ?p" using d UpdateFile Some by (auto simp: touched_def)
      ultimately show ?thesis
        using write_retry_reads [OF laws w] remove_regular_reads [OF laws m] c UpdateFile Some der
        by (auto simp: change_of_hunk_def touched_def)
    qed
  qed
  then show "change_carried_out fs st' ?p c"
    and "q \<notin> set (touched env cwd h) \<Longrightarrow> read_file_text fs st' q = read_file_text fs st q" by simp_all
qed

lemma change_carried_out_cong:
  assumes "change_carried_out fs st (hunk_resolve_path env h cwd) c"
    and "change_of_hunk diff env fs st0 cwd h = Some (Inr c)"
    and "\<forall>q \<in> set (touched env cwd h). read_file_text fs st' q = read_file_text fs st q"
  shows "change_carried_out fs st' (hunk_resolve_path env h cwd) c"
proof (cases h)
  case (UpdateFile p move_path chunks)
  with assms show ?thesis
    by (cases move_path) (auto simp: change_of_hunk_def Let_def touched_def split: sum.splits option.splits)
qed (use assms in \<open>auto simp: change_of_hunk_def Let_def touched_def split: sum.splits option.splits\<close>)

lemma hunks_carried_out:
  assumes laws: "file_system_laws fs"
  shows "changes_loop diff env fs st0 cwd hs acc = Some (Inr changes) \<Longrightarrow>
    apply_hunks_loop env fs cwd a hs st = Some (Inr a', st') \<Longrightarrow>
    distinct (concat (map (touched env cwd) hs)) \<Longrightarrow>
    (\<forall>q \<in> set (concat (map (touched env cwd) hs)). read_file_text fs st q = read_file_text fs st0 q) \<Longrightarrow>
    (\<forall>p c. changes p = Some c \<longrightarrow> acc p = Some c \<or> change_carried_out fs st' p c) \<and>
    (\<forall>q. q \<notin> set (concat (map (touched env cwd) hs)) \<longrightarrow> read_file_text fs st' q = read_file_text fs st q)"
proof (induction hs arbitrary: acc a st)
  case (Cons h hs)
  let ?p = "hunk_resolve_path env h cwd"
  from Cons.prems(1) obtain c where c0: "change_of_hunk diff env fs st0 cwd h = Some (Inr c)"
    and rest: "changes_loop diff env fs st0 cwd hs (acc(?p \<mapsto> c)) = Some (Inr changes)"
    by (auto split: option.splits sum.splits)
  from Cons.prems(2) obtain eff st1 where one: "apply_one_hunk env fs cwd h st = Some (Inr eff, st1)"
    and loop: "apply_hunks_loop env fs cwd (record_effect h eff a) hs st1 = Some (Inr a', st')"
    by (auto split: option.splits sum.splits)
  have p_in: "?p \<in> set (touched env cwd h)" by (simp add: touched_def)
  have c: "change_of_hunk diff env fs st cwd h = Some (Inr c)"
    using c0 change_of_hunk_cong [of fs st env h cwd st0 diff] Cons.prems(4) p_in by simp
  have dh: "distinct (touched env cwd h)" using Cons.prems(3) by simp
  note eff = apply_one_hunk_effect [OF laws dh c one]
  have dis: "set (touched env cwd h) \<inter> set (concat (map (touched env cwd) hs)) = {}"
    using Cons.prems(3) by auto
  have reads: "\<forall>q \<in> set (concat (map (touched env cwd) hs)). read_file_text fs st1 q = read_file_text fs st0 q"
  proof
    fix q assume q: "q \<in> set (concat (map (touched env cwd) hs))"
    with dis have "q \<notin> set (touched env cwd h)" by blast
    with eff(2) [of q] Cons.prems(4) q show "read_file_text fs st1 q = read_file_text fs st0 q" by simp
  qed
  have ih1: "\<And>p c'. changes p = Some c' \<Longrightarrow> (acc(?p \<mapsto> c)) p = Some c' \<or> change_carried_out fs st' p c'"
    and ih2: "\<And>q. q \<notin> set (concat (map (touched env cwd) hs)) \<Longrightarrow> read_file_text fs st' q = read_file_text fs st1 q"
    using Cons.IH [OF rest loop _ reads] Cons.prems(3) by auto
  have "change_carried_out fs st' ?p c"
  proof (rule change_carried_out_cong [OF eff(1) c0], rule ballI)
    fix q assume "q \<in> set (touched env cwd h)"
    with dis have "q \<notin> set (concat (map (touched env cwd) hs))" by blast
    then show "read_file_text fs st' q = read_file_text fs st1 q" by (rule ih2)
  qed
  then have "acc p = Some c' \<or> change_carried_out fs st' p c'" if "changes p = Some c'" for p c'
    using ih1 [OF that] by (auto split: if_splits)
  moreover have "read_file_text fs st' q = read_file_text fs st q"
    if "q \<notin> set (concat (map (touched env cwd) (h # hs)))" for q
    using that ih2 [of q] eff(2) [of q] by simp
  ultimately show ?case by blast
qed simp

text \<open>
  C4: What is approved is what happens: on a file system that keeps its laws, when the hunks
  of a patch touch different paths, a patch that applies leaves every previewed path as the
  preview says (added, deleted, updated or moved with the previewed content) and every
  other path as it was.
\<close>

theorem preview_is_carried_out:
  assumes "file_system_laws fs" and "distinct (concat (map (touched env cwd) hunks))"
    and "changes_loop diff env fs st cwd hunks Map.empty = Some (Inr changes)"
    and "apply_hunks_to_files env fs hunks cwd st = Some (Inr affected, st')"
  shows "(\<forall>p c. changes p = Some c \<longrightarrow> change_carried_out fs st' p c) \<and>
    (\<forall>q. q \<notin> set (concat (map (touched env cwd) hunks)) \<longrightarrow>
       read_file_text fs st' q = read_file_text fs st q)"
proof -
  have "apply_hunks_loop env fs cwd \<lparr>added = [], modified = [], deleted = []\<rparr> hunks st = Some (Inr affected, st')"
    using assms(4) by (simp add: apply_hunks_to_files_def split: if_splits)
  from hunks_carried_out [OF assms(1,3) this assms(2)] show ?thesis by simp
qed

definition sample_update :: "string \<Rightarrow> string option \<Rightarrow> string \<Rightarrow> string \<Rightarrow> hunk" where
  "sample_update path move old new =
     UpdateFile (lit path) (map_option lit move) [sample_chunk old new]"

definition sample_paths :: path_env where
  "sample_paths = \<lparr>home_dir = None, current_dir = None\<rparr>"

lemma sample_resolve:
  "resolve_path_against_base sample_paths (lit ''a'') (lit ''/w'') = lit ''/w/a''"
  "resolve_path_against_base sample_paths (lit ''b'') (lit ''/w'') = lit ''/w/b''"
  by (simp_all add: resolve_path_against_base_def sample_paths_def maybe_expand_home_directory_def
      absolutize_from_def path_with_base_def path_join_def is_absolute_def slash_def normalize_path_def
      path_components_def List.map_filter_def push_component_def render_components_def
      component_str_def lit_def uc_def Let_def)

definition sample_files :: "ustring \<rightharpoonup> ustring" where
  "sample_files = [lit ''/w/a'' \<mapsto> lit ''x'' @ [newline]]"

lemma sample_derive:
  "derive_new_contents_from_chunks map_fs [p \<mapsto> lit ''x'' @ [newline]] p [sample_chunk ''x'' ''y''] =
     Some (Inr (lit ''x'' @ [newline], lit ''y'' @ [newline]))"
  by (simp add: derive_new_contents_from_chunks_def map_fs_def last_is_empty_def newline_def
      compute_replacements_def locate_chunk_def seek_sequence_def seek_pass_def window_def upt_rec
      sample_chunk_def apply_replacements_def remove_lines_def remove_nth_def insert_nth_def
      lit_def uc_def)

lemma preview_is_carried_out_witness:
  "\<exists>st'. change_carried_out map_fs st' (lit ''/w/a'') (UpdateChange [] None (lit ''y'' @ [newline]))"
proof -
  let ?hs = "[sample_update ''a'' None ''x'' ''y'']"
  have changes: "changes_loop (\<lambda>_ _. []) sample_paths map_fs sample_files (lit ''/w'') ?hs Map.empty =
      Some (Inr [lit ''/w/a'' \<mapsto> UpdateChange [] None (lit ''y'' @ [newline])])"
    by (simp add: change_of_hunk_def sample_update_def hunk_resolve_path_def sample_resolve
        sample_files_def sample_derive)
  have applied: "\<exists>a st'. apply_hunks_to_files sample_paths map_fs ?hs (lit ''/w'') sample_files =
      Some (Inr a, st')"
    by (simp add: apply_hunks_to_files_def apply_one_hunk_def sample_update_def hunk_resolve_path_def
        sample_resolve sample_files_def sample_derive) (simp add: map_fs_def)
  then obtain a st' where applied: "apply_hunks_to_files sample_paths map_fs ?hs (lit ''/w'') sample_files =
      Some (Inr a, st')" by blast
  have "distinct (concat (map (touched sample_paths (lit ''/w'')) ?hs))"
    by (simp add: touched_def sample_update_def)
  from preview_is_carried_out [OF map_fs_laws this changes applied, THEN conjunct1, THEN spec, THEN spec,
      THEN mp, of "lit ''/w/a''"] show ?thesis by (intro exI [of _ st']) auto
qed

text \<open>
  Paths must differ for that: an update that moves a file onto its own path writes the
  new contents, deletes the file, and reports success.
\<close>

theorem move_onto_itself_deletes:
  assumes "file_system_laws fs"
    and "resolve_path_against_base env dest cwd = resolve_path_against_base env p cwd"
    and "apply_one_hunk env fs cwd (UpdateFile p (Some dest) chunks) st = Some (Inr effect, st')"
  shows "effect = Modified \<and> isl (read_file_text fs st' (resolve_path_against_base env p cwd))"
proof -
  let ?p = "resolve_path_against_base env p cwd"
  have path: "hunk_resolve_path env (UpdateFile p (Some dest) chunks) cwd = ?p"
    by (simp add: hunk_resolve_path_def)
  obtain orig new where "derive_new_contents_from_chunks fs st ?p chunks = Some (Inr (orig, new))"
    using assms(3) by (auto simp: apply_one_hunk_def path Let_def split: option.splits sum.splits)
  moreover obtain r st1 where "write_file_with_missing_parent_retry fs st ?p new = (r, st1)" by fastforce
  moreover obtain r2 st2 where m: "remove_regular_file fs st1 ?p (lit ''Failed to remove original '' @ ?p) = (r2, st2)"
    by fastforce
  ultimately have "\<not> isl r2" "st' = st2" "effect = Modified"
    using assms(2,3) by (auto simp: apply_one_hunk_def path Let_def split: sum.splits)
  with remove_regular_reads(1) [OF assms(1) m] show ?thesis by simp
qed

lemma move_onto_itself_deletes_witness:
  "\<exists>st'. isl (read_file_text map_fs st' (lit ''/w/a''))"
proof -
  have "\<exists>effect st'. apply_one_hunk sample_paths map_fs (lit ''/w'')
      (UpdateFile (lit ''a'') (Some (lit ''a'')) [sample_chunk ''x'' ''y'']) sample_files = Some (Inr effect, st')"
    by (simp add: apply_one_hunk_def hunk_resolve_path_def sample_resolve sample_files_def sample_derive)
      (simp add: map_fs_def write_file_with_missing_parent_retry_def remove_regular_file_def)
  then obtain effect st' where "apply_one_hunk sample_paths map_fs (lit ''/w'')
      (UpdateFile (lit ''a'') (Some (lit ''a'')) [sample_chunk ''x'' ''y'']) sample_files = Some (Inr effect, st')"
    by blast
  from move_onto_itself_deletes [OF map_fs_laws refl this] show ?thesis
    unfolding sample_resolve by blast
qed

end
