(* ===== verification/HeadTail.thy ===== *)
theory HeadTail
  imports Prelude
begin

text \<open>
  The capped output buffer of unified exec (\<open>core/src/unified_exec/head_tail_buffer.rs\<close>):
  chunks of bytes fill a head budget first, then a tail whose oldest bytes are dropped.
  The specification is on the whole byte stream pushed so far: the head is its first
  \<open>head_budget\<close> bytes and the tail the last \<open>tail_budget\<close> bytes of what follows. Counters
  are natural numbers; the saturating additions of the code never saturate below \<open>2 ^ 64\<close>
  bytes.
\<close>

type_synonym byte_chunk = "nat list"

record head_tail_buffer =
  max_bytes :: nat
  head_budget :: nat
  tail_budget :: nat
  head_chunks :: "byte_chunk list"
  tail_chunks :: "byte_chunk list"
  head_bytes :: nat
  tail_bytes :: nat
  omitted_bytes :: nat

definition new_buffer :: "nat \<Rightarrow> head_tail_buffer" where
  "new_buffer limit =
     \<lparr>max_bytes = limit, head_budget = limit div 2, tail_budget = limit - limit div 2,
      head_chunks = [], tail_chunks = [], head_bytes = 0, tail_bytes = 0, omitted_bytes = 0\<rparr>"

definition UNIFIED_EXEC_OUTPUT_MAX_BYTES :: nat where
  "UNIFIED_EXEC_OUTPUT_MAX_BYTES = 1024 * 1024"

definition default_buffer :: head_tail_buffer where
  "default_buffer = new_buffer UNIFIED_EXEC_OUTPUT_MAX_BYTES"

definition retained_bytes :: "head_tail_buffer \<Rightarrow> nat" where
  "retained_bytes b = head_bytes b + tail_bytes b"

text \<open>The loop of \<open>trim_tail_to_budget\<close>: the excess, the tail, its size, the omitted bytes.\<close>

fun trim_loop :: "nat \<Rightarrow> byte_chunk list \<Rightarrow> nat \<Rightarrow> nat \<Rightarrow> byte_chunk list \<times> nat \<times> nat" where
  "trim_loop excess [] tail_size omitted = ([], tail_size, omitted)"
| "trim_loop excess (front # rest) tail_size omitted =
     (if excess = 0 then (front # rest, tail_size, omitted)
      else if excess \<ge> length front then
        trim_loop (excess - length front) rest (tail_size - length front) (omitted + length front)
      else (drop excess front # rest, tail_size - excess, omitted + excess))"

definition trim_tail_to_budget :: "head_tail_buffer \<Rightarrow> head_tail_buffer" where
  "trim_tail_to_budget b =
     (let (chunks, sz, omitted) =
        trim_loop (tail_bytes b - tail_budget b) (tail_chunks b) (tail_bytes b) (omitted_bytes b)
      in b\<lparr>tail_chunks := chunks, tail_bytes := sz, omitted_bytes := omitted\<rparr>)"

definition push_to_tail :: "byte_chunk \<Rightarrow> head_tail_buffer \<Rightarrow> head_tail_buffer" where
  "push_to_tail chunk b =
     (if tail_budget b = 0 then b\<lparr>omitted_bytes := omitted_bytes b + length chunk\<rparr>
      else if length chunk \<ge> tail_budget b then
        (let start = length chunk - tail_budget b;
             kept = drop start chunk;
             dropped = length chunk - length kept
         in b\<lparr>omitted_bytes := omitted_bytes b + tail_bytes b + dropped,
              tail_bytes := length kept, tail_chunks := [kept]\<rparr>)
      else trim_tail_to_budget
        (b\<lparr>tail_bytes := tail_bytes b + length chunk, tail_chunks := tail_chunks b @ [chunk]\<rparr>))"

definition push_chunk :: "byte_chunk \<Rightarrow> head_tail_buffer \<Rightarrow> head_tail_buffer" where
  "push_chunk chunk b =
     (if max_bytes b = 0 then b\<lparr>omitted_bytes := omitted_bytes b + length chunk\<rparr>
      else if head_bytes b < head_budget b then
        (let remaining_head = head_budget b - head_bytes b in
         if length chunk \<le> remaining_head then
           b\<lparr>head_bytes := head_bytes b + length chunk, head_chunks := head_chunks b @ [chunk]\<rparr>
         else
           (let head_part = take remaining_head chunk;
                tail_part = drop remaining_head chunk;
                b1 = (if head_part \<noteq> []
                      then b\<lparr>head_bytes := head_bytes b + length head_part,
                             head_chunks := head_chunks b @ [head_part]\<rparr>
                      else b)
            in push_to_tail tail_part b1))
      else push_to_tail chunk b)"

definition snapshot_chunks :: "head_tail_buffer \<Rightarrow> byte_chunk list" where
  "snapshot_chunks b = head_chunks b @ tail_chunks b"

definition to_bytes :: "head_tail_buffer \<Rightarrow> nat list" where
  "to_bytes b = concat (head_chunks b) @ concat (tail_chunks b)"

definition drain_chunks :: "head_tail_buffer \<Rightarrow> byte_chunk list \<times> head_tail_buffer" where
  "drain_chunks b =
     (head_chunks b @ tail_chunks b,
      b\<lparr>head_chunks := [], tail_chunks := [], head_bytes := 0, tail_bytes := 0, omitted_bytes := 0\<rparr>)"

section \<open>The buffer represents a stream\<close>

definition last_n :: "nat \<Rightarrow> 'a list \<Rightarrow> 'a list" where
  "last_n n xs = drop (length xs - n) xs"

text \<open>The buffer after the bytes \<open>s\<close> have been pushed, under a limit.\<close>

definition represents :: "nat \<Rightarrow> nat list \<Rightarrow> head_tail_buffer \<Rightarrow> bool" where
  "represents limit s b \<longleftrightarrow>
     max_bytes b = limit \<and> head_budget b = limit div 2 \<and> tail_budget b = limit - limit div 2 \<and>
     concat (head_chunks b) = take (limit div 2) s \<and>
     concat (tail_chunks b) = last_n (limit - limit div 2) (drop (limit div 2) s) \<and>
     head_bytes b = length (concat (head_chunks b)) \<and>
     tail_bytes b = length (concat (tail_chunks b)) \<and>
     omitted_bytes b + head_bytes b + tail_bytes b = length s"

lemma trim_loop_spec:
  "sz = length (concat chunks) \<Longrightarrow> excess \<le> sz \<Longrightarrow>
   trim_loop excess chunks sz omitted = (chunks', sz', omitted') \<Longrightarrow>
   concat chunks' = drop excess (concat chunks) \<and> sz' = sz - excess \<and> omitted' = omitted + excess"
proof (induction excess chunks sz omitted rule: trim_loop.induct)
  case (2 excess front rest sz omitted)
  show ?case
  proof (cases "excess = 0 \<or> excess < length front")
    case True
    with 2 show ?thesis by (auto split: if_splits)
  next
    case False
    then have loop: "trim_loop (excess - length front) rest (sz - length front) (omitted + length front)
        = (chunks', sz', omitted')" using 2(4) by simp
    have "concat chunks' = drop (excess - length front) (concat rest)
        \<and> sz' = sz - length front - (excess - length front)
        \<and> omitted' = omitted + length front + (excess - length front)"
      using False 2(2,3) by (intro 2(1)) (auto simp: loop [symmetric])
    with False show ?thesis by auto
  qed
qed simp

lemma last_n_append: "last_n n (last_n n xs @ ys) = last_n n (xs @ ys)"
  by (cases "n \<le> length xs") (simp_all add: last_n_def add.commute)

lemma push_to_tail_spec:
  assumes "tail_bytes b = length (concat (tail_chunks b))" and "tail_bytes b \<le> tail_budget b"
  shows "concat (tail_chunks (push_to_tail c b)) = last_n (tail_budget b) (concat (tail_chunks b) @ c)"
    and "tail_bytes (push_to_tail c b) = length (concat (tail_chunks (push_to_tail c b)))"
    and "omitted_bytes (push_to_tail c b) + tail_bytes (push_to_tail c b)
      = omitted_bytes b + tail_bytes b + length c"
    and "max_bytes (push_to_tail c b) = max_bytes b" "head_budget (push_to_tail c b) = head_budget b"
      "tail_budget (push_to_tail c b) = tail_budget b" "head_chunks (push_to_tail c b) = head_chunks b"
      "head_bytes (push_to_tail c b) = head_bytes b"
proof -
  let ?t = "concat (tail_chunks b) @ c"
  obtain chunks sz om where loop: "trim_loop (tail_bytes b + length c - tail_budget b)
      (tail_chunks b @ [c]) (tail_bytes b + length c) (omitted_bytes b) = (chunks, sz, om)"
    by (metis prod_cases3)
  have l: "concat chunks = drop (tail_bytes b + length c - tail_budget b) ?t
      \<and> sz = tail_bytes b + length c - (tail_bytes b + length c - tail_budget b)
      \<and> om = omitted_bytes b + (tail_bytes b + length c - tail_budget b)"
    using trim_loop_spec [OF _ _ loop] assms(1) by simp
  have all: "concat (tail_chunks (push_to_tail c b)) = last_n (tail_budget b) ?t \<and>
    tail_bytes (push_to_tail c b) = length (concat (tail_chunks (push_to_tail c b))) \<and>
    omitted_bytes (push_to_tail c b) + tail_bytes (push_to_tail c b)
      = omitted_bytes b + tail_bytes b + length c"
  proof (cases "tail_budget b = 0")
    case True
    with assms show ?thesis by (simp add: push_to_tail_def last_n_def)
  next
    case False
    show ?thesis
    proof (cases "length c \<ge> tail_budget b")
      case True
      with False assms show ?thesis by (simp add: push_to_tail_def last_n_def Let_def)
    next
      case small: False
      have "push_to_tail c b = b\<lparr>tail_bytes := sz, tail_chunks := chunks, omitted_bytes := om\<rparr>"
        using False small loop by (simp add: push_to_tail_def trim_tail_to_budget_def)
      with l assms show ?thesis by (simp add: last_n_def)
    qed
  qed
  show "concat (tail_chunks (push_to_tail c b)) = last_n (tail_budget b) ?t"
    by (rule all [THEN conjunct1])
  show "tail_bytes (push_to_tail c b) = length (concat (tail_chunks (push_to_tail c b)))"
    by (rule all [THEN conjunct2, THEN conjunct1])
  show "omitted_bytes (push_to_tail c b) + tail_bytes (push_to_tail c b)
      = omitted_bytes b + tail_bytes b + length c"
    by (rule all [THEN conjunct2, THEN conjunct2])
  show "max_bytes (push_to_tail c b) = max_bytes b" "head_budget (push_to_tail c b) = head_budget b"
      "tail_budget (push_to_tail c b) = tail_budget b" "head_chunks (push_to_tail c b) = head_chunks b"
      "head_bytes (push_to_tail c b) = head_bytes b"
    by (simp_all add: push_to_tail_def trim_tail_to_budget_def Let_def split: prod.split)
qed

lemma represents_new: "represents limit [] (new_buffer limit)"
  by (simp add: represents_def new_buffer_def last_n_def)

lemma split_count:
  "om + tb = o0 + t0 + (lc - (h - ls)) \<Longrightarrow> h < ls + lc \<Longrightarrow> ls < h \<Longrightarrow> o0 + hb + t0 = ls
   \<Longrightarrow> hb = ls \<Longrightarrow> hp = h \<Longrightarrow> om + hp + tb = ls + (lc :: nat)"
  by linarith

lemma represents_push:
  assumes r: "represents limit s b"
  shows "represents limit (s @ c) (push_chunk c b)"
proof -
  let ?h = "limit div 2" and ?t = "limit - limit div 2"
  from r have b: "max_bytes b = limit" "head_budget b = ?h" "tail_budget b = ?t"
    "concat (head_chunks b) = take ?h s" "concat (tail_chunks b) = last_n ?t (drop ?h s)"
    "head_bytes b = length (concat (head_chunks b))" "tail_bytes b = length (concat (tail_chunks b))"
    "omitted_bytes b + head_bytes b + tail_bytes b = length s" by (auto simp: represents_def)
  have le: "tail_bytes b \<le> tail_budget b" by (simp add: b(3,5,7) last_n_def)
  note pt = push_to_tail_spec [OF b(7) le]
  consider (zero) "limit = 0" | (full) "limit \<noteq> 0" "?h \<le> length s"
    | (fits) "limit \<noteq> 0" "length s < ?h" "length s + length c \<le> ?h"
    | (split) "limit \<noteq> 0" "length s < ?h" "?h < length s + length c" by linarith
  then show ?thesis
  proof cases
    case zero
    with r show ?thesis by (simp add: push_chunk_def represents_def last_n_def)
  next
    case full
    then have "push_chunk c b = push_to_tail c b" using b by (simp add: push_chunk_def)
    moreover have "concat (tail_chunks (push_to_tail c b)) = last_n ?t (drop ?h (s @ c))"
      using full pt(1) b last_n_append [of ?t "drop ?h s" c] by simp
    moreover have "omitted_bytes (push_to_tail c b) + head_bytes b + tail_bytes (push_to_tail c b) =
        length (s @ c)" using pt(3) [of c] b(8) by simp
    ultimately show ?thesis using full b(1-4,6) pt(2,4-) by (simp add: represents_def)
  next
    case fits
    then have "push_chunk c b = b\<lparr>head_bytes := head_bytes b + length c, head_chunks := head_chunks b @ [c]\<rparr>"
      using b by (simp add: push_chunk_def Let_def)
    with fits b show ?thesis by (simp add: represents_def last_n_def)
  next
    case split
    let ?n = "?h - length s"
    let ?b1 = "b\<lparr>head_bytes := head_bytes b + ?n, head_chunks := head_chunks b @ [take ?n c]\<rparr>"
    have "take ?n c \<noteq> []" using split by auto
    then have p: "push_chunk c b = push_to_tail (drop ?n c) ?b1"
      using split b by (simp add: push_chunk_def Let_def min_absorb2)
    have t: "concat (tail_chunks b) = []" using split b(5) by (simp add: last_n_def)
    have "tail_bytes ?b1 = length (concat (tail_chunks ?b1))" "tail_bytes ?b1 \<le> tail_budget ?b1"
      using b(7) le by simp_all
    note pt1 = push_to_tail_spec [OF this, of "drop ?n c"]
    let ?p = "push_to_tail (drop ?n c) ?b1"
    have hb: "head_bytes b = length s" using split b(4,6) by simp
    have head: "concat (head_chunks ?p) = take ?h (s @ c)" unfolding pt1(7) using split b(4) by simp
    have tail: "concat (tail_chunks ?p) = last_n ?t (drop ?h (s @ c))"
      unfolding pt1(1) using split by (simp add: t b(3))
    have hb': "head_bytes ?p = length (concat (head_chunks ?p))"
      unfolding head pt1(8) using split hb by simp
    have hp: "head_bytes ?p = ?h" unfolding pt1(8) using split hb by simp
    have "omitted_bytes ?p + tail_bytes ?p = omitted_bytes b + tail_bytes b + (length c - ?n)"
      using pt1(3) by simp
    then have total: "omitted_bytes ?p + head_bytes ?p + tail_bytes ?p = length (s @ c)"
      unfolding length_append by (rule split_count [OF _ split(3,2) b(8) hb hp])
    have budgets: "max_bytes ?p = limit" "head_budget ?p = ?h" "tail_budget ?p = ?t"
      unfolding pt1(4-6) using b(1-3) by simp_all
    show ?thesis unfolding represents_def p by (intro conjI budgets head tail hb' pt1(2) total)
  qed
qed

lemma represents_summary:
  assumes "represents limit s b"
  shows "to_bytes b = take (limit div 2) s @ last_n (limit - limit div 2) (drop (limit div 2) s)"
    and "retained_bytes b = length (to_bytes b)" and "retained_bytes b \<le> limit"
    and "omitted_bytes b + retained_bytes b = length s"
proof -
  have b: "concat (head_chunks b) = take (limit div 2) s"
    "concat (tail_chunks b) = last_n (limit - limit div 2) (drop (limit div 2) s)"
    "head_bytes b = length (concat (head_chunks b))" "tail_bytes b = length (concat (tail_chunks b))"
    "omitted_bytes b + head_bytes b + tail_bytes b = length s"
    using assms by (auto simp: represents_def)
  show bytes: "to_bytes b = take (limit div 2) s @ last_n (limit - limit div 2) (drop (limit div 2) s)"
    by (simp add: to_bytes_def b(1,2))
  show len: "retained_bytes b = length (to_bytes b)"
    by (simp only: retained_bytes_def to_bytes_def b(3,4) length_append)
  show "retained_bytes b \<le> limit" by (simp add: len bytes last_n_def)
  show "omitted_bytes b + retained_bytes b = length s" using b(5) by (simp add: retained_bytes_def)
qed

text \<open>
  C12: Whatever the chunks the output arrives in, the buffer keeps exactly the first half of
  its budget from the start of the stream and the rest of its budget from the end, its
  size never exceeds the limit, and every byte pushed is counted as retained or omitted.
\<close>

theorem head_tail_buffer_keeps_ends:
  "let b = foldl (\<lambda>b c. push_chunk c b) (new_buffer limit) chunks; s = concat chunks in
   to_bytes b = take (limit div 2) s @ last_n (limit - limit div 2) (drop (limit div 2) s) \<and>
   retained_bytes b = length (to_bytes b) \<and> retained_bytes b \<le> limit \<and>
   omitted_bytes b + retained_bytes b = length s"
proof -
  have "represents limit (s @ concat chunks) (foldl (\<lambda>b c. push_chunk c b) b chunks)"
    if "represents limit s b" for s b
    using that
  proof (induction chunks arbitrary: s b)
    case (Cons c chunks)
    from Cons.IH [OF represents_push [OF Cons.prems, of c]] show ?case by simp
  qed simp
  from this [OF represents_new [of limit]] have
    r: "represents limit (concat chunks) (foldl (\<lambda>b c. push_chunk c b) (new_buffer limit) chunks)" by simp
  note sum = represents_summary [OF r]
  show ?thesis unfolding Let_def by (intro conjI sum)
qed

end
