(* ===== verification/StreamText.thy ===== *)
theory StreamText
  imports Prelude
begin

text \<open>
  The interface of the streaming text parsers (\<open>utils/stream-parser/src/stream_text.rs\<close>): a
  parser takes chunks of text and gives visible text and extracted payloads. The trait is
  the locale \<open>stream_text_parser\<close>: its laws say that a parser in a good state always
  returns and that pushing two chunks amounts to pushing their concatenation, up to
  merging adjacent payloads; what a client gets from them, for any chunking of a text, is
  proved once in the locale. \<open>None\<close> stands for a call that does not return.
\<close>

record 'x stream_text_chunk =
  visible_text :: ustring
  extracted :: "'x list"

definition empty_chunk :: "'x stream_text_chunk" where
  "empty_chunk = \<lparr>visible_text = [], extracted = []\<rparr>"

definition chunk_is_empty :: "'x stream_text_chunk \<Rightarrow> bool" where
  "chunk_is_empty c = (visible_text c = [] \<and> extracted c = [])"

definition append_chunk :: "'x stream_text_chunk \<Rightarrow> 'x stream_text_chunk \<Rightarrow> 'x stream_text_chunk" where
  "append_chunk c d = \<lparr>visible_text = visible_text c @ visible_text d, extracted = extracted c @ extracted d\<rparr>"

lemma append_chunk_simps [simp]:
  "append_chunk empty_chunk c = c" "append_chunk c empty_chunk = c"
  "append_chunk (append_chunk c d) e = append_chunk c (append_chunk d e)"
  "visible_text (append_chunk c d) = visible_text c @ visible_text d"
  "extracted (append_chunk c d) = extracted c @ extracted d"
  by (simp_all add: append_chunk_def empty_chunk_def)

lemma empty_chunk_fields [simp]: "visible_text empty_chunk = []" "extracted empty_chunk = []"
  by (simp_all add: empty_chunk_def)

lemma append_chunk_cancel: "append_chunk c d = c \<longleftrightarrow> d = empty_chunk"
proof
  assume h: "append_chunk c d = c"
  have "visible_text (append_chunk c d) = visible_text c" "extracted (append_chunk c d) = extracted c"
    by (simp_all only: h)
  then show "d = empty_chunk" by (cases d) (simp add: empty_chunk_def)
qed simp

type_synonym ('s, 'x) push_fun = "'s \<Rightarrow> ustring \<Rightarrow> ('x stream_text_chunk \<times> 's) option"
type_synonym ('s, 'x) finish_fun = "'s \<Rightarrow> 'x stream_text_chunk \<times> 's"

text \<open>What a client does: push the chunks one by one, then finish.\<close>

fun push_all :: "('s, 'x) push_fun \<Rightarrow> 's \<Rightarrow> ustring list \<Rightarrow> ('x stream_text_chunk \<times> 's) option" where
  "push_all push s [] = Some (empty_chunk, s)"
| "push_all push s (c # cs) =
     Option.bind (push s c) (\<lambda>(out, s1).
       map_option (\<lambda>(rest, s2). (append_chunk out rest, s2)) (push_all push s1 cs))"

definition collect_chunks ::
  "('s, 'x) push_fun \<Rightarrow> ('s, 'x) finish_fun \<Rightarrow> 's \<Rightarrow> ustring list \<Rightarrow> 'x stream_text_chunk option" where
  "collect_chunks push finish s cs =
     map_option (\<lambda>(out, s1). append_chunk out (fst (finish s1))) (push_all push s cs)"

locale stream_text_parser =
  fixes push_str :: "('s, 'x) push_fun"
    and finish :: "('s, 'x) finish_fun"
    and good :: "'s \<Rightarrow> bool"
    and merge :: "'x list \<Rightarrow> 'x list"
  assumes push_returns: "good s \<Longrightarrow> \<exists>out s1. push_str s a = Some (out, s1) \<and> good s1"
    and push_empty: "good s \<Longrightarrow> push_str s [] = Some (empty_chunk, s)"
    and push_append: "good s \<Longrightarrow> push_str s a = Some (o1, s1) \<Longrightarrow> push_str s1 b = Some (o2, s2) \<Longrightarrow>
      \<exists>out. push_str s (a @ b) = Some (out, s2) \<and>
        visible_text out = visible_text o1 @ visible_text o2 \<and>
        merge (extracted out) = merge (extracted o1 @ extracted o2)"
    and merge_merge: "merge (merge xs @ merge ys) = merge (xs @ ys)"
begin

definition same_chunk :: "'x stream_text_chunk \<Rightarrow> 'x stream_text_chunk \<Rightarrow> bool" where
  "same_chunk c d \<longleftrightarrow> visible_text c = visible_text d \<and> merge (extracted c) = merge (extracted d)"

lemma merge_cong: "merge xs = merge xs' \<Longrightarrow> merge ys = merge ys' \<Longrightarrow> merge (xs @ ys) = merge (xs' @ ys')"
  by (metis merge_merge)

lemma same_chunk_append:
  "same_chunk c c' \<Longrightarrow> same_chunk d d' \<Longrightarrow> same_chunk (append_chunk c d) (append_chunk c' d')"
  by (auto simp: same_chunk_def intro: merge_cong)

lemma push_all_good: "good s \<Longrightarrow> \<exists>out s1. push_all push_str s cs = Some (out, s1) \<and> good s1"
proof (induction cs arbitrary: s)
  case (Cons c cs)
  obtain o1 s1 where "push_str s c = Some (o1, s1)" "good s1"
    using push_returns [OF Cons.prems] by blast
  with Cons.IH [of s1] show ?case by auto
qed simp

text \<open>Any chunking of a text reaches the state of the whole text, with the same output.\<close>

lemma push_all_concat:
  "good s \<Longrightarrow> push_all push_str s cs = Some (out, s1) \<Longrightarrow>
   \<exists>out'. push_str s (concat cs) = Some (out', s1) \<and> same_chunk out out'"
proof (induction cs arbitrary: s out)
  case Nil
  then show ?case by (simp add: push_empty same_chunk_def)
next
  case (Cons c cs)
  obtain o1 t where c: "push_str s c = Some (o1, t)" "good t"
    using push_returns [OF Cons.prems(1)] by blast
  with Cons.prems(2) obtain rest where rest: "push_all push_str t cs = Some (rest, s1)"
    and out: "out = append_chunk o1 rest" by auto
  from Cons.IH [OF c(2) rest] obtain o2 where o2: "push_str t (concat cs) = Some (o2, s1)"
    "same_chunk rest o2" by blast
  from push_append [OF Cons.prems(1) c(1) o2(1)] obtain o' where
    "push_str s (c @ concat cs) = Some (o', s1)" "same_chunk o' (append_chunk o1 o2)"
    by (auto simp: same_chunk_def)
  moreover have "same_chunk (append_chunk o1 rest) (append_chunk o1 o2)"
    by (rule same_chunk_append) (simp_all add: o2(2) same_chunk_def [of o1 o1])
  ultimately show ?case by (auto simp: out same_chunk_def)
qed

lemma chunking_irrelevant:
  assumes "good s" and "concat cs = concat ds"
  shows "\<exists>c d. collect_chunks push_str finish s cs = Some c \<and>
    collect_chunks push_str finish s ds = Some d \<and> same_chunk c d"
proof -
  obtain o1 s1 where 1: "push_all push_str s cs = Some (o1, s1)" using push_all_good [OF assms(1)] by blast
  obtain o2 s2 where 2: "push_all push_str s ds = Some (o2, s2)" using push_all_good [OF assms(1)] by blast
  from push_all_concat [OF assms(1) 1] push_all_concat [OF assms(1) 2] assms(2)
  have "s1 = s2" "same_chunk o1 o2" by (auto simp: same_chunk_def)
  moreover have "same_chunk (fst (finish s1)) (fst (finish s1))" by (simp add: same_chunk_def)
  ultimately show ?thesis
    using same_chunk_append [of o1 o2 "fst (finish s1)" "fst (finish s1)"]
    by (auto simp: collect_chunks_def 1 2)
qed

end

end
