(* ===== verification/InlineTags.thy ===== *)
theory InlineTags
  imports StreamText
begin

text \<open>
  Hidden inline tags and citations (\<open>utils/stream-parser/src/inline_hidden_tag.rs\<close>,
  \<open>citation.rs\<close>). The loop of \<open>push_str\<close> would not end on an empty delimiter, so it is a
  partial function; \<open>new\<close> refuses such delimiters. The citation parser, with its one
  tag, is an instance of the stream parser interface: its output does not depend on how
  the text is cut into chunks.
\<close>

section \<open>The parser\<close>

record 'a tag_spec =
  spec_tag :: 'a
  spec_open :: ustring
  spec_close :: ustring

record 'a active_tag =
  active_name :: 'a
  active_close :: ustring
  active_content :: ustring

type_synonym 'a inline_tag = "'a \<times> ustring"

record 'a inline_parser =
  parser_specs :: "'a tag_spec list"
  parser_pending :: ustring
  parser_active :: "'a active_tag option"

text \<open>The constructor's assertions: \<open>None\<close> is their panic.\<close>

definition new_inline_parser :: "'a tag_spec list \<Rightarrow> 'a inline_parser option" where
  "new_inline_parser specs =
     (if specs = [] \<or> (\<exists>sp \<in> set specs. spec_open sp = [] \<or> spec_close sp = []) then None
      else Some \<lparr>parser_specs = specs, parser_pending = [], parser_active = None\<rparr>)"

fun suffix_prefix_search :: "nat \<Rightarrow> 'a list \<Rightarrow> 'a list \<Rightarrow> nat" where
  "suffix_prefix_search 0 s needle = 0"
| "suffix_prefix_search (Suc k) s needle =
     (if suffix (take (Suc k) needle) s then Suc k else suffix_prefix_search k s needle)"

definition longest_suffix_prefix_len :: "'a list \<Rightarrow> 'a list \<Rightarrow> nat" where
  "longest_suffix_prefix_len s needle =
     suffix_prefix_search (min (length s) (length needle - 1)) s needle"

text \<open>The earliest opening tag, the longer one at a tie, then the first in the list.\<close>

definition earlier_open :: "nat \<times> nat \<times> nat \<Rightarrow> nat \<times> nat \<times> nat \<Rightarrow> bool" where
  "earlier_open x y =
     (let (pos_a, len_a, idx_a) = x; (pos_b, len_b, idx_b) = y
      in pos_a < pos_b \<or> pos_a = pos_b \<and> (len_b < len_a \<or> len_b = len_a \<and> idx_a \<le> idx_b))"

fun first_open :: "(nat \<times> nat \<times> nat) list \<Rightarrow> (nat \<times> nat \<times> nat) option" where
  "first_open [] = None"
| "first_open (x # xs) =
     (case first_open xs of None \<Rightarrow> Some x | Some y \<Rightarrow> if earlier_open x y then Some x else Some y)"

definition find_next_open :: "'a tag_spec list \<Rightarrow> ustring \<Rightarrow> (nat \<times> nat) option" where
  "find_next_open specs pending =
     map_option (\<lambda>(pos, _, idx). (pos, idx))
       (first_open (List.map_filter (\<lambda>(idx, sp).
          map_option (\<lambda>pos. (pos, byte_len (spec_open sp), idx)) (find_sub (spec_open sp) pending))
          (enumerate 0 specs)))"

definition max_open_prefix_suffix_len :: "'a tag_spec list \<Rightarrow> ustring \<Rightarrow> nat" where
  "max_open_prefix_suffix_len specs pending =
     foldr max (map (\<lambda>sp. longest_suffix_prefix_len pending (spec_open sp)) specs) 0"

partial_function (option) inline_loop ::
  "'a tag_spec list \<Rightarrow> ustring \<Rightarrow> 'a active_tag option \<Rightarrow> 'a inline_tag stream_text_chunk
   \<Rightarrow> ('a inline_tag stream_text_chunk \<times> ustring \<times> 'a active_tag option) option" where
  "inline_loop specs pending active out =
     (case active of
        Some tag \<Rightarrow>
          (case find_sub (active_close tag) pending of
             Some close_idx \<Rightarrow>
               inline_loop specs (drop (close_idx + length (active_close tag)) pending) None
                 (append_chunk out \<lparr>visible_text = [],
                    extracted = [(active_name tag, active_content tag @ take close_idx pending)]\<rparr>)
           | None \<Rightarrow>
               (let keep = longest_suffix_prefix_len pending (active_close tag);
                    taken = length pending - keep
                in Some (out, drop taken pending,
                     Some (tag\<lparr>active_content := active_content tag @ take taken pending\<rparr>))))
      | None \<Rightarrow>
          (case find_next_open specs pending of
             Some (open_idx, spec_idx) \<Rightarrow>
               inline_loop specs (drop (open_idx + length (spec_open (specs ! spec_idx))) pending)
                 (Some \<lparr>active_name = spec_tag (specs ! spec_idx),
                        active_close = spec_close (specs ! spec_idx), active_content = []\<rparr>)
                 (append_chunk out \<lparr>visible_text = take open_idx pending, extracted = []\<rparr>)
           | None \<Rightarrow>
               (let keep = max_open_prefix_suffix_len specs pending;
                    taken = length pending - keep
                in Some (append_chunk out \<lparr>visible_text = take taken pending, extracted = []\<rparr>,
                     drop taken pending, None))))"

definition inline_push_str :: "('a inline_parser, 'a inline_tag) push_fun" where
  "inline_push_str p chunk =
     map_option (\<lambda>(out, pending, active). (out, p\<lparr>parser_pending := pending, parser_active := active\<rparr>))
       (inline_loop (parser_specs p) (parser_pending p @ chunk) (parser_active p) empty_chunk)"

definition inline_finish :: "('a inline_parser, 'a inline_tag) finish_fun" where
  "inline_finish p =
     (case parser_active p of
        Some tag \<Rightarrow>
          (\<lparr>visible_text = [], extracted = [(active_name tag, active_content tag @ parser_pending p)]\<rparr>,
           p\<lparr>parser_pending := [], parser_active := None\<rparr>)
      | None \<Rightarrow>
          (\<lparr>visible_text = parser_pending p, extracted = []\<rparr>, p\<lparr>parser_pending := []\<rparr>))"

section \<open>Citations\<close>

datatype citation_tag = Citation

definition CITATION_OPEN :: ustring where
  "CITATION_OPEN = lit ''<oai-mem-citation>''"

definition CITATION_CLOSE :: ustring where
  "CITATION_CLOSE = lit ''</oai-mem-citation>''"

definition citation_spec :: "citation_tag tag_spec" where
  "citation_spec = \<lparr>spec_tag = Citation, spec_open = CITATION_OPEN, spec_close = CITATION_CLOSE\<rparr>"

definition new_citation_parser :: "citation_tag inline_parser option" where
  "new_citation_parser = new_inline_parser [citation_spec]"

definition citation_contents :: "citation_tag inline_tag stream_text_chunk \<Rightarrow> ustring stream_text_chunk" where
  "citation_contents c = \<lparr>visible_text = visible_text c, extracted = map snd (extracted c)\<rparr>"

definition citation_push_str :: "(citation_tag inline_parser, ustring) push_fun" where
  "citation_push_str p chunk =
     map_option (\<lambda>(out, p'). (citation_contents out, p')) (inline_push_str p chunk)"

definition citation_finish :: "(citation_tag inline_parser, ustring) finish_fun" where
  "citation_finish p = (case inline_finish p of (out, p') \<Rightarrow> (citation_contents out, p'))"

definition strip_citations :: "ustring \<Rightarrow> (ustring \<times> ustring list) option" where
  "strip_citations txt =
     Option.bind new_citation_parser (\<lambda>parser.
       map_option (\<lambda>c. (visible_text c, extracted c))
         (collect_chunks citation_push_str citation_finish parser [txt]))"

section \<open>Searching across a boundary\<close>

lemma find_sub_Some_bound: "find_sub n s = Some i \<Longrightarrow> i + length n \<le> length s"
proof (induction n s arbitrary: i rule: find_sub.induct)
  case (2 p x xs)
  then show ?case by (auto split: if_splits dest: prefix_length_le)
qed (auto split: if_splits)

lemma find_sub_prefix_Some: "find_sub n s = Some i \<Longrightarrow> find_sub n (s @ b) = Some i"
proof (induction n s arbitrary: i rule: find_sub.induct)
  case (1 p)
  then show ?case by (cases b) (auto split: if_splits)
next
  case (2 p x xs)
  show ?case
  proof (cases "prefix p (x # xs)")
    case True
    then have "prefix p ((x # xs) @ b)" by (rule prefix_prefix)
    with 2(2) True show ?thesis by simp
  next
    case False
    with 2(2) obtain k where k: "find_sub p xs = Some k" "i = Suc k" by auto
    from find_sub_Some_bound [OF k(1)] have "length p \<le> length (x # xs)" by simp
    then have "\<not> prefix p (x # xs @ b)"
      using False prefix_length_prefix [of p "(x # xs) @ b" "x # xs"] by auto
    with 2(1) [OF False k(1)] k(2) show ?thesis by simp
  qed
qed

lemma find_sub_None_drop: "find_sub n s = None \<Longrightarrow> n \<noteq> [] \<Longrightarrow> \<not> prefix n (drop j s)"
proof (induction n s arbitrary: j rule: find_sub.induct)
  case (2 p x xs)
  then show ?case by (cases j) (auto split: if_splits)
qed auto

lemma find_sub_skip:
  "n \<noteq> [] \<Longrightarrow> \<forall>j < length p. \<not> prefix n (drop j (p @ t)) \<Longrightarrow>
   find_sub n (p @ t) = map_option ((+) (length p)) (find_sub n t)"
proof (induction p)
  case (Cons x p)
  have "\<not> prefix n (x # p @ t)" using Cons.prems(2) by fastforce
  moreover have "\<forall>j < length p. \<not> prefix n (drop j (p @ t))" using Cons.prems(2) by fastforce
  ultimately show ?case using Cons by (cases "find_sub n t") auto
next
  case Nil
  show ?case by (cases "find_sub n t") simp_all
qed

definition overlaps :: "'a list \<Rightarrow> 'a list \<Rightarrow> nat set" where
  "overlaps s n = {k. k < length n \<and> k \<le> length s \<and> suffix (take k n) s}"

lemma overlaps_finite: "finite (overlaps s n)"
  by (rule finite_subset [of _ "{..length n}"]) (auto simp: overlaps_def)

lemma suffix_prefix_search_Max:
  "suffix_prefix_search m s n = Max {k. k \<le> m \<and> (k = 0 \<or> suffix (take k n) s)}"
proof (induction m)
  case 0
  have "{k :: nat. k \<le> 0 \<and> (k = 0 \<or> suffix (take k n) s)} = {0}" by auto
  then show ?case by simp
next
  case (Suc m)
  let ?A = "{k. k \<le> m \<and> (k = 0 \<or> suffix (take k n) s)}"
  have fin: "finite ?A" by (rule finite_subset [of _ "{..m}"]) auto
  show ?case
  proof (cases "suffix (take (Suc m) n) s")
    case True
    have "Max {k. k \<le> Suc m \<and> (k = 0 \<or> suffix (take k n) s)} = Suc m"
      using True by (intro Max_eqI) (auto intro: finite_subset [of _ "{..Suc m}"])
    with True show ?thesis by simp
  next
    case False
    then have "{k. k \<le> Suc m \<and> (k = 0 \<or> suffix (take k n) s)} = ?A" by (auto simp: le_Suc_eq)
    with Suc False show ?thesis by simp
  qed
qed

lemma longest_suffix_prefix_Max:
  assumes "n \<noteq> []"
  shows "longest_suffix_prefix_len s n = Max (overlaps s n)"
proof -
  have "{k. k \<le> min (length s) (length n - 1) \<and> (k = 0 \<or> suffix (take k n) s)} = overlaps s n"
    using assms by (cases n) (auto simp: overlaps_def)
  then show ?thesis by (simp add: longest_suffix_prefix_len_def suffix_prefix_search_Max)
qed

lemma longest_suffix_prefix_in:
  assumes "n \<noteq> []"
  shows "longest_suffix_prefix_len s n \<in> overlaps s n"
proof -
  have "0 \<in> overlaps s n" using assms by (simp add: overlaps_def)
  then show ?thesis unfolding longest_suffix_prefix_Max [OF assms]
    using overlaps_finite by (intro Max_in) auto
qed

lemma longest_suffix_prefix_ge: "n \<noteq> [] \<Longrightarrow> k \<in> overlaps s n \<Longrightarrow> k \<le> longest_suffix_prefix_len s n"
  by (simp add: longest_suffix_prefix_Max overlaps_finite)

text \<open>
  What is kept of a text without a match is enough: searching it with the text that
  follows gives the same match, and the same part is kept again.
\<close>

lemma kept_suffix:
  fixes s :: "'a list"
  assumes n: "n \<noteq> []" and none: "find_sub n s = None"
  defines "K \<equiv> longest_suffix_prefix_len s n"
  shows "find_sub n (s @ b) = map_option ((+) (length s - K)) (find_sub n (drop (length s - K) s @ b))"
    and "longest_suffix_prefix_len (s @ b) n = longest_suffix_prefix_len (drop (length s - K) s @ b) n
      \<or> find_sub n (s @ b) \<noteq> None"
proof -
  let ?p = "take (length s - K) s" and ?d = "drop (length s - K) s"
  have K: "K < length n" "K \<le> length s"
    using longest_suffix_prefix_in [OF n, of s] by (simp_all add: K_def overlaps_def)
  have no_start: "\<not> prefix n (drop j (s @ b))" if j: "j < length s - K" for j
  proof
    assume pre: "prefix n (drop j (s @ b))"
    have d: "drop j (s @ b) = drop j s @ b" using j by simp
    show False
    proof (cases "length n \<le> length s - j")
      case True
      then have "prefix n (drop j s)"
        using pre prefix_length_prefix [of n "drop j s @ b" "drop j s"] unfolding d by simp
      with find_sub_None_drop [OF none n] show False by blast
    next
      case False
      then have "take (length s - j) n = drop j s"
        using pre unfolding d by (auto simp: prefix_def append_eq_append_conv_if)
      then have "length s - j \<in> overlaps s n"
        using False j by (auto simp: overlaps_def suffix_drop)
      from longest_suffix_prefix_ge [OF n this] j show False by (simp add: K_def)
    qed
  qed
  have "find_sub n (?p @ ?d @ b) = map_option ((+) (length ?p)) (find_sub n (?d @ b))"
    using no_start by (intro find_sub_skip [OF n]) (simp flip: append_assoc)
  then show "find_sub n (s @ b) = map_option ((+) (length s - K)) (find_sub n (?d @ b))"
    by (simp flip: append_assoc)
  have "overlaps (s @ b) n = overlaps (?d @ b) n"
  proof (intro set_eqI iffI)
    fix k assume k: "k \<in> overlaps (s @ b) n"
    then have kn: "k < length n" and suf: "suffix (take k n) (s @ b)" by (auto simp: overlaps_def)
    have kb: "k \<le> K + length b"
    proof (rule ccontr)
      assume big: "\<not> k \<le> K + length b"
      have "\<not> suffix (take k n) b" using big kn by (auto dest: suffix_length_le)
      then obtain x where x: "take k n = x @ b" "suffix x s"
        using suf by (auto simp: suffix_append)
      then have "x = take (k - length b) n"
        using kn by (metis add_diff_cancel_right' append_eq_conv_conj length_append length_take min.absorb4
            take_take min.absorb2 nat_less_le diff_le_self)
      then have "k - length b \<in> overlaps s n"
        using x(2) kn big by (auto simp: overlaps_def dest: suffix_length_le)
      from longest_suffix_prefix_ge [OF n this] big show False by (simp add: K_def)
    qed
    have "suffix (?d @ b) (s @ b)" by (simp add: suffix_drop)
    with suf have "suffix (take k n) (?d @ b)"
      using kb kn K by (intro suffix_length_suffix [OF suf]) auto
    with kn kb K show "k \<in> overlaps (?d @ b) n" by (simp add: overlaps_def)
  next
    fix k assume k: "k \<in> overlaps (?d @ b) n"
    have "suffix (?d @ b) (s @ b)" by (simp add: suffix_drop)
    with k show "k \<in> overlaps (s @ b) n"
      by (auto simp: overlaps_def intro: suffix_order.trans)
  qed
  then show "longest_suffix_prefix_len (s @ b) n = longest_suffix_prefix_len (?d @ b) n
      \<or> find_sub n (s @ b) \<noteq> None"
    by (simp add: longest_suffix_prefix_Max [OF n])
qed

section \<open>One tag: chunks do not matter\<close>

definition one_tag :: "'a tag_spec \<Rightarrow> bool" where
  "one_tag sp = (spec_open sp \<noteq> [] \<and> spec_close sp \<noteq> [])"

definition closable :: "'a active_tag option \<Rightarrow> bool" where
  "closable active = pred_option (\<lambda>tag. active_close tag \<noteq> []) active"

lemma find_next_open_one: "find_next_open [sp] t = map_option (\<lambda>pos. (pos, 0)) (find_sub (spec_open sp) t)"
  by (cases "find_sub (spec_open sp) t")
    (simp_all add: find_next_open_def List.map_filter_simps)

lemma max_open_one: "max_open_prefix_suffix_len [sp] t = longest_suffix_prefix_len t (spec_open sp)"
  by (simp add: max_open_prefix_suffix_len_def)

text \<open>The four ways through the loop for one tag.\<close>

lemma inline_loop_steps:
  "find_sub (active_close tag) t = Some i \<Longrightarrow> inline_loop [sp] t (Some tag) out =
     inline_loop [sp] (drop (i + length (active_close tag)) t) None (append_chunk out
       \<lparr>visible_text = [], extracted = [(active_name tag, active_content tag @ take i t)]\<rparr>)"
  "find_sub (active_close tag) t = None \<Longrightarrow> inline_loop [sp] t (Some tag) out =
     (let n = length t - longest_suffix_prefix_len t (active_close tag)
      in Some (out, drop n t, Some (tag\<lparr>active_content := active_content tag @ take n t\<rparr>)))"
  "find_sub (spec_open sp) t = Some i \<Longrightarrow> inline_loop [sp] t None out =
     inline_loop [sp] (drop (i + length (spec_open sp)) t)
       (Some \<lparr>active_name = spec_tag sp, active_close = spec_close sp, active_content = []\<rparr>)
       (append_chunk out \<lparr>visible_text = take i t, extracted = []\<rparr>)"
  "find_sub (spec_open sp) t = None \<Longrightarrow> inline_loop [sp] t None out =
     (let n = length t - longest_suffix_prefix_len t (spec_open sp)
      in Some (append_chunk out \<lparr>visible_text = take n t, extracted = []\<rparr>, drop n t, None))"
  by (subst inline_loop.simps; simp add: find_next_open_one max_open_one Let_def)+

lemma shorter_after_match:
  "n \<noteq> [] \<Longrightarrow> i + length n \<le> length t \<Longrightarrow> length (drop (i + length n) t) < length t"
  by (cases n) auto

lemma shorter_after_open:
  "one_tag sp \<Longrightarrow> i + length (spec_open sp) \<le> length t \<Longrightarrow>
   length (drop (i + length (spec_open sp)) t) < length t"
  by (rule shorter_after_match) (simp_all add: one_tag_def)

lemma inline_loop_returns:
  assumes "one_tag sp"
  shows "closable active \<Longrightarrow> \<exists>o1 p a. inline_loop [sp] t active out = Some (o1, p, a) \<and> closable a"
proof (induction "length t" arbitrary: t active out rule: less_induct)
  case less
  show ?case
  proof (cases active)
    case None
    show ?thesis
    proof (cases "find_sub (spec_open sp) t")
      case (Some i)
      then have "length (drop (i + length (spec_open sp)) t) < length t"
        using assms find_sub_Some_bound [OF Some] by (blast intro: shorter_after_open)
      from less(1) [OF this] assms show ?thesis
        by (simp add: None inline_loop_steps(3) [OF Some] closable_def one_tag_def)
    qed (simp add: None inline_loop_steps(4) closable_def Let_def)
  next
    case (Some tag)
    note tag = this
    show ?thesis
    proof (cases "find_sub (active_close tag) t")
      case (Some i)
      then have "length (drop (i + length (active_close tag)) t) < length t"
        using less(2) find_sub_Some_bound [OF Some]
        by (intro shorter_after_match) (auto simp: tag closable_def)
      from less(1) [OF this, of None] show ?thesis
        by (simp add: tag inline_loop_steps(1) [OF Some] closable_def)
    qed (use less(2) in \<open>simp add: tag inline_loop_steps(2) closable_def Let_def\<close>)
  qed
qed

lemma take_drop_shift:
  assumes "n \<le> length t"
  shows "take (n + j) (t @ b) = take n t @ take j (drop n t @ b)"
    and "drop (n + j) (t @ b) = drop j (drop n t @ b)"
proof -
  have d: "drop n (t @ b) = drop n t @ b" "take n (t @ b) = take n t" using assms by simp_all
  show "take (n + j) (t @ b) = take n t @ take j (drop n t @ b)" by (simp only: take_add d)
  have "drop (n + j) (t @ b) = drop j (drop n (t @ b))" by (simp only: drop_drop add.commute)
  then show "drop (n + j) (t @ b) = drop j (drop n t @ b)" by (simp only: d)
qed

lemma inline_loop_append:
  assumes "one_tag sp"
  shows "closable active \<Longrightarrow> inline_loop [sp] t active out = Some (o1, p, a) \<Longrightarrow>
    inline_loop [sp] (t @ b) active out = inline_loop [sp] (p @ b) a o1"
proof (induction "length t" arbitrary: t active out rule: less_induct)
  case less
  show ?case
  proof (cases active)
    case None
    show ?thesis
    proof (cases "find_sub (spec_open sp) t")
      case (Some i)
      let ?u = "drop (i + length (spec_open sp)) t"
      have bound: "i + length (spec_open sp) \<le> length t" by (rule find_sub_Some_bound [OF Some])
      with assms have "length ?u < length t" by (blast intro: shorter_after_open)
      from less(1) [OF this] less(3) assms show ?thesis
        using bound by (simp add: None inline_loop_steps(3) [OF Some]
          inline_loop_steps(3) [OF find_sub_prefix_Some [OF Some, of b]] closable_def one_tag_def)
    next
      case none: None
      let ?n = "length t - longest_suffix_prefix_len t (spec_open sp)"
      have op: "spec_open sp \<noteq> []" using assms by (simp add: one_tag_def)
      note kept = kept_suffix [OF op none, of b]
      from less(3) have r: "p = drop ?n t" "a = None"
        "o1 = append_chunk out \<lparr>visible_text = take ?n t, extracted = []\<rparr>"
        by (simp_all add: None inline_loop_steps(4) [OF none] Let_def)
      show ?thesis
      proof (cases "find_sub (spec_open sp) (p @ b)")
        case (Some j)
        then have "find_sub (spec_open sp) (t @ b) = Some (?n + j)" using kept(1) by (simp add: r)
        from inline_loop_steps(3) [OF this] inline_loop_steps(3) [OF Some] show ?thesis
          unfolding None r add.assoc take_drop_shift [OF diff_le_self]
          by (simp add: append_chunk_def)
      next
        case none2: None
        then have nt: "find_sub (spec_open sp) (t @ b) = None" using kept(1) by (simp add: r)
        with kept(2) have "longest_suffix_prefix_len (t @ b) (spec_open sp)
            = longest_suffix_prefix_len (p @ b) (spec_open sp)" by (simp add: r)
        moreover have "longest_suffix_prefix_len (p @ b) (spec_open sp) \<le> length (p @ b)"
          using longest_suffix_prefix_in [OF op, of "p @ b"] by (simp add: overlaps_def)
        moreover have "length t + length b = ?n + length (p @ b)" by (simp add: r)
        ultimately have n: "length (t @ b) - longest_suffix_prefix_len (t @ b) (spec_open sp)
            = ?n + (length (p @ b) - longest_suffix_prefix_len (p @ b) (spec_open sp))" by simp
        show ?thesis
          unfolding None r(2) inline_loop_steps(4) [OF nt] inline_loop_steps(4) [OF none2] Let_def n
            take_drop_shift [OF diff_le_self]
          by (simp add: r(1,3) append_chunk_def)
      qed
    qed
  next
    case (Some tag)
    note tag = this
    have cl: "active_close tag \<noteq> []" using less(2) by (simp add: tag closable_def)
    show ?thesis
    proof (cases "find_sub (active_close tag) t")
      case (Some i)
      let ?u = "drop (i + length (active_close tag)) t"
      have bound: "i + length (active_close tag) \<le> length t" by (rule find_sub_Some_bound [OF Some])
      with cl have "length ?u < length t" by (rule shorter_after_match)
      from less(1) [OF this, of None] less(3) show ?thesis
        using bound by (simp add: tag inline_loop_steps(1) [OF Some]
          inline_loop_steps(1) [OF find_sub_prefix_Some [OF Some, of b]] closable_def)
    next
      case none: None
      let ?n = "length t - longest_suffix_prefix_len t (active_close tag)"
      let ?tag = "tag\<lparr>active_content := active_content tag @ take ?n t\<rparr>"
      note kept = kept_suffix [OF cl none, of b]
      from less(3) have r: "p = drop ?n t" "a = Some ?tag" "o1 = out"
        by (simp_all add: tag inline_loop_steps(2) [OF none] Let_def)
      show ?thesis
      proof (cases "find_sub (active_close tag) (p @ b)")
        case (Some j)
        then have "find_sub (active_close tag) (t @ b) = Some (?n + j)" using kept(1) by (simp add: r)
        from inline_loop_steps(1) [OF this] inline_loop_steps(1) [of ?tag "p @ b" j] Some show ?thesis
          unfolding tag r add.assoc take_drop_shift [OF diff_le_self]
          by (simp add: append_chunk_def)
      next
        case none2: None
        then have nt: "find_sub (active_close tag) (t @ b) = None" using kept(1) by (simp add: r)
        with kept(2) have "longest_suffix_prefix_len (t @ b) (active_close tag)
            = longest_suffix_prefix_len (p @ b) (active_close tag)" by (simp add: r)
        moreover have "longest_suffix_prefix_len (p @ b) (active_close tag) \<le> length (p @ b)"
          using longest_suffix_prefix_in [OF cl, of "p @ b"] by (simp add: overlaps_def)
        moreover have "length t + length b = ?n + length (p @ b)" by (simp add: r)
        ultimately have n: "length (t @ b) - longest_suffix_prefix_len (t @ b) (active_close tag)
            = ?n + (length (p @ b) - longest_suffix_prefix_len (p @ b) (active_close tag))" by simp
        have none2': "find_sub (active_close ?tag) (p @ b) = None" using none2 by simp
        show ?thesis
          unfolding tag r(2) inline_loop_steps(2) [OF nt] inline_loop_steps(2) [OF none2'] Let_def
            active_tag.simps n take_drop_shift [OF diff_le_self]
          by (simp add: r(1,3))
      qed
    qed
  qed
qed

lemma inline_loop_out:
  assumes "one_tag sp"
  shows "closable active \<Longrightarrow> inline_loop [sp] t active (append_chunk out0 out) =
    map_option (\<lambda>(o1, p, a). (append_chunk out0 o1, p, a)) (inline_loop [sp] t active out)"
proof (induction "length t" arbitrary: t active out rule: less_induct)
  case less
  show ?case
  proof (cases active)
    case None
    show ?thesis
    proof (cases "find_sub (spec_open sp) t")
      case (Some i)
      with assms find_sub_Some_bound [OF Some] have
        "length (drop (i + length (spec_open sp)) t) < length t" by (blast intro: shorter_after_open)
      from less(1) [OF this] assms show ?thesis
        by (simp add: None inline_loop_steps(3) [OF Some] closable_def one_tag_def)
    qed (simp add: None inline_loop_steps(4) Let_def)
  next
    case (Some tag)
    note tag = this
    show ?thesis
    proof (cases "find_sub (active_close tag) t")
      case (Some i)
      then have "length (drop (i + length (active_close tag)) t) < length t"
        using less(2) find_sub_Some_bound [OF Some]
        by (intro shorter_after_match) (auto simp: tag closable_def)
      from less(1) [OF this, of None] show ?thesis
        by (simp add: tag inline_loop_steps(1) [OF Some] closable_def)
    qed (simp add: tag inline_loop_steps(2) Let_def)
  qed
qed

text \<open>A good state: one tag, and what is pending is kept by an empty push.\<close>

definition one_tag_state :: "'a tag_spec \<Rightarrow> 'a inline_parser \<Rightarrow> bool" where
  "one_tag_state sp p \<longleftrightarrow> parser_specs p = [sp] \<and> closable (parser_active p) \<and>
     inline_loop [sp] (parser_pending p) (parser_active p) empty_chunk =
       Some (empty_chunk, parser_pending p, parser_active p)"

lemma inline_push_returns:
  assumes "one_tag sp" and "one_tag_state sp p"
  shows "\<exists>out p'. inline_push_str p chunk = Some (out, p') \<and> one_tag_state sp p'"
proof -
  from assms(2) have p: "parser_specs p = [sp]" "closable (parser_active p)" by (auto simp: one_tag_state_def)
  from inline_loop_returns [OF assms(1) p(2)] obtain o1 t a where
    l: "inline_loop [sp] (parser_pending p @ chunk) (parser_active p) empty_chunk = Some (o1, t, a)"
    and a: "closable a" by blast
  from inline_loop_append [OF assms(1) p(2) l, of "[]"] l
  have again: "inline_loop [sp] t a o1 = Some (o1, t, a)" by simp
  obtain e t' a' where e: "inline_loop [sp] t a empty_chunk = Some (e, t', a')"
    using inline_loop_returns [OF assms(1) a] by blast
  from inline_loop_out [OF assms(1) a, of t o1 empty_chunk] again e
  have "append_chunk o1 e = o1" "t' = t" "a' = a" by auto
  then have "e = empty_chunk" "t' = t" "a' = a" by (simp_all add: append_chunk_cancel)
  with e a l p show ?thesis by (simp add: inline_push_str_def one_tag_state_def)
qed

lemma inline_push_append:
  assumes "one_tag sp" and "one_tag_state sp p"
    and "inline_push_str p a = Some (o1, p1)" and "inline_push_str p1 b = Some (o2, p2)"
  shows "inline_push_str p (a @ b) = Some (append_chunk o1 o2, p2)"
proof -
  from assms(2) have p: "parser_specs p = [sp]" "closable (parser_active p)" by (auto simp: one_tag_state_def)
  from assms(3) p obtain t ac where
    l1: "inline_loop [sp] (parser_pending p @ a) (parser_active p) empty_chunk = Some (o1, t, ac)"
    and p1: "p1 = p\<lparr>parser_pending := t, parser_active := ac\<rparr>" by (auto simp: inline_push_str_def)
  have ac: "closable ac" using inline_loop_returns [OF assms(1) p(2)] l1
    by (metis option.inject prod.inject)
  from assms(4) p p1 obtain t2 ac2 where
    l2: "inline_loop [sp] (t @ b) ac empty_chunk = Some (o2, t2, ac2)"
    and p2: "p2 = p\<lparr>parser_pending := t2, parser_active := ac2\<rparr>" by (auto simp: inline_push_str_def)
  have "inline_loop [sp] ((parser_pending p @ a) @ b) (parser_active p) empty_chunk =
      inline_loop [sp] (t @ b) ac (append_chunk o1 empty_chunk)"
    using inline_loop_append [OF assms(1) p(2) l1, of b] by simp
  also have "\<dots> = Some (append_chunk o1 o2, t2, ac2)"
    by (simp add: inline_loop_out [OF assms(1) ac] l2 del: append_chunk_simps)
  finally show ?thesis by (simp add: inline_push_str_def p p2)
qed

lemma inline_push_empty: "one_tag_state sp p \<Longrightarrow> inline_push_str p [] = Some (empty_chunk, p)"
  by (simp add: one_tag_state_def inline_push_str_def)

lemma citation_one_tag: "one_tag citation_spec"
  by (simp add: one_tag_def citation_spec_def CITATION_OPEN_def CITATION_CLOSE_def)

abbreviation citation_state :: "citation_tag inline_parser \<Rightarrow> bool" where
  "citation_state \<equiv> one_tag_state citation_spec"

interpretation citations: stream_text_parser citation_push_str citation_finish citation_state "\<lambda>xs. xs"
proof
  fix s :: "citation_tag inline_parser" and a
  assume s: "citation_state s"
  show "\<exists>out s1. citation_push_str s a = Some (out, s1) \<and> citation_state s1"
    using inline_push_returns [OF citation_one_tag s, of a] by (auto simp: citation_push_str_def)
  show "citation_push_str s [] = Some (empty_chunk, s)"
    by (simp add: citation_push_str_def inline_push_empty [OF s] citation_contents_def empty_chunk_def)
next
  fix s s1 s2 :: "citation_tag inline_parser" and a b o1 o2
  assume s: "citation_state s" and "citation_push_str s a = Some (o1, s1)"
    and "citation_push_str s1 b = Some (o2, s2)"
  then obtain i1 i2 where "inline_push_str s a = Some (i1, s1)" "o1 = citation_contents i1"
    "inline_push_str s1 b = Some (i2, s2)" "o2 = citation_contents i2"
    by (auto simp: citation_push_str_def)
  with inline_push_append [OF citation_one_tag s, of a i1 s1 b i2 s2]
  show "\<exists>out. citation_push_str s (a @ b) = Some (out, s2) \<and>
      visible_text out = visible_text o1 @ visible_text o2 \<and> extracted out = extracted o1 @ extracted o2"
    by (simp add: citation_push_str_def citation_contents_def)
qed simp

lemma new_citation_state:
  "\<exists>p. new_citation_parser = Some p \<and> citation_state p"
proof -
  let ?p = "\<lparr>parser_specs = [citation_spec], parser_pending = [], parser_active = None\<rparr>"
  have op: "spec_open citation_spec \<noteq> []" "spec_close citation_spec \<noteq> []"
    using citation_one_tag by (simp_all add: one_tag_def)
  then have "citation_state ?p"
    by (simp add: one_tag_state_def closable_def inline_loop_steps(4) Let_def append_chunk_def
        empty_chunk_def)
  then show ?thesis using op by (simp add: new_citation_parser_def new_inline_parser_def)
qed

text \<open>
  C11: Citations streamed in chunks are those of the whole text: whatever the chunks, the
  parser returns from every push, and the visible text and the citations collected are
  what \<open>strip_citations\<close> gives on their concatenation.
\<close>

theorem citations_chunk_invariant:
  "Option.bind new_citation_parser (\<lambda>p.
     map_option (\<lambda>c. (visible_text c, extracted c)) (collect_chunks citation_push_str citation_finish p chunks))
   = strip_citations (concat chunks) \<and>
   strip_citations (concat chunks) \<noteq> None"
proof -
  obtain p where p: "new_citation_parser = Some p" "citation_state p" using new_citation_state by blast
  from citations.chunking_irrelevant [OF p(2), of chunks "[concat chunks]"] obtain c d where
    "collect_chunks citation_push_str citation_finish p chunks = Some c"
    "collect_chunks citation_push_str citation_finish p [concat chunks] = Some d"
    "citations.same_chunk c d" by auto
  then show ?thesis by (simp add: strip_citations_def p(1) citations.same_chunk_def)
qed

end
