(* ===== verification/Utf8Stream.thy ===== *)
theory Utf8Stream
  imports InlineTags
begin

text \<open>
  Byte streams (\<open>utils/stream-parser/src/utf8_stream.rs\<close>): a parser of text is wrapped so
  that it takes raw bytes, with the bytes of an incomplete code point kept for the next
  chunk. The wrapper is generic in the parser it wraps; what it promises rests only on the
  laws of the interface \<open>stream_text_parser\<close>. The first section is \<open>str::from_utf8\<close>.
\<close>

section \<open>UTF-8\<close>

type_synonym bytes = "nat list"

definition is_scalar :: "uchar \<Rightarrow> bool" where
  "is_scalar c = (c < 0xD800 \<or> 0xE000 \<le> c \<and> c < 0x110000)"

definition utf8_encode :: "uchar \<Rightarrow> bytes" where
  "utf8_encode c =
     (if c < 0x80 then [c]
      else if c < 0x800 then [0xC0 + c div 64, 0x80 + c mod 64]
      else if c < 0x10000 then [0xE0 + c div 4096, 0x80 + c div 64 mod 64, 0x80 + c mod 64]
      else [0xF0 + c div 262144, 0x80 + c div 4096 mod 64, 0x80 + c div 64 mod 64, 0x80 + c mod 64])"

definition is_continuation :: "nat \<Rightarrow> bool" where
  "is_continuation b = (0x80 \<le> b \<and> b < 0xC0)"

datatype utf8_step = Scalar uchar nat | BadSequence nat | Truncated

definition second_of_three :: "nat \<Rightarrow> nat \<Rightarrow> bool" where
  "second_of_three b0 b1 =
     (b0 = 0xE0 \<and> 0xA0 \<le> b1 \<and> b1 < 0xC0 \<or> 0xE1 \<le> b0 \<and> b0 \<le> 0xEC \<and> is_continuation b1
      \<or> b0 = 0xED \<and> 0x80 \<le> b1 \<and> b1 < 0xA0 \<or> 0xEE \<le> b0 \<and> b0 \<le> 0xEF \<and> is_continuation b1)"

definition second_of_four :: "nat \<Rightarrow> nat \<Rightarrow> bool" where
  "second_of_four b0 b1 =
     (b0 = 0xF0 \<and> 0x90 \<le> b1 \<and> b1 < 0xC0 \<or> 0xF1 \<le> b0 \<and> b0 \<le> 0xF3 \<and> is_continuation b1
      \<or> b0 = 0xF4 \<and> 0x80 \<le> b1 \<and> b1 < 0x90)"

fun tail_bytes_check :: "(nat \<Rightarrow> bool) list \<Rightarrow> nat \<Rightarrow> bytes \<Rightarrow> nat option option" where
  "tail_bytes_check [] seen bs = Some None"
| "tail_bytes_check (ok # oks) seen [] = None"
| "tail_bytes_check (ok # oks) seen (b # bs) =
     (if ok b then tail_bytes_check oks (seen + 1) bs else Some (Some seen))"

definition checked :: "(nat \<Rightarrow> bool) list \<Rightarrow> bytes \<Rightarrow> uchar \<Rightarrow> utf8_step" where
  "checked oks bs c =
     (case tail_bytes_check oks 1 bs of
        None \<Rightarrow> Truncated
      | Some (Some n) \<Rightarrow> BadSequence n
      | Some None \<Rightarrow> Scalar c (Suc (length oks)))"

definition utf8_step :: "nat \<Rightarrow> bytes \<Rightarrow> utf8_step" where
  "utf8_step b0 bs =
     (if b0 < 0x80 then Scalar b0 1
      else if 0xC2 \<le> b0 \<and> b0 \<le> 0xDF then
        checked [is_continuation] bs ((b0 - 0xC0) * 64 + (bs ! 0 - 0x80))
      else if 0xE0 \<le> b0 \<and> b0 \<le> 0xEF then
        checked [second_of_three b0, is_continuation] bs
          ((b0 - 0xE0) * 4096 + (bs ! 0 - 0x80) * 64 + (bs ! 1 - 0x80))
      else if 0xF0 \<le> b0 \<and> b0 \<le> 0xF4 then
        checked [second_of_four b0, is_continuation, is_continuation] bs
          ((b0 - 0xF0) * 262144 + (bs ! 0 - 0x80) * 4096 + (bs ! 1 - 0x80) * 64 + (bs ! 2 - 0x80))
      else BadSequence 1)"

lemma utf8_step_width: "utf8_step b0 bs = Scalar c w \<Longrightarrow> 0 < w"
  by (auto simp: utf8_step_def checked_def split: if_splits option.splits)

text \<open>
  The text of the longest valid prefix, its length in bytes, and the error after it:
  \<open>Some None\<close> when the input just ends inside a code point.
\<close>

function from_utf8 :: "bytes \<Rightarrow> ustring \<times> nat \<times> nat option option" where
  "from_utf8 [] = ([], 0, None)"
| "from_utf8 (b # bs) =
     (case utf8_step b bs of
        Scalar c w \<Rightarrow> (case from_utf8 (drop w (b # bs)) of (cs, n, err) \<Rightarrow> (c # cs, w + n, err))
      | BadSequence n \<Rightarrow> ([], 0, Some (Some n))
      | Truncated \<Rightarrow> ([], 0, Some None))"
  by pat_completeness auto
termination
  by (relation "measure length") (auto dest: utf8_step_width)

section \<open>The wrapper\<close>

datatype utf8_stream_error = InvalidUtf8 nat nat | IncompleteUtf8AtEof

record 's utf8_stream =
  inner_parser :: 's
  pending_utf8 :: bytes

definition new_utf8_stream :: "'s \<Rightarrow> 's utf8_stream" where
  "new_utf8_stream inner = \<lparr>inner_parser = inner, pending_utf8 = []\<rparr>"

definition error_len_or_zero :: "nat option \<Rightarrow> nat" where
  "error_len_or_zero e = (case e of None \<Rightarrow> 0 | Some n \<Rightarrow> n)"

definition push_bytes ::
  "('s, 'x) push_fun \<Rightarrow> 's utf8_stream \<Rightarrow> bytes
   \<Rightarrow> ((utf8_stream_error + 'x stream_text_chunk) \<times> 's utf8_stream) option" where
  "push_bytes push st chunk =
     (let buffered = pending_utf8 st @ chunk in
      case from_utf8 buffered of
        (txt, _, None) \<Rightarrow>
          map_option (\<lambda>(out, inner). (Inr out, \<lparr>inner_parser = inner, pending_utf8 = []\<rparr>))
            (push (inner_parser st) txt)
      | (_, valid_up_to, Some (Some error_len)) \<Rightarrow>
          Some (Inl (InvalidUtf8 valid_up_to error_len), st)
      | (_, valid_up_to, Some None) \<Rightarrow>
          if valid_up_to = 0 then Some (Inr empty_chunk, st\<lparr>pending_utf8 := buffered\<rparr>)
          else
            (case from_utf8 (take valid_up_to buffered) of
               (txt, _, None) \<Rightarrow>
                 map_option (\<lambda>(out, inner).
                   (Inr out, \<lparr>inner_parser = inner, pending_utf8 = drop valid_up_to buffered\<rparr>))
                   (push (inner_parser st) txt)
             | (_, prefix_valid, Some prefix_err) \<Rightarrow>
                 Some (Inl (InvalidUtf8 prefix_valid (error_len_or_zero prefix_err)), st)))"

definition utf8_finish ::
  "('s, 'x) push_fun \<Rightarrow> ('s, 'x) finish_fun \<Rightarrow> 's utf8_stream
   \<Rightarrow> ((utf8_stream_error + 'x stream_text_chunk) \<times> 's utf8_stream) option" where
  "utf8_finish push finish st =
     (case from_utf8 (pending_utf8 st) of
        (_, valid_up_to, Some (Some error_len)) \<Rightarrow> Some (Inl (InvalidUtf8 valid_up_to error_len), st)
      | (_, _, Some None) \<Rightarrow> Some (Inl IncompleteUtf8AtEof, st)
      | (txt, _, None) \<Rightarrow>
          map_option (\<lambda>(out, inner). case finish inner of
              (tail, inner') \<Rightarrow> (Inr (append_chunk out tail), \<lparr>inner_parser = inner', pending_utf8 = []\<rparr>))
            (if pending_utf8 st = [] then Some (empty_chunk, inner_parser st)
             else push (inner_parser st) txt))"

definition into_inner :: "'s utf8_stream \<Rightarrow> utf8_stream_error + 's" where
  "into_inner st =
     (if pending_utf8 st = [] then Inr (inner_parser st)
      else case from_utf8 (pending_utf8 st) of
             (_, _, None) \<Rightarrow> Inr (inner_parser st)
           | (_, valid_up_to, Some (Some error_len)) \<Rightarrow> Inl (InvalidUtf8 valid_up_to error_len)
           | (_, _, Some None) \<Rightarrow> Inl IncompleteUtf8AtEof)"

definition into_inner_lossy :: "'s utf8_stream \<Rightarrow> 's" where
  "into_inner_lossy st = inner_parser st"

text \<open>A client that pushes byte chunks until one is refused, then finishes.\<close>

fun collect_bytes ::
  "('s, 'x) push_fun \<Rightarrow> ('s, 'x) finish_fun \<Rightarrow> 's utf8_stream \<Rightarrow> bytes list
   \<Rightarrow> (utf8_stream_error + 'x stream_text_chunk) option" where
  "collect_bytes push finish st [] = map_option fst (utf8_finish push finish st)"
| "collect_bytes push finish st (c # cs) =
     (case push_bytes push st c of
        None \<Rightarrow> None
      | Some (Inl e, _) \<Rightarrow> Some (Inl e)
      | Some (Inr out, st1) \<Rightarrow>
          (case collect_bytes push finish st1 cs of
             None \<Rightarrow> None
           | Some (Inl e) \<Rightarrow> Some (Inl e)
           | Some (Inr rest) \<Rightarrow> Some (Inr (append_chunk out rest))))"

section \<open>Decoding inverts encoding\<close>

definition encode_text :: "ustring \<Rightarrow> bytes" where
  "encode_text t = concat (map utf8_encode t)"

lemma encode_text_simps [simp]:
  "encode_text [] = []" "encode_text (c # t) = utf8_encode c @ encode_text t"
  "encode_text (s @ t) = encode_text s @ encode_text t"
  by (simp_all add: encode_text_def)

text \<open>The base-64 digits of a code point.\<close>

lemma digits3:
  obtains a b d where "c div 4096 = a" "c div 64 mod 64 = b" "c mod 64 = d"
    "(c :: nat) = a * 4096 + b * 64 + d" "b < 64" "d < 64"
proof (rule that [OF refl refl refl])
  have "c = c div 64 * 64 + c mod 64" "c div 64 = c div 64 div 64 * 64 + c div 64 mod 64"
    by (rule div_mult_mod_eq [symmetric])+
  moreover have "c div 64 div 64 = c div 4096" by (simp add: div_mult2_eq [symmetric])
  ultimately show "c = c div 4096 * 4096 + c div 64 mod 64 * 64 + c mod 64" by linarith
qed simp_all

lemma digits4:
  obtains a e b d where "c div 262144 = a" "c div 4096 mod 64 = e" "c div 64 mod 64 = b" "c mod 64 = d"
    "(c :: nat) = a * 262144 + e * 4096 + b * 64 + d" "e < 64" "b < 64" "d < 64"
proof (rule digits3 [of c])
  fix a b d
  assume h: "c div 4096 = a" "c div 64 mod 64 = b" "c mod 64 = d" "c = a * 4096 + b * 64 + d"
    "b < 64" "d < 64"
  have "c div 262144 = a div 64" unfolding h(1) [symmetric] by (simp add: div_mult2_eq [symmetric])
  moreover have "a = a div 64 * 64 + a mod 64" by (rule div_mult_mod_eq [symmetric])
  then have "c = a div 64 * 262144 + a mod 64 * 4096 + b * 64 + d" using h(4) by linarith
  moreover have "a mod 64 < 64" by simp
  moreover have "c div 4096 mod 64 = a mod 64" by (simp only: h(1))
  ultimately show thesis using h(2,3,5,6) by (intro that [of "a div 64" "a mod 64" b d])
qed

lemma utf8_step_encode:
  assumes "is_scalar c" and "utf8_encode c = b0 # bs"
  shows "utf8_step b0 (bs @ rest) = Scalar c (length (utf8_encode c))"
proof -
  consider "c < 0x80" | "0x80 \<le> c" "c < 0x800" | "0x800 \<le> c" "c < 0x10000" | "0x10000 \<le> c"
    by linarith
  then show ?thesis
  proof cases
    case 1
    with assms(2) show ?thesis by (simp add: utf8_encode_def utf8_step_def)
  next
    case 2
    then have b: "b0 = 0xC0 + c div 64" "bs = [0x80 + c mod 64]"
      using assms(2) by (simp_all add: utf8_encode_def)
    obtain y z where d: "c div 64 = y" "c mod 64 = z" "c = y * 64 + z" "z < 64"
      by (metis div_mult_mod_eq mod_less_divisor zero_less_numeral)
    then have "2 \<le> y" "y < 32" using 2 by linarith+
    with 2 d show ?thesis
      by (simp add: b utf8_step_def checked_def is_continuation_def utf8_encode_def)
  next
    case 3
    then have b: "b0 = 0xE0 + c div 4096" "bs = [0x80 + c div 64 mod 64, 0x80 + c mod 64]"
      using assms(2) by (simp_all add: utf8_encode_def)
    obtain x y z where d: "c div 4096 = x" "c div 64 mod 64 = y" "c mod 64 = z"
      "c = x * 4096 + y * 64 + z" "y < 64" "z < 64" by (rule digits3)
    have "x < 16" using d 3 by linarith
    have "second_of_three (0xE0 + x) (0x80 + y)"
    proof -
      have "x = 0 \<Longrightarrow> 32 \<le> y" using d 3 by linarith
      moreover have "x = 13 \<Longrightarrow> y < 32" using d assms(1) by (simp add: is_scalar_def)
      ultimately show ?thesis using \<open>x < 16\<close> d(5)
        by (auto simp: second_of_three_def is_continuation_def)
    qed
    with \<open>x < 16\<close> d 3 show ?thesis
      by (simp add: b utf8_step_def checked_def is_continuation_def utf8_encode_def)
  next
    case 4
    then have b: "b0 = 0xF0 + c div 262144"
        "bs = [0x80 + c div 4096 mod 64, 0x80 + c div 64 mod 64, 0x80 + c mod 64]"
      using assms(2) by (simp_all add: utf8_encode_def)
    obtain w x y z where d: "c div 262144 = w" "c div 4096 mod 64 = x" "c div 64 mod 64 = y"
      "c mod 64 = z" "c = w * 262144 + x * 4096 + y * 64 + z" "x < 64" "y < 64" "z < 64" by (rule digits4)
    have "c < 0x110000" using assms(1) 4 by (simp add: is_scalar_def)
    then have "w < 5" using d by linarith
    have "second_of_four (0xF0 + w) (0x80 + x)"
    proof -
      have "w = 0 \<Longrightarrow> 16 \<le> x" using d 4 by linarith
      moreover have "w = 4 \<Longrightarrow> x < 16" using d \<open>c < 0x110000\<close> by linarith
      moreover have "w = 0 \<or> 1 \<le> w \<and> w \<le> 3 \<or> w = 4" using \<open>w < 5\<close> by linarith
      ultimately show ?thesis using d(6)
        by (auto simp: second_of_four_def is_continuation_def)
    qed
    with \<open>w < 5\<close> d 4 show ?thesis
      by (simp add: b utf8_step_def checked_def is_continuation_def utf8_encode_def)
  qed
qed

lemma utf8_encode_nonempty [simp]: "utf8_encode c \<noteq> []"
  by (simp add: utf8_encode_def)

text \<open>A cut inside a code point is seen as a truncation, not as an error.\<close>

lemma tail_bytes_truncated:
  "tail_bytes_check oks n (bs @ more_bytes) = Some None \<Longrightarrow> length bs < length oks \<Longrightarrow>
   tail_bytes_check oks n bs = None"
proof (induction oks arbitrary: bs n)
  case (Cons ok oks)
  then show ?case by (cases bs) (auto split: if_splits)
qed simp

lemma utf8_step_truncated:
  assumes "is_scalar c" and "utf8_encode c = b0 # bs @ more_bytes" and "more_bytes \<noteq> []"
  shows "utf8_step b0 bs = Truncated"
proof -
  have full: "utf8_step b0 (bs @ more_bytes) = Scalar c (length (utf8_encode c))"
    using utf8_step_encode [OF assms(1,2), of "[]"] by simp
  have len: "length (utf8_encode c) = Suc (length bs + length more_bytes)" by (simp add: assms(2))
  have *: "checked oks bs c' = Truncated"
    if ch: "checked oks (bs @ more_bytes) c'' = Scalar c (Suc (length bs + length more_bytes))" for oks c' c''
  proof -
    have "tail_bytes_check oks 1 (bs @ more_bytes) = Some None" "length oks = length bs + length more_bytes"
      using ch by (auto simp: checked_def split: option.splits)
    with tail_bytes_truncated [of oks 1 bs more_bytes] assms(3) show ?thesis by (simp add: checked_def)
  qed
  from full len assms(3) show ?thesis
    by (auto simp: utf8_step_def intro!: * split: if_splits)
qed

lemma from_utf8_encoded:
  "is_scalar c \<Longrightarrow> from_utf8 (utf8_encode c @ bs) =
     (case from_utf8 bs of (cs, n, err) \<Rightarrow> (c # cs, length (utf8_encode c) + n, err))"
proof -
  assume c: "is_scalar c"
  obtain b0 tl where e: "utf8_encode c = b0 # tl" by (cases "utf8_encode c") auto
  with utf8_step_encode [OF c e, of bs] show ?thesis by simp
qed

text \<open>The first bytes of an encoded text decode to its first code points.\<close>

definition cut_inside :: "bytes \<Rightarrow> ustring \<Rightarrow> bool" where
  "cut_inside r t = (case t of [] \<Rightarrow> False | c # _ \<Rightarrow> r \<noteq> [] \<and> strict_prefix r (utf8_encode c))"

lemma from_utf8_prefix:
  "list_all is_scalar t \<Longrightarrow> u @ v = encode_text t \<Longrightarrow>
   \<exists>j r. j \<le> length t \<and> u = encode_text (take j t) @ r \<and> (r = [] \<or> cut_inside r (drop j t)) \<and>
     from_utf8 u = (take j t, length (encode_text (take j t)), if r = [] then None else Some None)"
proof (induction t arbitrary: u)
  case (Cons c t)
  have c: "is_scalar c" using Cons.prems(1) by simp
  show ?case
  proof (cases "length (utf8_encode c) \<le> length u")
    case True
    have "prefix u (utf8_encode c @ encode_text t)"
      using Cons.prems(2) by (metis encode_text_simps(2) prefixI)
    then have "prefix (utf8_encode c) u"
      using True prefix_length_prefix [of "utf8_encode c" "utf8_encode c @ encode_text t" u] by simp
    then obtain u' where u: "u = utf8_encode c @ u'" "u' @ v = encode_text t"
      using Cons.prems(2) by (auto simp: prefix_def)
    with Cons obtain j r where ih: "j \<le> length t" "u' = encode_text (take j t) @ r"
      "r = [] \<or> cut_inside r (drop j t)"
      "from_utf8 u' = (take j t, length (encode_text (take j t)), if r = [] then None else Some None)"
      by (auto dest!: Cons.IH [rotated])
    then show ?thesis
      by (intro exI [of _ "Suc j"] exI [of _ r]) (simp add: u from_utf8_encoded [OF c])
  next
    case False
    have "prefix u (utf8_encode c @ encode_text t)"
      using Cons.prems(2) by (metis encode_text_simps(2) prefixI)
    moreover have "prefix (utf8_encode c) (utf8_encode c @ encode_text t)" by simp
    ultimately have "prefix u (utf8_encode c)"
      using False by (meson prefix_length_prefix nat_le_linear)
    then obtain w where w: "utf8_encode c = u @ w" by (auto simp: prefix_def)
    with False have w_ne: "w \<noteq> []" by auto
    note w = w w_ne
    show ?thesis
    proof (cases u)
      case Nil
      then show ?thesis by (intro exI [of _ 0] exI [of _ "[]"]) simp
    next
      case (Cons b0 bs)
      with w have "utf8_step b0 bs = Truncated"
        by (intro utf8_step_truncated [OF c, of b0 bs w]) simp_all
      with Cons w show ?thesis
        by (intro exI [of _ 0] exI [of _ u]) (auto simp: cut_inside_def strict_prefix_def)
    qed
  qed
qed simp

lemma from_utf8_encode: "list_all is_scalar t \<Longrightarrow> from_utf8 (encode_text t) = (t, length (encode_text t), None)"
  by (induction t) (simp_all add: from_utf8_encoded)

section \<open>Any cut of the bytes\<close>

context stream_text_parser
begin

text \<open>One push: the next code points go to the wrapped parser, an incomplete one is kept.\<close>

lemma push_bytes_step:
  assumes st: "good s" and t: "list_all is_scalar t" and cut: "(r @ chunk) @ rest = encode_text t"
  shows "\<exists>j r' out s1. j \<le> length t \<and> push_str s (take j t) = Some (out, s1) \<and> good s1 \<and>
    push_bytes push_str \<lparr>inner_parser = s, pending_utf8 = r\<rparr> chunk =
      Some (Inr out, \<lparr>inner_parser = s1, pending_utf8 = r'\<rparr>) \<and>
    r' @ rest = encode_text (drop j t) \<and> (r' = [] \<or> cut_inside r' (drop j t))"
proof -
  from from_utf8_prefix [OF t cut] obtain j r' where
    j: "j \<le> length t" "r @ chunk = encode_text (take j t) @ r'" "r' = [] \<or> cut_inside r' (drop j t)"
    and dec: "from_utf8 (r @ chunk) =
      (take j t, length (encode_text (take j t)), if r' = [] then None else Some None)" by blast
  have valid: "list_all is_scalar (take j t)" using t by (auto simp: list_all_iff dest: in_set_takeD)
  have rest: "r' @ rest = encode_text (drop j t)"
  proof -
    have "encode_text (take j t) @ r' @ rest = encode_text (take j t) @ encode_text (drop j t)"
      using cut j(2) by (metis append_take_drop_id encode_text_simps(3) append.assoc)
    then show ?thesis by simp
  qed
  obtain out s1 where p: "push_str s (take j t) = Some (out, s1)" "good s1"
    using push_returns [OF st] by blast
  have "push_bytes push_str \<lparr>inner_parser = s, pending_utf8 = r\<rparr> chunk =
      Some (Inr out, \<lparr>inner_parser = s1, pending_utf8 = r'\<rparr>)"
  proof (cases "r' = []")
    case True
    with dec p show ?thesis by (simp add: push_bytes_def)
  next
    case False
    show ?thesis
    proof (cases "take j t = []")
      case True
      then have "out = empty_chunk" "s1 = s" using p(1) [unfolded True] push_empty [OF st] by simp_all
      moreover have "from_utf8 (r @ chunk) = ([], 0, Some None)" "r @ chunk = r'"
        using dec j(2) False unfolding True by simp_all
      ultimately show ?thesis by (simp add: push_bytes_def)
    next
      case ne: False
      then have "length (encode_text (take j t)) \<noteq> 0" by (cases "take j t") auto
      moreover have "take (length (encode_text (take j t))) (r @ chunk) = encode_text (take j t)"
        "drop (length (encode_text (take j t))) (r @ chunk) = r'" by (simp_all add: j(2))
      ultimately show ?thesis using dec False p from_utf8_encode [OF valid]
        by (simp add: push_bytes_def)
    qed
  qed
  with j p rest show ?thesis by blast
qed

lemma collect_bytes_encoded:
  "good s \<Longrightarrow> list_all is_scalar t \<Longrightarrow> r @ concat chunks = encode_text t \<Longrightarrow> r = [] \<or> cut_inside r t \<Longrightarrow>
   \<exists>c d. collect_bytes push_str finish \<lparr>inner_parser = s, pending_utf8 = r\<rparr> chunks = Some (Inr c) \<and>
     collect_chunks push_str finish s [t] = Some d \<and> same_chunk c d"
proof (induction chunks arbitrary: s t r)
  case Nil
  have "r = []"
  proof (rule ccontr)
    assume ne: "r \<noteq> []"
    with Nil.prems(4) obtain c t' where "t = c # t'" "strict_prefix r (utf8_encode c)"
      by (auto simp: cut_inside_def split: list.splits)
    with Nil.prems(3) show False by (auto simp: strict_prefix_def prefix_def)
  qed
  with Nil.prems(3) have "t = []" by (cases t) auto
  with \<open>r = []\<close> Nil.prems(1) show ?case
    by (cases "finish s") (simp add: utf8_finish_def collect_chunks_def push_empty same_chunk_def)
next
  case (Cons chunk chunks)
  from push_bytes_step [OF Cons.prems(1,2), of r chunk "concat chunks"] Cons.prems(3) obtain j r' out s1
    where j: "push_str s (take j t) = Some (out, s1)" "good s1"
      "push_bytes push_str \<lparr>inner_parser = s, pending_utf8 = r\<rparr> chunk =
        Some (Inr out, \<lparr>inner_parser = s1, pending_utf8 = r'\<rparr>)"
      "r' @ concat chunks = encode_text (drop j t)" "r' = [] \<or> cut_inside r' (drop j t)"
    by auto
  have "list_all is_scalar (drop j t)" using Cons.prems(2) by (auto simp: list_all_iff dest: in_set_dropD)
  from Cons.IH [OF j(2) this j(4,5)] obtain c d where
    cd: "collect_bytes push_str finish \<lparr>inner_parser = s1, pending_utf8 = r'\<rparr> chunks = Some (Inr c)"
      "collect_chunks push_str finish s1 [drop j t] = Some d" "same_chunk c d" by blast
  from cd(2) have two: "collect_chunks push_str finish s [take j t, drop j t] = Some (append_chunk out d)"
    using j(1) by (auto simp: collect_chunks_def)
  obtain d' where "collect_chunks push_str finish s [t] = Some d'" "same_chunk (append_chunk out d) d'"
    using chunking_irrelevant [OF Cons.prems(1), of "[take j t, drop j t]" "[t]"] two by auto
  moreover have "same_chunk (append_chunk out c) (append_chunk out d)"
    by (rule same_chunk_append) (simp_all add: cd(3) same_chunk_def [of out out])
  ultimately show ?case using j(3) cd(1) by (auto simp: same_chunk_def)
qed

end

text \<open>
  C10: Streaming bytes loses nothing: when the bytes of a text are cut anywhere, inside code
  points too, no push is refused and the citation parser behind the byte stream gives the
  visible text and the citations of the whole text.
\<close>

theorem citation_bytes_any_cut:
  assumes "list_all is_scalar t" and "concat chunks = encode_text t"
  shows "\<exists>p c. new_citation_parser = Some p \<and>
    collect_bytes citation_push_str citation_finish (new_utf8_stream p) chunks = Some (Inr c) \<and>
    strip_citations t = Some (visible_text c, extracted c)"
proof -
  obtain p where p: "new_citation_parser = Some p" "citation_state p" using new_citation_state by blast
  from citations.collect_bytes_encoded [OF p(2) assms(1), of "[]" chunks] assms(2) obtain c d where
    "collect_bytes citation_push_str citation_finish (new_utf8_stream p) chunks = Some (Inr c)"
    "collect_chunks citation_push_str citation_finish p [t] = Some d" "citations.same_chunk c d"
    by (auto simp: new_utf8_stream_def)
  moreover from this have "strip_citations t = Some (visible_text c, extracted c)"
    by (simp add: strip_citations_def p(1) citations.same_chunk_def)
  ultimately show ?thesis using p(1) by blast
qed

lemma citation_bytes_any_cut_witness:
  "\<exists>p c. new_citation_parser = Some p \<and>
    collect_bytes citation_push_str citation_finish (new_utf8_stream p) [[0xC3], [0xA9, 0x61]] = Some (Inr c)"
  using citation_bytes_any_cut [of "[0xE9, 0x61]" "[[0xC3], [0xA9, 0x61]]"]
  by (auto simp: is_scalar_def utf8_encode_def)

end
