(* ===== verification/TaggedLines.thy ===== *)
theory TaggedLines
  imports StreamText InlineTags
begin

text \<open>
  Tag blocks that take whole lines (\<open>utils/stream-parser/src/tagged_line_parser.rs\<close>), the
  proposed plans of plan mode (\<open>proposed_plan.rs\<close>) and the parser of assistant text that
  puts citations and plans together (\<open>assistant_text.rs\<close>). A line is held back until its
  start rules out a tag; the lemmas show that what comes out does not depend on where the
  text is cut, and that it is what a reading of the whole text line by line gives.
\<close>

section \<open>The line parser\<close>

record 'a line_tag_spec =
  line_open :: ustring
  line_close :: ustring
  line_tag :: 'a

datatype 'a tagged_line_segment =
    Normal ustring
  | TagStart 'a
  | TagDelta 'a ustring
  | TagEnd 'a

record 'a tagged_line_parser =
  line_specs :: "'a line_tag_spec list"
  active_line_tag :: "'a option"
  detect_tag :: bool
  line_buffer :: ustring

definition new_tagged_line_parser :: "'a line_tag_spec list \<Rightarrow> 'a tagged_line_parser" where
  "new_tagged_line_parser specs =
     \<lparr>line_specs = specs, active_line_tag = None, detect_tag = True, line_buffer = []\<rparr>"

fun push_segment :: "'a tagged_line_segment list \<Rightarrow> 'a tagged_line_segment \<Rightarrow> 'a tagged_line_segment list" where
  "push_segment segments (Normal delta) =
     (if delta = [] then segments
      else if segments = [] then [Normal delta]
      else (case last segments of
              Normal existing \<Rightarrow> butlast segments @ [Normal (existing @ delta)]
            | _ \<Rightarrow> segments @ [Normal delta]))"
| "push_segment segments (TagDelta tag delta) =
     (if delta = [] then segments
      else if segments = [] then [TagDelta tag delta]
      else (case last segments of
              TagDelta existing_tag existing \<Rightarrow>
                if existing_tag = tag then butlast segments @ [TagDelta tag (existing @ delta)]
                else segments @ [TagDelta tag delta]
            | _ \<Rightarrow> segments @ [TagDelta tag delta]))"
| "push_segment segments (TagStart tag) = segments @ [TagStart tag]"
| "push_segment segments (TagEnd tag) = segments @ [TagEnd tag]"

definition text_segment :: "'a option \<Rightarrow> ustring \<Rightarrow> 'a tagged_line_segment" where
  "text_segment active txt = (case active of Some tag \<Rightarrow> TagDelta tag txt | None \<Rightarrow> Normal txt)"

definition push_text :: "'a tagged_line_parser \<Rightarrow> ustring \<Rightarrow> 'a tagged_line_segment list
    \<Rightarrow> 'a tagged_line_segment list" where
  "push_text p txt segments = push_segment segments (text_segment (active_line_tag p) txt)"

definition is_tag_prefix :: "'a tagged_line_parser \<Rightarrow> ustring \<Rightarrow> bool" where
  "is_tag_prefix p slug =
     list_ex (\<lambda>spec. prefix (trim_end slug) (line_open spec) \<or> prefix (trim_end slug) (line_close spec))
       (line_specs p)"

definition match_open :: "'a line_tag_spec list \<Rightarrow> ustring \<Rightarrow> 'a option" where
  "match_open specs slug = map_option line_tag (List.find (\<lambda>spec. line_open spec = slug) specs)"

definition match_close :: "'a line_tag_spec list \<Rightarrow> ustring \<Rightarrow> 'a option" where
  "match_close specs slug = map_option line_tag (List.find (\<lambda>spec. line_close spec = slug) specs)"

definition without_newline :: "ustring \<Rightarrow> ustring" where
  "without_newline l = (case strip_suffix [newline] l of None \<Rightarrow> l | Some t \<Rightarrow> t)"

definition finish_line :: "'a tagged_line_parser \<Rightarrow> 'a tagged_line_segment list
    \<Rightarrow> 'a tagged_line_parser \<times> 'a tagged_line_segment list" where
  "finish_line p0 segments =
     (let line = line_buffer p0;
          p = p0\<lparr>line_buffer := []\<rparr>;
          slug = trim_end (trim_start (without_newline line))
      in case (match_open (line_specs p) slug, active_line_tag p) of
           (Some tag, None) \<Rightarrow>
             (p\<lparr>active_line_tag := Some tag, detect_tag := True\<rparr>, push_segment segments (TagStart tag))
         | _ \<Rightarrow>
             (case match_close (line_specs p) slug of
                Some tag \<Rightarrow>
                  if active_line_tag p = Some tag
                  then (p\<lparr>active_line_tag := None, detect_tag := True\<rparr>, push_segment segments (TagEnd tag))
                  else (p\<lparr>detect_tag := True\<rparr>, push_text p line segments)
              | None \<Rightarrow> (p\<lparr>detect_tag := True\<rparr>, push_text p line segments)))"

text \<open>One character of \<open>parse\<close>; the state of its loop is the parser, the run and the segments.\<close>

fun parse_char :: "'a tagged_line_parser \<times> ustring \<times> 'a tagged_line_segment list \<Rightarrow> uchar
    \<Rightarrow> 'a tagged_line_parser \<times> ustring \<times> 'a tagged_line_segment list" where
  "parse_char (p, run, segments) ch =
     (if detect_tag p then
        (let segments1 = (if run \<noteq> [] then push_text p run segments else segments);
             p1 = p\<lparr>line_buffer := line_buffer p @ [ch]\<rparr>
         in if ch = newline then
              (let (p2, segments2) = finish_line p1 segments1 in (p2, [], segments2))
            else
              (let slug = trim_start (line_buffer p1)
               in if slug = [] \<or> is_tag_prefix p1 slug then (p1, [], segments1)
                  else (p1\<lparr>line_buffer := [], detect_tag := False\<rparr>, [],
                        push_text p1 (line_buffer p1) segments1)))
      else
        (if ch = newline then (p\<lparr>detect_tag := True\<rparr>, [], push_text p (run @ [ch]) segments)
         else (p, run @ [ch], segments)))"

definition parse_delta :: "'a tagged_line_parser \<Rightarrow> ustring
    \<Rightarrow> 'a tagged_line_segment list \<times> 'a tagged_line_parser" where
  "parse_delta p delta =
     (let (p1, run, segments) = foldl parse_char (p, [], []) delta
      in (if run \<noteq> [] then push_text p1 run segments else segments, p1))"

definition finish_lines :: "'a tagged_line_parser \<Rightarrow> 'a tagged_line_segment list \<times> 'a tagged_line_parser" where
  "finish_lines p0 =
     (let (p1, segments) =
        (if line_buffer p0 \<noteq> [] then
           (let buffered = line_buffer p0;
                p = p0\<lparr>line_buffer := []\<rparr>;
                slug = trim_end (trim_start (without_newline buffered))
            in case (match_open (line_specs p) slug, active_line_tag p) of
                 (Some tag, None) \<Rightarrow> (p\<lparr>active_line_tag := Some tag\<rparr>, push_segment [] (TagStart tag))
               | _ \<Rightarrow>
                   (case match_close (line_specs p) slug of
                      Some tag \<Rightarrow>
                        if active_line_tag p = Some tag
                        then (p\<lparr>active_line_tag := None\<rparr>, push_segment [] (TagEnd tag))
                        else (p, push_text p buffered [])
                    | None \<Rightarrow> (p, push_text p buffered [])))
         else (p0, []));
          (p2, segments2) =
            (case active_line_tag p1 of
               Some tag \<Rightarrow> (p1\<lparr>active_line_tag := None\<rparr>, push_segment segments (TagEnd tag))
             | None \<Rightarrow> (p1, segments))
      in (segments2, p2\<lparr>detect_tag := True\<rparr>))"

section \<open>Proposed plans\<close>

definition PLAN_OPEN_TAG :: ustring where
  "PLAN_OPEN_TAG = lit ''<proposed_plan>''"

definition PLAN_CLOSE_TAG :: ustring where
  "PLAN_CLOSE_TAG = lit ''</proposed_plan>''"

datatype plan_tag = ProposedPlan

datatype proposed_plan_segment =
    PlanNormal ustring
  | ProposedPlanStart
  | ProposedPlanDelta ustring
  | ProposedPlanEnd

type_synonym plan_parser = "plan_tag tagged_line_parser"

definition plan_spec :: "plan_tag line_tag_spec" where
  "plan_spec = \<lparr>line_open = PLAN_OPEN_TAG, line_close = PLAN_CLOSE_TAG, line_tag = ProposedPlan\<rparr>"

definition new_plan_parser :: plan_parser where
  "new_plan_parser = new_tagged_line_parser [plan_spec]"

fun map_segment :: "plan_tag tagged_line_segment \<Rightarrow> proposed_plan_segment" where
  "map_segment (Normal txt) = PlanNormal txt"
| "map_segment (TagStart ProposedPlan) = ProposedPlanStart"
| "map_segment (TagDelta ProposedPlan txt) = ProposedPlanDelta txt"
| "map_segment (TagEnd ProposedPlan) = ProposedPlanEnd"

fun plan_visible :: "proposed_plan_segment \<Rightarrow> ustring" where
  "plan_visible (PlanNormal txt) = txt"
| "plan_visible _ = []"

definition map_segments :: "plan_tag tagged_line_segment list \<Rightarrow> proposed_plan_segment stream_text_chunk" where
  "map_segments segments =
     \<lparr>visible_text = concat (map (plan_visible \<circ> map_segment) segments),
      extracted = map map_segment segments\<rparr>"

definition plan_push_str :: "(plan_parser, proposed_plan_segment) push_fun" where
  "plan_push_str p chunk = (let (segments, p1) = parse_delta p chunk in Some (map_segments segments, p1))"

definition plan_finish :: "(plan_parser, proposed_plan_segment) finish_fun" where
  "plan_finish p = (let (segments, p1) = finish_lines p in (map_segments segments, p1))"

definition strip_proposed_plan_blocks :: "ustring \<Rightarrow> ustring" where
  "strip_proposed_plan_blocks txt =
     (let (segments, p) = parse_delta new_plan_parser txt
      in visible_text (map_segments segments) @ visible_text (map_segments (fst (finish_lines p))))"

fun plan_text_step :: "ustring \<times> bool \<Rightarrow> proposed_plan_segment \<Rightarrow> ustring \<times> bool" where
  "plan_text_step (plan_text, saw_plan_block) ProposedPlanStart = ([], True)"
| "plan_text_step (plan_text, saw_plan_block) (ProposedPlanDelta delta) = (plan_text @ delta, saw_plan_block)"
| "plan_text_step (plan_text, saw_plan_block) ProposedPlanEnd = (plan_text, saw_plan_block)"
| "plan_text_step (plan_text, saw_plan_block) (PlanNormal _) = (plan_text, saw_plan_block)"

definition extract_proposed_plan_text :: "ustring \<Rightarrow> ustring option" where
  "extract_proposed_plan_text txt =
     (let (segments, p) = parse_delta new_plan_parser txt;
          (plan_text, saw_plan_block) =
            foldl plan_text_step ([], False)
              (extracted (map_segments segments) @ extracted (map_segments (fst (finish_lines p))))
      in if saw_plan_block then Some plan_text else None)"

section \<open>Assistant text\<close>

record assistant_text_chunk =
  assistant_visible :: ustring
  assistant_citations :: "ustring list"
  assistant_plan :: "proposed_plan_segment list"

record assistant_text_parser =
  plan_mode :: bool
  citation_part :: "citation_tag inline_parser"
  plan_part :: plan_parser

definition new_assistant_parser :: "bool \<Rightarrow> assistant_text_parser option" where
  "new_assistant_parser mode =
     map_option (\<lambda>c. \<lparr>plan_mode = mode, citation_part = c, plan_part = new_plan_parser\<rparr>)
       new_citation_parser"

definition parse_visible_text :: "assistant_text_parser \<Rightarrow> ustring
    \<Rightarrow> (assistant_text_chunk \<times> assistant_text_parser) option" where
  "parse_visible_text p txt =
     (if \<not> plan_mode p
      then Some (\<lparr>assistant_visible = txt, assistant_citations = [], assistant_plan = []\<rparr>, p)
      else map_option (\<lambda>(plan_chunk, plan1).
             (\<lparr>assistant_visible = visible_text plan_chunk, assistant_citations = [],
               assistant_plan = extracted plan_chunk\<rparr>, p\<lparr>plan_part := plan1\<rparr>))
             (plan_push_str (plan_part p) txt))"

definition assistant_push_str :: "assistant_text_parser \<Rightarrow> ustring
    \<Rightarrow> (assistant_text_chunk \<times> assistant_text_parser) option" where
  "assistant_push_str p chunk =
     Option.bind (citation_push_str (citation_part p) chunk) (\<lambda>(citation_chunk, citations1).
       map_option (\<lambda>(out, p1). (out\<lparr>assistant_citations := extracted citation_chunk\<rparr>, p1))
         (parse_visible_text (p\<lparr>citation_part := citations1\<rparr>) (visible_text citation_chunk)))"

definition assistant_finish :: "assistant_text_parser \<Rightarrow> (assistant_text_chunk \<times> assistant_text_parser) option" where
  "assistant_finish p =
     (let (citation_chunk, citations1) = citation_finish (citation_part p)
      in map_option (\<lambda>(out, p1).
           let (out1, p2) =
             (if plan_mode p1 then
                (let (tail, plan1) = plan_finish (plan_part p1)
                 in (if \<not> chunk_is_empty tail
                     then out\<lparr>assistant_visible := assistant_visible out @ visible_text tail,
                              assistant_plan := assistant_plan out @ extracted tail\<rparr>
                     else out,
                     p1\<lparr>plan_part := plan1\<rparr>))
              else (out, p1))
           in (out1\<lparr>assistant_citations := extracted citation_chunk\<rparr>, p2))
         (parse_visible_text (p\<lparr>citation_part := citations1\<rparr>) (visible_text citation_chunk)))"

section \<open>Merging segments\<close>

definition merge_segments :: "'a tagged_line_segment list \<Rightarrow> 'a tagged_line_segment list" where
  "merge_segments = foldl push_segment []"

lemma push_segment_push_segment:
  "foldl push_segment acc (push_segment xs s) = push_segment (foldl push_segment acc xs) s"
proof (cases xs rule: rev_cases)
  case Nil
  then show ?thesis by (cases s) simp_all
next
  case (snoc ys y)
  show ?thesis
    by (cases s; cases y) (auto simp: snoc split: tagged_line_segment.splits)
qed

lemma foldl_push_merge: "foldl push_segment acc (merge_segments xs) = foldl push_segment acc xs"
proof (induction xs rule: rev_induct)
  case (snoc x xs)
  then show ?case by (simp add: merge_segments_def push_segment_push_segment)
qed (simp add: merge_segments_def)

lemma foldl_push_foldl:
  "foldl push_segment acc (foldl push_segment xs ys) = foldl push_segment acc (xs @ ys)"
proof (induction ys rule: rev_induct)
  case (snoc y ys)
  then show ?case by (simp add: push_segment_push_segment)
qed simp

lemma merge_merge_segments: "merge_segments (merge_segments xs @ merge_segments ys) = merge_segments (xs @ ys)"
  by (simp add: merge_segments_def [abs_def] foldl_push_foldl)

lemma merge_segments_idem [simp]: "merge_segments (merge_segments xs) = merge_segments xs"
  by (simp add: merge_segments_def [abs_def] foldl_push_foldl)

lemma push_text_segments:
  "push_segment (push_segment acc (text_segment a s)) (text_segment a t) =
   push_segment acc (text_segment a (s @ t))"
  by (auto simp: text_segment_def split: option.splits tagged_line_segment.splits)

lemma push_text_empty [simp]: "push_segment acc (text_segment a []) = acc"
  by (simp add: text_segment_def split: option.splits)

section \<open>One character at a time\<close>

text \<open>What a character does to the parser and which segments it pushes, the run flushed.\<close>

definition line_decision :: "'a line_tag_spec list \<Rightarrow> 'a option \<Rightarrow> ustring
    \<Rightarrow> 'a tagged_line_segment \<times> 'a option" where
  "line_decision specs active line =
     (let slug = trim (without_newline line)
      in case (match_open specs slug, active) of
           (Some tag, None) \<Rightarrow> (TagStart tag, Some tag)
         | _ \<Rightarrow>
             (case (match_close specs slug, active) of
                (Some tag, Some tag') \<Rightarrow>
                  if tag' = tag then (TagEnd tag, None) else (text_segment active line, active)
              | _ \<Rightarrow> (text_segment active line, active)))"

definition char_step :: "'a tagged_line_parser \<Rightarrow> uchar \<Rightarrow> 'a tagged_line_parser \<times> 'a tagged_line_segment list" where
  "char_step p ch =
     (let p1 = p\<lparr>line_buffer := line_buffer p @ [ch]\<rparr> in
      if detect_tag p then
        if ch = newline then
          (case line_decision (line_specs p) (active_line_tag p) (line_buffer p1) of
             (seg, active) \<Rightarrow>
               (p\<lparr>active_line_tag := active, line_buffer := []\<rparr>, [seg]))
        else if trim_start (line_buffer p1) = [] \<or> is_tag_prefix p1 (trim_start (line_buffer p1)) then (p1, [])
        else (p\<lparr>line_buffer := [], detect_tag := False\<rparr>, [text_segment (active_line_tag p) (line_buffer p1)])
      else (p\<lparr>detect_tag := (ch = newline)\<rparr>, [text_segment (active_line_tag p) [ch]]))"

lemma finish_line_decision:
  "detect_tag p \<Longrightarrow> finish_line p segments =
     (case line_decision (line_specs p) (active_line_tag p) (line_buffer p) of
        (seg, active) \<Rightarrow> (p\<lparr>active_line_tag := active, line_buffer := []\<rparr>, push_segment segments seg))"
  by (cases p) (auto simp: finish_line_def line_decision_def trim_def push_text_def Let_def
      split: option.splits)

definition flushed :: "'a tagged_line_parser \<times> ustring \<times> 'a tagged_line_segment list
    \<Rightarrow> 'a tagged_line_segment list" where
  "flushed st = (case st of (p, run, segments) \<Rightarrow> push_text p run segments)"

lemma parse_char_step:
  "fst (parse_char (p, run, segments) ch) = fst (char_step p ch) \<and>
   flushed (parse_char (p, run, segments) ch)
     = foldl push_segment (flushed (p, run, segments)) (snd (char_step p ch))"
proof (cases "detect_tag p")
  case True
  then show ?thesis
    by (cases p) (simp add: char_step_def flushed_def push_text_def Let_def finish_line_decision is_tag_prefix_def
        split: prod.splits)
next
  case False
  then show ?thesis
    by (cases p) (simp add: char_step_def flushed_def push_text_def Let_def push_text_segments)
qed

fun chars_step :: "'a tagged_line_parser \<Rightarrow> ustring \<Rightarrow> 'a tagged_line_parser \<times> 'a tagged_line_segment list" where
  "chars_step p [] = (p, [])"
| "chars_step p (ch # cs) =
     (case char_step p ch of (p1, pieces) \<Rightarrow>
        (case chars_step p1 cs of (p2, rest) \<Rightarrow> (p2, pieces @ rest)))"

lemma foldl_parse_char:
  "fst (foldl parse_char st cs) = fst (chars_step (fst st) cs) \<and>
   flushed (foldl parse_char st cs) = foldl push_segment (flushed st) (snd (chars_step (fst st) cs))"
proof (induction cs arbitrary: st)
  case (Cons ch cs)
  obtain p run segments where st: "st = (p, run, segments)" by (cases st)
  from parse_char_step [of p run segments ch] Cons [of "parse_char st ch"] show ?case
    by (simp add: st split: prod.splits)
qed simp

lemma parse_delta_steps:
  "parse_delta p delta = (merge_segments (snd (chars_step p delta)), fst (chars_step p delta))"
  using foldl_parse_char [of "(p, [], [])" delta]
  by (auto simp: parse_delta_def flushed_def push_text_def merge_segments_def split: prod.splits)

lemma chars_step_append:
  "chars_step p (a @ b) =
     (case chars_step p a of (p1, s1) \<Rightarrow> (case chars_step p1 b of (p2, s2) \<Rightarrow> (p2, s1 @ s2)))"
  by (induction a arbitrary: p) (simp_all split: prod.splits)

section \<open>The plan parser keeps the interface\<close>

fun segment_of_plan :: "proposed_plan_segment \<Rightarrow> plan_tag tagged_line_segment" where
  "segment_of_plan (PlanNormal txt) = Normal txt"
| "segment_of_plan ProposedPlanStart = TagStart ProposedPlan"
| "segment_of_plan (ProposedPlanDelta txt) = TagDelta ProposedPlan txt"
| "segment_of_plan ProposedPlanEnd = TagEnd ProposedPlan"

lemma plan_segment_inverse [simp]:
  "map_segment (segment_of_plan x) = x" "segment_of_plan (map_segment y) = y"
proof -
  show "map_segment (segment_of_plan x) = x" by (cases x) simp_all
  show "segment_of_plan (map_segment y) = y"
    by (cases y) (metis map_segment.simps segment_of_plan.simps plan_tag.exhaust)+
qed

lemma plan_segments_inverse [simp]:
  "map (segment_of_plan \<circ> map_segment) ys = ys" "map (map_segment \<circ> segment_of_plan) xs = xs"
  by (simp_all add: map_idI)

text \<open>Adjacent deltas of the same kind put together.\<close>

definition merge_plan :: "proposed_plan_segment list \<Rightarrow> proposed_plan_segment list" where
  "merge_plan xs = map map_segment (merge_segments (map segment_of_plan xs))"

definition visible_of :: "plan_tag tagged_line_segment list \<Rightarrow> ustring" where
  "visible_of segments = concat (map (plan_visible \<circ> map_segment) segments)"

lemma visible_of_simps [simp]:
  "visible_of [] = []" "visible_of (xs @ ys) = visible_of xs @ visible_of ys"
  by (simp_all add: visible_of_def)

lemma visible_hidden [simp]:
  "plan_visible (map_segment (TagStart g)) = []" "plan_visible (map_segment (TagEnd g)) = []"
  "plan_visible (map_segment (TagDelta g txt)) = []"
  by (cases g; simp)+

lemma visible_of_push: "visible_of (push_segment xs s) = visible_of xs @ visible_of [s]"
proof (cases xs rule: rev_cases)
  case Nil
  then show ?thesis by (cases s) (simp_all add: visible_of_def)
next
  case (snoc ys y)
  show ?thesis
    by (cases s; cases y) (auto simp: snoc visible_of_def split: tagged_line_segment.splits)
qed

lemma visible_of_merge [simp]: "visible_of (merge_segments xs) = visible_of xs"
  by (induction xs rule: rev_induct) (simp_all add: merge_segments_def visible_of_push)

lemma map_segments_simps [simp]:
  "visible_text (map_segments xs) = visible_of xs" "extracted (map_segments xs) = map map_segment xs"
  by (simp_all add: map_segments_def visible_of_def)

interpretation plans: stream_text_parser plan_push_str plan_finish "\<lambda>_. True" merge_plan
proof
  fix s :: plan_parser and a
  show "\<exists>out s1. plan_push_str s a = Some (out, s1) \<and> True"
    by (simp add: plan_push_str_def split: prod.splits)
  show "plan_push_str s [] = Some (empty_chunk, s)"
    by (simp add: plan_push_str_def parse_delta_steps merge_segments_def map_segments_def empty_chunk_def)
next
  fix s s1 s2 :: plan_parser and a b o1 o2
  assume "plan_push_str s a = Some (o1, s1)" and "plan_push_str s1 b = Some (o2, s2)"
  then show "\<exists>out. plan_push_str s (a @ b) = Some (out, s2) \<and>
      visible_text out = visible_text o1 @ visible_text o2 \<and>
      merge_plan (extracted out) = merge_plan (extracted o1 @ extracted o2)"
    by (auto simp: plan_push_str_def parse_delta_steps chars_step_append merge_plan_def
        merge_merge_segments split: prod.splits)
next
  fix xs ys
  show "merge_plan (merge_plan xs @ merge_plan ys) = merge_plan (xs @ ys)"
    by (simp add: merge_plan_def merge_merge_segments)
qed

section \<open>Reading line by line\<close>

text \<open>The lines of a text, each with its newline.\<close>

fun text_lines :: "ustring \<Rightarrow> ustring list" where
  "text_lines [] = []"
| "text_lines (c # cs) =
     (if c = newline then [c] # text_lines cs
      else (case text_lines cs of [] \<Rightarrow> [[c]] | l # ls \<Rightarrow> (c # l) # ls))"

text \<open>Each whole line is a tag or text; a block that is still open at the end is closed.\<close>

fun read_lines :: "'a line_tag_spec list \<Rightarrow> 'a option \<Rightarrow> ustring list \<Rightarrow> 'a tagged_line_segment list" where
  "read_lines specs active [] = (case active of Some tag \<Rightarrow> [TagEnd tag] | None \<Rightarrow> [])"
| "read_lines specs active (l # ls) =
     (case line_decision specs active l of (seg, active') \<Rightarrow> seg # read_lines specs active' ls)"

lemma text_lines_line: "newline \<notin> set w \<Longrightarrow> text_lines (w @ newline # rest) = (w @ [newline]) # text_lines rest"
  by (induction w) auto

lemma text_lines_last: "newline \<notin> set w \<Longrightarrow> text_lines w = (if w = [] then [] else [w])"
  by (induction w) auto

lemma without_newline_simps:
  "without_newline (w @ [newline]) = w" "newline \<notin> set w \<Longrightarrow> without_newline w = w"
  by (auto simp: without_newline_def strip_suffix_def suffix_def split: option.splits)

lemma finish_lines_read:
  "fst (finish_lines p) = merge_segments (read_lines (line_specs p) (active_line_tag p)
     (if line_buffer p = [] then [] else [line_buffer p]))"
  by (cases p) (auto simp: finish_lines_def line_decision_def trim_def push_text_def text_segment_def Let_def
      merge_segments_def split: option.splits)

lemma trim_end_append:
  "trim_end (x @ r) = (if \<forall>c \<in> set r. is_whitespace c then trim_end x else x @ trim_end r)"
  by (auto simp: trim_end_def dropWhile_append)

lemma trim_end_prefix: "prefix (trim_end x) x"
  using suffix_dropWhile [of is_whitespace "rev x"] by (simp add: trim_end_def suffix_to_prefix)

lemma trim_prefix:
  assumes "prefix u w" and "trim_start u \<noteq> []"
  shows "prefix (trim_end (trim_start u)) (trim w)"
proof -
  from assms(1) obtain r where w: "w = u @ r" by (auto simp: prefix_def)
  from assms(2) have "\<exists>c \<in> set u. \<not> is_whitespace c" by (auto simp: trim_start_def)
  then have "trim_start w = trim_start u @ r" by (auto simp: w trim_start_def dropWhile_append1)
  then show ?thesis
    by (auto simp: trim_def trim_end_append intro: prefix_order.trans [OF trim_end_prefix])
qed

text \<open>A line whose start can still be a tag at every character.\<close>

definition undecided :: "'a tagged_line_parser \<Rightarrow> ustring \<Rightarrow> bool" where
  "undecided p w = (\<forall>u. prefix u w \<longrightarrow> trim_start u = [] \<or> is_tag_prefix p (trim_start u))"

lemma undecided_simps [simp]:
  "undecided p []"
  "undecided p (w @ [c]) \<longleftrightarrow>
     undecided p w \<and> (trim_start (w @ [c]) = [] \<or> is_tag_prefix p (trim_start (w @ [c])))"
  by (auto simp: undecided_def)

lemma decided_text:
  assumes "\<not> undecided p w" and "without_newline l = w"
  shows "line_decision (line_specs p) active l = (text_segment active l, active)"
proof -
  from assms(1) obtain u where u: "prefix u w" "trim_start u \<noteq> []" "\<not> is_tag_prefix p (trim_start u)"
    by (auto simp: undecided_def)
  from trim_prefix [OF u(1,2)] u(3)
  have "match_open (line_specs p) (trim w) = None" "match_close (line_specs p) (trim w) = None"
    by (auto simp: is_tag_prefix_def match_open_def match_close_def list_ex_iff find_None_iff)
  then show ?thesis by (simp add: line_decision_def assms(2) Let_def)
qed

lemma partial_line:
  assumes "newline \<notin> set w" and "detect_tag p" and "line_buffer p = []"
  shows "(undecided p w \<longrightarrow> chars_step p w = (p\<lparr>line_buffer := w\<rparr>, [])) \<and>
    (\<not> undecided p w \<longrightarrow> fst (chars_step p w) = p\<lparr>detect_tag := False\<rparr> \<and>
      (\<forall>acc. foldl push_segment acc (snd (chars_step p w))
         = push_segment acc (text_segment (active_line_tag p) w)))"
  using assms(1)
proof (induction w rule: rev_induct)
  case Nil
  with assms(2,3) show ?case by (cases p) simp
next
  case (snoc c w)
  have ih: "undecided p w \<Longrightarrow> chars_step p w = (p\<lparr>line_buffer := w\<rparr>, [])"
    "\<not> undecided p w \<Longrightarrow> fst (chars_step p w) = p\<lparr>detect_tag := False\<rparr>"
    "\<not> undecided p w \<Longrightarrow> foldl push_segment acc (snd (chars_step p w))
         = push_segment acc (text_segment (active_line_tag p) w)" for acc
    using snoc by auto
  have c: "c \<noteq> newline" using snoc.prems by simp
  show ?case
  proof (cases "undecided p w")
    case True
    with ih(1) c assms(2,3) show ?thesis
      by (cases p) (auto simp: chars_step_append char_step_def is_tag_prefix_def)
  next
    case False
    obtain p1 s1 where w: "chars_step p w = (p1, s1)" by fastforce
    with ih(2,3) [OF False] c assms(2,3) False show ?thesis
      by (cases p) (auto simp: chars_step_append char_step_def push_text_segments)
  qed
qed

lemma whole_line:
  assumes "newline \<notin> set w" and "detect_tag p" and "line_buffer p = []"
  shows "\<exists>s. chars_step p (w @ [newline])
      = (p\<lparr>active_line_tag := snd (line_decision (line_specs p) (active_line_tag p) (w @ [newline]))\<rparr>, s) \<and>
    (\<forall>acc. foldl push_segment acc s
      = push_segment acc (fst (line_decision (line_specs p) (active_line_tag p) (w @ [newline]))))"
proof (cases "undecided p w")
  case True
  with partial_line [OF assms] assms(2,3) show ?thesis
    by (cases p) (auto simp: chars_step_append char_step_def split: prod.splits)
next
  case False
  obtain p1 s1 where w: "chars_step p w = (p1, s1)" by fastforce
  with partial_line [OF assms] False assms(2,3) decided_text [OF False without_newline_simps(1), of "active_line_tag p"]
  show ?thesis
    by (cases p) (auto simp: chars_step_append char_step_def push_text_segments)
qed

lemma read_whole_text:
  "detect_tag p \<Longrightarrow> line_buffer p = [] \<Longrightarrow>
   foldl push_segment acc (snd (chars_step p inp) @ fst (finish_lines (fst (chars_step p inp))))
     = foldl push_segment acc (read_lines (line_specs p) (active_line_tag p) (text_lines inp))"
proof (induction inp arbitrary: p acc rule: length_induct)
  case (1 inp p acc)
  show ?case
  proof (cases "newline \<in> set inp")
    case True
    then obtain w rest where inp: "inp = w @ newline # rest" "newline \<notin> set w"
      by (auto dest: split_list_first)
    let ?d = "line_decision (line_specs p) (active_line_tag p) (w @ [newline])"
    let ?q = "p\<lparr>active_line_tag := snd ?d\<rparr>"
    from whole_line [OF inp(2) "1.prems"] obtain s where s: "chars_step p (w @ [newline]) = (?q, s)"
      "\<And>acc. foldl push_segment acc s = push_segment acc (fst ?d)" by blast
    have "chars_step p inp = (fst (chars_step ?q rest), s @ snd (chars_step ?q rest))"
      using s(1) chars_step_append [of p "w @ [newline]" rest] by (simp add: inp(1) split: prod.splits)
    moreover have "foldl push_segment acc' (snd (chars_step ?q rest) @ fst (finish_lines (fst (chars_step ?q rest))))
        = foldl push_segment acc' (read_lines (line_specs ?q) (active_line_tag ?q) (text_lines rest))" for acc'
      using "1.IH" [rule_format, of rest ?q acc'] "1.prems" by (simp add: inp(1))
    ultimately show ?thesis
      by (simp add: inp text_lines_line s(2) split: prod.splits)
  next
    case False
    show ?thesis
    proof (cases "undecided p inp")
      case True
      with partial_line [OF False "1.prems"] show ?thesis
        by (simp add: finish_lines_read text_lines_last False foldl_push_merge)
    next
      case d: False
      with partial_line [OF False "1.prems"] have ne: "inp \<noteq> []" by auto
      from d partial_line [OF False "1.prems"] have
        "fst (chars_step p inp) = p\<lparr>detect_tag := False\<rparr>"
        "\<And>acc. foldl push_segment acc (snd (chars_step p inp)) = push_segment acc (text_segment (active_line_tag p) inp)"
        by auto
      then show ?thesis
        using decided_text [OF d without_newline_simps(2) [OF False], of "active_line_tag p"] ne "1.prems"
        by (simp add: finish_lines_read text_lines_last False foldl_push_merge)
    qed
  qed
qed

lemma plan_collect_one:
  "collect_chunks plan_push_str plan_finish p [inp] =
     Some (map_segments (merge_segments (snd (chars_step p inp)) @ fst (finish_lines (fst (chars_step p inp)))))"
  by (auto simp: collect_chunks_def plan_push_str_def plan_finish_def parse_delta_steps append_chunk_def
      map_segments_def split: prod.splits)

lemma plan_collect_read:
  assumes "collect_chunks plan_push_str plan_finish new_plan_parser [inp] = Some c"
  shows "visible_text c = strip_proposed_plan_blocks inp \<and>
    visible_text c = visible_of (read_lines [plan_spec] None (text_lines inp)) \<and>
    merge_plan (extracted c) = map map_segment (merge_segments (read_lines [plan_spec] None (text_lines inp)))"
proof -
  let ?s = "snd (chars_step new_plan_parser inp)"
  let ?f = "fst (finish_lines (fst (chars_step new_plan_parser inp)))"
  have c: "c = map_segments (merge_segments ?s @ ?f)" using assms by (simp add: plan_collect_one)
  have read: "merge_segments (?s @ ?f) = merge_segments (read_lines [plan_spec] None (text_lines inp))"
    using read_whole_text [of new_plan_parser "[]" inp]
    by (simp add: merge_segments_def new_plan_parser_def new_tagged_line_parser_def)
  have "visible_of (merge_segments ?s @ ?f) = visible_of (merge_segments (?s @ ?f))" by simp
  then have "visible_text c = visible_of (read_lines [plan_spec] None (text_lines inp))"
    by (simp only: c map_segments_simps read visible_of_merge)
  moreover have "visible_text c = strip_proposed_plan_blocks inp"
    by (simp add: c strip_proposed_plan_blocks_def parse_delta_steps)
  moreover have "merge_plan (extracted c) = map map_segment (merge_segments (merge_segments ?s @ merge_segments ?f))"
    by (simp add: c merge_plan_def merge_segments_def foldl_push_foldl)
  ultimately show ?thesis by (simp only: merge_merge_segments read)
qed

text \<open>
  Plan blocks are read line by line however the text is cut: the parser returns from
  every push, and its segments, with adjacent deltas put together, are those of reading
  each whole line of the text as an opening tag, a closing tag or text, an open block being
  closed at the end; the visible text is the text outside the blocks.
\<close>

theorem plan_blocks_read_line_by_line:
  "\<exists>c. collect_chunks plan_push_str plan_finish new_plan_parser chunks = Some c \<and>
     merge_plan (extracted c)
       = map map_segment (merge_segments (read_lines [plan_spec] None (text_lines (concat chunks)))) \<and>
     visible_text c = visible_of (read_lines [plan_spec] None (text_lines (concat chunks))) \<and>
     visible_text c = strip_proposed_plan_blocks (concat chunks)"
proof -
  from plans.chunking_irrelevant [where s = new_plan_parser and cs = chunks and ds = "[concat chunks]"] obtain c d where
    "collect_chunks plan_push_str plan_finish new_plan_parser chunks = Some c"
    "collect_chunks plan_push_str plan_finish new_plan_parser [concat chunks] = Some d"
    "plans.same_chunk c d" by auto
  moreover from this(2) have
    "visible_text d = strip_proposed_plan_blocks (concat chunks)"
    "visible_text d = visible_of (read_lines [plan_spec] None (text_lines (concat chunks)))"
    "merge_plan (extracted d)
       = map map_segment (merge_segments (read_lines [plan_spec] None (text_lines (concat chunks))))"
    using plan_collect_read by blast+
  ultimately show ?thesis unfolding plans.same_chunk_def by metis
qed

section \<open>Assistant text in chunks\<close>

text \<open>What the visible text of the citations goes through next: the plans, in plan mode.\<close>

definition visible_push :: "bool \<Rightarrow> (plan_parser, proposed_plan_segment) push_fun" where
  "visible_push mode plan inp =
     (if mode then plan_push_str plan inp else Some (\<lparr>visible_text = inp, extracted = []\<rparr>, plan))"

definition visible_finish :: "bool \<Rightarrow> (plan_parser, proposed_plan_segment) finish_fun" where
  "visible_finish mode plan = (if mode then plan_finish plan else (empty_chunk, plan))"

interpretation visible: stream_text_parser "visible_push mode" "visible_finish mode" "\<lambda>_. True" merge_plan
  for mode
proof (cases mode)
  case True
  then have "visible_push mode = plan_push_str" "visible_finish mode = plan_finish"
    by (simp_all add: visible_push_def [abs_def] visible_finish_def [abs_def])
  then show "stream_text_parser (visible_push mode) (\<lambda>_. True) merge_plan"
    using plans.stream_text_parser_axioms by simp
next
  case False
  then show "stream_text_parser (visible_push mode) (\<lambda>_. True) merge_plan"
    by unfold_locales
      (auto simp: visible_push_def empty_chunk_def merge_plan_def merge_merge_segments)
qed

lemma parse_visible_push:
  "parse_visible_text p inp = map_option (\<lambda>(c, plan).
     (\<lparr>assistant_visible = visible_text c, assistant_citations = [], assistant_plan = extracted c\<rparr>,
      p\<lparr>plan_part := plan\<rparr>)) (visible_push (plan_mode p) (plan_part p) inp)"
  by (simp add: parse_visible_text_def visible_push_def)

fun assistant_push_all :: "assistant_text_parser \<Rightarrow> ustring list
    \<Rightarrow> (assistant_text_chunk \<times> assistant_text_parser) option" where
  "assistant_push_all p [] =
     Some (\<lparr>assistant_visible = [], assistant_citations = [], assistant_plan = []\<rparr>, p)"
| "assistant_push_all p (c # cs) =
     Option.bind (assistant_push_str p c) (\<lambda>(out, p1).
       map_option (\<lambda>(rest, p2).
         (\<lparr>assistant_visible = assistant_visible out @ assistant_visible rest,
           assistant_citations = assistant_citations out @ assistant_citations rest,
           assistant_plan = assistant_plan out @ assistant_plan rest\<rparr>, p2))
         (assistant_push_all p1 cs))"

definition assistant_collect :: "assistant_text_parser \<Rightarrow> ustring list \<Rightarrow> assistant_text_chunk option" where
  "assistant_collect p chunks =
     Option.bind (assistant_push_all p chunks) (\<lambda>(out, p1).
       map_option (\<lambda>(rest, _).
         \<lparr>assistant_visible = assistant_visible out @ assistant_visible rest,
          assistant_citations = assistant_citations out @ assistant_citations rest,
          assistant_plan = assistant_plan out @ assistant_plan rest\<rparr>)
         (assistant_finish p1))"

lemma assistant_push_parts:
  assumes "citation_state (citation_part p)"
  shows "\<exists>out p' co po. assistant_push_str p inp = Some (out, p') \<and>
    citation_push_str (citation_part p) inp = Some (co, citation_part p') \<and>
    citation_state (citation_part p') \<and> plan_mode p' = plan_mode p \<and>
    visible_push (plan_mode p) (plan_part p) (visible_text co) = Some (po, plan_part p') \<and>
    assistant_visible out = visible_text po \<and> assistant_citations out = extracted co \<and>
    assistant_plan out = extracted po"
proof -
  obtain co c1 where c: "citation_push_str (citation_part p) inp = Some (co, c1)" "citation_state c1"
    using citations.push_returns [OF assms, of inp] by blast
  obtain po plan1 where "visible_push (plan_mode p) (plan_part p) (visible_text co) = Some (po, plan1)"
    using visible.push_returns [of "plan_mode p" "plan_part p" "visible_text co"] by blast
  with c show ?thesis by (simp add: assistant_push_str_def parse_visible_push)
qed

lemma assistant_push_all_parts:
  "citation_state (citation_part p) \<Longrightarrow> \<exists>out p' co po.
    assistant_push_all p chunks = Some (out, p') \<and>
    push_all citation_push_str (citation_part p) chunks = Some (co, citation_part p') \<and>
    plan_mode p' = plan_mode p \<and>
    visible_push (plan_mode p) (plan_part p) (visible_text co) = Some (po, plan_part p') \<and>
    assistant_visible out = visible_text po \<and> assistant_citations out = extracted co \<and>
    merge_plan (assistant_plan out) = merge_plan (extracted po)"
proof (induction chunks arbitrary: p)
  case Nil
  have "visible_push (plan_mode p) (plan_part p) [] = Some (empty_chunk, plan_part p)"
    using visible.push_empty [of "plan_mode p" "plan_part p"] by simp
  then show ?case by (simp add: empty_chunk_def)
next
  case (Cons ch chunks)
  from assistant_push_parts [OF Cons.prems, of ch] obtain o1 p1 co1 po1 where
    1: "assistant_push_str p ch = Some (o1, p1)"
      "citation_push_str (citation_part p) ch = Some (co1, citation_part p1)"
      "citation_state (citation_part p1)" "plan_mode p1 = plan_mode p"
      "visible_push (plan_mode p) (plan_part p) (visible_text co1) = Some (po1, plan_part p1)"
      "assistant_visible o1 = visible_text po1" "assistant_citations o1 = extracted co1"
      "assistant_plan o1 = extracted po1" by blast
  from Cons.IH [OF 1(3)] obtain o2 p2 co2 po2 where
    2: "assistant_push_all p1 chunks = Some (o2, p2)"
      "push_all citation_push_str (citation_part p1) chunks = Some (co2, citation_part p2)"
      "plan_mode p2 = plan_mode p"
      "visible_push (plan_mode p) (plan_part p1) (visible_text co2) = Some (po2, plan_part p2)"
      "assistant_visible o2 = visible_text po2" "assistant_citations o2 = extracted co2"
      "merge_plan (assistant_plan o2) = merge_plan (extracted po2)"
    by (auto simp: 1(4))
  from visible.push_append [OF _ 1(5) 2(4)] obtain po where
    "visible_push (plan_mode p) (plan_part p) (visible_text co1 @ visible_text co2) = Some (po, plan_part p2)"
    "visible_text po = visible_text po1 @ visible_text po2"
    "merge_plan (extracted po) = merge_plan (extracted po1 @ extracted po2)" by auto
  moreover have "merge_plan (extracted po1 @ assistant_plan o2) = merge_plan (extracted po1 @ extracted po2)"
    using 2(7) by (intro plans.merge_cong) simp_all
  ultimately show ?case using 1 2 by auto
qed

lemma assistant_finish_parts:
  assumes "citation_finish (citation_part p) = (co, c1)"
    and "visible_push (plan_mode p) (plan_part p) (visible_text co) = Some (po, plan1)"
    and "visible_finish (plan_mode p) plan1 = (pt, plan2)"
  shows "\<exists>p'. assistant_finish p =
    Some (\<lparr>assistant_visible = visible_text po @ visible_text pt, assistant_citations = extracted co,
           assistant_plan = extracted po @ extracted pt\<rparr>, p')"
  using assms
  by (auto simp: assistant_finish_def parse_visible_push visible_finish_def chunk_is_empty_def Let_def
      split: if_splits prod.splits)

text \<open>
  C40: The assistant's text is parsed the same however it streams in: the citations are those
  of the whole text, and in plan mode the plan segments and the visible text are those of
  reading the text without its citations line by line.
\<close>

theorem assistant_text_any_chunks:
  "\<exists>p out v. new_assistant_parser mode = Some p \<and> assistant_collect p chunks = Some out \<and>
     strip_citations (concat chunks) = Some (v, assistant_citations out) \<and>
     assistant_visible out = (if mode then strip_proposed_plan_blocks v else v) \<and>
     merge_plan (assistant_plan out)
       = (if mode then map map_segment (merge_segments (read_lines [plan_spec] None (text_lines v))) else [])"
proof -
  obtain c where c: "new_citation_parser = Some c" "citation_state c" using new_citation_state by blast
  let ?p = "\<lparr>plan_mode = mode, citation_part = c, plan_part = new_plan_parser\<rparr>"
  from assistant_push_all_parts [of ?p chunks] c(2) obtain o1 p1 co1 po1 where
    1: "assistant_push_all ?p chunks = Some (o1, p1)"
      "push_all citation_push_str c chunks = Some (co1, citation_part p1)" "plan_mode p1 = mode"
      "visible_push mode new_plan_parser (visible_text co1) = Some (po1, plan_part p1)"
      "assistant_visible o1 = visible_text po1" "assistant_citations o1 = extracted co1"
      "merge_plan (assistant_plan o1) = merge_plan (extracted po1)" by auto
  obtain co2 c2 where 2: "citation_finish (citation_part p1) = (co2, c2)" by fastforce
  obtain po2 plan2 where 3: "visible_push mode (plan_part p1) (visible_text co2) = Some (po2, plan2)"
    using visible.push_returns [of mode "plan_part p1" "visible_text co2"] by blast
  obtain pt plan3 where 4: "visible_finish mode plan2 = (pt, plan3)" by fastforce
  from assistant_finish_parts [OF 2, of po2 plan2 pt plan3] 1(3) 3 4 obtain p2 where
    5: "assistant_finish p1 = Some (\<lparr>assistant_visible = visible_text po2 @ visible_text pt,
      assistant_citations = extracted co2, assistant_plan = extracted po2 @ extracted pt\<rparr>, p2)" by auto
  let ?v = "visible_text co1 @ visible_text co2"
  have cites: "strip_citations (concat chunks) = Some (?v, extracted co1 @ extracted co2)"
  proof -
    have "collect_chunks citation_push_str citation_finish c chunks = Some (append_chunk co1 co2)"
      by (simp add: collect_chunks_def 1(2) 2)
    with citations.chunking_irrelevant [OF c(2), of chunks "[concat chunks]"] show ?thesis
      by (auto simp: strip_citations_def c(1) citations.same_chunk_def)
  qed
  from visible.push_append [OF _ 1(4) 3] obtain po where
    6: "visible_push mode new_plan_parser ?v = Some (po, plan2)"
      "visible_text po = visible_text po1 @ visible_text po2"
      "merge_plan (extracted po) = merge_plan (extracted po1 @ extracted po2)" by auto
  have merged: "merge_plan (assistant_plan o1 @ extracted po2 @ extracted pt) = merge_plan (extracted po @ extracted pt)"
    using 1(7) 6(3) plans.merge_cong [of "assistant_plan o1" "extracted po1" "extracted po2" "extracted po2"]
    by (metis append_assoc plans.merge_cong)
  have whole: "assistant_visible o1 @ visible_text po2 @ visible_text pt
        = (if mode then strip_proposed_plan_blocks ?v else ?v) \<and>
      merge_plan (extracted po @ extracted pt)
        = (if mode then map map_segment (merge_segments (read_lines [plan_spec] None (text_lines ?v))) else [])"
  proof (cases mode)
    case True
    with 6(1) 4 have "collect_chunks plan_push_str plan_finish new_plan_parser [?v] = Some (append_chunk po pt)"
      by (simp add: collect_chunks_def visible_push_def visible_finish_def)
    from plan_collect_read [OF this] True show ?thesis by (simp add: 6(2) 1(5))
  next
    case False
    with 1(4) 3 4 6(1) show ?thesis
      by (auto simp: visible_push_def visible_finish_def 1(5) merge_plan_def merge_segments_def)
  qed
  let ?out = "\<lparr>assistant_visible = assistant_visible o1 @ visible_text po2 @ visible_text pt,
    assistant_citations = extracted co1 @ extracted co2,
    assistant_plan = assistant_plan o1 @ extracted po2 @ extracted pt\<rparr>"
  have "new_assistant_parser mode = Some ?p" by (simp add: new_assistant_parser_def c(1))
  moreover have "assistant_collect ?p chunks = Some ?out" by (simp add: assistant_collect_def 1(1,6) 5)
  moreover have "strip_citations (concat chunks) = Some (?v, assistant_citations ?out)" by (simp add: cites)
  moreover have "assistant_visible ?out = (if mode then strip_proposed_plan_blocks ?v else ?v)"
    using whole by simp
  moreover have "merge_plan (assistant_plan ?out)
      = (if mode then map map_segment (merge_segments (read_lines [plan_spec] None (text_lines ?v))) else [])"
    using whole merged by simp
  ultimately show ?thesis by blast
qed

end
