(* ===== verification/FilePermissions.thy ===== *)
theory FilePermissions
  imports SandboxPolicy "HOL-Library.List_Lexorder"
begin

text \<open>
  The split file-system policy (\<open>protocol/src/permissions.rs\<close>): entries give access modes to
  paths, glob patterns and special places; the most specific entry for a path decides, and
  of equally specific ones deny beats write and write beats read. The lemmas are about what
  a path may do under a policy and how the operations on policies change it.
\<close>

section \<open>Entries\<close>

datatype access_mode = ReadAccess | WriteAccess | NoAccess

text \<open>The derived order of the enumeration.\<close>

fun access_rank :: "access_mode \<Rightarrow> nat" where
  "access_rank ReadAccess = 0"
| "access_rank WriteAccess = 1"
| "access_rank NoAccess = 2"

lemma access_rank_inject [simp]: "access_rank a = access_rank b \<longleftrightarrow> a = b"
  by (cases a; cases b) simp_all

instantiation access_mode :: linorder
begin

definition less_eq_access_mode :: "access_mode \<Rightarrow> access_mode \<Rightarrow> bool" where
  "less_eq_access_mode a b = (access_rank a \<le> access_rank b)"

definition less_access_mode :: "access_mode \<Rightarrow> access_mode \<Rightarrow> bool" where
  "less_access_mode a b = (access_rank a < access_rank b)"

instance
  by standard (auto simp: less_eq_access_mode_def less_access_mode_def simp flip: access_rank_inject)

end

definition can_read :: "access_mode \<Rightarrow> bool" where
  "can_read a = (a \<noteq> NoAccess)"

definition can_write :: "access_mode \<Rightarrow> bool" where
  "can_write a = (a = WriteAccess)"

datatype special_path =
    RootPath
  | Minimal
  | CurrentWorkingDirectory
  | ProjectRoots "ustring option"
  | Tmpdir
  | SlashTmp
  | UnknownSpecial ustring "ustring option"

datatype fs_path =
    ExactPath ustring
  | GlobPattern ustring
  | Special special_path

record fs_entry =
  entry_path :: fs_path
  entry_access :: access_mode

record fs_policy =
  policy_kind :: file_system_sandbox_kind
  glob_scan_max_depth :: "nat option"
  policy_entries :: "fs_entry list"

record resolved_entry =
  resolved_path :: ustring
  resolved_access :: access_mode

definition default_fs_policy :: fs_policy where
  "default_fs_policy = \<lparr>policy_kind = Restricted, glob_scan_max_depth = None,
     policy_entries = [\<lparr>entry_path = Special RootPath, entry_access = ReadAccess\<rparr>]\<rparr>"

definition unrestricted_policy :: fs_policy where
  "unrestricted_policy = \<lparr>policy_kind = Unrestricted, glob_scan_max_depth = None, policy_entries = []\<rparr>"

definition external_sandbox_policy :: fs_policy where
  "external_sandbox_policy = \<lparr>policy_kind = ExternalSandbox, glob_scan_max_depth = None, policy_entries = []\<rparr>"

definition restricted_policy :: "fs_entry list \<Rightarrow> fs_policy" where
  "restricted_policy entries = \<lparr>policy_kind = Restricted, glob_scan_max_depth = None, policy_entries = entries\<rparr>"

section \<open>Resolving entries\<close>

fun resolve_special_path :: "fs_view \<Rightarrow> special_path \<Rightarrow> ustring option \<Rightarrow> ustring option" where
  "resolve_special_path v RootPath cwd = None"
| "resolve_special_path v Minimal cwd = None"
| "resolve_special_path v (UnknownSpecial _ _) cwd = None"
| "resolve_special_path v CurrentWorkingDirectory cwd = cwd"
| "resolve_special_path v (ProjectRoots subpath) cwd =
     (case cwd of
        None \<Rightarrow> None
      | Some cwd \<Rightarrow>
          (case subpath of
             Some subpath \<Rightarrow> Some (resolve_path_against_base (view_paths v) subpath cwd)
           | None \<Rightarrow> Some cwd))"
| "resolve_special_path v Tmpdir cwd =
     (case tmpdir_var v of
        None \<Rightarrow> None
      | Some tmpdir \<Rightarrow> if tmpdir = [] then None else from_absolute_path (view_paths v) tmpdir)"
| "resolve_special_path v SlashTmp cwd =
     (case from_absolute_path (view_paths v) (lit ''/tmp'') of
        Some slash_tmp \<Rightarrow> if path_is_dir v slash_tmp then Some slash_tmp else None
      | None \<Rightarrow> None)"

fun resolve_file_system_path :: "fs_view \<Rightarrow> fs_path \<Rightarrow> ustring option \<Rightarrow> ustring option" where
  "resolve_file_system_path v (ExactPath p) cwd = Some p"
| "resolve_file_system_path v (GlobPattern _) cwd = None"
| "resolve_file_system_path v (Special value) cwd = resolve_special_path v value cwd"

definition absolute_root_path_for_cwd :: "ustring \<Rightarrow> ustring" where
  "absolute_root_path_for_cwd cwd = last (path_ancestors cwd)"

definition resolve_entry_path :: "fs_view \<Rightarrow> fs_path \<Rightarrow> ustring option \<Rightarrow> ustring option" where
  "resolve_entry_path v p cwd =
     (if p = Special RootPath then map_option absolute_root_path_for_cwd cwd
      else resolve_file_system_path v p cwd)"

definition resolve_candidate_path :: "fs_view \<Rightarrow> ustring \<Rightarrow> ustring \<Rightarrow> ustring option" where
  "resolve_candidate_path v p cwd =
     (if is_absolute p then from_absolute_path (view_paths v) p
      else Some (resolve_path_against_base (view_paths v) p cwd))"

definition resolved_entries :: "fs_view \<Rightarrow> fs_policy \<Rightarrow> ustring \<Rightarrow> resolved_entry list" where
  "resolved_entries v pol cwd =
     (let cwd_absolute = from_absolute_path (view_paths v) cwd
      in List.map_filter (\<lambda>e.
           map_option (\<lambda>p. \<lparr>resolved_path = p, resolved_access = entry_access e\<rparr>)
             (resolve_entry_path v (entry_path e) cwd_absolute)) (policy_entries pol))"

text \<open>The precedence is a pair, compared by its parts in order; \<open>max_by_key\<close> keeps the last maximum.\<close>

definition precedence_le :: "resolved_entry \<Rightarrow> resolved_entry \<Rightarrow> bool" where
  "precedence_le a b =
     (let m = length (path_components (resolved_path a)); n = length (path_components (resolved_path b))
      in m < n \<or> (m = n \<and> resolved_access a \<le> resolved_access b))"

fun max_entry :: "resolved_entry list \<Rightarrow> resolved_entry option" where
  "max_entry [] = None"
| "max_entry (e # es) =
     (case max_entry es of
        None \<Rightarrow> Some e
      | Some m \<Rightarrow> if precedence_le e m then Some m else Some e)"

definition resolve_access :: "fs_view \<Rightarrow> fs_policy \<Rightarrow> ustring \<Rightarrow> ustring \<Rightarrow> access_mode" where
  "resolve_access v pol p cwd =
     (if policy_kind pol \<noteq> Restricted then WriteAccess
      else (case resolve_candidate_path v p cwd of
              None \<Rightarrow> NoAccess
            | Some path \<Rightarrow>
                (case max_entry (filter (\<lambda>e. path_starts_with path (resolved_path e))
                                   (resolved_entries v pol cwd)) of
                   Some e \<Rightarrow> resolved_access e
                 | None \<Rightarrow> NoAccess)))"

definition can_read_path :: "fs_view \<Rightarrow> fs_policy \<Rightarrow> ustring \<Rightarrow> ustring \<Rightarrow> bool" where
  "can_read_path v pol p cwd = can_read (resolve_access v pol p cwd)"

definition can_write_path :: "fs_view \<Rightarrow> fs_policy \<Rightarrow> ustring \<Rightarrow> ustring \<Rightarrow> bool" where
  "can_write_path v pol p cwd = can_write (resolve_access v pol p cwd)"

section \<open>Whole-disk answers\<close>

definition has_root_access :: "fs_policy \<Rightarrow> (access_mode \<Rightarrow> bool) \<Rightarrow> bool" where
  "has_root_access pol predicate =
     (policy_kind pol = Restricted \<and>
      list_ex (\<lambda>e. entry_path e = Special RootPath \<and> predicate (entry_access e)) (policy_entries pol))"

definition has_denied_read_restrictions :: "fs_policy \<Rightarrow> bool" where
  "has_denied_read_restrictions pol =
     (policy_kind pol = Restricted \<and> list_ex (\<lambda>e. entry_access e = NoAccess) (policy_entries pol))"

fun special_paths_share_target :: "special_path \<Rightarrow> special_path \<Rightarrow> bool" where
  "special_paths_share_target RootPath RootPath = True"
| "special_paths_share_target Minimal Minimal = True"
| "special_paths_share_target CurrentWorkingDirectory CurrentWorkingDirectory = True"
| "special_paths_share_target Tmpdir Tmpdir = True"
| "special_paths_share_target SlashTmp SlashTmp = True"
| "special_paths_share_target CurrentWorkingDirectory (ProjectRoots None) = True"
| "special_paths_share_target (ProjectRoots None) CurrentWorkingDirectory = True"
| "special_paths_share_target (ProjectRoots left) (ProjectRoots right) = (left = right)"
| "special_paths_share_target (UnknownSpecial left left_subpath) (UnknownSpecial right right_subpath) =
     (left = right \<and> left_subpath = right_subpath)"
| "special_paths_share_target _ _ = False"

fun special_path_matches_absolute_path :: "special_path \<Rightarrow> ustring \<Rightarrow> bool" where
  "special_path_matches_absolute_path RootPath p = (abs_parent p = None)"
| "special_path_matches_absolute_path SlashTmp p = (path_components p = path_components (lit ''/tmp''))"
| "special_path_matches_absolute_path _ p = False"

fun paths_share_target :: "fs_path \<Rightarrow> fs_path \<Rightarrow> bool" where
  "paths_share_target (ExactPath left) (ExactPath right) = (left = right)"
| "paths_share_target (Special left) (Special right) = special_paths_share_target left right"
| "paths_share_target (ExactPath p) (Special value) = special_path_matches_absolute_path value p"
| "paths_share_target (Special value) (ExactPath p) = special_path_matches_absolute_path value p"
| "paths_share_target (GlobPattern left) (GlobPattern right) = (left = right)"
| "paths_share_target _ _ = False"

definition has_same_target_write_override :: "fs_policy \<Rightarrow> fs_entry \<Rightarrow> bool" where
  "has_same_target_write_override pol e =
     list_ex (\<lambda>candidate. can_write (entry_access candidate) \<and> entry_access candidate > entry_access e
                \<and> paths_share_target (entry_path candidate) (entry_path e)) (policy_entries pol)"

definition entry_narrows_writes :: "fs_policy \<Rightarrow> fs_entry \<Rightarrow> bool" where
  "entry_narrows_writes pol e =
     (if can_write (entry_access e) then False
      else (case entry_path e of
              ExactPath _ \<Rightarrow> \<not> has_same_target_write_override pol e
            | GlobPattern _ \<Rightarrow> True
            | Special value \<Rightarrow>
                (case value of
                   RootPath \<Rightarrow> entry_access e = NoAccess
                 | Minimal \<Rightarrow> False
                 | UnknownSpecial _ _ \<Rightarrow> False
                 | _ \<Rightarrow> \<not> has_same_target_write_override pol e)))"

definition has_write_narrowing_entries :: "fs_policy \<Rightarrow> bool" where
  "has_write_narrowing_entries pol =
     (policy_kind pol = Restricted \<and> list_ex (entry_narrows_writes pol) (policy_entries pol))"

definition has_full_disk_read_access :: "fs_policy \<Rightarrow> bool" where
  "has_full_disk_read_access pol =
     (policy_kind pol \<noteq> Restricted \<or>
      has_root_access pol can_read \<and> \<not> has_denied_read_restrictions pol)"

definition has_full_disk_write_access :: "fs_policy \<Rightarrow> bool" where
  "has_full_disk_write_access pol =
     (policy_kind pol \<noteq> Restricted \<or>
      has_root_access pol can_write \<and> \<not> has_write_narrowing_entries pol)"

definition include_platform_defaults :: "fs_policy \<Rightarrow> bool" where
  "include_platform_defaults pol =
     (\<not> has_full_disk_read_access pol \<and> policy_kind pol = Restricted \<and>
      list_ex (\<lambda>e. entry_path e = Special Minimal \<and> can_read (entry_access e)) (policy_entries pol))"

section \<open>Changing a policy\<close>

definition append_missing_entries :: "fs_entry list \<Rightarrow> fs_entry list \<Rightarrow> fs_entry list" where
  "append_missing_entries entries extra =
     foldl (\<lambda>es e. if e \<in> set es then es else es @ [e]) entries extra"

definition deny_entries :: "fs_policy \<Rightarrow> fs_entry list" where
  "deny_entries pol = filter (\<lambda>e. entry_access e = NoAccess) (policy_entries pol)"

definition preserve_deny_read_restrictions_from :: "fs_policy \<Rightarrow> fs_policy \<Rightarrow> fs_policy" where
  "preserve_deny_read_restrictions_from pol existing =
     (let pol1 = (if policy_kind pol = Unrestricted \<and> deny_entries existing \<noteq> []
                  then restricted_policy [\<lparr>entry_path = Special RootPath, entry_access = WriteAccess\<rparr>]
                  else pol)
      in if policy_kind pol1 \<noteq> Restricted then pol1
         else pol1\<lparr>glob_scan_max_depth := (case glob_scan_max_depth pol1 of
                                              None \<Rightarrow> glob_scan_max_depth existing | d \<Rightarrow> d),
                   policy_entries := append_missing_entries (policy_entries pol1) (deny_entries existing)\<rparr>)"

definition with_additional_readable_roots :: "fs_view \<Rightarrow> fs_policy \<Rightarrow> ustring \<Rightarrow> ustring list \<Rightarrow> fs_policy" where
  "with_additional_readable_roots v pol cwd roots =
     (if has_full_disk_read_access pol then pol
      else foldl (\<lambda>pol p. if can_read_path v pol p cwd then pol
                     else pol\<lparr>policy_entries := policy_entries pol
                                @ [\<lparr>entry_path = ExactPath p, entry_access = ReadAccess\<rparr>]\<rparr>) pol roots)"

definition with_additional_writable_roots :: "fs_view \<Rightarrow> fs_policy \<Rightarrow> ustring \<Rightarrow> ustring list \<Rightarrow> fs_policy" where
  "with_additional_writable_roots v pol cwd roots =
     foldl (\<lambda>pol p. if can_write_path v pol p cwd then pol
              else pol\<lparr>policy_entries := policy_entries pol
                         @ [\<lparr>entry_path = ExactPath p, entry_access = WriteAccess\<rparr>]\<rparr>) pol roots"

section \<open>From the legacy policies\<close>

definition read_entries :: "read_only_access \<Rightarrow> fs_entry list \<Rightarrow> fs_entry list" where
  "read_entries access before =
     (case access of
        FullAccess \<Rightarrow> [\<lparr>entry_path = Special RootPath, entry_access = ReadAccess\<rparr>]
      | RestrictedReads platform_defaults readable_roots \<Rightarrow>
          before
          @ (if platform_defaults then [\<lparr>entry_path = Special Minimal, entry_access = ReadAccess\<rparr>] else [])
          @ map (\<lambda>p. \<lparr>entry_path = ExactPath p, entry_access = ReadAccess\<rparr>) readable_roots)"

fun of_sandbox_policy :: "sandbox_policy \<Rightarrow> fs_policy" where
  "of_sandbox_policy DangerFullAccess = unrestricted_policy"
| "of_sandbox_policy (ExternalSandboxPolicy _) = external_sandbox_policy"
| "of_sandbox_policy (ReadOnly access _) =
     restricted_policy (read_entries access
       [\<lparr>entry_path = Special CurrentWorkingDirectory, entry_access = ReadAccess\<rparr>])"
| "of_sandbox_policy (WorkspaceWrite writable_roots read_only_access _ exclude_tmpdir_env_var exclude_slash_tmp) =
     restricted_policy
       (read_entries read_only_access []
        @ [\<lparr>entry_path = Special CurrentWorkingDirectory, entry_access = WriteAccess\<rparr>]
        @ (if exclude_slash_tmp then [] else [\<lparr>entry_path = Special SlashTmp, entry_access = WriteAccess\<rparr>])
        @ (if exclude_tmpdir_env_var then [] else [\<lparr>entry_path = Special Tmpdir, entry_access = WriteAccess\<rparr>])
        @ map (\<lambda>p. \<lparr>entry_path = ExactPath p, entry_access = WriteAccess\<rparr>) writable_roots)"

definition append_path_entry_if_missing :: "fs_entry list \<Rightarrow> ustring \<Rightarrow> access_mode \<Rightarrow> fs_entry list" where
  "append_path_entry_if_missing entries p access =
     (if list_ex (\<lambda>e. entry_access e = access \<and> entry_path e = ExactPath p) entries then entries
      else entries @ [\<lparr>entry_path = ExactPath p, entry_access = access\<rparr>])"

definition append_default_read_only_path_if_no_explicit_rule :: "fs_entry list \<Rightarrow> ustring \<Rightarrow> fs_entry list" where
  "append_default_read_only_path_if_no_explicit_rule entries p =
     (if list_ex (\<lambda>e. entry_path e = ExactPath p) entries then entries
      else append_path_entry_if_missing entries p ReadAccess)"

fun from_legacy_sandbox_policy :: "fs_view \<Rightarrow> sandbox_policy \<Rightarrow> ustring \<Rightarrow> fs_policy" where
  "from_legacy_sandbox_policy v (WorkspaceWrite writable_roots reads net no_tmpdir no_tmp) cwd =
     (let sandbox = WorkspaceWrite writable_roots reads net no_tmpdir no_tmp;
          pol = of_sandbox_policy sandbox;
          legacy_writable_roots = policy_writable_roots v cwd sandbox;
          kept = filter (\<lambda>e. entry_access e \<noteq> ReadAccess \<or>
                   (case entry_path e of
                      ExactPath p \<Rightarrow> \<not> list_ex (\<lambda>r. is_path_writable r p) legacy_writable_roots
                    | _ \<Rightarrow> True)) (policy_entries pol);
          with_cwd =
            (case from_absolute_path (view_paths v) cwd of
               Some cwd_root \<Rightarrow>
                 foldl append_default_read_only_path_if_no_explicit_rule kept
                   (default_read_only_subpaths_for_writable_root v cwd_root True)
             | None \<Rightarrow> kept)
      in pol\<lparr>policy_entries :=
           foldl (\<lambda>entries r. foldl append_default_read_only_path_if_no_explicit_rule entries
                    (default_read_only_subpaths_for_writable_root v r False))
             with_cwd writable_roots\<rparr>)"
| "from_legacy_sandbox_policy v sandbox cwd = of_sandbox_policy sandbox"

definition from_legacy_preserving_deny_entries :: "fs_view \<Rightarrow> sandbox_policy \<Rightarrow> ustring \<Rightarrow> fs_policy \<Rightarrow> fs_policy" where
  "from_legacy_preserving_deny_entries v sandbox cwd existing =
     (let rebuilt = from_legacy_sandbox_policy v sandbox cwd
      in if policy_kind rebuilt \<noteq> Restricted then rebuilt
         else rebuilt\<lparr>glob_scan_max_depth := glob_scan_max_depth existing,
                      policy_entries := append_missing_entries (policy_entries rebuilt) (deny_entries existing)\<rparr>)"

section \<open>Roots for the sandboxes\<close>

definition normalize_effective_absolute_path :: "fs_view \<Rightarrow> ustring \<Rightarrow> ustring" where
  "normalize_effective_absolute_path v p =
     (case find_map (\<lambda>ancestor.
        if is_symlink v ancestor = None then None
        else Option.bind (canonicalize_preserving_symlinks v ancestor) (\<lambda>normalized_ancestor.
               Option.bind (path_strip_prefix p ancestor) (\<lambda>sfx.
                 from_absolute_path (view_paths v) (path_join normalized_ancestor sfx))))
        (path_ancestors p) of
        Some normalized_path \<Rightarrow> normalized_path
      | None \<Rightarrow> p)"

definition dedup_absolute_paths :: "fs_view \<Rightarrow> ustring list \<Rightarrow> bool \<Rightarrow> ustring list" where
  "dedup_absolute_paths v paths normalize_effective_paths =
     dedup_paths (if normalize_effective_paths then map (normalize_effective_absolute_path v) paths else paths)"

definition get_readable_roots :: "fs_view \<Rightarrow> fs_policy \<Rightarrow> ustring \<Rightarrow> ustring list" where
  "get_readable_roots v pol cwd =
     (if has_full_disk_read_access pol then []
      else dedup_absolute_paths v
             (map resolved_path
               (filter (\<lambda>e. can_read (resolved_access e) \<and> can_read_path v pol (resolved_path e) cwd)
                 (resolved_entries v pol cwd))) True)"

text \<open>The carveout an entry makes under a writable root, if any.\<close>

definition carveout :: "fs_view \<Rightarrow> ustring list \<Rightarrow> ustring \<Rightarrow> resolved_entry \<Rightarrow> ustring option" where
  "carveout v raw_writable_roots r e =
     (let effective_path = normalize_effective_absolute_path v (resolved_path e);
          raw_carveout_path =
            (if abs_parent r = None then None
             else if resolved_path e = r then None
             else if path_starts_with (resolved_path e) r then Some (resolved_path e)
             else find_map (\<lambda>raw_root.
                    case path_strip_prefix (resolved_path e) raw_root of
                      None \<Rightarrow> None
                    | Some sfx \<Rightarrow> if sfx = [] then None else Some (abs_join v r sfx)) raw_writable_roots)
      in case raw_carveout_path of
           Some raw \<Rightarrow> Some raw
         | None \<Rightarrow>
             if effective_path = r \<or> \<not> path_starts_with effective_path r then None
             else Some effective_path)"

definition get_writable_roots :: "fs_view \<Rightarrow> fs_policy \<Rightarrow> ustring \<Rightarrow> writable_root list" where
  "get_writable_roots v pol cwd =
     (if has_full_disk_write_access pol then []
      else
        (let entries = resolved_entries v pol cwd;
             writable_entries = map resolved_path
               (filter (\<lambda>e. can_write (resolved_access e) \<and> can_write_path v pol (resolved_path e) cwd) entries)
         in map (\<lambda>r.
              let raw_writable_roots =
                    filter (\<lambda>p. normalize_effective_absolute_path v p = r) writable_entries;
                  protect_missing_dot_codex =
                    (case from_absolute_path (view_paths v) cwd of
                       None \<Rightarrow> False | Some c \<Rightarrow> normalize_effective_absolute_path v c = r);
                  defaults = filter (\<lambda>p. \<not> list_ex (\<lambda>e. resolved_path e = p) entries)
                    (default_read_only_subpaths_for_writable_root v r protect_missing_dot_codex);
                  carveouts = List.map_filter (carveout v raw_writable_roots r)
                    (filter (\<lambda>e. \<not> can_write (resolved_access e)
                               \<and> \<not> can_write_path v pol (resolved_path e) cwd) entries)
              in \<lparr>root_path = r, read_only_subpaths = dedup_absolute_paths v (defaults @ carveouts) False\<rparr>)
              (dedup_absolute_paths v writable_entries True)))"

definition get_unreadable_roots :: "fs_view \<Rightarrow> fs_policy \<Rightarrow> ustring \<Rightarrow> ustring list" where
  "get_unreadable_roots v pol cwd =
     (if policy_kind pol \<noteq> Restricted then []
      else
        (let r = map_option absolute_root_path_for_cwd (from_absolute_path (view_paths v) cwd)
         in dedup_absolute_paths v
              (map resolved_path
                (filter (\<lambda>e. resolved_access e = NoAccess \<and> \<not> can_read_path v pol (resolved_path e) cwd
                           \<and> r \<noteq> Some (resolved_path e))
                  (resolved_entries v pol cwd))) True))"

fun glob_of :: "fs_view \<Rightarrow> ustring \<Rightarrow> fs_path \<Rightarrow> ustring option" where
  "glob_of v cwd (GlobPattern pattern) = Some (resolve_path_against_base (view_paths v) pattern cwd)"
| "glob_of v cwd _ = None"

definition get_unreadable_globs :: "fs_view \<Rightarrow> fs_policy \<Rightarrow> ustring \<Rightarrow> ustring list" where
  "get_unreadable_globs v pol cwd =
     (if policy_kind pol \<noteq> Restricted then []
      else remdups_adj (sort (List.map_filter (\<lambda>e. glob_of v cwd (entry_path e)) (deny_entries pol))))"

section \<open>Back to a legacy policy\<close>

record legacy_scan =
  scan_platform_defaults :: bool
  scan_workspace_writable :: bool
  scan_writable_roots :: "ustring list"
  scan_readable_roots :: "ustring list"
  scan_tmpdir_writable :: bool
  scan_slash_tmp_writable :: bool
  scan_root_write :: bool

definition scan_readable :: "ustring option \<Rightarrow> legacy_scan \<Rightarrow> legacy_scan" where
  "scan_readable p s =
     (case p of None \<Rightarrow> s | Some p \<Rightarrow> s\<lparr>scan_readable_roots := scan_readable_roots s @ [p]\<rparr>)"

definition scan_entry :: "fs_view \<Rightarrow> fs_policy \<Rightarrow> ustring option \<Rightarrow> legacy_scan \<Rightarrow> fs_entry \<Rightarrow> legacy_scan" where
  "scan_entry v pol cwd s e =
     (let writes = can_write (entry_access e);
          reads = can_read (entry_access e)
      in case entry_path e of
           GlobPattern _ \<Rightarrow> s
         | ExactPath p \<Rightarrow>
             if writes then
               (if cwd = Some p then s\<lparr>scan_workspace_writable := True\<rparr>
                else s\<lparr>scan_writable_roots := scan_writable_roots s @ [p]\<rparr>)
             else if reads then scan_readable (Some p) s
             else s
         | Special value \<Rightarrow>
             (let here = resolve_special_path v value cwd in
              case value of
                RootPath \<Rightarrow>
                  (case entry_access e of
                     NoAccess \<Rightarrow> s
                   | ReadAccess \<Rightarrow>
                       if \<not> has_full_disk_read_access pol
                       then scan_readable (map_option absolute_root_path_for_cwd cwd) s else s
                   | WriteAccess \<Rightarrow> s\<lparr>scan_root_write := True\<rparr>)
              | Minimal \<Rightarrow> if reads then s\<lparr>scan_platform_defaults := True\<rparr> else s
              | CurrentWorkingDirectory \<Rightarrow>
                  if writes then s\<lparr>scan_workspace_writable := True\<rparr>
                  else if reads then scan_readable here s else s
              | ProjectRoots subpath \<Rightarrow>
                  if subpath = None \<and> writes then s\<lparr>scan_workspace_writable := True\<rparr>
                  else (case here of
                          None \<Rightarrow> s
                        | Some p \<Rightarrow>
                            if writes then s\<lparr>scan_writable_roots := scan_writable_roots s @ [p]\<rparr>
                            else if reads then scan_readable (Some p) s else s)
              | Tmpdir \<Rightarrow>
                  if writes then s\<lparr>scan_tmpdir_writable := True\<rparr>
                  else if reads then scan_readable here s else s
              | SlashTmp \<Rightarrow>
                  if writes then s\<lparr>scan_slash_tmp_writable := True\<rparr>
                  else if reads then scan_readable here s else s
              | UnknownSpecial _ _ \<Rightarrow> s))"

definition to_legacy_sandbox_policy :: "fs_view \<Rightarrow> fs_policy \<Rightarrow> bool \<Rightarrow> ustring \<Rightarrow> io_error + sandbox_policy" where
  "to_legacy_sandbox_policy v pol network_enabled cwd =
     (case policy_kind pol of
        ExternalSandbox \<Rightarrow>
          Inr (ExternalSandboxPolicy (if network_enabled then NetworkEnabled else NetworkRestricted))
      | Unrestricted \<Rightarrow>
          Inr (if network_enabled then DangerFullAccess else ExternalSandboxPolicy NetworkRestricted)
      | Restricted \<Rightarrow>
          (let cwd_absolute = from_absolute_path (view_paths v) cwd;
               s = foldl (scan_entry v pol cwd_absolute)
                     \<lparr>scan_platform_defaults = False, scan_workspace_writable = False,
                      scan_writable_roots = [], scan_readable_roots = [], scan_tmpdir_writable = False,
                      scan_slash_tmp_writable = False, scan_root_write = False\<rparr> (policy_entries pol);
               read_only_access =
                 (if has_full_disk_read_access pol then FullAccess
                  else RestrictedReads (scan_platform_defaults s)
                         (dedup_absolute_paths v (scan_readable_roots s) False))
           in if has_full_disk_write_access pol then
                Inr (if network_enabled then DangerFullAccess else ExternalSandboxPolicy NetworkRestricted)
              else if scan_workspace_writable s then
                Inr (WorkspaceWrite (dedup_absolute_paths v (scan_writable_roots s) False)
                       read_only_access network_enabled
                       (\<not> scan_tmpdir_writable s) (\<not> scan_slash_tmp_writable s))
              else if scan_root_write s \<or> scan_writable_roots s \<noteq> [] \<or> scan_tmpdir_writable s
                      \<or> scan_slash_tmp_writable s then
                Inl (IoFailure InvalidInput (lit ''permissions profile requests filesystem writes outside the workspace root, which is not supported until the runtime enforces FileSystemSandboxPolicy directly''))
              else Inr (ReadOnly read_only_access network_enabled)))"

record semantic_signature =
  sig_full_read :: bool
  sig_full_write :: bool
  sig_platform_defaults :: bool
  sig_readable_roots :: "ustring list"
  sig_writable_roots :: "writable_root list"
  sig_unreadable_roots :: "ustring list"
  sig_unreadable_globs :: "ustring list"

definition policy_signature :: "fs_view \<Rightarrow> fs_policy \<Rightarrow> ustring \<Rightarrow> semantic_signature" where
  "policy_signature v pol cwd =
     \<lparr>sig_full_read = has_full_disk_read_access pol, sig_full_write = has_full_disk_write_access pol,
      sig_platform_defaults = include_platform_defaults pol,
      sig_readable_roots = get_readable_roots v pol cwd,
      sig_writable_roots = get_writable_roots v pol cwd,
      sig_unreadable_roots = get_unreadable_roots v pol cwd,
      sig_unreadable_globs = get_unreadable_globs v pol cwd\<rparr>"

definition needs_direct_runtime_enforcement :: "fs_view \<Rightarrow> fs_policy \<Rightarrow> bool \<Rightarrow> ustring \<Rightarrow> bool" where
  "needs_direct_runtime_enforcement v pol network_enabled cwd =
     (policy_kind pol = Restricted \<and>
      (case to_legacy_sandbox_policy v pol network_enabled cwd of
         Inl _ \<Rightarrow> True
       | Inr legacy_policy \<Rightarrow>
           policy_signature v pol cwd
             \<noteq> policy_signature v (from_legacy_sandbox_policy v legacy_policy cwd) cwd))"

section \<open>Denied reads\<close>

text \<open>
  The matcher of direct reads. Compiling a glob pattern is the package \<open>globset\<close>: \<open>None\<close> is
  a pattern it refuses.
\<close>

record read_deny_matcher =
  denied_candidates :: "ustring list list"
  deny_read_matchers :: "(ustring \<Rightarrow> bool) list"
  invalid_pattern :: bool

definition path_candidates :: "fs_view \<Rightarrow> ustring \<Rightarrow> ustring list" where
  "path_candidates v p =
     dedup_paths
       ((case from_absolute_path (view_paths v) p of Some normalized \<Rightarrow> [normalized] | None \<Rightarrow> [p])
        @ (case Option.bind (canonical_path v p) (from_absolute_path (view_paths v)) of
             Some canonical \<Rightarrow> [canonical] | None \<Rightarrow> []))"

definition new_read_deny_matcher ::
  "fs_view \<Rightarrow> (ustring \<Rightarrow> (ustring \<Rightarrow> bool) option) \<Rightarrow> fs_policy \<Rightarrow> ustring \<Rightarrow> read_deny_matcher option" where
  "new_read_deny_matcher v build_glob_matcher pol cwd =
     (if \<not> has_denied_read_restrictions pol then None
      else
        (let built = map build_glob_matcher (get_unreadable_globs v pol cwd)
         in Some \<lparr>denied_candidates = map (path_candidates v) (get_unreadable_roots v pol cwd),
                  deny_read_matchers = List.map_filter (\<lambda>m. m) built,
                  invalid_pattern = list_ex (\<lambda>m. m = None) built\<rparr>))"

definition is_read_denied :: "fs_view \<Rightarrow> read_deny_matcher \<Rightarrow> ustring \<Rightarrow> bool" where
  "is_read_denied v m p =
     (if invalid_pattern m then True
      else
        (let candidates = path_candidates v p
         in list_ex (\<lambda>denied. list_ex (\<lambda>candidate. list_ex (\<lambda>d. candidate = d \<or> path_starts_with candidate d) denied)
                      candidates) (denied_candidates m)
            \<or> list_ex (\<lambda>glob. list_ex glob candidates) (deny_read_matchers m)))"

section \<open>The entry that decides\<close>

abbreviation depth :: "resolved_entry \<Rightarrow> nat" where
  "depth e \<equiv> length (path_components (resolved_path e))"

lemma max_entry_None [simp]: "max_entry es = None \<longleftrightarrow> es = []"
  by (cases es) (auto split: option.splits)

lemma max_entry_in: "max_entry es = Some m \<Longrightarrow> m \<in> set es"
  by (induction es arbitrary: m) (auto split: option.splits if_splits)

lemma max_entry_ge: "max_entry es = Some m \<Longrightarrow> e \<in> set es \<Longrightarrow> precedence_le e m"
proof (induction es arbitrary: m)
  case (Cons a es)
  show ?case
  proof (cases "max_entry es")
    case None
    with Cons.prems show ?thesis by (auto simp: precedence_le_def)
  next
    case (Some n)
    have "precedence_le e n" if "e \<in> set es" using Cons.IH [OF Some that] .
    with Cons.prems Some show ?thesis
      by (auto simp: precedence_le_def Let_def split: if_splits)
  qed
qed simp

text \<open>The access of a path, by the entries that reach it.\<close>

definition reaching :: "fs_view \<Rightarrow> fs_policy \<Rightarrow> ustring \<Rightarrow> ustring \<Rightarrow> resolved_entry list" where
  "reaching v pol path cwd =
     filter (\<lambda>e. path_starts_with path (resolved_path e)) (resolved_entries v pol cwd)"

lemma resolve_access_cases:
  assumes "policy_kind pol = Restricted" and "resolve_candidate_path v p cwd = Some path"
  shows "(\<exists>m \<in> set (reaching v pol path cwd).
            resolve_access v pol p cwd = resolved_access m \<and>
            (\<forall>e \<in> set (reaching v pol path cwd). precedence_le e m)) \<or>
         reaching v pol path cwd = [] \<and> resolve_access v pol p cwd = NoAccess"
proof (cases "max_entry (reaching v pol path cwd)")
  case None
  with assms show ?thesis by (simp add: resolve_access_def reaching_def)
next
  case (Some m)
  with assms have "resolve_access v pol p cwd = resolved_access m"
    by (simp add: resolve_access_def reaching_def)
  with max_entry_in [OF Some] max_entry_ge [OF Some] show ?thesis by blast
qed

text \<open>Paths as the policies hold them: absolute and normalised.\<close>

definition abs_path :: "ustring \<Rightarrow> bool" where
  "abs_path p = (is_absolute p \<and> normalize_path p = p)"

lemma abs_path_components:
  "abs_path p \<Longrightarrow> normal_absolute (path_components p) \<and> p = render_components (path_components p)"
  unfolding abs_path_def by (metis normalize_absolute_components path_components_render(1))

lemma abs_path_normalize [simp]: "is_absolute p \<Longrightarrow> abs_path (normalize_path p)"
  unfolding abs_path_def by (metis normalize_absolute_components normalize_render path_components_render(2))

lemma no_home_in_absolute: "is_absolute p \<Longrightarrow> maybe_expand_home_directory env p = p"
  by (cases p) (auto simp: maybe_expand_home_directory_def is_absolute_def strip_prefix_def slash_def
      lit_def uc_def split: option.splits)

lemma from_absolute_path_absolute [simp]:
  "is_absolute p \<Longrightarrow> from_absolute_path env p = Some (normalize_path p)"
  by (simp add: from_absolute_path_def absolutize_def no_home_in_absolute)

lemma resolve_candidate_absolute [simp]:
  "is_absolute p \<Longrightarrow> resolve_candidate_path v p cwd = Some (normalize_path p)"
  by (simp add: resolve_candidate_path_def)

lemma starts_with_refl [simp]: "path_starts_with p p"
  by (simp add: path_starts_with_def)

lemma starts_with_trans: "path_starts_with p q \<Longrightarrow> path_starts_with q r \<Longrightarrow> path_starts_with p r"
  by (auto simp: path_starts_with_def intro: prefix_order.trans)

text \<open>Two paths that reach the same path: the longer one is under the shorter.\<close>

lemma starts_with_comparable:
  "path_starts_with p a \<Longrightarrow> path_starts_with p b \<Longrightarrow>
   length (path_components b) \<le> length (path_components a) \<Longrightarrow> path_starts_with a b"
  by (auto simp: path_starts_with_def intro: prefix_length_prefix)

lemma abs_path_eq: "abs_path p \<Longrightarrow> abs_path q \<Longrightarrow> path_components p = path_components q \<Longrightarrow> p = q"
  by (metis abs_path_components)

lemma root_of_absolute:
  assumes "abs_path c"
  shows "absolute_root_path_for_cwd c = [slash]" and "path_components [slash] = [RootDir]"
proof -
  from abs_path_components [OF assms] obtain names where "path_components c = RootDir # map NormalComp names"
    by (auto simp: normal_absolute_def)
  then show "absolute_root_path_for_cwd c = [slash]"
    by (cases "map NormalComp names" rule: rev_cases)
      (simp_all add: absolute_root_path_for_cwd_def path_ancestors_def render_components_def last_map
        last_rev hd_map)
  have "normal_absolute [RootDir]" by (simp add: normal_absolute_def)
  from path_components_render(1) [OF this] show "path_components [slash] = [RootDir]"
    by (simp add: render_components_def)
qed

lemma under_root:
  assumes "abs_path p" shows "path_starts_with p [slash]"
  using abs_path_components [OF assms] root_of_absolute(2) [OF assms]
  by (auto simp: path_starts_with_def normal_absolute_def)

lemma in_resolved_entries:
  "r \<in> set (resolved_entries v pol cwd) \<longleftrightarrow>
   (\<exists>e \<in> set (policy_entries pol).
      resolve_entry_path v (entry_path e) (from_absolute_path (view_paths v) cwd) = Some (resolved_path r) \<and>
      resolved_access r = entry_access e)"
  by (cases r) (auto simp: resolved_entries_def Let_def map_filter_def image_iff split: option.splits)

section \<open>What the operations on policies keep\<close>

definition exact_paths_ok :: "fs_policy \<Rightarrow> bool" where
  "exact_paths_ok pol = (\<forall>e \<in> set (policy_entries pol). \<forall>p. entry_path e = ExactPath p \<longrightarrow> abs_path p)"

text \<open>Paths that share a target are resolved to the same place, when \<open>/tmp\<close> is a directory.\<close>

lemma special_share_resolves:
  "special_paths_share_target a b \<Longrightarrow> resolve_special_path v a cwd = resolve_special_path v b cwd"
  by (induction a b rule: special_paths_share_target.induct) (simp_all split: option.splits)

lemma slash_tmp_resolves:
  "path_is_dir v (lit ''/tmp'') \<Longrightarrow> resolve_special_path v SlashTmp cwd = Some (lit ''/tmp'')"
proof -
  have "is_absolute (lit ''/tmp'')" by (simp add: is_absolute_def slash_def lit_def uc_def)
  moreover have "normalize_path (lit ''/tmp'') = lit ''/tmp''" by code_simp
  ultimately show "path_is_dir v (lit ''/tmp'') \<Longrightarrow> ?thesis" by simp
qed

lemma root_components:
  assumes "abs_path p" and "abs_parent p = None" shows "path_components p = [RootDir]"
proof -
  from abs_path_components [OF assms(1)] obtain names where n: "path_components p = RootDir # map NormalComp names"
    by (auto simp: normal_absolute_def)
  with assms(2) show ?thesis
    by (cases names rule: rev_cases) (auto simp: abs_parent_def)
qed

lemma share_target_resolves:
  assumes "paths_share_target a b" and "resolve_entry_path v b (Some c) = Some q"
    and "abs_path c" and "path_is_dir v (lit ''/tmp'')" and "b \<noteq> Special RootPath"
    and "\<And>p. a = ExactPath p \<or> b = ExactPath p \<Longrightarrow> abs_path p"
  shows "\<exists>q'. resolve_entry_path v a (Some c) = Some q' \<and> path_components q' = path_components q"
proof (cases a)
  case (ExactPath pa)
  show ?thesis
  proof (cases b)
    case (Special sb)
    with ExactPath assms(1,2,4,5) show ?thesis
      by (cases sb) (simp_all add: resolve_entry_path_def slash_tmp_resolves del: resolve_special_path.simps)
  qed (use ExactPath assms(1,2) in \<open>simp_all add: resolve_entry_path_def\<close>)
next
  case (GlobPattern g)
  with assms(1,2) show ?thesis by (cases b) (simp_all add: resolve_entry_path_def)
next
  case (Special sa)
  show ?thesis
  proof (cases b)
    case (ExactPath pb)
    then have "abs_path pb" using assms(6) by blast
    with Special ExactPath assms show ?thesis
      by (cases sa) (auto simp: resolve_entry_path_def slash_tmp_resolves root_components
          root_of_absolute [OF assms(3)] simp del: resolve_special_path.simps)
  next
    case inner: (Special sb)
    with Special assms(1,5) have share: "special_paths_share_target sa sb" "sb \<noteq> RootPath" by simp_all
    then have "sa \<noteq> RootPath" by (cases sb) auto
    with share special_share_resolves [OF share(1), of v "Some c"] Special inner assms(2)
    show ?thesis by (simp add: resolve_entry_path_def del: resolve_special_path.simps)
  qed (use Special assms(1) in simp)
qed

text \<open>
  The whole-disk answer is right for every path: when a policy claims full write access
  to the disk, each absolute path is writable under it, whatever entries it holds.
\<close>

theorem full_disk_write_covers_every_path:
  assumes "has_full_disk_write_access pol" and "exact_paths_ok pol"
    and "is_absolute cwd" and "path_is_dir v (lit ''/tmp'')" and "is_absolute p"
  shows "can_write_path v pol p cwd"
proof (cases "policy_kind pol = Restricted")
  case False
  then show ?thesis by (simp add: can_write_path_def can_write_def resolve_access_def)
next
  case True
  let ?c = "normalize_path cwd" and ?p = "normalize_path p"
  have c: "abs_path ?c" "abs_path ?p" using assms(3,5) by simp_all
  from assms(1) True have root: "has_root_access pol can_write" and narrow: "\<not> has_write_narrowing_entries pol"
    by (simp_all add: has_full_disk_write_access_def)
  from root obtain e0 where e0: "e0 \<in> set (policy_entries pol)" "entry_path e0 = Special RootPath"
    "entry_access e0 = WriteAccess" by (auto simp: has_root_access_def list_ex_iff can_write_def)
  let ?r0 = "\<lparr>resolved_path = [slash], resolved_access = WriteAccess\<rparr>"
  have r0: "?r0 \<in> set (reaching v pol ?p cwd)"
    using e0 assms(3) under_root [OF c(2)]
    by (auto simp: reaching_def in_resolved_entries resolve_entry_path_def root_of_absolute [OF c(1)]
        intro!: bexI [of _ e0])
  then have "reaching v pol ?p cwd \<noteq> []" by auto
  with resolve_access_cases [OF True resolve_candidate_absolute [OF assms(5)], of v cwd] obtain m where
    m: "m \<in> set (reaching v pol ?p cwd)" "resolve_access v pol p cwd = resolved_access m"
      "\<And>e. e \<in> set (reaching v pol ?p cwd) \<Longrightarrow> precedence_le e m" by blast
  from m(1) assms(3) obtain e where e: "e \<in> set (policy_entries pol)"
    "resolve_entry_path v (entry_path e) (Some ?c) = Some (resolved_path m)"
    "resolved_access m = entry_access e" "path_starts_with ?p (resolved_path m)"
    by (auto simp: reaching_def in_resolved_entries)
  have "resolved_access m = WriteAccess"
  proof (rule ccontr)
    assume not_write: "resolved_access m \<noteq> WriteAccess"
    have kept: "\<not> entry_narrows_writes pol e"
      using narrow True e(1) by (auto simp: has_write_narrowing_entries_def list_ex_iff)
    show False
    proof (cases "entry_path e = Special RootPath")
      case True
      with kept not_write e(3) have "resolved_access m = ReadAccess"
        by (cases "entry_access e") (auto simp: entry_narrows_writes_def can_write_def)
      moreover have "path_components (resolved_path m) = [RootDir]"
        using True e(2) root_of_absolute [OF c(1)] by (auto simp: resolve_entry_path_def)
      ultimately show False using m(3) [OF r0] root_of_absolute(2) [OF c(1)]
        by (simp add: precedence_le_def less_eq_access_mode_def)
    next
      case False
      with kept not_write e(2,3) have "has_same_target_write_override pol e"
        by (auto simp: entry_narrows_writes_def can_write_def resolve_entry_path_def
            split: fs_path.splits special_path.splits)
      then obtain d where d: "d \<in> set (policy_entries pol)" "entry_access d = WriteAccess"
        "entry_access e < WriteAccess" "paths_share_target (entry_path d) (entry_path e)"
        by (auto simp: has_same_target_write_override_def list_ex_iff can_write_def)
      have "abs_path q" if "entry_path d = ExactPath q \<or> entry_path e = ExactPath q" for q
        using assms(2) d(1) e(1) that by (auto simp: exact_paths_ok_def)
      from share_target_resolves [OF d(4) e(2) c(1) assms(4) False this] obtain q where
        q: "resolve_entry_path v (entry_path d) (Some ?c) = Some q"
          "path_components q = path_components (resolved_path m)" by blast
      let ?d = "\<lparr>resolved_path = q, resolved_access = WriteAccess\<rparr>"
      have "?d \<in> set (reaching v pol ?p cwd)"
        using d(1,2) q e(4) assms(3)
        by (auto simp: reaching_def in_resolved_entries path_starts_with_def)
      from m(3) [OF this] q(2) d(3) e(3) show False by (simp add: precedence_le_def)
    qed
  qed
  with m(2) show ?thesis by (simp add: can_write_path_def can_write_def)
qed

text \<open>A file system without links, files or variables, for concrete instances.\<close>

definition plain_view :: fs_view where
  "plain_view =
   \<lparr>view_paths = \<lparr>home_dir = None, current_dir = None\<rparr>, tmpdir_var = None,
    path_is_file = (\<lambda>_. False), path_is_dir = (\<lambda>_. True), path_exists = (\<lambda>_. True),
    read_to_string = (\<lambda>_. None), is_symlink = (\<lambda>_. None), canonical_path = (\<lambda>_. None)\<rparr>"

lemma full_disk_write_covers_every_path_witness:
  "\<exists>pol. has_full_disk_write_access pol \<and> can_write_path plain_view pol (lit ''/etc'') (lit ''/w'')"
proof -
  let ?pol = "restricted_policy [\<lparr>entry_path = Special RootPath, entry_access = WriteAccess\<rparr>]"
  have "has_full_disk_write_access ?pol"
    by (simp add: has_full_disk_write_access_def has_root_access_def has_write_narrowing_entries_def
        entry_narrows_writes_def restricted_policy_def can_write_def)
  moreover have "exact_paths_ok ?pol" by (simp add: exact_paths_ok_def restricted_policy_def)
  moreover have "is_absolute (lit ''/w'')" "is_absolute (lit ''/etc'')"
    by (simp_all add: is_absolute_def slash_def lit_def uc_def)
  ultimately show ?thesis
    using full_disk_write_covers_every_path [of ?pol "lit ''/w''" plain_view "lit ''/etc''"]
    by (intro exI [of _ ?pol]) (simp add: plain_view_def)
qed

text \<open>Additions to the entries.\<close>

lemma append_missing_set [simp]: "set (append_missing_entries es extra) = set es \<union> set extra"
  by (induction extra arbitrary: es) (auto simp: append_missing_entries_def)

lemma reaching_entry:
  assumes "e \<in> set (policy_entries pol)"
    and "resolve_entry_path v (entry_path e) (from_absolute_path (view_paths v) cwd) = Some q"
    and "path_starts_with path q"
  shows "\<lparr>resolved_path = q, resolved_access = entry_access e\<rparr> \<in> set (reaching v pol path cwd)"
  using assms by (auto simp: reaching_def in_resolved_entries)

lemma precedence_depth: "precedence_le a b \<Longrightarrow> depth a \<le> depth b"
  by (auto simp: precedence_le_def Let_def)

lemma no_access_greatest: "a \<le> NoAccess" "NoAccess \<le> a \<Longrightarrow> a = NoAccess"
  by (cases a; simp add: less_eq_access_mode_def)+

text \<open>
  A path whose reads were denied stays denied when the allow side of the policy is
  replaced: under the rebuilt policy the path, and every path below it that no more specific
  entry reaches, has no access; replacing keeps every entry of a restricted policy.
\<close>

theorem preserved_denials_hold:
  assumes "\<lparr>entry_path = ExactPath q, entry_access = NoAccess\<rparr> \<in> set (policy_entries existing)"
    and "policy_kind pol \<noteq> ExternalSandbox" and "is_absolute p" and "path_starts_with (normalize_path p) q"
    and "new = preserve_deny_read_restrictions_from pol existing"
  shows "policy_kind new = Restricted \<and>
    (policy_kind pol = Restricted \<longrightarrow> set (policy_entries pol) \<subseteq> set (policy_entries new)) \<and>
    (resolve_access v new p cwd = NoAccess \<or>
     (\<exists>r \<in> set (reaching v new (normalize_path p) cwd).
        length (path_components q) < depth r \<and> path_starts_with (resolved_path r) q))"
proof -
  let ?deny = "\<lparr>entry_path = ExactPath q, entry_access = NoAccess\<rparr>"
  have deny: "?deny \<in> set (deny_entries existing)" using assms(1) by (simp add: deny_entries_def)
  then have ne: "deny_entries existing \<noteq> []" by auto
  have kind: "policy_kind new = Restricted" and keeps: "?deny \<in> set (policy_entries new)"
    and more: "policy_kind pol = Restricted \<Longrightarrow> set (policy_entries pol) \<subseteq> set (policy_entries new)"
    using assms(2) deny ne
    by (cases "policy_kind pol"; auto simp: assms(5) preserve_deny_read_restrictions_from_def Let_def
        restricted_policy_def)+
  have r: "\<lparr>resolved_path = q, resolved_access = NoAccess\<rparr> \<in> set (reaching v new (normalize_path p) cwd)"
    using reaching_entry [OF keeps, of v cwd q "normalize_path p"] assms(4)
    by (simp add: resolve_entry_path_def)
  then have "reaching v new (normalize_path p) cwd \<noteq> []" by auto
  with resolve_access_cases [OF kind resolve_candidate_absolute [OF assms(3)], of v cwd] obtain m where
    m: "m \<in> set (reaching v new (normalize_path p) cwd)" "resolve_access v new p cwd = resolved_access m"
      "\<And>e. e \<in> set (reaching v new (normalize_path p) cwd) \<Longrightarrow> precedence_le e m" by blast
  have "resolved_access m = NoAccess \<or> length (path_components q) < depth m"
    using m(3) [OF r] no_access_greatest(2) by (auto simp: precedence_le_def Let_def)
  moreover have "path_starts_with (resolved_path m) q"
    using m(1) assms(4) precedence_depth [OF m(3) [OF r]]
    by (auto simp: reaching_def intro: starts_with_comparable)
  ultimately show ?thesis using kind more m(1,2) by auto
qed

lemma preserved_denials_hold_witness:
  "resolve_access plain_view (preserve_deny_read_restrictions_from unrestricted_policy
      (restricted_policy [\<lparr>entry_path = ExactPath (lit ''/s''), entry_access = NoAccess\<rparr>])) (lit ''/s'') (lit ''/w'')
    = NoAccess"
proof -
  let ?ex = "restricted_policy [\<lparr>entry_path = ExactPath (lit ''/s''), entry_access = NoAccess\<rparr>]"
  let ?new = "preserve_deny_read_restrictions_from unrestricted_policy ?ex"
  have "is_absolute (lit ''/s'')" by (simp add: is_absolute_def slash_def lit_def uc_def)
  moreover have n: "normalize_path (lit ''/s'') = lit ''/s''" by code_simp
  ultimately have "resolve_access plain_view ?new (lit ''/s'') (lit ''/w'') = NoAccess \<or>
     (\<exists>r \<in> set (reaching plain_view ?new (lit ''/s'') (lit ''/w'')).
        length (path_components (lit ''/s'')) < depth r \<and> path_starts_with (resolved_path r) (lit ''/s''))"
    using preserved_denials_hold [of "lit ''/s''" ?ex unrestricted_policy "lit ''/s''" ?new plain_view "lit ''/w''"]
    by (simp add: restricted_policy_def unrestricted_policy_def)
  moreover have "depth r \<le> length (path_components (lit ''/s''))" if "r \<in> set (reaching plain_view ?new (lit ''/s'') (lit ''/w''))" for r
    using that by (auto simp: reaching_def path_starts_with_def dest: prefix_length_le)
  ultimately show ?thesis by fastforce
qed

text \<open>Adding one writable root.\<close>

definition add_writable_root :: "fs_view \<Rightarrow> ustring \<Rightarrow> fs_policy \<Rightarrow> ustring \<Rightarrow> fs_policy" where
  "add_writable_root v cwd pol r =
     (if can_write_path v pol r cwd then pol
      else pol\<lparr>policy_entries := policy_entries pol
                 @ [\<lparr>entry_path = ExactPath r, entry_access = WriteAccess\<rparr>]\<rparr>)"

lemma additional_writable_fold:
  "with_additional_writable_roots v pol cwd roots = foldl (add_writable_root v cwd) pol roots"
  by (simp add: with_additional_writable_roots_def add_writable_root_def [abs_def])

lemma resolved_entries_add:
  "resolved_entries v (pol\<lparr>policy_entries := policy_entries pol @ [\<lparr>entry_path = ExactPath r, entry_access = a\<rparr>]\<rparr>) cwd
     = resolved_entries v pol cwd @ [\<lparr>resolved_path = r, resolved_access = a\<rparr>]"
  by (simp add: resolved_entries_def Let_def map_filter_def resolve_entry_path_def)

lemma add_writable_root_entries:
  "resolved_entries v (add_writable_root v cwd pol r) cwd = resolved_entries v pol cwd \<or>
   resolved_entries v (add_writable_root v cwd pol r) cwd
     = resolved_entries v pol cwd @ [\<lparr>resolved_path = r, resolved_access = WriteAccess\<rparr>]"
  by (simp add: add_writable_root_def resolved_entries_add)

lemma add_writable_root_keeps:
  assumes "can_write_path v pol p cwd"
  shows "can_write_path v (add_writable_root v cwd pol r) p cwd"
proof (cases "policy_kind pol = Restricted \<and> \<not> can_write_path v pol r cwd")
  case False
  then show ?thesis
    using assms by (auto simp: add_writable_root_def can_write_path_def can_write_def resolve_access_def)
next
  case True
  let ?e = "\<lparr>resolved_path = r, resolved_access = WriteAccess\<rparr>"
  let ?new = "add_writable_root v cwd pol r"
  have new: "?new = pol\<lparr>policy_entries := policy_entries pol @ [\<lparr>entry_path = ExactPath r, entry_access = WriteAccess\<rparr>]\<rparr>"
    using True by (simp add: add_writable_root_def)
  have access: "resolve_access v pol p cwd = WriteAccess"
    using assms by (simp add: can_write_path_def can_write_def)
  with True obtain path where path: "resolve_candidate_path v p cwd = Some path"
    by (auto simp: resolve_access_def split: option.splits)
  from resolve_access_cases [OF conjunct1 [OF True] path] access obtain m where
    m: "m \<in> set (reaching v pol path cwd)" "resolved_access m = WriteAccess"
      "\<And>e. e \<in> set (reaching v pol path cwd) \<Longrightarrow> precedence_le e m" by auto
  have reach: "set (reaching v ?new path cwd)
      = set (reaching v pol path cwd) \<union> (if path_starts_with path r then {?e} else {})"
    by (simp add: new reaching_def resolved_entries_add)
  have kind: "policy_kind ?new = Restricted" using True by (simp add: new)
  from m(1) have "reaching v ?new path cwd \<noteq> []" using reach by force
  with resolve_access_cases [OF kind path] obtain n where
    n: "n \<in> set (reaching v ?new path cwd)" "resolve_access v ?new p cwd = resolved_access n"
      "\<And>e. e \<in> set (reaching v ?new path cwd) \<Longrightarrow> precedence_le e n" by blast
  have "resolved_access n = WriteAccess"
  proof (cases "n \<in> set (reaching v pol path cwd)")
    case True
    with m(1,3) n(3) [of m] reach have "precedence_le n m" "precedence_le m n" by auto
    with m(2) show ?thesis by (auto simp: precedence_le_def Let_def)
  next
    case False
    with n(1) reach show ?thesis by (simp split: if_splits)
  qed
  with n(2) show ?thesis by (simp add: can_write_path_def can_write_def)
qed

lemma add_writable_root_grants:
  assumes "abs_path r"
  shows "can_write_path v (add_writable_root v cwd pol r) r cwd \<or>
    (\<exists>e \<in> set (resolved_entries v pol cwd).
       resolved_access e = NoAccess \<and> path_components (resolved_path e) = path_components r)"
proof (cases "policy_kind pol = Restricted \<and> \<not> can_write_path v pol r cwd")
  case False
  then show ?thesis
    by (auto simp: add_writable_root_def can_write_path_def can_write_def resolve_access_def)
next
  case True
  let ?e = "\<lparr>resolved_path = r, resolved_access = WriteAccess\<rparr>"
  let ?new = "add_writable_root v cwd pol r"
  have new: "?new = pol\<lparr>policy_entries := policy_entries pol @ [\<lparr>entry_path = ExactPath r, entry_access = WriteAccess\<rparr>]\<rparr>"
    using True by (simp add: add_writable_root_def)
  have path: "resolve_candidate_path v r cwd = Some r"
    using assms by (simp add: abs_path_def)
  have e: "?e \<in> set (reaching v ?new r cwd)" by (simp add: new reaching_def resolved_entries_add)
  then have "reaching v ?new r cwd \<noteq> []" by auto
  moreover have "policy_kind ?new = Restricted" using True by (simp add: new)
  ultimately obtain n where
    n: "n \<in> set (reaching v ?new r cwd)" "resolve_access v ?new r cwd = resolved_access n"
      "\<And>e. e \<in> set (reaching v ?new r cwd) \<Longrightarrow> precedence_le e n"
    using resolve_access_cases [OF _ path, of ?new] by blast
  have "prefix (path_components (resolved_path n)) (path_components r)"
    using n(1) by (simp add: reaching_def path_starts_with_def)
  with precedence_depth [OF n(3) [OF e]] have same: "path_components (resolved_path n) = path_components r"
    by (auto simp: prefix_def)
  with n(3) [OF e] have "WriteAccess \<le> resolved_access n" by (simp add: precedence_le_def)
  then have "resolved_access n = WriteAccess \<or> resolved_access n = NoAccess"
    by (cases "resolved_access n") (simp_all add: less_eq_access_mode_def)
  with n(1,2) same show ?thesis
    by (auto simp: can_write_path_def can_write_def reaching_def new resolved_entries_add)
qed

lemma fold_writable_keeps:
  "can_write_path v pol p cwd \<Longrightarrow> can_write_path v (foldl (add_writable_root v cwd) pol roots) p cwd"
  by (induction roots arbitrary: pol) (simp_all add: add_writable_root_keeps)

text \<open>
  Granting more writable roots only widens: what was writable stays writable, and each
  granted root becomes writable unless an entry of the policy denies that very path.
\<close>

theorem additional_writable_roots_widen:
  assumes "list_all abs_path roots"
  shows "(can_write_path v pol p cwd \<longrightarrow>
      can_write_path v (with_additional_writable_roots v pol cwd roots) p cwd) \<and>
    (\<forall>r \<in> set roots. can_write_path v (with_additional_writable_roots v pol cwd roots) r cwd \<or>
      (\<exists>e \<in> set (resolved_entries v pol cwd).
         resolved_access e = NoAccess \<and> path_components (resolved_path e) = path_components r))"
proof (intro conjI)
  show "can_write_path v pol p cwd \<longrightarrow> can_write_path v (with_additional_writable_roots v pol cwd roots) p cwd"
    by (simp add: additional_writable_fold fold_writable_keeps)
  show "\<forall>r \<in> set roots. can_write_path v (with_additional_writable_roots v pol cwd roots) r cwd \<or>
      (\<exists>e \<in> set (resolved_entries v pol cwd).
         resolved_access e = NoAccess \<and> path_components (resolved_path e) = path_components r)"
    using assms unfolding additional_writable_fold
  proof (induction roots arbitrary: pol)
    case (Cons a roots)
    have denied: "\<exists>e \<in> set (resolved_entries v pol cwd). resolved_access e = NoAccess \<and> path_components (resolved_path e) = c"
      if "\<exists>e \<in> set (resolved_entries v (add_writable_root v cwd pol a) cwd).
        resolved_access e = NoAccess \<and> path_components (resolved_path e) = c" for c
      using that add_writable_root_entries [of v cwd pol a] by auto
    from Cons.prems have "abs_path a" by simp
    from add_writable_root_grants [OF this, of v cwd pol] fold_writable_keeps
    have "can_write_path v (foldl (add_writable_root v cwd) pol (a # roots)) a cwd \<or>
      (\<exists>e \<in> set (resolved_entries v pol cwd). resolved_access e = NoAccess
         \<and> path_components (resolved_path e) = path_components a)" by auto
    moreover have "can_write_path v (foldl (add_writable_root v cwd) pol (a # roots)) r cwd \<or>
      (\<exists>e \<in> set (resolved_entries v pol cwd). resolved_access e = NoAccess
         \<and> path_components (resolved_path e) = path_components r)" if "r \<in> set roots" for r
      using Cons.IH [of "add_writable_root v cwd pol a"] Cons.prems that denied [of "path_components r"] by auto
    ultimately show ?case by simp
  qed simp
qed

lemma additional_writable_roots_widen_witness:
  "can_write_path plain_view
     (with_additional_writable_roots plain_view default_fs_policy (lit ''/w'') [lit ''/w'']) (lit ''/w'') (lit ''/w'')"
proof -
  have abs: "abs_path (lit ''/w'')" by code_simp
  then have "list_all abs_path [lit ''/w'']" by simp
  from additional_writable_roots_widen [OF this, of plain_view default_fs_policy "lit ''/w''" "lit ''/w''"]
  have "can_write_path plain_view
      (with_additional_writable_roots plain_view default_fs_policy (lit ''/w'') [lit ''/w'']) (lit ''/w'') (lit ''/w'') \<or>
    (\<exists>e \<in> set (resolved_entries plain_view default_fs_policy (lit ''/w'')). resolved_access e = NoAccess)" by auto
  then show ?thesis by (auto simp: in_resolved_entries default_fs_policy_def)
qed

text \<open>The default protections add read entries only.\<close>

lemma append_default_cases:
  "e \<in> set (foldl append_default_read_only_path_if_no_explicit_rule es paths) \<Longrightarrow>
   e \<in> set es \<or> entry_access e = ReadAccess"
proof (induction paths arbitrary: es)
  case (Cons q paths)
  from Cons.IH [of "append_default_read_only_path_if_no_explicit_rule es q"] Cons.prems show ?case
    by (auto simp: append_default_read_only_path_if_no_explicit_rule_def append_path_entry_if_missing_def
        split: if_splits)
qed simp

lemma append_default_keeps:
  "e \<in> set es \<Longrightarrow> e \<in> set (foldl append_default_read_only_path_if_no_explicit_rule es paths)"
  by (induction paths arbitrary: es)
    (simp_all add: append_default_read_only_path_if_no_explicit_rule_def append_path_entry_if_missing_def)

lemma append_default_adds:
  "q \<in> set paths \<Longrightarrow>
   \<exists>e \<in> set (foldl append_default_read_only_path_if_no_explicit_rule es paths). entry_path e = ExactPath q"
proof (induction paths arbitrary: es)
  case (Cons a paths)
  show ?case
  proof (cases "q = a")
    case True
    have "\<exists>e \<in> set (append_default_read_only_path_if_no_explicit_rule es a). entry_path e = ExactPath a"
      by (auto simp: append_default_read_only_path_if_no_explicit_rule_def append_path_entry_if_missing_def list_ex_iff)
    with True append_default_keeps show ?thesis by fastforce
  next
    case False
    with Cons.prems Cons.IH [of "append_default_read_only_path_if_no_explicit_rule es a"] show ?thesis by simp
  qed
qed simp

lemma append_default_roots_cases:
  "e \<in> set (foldl (\<lambda>entries r. foldl append_default_read_only_path_if_no_explicit_rule entries (f r)) es roots) \<Longrightarrow>
   e \<in> set es \<or> entry_access e = ReadAccess"
proof (induction roots arbitrary: es)
  case (Cons r roots)
  from Cons.IH [of "foldl append_default_read_only_path_if_no_explicit_rule es (f r)"] Cons.prems
  show ?case by (auto dest: append_default_cases)
qed simp

lemma append_default_roots_keeps:
  "e \<in> set es \<Longrightarrow>
   e \<in> set (foldl (\<lambda>entries r. foldl append_default_read_only_path_if_no_explicit_rule entries (f r)) es roots)"
  by (induction roots arbitrary: es) (simp_all add: append_default_keeps)

lemma dedup_paths_set [simp]: "set (dedup_paths ps) = set ps"
proof -
  have "set (foldl (\<lambda>seen p. if p \<in> set seen then seen else seen @ [p]) acc ps) = set acc \<union> set ps" for acc
    by (induction ps arbitrary: acc) auto
  from this [of "[]"] show ?thesis by (simp add: dedup_paths_def)
qed

lemma codex_protected:
  "abs_join v r (lit ''.codex'') \<in> set (default_read_only_subpaths_for_writable_root v r True)"
  unfolding default_read_only_subpaths_for_writable_root_def Let_def dedup_paths_set set_append
  by (intro UnI2) simp

lemma of_sandbox_writes:
  assumes "e \<in> set (policy_entries (of_sandbox_policy (WorkspaceWrite roots reads net no_tmpdir no_tmp)))"
  shows "entry_access e = ReadAccess \<or> entry_access e = WriteAccess \<and>
    (\<forall>c q. from_absolute_path (view_paths v) cwd = Some c \<longrightarrow> resolve_entry_path v (entry_path e) (Some c) = Some q \<longrightarrow>
      (\<exists>r \<in> set (policy_writable_roots v cwd (WorkspaceWrite roots reads net no_tmpdir no_tmp)). root_path r = q))"
proof -
  let ?roots = "policy_writable_roots v cwd (WorkspaceWrite roots reads net no_tmpdir no_tmp)"
  from assms consider "entry_access e = ReadAccess"
    | "e = \<lparr>entry_path = Special CurrentWorkingDirectory, entry_access = WriteAccess\<rparr>"
    | "e = \<lparr>entry_path = Special SlashTmp, entry_access = WriteAccess\<rparr>" "\<not> no_tmp"
    | "e = \<lparr>entry_path = Special Tmpdir, entry_access = WriteAccess\<rparr>" "\<not> no_tmpdir"
    | r where "e = \<lparr>entry_path = ExactPath r, entry_access = WriteAccess\<rparr>" "r \<in> set roots"
    by (auto simp: restricted_policy_def read_entries_def split: read_only_access.splits if_splits)
  then show ?thesis
  proof cases
    case 2
    have "\<exists>r \<in> set ?roots. root_path r = c" if "from_absolute_path (view_paths v) cwd = Some c" for c
      using that by (simp add: Let_def bex_Un)
    with 2 show ?thesis by (simp add: resolve_entry_path_def del: policy_writable_roots.simps)
  next
    case 3
    have "\<exists>r \<in> set ?roots. root_path r = q" if "resolve_special_path v SlashTmp c = Some q" for c q
      using that 3(2) by (simp add: Let_def bex_Un split: option.splits if_splits)
    with 3(1) show ?thesis
      by (simp add: resolve_entry_path_def del: policy_writable_roots.simps resolve_special_path.simps)
  next
    case 4
    have "\<exists>r \<in> set ?roots. root_path r = q" if "resolve_special_path v Tmpdir c = Some q" for c q
    proof -
      from that obtain t where "tmpdir_var v = Some t" "t \<noteq> []" "from_absolute_path (view_paths v) t = Some q"
        by (auto split: option.splits if_splits)
      with 4(2) show ?thesis by (simp add: Let_def bex_Un)
    qed
    with 4(1) show ?thesis
      by (simp add: resolve_entry_path_def del: policy_writable_roots.simps resolve_special_path.simps)
  next
    case 5
    then have "\<exists>x \<in> set ?roots. root_path x = r" by (simp add: Let_def bex_Un)
    with 5(1) show ?thesis by (simp add: resolve_entry_path_def del: policy_writable_roots.simps)
  qed simp
qed

text \<open>
  A workspace's own settings stay out of reach: under the policy made from a legacy
  workspace-write policy, nothing in the \<open>.codex\<close> directory of the working directory can be
  written, whether or not it exists yet, unless a writable root lies in it.
\<close>

theorem legacy_workspace_protects_codex:
  assumes "is_absolute cwd" and "is_absolute p"
    and "path_starts_with (normalize_path p) (abs_join v (normalize_path cwd) (lit ''.codex''))"
    and "\<forall>r \<in> set (policy_writable_roots v cwd (WorkspaceWrite roots reads net no_tmpdir no_tmp)).
      \<not> path_starts_with (root_path r) (abs_join v (normalize_path cwd) (lit ''.codex''))"
  shows "\<not> can_write_path v
    (from_legacy_sandbox_policy v (WorkspaceWrite roots reads net no_tmpdir no_tmp) cwd) p cwd"
proof -
  let ?sb = "WorkspaceWrite roots reads net no_tmpdir no_tmp" and ?c = "normalize_path cwd"
  let ?codex = "abs_join v ?c (lit ''.codex'')" and ?new = "from_legacy_sandbox_policy v ?sb cwd"
  have kind: "policy_kind ?new = Restricted" by (simp add: Let_def restricted_policy_def)
  have writes: "entry_access e = ReadAccess \<or> entry_access e = WriteAccess \<and>
      (\<forall>q. resolve_entry_path v (entry_path e) (Some ?c) = Some q \<longrightarrow> \<not> path_starts_with q ?codex)"
    if "e \<in> set (policy_entries ?new)" for e
  proof -
    from that have "entry_access e = ReadAccess \<or> e \<in> set (policy_entries (of_sandbox_policy ?sb))"
      using assms(1) by (auto simp: Let_def dest!: append_default_roots_cases append_default_cases
          simp del: of_sandbox_policy.simps)
    with of_sandbox_writes [of e roots reads net no_tmpdir no_tmp v cwd] assms(1,4) show ?thesis
      by (auto simp del: of_sandbox_policy.simps policy_writable_roots.simps)
  qed
  obtain kept where new: "policy_entries ?new =
      foldl (\<lambda>entries r. foldl append_default_read_only_path_if_no_explicit_rule entries
               (default_read_only_subpaths_for_writable_root v r False))
        (foldl append_default_read_only_path_if_no_explicit_rule kept
           (default_read_only_subpaths_for_writable_root v ?c True)) roots"
    using assms(1) by (simp add: Let_def del: of_sandbox_policy.simps policy_writable_roots.simps)
  obtain e0 where "e0 \<in> set (foldl append_default_read_only_path_if_no_explicit_rule kept
      (default_read_only_subpaths_for_writable_root v ?c True))" "entry_path e0 = ExactPath ?codex"
    using append_default_adds [OF codex_protected] by blast
  then have "\<exists>e \<in> set (policy_entries ?new). entry_path e = ExactPath ?codex"
    unfolding new
    using append_default_roots_keeps [where f = "\<lambda>r. default_read_only_subpaths_for_writable_root v r False"]
    by (intro bexI [of _ e0])
  then obtain e where e: "e \<in> set (policy_entries ?new)" "entry_path e = ExactPath ?codex" by blast
  then have res: "resolve_entry_path v (entry_path e) (Some ?c) = Some ?codex" by (simp add: resolve_entry_path_def)
  with writes [OF e(1)] have "entry_access e = ReadAccess" by auto
  with reaching_entry [OF e(1), of v cwd ?codex "normalize_path p"] res assms(1,3) have
    codex: "\<lparr>resolved_path = ?codex, resolved_access = ReadAccess\<rparr> \<in> set (reaching v ?new (normalize_path p) cwd)"
    by simp
  then have "reaching v ?new (normalize_path p) cwd \<noteq> []" by auto
  with resolve_access_cases [OF kind resolve_candidate_absolute [OF assms(2)], of v cwd] obtain m where
    m: "m \<in> set (reaching v ?new (normalize_path p) cwd)" "resolve_access v ?new p cwd = resolved_access m"
      "\<And>e. e \<in> set (reaching v ?new (normalize_path p) cwd) \<Longrightarrow> precedence_le e m" by blast
  have "path_starts_with (normalize_path p) (resolved_path m)" using m(1) by (simp add: reaching_def)
  with starts_with_comparable [OF _ assms(3)] precedence_depth [OF m(3) [OF codex]]
  have "path_starts_with (resolved_path m) ?codex" by simp
  moreover from m(1) assms(1) obtain d where "d \<in> set (policy_entries ?new)"
    "resolve_entry_path v (entry_path d) (Some ?c) = Some (resolved_path m)" "resolved_access m = entry_access d"
    by (auto simp: reaching_def in_resolved_entries simp del: from_legacy_sandbox_policy.simps)
  ultimately have "resolved_access m = ReadAccess" using writes [of d] by auto
  with m(2) show ?thesis by (simp add: can_write_path_def can_write_def del: from_legacy_sandbox_policy.simps)
qed

lemma legacy_workspace_protects_codex_witness:
  "\<not> can_write_path plain_view
     (from_legacy_sandbox_policy plain_view (WorkspaceWrite [] FullAccess False True True) (lit ''/w''))
     (lit ''/w/.codex/config'') (lit ''/w'')"
proof (rule legacy_workspace_protects_codex)
  show "is_absolute (lit ''/w'')" "is_absolute (lit ''/w/.codex/config'')" by code_simp+
  show "path_starts_with (normalize_path (lit ''/w/.codex/config''))
      (abs_join plain_view (normalize_path (lit ''/w'')) (lit ''.codex''))" by code_simp
  show "\<forall>r \<in> set (policy_writable_roots plain_view (lit ''/w'') (WorkspaceWrite [] FullAccess False True True)).
      \<not> path_starts_with (root_path r) (abs_join plain_view (normalize_path (lit ''/w'')) (lit ''.codex''))"
    by code_simp
qed

end
