(* ===== verification/PatchSafety.thy ===== *)
theory PatchSafety
  imports PatchFiles FilePermissions ExecApproval
begin

text \<open>
  Whether a patch needs approval (\<open>core/src/safety.rs\<close>, \<open>core/src/apply_patch.rs\<close>): the previewed
  changes are compared with the paths the sandbox lets be written. The lemmas tie the
  answer to what applying the patch does to files, so they rest on the patch theories and
  on the file permissions. \<open>HashMap\<close> iteration is a list of the map's entries, in any order.
\<close>

section \<open>The check\<close>

datatype sandbox_type = NoSandbox | MacosSeatbelt | LinuxSeccomp | WindowsRestrictedToken

datatype platform = Macos | Linux | Windows | OtherPlatform

definition get_platform_sandbox :: "platform \<Rightarrow> bool \<Rightarrow> sandbox_type option" where
  "get_platform_sandbox target windows_sandbox_enabled =
     (case target of
        Macos \<Rightarrow> Some MacosSeatbelt
      | Linux \<Rightarrow> Some LinuxSeccomp
      | Windows \<Rightarrow> if windows_sandbox_enabled then Some WindowsRestrictedToken else None
      | OtherPlatform \<Rightarrow> None)"

datatype safety_check =
    AutoApprove sandbox_type bool
  | AskUser
  | Reject ustring

definition PATCH_REJECTED_OUTSIDE_PROJECT_REASON :: ustring where
  "PATCH_REJECTED_OUTSIDE_PROJECT_REASON =
     lit ''writing outside of the project; rejected by user approval settings''"

definition PATCH_REJECTED_READ_ONLY_REASON :: ustring where
  "PATCH_REJECTED_READ_ONLY_REASON =
     lit ''writing is blocked by read-only sandbox; rejected by user approval settings''"

definition patch_rejection_reason :: "sandbox_policy \<Rightarrow> ustring" where
  "patch_rejection_reason sandbox =
     (case sandbox of ReadOnly _ _ \<Rightarrow> PATCH_REJECTED_READ_ONLY_REASON
      | _ \<Rightarrow> PATCH_REJECTED_OUTSIDE_PROJECT_REASON)"

definition resolve_path :: "ustring \<Rightarrow> ustring \<Rightarrow> ustring" where
  "resolve_path base p = (if is_absolute p then p else path_join base p)"

definition lexical_normalize :: "ustring \<Rightarrow> ustring" where
  "lexical_normalize p = render_components (foldl normalize_step [] (path_components p))"

definition is_change_path_writable :: "fs_view \<Rightarrow> fs_policy \<Rightarrow> ustring \<Rightarrow> ustring \<Rightarrow> bool" where
  "is_change_path_writable v pol cwd p = can_write_path v pol (lexical_normalize (resolve_path cwd p)) cwd"

fun is_change_writable :: "fs_view \<Rightarrow> fs_policy \<Rightarrow> ustring \<Rightarrow> ustring \<times> file_change \<Rightarrow> bool" where
  "is_change_writable v pol cwd (p, UpdateChange _ move_path _) =
     (is_change_path_writable v pol cwd p \<and>
      (case move_path of None \<Rightarrow> True | Some dest \<Rightarrow> is_change_path_writable v pol cwd dest))"
| "is_change_writable v pol cwd (p, _) = is_change_path_writable v pol cwd p"

definition is_write_patch_constrained_to_writable_paths ::
  "fs_view \<Rightarrow> fs_policy \<Rightarrow> ustring \<Rightarrow> (ustring \<times> file_change) list \<Rightarrow> bool" where
  "is_write_patch_constrained_to_writable_paths v pol cwd changes =
     list_all (is_change_writable v pol cwd) changes"

definition rejects_sandbox_approval :: "ask_for_approval \<Rightarrow> bool" where
  "rejects_sandbox_approval approval =
     (case approval of Never \<Rightarrow> True | Granular g \<Rightarrow> \<not> sandbox_approval g | _ \<Rightarrow> False)"

definition assess_patch_safety ::
  "fs_view \<Rightarrow> platform \<Rightarrow> (ustring \<times> file_change) list \<Rightarrow> ask_for_approval \<Rightarrow> sandbox_policy \<Rightarrow> fs_policy
   \<Rightarrow> ustring \<Rightarrow> bool \<Rightarrow> safety_check" where
  "assess_patch_safety v target changes approval sandbox pol cwd windows_sandbox_enabled =
     (if changes = [] then Reject (lit ''empty patch'')
      else if approval = UnlessTrusted then AskUser
      else if is_write_patch_constrained_to_writable_paths v pol cwd changes \<or> approval = OnFailure then
        (if (case sandbox of DangerFullAccess \<Rightarrow> True | ExternalSandboxPolicy _ \<Rightarrow> True | _ \<Rightarrow> False)
         then AutoApprove NoSandbox False
         else (case get_platform_sandbox target windows_sandbox_enabled of
                 Some sbx \<Rightarrow> AutoApprove sbx False
               | None \<Rightarrow>
                   if rejects_sandbox_approval approval then Reject (patch_rejection_reason sandbox)
                   else AskUser))
      else if rejects_sandbox_approval approval then Reject (patch_rejection_reason sandbox)
      else AskUser)"

section \<open>What becomes of the patch\<close>

datatype internal_apply_patch =
    PatchOutput ustring
  | DelegateToRuntime bool exec_approval_requirement

definition internal_apply_patch_of :: "safety_check \<Rightarrow> internal_apply_patch" where
  "internal_apply_patch_of c =
     (case c of
        AutoApprove _ user_explicitly_approved \<Rightarrow>
          DelegateToRuntime (\<not> user_explicitly_approved) (Skip False None)
      | AskUser \<Rightarrow> DelegateToRuntime False (NeedsApproval None None)
      | Reject reason \<Rightarrow> PatchOutput (lit ''patch rejected: '' @ reason))"

text \<open>What the user is shown: the changes without the new contents of updates.\<close>

datatype protocol_file_change =
    ProtocolAdd ustring
  | ProtocolDelete ustring
  | ProtocolUpdate ustring "ustring option"

fun protocol_change :: "file_change \<Rightarrow> protocol_file_change" where
  "protocol_change (AddChange content) = ProtocolAdd content"
| "protocol_change (DeleteChange content) = ProtocolDelete content"
| "protocol_change (UpdateChange unified_diff move_path _) = ProtocolUpdate unified_diff move_path"

definition convert_apply_patch_to_protocol ::
  "(ustring \<times> file_change) list \<Rightarrow> (ustring \<times> protocol_file_change) list" where
  "convert_apply_patch_to_protocol changes = map (\<lambda>(p, c). (p, protocol_change c)) changes"

section \<open>Only touched paths change\<close>

lemma one_hunk_elsewhere:
  assumes laws: "file_system_laws fs" and a: "apply_one_hunk env fs cwd h st = Some (r, st')"
    and q: "q \<notin> set (touched env cwd h)"
  shows "read_file_text fs st' q = read_file_text fs st q"
proof -
  let ?p = "hunk_resolve_path env h cwd"
  have p: "q \<noteq> ?p" using q by (simp add: touched_def)
  show ?thesis
  proof (cases h)
    case (AddFile f contents)
    obtain r1 st1 where w: "write_file_with_missing_parent_retry fs st ?p contents = (r1, st1)" by fastforce
    with a AddFile have "st' = st1" by (auto simp: apply_one_hunk_def Let_def split: sum.splits)
    with write_retry_reads(2) [OF laws w p] show ?thesis by simp
  next
    case (DeleteFile f)
    obtain r1 st1 where w: "remove_regular_file fs st ?p (lit ''Failed to delete file '' @ ?p) = (r1, st1)" by fastforce
    with a DeleteFile have "st' = st1" by (auto simp: apply_one_hunk_def Let_def split: sum.splits)
    with remove_regular_reads(2) [OF laws w p] show ?thesis by simp
  next
    case (UpdateFile f move_path chunks)
    show ?thesis
    proof (cases "derive_new_contents_from_chunks fs st ?p chunks")
      case None
      with a UpdateFile show ?thesis by (simp add: apply_one_hunk_def)
    next
      case (Some d)
      show ?thesis
      proof (cases d)
        case (Inl e)
        with a UpdateFile Some show ?thesis by (simp add: apply_one_hunk_def)
      next
        case (Inr pair)
        obtain old new where pair: "pair = (old, new)" by fastforce
        show ?thesis
        proof (cases move_path)
          case None
          obtain r1 st1 where w: "write_file fs st ?p new = (r1, st1)" by fastforce
          with a UpdateFile Some Inr pair None have "st' = st1"
            by (auto simp: apply_one_hunk_def Let_def split: sum.splits)
          with write_file_reads(2) [OF laws w p] show ?thesis by simp
        next
          case dest: (Some dest)
          let ?d = "resolve_path_against_base env dest cwd"
          have d: "q \<noteq> ?d" using q UpdateFile dest by (simp add: touched_def)
          obtain r1 st1 where w: "write_file_with_missing_parent_retry fs st ?d new = (r1, st1)" by fastforce
          obtain r2 st2 where m: "remove_regular_file fs st1 ?p (lit ''Failed to remove original '' @ ?p) = (r2, st2)"
            by fastforce
          from a UpdateFile Some Inr pair dest w m have "st' = st1 \<or> st' = st2"
            by (auto simp: apply_one_hunk_def Let_def split: sum.splits)
          with write_retry_reads(2) [OF laws w d] remove_regular_reads(2) [OF laws m p] show ?thesis by auto
        qed
      qed
    qed
  qed
qed

lemma hunks_elsewhere:
  assumes laws: "file_system_laws fs"
  shows "apply_hunks_loop env fs cwd a hs st = Some (r, st') \<Longrightarrow>
    q \<notin> set (concat (map (touched env cwd) hs)) \<Longrightarrow> read_file_text fs st' q = read_file_text fs st q"
proof (induction hs arbitrary: a st)
  case (Cons h hs)
  obtain eff st1 where one: "apply_one_hunk env fs cwd h st = Some (eff, st1)"
    using Cons.prems(1) by (auto split: option.splits)
  have "read_file_text fs st1 q = read_file_text fs st q"
    using one_hunk_elsewhere [OF laws one] Cons.prems(2) by simp
  with Cons.prems one Cons.IH [of _ st1] show ?case by (auto split: sum.splits)
qed simp

section \<open>Approved changes are writable\<close>

lemma resolved_abs_path: "is_absolute base \<Longrightarrow> abs_path (resolve_path_against_base env p base)"
proof -
  assume "is_absolute base"
  then have "is_absolute (path_with_base q base)" for q
    by (auto simp: path_with_base_def path_join_def is_absolute_def prefix_def)
  then show ?thesis by (simp add: resolve_path_against_base_def absolutize_from_def)
qed

lemma lexical_normalize_abs [simp]: "abs_path p \<Longrightarrow> lexical_normalize (resolve_path cwd p) = p"
proof -
  assume p: "abs_path p"
  then have "is_absolute p" "normalize_path p = p" by (simp_all add: abs_path_def)
  moreover from abs_path_components [OF p] have "foldl normalize_step [] (path_components p) \<noteq> []"
    by (auto simp: normal_absolute_def push_component_def foldl_normalize_names)
  ultimately show "lexical_normalize (resolve_path cwd p) = p"
    by (simp add: resolve_path_def lexical_normalize_def normalize_path_def Let_def)
qed

text \<open>Each hunk's change is in the preview when the hunks' paths differ.\<close>

lemma changes_loop_keeps:
  "changes_loop diff env fs st cwd hs acc = Some (Inr changes) \<Longrightarrow>
   p \<notin> (\<lambda>h. hunk_resolve_path env h cwd) ` set hs \<Longrightarrow> changes p = acc p"
  by (induction hs arbitrary: acc) (auto split: option.splits sum.splits)

lemma changes_loop_has:
  "changes_loop diff env fs st cwd hs acc = Some (Inr changes) \<Longrightarrow>
   distinct (map (\<lambda>h. hunk_resolve_path env h cwd) hs) \<Longrightarrow> h \<in> set hs \<Longrightarrow>
   \<exists>c. change_of_hunk diff env fs st cwd h = Some (Inr c) \<and> changes (hunk_resolve_path env h cwd) = Some c"
proof (induction hs arbitrary: acc)
  case (Cons g hs)
  from Cons.prems(1) obtain c where c: "change_of_hunk diff env fs st cwd g = Some (Inr c)"
    and rest: "changes_loop diff env fs st cwd hs (acc(hunk_resolve_path env g cwd \<mapsto> c)) = Some (Inr changes)"
    by (auto split: option.splits sum.splits)
  show ?case
  proof (cases "h = g")
    case True
    have "hunk_resolve_path env g cwd \<notin> (\<lambda>h. hunk_resolve_path env h cwd) ` set hs"
      using Cons.prems(2) by auto
    from changes_loop_keeps [OF rest this] c True show ?thesis by simp
  next
    case False
    with Cons.prems Cons.IH [OF rest] show ?thesis by auto
  qed
qed simp

lemma touched_distinct_paths:
  "distinct (concat (map (touched env cwd) hs)) \<Longrightarrow> distinct (map (\<lambda>h. hunk_resolve_path env h cwd) hs)"
  by (induction hs) (auto simp: touched_def)

lemma touched_writable:
  assumes "is_absolute cwd" and "change_of_hunk diff env fs st cwd h = Some (Inr c)"
    and "is_change_writable v pol cwd (hunk_resolve_path env h cwd, c)" and "q \<in> set (touched env cwd h)"
  shows "can_write_path v pol q cwd"
proof (cases h)
  case (UpdateFile p move_path chunks)
  with assms resolved_abs_path [OF assms(1), of env] show ?thesis
    by (auto simp: change_of_hunk_def touched_def hunk_resolve_path_def is_change_path_writable_def Let_def
        split: option.splits sum.splits)
qed (use assms resolved_abs_path [OF assms(1), of env] in
  \<open>auto simp: change_of_hunk_def touched_def hunk_resolve_path_def is_change_path_writable_def Let_def
     split: sum.splits\<close>)

lemma auto_approved_constrained:
  "assess_patch_safety v target changes approval sandbox pol cwd win = AutoApprove sbx u \<Longrightarrow>
   approval \<noteq> OnFailure \<Longrightarrow> approval \<noteq> UnlessTrusted \<and> list_all (is_change_writable v pol cwd) changes"
  by (auto simp: assess_patch_safety_def is_write_patch_constrained_to_writable_paths_def split: if_splits)

text \<open>
  C39: A patch that runs without asking changes only writable files: when the check approves
  the preview by itself (other than under ask on failure) and the hunks touch different
  paths, then after carrying the hunks out, fully or up to an error, every path that reads
  differently is one the sandbox policy lets be written. The working directory is absolute,
  and the file system is lawful (\<open>file_system_laws\<close>): writing or removing one path changes
  what no other path reads, and creating directories changes what no path reads. So no hard
  or symbolic link makes two of the paths one file; for a hard link to a file elsewhere
  nothing is claimed, and \<open>core/src/safety.rs\<close> runs the patch in a sandbox on its account.
\<close>

theorem auto_approved_patch_changes_writable_paths:
  assumes "file_system_laws fs" and "is_absolute cwd" and "distinct (concat (map (touched env cwd) hunks))"
    and "changes_loop diff env fs st cwd hunks Map.empty = Some (Inr changes)"
    and "\<forall>p c. changes p = Some c \<longleftrightarrow> (p, c) \<in> set entries"
    and "assess_patch_safety v target entries approval sandbox pol cwd win = AutoApprove sbx u"
    and "approval \<noteq> OnFailure"
    and "apply_hunks_to_files env fs hunks cwd st = Some (outcome, st')"
    and "read_file_text fs st' q \<noteq> read_file_text fs st q"
  shows "can_write_path v pol q cwd"
proof -
  from assms(8,9) obtain a where "apply_hunks_loop env fs cwd a hunks st = Some (outcome, st')"
    by (auto simp: apply_hunks_to_files_def split: if_splits)
  from hunks_elsewhere [OF assms(1) this, of q] assms(9) obtain h where
    h: "h \<in> set hunks" "q \<in> set (touched env cwd h)" by auto
  from changes_loop_has [OF assms(4) touched_distinct_paths [OF assms(3)] h(1)] obtain c where
    c: "change_of_hunk diff env fs st cwd h = Some (Inr c)" "(hunk_resolve_path env h cwd, c) \<in> set entries"
    using assms(5) by blast
  from auto_approved_constrained [OF assms(6,7)] c(2)
  have "is_change_writable v pol cwd (hunk_resolve_path env h cwd, c)" by (auto simp: list_all_iff)
  from touched_writable [OF assms(2) c(1) this h(2)] show ?thesis .
qed

section \<open>Instances\<close>

definition workspace_only :: fs_policy where
  "workspace_only = restricted_policy
     [\<lparr>entry_path = Special RootPath, entry_access = ReadAccess\<rparr>,
      \<lparr>entry_path = Special CurrentWorkingDirectory, entry_access = WriteAccess\<rparr>]"

definition workspace_sandbox :: sandbox_policy where
  "workspace_sandbox = WorkspaceWrite [] FullAccess False True True"

lemma workspace_access:
  "can_write_path plain_view workspace_only (lit ''/w/a'') (lit ''/w'')"
  "\<not> can_write_path plain_view workspace_only (lit ''/out/x'') (lit ''/w'')"
  by code_simp+

lemma add_in_workspace_approved:
  "assess_patch_safety plain_view Linux [(lit ''/w/a'', AddChange contents)] OnRequest
     workspace_sandbox workspace_only (lit ''/w'') False = AutoApprove LinuxSeccomp False"
proof -
  have "abs_path (lit ''/w/a'')" by code_simp
  with workspace_access(1) show ?thesis
    by (simp add: assess_patch_safety_def is_write_patch_constrained_to_writable_paths_def
        is_change_path_writable_def workspace_sandbox_def get_platform_sandbox_def)
qed

lemma map_fs_steps:
  "write_file_with_missing_parent_retry map_fs st p c = (Inr (), st(p \<mapsto> c))"
  "st p \<noteq> None \<Longrightarrow> remove_regular_file map_fs st p context = (Inr (), st(p := None))"
  by (simp_all add: write_file_with_missing_parent_retry_def remove_regular_file_def map_fs_def)

lemma auto_approved_patch_changes_writable_paths_witness:
  "can_write_path plain_view workspace_only (lit ''/w/a'') (lit ''/w'')"
proof (rule auto_approved_patch_changes_writable_paths [OF map_fs_laws])
  let ?hs = "[AddFile (lit ''a'') (lit ''n'')]"
  show "is_absolute (lit ''/w'')" by code_simp
  show "distinct (concat (map (touched sample_paths (lit ''/w'')) ?hs))" by (simp add: touched_def)
  show "changes_loop (\<lambda>_ _. []) sample_paths map_fs sample_files (lit ''/w'') ?hs Map.empty
      = Some (Inr [lit ''/w/a'' \<mapsto> AddChange (lit ''n'')])"
    by (simp add: change_of_hunk_def hunk_resolve_path_def hunk_path_def sample_resolve)
  show "\<forall>p c. [lit ''/w/a'' \<mapsto> AddChange (lit ''n'')] p = Some c \<longleftrightarrow>
      (p, c) \<in> set [(lit ''/w/a'', AddChange (lit ''n''))]" by auto
  show "OnRequest \<noteq> OnFailure" by simp
  show "assess_patch_safety plain_view Linux [(lit ''/w/a'', AddChange (lit ''n''))] OnRequest
     workspace_sandbox workspace_only (lit ''/w'') False = AutoApprove LinuxSeccomp False"
    by (rule add_in_workspace_approved)
  show "apply_hunks_to_files sample_paths map_fs ?hs (lit ''/w'') sample_files =
      Some (Inr \<lparr>added = [lit ''a''], modified = [], deleted = []\<rparr>,
        sample_files(lit ''/w/a'' \<mapsto> lit ''n''))"
    by (simp add: apply_hunks_to_files_def apply_one_hunk_def hunk_resolve_path_def hunk_path_def
        sample_resolve map_fs_steps) (simp add: record_effect_def hunk_path_def)
  show "read_file_text map_fs (sample_files(lit ''/w/a'' \<mapsto> lit ''n'')) (lit ''/w/a'')
      \<noteq> read_file_text map_fs sample_files (lit ''/w/a'')"
    by (simp add: map_fs_def sample_files_def lit_def uc_def)
qed

text \<open>
  Paths must differ for that: a patch that moves a file out of the workspace and then adds
  a file at its old path is previewed as the addition alone and approved without asking,
  and carrying it out writes outside.
\<close>

theorem hidden_move_is_approved:
  "\<exists>changes entries st'.
     changes_loop (\<lambda>_ _. []) sample_paths map_fs sample_files (lit ''/w'')
       [sample_update ''a'' (Some ''/out/x'') ''x'' ''y'', AddFile (lit ''a'') (lit ''n'')] Map.empty
         = Some (Inr changes) \<and>
     changes = map_of entries \<and>
     assess_patch_safety plain_view Linux entries OnRequest workspace_sandbox workspace_only (lit ''/w'') False
       = AutoApprove LinuxSeccomp False \<and>
     \<not> can_write_path plain_view workspace_only (lit ''/out/x'') (lit ''/w'') \<and>
     apply_hunks_to_files sample_paths map_fs
       [sample_update ''a'' (Some ''/out/x'') ''x'' ''y'', AddFile (lit ''a'') (lit ''n'')]
       (lit ''/w'') sample_files
         = Some (Inr \<lparr>added = [lit ''a''], modified = [lit ''/out/x''], deleted = []\<rparr>, st') \<and>
     st' (lit ''/out/x'') = Some (lit ''y'' @ [newline])"
proof -
  have out: "resolve_path_against_base sample_paths (lit ''/out/x'') (lit ''/w'') = lit ''/out/x''"
    by code_simp
  have other: "lit ''/w/a'' \<noteq> lit ''/out/x''" by (simp add: lit_def uc_def)
  let ?st = "[lit ''/out/x'' \<mapsto> lit ''y'' @ [newline], lit ''/w/a'' \<mapsto> lit ''n'']"
  have applied: "apply_hunks_to_files sample_paths map_fs
       [sample_update ''a'' (Some ''/out/x'') ''x'' ''y'', AddFile (lit ''a'') (lit ''n'')]
       (lit ''/w'') sample_files
         = Some (Inr \<lparr>added = [lit ''a''], modified = [lit ''/out/x''], deleted = []\<rparr>, ?st)"
    unfolding apply_hunks_to_files_def sample_files_def sample_update_def
    by (simp add: apply_one_hunk_def hunk_resolve_path_def hunk_path_def sample_resolve sample_derive out
        map_fs_steps other other [symmetric] Let_def record_effect_def fun_upd_twist)
  have preview: "changes_loop (\<lambda>_ _. []) sample_paths map_fs sample_files (lit ''/w'')
       [sample_update ''a'' (Some ''/out/x'') ''x'' ''y'', AddFile (lit ''a'') (lit ''n'')] Map.empty
         = Some (Inr (map_of [(lit ''/w/a'', AddChange (lit ''n''))]))"
    by (simp add: change_of_hunk_def sample_update_def hunk_resolve_path_def hunk_path_def sample_resolve
        sample_files_def sample_derive)
  show ?thesis
    by (intro exI conjI, rule preview, rule refl, rule add_in_workspace_approved, rule workspace_access(2),
        rule applied) simp
qed

end
