(* ===== verification/AccountTypes.thy ===== *)
theory AccountTypes
  imports Numbers "HOL-Library.Word"
begin

text \<open>
  The data of the account pool (\<open>account-pool/src/{types,quota,proactive_switch}.rs\<close>,
  \<open>state/src/model/{account_pool,account_pool_quota}.rs\<close>) and the small state machine that
  holds a proactive switch back. A \<open>DateTime<Utc>\<close> is the number of nanoseconds since the
  epoch and a \<open>Duration\<close> a number of nanoseconds, both integers: that chrono panics outside
  its range of about 262000 years is not modelled.
\<close>

section \<open>Time, orderings and floating point\<close>

type_synonym instant = int
type_synonym time_span = int

definition nanos_per_sec :: int where
  "nanos_per_sec = 1000000000"

text \<open>\<open>TimeDelta::num_seconds\<close> rounds towards zero, \<open>DateTime::timestamp\<close> downwards.\<close>

definition num_seconds :: "time_span \<Rightarrow> int" where
  "num_seconds d = sgn d * (\<bar>d\<bar> div nanos_per_sec)"

definition timestamp :: "instant \<Rightarrow> int" where
  "timestamp t = t div nanos_per_sec"

definition saturating_neg :: "int \<Rightarrow> int" where
  "saturating_neg x = (if x = i64_min then i64_max else - x)"

text \<open>\<open>Duration::seconds\<close> panics when the milliseconds leave \<open>i64\<close>.\<close>

definition duration_seconds :: "int \<Rightarrow> time_span option" where
  "duration_seconds s = (if \<bar>s\<bar> \<le> i64_max div 1000 then Some (s * nanos_per_sec) else None)"

datatype ordering = Less | Equal | Greater

definition cmp :: "'a::linorder \<Rightarrow> 'a \<Rightarrow> ordering" where
  "cmp x y = (if x < y then Less else if x = y then Equal else Greater)"

fun reverse_ordering :: "ordering \<Rightarrow> ordering" where
  "reverse_ordering Less = Greater"
| "reverse_ordering Equal = Equal"
| "reverse_ordering Greater = Less"

fun then_with :: "ordering \<Rightarrow> ordering \<Rightarrow> ordering" where
  "then_with Equal other = other"
| "then_with o1 other = o1"

text \<open>\<open>str::cmp\<close> compares UTF-8 bytes, which orders texts like their scalar values.\<close>

fun cmp_text :: "ustring \<Rightarrow> ustring \<Rightarrow> ordering" where
  "cmp_text [] [] = Equal"
| "cmp_text [] (y # ys) = Less"
| "cmp_text (x # xs) [] = Greater"
| "cmp_text (x # xs) (y # ys) = then_with (cmp x y) (cmp_text xs ys)"

text \<open>
  \<open>f64\<close>: subtraction rounds to the nearest of the representable numbers, ties to the even
  one. The range is not exceeded where the code subtracts (from \<open>100.0\<close>).
\<close>

datatype f64 = NaN | NegInfinity | Finite rat | PosInfinity

fun f64_less :: "f64 \<Rightarrow> f64 \<Rightarrow> bool" where
  "f64_less NaN y = False"
| "f64_less x NaN = False"
| "f64_less NegInfinity y = (y \<noteq> NegInfinity)"
| "f64_less x NegInfinity = False"
| "f64_less PosInfinity y = False"
| "f64_less x PosInfinity = True"
| "f64_less (Finite a) (Finite b) = (a < b)"

definition partial_cmp :: "f64 \<Rightarrow> f64 \<Rightarrow> ordering option" where
  "partial_cmp x y =
     (if x = NaN \<or> y = NaN then None
      else Some (if f64_less x y then Less else if x = y then Equal else Greater))"

fun hundred_minus :: "f64 \<Rightarrow> f64" where
  "hundred_minus NaN = NaN"
| "hundred_minus NegInfinity = PosInfinity"
| "hundred_minus PosInfinity = NegInfinity"
| "hundred_minus (Finite x) = Finite (f64_round (100 - x))"

section \<open>Quota facts\<close>

datatype account_health_state = Healthy | RateLimited | Unauthorized

fun health_as_str :: "account_health_state \<Rightarrow> ustring" where
  "health_as_str Healthy = lit ''healthy''"
| "health_as_str RateLimited = lit ''rate_limited''"
| "health_as_str Unauthorized = lit ''unauthorized''"

definition health_try_from :: "ustring \<Rightarrow> ustring + account_health_state" where
  "health_try_from v =
     (if v = lit ''healthy'' then Inr Healthy
      else if v = lit ''rate_limited'' then Inr RateLimited
      else if v = lit ''unauthorized'' then Inr Unauthorized
      else Inl (lit ''unknown account health state: '' @ v))"

datatype quota_exhausted_windows =
    NoWindow | PrimaryWindow | SecondaryWindow | BothWindows | UnknownWindow

definition is_exhausted :: "quota_exhausted_windows \<Rightarrow> bool" where
  "is_exhausted w \<longleftrightarrow> w \<noteq> NoWindow"

fun windows_as_str :: "quota_exhausted_windows \<Rightarrow> ustring" where
  "windows_as_str NoWindow = lit ''none''"
| "windows_as_str PrimaryWindow = lit ''primary''"
| "windows_as_str SecondaryWindow = lit ''secondary''"
| "windows_as_str BothWindows = lit ''both''"
| "windows_as_str UnknownWindow = lit ''unknown''"

definition windows_try_from :: "ustring \<Rightarrow> ustring + quota_exhausted_windows" where
  "windows_try_from v =
     (if v = lit ''none'' then Inr NoWindow
      else if v = lit ''primary'' then Inr PrimaryWindow
      else if v = lit ''secondary'' then Inr SecondaryWindow
      else if v = lit ''both'' then Inr BothWindows
      else if v = lit ''unknown'' then Inr UnknownWindow
      else Inl (lit ''unknown quota exhausted windows: '' @ v))"

datatype quota_probe_result = ProbeSuccess | ProbeStillBlocked | ProbeAmbiguous

fun probe_result_as_str :: "quota_probe_result \<Rightarrow> ustring" where
  "probe_result_as_str ProbeSuccess = lit ''success''"
| "probe_result_as_str ProbeStillBlocked = lit ''still_blocked''"
| "probe_result_as_str ProbeAmbiguous = lit ''ambiguous''"

definition probe_result_try_from :: "ustring \<Rightarrow> ustring + quota_probe_result" where
  "probe_result_try_from v =
     (if v = lit ''success'' then Inr ProbeSuccess
      else if v = lit ''still_blocked'' then Inr ProbeStillBlocked
      else if v = lit ''ambiguous'' then Inr ProbeAmbiguous
      else Inl (lit ''unknown quota probe result: '' @ v))"

record quota_state =
  quota_account_id :: ustring
  limit_id :: ustring
  primary_used_percent :: "f64 option"
  primary_resets_at :: "instant option"
  secondary_used_percent :: "f64 option"
  secondary_resets_at :: "instant option"
  quota_observed_at :: instant
  exhausted_windows :: quota_exhausted_windows
  predicted_blocked_until :: "instant option"
  next_probe_after :: "instant option"
  probe_backoff_level :: int
  last_probe_result :: "quota_probe_result option"

definition compatibility_health_state :: "quota_state \<Rightarrow> account_health_state" where
  "compatibility_health_state r = (if is_exhausted (exhausted_windows r) then RateLimited else Healthy)"

record quota_family_view =
  selection_quota :: "quota_state option"
  codex_fallback :: "quota_state option"

text \<open>Both branches of the source do the same but for the name they compare with.\<close>

definition effective_quota :: "quota_family_view \<Rightarrow> ustring \<Rightarrow> quota_state option" where
  "effective_quota q selection_family =
     (case selection_quota q of
        Some row \<Rightarrow> if limit_id row = selection_family then Some row else codex_fallback q
      | None \<Rightarrow> codex_fallback q)"

section \<open>Accounts, requests and plans\<close>

datatype account_kind = ChatGpt | ManualOnly

record account_record =
  account_id :: ustring
  healthy :: bool
  acct_kind :: account_kind
  enabled :: bool
  selector_auth_eligible :: bool
  pool_position :: nat
  leased_to_other_holder :: bool
  quota :: quota_family_view

datatype selection_intent = Startup | SoftRotation | HardFailover | ProbeRecovery

definition allows_just_replaced_reuse :: "selection_intent \<Rightarrow> bool" where
  "allows_just_replaced_reuse i \<longleftrightarrow> i = HardFailover"

definition stays_on_current_when_exhausted :: "selection_intent \<Rightarrow> bool" where
  "stays_on_current_when_exhausted i \<longleftrightarrow> i = SoftRotation"

definition is_probe_recovery :: "selection_intent \<Rightarrow> bool" where
  "is_probe_recovery i \<longleftrightarrow> i = ProbeRecovery"

record selection_request =
  req_now :: "instant option"
  req_pool_id :: "ustring option"
  intent :: selection_intent
  req_selection_family :: "ustring option"
  preferred_account_id :: "ustring option"
  current_account_id :: "ustring option"
  just_replaced_account_id :: "ustring option"
  reserved_probe_target_account_id :: "ustring option"
  proactive_threshold_percent :: nat

definition request_for_intent :: "selection_intent \<Rightarrow> selection_request" where
  "request_for_intent i =
     \<lparr>req_now = None, req_pool_id = None, intent = i, req_selection_family = None,
      preferred_account_id = None, current_account_id = None, just_replaced_account_id = None,
      reserved_probe_target_account_id = None, proactive_threshold_percent = 85\<rparr>"

definition request_selection_family :: "selection_request \<Rightarrow> ustring" where
  "request_selection_family r = (case req_selection_family r of Some f \<Rightarrow> f | None \<Rightarrow> lit ''codex'')"

datatype selection_action =
    Select ustring
  | Probe ustring
  | StayOnCurrent
  | NoCandidate

datatype selection_reject_reason =
    DisabledAccount
  | UnhealthyAccount
  | LeasedToOtherHolder
  | CurrentAccount
  | JustReplacedAccount
  | PredictedBlockedAccount
  | ProbeTargetOnly

datatype selection_decision_reason =
    OrdinaryRanking
  | HardFailoverOverride
  | ProbeFallback
  | SoftRotationCurrentRetained
  | NoCandidateDecision

datatype quota_block_class =
    NotBlocked bool
  | PredictedBlocked
  | ProbeEligibleBlocked

datatype probe_outcome = ProbeOk | StillBlocked | Ambiguous

record rejected_candidate =
  rejected_account_id :: ustring
  reject_reason :: selection_reject_reason

record selection_plan =
  eligible_candidates :: "account_record list"
  probe_candidate :: "ustring option"
  rejected_candidates :: "rejected_candidate list"
  decision_reason :: selection_decision_reason
  terminal_action :: selection_action

section \<open>Configuration\<close>

record account_pool_config =
  default_pool_id :: "ustring option"
  proactive_switch_threshold_percent :: nat
  lease_ttl_secs :: "64 word"
  heartbeat_interval_secs :: "64 word"
  min_switch_interval_secs :: "64 word"

definition default_account_pool_config :: account_pool_config where
  "default_account_pool_config =
     \<lparr>default_pool_id = None, proactive_switch_threshold_percent = 85, lease_ttl_secs = 300,
      heartbeat_interval_secs = 60, min_switch_interval_secs = 0\<rparr>"

definition saturating_double :: "64 word \<Rightarrow> 64 word" where
  "saturating_double w = (if unat w * 2 < 2 ^ 64 then w * 2 else - 1)"

definition derived_pre_turn_safety_margin :: "account_pool_config \<Rightarrow> time_span option" where
  "derived_pre_turn_safety_margin c = duration_seconds (sint (saturating_double (heartbeat_interval_secs c)))"

definition lease_ttl_duration :: "account_pool_config \<Rightarrow> time_span option" where
  "lease_ttl_duration c = duration_seconds (sint (lease_ttl_secs c))"

definition min_switch_interval_duration :: "account_pool_config \<Rightarrow> time_span option" where
  "min_switch_interval_duration c = duration_seconds (sint (min_switch_interval_secs c))"

text \<open>\<open>None\<close>: the validation panics on a margin that is no \<open>Duration\<close>.\<close>

definition validate_config :: "account_pool_config \<Rightarrow> (ustring + unit) option" where
  "validate_config c =
     (if lease_ttl_secs c \<le> heartbeat_interval_secs c then
        Some (Inl (lit ''accounts.lease_ttl_secs must be greater than accounts.heartbeat_interval_secs''))
      else (case derived_pre_turn_safety_margin c of
              None \<Rightarrow> None
            | Some margin \<Rightarrow>
                if num_seconds margin \<ge> sint (lease_ttl_secs c) then
                  Some (Inl (lit ''derived account lease safety margin must be less than accounts.lease_ttl_secs''))
                else Some (Inr ())))"

section \<open>Proactive switching\<close>

record proactive_observation =
  lease_acquired_at :: instant
  pressure_observed_at :: instant
  min_switch_interval :: time_span

datatype proactive_outcome =
    NoAction
  | Suppressed instant
  | RotateOnNextTurn

datatype proactive_turn_decision = KeepCurrentLease | RotateAwayFromActive

record proactive_snapshot =
  pressure_pending :: bool
  pressure_suppressed :: bool
  pressure_allowed_at :: "instant option"

text \<open>The state: until when soft pressure has to wait.\<close>

type_synonym proactive_state = "instant option"

definition proactive_reset :: "proactive_state \<Rightarrow> proactive_state" where
  "proactive_reset s = None"

definition observe_soft_pressure ::
  "proactive_state \<Rightarrow> proactive_observation \<Rightarrow> proactive_outcome \<times> proactive_state" where
  "observe_soft_pressure s ob =
     (if min_switch_interval ob < 0 then (NoAction, s)
      else if pressure_observed_at ob < lease_acquired_at ob then (NoAction, s)
      else let allowed_at = lease_acquired_at ob + min_switch_interval ob
           in if pressure_observed_at ob \<ge> allowed_at then (RotateOnNextTurn, None)
              else (Suppressed allowed_at, Some allowed_at))"

definition revalidate_before_turn :: "proactive_state \<Rightarrow> instant \<Rightarrow> proactive_turn_decision \<times> proactive_state" where
  "revalidate_before_turn s now =
     (KeepCurrentLease,
      (case s of Some allowed_at \<Rightarrow> if allowed_at \<le> now then None else s | None \<Rightarrow> s))"

definition proactive_snapshot_of :: "proactive_state \<Rightarrow> instant \<Rightarrow> proactive_snapshot \<times> proactive_state" where
  "proactive_snapshot_of s now =
     (case s of
        None \<Rightarrow> (\<lparr>pressure_pending = False, pressure_suppressed = False, pressure_allowed_at = None\<rparr>, s)
      | Some allowed_at \<Rightarrow>
          if now \<ge> allowed_at
          then (\<lparr>pressure_pending = False, pressure_suppressed = False, pressure_allowed_at = None\<rparr>, None)
          else (\<lparr>pressure_pending = True, pressure_suppressed = True, pressure_allowed_at = Some allowed_at\<rparr>, s))"

section \<open>Facts\<close>

lemma health_reads_back [simp]: "health_try_from (health_as_str h) = Inr h"
  by (cases h) (simp_all add: health_try_from_def)

lemma windows_reads_back [simp]: "windows_try_from (windows_as_str w) = Inr w"
  by (cases w) (simp_all add: windows_try_from_def)

lemma probe_result_reads_back [simp]: "probe_result_try_from (probe_result_as_str r) = Inr r"
  by (cases r) (simp_all add: probe_result_try_from_def)

lemma num_seconds_of_seconds [simp]: "num_seconds (s * nanos_per_sec) = s"
  by (auto simp: num_seconds_def nanos_per_sec_def sgn_mult abs_mult sgn_if)

lemma default_config_valid: "validate_config default_account_pool_config = Some (Inr ())"
  by (simp add: validate_config_def default_account_pool_config_def derived_pre_turn_safety_margin_def
      saturating_double_def duration_seconds_def i64_max_def num_seconds_def nanos_per_sec_def)

text \<open>
  The margin a lease is renewed ahead of is a real margin: when a configuration is
  accepted and its lease time is one that a duration can hold, renewal starts twice the
  heartbeat before the lease ends, neither in the past nor as early as the lease begins, and
  nothing on the way wraps around or panics.
\<close>

theorem validated_margin_below_ttl:
  assumes valid: "validate_config c = Some (Inr ())" and "uint (lease_ttl_secs c) \<le> i64_max div 1000"
  shows "\<exists>margin ttl. derived_pre_turn_safety_margin c = Some margin \<and> lease_ttl_duration c = Some ttl \<and>
    margin = 2 * uint (heartbeat_interval_secs c) * nanos_per_sec \<and>
    ttl = uint (lease_ttl_secs c) * nanos_per_sec \<and> 0 \<le> margin \<and> margin < ttl"
proof -
  let ?h = "heartbeat_interval_secs c" and ?t = "lease_ttl_secs c"
  have less: "uint ?h < uint ?t"
    using valid by (auto simp: validate_config_def word_less_def not_le split: if_splits)
  have bound: "uint ?t < 2 ^ 62" using assms(2) by (simp add: i64_max_def)
  have small: "sint w = uint w" if "uint w < 2 ^ 63" for w :: "64 word"
  proof -
    have "- (2 ^ 63) \<le> uint w" by (rule order_trans [of _ 0]) simp_all
    with that signed_take_bit_int_eq_self [of 63 "uint w"] show ?thesis by (simp add: sint_uint)
  qed
  have twice: "uint (saturating_double ?h) = 2 * uint ?h"
  proof -
    have "int (unat ?h) = uint ?h" by simp
    with less bound have "int (unat ?h * 2) < int (2 ^ 64)" by simp
    then have "unat ?h * 2 < 2 ^ 64" by (simp only: of_nat_less_iff)
    then have "saturating_double ?h = ?h * 2" by (simp add: saturating_double_def)
    then show ?thesis using less bound by (simp add: uint_word_arith_bintrs(3) take_bit_int_eq_self)
  qed
  have m: "sint (saturating_double ?h) = 2 * uint ?h" and t: "sint ?t = uint ?t"
    using small [of "saturating_double ?h"] small [of ?t] twice less bound by simp_all
  have ttl: "lease_ttl_duration c = Some (uint ?t * nanos_per_sec)"
    using assms(2) by (simp add: lease_ttl_duration_def duration_seconds_def t)
  from valid obtain margin where margin: "derived_pre_turn_safety_margin c = Some margin"
    and below: "num_seconds margin < sint ?t"
    by (auto simp: validate_config_def split: if_splits option.splits)
  then have eq: "margin = 2 * uint ?h * nanos_per_sec"
    by (auto simp: derived_pre_turn_safety_margin_def duration_seconds_def m split: if_splits)
  with below have "2 * uint ?h < uint ?t" by (simp add: t)
  with eq margin ttl show ?thesis by (auto simp: nanos_per_sec_def)
qed

lemma validated_margin_below_ttl_witness:
  "\<exists>margin ttl. derived_pre_turn_safety_margin default_account_pool_config = Some margin \<and>
    lease_ttl_duration default_account_pool_config = Some ttl \<and>
    margin = 120 * nanos_per_sec \<and> ttl = 300 * nanos_per_sec \<and> 0 \<le> margin \<and> margin < ttl"
proof -
  note default_config_valid
  moreover have "uint (lease_ttl_secs default_account_pool_config) = 300"
    "uint (heartbeat_interval_secs default_account_pool_config) = 60"
    by (simp_all add: default_account_pool_config_def)
  ultimately show ?thesis
    using validated_margin_below_ttl [of default_account_pool_config] by (simp add: i64_max_def)
qed

end
