(* ===== verification/QuotaSelection.thy ===== *)
theory QuotaSelection
  imports AccountTypes
begin

text \<open>
  Which account a pool offers (\<open>account-pool/src/{quota_selection,policy}.rs\<close>): candidates are
  rejected for hard reasons, classified by their quota, ranked, and one action comes out.
  \<open>slice::sort_by\<close> is a stable sort; it is written as an insertion sort, which gives the same
  list for a comparison that is a total preorder (no percentage is NaN).
\<close>

section \<open>Sorting and maxima\<close>

fun insert_by :: "('a \<Rightarrow> 'a \<Rightarrow> ordering) \<Rightarrow> 'a \<Rightarrow> 'a list \<Rightarrow> 'a list" where
  "insert_by c x [] = [x]"
| "insert_by c x (y # ys) = (if c x y = Greater then y # insert_by c x ys else x # y # ys)"

fun sort_by :: "('a \<Rightarrow> 'a \<Rightarrow> ordering) \<Rightarrow> 'a list \<Rightarrow> 'a list" where
  "sort_by c [] = []"
| "sort_by c (x # xs) = insert_by c x (sort_by c xs)"

text \<open>\<open>Iterator::max_by\<close>: the last of the greatest elements.\<close>

fun max_by_from :: "('a \<Rightarrow> 'a \<Rightarrow> ordering) \<Rightarrow> 'a \<Rightarrow> 'a list \<Rightarrow> 'a" where
  "max_by_from c m [] = m"
| "max_by_from c m (x # xs) = max_by_from c (if c m x = Greater then m else x) xs"

definition max_by :: "('a \<Rightarrow> 'a \<Rightarrow> ordering) \<Rightarrow> 'a list \<Rightarrow> 'a option" where
  "max_by c xs = (case xs of [] \<Rightarrow> None | x # rest \<Rightarrow> Some (max_by_from c x rest))"

section \<open>Classification\<close>

definition is_low_confidence :: "quota_state \<Rightarrow> bool" where
  "is_low_confidence row \<longleftrightarrow>
     primary_used_percent row = None \<or> primary_resets_at row = None \<or>
     secondary_used_percent row = None \<or> secondary_resets_at row = None"

definition low_confidence :: "quota_state option \<Rightarrow> bool" where
  "low_confidence row = (case row of None \<Rightarrow> True | Some r \<Rightarrow> is_low_confidence r)"

definition primary_used :: "quota_state option \<Rightarrow> f64" where
  "primary_used row = (case Option.bind row primary_used_percent of Some p \<Rightarrow> p | None \<Rightarrow> Finite 100)"

definition primary_safety_margin :: "quota_state option \<Rightarrow> f64" where
  "primary_safety_margin row = hundred_minus (primary_used row)"

definition secondary_safety_margin :: "quota_state option \<Rightarrow> f64" where
  "secondary_safety_margin row =
     hundred_minus (case Option.bind row secondary_used_percent of Some p \<Rightarrow> p | None \<Rightarrow> Finite 100)"

definition primary_reset :: "quota_state option \<Rightarrow> instant option" where
  "primary_reset row = Option.bind row primary_resets_at"

definition hard_reject_reason ::
  "selection_request \<Rightarrow> account_record \<Rightarrow> selection_reject_reason option" where
  "hard_reject_reason request candidate =
     (if \<not> enabled candidate then Some DisabledAccount
      else if \<not> selector_auth_eligible candidate then Some UnhealthyAccount
      else if leased_to_other_holder candidate then Some LeasedToOtherHolder
      else if is_probe_recovery (intent request) then
        (if reserved_probe_target_account_id request \<noteq> Some (account_id candidate)
         then Some ProbeTargetOnly else None)
      else if current_account_id request = Some (account_id candidate) then Some CurrentAccount
      else if \<not> allows_just_replaced_reuse (intent request) \<and>
          just_replaced_account_id request = Some (account_id candidate) then Some JustReplacedAccount
      else None)"

definition classify_candidate :: "account_record \<Rightarrow> ustring \<Rightarrow> instant \<Rightarrow> quota_block_class" where
  "classify_candidate candidate selection_family now =
     (case effective_quota (quota candidate) selection_family of
        None \<Rightarrow> NotBlocked True
      | Some row \<Rightarrow>
          if is_exhausted (exhausted_windows row) then
            (if (case next_probe_after row of None \<Rightarrow> True | Some t \<Rightarrow> now \<ge> t)
             then ProbeEligibleBlocked else PredictedBlocked)
          else NotBlocked (is_low_confidence row))"

definition is_not_blocked :: "quota_block_class \<Rightarrow> bool" where
  "is_not_blocked c = (case c of NotBlocked _ \<Rightarrow> True | _ \<Rightarrow> False)"

section \<open>Ranking\<close>

definition compare_f64_desc :: "f64 \<Rightarrow> f64 \<Rightarrow> ordering" where
  "compare_f64_desc left right = (case partial_cmp right left of Some o1 \<Rightarrow> o1 | None \<Rightarrow> Equal)"

definition compare_reset_ascending :: "instant option \<Rightarrow> instant option \<Rightarrow> ordering" where
  "compare_reset_ascending left right =
     (case (left, right) of
        (Some l, Some r) \<Rightarrow> cmp l r
      | (Some _, None) \<Rightarrow> Less
      | (None, Some _) \<Rightarrow> Greater
      | (None, None) \<Rightarrow> Equal)"

definition compare_ordinary ::
  "selection_request \<Rightarrow> account_record \<Rightarrow> account_record \<Rightarrow> ordering" where
  "compare_ordinary request left right =
     (let family = request_selection_family request;
          threshold = Finite (of_nat (proactive_threshold_percent request));
          left_row = effective_quota (quota left) family;
          right_row = effective_quota (quota right) family
      in then_with (reverse_ordering
             (cmp (f64_less (primary_used left_row) threshold) (f64_less (primary_used right_row) threshold)))
        (then_with (compare_f64_desc (primary_safety_margin left_row) (primary_safety_margin right_row))
        (then_with (compare_f64_desc (secondary_safety_margin left_row) (secondary_safety_margin right_row))
        (then_with (compare_reset_ascending (primary_reset left_row) (primary_reset right_row))
        (then_with (cmp (low_confidence left_row) (low_confidence right_row))
        (then_with (cmp (pool_position left) (pool_position right))
           (cmp_text (account_id left) (account_id right))))))))"

definition probe_priority :: "quota_state \<Rightarrow> instant \<Rightarrow> int \<times> int \<times> int" where
  "probe_priority row now =
     ((case exhausted_windows row of
         PrimaryWindow \<Rightarrow> 3 | BothWindows \<Rightarrow> 2 | SecondaryWindow \<Rightarrow> 1
       | UnknownWindow \<Rightarrow> 0 | NoWindow \<Rightarrow> 0),
      (case next_probe_after row of Some t \<Rightarrow> max (num_seconds (now - t)) 0 | None \<Rightarrow> i64_max),
      (case predicted_blocked_until row of
         Some t \<Rightarrow> saturating_neg (num_seconds (t - now)) | None \<Rightarrow> i64_min))"

fun cmp_triple :: "int \<times> int \<times> int \<Rightarrow> int \<times> int \<times> int \<Rightarrow> ordering" where
  "cmp_triple (a, b, c) (x, y, z) = then_with (cmp a x) (then_with (cmp b y) (cmp c z))"

definition compare_probe_candidates ::
  "ustring \<Rightarrow> instant \<Rightarrow> account_record \<Rightarrow> account_record \<Rightarrow> ordering" where
  "compare_probe_candidates selection_family now left right =
     (case effective_quota (quota left) selection_family of
        None \<Rightarrow> Equal
      | Some left_row \<Rightarrow>
          (case effective_quota (quota right) selection_family of
             None \<Rightarrow> Equal
           | Some right_row \<Rightarrow>
               then_with (cmp_triple (probe_priority left_row now) (probe_priority right_row now))
              (then_with (reverse_ordering (cmp (pool_position left) (pool_position right)))
                 (cmp_text (account_id right) (account_id left)))))"

section \<open>The plan\<close>

record ranked_candidate =
  record_of :: account_record
  block_class :: quota_block_class

text \<open>The first loop: the admitted candidates and the rejected ones.\<close>

fun admit_loop ::
  "selection_request \<Rightarrow> ustring \<Rightarrow> instant \<Rightarrow> ranked_candidate list \<Rightarrow> rejected_candidate list
   \<Rightarrow> account_record list \<Rightarrow> ranked_candidate list \<times> rejected_candidate list" where
  "admit_loop request family now admitted rejected [] = (admitted, rejected)"
| "admit_loop request family now admitted rejected (c # cs) =
     (let candidate = (if pool_position c = 0
                       then c\<lparr>pool_position := length admitted + length rejected\<rparr> else c)
      in case hard_reject_reason request candidate of
           Some reason \<Rightarrow>
             admit_loop request family now admitted
               (rejected @ [\<lparr>rejected_account_id = account_id candidate, reject_reason = reason\<rparr>]) cs
         | None \<Rightarrow>
             (let cls = classify_candidate candidate family now
              in admit_loop request family now
                   (admitted @ [\<lparr>record_of = candidate, block_class = cls\<rparr>])
                   (if is_not_blocked cls then rejected
                    else rejected @ [\<lparr>rejected_account_id = account_id candidate,
                                      reject_reason = PredictedBlockedAccount\<rparr>]) cs))"

definition probe_recovery_rejections ::
  "ranked_candidate list \<Rightarrow> rejected_candidate list \<Rightarrow> rejected_candidate list" where
  "probe_recovery_rejections admitted rejected =
     foldl (\<lambda>rs c.
        if list_ex (\<lambda>r. rejected_account_id r = account_id (record_of c)) rs then rs
        else rs @ [\<lparr>rejected_account_id = account_id (record_of c),
                    reject_reason = (if block_class c = PredictedBlocked then PredictedBlockedAccount
                                     else ProbeTargetOnly)\<rparr>])
       rejected (filter (\<lambda>c. block_class c \<noteq> ProbeEligibleBlocked) admitted)"

definition finalize_probe_recovery ::
  "ranked_candidate list \<Rightarrow> rejected_candidate list \<Rightarrow> selection_plan" where
  "finalize_probe_recovery admitted rejected =
     (let probe = map_option (\<lambda>c. account_id (record_of c))
                    (find (\<lambda>c. block_class c = ProbeEligibleBlocked) admitted)
      in \<lparr>eligible_candidates = [], probe_candidate = probe,
          rejected_candidates = (if probe = None then probe_recovery_rejections admitted rejected else rejected),
          decision_reason = (if probe = None then NoCandidateDecision else ProbeFallback),
          terminal_action = (case probe of Some a \<Rightarrow> Probe a | None \<Rightarrow> NoCandidate)\<rparr>)"

definition evaluate_selection ::
  "instant \<Rightarrow> selection_request \<Rightarrow> account_record list \<Rightarrow> selection_plan" where
  "evaluate_selection utc_now request candidates =
     (let family = request_selection_family request;
          now = (case req_now request of Some t \<Rightarrow> t | None \<Rightarrow> utc_now);
          (admitted, rejected) = admit_loop request family now [] [] candidates
      in if is_probe_recovery (intent request) then finalize_probe_recovery admitted rejected
         else let eligible = sort_by (compare_ordinary request)
                    (map record_of (filter (\<lambda>c. is_not_blocked (block_class c)) admitted))
         in case (case preferred_account_id request of
                    None \<Rightarrow> None
                  | Some p \<Rightarrow> position (\<lambda>c. account_id c = p) eligible) of
              Some i \<Rightarrow>
                \<lparr>eligible_candidates = eligible ! i # remove_nth i eligible, probe_candidate = None,
                 rejected_candidates = rejected, decision_reason = OrdinaryRanking,
                 terminal_action = Select (account_id (eligible ! i))\<rparr>
            | None \<Rightarrow>
                (case eligible of
                   selected # _ \<Rightarrow>
                     \<lparr>eligible_candidates = eligible, probe_candidate = None,
                      rejected_candidates = rejected,
                      decision_reason =
                        (if allows_just_replaced_reuse (intent request) \<and>
                            just_replaced_account_id request = Some (account_id selected)
                         then HardFailoverOverride else OrdinaryRanking),
                      terminal_action = Select (account_id selected)\<rparr>
                 | [] \<Rightarrow>
                     (let probe = map_option account_id
                            (max_by (compare_probe_candidates family now)
                               (map record_of (filter (\<lambda>c. block_class c = ProbeEligibleBlocked) admitted)))
                      in \<lparr>eligible_candidates = [], probe_candidate = probe,
                          rejected_candidates = rejected,
                          decision_reason =
                            (case probe of Some _ \<Rightarrow> ProbeFallback
                             | None \<Rightarrow> if stays_on_current_when_exhausted (intent request)
                                       then SoftRotationCurrentRetained else NoCandidateDecision),
                          terminal_action =
                            (case probe of Some a \<Rightarrow> Probe a
                             | None \<Rightarrow> if stays_on_current_when_exhausted (intent request)
                                       then StayOnCurrent else NoCandidate)\<rparr>)))"

text \<open>The builder of a plan is the request with the candidates added so far.\<close>

record selection_plan_builder =
  builder_request :: selection_request
  builder_candidates :: "account_record list"

definition build_selection_plan :: "selection_request \<Rightarrow> selection_plan_builder" where
  "build_selection_plan request = \<lparr>builder_request = request, builder_candidates = []\<rparr>"

definition with_candidate :: "selection_plan_builder \<Rightarrow> account_record \<Rightarrow> selection_plan_builder" where
  "with_candidate b c = b\<lparr>builder_candidates := builder_candidates b @ [c]\<rparr>"

definition run_plan :: "instant \<Rightarrow> selection_plan_builder \<Rightarrow> selection_plan" where
  "run_plan utc_now b = evaluate_selection utc_now (builder_request b) (builder_candidates b)"

section \<open>The account at startup\<close>

definition place_account :: "nat \<Rightarrow> account_record \<Rightarrow> account_record" where
  "place_account i a = (if pool_position a = 0 then a\<lparr>pool_position := i\<rparr> else a)"

definition select_startup_account ::
  "instant \<Rightarrow> account_record list \<Rightarrow> selection_request \<Rightarrow> ustring + ustring" where
  "select_startup_account utc_now accounts request =
     (case accounts of
        [] \<Rightarrow> Inl (lit ''no accounts available'')
      | first # _ \<Rightarrow>
          if list_ex (\<lambda>a. acct_kind a \<noteq> acct_kind first) accounts
          then Inl (lit ''mixed account kinds are not supported'')
          else (case terminal_action (run_plan utc_now
                       (foldl with_candidate (build_selection_plan request)
                          (map (\<lambda>(i, a). place_account i a) (enumerate 0 accounts)))) of
                  Select a \<Rightarrow> Inr a
                | Probe a \<Rightarrow> Inr a
                | StayOnCurrent \<Rightarrow> Inr (account_id first)
                | NoCandidate \<Rightarrow> Inl (lit ''no candidate available'')))"

section \<open>Comparisons that rank\<close>

text \<open>
  What sorting relies on: on the elements of \<open>S\<close> the comparison is antisymmetric up to
  \<open>Equal\<close> and transitive.
\<close>

definition ranks :: "('a \<Rightarrow> 'a \<Rightarrow> ordering) \<Rightarrow> 'a set \<Rightarrow> bool" where
  "ranks c S \<longleftrightarrow>
     (\<forall>x \<in> S. \<forall>y \<in> S. c y x = reverse_ordering (c x y)) \<and>
     (\<forall>x \<in> S. \<forall>y \<in> S. \<forall>z \<in> S. c x y \<noteq> Greater \<longrightarrow> c y z \<noteq> Greater \<longrightarrow> c x z \<noteq> Greater)"

lemma set_insert_by [simp]: "set (insert_by c x ys) = insert x (set ys)"
  by (induction ys) auto

lemma set_sort_by [simp]: "set (sort_by c xs) = set xs"
  by (induction xs) auto

locale ranking =
  fixes c :: "'a \<Rightarrow> 'a \<Rightarrow> ordering"
    and S :: "'a set"
  assumes flip: "x \<in> S \<Longrightarrow> y \<in> S \<Longrightarrow> c y x = reverse_ordering (c x y)"
    and not_after_trans: "x \<in> S \<Longrightarrow> y \<in> S \<Longrightarrow> z \<in> S \<Longrightarrow> c x y \<noteq> Greater \<Longrightarrow> c y z \<noteq> Greater \<Longrightarrow> c x z \<noteq> Greater"
begin

lemma insert_by_sorted:
  "set ys \<subseteq> S \<Longrightarrow> x \<in> S \<Longrightarrow> sorted_wrt (\<lambda>a b. c a b \<noteq> Greater) ys \<Longrightarrow>
   sorted_wrt (\<lambda>a b. c a b \<noteq> Greater) (insert_by c x ys)"
proof (induction ys)
  case (Cons y ys)
  then have IH: "sorted_wrt (\<lambda>a b. c a b \<noteq> Greater) (insert_by c x ys)" by simp
  show ?case
  proof (cases "c x y = Greater")
    case True
    with Cons.prems flip [of x y] have "c y x \<noteq> Greater" by simp
    with True IH Cons.prems show ?thesis by auto
  next
    case False
    with Cons.prems not_after_trans [of x y] show ?thesis by auto
  qed
qed simp

lemma sort_by_sorted: "set xs \<subseteq> S \<Longrightarrow> sorted_wrt (\<lambda>a b. c a b \<noteq> Greater) (sort_by c xs)"
  by (induction xs) (auto intro!: insert_by_sorted)

lemma sort_by_head: "set xs \<subseteq> S \<Longrightarrow> sort_by c xs = m # ms \<Longrightarrow> x \<in> set xs \<Longrightarrow> x \<noteq> m \<Longrightarrow> c m x \<noteq> Greater"
  using sort_by_sorted [of xs] set_sort_by [of c xs] by auto

lemma max_by_from_greatest:
  "set xs \<subseteq> S \<Longrightarrow> m \<in> S \<Longrightarrow>
   max_by_from c m xs \<in> insert m (set xs) \<and> (\<forall>x \<in> insert m (set xs). c x (max_by_from c m xs) \<noteq> Greater)"
proof (induction xs arbitrary: m)
  case Nil
  have "c m m = reverse_ordering (c m m)" using Nil.prems flip by blast
  then show ?case by (cases "c m m") auto
next
  case (Cons x xs)
  let ?m = "if c m x = Greater then m else x"
  have m: "?m \<in> S" using Cons.prems by simp
  from Cons.IH [OF _ m] Cons.prems have IH: "max_by_from c ?m xs \<in> insert ?m (set xs)"
    "\<forall>y \<in> insert ?m (set xs). c y (max_by_from c ?m xs) \<noteq> Greater" by auto
  then have in_S: "max_by_from c ?m xs \<in> S" using Cons.prems m by auto
  have x: "x \<in> S" using Cons.prems by simp
  have refl: "c a a \<noteq> Greater" if "a \<in> S" for a using flip [OF that that] by (cases "c a a") simp_all
  have "c m ?m \<noteq> Greater \<and> c x ?m \<noteq> Greater"
  proof (cases "c m x = Greater")
    case True
    with flip [OF \<open>m \<in> S\<close> x] refl [OF \<open>m \<in> S\<close>] show ?thesis by simp
  next
    case False
    with refl [OF x] show ?thesis by simp
  qed
  then have "c m ?m \<noteq> Greater" "c x ?m \<noteq> Greater" by blast+
  with not_after_trans [of _ ?m "max_by_from c ?m xs"] IH(2) in_S m Cons.prems
  have "c m (max_by_from c ?m xs) \<noteq> Greater" "c x (max_by_from c ?m xs) \<noteq> Greater" by auto
  with IH show ?case by auto
qed

end

lemma ranking_iff: "ranking c S \<longleftrightarrow> ranks c S"
  unfolding ranking_def ranks_def by blast

lemma ranks_flip: "ranks c S \<Longrightarrow> x \<in> S \<Longrightarrow> y \<in> S \<Longrightarrow> c y x = reverse_ordering (c x y)"
  unfolding ranks_def by blast

lemma ranks_trans:
  "ranks c S \<Longrightarrow> x \<in> S \<Longrightarrow> y \<in> S \<Longrightarrow> z \<in> S \<Longrightarrow> c x y \<noteq> Greater \<Longrightarrow> c y z \<noteq> Greater \<Longrightarrow> c x z \<noteq> Greater"
  unfolding ranks_def by blast

text \<open>Comparisons are put together from comparisons of keys, in order of importance.\<close>

lemma reverse_eq_Greater [simp]: "reverse_ordering o1 = Greater \<longleftrightarrow> o1 = Less"
  by (cases o1) auto

lemma reverse_eq_Less [simp]: "reverse_ordering o1 = Less \<longleftrightarrow> o1 = Greater"
  by (cases o1) auto

lemma reverse_eq_Equal [simp]: "reverse_ordering o1 = Equal \<longleftrightarrow> o1 = Equal"
  by (cases o1) auto

lemma then_with_Greater: "then_with o1 o2 = Greater \<longleftrightarrow> o1 = Greater \<or> (o1 = Equal \<and> o2 = Greater)"
  by (cases o1) auto

lemma ranks_then_with:
  assumes "ranks c S" and "ranks d S"
  shows "ranks (\<lambda>x y. then_with (c x y) (d x y)) S"
proof -
  note c = ranks_flip [OF assms(1)] ranks_flip [OF assms(2)]
    and t = ranks_trans [OF assms(1)] and td = ranks_trans [OF assms(2)]
  show ?thesis
    unfolding ranks_def
  proof (intro conjI ballI impI)
    fix x y assume "x \<in> S" "y \<in> S"
    from c(1) [OF this] c(2) [OF this]
    show "then_with (c y x) (d y x) = reverse_ordering (then_with (c x y) (d x y))"
      by (cases "c x y") simp_all
  next
    fix x y z
    assume S: "x \<in> S" "y \<in> S" "z \<in> S"
      and xy: "then_with (c x y) (d x y) \<noteq> Greater" and yz: "then_with (c y z) (d y z) \<noteq> Greater"
    from xy yz have nxy: "c x y \<noteq> Greater" and nyz: "c y z \<noteq> Greater" by (auto simp: then_with_Greater)
    have nxz: "c x z \<noteq> Greater" by (rule t [OF S nxy nyz])
    have "d x z \<noteq> Greater" if e: "c x z = Equal"
    proof -
      from c(1) [OF S(1,3)] e have zx: "c z x \<noteq> Greater" by simp
      have "c y x \<noteq> Greater" by (rule t [OF S(2,3,1) nyz zx])
      with c(1) [OF S(1,2)] nxy have "c x y = Equal" by (cases "c x y") simp_all
      moreover have "c z y \<noteq> Greater" by (rule t [OF S(3,1,2) zx nxy])
      with c(1) [OF S(2,3)] nyz have "c y z = Equal" by (cases "c y z") simp_all
      ultimately show ?thesis using xy yz td [OF S] by simp
    qed
    with nxz show "then_with (c x z) (d x z) \<noteq> Greater" by (auto simp: then_with_Greater)
  qed
qed

lemma ranks_reverse: "ranks c S \<Longrightarrow> ranks (\<lambda>x y. reverse_ordering (c x y)) S"
proof -
  assume r: "ranks c S"
  note c = ranks_flip [OF r]
  show ?thesis
    unfolding ranks_def
  proof (intro conjI ballI impI)
    fix x y assume "x \<in> S" "y \<in> S"
    from c [OF this] show "reverse_ordering (c y x) = reverse_ordering (reverse_ordering (c x y))" by simp
  next
    fix x y z assume S: "x \<in> S" "y \<in> S" "z \<in> S"
      and "reverse_ordering (c x y) \<noteq> Greater" "reverse_ordering (c y z) \<noteq> Greater"
    then have "c z y \<noteq> Greater" "c y x \<noteq> Greater" using c [OF S(1,2)] c [OF S(2,3)] by simp_all
    from ranks_trans [OF r S(3,2,1) this] c [OF S(1,3)] show "reverse_ordering (c x z) \<noteq> Greater" by simp
  qed
qed

lemma ranks_cmp: "ranks (\<lambda>x y. cmp (f x) (f y)) S"
  by (auto simp: ranks_def cmp_def)

lemma cmp_text_flip: "cmp_text y x = reverse_ordering (cmp_text x y)"
  by (induction x y rule: cmp_text.induct) (auto simp: cmp_def)

lemma cmp_text_Equal: "cmp_text x y = Equal \<longleftrightarrow> x = y"
  by (induction x y rule: cmp_text.induct) (auto simp: cmp_def)

lemma cmp_text_trans: "cmp_text x y \<noteq> Greater \<Longrightarrow> cmp_text y z \<noteq> Greater \<Longrightarrow> cmp_text x z \<noteq> Greater"
proof (induction x y arbitrary: z rule: cmp_text.induct)
  case (4 x xs y ys)
  then show ?case by (cases z) (auto simp: cmp_def split: if_splits)
qed (case_tac z, auto)+

lemma ranks_cmp_text: "ranks (\<lambda>x y. cmp_text (f x) (f y)) S"
  unfolding ranks_def using cmp_text_flip cmp_text_trans by blast

lemma f64_less_trans: "f64_less x y \<Longrightarrow> f64_less y z \<Longrightarrow> f64_less x z"
  by (cases x; cases y; cases z) auto

lemma f64_less_total: "x \<noteq> NaN \<Longrightarrow> y \<noteq> NaN \<Longrightarrow> f64_less x y \<or> x = y \<or> f64_less y x"
  by (cases x; cases y) auto

lemma f64_less_irrefl [simp]: "\<not> f64_less x x"
  by (cases x) auto

lemma ranks_f64_desc:
  assumes "\<And>x. x \<in> S \<Longrightarrow> f x \<noteq> NaN"
  shows "ranks (\<lambda>x y. compare_f64_desc (f x) (f y)) S"
proof -
  have asym: "f64_less x y \<Longrightarrow> \<not> f64_less y x" for x y
    using f64_less_trans f64_less_irrefl by blast
  have desc: "compare_f64_desc (f x) (f y) \<noteq> Greater \<longleftrightarrow> \<not> f64_less (f x) (f y)" if "x \<in> S" "y \<in> S" for x y
    using assms that f64_less_total [of "f x" "f y"] asym
    by (auto simp: compare_f64_desc_def partial_cmp_def)
  show ?thesis
    unfolding ranks_def
  proof (intro conjI ballI impI)
    fix x y assume "x \<in> S" "y \<in> S"
    with assms f64_less_total [of "f x" "f y"] asym
    show "compare_f64_desc (f y) (f x) = reverse_ordering (compare_f64_desc (f x) (f y))"
      by (auto simp: compare_f64_desc_def partial_cmp_def)
  next
    fix x y z assume S: "x \<in> S" "y \<in> S" "z \<in> S"
      and "compare_f64_desc (f x) (f y) \<noteq> Greater" "compare_f64_desc (f y) (f z) \<noteq> Greater"
    with desc have "\<not> f64_less (f x) (f y)" "\<not> f64_less (f y) (f z)" by auto
    then have "\<not> f64_less (f x) (f z)"
      using assms S f64_less_total f64_less_trans by metis
    with desc S show "compare_f64_desc (f x) (f z) \<noteq> Greater" by blast
  qed
qed

lemma ranks_reset: "ranks (\<lambda>x y. compare_reset_ascending (f x) (f y)) S"
  unfolding ranks_def compare_reset_ascending_def cmp_def by (auto split: option.splits)

text \<open>Percentages that are numbers.\<close>

definition numeric_quota :: "ustring \<Rightarrow> account_record \<Rightarrow> bool" where
  "numeric_quota family c \<longleftrightarrow>
     (case effective_quota (quota c) family of None \<Rightarrow> True
      | Some row \<Rightarrow> primary_used_percent row \<noteq> Some NaN \<and> secondary_used_percent row \<noteq> Some NaN)"

lemma hundred_minus_NaN [simp]: "hundred_minus x = NaN \<longleftrightarrow> x = NaN"
  by (cases x) auto

interpretation ordinary: ranking "compare_ordinary request" "{c. numeric_quota (request_selection_family request) c}"
  for request
  unfolding ranking_iff compare_ordinary_def Let_def
  by (intro ranks_then_with ranks_reverse ranks_f64_desc ranks_reset ranks_cmp_text ranks_cmp)
    (auto simp: numeric_quota_def primary_safety_margin_def secondary_safety_margin_def primary_used_def
       split: option.splits)

interpretation probes: ranking "compare_probe_candidates family now"
  "{c. effective_quota (quota c) family \<noteq> None}" for family now
proof -
  let ?S = "{c. effective_quota (quota c) family \<noteq> None}"
  let ?p = "\<lambda>c. probe_priority (the (effective_quota (quota c) family)) now"
  let ?c = "\<lambda>l r. then_with (then_with (cmp (fst (?p l)) (fst (?p r)))
      (then_with (cmp (fst (snd (?p l))) (fst (snd (?p r)))) (cmp (snd (snd (?p l))) (snd (snd (?p r))))))
      (then_with (reverse_ordering (cmp (pool_position l) (pool_position r)))
        (reverse_ordering (cmp_text (account_id l) (account_id r))))"
  have "ranks ?c ?S" by (intro ranks_then_with ranks_reverse ranks_cmp ranks_cmp_text)
  moreover have "compare_probe_candidates family now l r = ?c l r" if "l \<in> ?S" "r \<in> ?S" for l r
  proof -
    have t: "cmp_triple a b = then_with (cmp (fst a) (fst b))
        (then_with (cmp (fst (snd a)) (fst (snd b))) (cmp (snd (snd a)) (snd (snd b))))" for a b
      by (cases a; cases b) simp
    from that obtain y z where "effective_quota (quota l) family = Some y" "effective_quota (quota r) family = Some z"
      by auto
    then show ?thesis
      by (simp add: compare_probe_candidates_def t cmp_text_flip [of "account_id r" "account_id l"])
  qed
  ultimately show "ranking (compare_probe_candidates family now) ?S"
    unfolding ranking_iff ranks_def by auto
qed

section \<open>What a plan chooses\<close>

lemma position_checks [simp]:
  "hard_reject_reason request (c\<lparr>pool_position := n\<rparr>) = hard_reject_reason request c"
  "classify_candidate (c\<lparr>pool_position := n\<rparr>) family now = classify_candidate c family now"
  by (simp_all add: hard_reject_reason_def classify_candidate_def)

lemma admit_loop_placed:
  assumes "admit_loop request family now admitted rejected cs = (adm, rej)"
    and "\<forall>c \<in> set cs. pool_position c \<noteq> 0"
  shows "adm = admitted @ map (\<lambda>c. \<lparr>record_of = c, block_class = classify_candidate c family now\<rparr>)
         (filter (\<lambda>c. hard_reject_reason request c = None) cs)"
  using assms
proof (induction cs arbitrary: admitted rejected)
  case (Cons c cs)
  then show ?case by (auto simp: Let_def split: option.splits if_splits dest!: Cons.IH)
qed simp

lemma admit_loop_admitted:
  assumes "admit_loop request family now [] [] cs = (adm, rej)" and "\<forall>c \<in> set (tl cs). pool_position c \<noteq> 0"
  shows "adm = map (\<lambda>c. \<lparr>record_of = c, block_class = classify_candidate c family now\<rparr>)
         (filter (\<lambda>c. hard_reject_reason request c = None) cs)"
proof (cases cs)
  case (Cons c rest)
  with assms show ?thesis
    by (auto simp: Let_def dest!: admit_loop_placed split: option.splits if_splits)
qed (use assms in simp)

definition rejection_of :: "selection_request \<Rightarrow> ustring \<Rightarrow> instant \<Rightarrow> account_record \<Rightarrow> rejected_candidate list" where
  "rejection_of request family now c =
     (case hard_reject_reason request c of
        Some reason \<Rightarrow> [\<lparr>rejected_account_id = account_id c, reject_reason = reason\<rparr>]
      | None \<Rightarrow> if is_not_blocked (classify_candidate c family now) then []
                else [\<lparr>rejected_account_id = account_id c, reject_reason = PredictedBlockedAccount\<rparr>])"

lemma admit_loop_rejected:
  assumes "admit_loop request family now admitted rejected cs = (adm, rej)"
  shows "rej = rejected @ concat (map (rejection_of request family now) cs)"
  using assms
proof (induction cs arbitrary: admitted rejected)
  case (Cons c cs)
  then show ?case
    by (auto simp: Let_def rejection_of_def split: option.splits if_splits dest!: Cons.IH)
qed simp

text \<open>
  The accounts that may be leased for a request, those that may be probed, and what a
  plan is to choose: the preferred account when it may be leased, else one that no other
  precedes, else the most promising probe, else nothing.
\<close>

definition usable :: "instant \<Rightarrow> selection_request \<Rightarrow> account_record \<Rightarrow> bool" where
  "usable now request c \<longleftrightarrow>
     hard_reject_reason request c = None \<and>
     is_not_blocked (classify_candidate c (request_selection_family request) now)"

definition probeable :: "instant \<Rightarrow> selection_request \<Rightarrow> account_record \<Rightarrow> bool" where
  "probeable now request c \<longleftrightarrow>
     hard_reject_reason request c = None \<and>
     classify_candidate c (request_selection_family request) now = ProbeEligibleBlocked"

definition best_usable :: "instant \<Rightarrow> selection_request \<Rightarrow> account_record list \<Rightarrow> account_record \<Rightarrow> bool" where
  "best_usable now request cs c \<longleftrightarrow>
     c \<in> set cs \<and> usable now request c \<and>
     (if \<exists>d \<in> set cs. usable now request d \<and> preferred_account_id request = Some (account_id d)
      then preferred_account_id request = Some (account_id c)
      else \<forall>d \<in> set cs. usable now request d \<longrightarrow> d = c \<or> compare_ordinary request c d \<noteq> Greater)"

definition best_probe :: "instant \<Rightarrow> selection_request \<Rightarrow> account_record list \<Rightarrow> account_record \<Rightarrow> bool" where
  "best_probe now request cs c \<longleftrightarrow>
     c \<in> set cs \<and> probeable now request c \<and>
     (is_probe_recovery (intent request) \<or>
      (\<forall>d \<in> set cs. probeable now request d \<longrightarrow>
         compare_probe_candidates (request_selection_family request) now d c \<noteq> Greater))"

definition selection_spec ::
  "instant \<Rightarrow> selection_request \<Rightarrow> account_record list \<Rightarrow> selection_action \<Rightarrow> bool" where
  "selection_spec now request cs action =
     (case action of
        Select a \<Rightarrow> \<not> is_probe_recovery (intent request) \<and>
          (\<exists>c. account_id c = a \<and> best_usable now request cs c)
      | Probe a \<Rightarrow>
          (is_probe_recovery (intent request) \<or> (\<forall>c \<in> set cs. \<not> usable now request c)) \<and>
          (\<exists>c. account_id c = a \<and> best_probe now request cs c)
      | StayOnCurrent \<Rightarrow> intent request = SoftRotation \<and>
          (\<forall>c \<in> set cs. \<not> usable now request c \<and> \<not> probeable now request c)
      | NoCandidate \<Rightarrow> intent request \<noteq> SoftRotation \<and>
          (\<forall>c \<in> set cs. \<not> probeable now request c \<and>
             (is_probe_recovery (intent request) \<or> \<not> usable now request c)))"

lemma find_block:
  "find P (map f cs) = map_option f (find (P \<circ> f) cs)"
  by (induction cs) auto

lemma max_by_Some:
  assumes "ranking cf S" and "set xs \<subseteq> S" and "max_by cf xs = Some m"
  shows "m \<in> set xs \<and> (\<forall>x \<in> set xs. cf x m \<noteq> Greater)"
proof (cases xs)
  case (Cons x rest)
  with assms ranking.max_by_from_greatest [OF assms(1), of rest x] show ?thesis by (auto simp: max_by_def)
qed (use assms in \<open>simp add: max_by_def\<close>)

lemma max_by_None: "max_by cf xs = None \<longleftrightarrow> xs = []"
  by (cases xs) (auto simp: max_by_def)

definition eligible_of :: "instant \<Rightarrow> selection_request \<Rightarrow> account_record list \<Rightarrow> account_record list" where
  "eligible_of now request cs = sort_by (compare_ordinary request) (filter (usable now request) cs)"

lemma eligible_head:
  assumes "\<forall>c \<in> set cs. numeric_quota (request_selection_family request) c"
    and "eligible_of now request cs = m # ms" and "d \<in> set cs" and "usable now request d" and "d \<noteq> m"
  shows "compare_ordinary request m d \<noteq> Greater"
proof (rule ordinary.sort_by_head [of "filter (usable now request) cs"])
  show "set (filter (usable now request) cs) \<subseteq> {c. numeric_quota (request_selection_family request) c}"
    using assms(1) by auto
qed (use assms in \<open>auto simp: eligible_of_def\<close>)

lemma set_eligible_of [simp]: "set (eligible_of now request cs) = {c \<in> set cs. usable now request c}"
  by (auto simp: eligible_of_def)

text \<open>The action of a plan, read off the code for candidates that keep their positions.\<close>

lemma placed_plan:
  fixes request cs utc_now
  assumes placed: "\<forall>c \<in> set (tl cs). pool_position c \<noteq> 0"
  defines "now \<equiv> (case req_now request of Some t \<Rightarrow> t | None \<Rightarrow> utc_now)"
  shows "is_probe_recovery (intent request) \<Longrightarrow>
      terminal_action (evaluate_selection utc_now request cs) =
        (case find (probeable now request) cs of Some c \<Rightarrow> Probe (account_id c) | None \<Rightarrow> NoCandidate)"
    and "\<not> is_probe_recovery (intent request) \<Longrightarrow>
      terminal_action (evaluate_selection utc_now request cs) =
        (case (case preferred_account_id request of None \<Rightarrow> None
               | Some p \<Rightarrow> position (\<lambda>c. account_id c = p) (eligible_of now request cs)) of
           Some i \<Rightarrow> Select (account_id (eligible_of now request cs ! i))
         | None \<Rightarrow> (case eligible_of now request cs of m # _ \<Rightarrow> Select (account_id m)
             | [] \<Rightarrow> (case max_by (compare_probe_candidates (request_selection_family request) now)
                         (filter (probeable now request) cs) of
                 Some c \<Rightarrow> Probe (account_id c)
               | None \<Rightarrow> if stays_on_current_when_exhausted (intent request) then StayOnCurrent else NoCandidate)))"
    and "\<not> is_probe_recovery (intent request) \<Longrightarrow>
      set (eligible_candidates (evaluate_selection utc_now request cs)) = {c \<in> set cs. usable now request c}"
    and "\<not> is_probe_recovery (intent request) \<Longrightarrow>
      rejected_candidates (evaluate_selection utc_now request cs) =
        concat (map (rejection_of request (request_selection_family request) now) cs)"
proof -
  let ?family = "request_selection_family request"
  let ?mk = "\<lambda>c. \<lparr>record_of = c, block_class = classify_candidate c ?family now\<rparr>"
  let ?ok = "filter (\<lambda>c. hard_reject_reason request c = None) cs"
  obtain adm rej where loop: "admit_loop request ?family now [] [] cs = (adm, rej)" by fastforce
  from admit_loop_admitted [OF loop placed] have adm: "adm = map ?mk ?ok" .
  from admit_loop_rejected [OF loop] have rej: "rej = concat (map (rejection_of request ?family now) cs)" by simp
  have eligible: "sort_by (compare_ordinary request) (map record_of (filter (\<lambda>c. is_not_blocked (block_class c)) adm))
      = eligible_of now request cs"
    by (simp add: adm eligible_of_def usable_def [abs_def] filter_map comp_def)
  have probes: "map record_of (filter (\<lambda>c. block_class c = ProbeEligibleBlocked) adm)
      = filter (probeable now request) cs"
    by (simp add: adm probeable_def [abs_def] filter_map comp_def)
  have found: "find (\<lambda>c. block_class c = ProbeEligibleBlocked) adm = map_option ?mk (find (probeable now request) cs)"
    unfolding adm find_block by (induction cs) (auto simp: probeable_def)
  note unfolded = evaluate_selection_def now_def [symmetric] loop Let_def
  show "is_probe_recovery (intent request) \<Longrightarrow>
      terminal_action (evaluate_selection utc_now request cs) =
        (case find (probeable now request) cs of Some c \<Rightarrow> Probe (account_id c) | None \<Rightarrow> NoCandidate)"
    by (simp add: unfolded finalize_probe_recovery_def found split: option.split)
  assume ordinary: "\<not> is_probe_recovery (intent request)"
  let ?pref = "case preferred_account_id request of None \<Rightarrow> None
      | Some p \<Rightarrow> position (\<lambda>c. account_id c = p) (eligible_of now request cs)"
  show "terminal_action (evaluate_selection utc_now request cs) =
      (case ?pref of Some i \<Rightarrow> Select (account_id (eligible_of now request cs ! i))
       | None \<Rightarrow> (case eligible_of now request cs of m # _ \<Rightarrow> Select (account_id m)
           | [] \<Rightarrow> (case max_by (compare_probe_candidates ?family now) (filter (probeable now request) cs) of
               Some c \<Rightarrow> Probe (account_id c)
             | None \<Rightarrow> if stays_on_current_when_exhausted (intent request) then StayOnCurrent else NoCandidate)))"
    using ordinary by (simp add: unfolded eligible probes split: option.split list.split)
  have pref: "set (eligible_of now request cs ! i # remove_nth i (eligible_of now request cs)) = set (eligible_of now request cs)"
    if "?pref = Some i" for i
  proof -
    from that have i: "i < length (eligible_of now request cs)" by (auto split: option.splits dest: position_Some)
    then have "set (eligible_of now request cs) =
        set (take i (eligible_of now request cs) @ eligible_of now request cs ! i # drop (Suc i) (eligible_of now request cs))"
      by (simp only: id_take_nth_drop [OF i, symmetric])
    then show ?thesis by (simp add: remove_nth_def)
  qed
  show "set (eligible_candidates (evaluate_selection utc_now request cs)) = {c \<in> set cs. usable now request c}"
    using ordinary pref by (simp add: unfolded eligible probes set_eligible_of [symmetric] del: set_eligible_of
        split: option.split list.split)
  show "rejected_candidates (evaluate_selection utc_now request cs) =
      concat (map (rejection_of request ?family now) cs)"
    using ordinary by (simp add: unfolded eligible probes rej split: option.split list.split)
qed

lemma selected_usable:
  fixes request utc_now
  defines "now \<equiv> (case req_now request of Some t \<Rightarrow> t | None \<Rightarrow> utc_now)"
  assumes "\<forall>c \<in> set (tl cs). pool_position c \<noteq> 0"
    and "terminal_action (evaluate_selection utc_now request cs) = Select a"
  obtains c where "c \<in> set cs" and "account_id c = a" and "usable now request c"
    and "\<not> is_probe_recovery (intent request)"
proof (cases "is_probe_recovery (intent request)")
  case True
  with placed_plan(1) [OF assms(2) True, of utc_now] assms(3) show ?thesis by (simp split: option.splits)
next
  case False
  let ?el = "eligible_of now request cs"
  let ?pref = "case preferred_account_id request of None \<Rightarrow> None
      | Some p \<Rightarrow> position (\<lambda>c. account_id c = p) ?el"
  note action = placed_plan(2) [OF assms(2) False, of utc_now, folded now_def] assms(3)
  have "\<exists>c \<in> set ?el. account_id c = a"
  proof (cases ?pref)
    case (Some i)
    then have "i < length ?el" by (auto split: option.splits dest: position_Some)
    then have "?el ! i \<in> set ?el" by (rule nth_mem)
    moreover from action Some have "account_id (?el ! i) = a" by simp
    ultimately show ?thesis by blast
  next
    case None
    show ?thesis
    proof (cases ?el)
      case (Cons m ms)
      with action None have "account_id m = a" "m \<in> set ?el" by simp_all
      then show ?thesis by blast
    next
      case Nil
      with action None show ?thesis by (simp split: option.splits if_splits)
    qed
  qed
  with False that show ?thesis by auto
qed

lemma probed_probeable:
  fixes request utc_now
  defines "now \<equiv> (case req_now request of Some t \<Rightarrow> t | None \<Rightarrow> utc_now)"
  assumes "\<forall>c \<in> set (tl cs). pool_position c \<noteq> 0"
    and "terminal_action (evaluate_selection utc_now request cs) = Probe a"
  obtains c where "c \<in> set cs" and "account_id c = a" and "probeable now request c"
proof (cases "is_probe_recovery (intent request)")
  case True
  with placed_plan(1) [OF assms(2) True, of utc_now, folded now_def] assms(3) obtain c where
    "find (probeable now request) cs = Some c" "account_id c = a" by (auto split: option.splits)
  then have "c \<in> set cs" "account_id c = a" "probeable now request c" by (auto simp: find_Some_iff)
  then show ?thesis by (rule that)
next
  case False
  let ?ps = "filter (probeable now request) cs"
  from placed_plan(2) [OF assms(2) False, of utc_now, folded now_def] assms(3)
  obtain c where c: "max_by (compare_probe_candidates (request_selection_family request) now) ?ps = Some c" "account_id c = a"
    by (auto split: option.splits list.splits if_splits)
  have "set ?ps \<subseteq> {c. effective_quota (quota c) (request_selection_family request) \<noteq> None}"
    by (auto simp: probeable_def classify_candidate_def split: option.splits)
  from max_by_Some [OF probes.ranking_axioms this c(1)] c(2) that show ?thesis by auto
qed

text \<open>
  C34: A plan chooses what the pool promises: for percentages that are numbers, and positions
  that only the first candidate may lack, the action of a plan is the preferred account if it
  may be leased, else an account that no other candidate precedes, else the most promising
  account to probe, else staying or nothing, and for a probe recovery only the reserved
  account.
\<close>

theorem evaluate_selection_meets_spec:
  assumes numeric: "\<forall>c \<in> set cs. numeric_quota (request_selection_family request) c"
    and placed: "\<forall>c \<in> set (tl cs). pool_position c \<noteq> 0"
  shows "selection_spec (case req_now request of Some t \<Rightarrow> t | None \<Rightarrow> utc_now) request cs
     (terminal_action (evaluate_selection utc_now request cs))"
proof -
  define now where "now = (case req_now request of Some t \<Rightarrow> t | None \<Rightarrow> utc_now)"
  note plan = placed_plan [OF placed, of request utc_now, folded now_def]
  let ?act = "terminal_action (evaluate_selection utc_now request cs)"
  have spec: "selection_spec now request cs ?act"
  proof (cases "is_probe_recovery (intent request)")
    case True
    then show ?thesis
    proof (cases "find (probeable now request) cs")
      case None
      then have "\<forall>c \<in> set cs. \<not> probeable now request c" by (simp add: find_None_iff)
      with True None show ?thesis by (simp add: plan(1) selection_spec_def is_probe_recovery_def)
    next
      case (Some c)
      then have "c \<in> set cs" "probeable now request c" by (auto simp: find_Some_iff)
      with True Some show ?thesis by (auto simp: plan(1) selection_spec_def best_probe_def)
    qed
  next
    case ordinary: False
    let ?el = "eligible_of now request cs"
    let ?pref = "case preferred_account_id request of None \<Rightarrow> None
        | Some p \<Rightarrow> position (\<lambda>c. account_id c = p) ?el"
    show ?thesis
    proof (cases ?pref)
      case (Some i)
      then obtain p where p: "preferred_account_id request = Some p"
        and i: "i < length ?el" "account_id (?el ! i) = p"
        by (auto split: option.splits dest: position_Some)
      from i(1) have "?el ! i \<in> set ?el" by (rule nth_mem)
      with p i have "best_usable now request cs (?el ! i)" by (auto simp: best_usable_def)
      with ordinary Some show ?thesis by (auto simp: plan(2) selection_spec_def)
    next
      case no_pref: None
      then have none: "\<not> (\<exists>d \<in> set cs. usable now request d \<and> preferred_account_id request = Some (account_id d))"
        by (auto split: option.splits simp: position_None)
      show ?thesis
      proof (cases ?el)
        case (Cons m ms)
        then have "m \<in> set ?el" by simp
        with none eligible_head [OF numeric Cons] have "best_usable now request cs m"
          by (auto simp: best_usable_def)
        with ordinary no_pref Cons show ?thesis by (auto simp: plan(2) selection_spec_def)
      next
        case Nil
        then have "set ?el = {}" by simp
        then have unusable: "\<forall>c \<in> set cs. \<not> usable now request c" by auto
        show ?thesis
        proof (cases "max_by (compare_probe_candidates (request_selection_family request) now) (filter (probeable now request) cs)")
          case None
          then have "\<forall>c \<in> set cs. \<not> probeable now request c" by (auto simp: max_by_None filter_empty_conv)
          with ordinary no_pref Nil None unusable show ?thesis
            by (auto simp: plan(2) selection_spec_def stays_on_current_when_exhausted_def)
        next
          case (Some c)
          have "set (filter (probeable now request) cs) \<subseteq>
              {c. effective_quota (quota c) (request_selection_family request) \<noteq> None}"
            by (auto simp: probeable_def classify_candidate_def split: option.splits)
          from max_by_Some [OF probes.ranking_axioms this Some]
          have "best_probe now request cs c" by (auto simp: best_probe_def)
          with ordinary no_pref Nil Some unusable show ?thesis by (auto simp: plan(2) selection_spec_def)
        qed
      qed
    qed
  qed
  then show ?thesis by (simp add: now_def)
qed

definition sample_quota :: "string \<Rightarrow> rat \<Rightarrow> quota_exhausted_windows \<Rightarrow> quota_state" where
  "sample_quota name used windows =
     \<lparr>quota_account_id = lit name, limit_id = lit ''codex'', primary_used_percent = Some (Finite used),
      primary_resets_at = Some 60, secondary_used_percent = Some (Finite used), secondary_resets_at = Some 60,
      quota_observed_at = 0, exhausted_windows = windows, predicted_blocked_until = Some 60,
      next_probe_after = None, probe_backoff_level = 0, last_probe_result = None\<rparr>"

definition sample_account :: "string \<Rightarrow> nat \<Rightarrow> rat \<Rightarrow> quota_exhausted_windows \<Rightarrow> account_record" where
  "sample_account name pos used windows =
     \<lparr>account_id = lit name, healthy = True, acct_kind = ChatGpt, enabled = True, selector_auth_eligible = True,
      pool_position = pos, leased_to_other_holder = False,
      quota = \<lparr>selection_quota = Some (sample_quota name used windows), codex_fallback = None\<rparr>\<rparr>"

text \<open>The account in use is passed over, the exhausted one too, and the less used one is chosen.\<close>

lemma evaluate_selection_meets_spec_witness:
  "selection_spec 5
     ((request_for_intent SoftRotation)\<lparr>req_now := Some 5, current_account_id := Some (lit ''a'')\<rparr>)
     [sample_account ''a'' 0 10 NoWindow, sample_account ''b'' 1 90 NoWindow,
      sample_account ''c'' 2 30 NoWindow, sample_account ''d'' 3 0 PrimaryWindow]
     (Select (lit ''c''))"
proof -
  let ?req = "(request_for_intent SoftRotation)\<lparr>req_now := Some 5, current_account_id := Some (lit ''a'')\<rparr>"
  let ?cs = "[sample_account ''a'' 0 10 NoWindow, sample_account ''b'' 1 90 NoWindow,
      sample_account ''c'' 2 30 NoWindow, sample_account ''d'' 3 0 PrimaryWindow]"
  have "terminal_action (evaluate_selection 0 ?req ?cs) = Select (lit ''c'')" by code_simp
  moreover have "\<forall>c \<in> set ?cs. numeric_quota (request_selection_family ?req) c"
    by (simp add: numeric_quota_def sample_account_def sample_quota_def effective_quota_def)
  moreover have "\<forall>c \<in> set (tl ?cs). pool_position c \<noteq> 0" by (simp add: sample_account_def)
  ultimately show ?thesis
    using evaluate_selection_meets_spec [of ?cs ?req 0] by (simp add: request_for_intent_def)
qed

text \<open>
  No candidate disappears from a plan: outside a probe recovery each candidate is either
  eligible, and then it may be leased, or rejected with a reason that holds of it.
\<close>

theorem plan_accounts_for_every_candidate:
  assumes "\<forall>c \<in> set (tl cs). pool_position c \<noteq> 0" and "intent request \<noteq> ProbeRecovery" and "c \<in> set cs"
  shows "c \<in> set (eligible_candidates (evaluate_selection utc_now request cs)) \<or>
    \<lparr>rejected_account_id = account_id c,
     reject_reason = (case hard_reject_reason request c of Some reason \<Rightarrow> reason | None \<Rightarrow> PredictedBlockedAccount)\<rparr>
      \<in> set (rejected_candidates (evaluate_selection utc_now request cs))"
proof -
  have ordinary: "\<not> is_probe_recovery (intent request)" using assms(2) by (simp add: is_probe_recovery_def)
  let ?now = "case req_now request of Some t \<Rightarrow> t | None \<Rightarrow> utc_now"
  show ?thesis
  proof (cases "usable ?now request c")
    case True
    with placed_plan(3) [OF assms(1) ordinary, of utc_now] assms(3) show ?thesis by simp
  next
    case False
    then have "\<lparr>rejected_account_id = account_id c,
       reject_reason = (case hard_reject_reason request c of Some reason \<Rightarrow> reason | None \<Rightarrow> PredictedBlockedAccount)\<rparr>
        \<in> set (rejection_of request (request_selection_family request) ?now c)"
      by (auto simp: usable_def rejection_of_def split: option.splits)
    with placed_plan(4) [OF assms(1) ordinary, of utc_now] assms(3) show ?thesis by auto
  qed
qed

lemma plan_accounts_for_every_candidate_witness:
  "\<lparr>rejected_account_id = lit ''d'', reject_reason = PredictedBlockedAccount\<rparr>
     \<in> set (rejected_candidates (evaluate_selection 5 (request_for_intent Startup)
         [sample_account ''a'' 0 10 NoWindow, sample_account ''d'' 1 0 PrimaryWindow]))"
proof -
  let ?cs = "[sample_account ''a'' 0 10 NoWindow, sample_account ''d'' 1 0 PrimaryWindow]"
  have "map account_id (eligible_candidates (evaluate_selection 5 (request_for_intent Startup) ?cs)) = [lit ''a'']"
    by code_simp
  then have "sample_account ''d'' 1 0 PrimaryWindow
      \<notin> set (eligible_candidates (evaluate_selection 5 (request_for_intent Startup) ?cs))"
    by (auto simp: map_eq_Cons_conv sample_account_def)
  with plan_accounts_for_every_candidate [of ?cs "request_for_intent Startup" "sample_account ''d'' 1 0 PrimaryWindow" 5]
  show ?thesis
    by (simp add: request_for_intent_def hard_reject_reason_def is_probe_recovery_def sample_account_def)
qed

end
