(* ===== verification/AccountStore.thy ===== *)
theory AccountStore
  imports QuotaSelection
begin

text \<open>
  The account pool's tables and the statements on them
  (\<open>state/src/runtime/{account_pool,account_pool_control,account_pool_quota}.rs\<close>,
  \<open>state/migrations\<close>). A table is the list of its rows, a transaction a function on the
  database that returns the old one when it fails. Times in rows are seconds.

  What SQLite and the disk may do is a record of outcomes: each attempt to begin a write
  transaction, a failure of a later statement or of the commit, a failure of an event that
  is written by itself. Identifiers drawn at random are arguments; those of events are left
  out. A unique index or a foreign key that is violated is an error whose text is fixed.
\<close>

section \<open>Rows\<close>

datatype account_source = Migrated

record registered_account =
  reg_account_id :: ustring
  backend_id :: ustring
  backend_family :: ustring
  workspace_id :: "ustring option"
  backend_account_handle :: ustring
  account_kind_text :: ustring
  provider_fingerprint :: ustring
  display_name :: "ustring option"
  account_source :: "account_source option"
  reg_enabled :: bool
  reg_healthy :: bool

record registry_row = registered_account +
  reg_pool_id :: ustring
  reg_position :: int
  reg_created_at :: int
  reg_updated_at :: int

record membership_row =
  mem_account_id :: ustring
  mem_pool_id :: ustring
  mem_position :: int
  mem_assigned_at :: int
  mem_updated_at :: int

record runtime_row =
  run_account_id :: ustring
  run_pool_id :: ustring
  run_health :: account_health_state
  run_sequence :: int
  run_event_at :: int
  run_updated_at :: int

text \<open>A lease: with seconds in the table, with instants once read.\<close>

record lease_record =
  lease_id :: ustring
  lease_pool_id :: ustring
  lease_account_id :: ustring
  holder_instance_id :: ustring
  lease_epoch :: int
  acquired_at :: int
  renewed_at :: int
  expires_at :: int
  released_at :: "int option"

record lease_key =
  key_lease_id :: ustring
  key_account_id :: ustring
  key_lease_epoch :: int

definition lease_key_of :: "lease_record \<Rightarrow> lease_key" where
  "lease_key_of l =
     \<lparr>key_lease_id = lease_id l, key_account_id = lease_account_id l, key_lease_epoch = lease_epoch l\<rparr>"

datatype lease_renewal = Renewed lease_record | MissingLease

datatype lease_error = NoEligibleAccount | Storage ustring

record quota_row =
  q_account_id :: ustring
  q_limit_id :: ustring
  q_primary_used :: "f64 option"
  q_primary_resets_at :: "int option"
  q_secondary_used :: "f64 option"
  q_secondary_resets_at :: "int option"
  q_observed_at :: int
  q_observed_at_nanos :: "int option"
  q_windows :: quota_exhausted_windows
  q_blocked_until :: "int option"
  q_next_probe_after :: "int option"
  q_backoff_level :: int
  q_last_result :: "quota_probe_result option"
  q_updated_at :: int

record pool_event =
  ev_occurred_at :: int
  ev_pool_id :: ustring
  ev_account_id :: "ustring option"
  ev_lease_id :: "ustring option"
  ev_holder :: "ustring option"
  ev_type :: ustring
  ev_reason_code :: "ustring option"
  ev_message :: ustring

record startup_selection =
  sel_default_pool_id :: "ustring option"
  sel_preferred_account_id :: "ustring option"
  sel_suppressed :: bool
  sel_updated_at :: int

record pending_registration =
  idempotency_key :: ustring
  pend_backend_id :: ustring
  provider_kind :: ustring
  target_pool_id :: "ustring option"
  pend_backend_account_handle :: "ustring option"
  pend_account_id :: "ustring option"
  completed_at :: "int option"
  started_at :: int
  pend_updated_at :: int

record account_db =
  registry :: "registry_row list"
  memberships :: "membership_row list"
  runtime_states :: "runtime_row list"
  leases :: "lease_record list"
  quotas :: "quota_row list"
  pool_events :: "pool_event list"
  startup :: "startup_selection option"
  pending_registrations :: "pending_registration list"
  legacy_import_completed :: bool

definition empty_db :: account_db where
  "empty_db = \<lparr>registry = [], memberships = [], runtime_states = [], leases = [], quotas = [],
     pool_events = [], startup = None, pending_registrations = [], legacy_import_completed = False\<rparr>"

section \<open>The database's outcomes\<close>

record db_outcomes =
  begin_outcome :: "nat \<Rightarrow> ustring option"
  statement_fault :: "ustring option"
  event_fault :: "ustring option"

definition all_well :: db_outcomes where
  "all_well = \<lparr>begin_outcome = (\<lambda>_. None), statement_fault = None, event_fault = None\<rparr>"

definition constraint_error :: ustring where
  "constraint_error = lit ''constraint failed''"

definition account_pool_is_locked_error_message :: "ustring \<Rightarrow> bool" where
  "account_pool_is_locked_error_message m = contains (lit ''database is locked'') (to_ascii_lowercase m)"

definition account_lease_is_contention_error :: "ustring \<Rightarrow> bool" where
  "account_lease_is_contention_error m =
     (let message = to_ascii_lowercase m
      in contains (lit ''unique'') message \<or> contains (lit ''constraint failed'') message \<or>
         contains (lit ''constraint violation'') message)"

definition ACCOUNT_POOL_WRITE_RETRY_ATTEMPTS :: nat where
  "ACCOUNT_POOL_WRITE_RETRY_ATTEMPTS = 5"

text \<open>The loop over the attempts that are left; \<open>None\<close>: a transaction has begun.\<close>

fun begin_attempts :: "(nat \<Rightarrow> ustring option) \<Rightarrow> ustring \<Rightarrow> nat \<Rightarrow> ustring option" where
  "begin_attempts outcome name 0 = Some (name @ lit '' exceeded retry budget after 5 attempts'')"
| "begin_attempts outcome name (Suc left) =
     (let attempt = ACCOUNT_POOL_WRITE_RETRY_ATTEMPTS - Suc left
      in case outcome attempt of
           None \<Rightarrow> None
         | Some err \<Rightarrow>
             if account_pool_is_locked_error_message err \<and> attempt + 1 < ACCOUNT_POOL_WRITE_RETRY_ATTEMPTS
             then begin_attempts outcome name left else Some err)"

definition begin_account_pool_write_transaction :: "db_outcomes \<Rightarrow> ustring \<Rightarrow> ustring option" where
  "begin_account_pool_write_transaction io name =
     begin_attempts (begin_outcome io) name ACCOUNT_POOL_WRITE_RETRY_ATTEMPTS"

section \<open>Reading\<close>

definition secs :: "int \<Rightarrow> instant" where
  "secs s = s * nanos_per_sec"

definition lease_from_row :: "lease_record \<Rightarrow> lease_record" where
  "lease_from_row r =
     r\<lparr>acquired_at := secs (acquired_at r), renewed_at := secs (renewed_at r),
       expires_at := secs (expires_at r), released_at := map_option secs (released_at r)\<rparr>"

definition unreleased :: "lease_record \<Rightarrow> bool" where
  "unreleased l \<longleftrightarrow> released_at l = None"

definition load_lease :: "account_db \<Rightarrow> ustring \<Rightarrow> lease_record option" where
  "load_lease db lid = map_option lease_from_row (find (\<lambda>l. lease_id l = lid) (leases db))"

definition newest_first :: "lease_record \<Rightarrow> lease_record \<Rightarrow> ordering" where
  "newest_first a b = then_with (cmp (acquired_at b) (acquired_at a)) (cmp_text (lease_id b) (lease_id a))"

definition load_active_holder_lease :: "account_db \<Rightarrow> ustring \<Rightarrow> instant \<Rightarrow> lease_record option" where
  "load_active_holder_lease db holder now =
     (case sort_by newest_first
             (filter (\<lambda>l. holder_instance_id l = holder \<and> unreleased l \<and> expires_at l > timestamp now) (leases db)) of
        [] \<Rightarrow> None
      | l # _ \<Rightarrow> Some (lease_from_row l))"

definition registry_lookup :: "account_db \<Rightarrow> ustring \<Rightarrow> registry_row option" where
  "registry_lookup db a = find (\<lambda>r. reg_account_id r = a) (registry db)"

definition membership_lookup :: "account_db \<Rightarrow> ustring \<Rightarrow> membership_row option" where
  "membership_lookup db a = find (\<lambda>m. mem_account_id m = a) (memberships db)"

definition runtime_lookup :: "account_db \<Rightarrow> ustring \<Rightarrow> runtime_row option" where
  "runtime_lookup db a = find (\<lambda>r. run_account_id r = a) (runtime_states db)"

definition quota_lookup :: "account_db \<Rightarrow> ustring \<Rightarrow> ustring \<Rightarrow> quota_row option" where
  "quota_lookup db a limit = find (\<lambda>q. q_account_id q = a \<and> q_limit_id q = limit) (quotas db)"

definition COMPAT_QUOTA_LIMIT_ID :: ustring where
  "COMPAT_QUOTA_LIMIT_ID = lit ''codex''"

definition observed_nanos :: "quota_row \<Rightarrow> int" where
  "observed_nanos q = (case q_observed_at_nanos q of Some n \<Rightarrow> n | None \<Rightarrow> q_observed_at q * nanos_per_sec)"

definition quota_state_from_row :: "quota_row \<Rightarrow> quota_state" where
  "quota_state_from_row q =
     \<lparr>quota_account_id = q_account_id q, limit_id = q_limit_id q,
      primary_used_percent = q_primary_used q, primary_resets_at = map_option secs (q_primary_resets_at q),
      secondary_used_percent = q_secondary_used q, secondary_resets_at = map_option secs (q_secondary_resets_at q),
      quota_observed_at = observed_nanos q, exhausted_windows = q_windows q,
      predicted_blocked_until = map_option secs (q_blocked_until q),
      next_probe_after = map_option secs (q_next_probe_after q),
      probe_backoff_level = q_backoff_level q, last_probe_result = q_last_result q\<rparr>"

definition read_account_quota_state :: "account_db \<Rightarrow> ustring \<Rightarrow> ustring \<Rightarrow> quota_state option" where
  "read_account_quota_state db a limit = map_option quota_state_from_row (quota_lookup db a limit)"

definition read_selection_quota_state :: "account_db \<Rightarrow> ustring \<Rightarrow> ustring \<Rightarrow> quota_state option" where
  "read_selection_quota_state db a family =
     (let selected = read_account_quota_state db a family
      in if selected \<noteq> None \<or> family = COMPAT_QUOTA_LIMIT_ID then selected
         else read_account_quota_state db a COMPAT_QUOTA_LIMIT_ID)"

definition normalized_selection_family :: "ustring \<Rightarrow> ustring" where
  "normalized_selection_family family = (if family = [] then COMPAT_QUOTA_LIMIT_ID else family)"

text \<open>The two \<open>LEFT JOIN\<close>s of the selection quota and the fallback, and the joined column.\<close>

definition joined_windows :: "account_db \<Rightarrow> ustring \<Rightarrow> ustring \<Rightarrow> quota_exhausted_windows option" where
  "joined_windows db a family =
     (case quota_lookup db a (normalized_selection_family family) of
        Some q \<Rightarrow> Some (q_windows q)
      | None \<Rightarrow> map_option q_windows (quota_lookup db a COMPAT_QUOTA_LIMIT_ID))"

definition read_account_selection_family :: "account_db \<Rightarrow> ustring \<Rightarrow> ustring" where
  "read_account_selection_family db a =
     (case registry_lookup db a of
        Some r \<Rightarrow> normalized_selection_family (backend_family r)
      | None \<Rightarrow> COMPAT_QUOTA_LIMIT_ID)"

definition not_unauthorized :: "account_db \<Rightarrow> ustring \<Rightarrow> bool" where
  "not_unauthorized db a \<longleftrightarrow>
     (case runtime_lookup db a of Some r \<Rightarrow> run_health r \<noteq> Unauthorized | None \<Rightarrow> True)"

definition by_position :: "membership_row \<Rightarrow> membership_row \<Rightarrow> ordering" where
  "by_position a b =
     then_with (cmp (mem_position a) (mem_position b)) (cmp_text (mem_account_id a) (mem_account_id b))"

section \<open>Events\<close>

definition append_account_pool_event :: "account_db \<Rightarrow> pool_event \<Rightarrow> account_db" where
  "append_account_pool_event db e = db\<lparr>pool_events := pool_events db @ [e]\<rparr>"

definition account_pool_event ::
  "instant \<Rightarrow> ustring \<Rightarrow> ustring option \<Rightarrow> ustring option \<Rightarrow> ustring option \<Rightarrow> string \<Rightarrow> string option
   \<Rightarrow> ustring \<Rightarrow> pool_event" where
  "account_pool_event occurred pool account lease holder typ reason message =
     \<lparr>ev_occurred_at = timestamp occurred, ev_pool_id = pool, ev_account_id = account, ev_lease_id = lease,
      ev_holder = holder, ev_type = lit typ, ev_reason_code = map_option lit reason, ev_message = message\<rparr>"

definition lease_event :: "instant \<Rightarrow> lease_record \<Rightarrow> string \<Rightarrow> string \<Rightarrow> pool_event" where
  "lease_event occurred l typ verb =
     account_pool_event occurred (lease_pool_id l) (Some (lease_account_id l)) (Some (lease_id l))
       (Some (holder_instance_id l)) typ None
       (lit ''lease '' @ lease_id l @ lit '' '' @ lit verb @ lit '' for '' @ lease_account_id l)"

section \<open>Leases\<close>

definition release_expired_account_leases :: "account_db \<Rightarrow> instant \<Rightarrow> account_db" where
  "release_expired_account_leases db now =
     db\<lparr>leases := map (\<lambda>l. if unreleased l \<and> expires_at l \<le> timestamp now
                           then l\<lparr>released_at := Some (timestamp now)\<rparr> else l) (leases db)\<rparr>"

definition release_unreleased_account_leases :: "account_db \<Rightarrow> ustring \<Rightarrow> int \<Rightarrow> account_db" where
  "release_unreleased_account_leases db a when =
     db\<lparr>leases := map (\<lambda>l. if lease_account_id l = a \<and> unreleased l
                           then l\<lparr>released_at := Some when\<rparr> else l) (leases db)\<rparr>"

definition next_epoch :: "account_db \<Rightarrow> ustring \<Rightarrow> int" where
  "next_epoch db a =
     (case map lease_epoch (filter (\<lambda>l. lease_account_id l = a) (leases db)) of
        [] \<Rightarrow> 1
      | e # es \<Rightarrow> foldl max e es + 1)"

definition has_unreleased_lease :: "account_db \<Rightarrow> ustring \<Rightarrow> bool" where
  "has_unreleased_lease db a = list_ex (\<lambda>l. lease_account_id l = a \<and> unreleased l) (leases db)"

text \<open>The row an \<open>INSERT \<dots> SELECT\<close> adds, under the primary key and the two partial unique indexes.\<close>

definition insert_lease_row :: "account_db \<Rightarrow> lease_record \<Rightarrow> ustring + account_db" where
  "insert_lease_row db l =
     (if list_ex (\<lambda>k. lease_id k = lease_id l) (leases db) then Inl constraint_error
      else if has_unreleased_lease db (lease_account_id l) then Inl constraint_error
      else if list_ex (\<lambda>k. holder_instance_id k = holder_instance_id l \<and> unreleased k) (leases db)
      then Inl constraint_error
      else Inr (db\<lparr>leases := leases db @ [l]\<rparr>))"

definition leasable :: "account_db \<Rightarrow> ustring \<Rightarrow> bool" where
  "leasable db a \<longleftrightarrow>
     (case registry_lookup db a of Some r \<Rightarrow> reg_enabled r | None \<Rightarrow> False) \<and>
     not_unauthorized db a \<and> \<not> has_unreleased_lease db a"

definition not_exhausted :: "account_db \<Rightarrow> ustring \<Rightarrow> ustring \<Rightarrow> bool" where
  "not_exhausted db a family \<longleftrightarrow> joined_windows db a family = None \<or> joined_windows db a family = Some NoWindow"

definition registered_family :: "account_db \<Rightarrow> ustring \<Rightarrow> ustring" where
  "registered_family db a = (case registry_lookup db a of Some r \<Rightarrow> backend_family r | None \<Rightarrow> [])"

definition lease_row_for :: "account_db \<Rightarrow> lease_record \<Rightarrow> ustring \<Rightarrow> lease_record" where
  "lease_row_for db l a =
     l\<lparr>lease_account_id := a, lease_epoch := next_epoch db a, acquired_at := timestamp (acquired_at l),
       renewed_at := timestamp (renewed_at l), expires_at := timestamp (expires_at l), released_at := None\<rparr>"

definition insert_next_eligible_lease ::
  "account_db \<Rightarrow> lease_record \<Rightarrow> ustring \<Rightarrow> ustring list \<Rightarrow> ustring + account_db option" where
  "insert_next_eligible_lease db l pool excluded =
     (case sort_by by_position
             (filter (\<lambda>m. mem_pool_id m = pool \<and> leasable db (mem_account_id m) \<and>
                          not_exhausted db (mem_account_id m) (registered_family db (mem_account_id m)) \<and>
                          mem_account_id m \<notin> set excluded) (memberships db)) of
        [] \<Rightarrow> Inr None
      | m # _ \<Rightarrow> map_sum id Some (insert_lease_row db (lease_row_for db l (mem_account_id m))))"

datatype requested_quota_check =
    SelectionFamily ustring
  | ReservedProbe ustring instant

definition acquisition_failure_message :: "requested_quota_check \<Rightarrow> ustring" where
  "acquisition_failure_message c =
     (case c of SelectionFamily _ \<Rightarrow> lit ''preferred account is not eligible for lease acquisition''
      | ReservedProbe _ _ \<Rightarrow> lit ''probe account is not eligible for lease acquisition'')"

definition quota_check_holds :: "account_db \<Rightarrow> ustring \<Rightarrow> requested_quota_check \<Rightarrow> bool" where
  "quota_check_holds db a c =
     (case c of
        SelectionFamily family \<Rightarrow> not_exhausted db a family
      | ReservedProbe limit reserved_until \<Rightarrow>
          (case quota_lookup db a limit of
             None \<Rightarrow> False
           | Some q \<Rightarrow> q_windows q \<noteq> NoWindow \<and> q_next_probe_after q = Some (timestamp reserved_until)))"

definition insert_requested_lease ::
  "account_db \<Rightarrow> lease_record \<Rightarrow> ustring \<Rightarrow> requested_quota_check \<Rightarrow> ustring + account_db option" where
  "insert_requested_lease db l a c =
     (if list_ex (\<lambda>m. mem_pool_id m = lease_pool_id l \<and> mem_account_id m = a) (memberships db) \<and>
         leasable db a \<and> quota_check_holds db a c
      then map_sum id Some (insert_lease_row db (lease_row_for db l a))
      else Inr None)"

definition new_lease :: "ustring \<Rightarrow> ustring \<Rightarrow> ustring \<Rightarrow> ustring \<Rightarrow> instant \<Rightarrow> time_span \<Rightarrow> lease_record" where
  "new_lease lid pool a holder now ttl =
     \<lparr>lease_id = lid, lease_pool_id = pool, lease_account_id = a, holder_instance_id = holder, lease_epoch = 0,
      acquired_at = now, renewed_at = now, expires_at = now + ttl, released_at = None\<rparr>"

text \<open>
  The end of both acquisitions: what was inserted is read back and an event written, in the
  transaction.
\<close>

definition finish_acquisition :: "account_db \<Rightarrow> account_db \<Rightarrow> ustring \<Rightarrow> (lease_error + lease_record) \<times> account_db" where
  "finish_acquisition db db2 lid =
     (case load_lease db2 lid of
        None \<Rightarrow> (Inl (Storage (lit ''missing inserted lease '' @ lid)), db)
      | Some l \<Rightarrow> (Inr l, append_account_pool_event db2 (lease_event (acquired_at l) l ''leaseAcquired'' ''acquired'')))"

text \<open>\<open>later\<close> is the clock when a contended acquisition looks again.\<close>

definition acquire_account_lease_excluding ::
  "db_outcomes \<Rightarrow> instant \<Rightarrow> instant \<Rightarrow> ustring \<Rightarrow> account_db \<Rightarrow> ustring \<Rightarrow> ustring \<Rightarrow> time_span \<Rightarrow> ustring list
   \<Rightarrow> (lease_error + lease_record) \<times> account_db" where
  "acquire_account_lease_excluding io now later lid db pool holder ttl excluded =
     (case statement_fault io of
        Some e \<Rightarrow> (Inl (Storage e), db)
      | None \<Rightarrow>
          (let db1 = release_expired_account_leases db now
           in case load_active_holder_lease db1 holder now of
                Some existing \<Rightarrow>
                  (if lease_account_id existing \<in> set excluded then (Inl NoEligibleAccount, db1)
                   else (Inr existing, db1))
              | None \<Rightarrow>
                  (case insert_next_eligible_lease db1 (new_lease lid pool [] holder now ttl) pool excluded of
                     Inl e \<Rightarrow>
                       (if account_lease_is_contention_error e then
                          (case load_active_holder_lease db holder later of
                             Some existing \<Rightarrow>
                               (if lease_account_id existing \<in> set excluded then (Inl NoEligibleAccount, db)
                                else (Inr existing, db))
                           | None \<Rightarrow> (Inl NoEligibleAccount, db))
                        else (Inl (Storage e), db))
                   | Inr None \<Rightarrow> (Inl NoEligibleAccount, db)
                   | Inr (Some db2) \<Rightarrow> finish_acquisition db db2 lid)))"

definition acquire_account_lease ::
  "db_outcomes \<Rightarrow> instant \<Rightarrow> instant \<Rightarrow> ustring \<Rightarrow> account_db \<Rightarrow> ustring \<Rightarrow> ustring \<Rightarrow> time_span
   \<Rightarrow> (lease_error + lease_record) \<times> account_db" where
  "acquire_account_lease io now later lid db pool holder ttl =
     (case acquire_account_lease_excluding io now later lid db pool holder ttl [] of
        (Inl NoEligibleAccount, db1) \<Rightarrow>
          (case event_fault io of
             Some e \<Rightarrow> (Inl (Storage e), db1)
           | None \<Rightarrow> (Inl NoEligibleAccount,
               append_account_pool_event db1 (account_pool_event now pool None None (Some holder)
                 ''leaseAcquireFailed'' (Some ''noEligibleAccount'')
                 (lit ''no eligible account is available for lease acquisition''))))
      | result \<Rightarrow> result)"

definition refuse_requested ::
  "db_outcomes \<Rightarrow> instant \<Rightarrow> account_db \<Rightarrow> ustring \<Rightarrow> ustring \<Rightarrow> ustring \<Rightarrow> requested_quota_check
   \<Rightarrow> (lease_error + lease_record) \<times> account_db" where
  "refuse_requested io now db pool a holder c =
     (case event_fault io of
        Some e \<Rightarrow> (Inl (Storage e), db)
      | None \<Rightarrow> (Inl NoEligibleAccount,
          append_account_pool_event db (account_pool_event now pool (Some a) None (Some holder)
            ''leaseAcquireFailed'' (Some ''noEligibleAccount'') (acquisition_failure_message c))))"

definition is_selection_family :: "requested_quota_check \<Rightarrow> bool" where
  "is_selection_family c = (case c of SelectionFamily _ \<Rightarrow> True | ReservedProbe _ _ \<Rightarrow> False)"

definition acquire_requested_account_lease ::
  "db_outcomes \<Rightarrow> instant \<Rightarrow> instant \<Rightarrow> ustring \<Rightarrow> account_db \<Rightarrow> ustring \<Rightarrow> ustring \<Rightarrow> ustring \<Rightarrow> time_span
   \<Rightarrow> requested_quota_check \<Rightarrow> (lease_error + lease_record) \<times> account_db" where
  "acquire_requested_account_lease io now later lid db pool a holder ttl c =
     (case statement_fault io of
        Some e \<Rightarrow> (Inl (Storage e), db)
      | None \<Rightarrow>
          (let db1 = release_expired_account_leases db now
           in case (if is_selection_family c then load_active_holder_lease db1 holder now else None) of
                Some existing \<Rightarrow> (Inr existing, db1)
              | None \<Rightarrow>
                  (case insert_requested_lease db1 (new_lease lid pool a holder now ttl) a c of
                     Inl e \<Rightarrow>
                       (if account_lease_is_contention_error e then
                          (case (if is_selection_family c then load_active_holder_lease db holder later else None) of
                             Some existing \<Rightarrow> (Inr existing, db)
                           | None \<Rightarrow> refuse_requested io now db pool a holder c)
                        else (Inl (Storage e), db))
                   | Inr None \<Rightarrow> refuse_requested io now db pool a holder c
                   | Inr (Some db2) \<Rightarrow> finish_acquisition db db2 lid)))"

definition acquire_preferred_account_lease ::
  "db_outcomes \<Rightarrow> instant \<Rightarrow> instant \<Rightarrow> ustring \<Rightarrow> account_db \<Rightarrow> ustring \<Rightarrow> ustring \<Rightarrow> ustring \<Rightarrow> ustring \<Rightarrow> time_span
   \<Rightarrow> (lease_error + lease_record) \<times> account_db" where
  "acquire_preferred_account_lease io now later lid db pool a family holder ttl =
     acquire_requested_account_lease io now later lid db pool a holder ttl (SelectionFamily family)"

definition acquire_quota_probe_account_lease ::
  "db_outcomes \<Rightarrow> instant \<Rightarrow> instant \<Rightarrow> ustring \<Rightarrow> account_db \<Rightarrow> ustring \<Rightarrow> ustring \<Rightarrow> ustring \<Rightarrow> instant \<Rightarrow> ustring
   \<Rightarrow> time_span \<Rightarrow> (lease_error + lease_record) \<times> account_db" where
  "acquire_quota_probe_account_lease io now later lid db pool a limit reserved_until holder ttl =
     acquire_requested_account_lease io now later lid db pool a holder ttl (ReservedProbe limit reserved_until)"

definition key_matches :: "lease_key \<Rightarrow> lease_record \<Rightarrow> bool" where
  "key_matches k l \<longleftrightarrow>
     lease_id l = key_lease_id k \<and> lease_account_id l = key_account_id k \<and>
     lease_epoch l = key_lease_epoch k \<and> unreleased l"

definition in_write_transaction ::
  "db_outcomes \<Rightarrow> string \<Rightarrow> account_db \<Rightarrow> 'r \<times> account_db \<Rightarrow> (ustring + 'r) \<times> account_db" where
  "in_write_transaction io name db body =
     (case begin_account_pool_write_transaction io (lit name) of
        Some e \<Rightarrow> (Inl e, db)
      | None \<Rightarrow> (case statement_fault io of
                   Some e \<Rightarrow> (Inl e, db)
                 | None \<Rightarrow> (Inr (fst body), snd body)))"

definition renew_account_lease ::
  "db_outcomes \<Rightarrow> account_db \<Rightarrow> lease_key \<Rightarrow> instant \<Rightarrow> time_span \<Rightarrow> (ustring + lease_renewal) \<times> account_db" where
  "renew_account_lease io db key now ttl =
     in_write_transaction io ''renew_account_lease'' db
       (let hit = (\<lambda>l. key_matches key l \<and> expires_at l > timestamp now)
        in if \<not> list_ex hit (leases db) then (MissingLease, db)
           else let db1 = db\<lparr>leases := map (\<lambda>l. if hit l
                     then l\<lparr>renewed_at := timestamp now, expires_at := timestamp (now + ttl)\<rparr> else l) (leases db)\<rparr>
                in case load_lease db1 (key_lease_id key) of
                     Some l \<Rightarrow> (Renewed l, append_account_pool_event db1 (lease_event now l ''leaseRenewed'' ''renewed''))
                   | None \<Rightarrow> (MissingLease, db1))"

definition release_account_lease ::
  "db_outcomes \<Rightarrow> account_db \<Rightarrow> lease_key \<Rightarrow> instant \<Rightarrow> (ustring + bool) \<times> account_db" where
  "release_account_lease io db key now =
     in_write_transaction io ''release_account_lease'' db
       (if \<not> list_ex (key_matches key) (leases db) then (False, db)
        else let db1 = db\<lparr>leases := map (\<lambda>l. if key_matches key l
                     then l\<lparr>released_at := Some (timestamp now)\<rparr> else l) (leases db)\<rparr>
             in (True, case load_lease db1 (key_lease_id key) of
                         Some l \<Rightarrow> append_account_pool_event db1 (lease_event now l ''leaseReleased'' ''released'')
                       | None \<Rightarrow> db1))"

text \<open>The candidates for a plan: the members of a pool with their health and active lease.\<close>

definition read_account_lease_selection_candidates ::
  "account_db \<Rightarrow> ustring \<Rightarrow> instant
   \<Rightarrow> (registered_account \<times> account_health_state option \<times> lease_record option \<times> int) list" where
  "read_account_lease_selection_candidates db pool now =
     concat (map (\<lambda>m.
       case registry_lookup db (mem_account_id m) of
         None \<Rightarrow> []
       | Some r \<Rightarrow>
           (let row = (\<lambda>lease. (registered_account.truncate r,
                          map_option run_health (runtime_lookup db (mem_account_id m)), lease, mem_position m))
            in case filter (\<lambda>l. lease_account_id l = mem_account_id m \<and> lease_pool_id l = mem_pool_id m \<and>
                      unreleased l \<and> expires_at l > timestamp now) (leases db) of
                 [] \<Rightarrow> [row None]
               | ls \<Rightarrow> map (\<lambda>l. row (Some (lease_from_row l))) ls))
       (sort_by by_position (filter (\<lambda>m. mem_pool_id m = pool) (memberships db))))"

definition account_has_active_lease :: "account_db \<Rightarrow> ustring \<Rightarrow> instant \<Rightarrow> bool" where
  "account_has_active_lease db a now =
     list_ex (\<lambda>l. lease_account_id l = a \<and> unreleased l \<and> expires_at l > timestamp now) (leases db)"

definition read_first_eligible_account_id :: "account_db \<Rightarrow> ustring \<Rightarrow> instant \<Rightarrow> ustring option" where
  "read_first_eligible_account_id db pool now =
     (case sort_by by_position
             (filter (\<lambda>m. mem_pool_id m = pool \<and>
                (case registry_lookup db (mem_account_id m) of Some r \<Rightarrow> reg_enabled r | None \<Rightarrow> False) \<and>
                not_unauthorized db (mem_account_id m) \<and>
                not_exhausted db (mem_account_id m) (registered_family db (mem_account_id m)) \<and>
                \<not> account_has_active_lease db (mem_account_id m) now) (memberships db)) of
        [] \<Rightarrow> None
      | m # _ \<Rightarrow> Some (mem_account_id m))"

end
