(* ===== verification/AccountControl.thy ===== *)
theory AccountControl
  imports AccountStore
begin

text \<open>
  The rest of what changes the account pool's tables: quota facts and their probes, health
  events, registration, membership and the startup selection
  (\<open>state/src/runtime/{account_pool_quota,account_pool,account_pool_control}.rs\<close>).
\<close>

section \<open>Quota facts\<close>

definition replace_row :: "('r \<Rightarrow> bool) \<Rightarrow> ('r \<Rightarrow> 'r) \<Rightarrow> 'r list \<Rightarrow> 'r list" where
  "replace_row hit f rows = map (\<lambda>r. if hit r then f r else r) rows"

text \<open>\<open>INSERT \<dots> ON CONFLICT DO UPDATE\<close>: \<open>hit\<close> finds the row with the key.\<close>

definition upsert_row :: "('r \<Rightarrow> bool) \<Rightarrow> ('r \<Rightarrow> 'r) \<Rightarrow> 'r \<Rightarrow> 'r list \<Rightarrow> 'r list" where
  "upsert_row hit f new rows = (if list_ex hit rows then replace_row hit f rows else rows @ [new])"

definition is_quota_row :: "ustring \<Rightarrow> ustring \<Rightarrow> quota_row \<Rightarrow> bool" where
  "is_quota_row a limit q \<longleftrightarrow> q_account_id q = a \<and> q_limit_id q = limit"

definition is_registered :: "account_db \<Rightarrow> ustring \<Rightarrow> bool" where
  "is_registered db a \<longleftrightarrow> registry_lookup db a \<noteq> None"

definition quota_row_of :: "quota_state \<Rightarrow> instant \<Rightarrow> quota_row" where
  "quota_row_of r clock =
     \<lparr>q_account_id = quota_account_id r, q_limit_id = limit_id r,
      q_primary_used = primary_used_percent r, q_primary_resets_at = map_option timestamp (primary_resets_at r),
      q_secondary_used = secondary_used_percent r,
      q_secondary_resets_at = map_option timestamp (secondary_resets_at r),
      q_observed_at = timestamp (quota_observed_at r), q_observed_at_nanos = Some (quota_observed_at r),
      q_windows = exhausted_windows r,
      q_blocked_until = (if is_exhausted (exhausted_windows r)
                         then map_option timestamp (predicted_blocked_until r) else None),
      q_next_probe_after = (if is_exhausted (exhausted_windows r)
                            then map_option timestamp (next_probe_after r) else None),
      q_backoff_level = 0, q_last_result = None, q_updated_at = timestamp clock\<rparr>"

definition upsert_account_quota_state ::
  "db_outcomes \<Rightarrow> instant \<Rightarrow> account_db \<Rightarrow> quota_state \<Rightarrow> (ustring + unit) \<times> account_db" where
  "upsert_account_quota_state io clock db r =
     (case statement_fault io of
        Some e \<Rightarrow> (Inl e, db)
      | None \<Rightarrow>
          if \<not> is_registered db (quota_account_id r) then (Inl constraint_error, db)
          else (Inr (), db\<lparr>quotas := upsert_row (is_quota_row (quota_account_id r) (limit_id r))
                 (\<lambda>q. if quota_observed_at r \<ge> observed_nanos q then quota_row_of r clock else q)
                 (quota_row_of r clock) (quotas db)\<rparr>))"

definition reserve_account_quota_probe ::
  "db_outcomes \<Rightarrow> instant \<Rightarrow> account_db \<Rightarrow> ustring \<Rightarrow> ustring \<Rightarrow> instant \<Rightarrow> instant
   \<Rightarrow> (ustring + bool) \<times> account_db" where
  "reserve_account_quota_probe io clock db a limit now reserved_until =
     (case statement_fault io of
        Some e \<Rightarrow> (Inl e, db)
      | None \<Rightarrow>
          (let hit = (\<lambda>q. is_quota_row a limit q \<and> q_windows q \<noteq> NoWindow \<and>
                 (case q_next_probe_after q of Some t \<Rightarrow> t | None \<Rightarrow> 0) \<le> timestamp now)
           in (Inr (list_ex hit (quotas db)),
               db\<lparr>quotas := replace_row hit (\<lambda>q. q\<lparr>q_next_probe_after := Some (timestamp reserved_until),
                     q_updated_at := timestamp clock\<rparr>) (quotas db)\<rparr>)))"

record probe_observation =
  probe_observed_at :: instant
  probe_reserved_until :: instant

text \<open>A probe's result is written only over the reservation it verified.\<close>

definition record_probe ::
  "db_outcomes \<Rightarrow> instant \<Rightarrow> account_db \<Rightarrow> ustring \<Rightarrow> ustring \<Rightarrow> probe_observation
   \<Rightarrow> (quota_row \<Rightarrow> quota_row) \<Rightarrow> (ustring + bool) \<times> account_db" where
  "record_probe io clock db a limit ob f =
     (case statement_fault io of
        Some e \<Rightarrow> (Inl e, db)
      | None \<Rightarrow>
          (let hit = (\<lambda>q. is_quota_row a limit q \<and> observed_nanos q \<le> probe_observed_at ob \<and>
                 q_next_probe_after q = Some (timestamp (probe_reserved_until ob)))
           in (Inr (list_ex hit (quotas db)),
               db\<lparr>quotas := replace_row hit (\<lambda>q. (f q)\<lparr>q_observed_at := timestamp (probe_observed_at ob),
                     q_observed_at_nanos := Some (probe_observed_at ob), q_updated_at := timestamp clock\<rparr>)
                   (quotas db)\<rparr>)))"

definition record_account_quota_probe_success ::
  "db_outcomes \<Rightarrow> instant \<Rightarrow> account_db \<Rightarrow> ustring \<Rightarrow> ustring \<Rightarrow> probe_observation \<Rightarrow> (ustring + bool) \<times> account_db" where
  "record_account_quota_probe_success io clock db a limit ob =
     record_probe io clock db a limit ob
       (\<lambda>q. q\<lparr>q_windows := NoWindow, q_blocked_until := None, q_next_probe_after := None,
              q_backoff_level := 0, q_last_result := Some ProbeSuccess\<rparr>)"

definition record_account_quota_probe_still_blocked ::
  "db_outcomes \<Rightarrow> instant \<Rightarrow> account_db \<Rightarrow> ustring \<Rightarrow> ustring \<Rightarrow> probe_observation
   \<Rightarrow> quota_exhausted_windows \<Rightarrow> instant option \<Rightarrow> instant \<Rightarrow> (ustring + bool) \<times> account_db" where
  "record_account_quota_probe_still_blocked io clock db a limit ob windows blocked_until next_probe =
     record_probe io clock db a limit ob
       (\<lambda>q. q\<lparr>q_windows := (if is_exhausted windows then windows else UnknownWindow),
              q_blocked_until := map_option timestamp blocked_until,
              q_next_probe_after := Some (timestamp next_probe), q_backoff_level := 0,
              q_last_result := Some ProbeStillBlocked\<rparr>)"

definition record_account_quota_probe_ambiguous ::
  "db_outcomes \<Rightarrow> instant \<Rightarrow> account_db \<Rightarrow> ustring \<Rightarrow> ustring \<Rightarrow> probe_observation \<Rightarrow> instant \<Rightarrow> instant
   \<Rightarrow> (ustring + bool) \<times> account_db" where
  "record_account_quota_probe_ambiguous io clock db a limit ob blocked_until next_probe =
     record_probe io clock db a limit ob
       (\<lambda>q. q\<lparr>q_windows := (if q_windows q = NoWindow then UnknownWindow else q_windows q),
              q_blocked_until := Some (timestamp blocked_until),
              q_next_probe_after := Some (timestamp next_probe),
              q_backoff_level := q_backoff_level q + 1, q_last_result := Some ProbeAmbiguous\<rparr>)"

definition read_registered_account_selection_quota_state :: "account_db \<Rightarrow> ustring \<Rightarrow> quota_state option" where
  "read_registered_account_selection_quota_state db a =
     read_selection_quota_state db a (read_account_selection_family db a)"

section \<open>Membership\<close>

definition read_account_pool_position :: "account_db \<Rightarrow> ustring \<Rightarrow> int option" where
  "read_account_pool_position db a =
     (case membership_lookup db a of
        Some m \<Rightarrow> Some (mem_position m)
      | None \<Rightarrow> map_option reg_position (registry_lookup db a))"

definition read_effective_account_pool_id :: "account_db \<Rightarrow> ustring \<Rightarrow> ustring option" where
  "read_effective_account_pool_id db a =
     (case membership_lookup db a of
        Some m \<Rightarrow> Some (mem_pool_id m)
      | None \<Rightarrow> (case registry_lookup db a of
                   Some r \<Rightarrow> if reg_pool_id r = [] then None else Some (reg_pool_id r)
                 | None \<Rightarrow> None))"

record account_pool_membership =
  amem_account_id :: ustring
  amem_pool_id :: ustring
  amem_source :: "account_source option"
  amem_enabled :: bool
  amem_healthy :: bool

definition membership_of :: "membership_row \<Rightarrow> registry_row \<Rightarrow> account_pool_membership" where
  "membership_of m r =
     \<lparr>amem_account_id = mem_account_id m, amem_pool_id = mem_pool_id m, amem_source = account_source r,
      amem_enabled = reg_enabled r, amem_healthy = reg_healthy r\<rparr>"

definition read_account_pool_membership_row :: "account_db \<Rightarrow> ustring \<Rightarrow> (membership_row \<times> registry_row) option" where
  "read_account_pool_membership_row db a =
     (case (membership_lookup db a, registry_lookup db a) of (Some m, Some r) \<Rightarrow> Some (m, r) | _ \<Rightarrow> None)"

definition read_account_pool_membership :: "account_db \<Rightarrow> ustring \<Rightarrow> account_pool_membership option" where
  "read_account_pool_membership db a =
     map_option (\<lambda>(m, r). membership_of m r) (read_account_pool_membership_row db a)"

definition by_pool_and_position :: "membership_row \<Rightarrow> membership_row \<Rightarrow> ordering" where
  "by_pool_and_position a b = then_with (cmp_text (mem_pool_id a) (mem_pool_id b)) (by_position a b)"

definition list_account_pool_memberships :: "account_db \<Rightarrow> ustring option \<Rightarrow> account_pool_membership list" where
  "list_account_pool_memberships db pool =
     List.map_filter (\<lambda>m. map_option (membership_of m) (registry_lookup db (mem_account_id m)))
       (sort_by by_pool_and_position
          (filter (\<lambda>m. case pool of None \<Rightarrow> True | Some p \<Rightarrow> mem_pool_id m = p) (memberships db)))"

definition upsert_account_pool_membership ::
  "account_db \<Rightarrow> ustring \<Rightarrow> ustring \<Rightarrow> int \<Rightarrow> int \<Rightarrow> int \<Rightarrow> ustring + account_db" where
  "upsert_account_pool_membership db a pool pos assigned updated =
     (if \<not> is_registered db a then Inl constraint_error
      else Inr (db\<lparr>memberships := upsert_row (\<lambda>m. mem_account_id m = a)
             (\<lambda>m. m\<lparr>mem_pool_id := pool, mem_position := pos, mem_updated_at := updated\<rparr>)
             \<lparr>mem_account_id = a, mem_pool_id = pool, mem_position = pos, mem_assigned_at = assigned,
              mem_updated_at = updated\<rparr> (memberships db)\<rparr>))"

definition sync_account_membership_compat ::
  "account_db \<Rightarrow> ustring \<Rightarrow> ustring \<Rightarrow> int \<Rightarrow> int \<Rightarrow> ustring + bool \<times> account_db" where
  "sync_account_membership_compat db a pool pos updated =
     (case upsert_account_pool_membership db a pool pos updated updated of
        Inl e \<Rightarrow> Inl e
      | Inr db1 \<Rightarrow> Inr (is_registered db1 a,
          db1\<lparr>registry := replace_row (\<lambda>r. reg_account_id r = a)
                (\<lambda>r. r\<lparr>reg_pool_id := pool, reg_position := pos, reg_updated_at := updated\<rparr>) (registry db1),
              runtime_states := replace_row (\<lambda>r. run_account_id r = a)
                (\<lambda>r. r\<lparr>run_pool_id := pool, run_updated_at := updated\<rparr>) (runtime_states db1)\<rparr>))"

definition assign_account_pool ::
  "db_outcomes \<Rightarrow> instant \<Rightarrow> account_db \<Rightarrow> ustring \<Rightarrow> ustring \<Rightarrow> (ustring + bool) \<times> account_db" where
  "assign_account_pool io clock db a pool =
     (case statement_fault io of
        Some e \<Rightarrow> (Inl e, db)
      | None \<Rightarrow>
          (let pos = (case read_account_pool_position db a of Some p \<Rightarrow> p | None \<Rightarrow> 0)
           in case sync_account_membership_compat db a pool pos (timestamp clock) of
                Inl e \<Rightarrow> (Inl e, db)
              | Inr (updated, db1) \<Rightarrow>
                  if \<not> updated then (Inr False, db)
                  else (Inr True, release_unreleased_account_leases db1 a (timestamp clock))))"

section \<open>Health events\<close>

record account_health_event =
  he_account_id :: ustring
  he_pool_id :: ustring
  he_health_state :: account_health_state
  he_sequence_number :: int
  he_observed_at :: instant

definition read_account_health_event_sequence :: "account_db \<Rightarrow> ustring \<Rightarrow> int option" where
  "read_account_health_event_sequence db a = map_option run_sequence (runtime_lookup db a)"

definition merge_runtime_row :: "account_health_event \<Rightarrow> int \<Rightarrow> runtime_row \<Rightarrow> runtime_row" where
  "merge_runtime_row ev updated r =
     (let newer = he_sequence_number ev > run_sequence r
      in r\<lparr>run_pool_id := (if newer then he_pool_id ev else run_pool_id r),
           run_health := (if newer then he_health_state ev else run_health r),
           run_sequence := max (run_sequence r) (he_sequence_number ev),
           run_event_at := (if newer then timestamp (he_observed_at ev) else run_event_at r),
           run_updated_at := updated\<rparr>)"

definition health_pool_event :: "account_health_event \<Rightarrow> pool_event" where
  "health_pool_event ev =
     (case (case he_health_state ev of
              Healthy \<Rightarrow> (''cooldownCleared'', None, '' health recovered'')
            | RateLimited \<Rightarrow> (''cooldownStarted'', Some ''cooldownActive'', '' entered cooldown'')
            | Unauthorized \<Rightarrow> (''authFailed'', Some ''authFailure'', '' authorization failed'')) of
        (typ, reason, what) \<Rightarrow>
          account_pool_event (he_observed_at ev) (he_pool_id ev) (Some (he_account_id ev)) None None typ reason
            (lit ''account '' @ he_account_id ev @ lit what))"

text \<open>The statements of the transaction: the runtime state, the registry, the membership.\<close>

definition record_runtime_health :: "account_db \<Rightarrow> account_health_event \<Rightarrow> int \<Rightarrow> account_db" where
  "record_runtime_health db ev updated =
     db\<lparr>runtime_states := upsert_row (\<lambda>r. run_account_id r = he_account_id ev) (merge_runtime_row ev updated)
          \<lparr>run_account_id = he_account_id ev, run_pool_id = he_pool_id ev, run_health = he_health_state ev,
           run_sequence = he_sequence_number ev, run_event_at = timestamp (he_observed_at ev),
           run_updated_at = updated\<rparr> (runtime_states db)\<rparr>"

definition registry_follows_runtime :: "account_db \<Rightarrow> ustring \<Rightarrow> bool \<Rightarrow> int \<Rightarrow> account_db" where
  "registry_follows_runtime db a has_membership updated =
     db\<lparr>registry := replace_row (\<lambda>r. reg_account_id r = a)
          (\<lambda>r. r\<lparr>reg_pool_id := (if has_membership
                    then (case runtime_lookup db a of Some x \<Rightarrow> run_pool_id x | None \<Rightarrow> reg_pool_id r)
                    else reg_pool_id r),
                 reg_healthy := (case runtime_lookup db a of Some x \<Rightarrow> run_health x = Healthy | None \<Rightarrow> False),
                 reg_updated_at := updated\<rparr>) (registry db)\<rparr>"

definition membership_follows_runtime :: "account_db \<Rightarrow> ustring \<Rightarrow> int \<Rightarrow> ustring + account_db" where
  "membership_follows_runtime db a updated =
     (case runtime_lookup db a of
        None \<Rightarrow> Inr db
      | Some x \<Rightarrow> map_sum id snd (sync_account_membership_compat db a (run_pool_id x)
          (case read_account_pool_position db a of Some p \<Rightarrow> p | None \<Rightarrow> 0) updated))"

definition apply_health_event :: "account_db \<Rightarrow> account_health_event \<Rightarrow> int \<Rightarrow> ustring + account_db" where
  "apply_health_event db ev updated =
     (let a = he_account_id ev; has_membership = (read_account_pool_membership_row db a \<noteq> None)
      in if \<not> is_registered db a then Inl constraint_error
         else
           (let db2 = registry_follows_runtime (record_runtime_health db ev updated) a has_membership updated
            in case (if has_membership then membership_follows_runtime db2 a updated else Inr db2) of
                 Inl e \<Rightarrow> Inl e
               | Inr db3 \<Rightarrow> Inr (append_account_pool_event db3 (health_pool_event ev))))"

text \<open>The retries: the outcomes and the clock of each attempt, and the attempts that are left.\<close>

fun record_health_attempts ::
  "(nat \<Rightarrow> db_outcomes) \<Rightarrow> (nat \<Rightarrow> instant) \<Rightarrow> account_db \<Rightarrow> account_health_event \<Rightarrow> nat
   \<Rightarrow> (ustring + unit) \<times> account_db" where
  "record_health_attempts ios clock db ev 0 = (Inl (lit ''record_account_health_event exceeded retry budget''), db)"
| "record_health_attempts ios clock db ev (Suc left) =
     (let attempt = ACCOUNT_POOL_WRITE_RETRY_ATTEMPTS - Suc left;
          retry = (\<lambda>err. if account_pool_is_locked_error_message err \<and>
                            attempt + 1 < ACCOUNT_POOL_WRITE_RETRY_ATTEMPTS
                         then record_health_attempts ios clock db ev left else (Inl err, db))
      in case begin_account_pool_write_transaction (ios attempt) (lit ''record_account_health_event'') of
           Some err \<Rightarrow> retry err
         | None \<Rightarrow>
             (case (case statement_fault (ios attempt) of
                      Some err \<Rightarrow> Inl err
                    | None \<Rightarrow> apply_health_event db ev (timestamp (clock attempt))) of
                Inl err \<Rightarrow> retry err
              | Inr db1 \<Rightarrow> (Inr (), db1)))"

definition record_account_health_event ::
  "(nat \<Rightarrow> db_outcomes) \<Rightarrow> (nat \<Rightarrow> instant) \<Rightarrow> account_db \<Rightarrow> account_health_event
   \<Rightarrow> (ustring + unit) \<times> account_db" where
  "record_account_health_event ios clock db ev =
     record_health_attempts ios clock db ev ACCOUNT_POOL_WRITE_RETRY_ATTEMPTS"

section \<open>Registration\<close>

definition clashes :: "account_db \<Rightarrow> ustring \<Rightarrow> ustring \<Rightarrow> ustring \<Rightarrow> ustring \<Rightarrow> bool" where
  "clashes db a backend handle fingerprint =
     list_ex (\<lambda>r. reg_account_id r \<noteq> a \<and> backend_id r = backend \<and>
        (provider_fingerprint r = fingerprint \<or> backend_account_handle r = handle)) (registry db)"

definition forget_stale_health :: "account_db \<Rightarrow> ustring \<Rightarrow> bool \<Rightarrow> account_db" where
  "forget_stale_health db a now_healthy =
     db\<lparr>runtime_states := filter (\<lambda>r. \<not> (run_account_id r = a \<and>
          (if now_healthy then run_health r \<noteq> Healthy else run_health r = Healthy))) (runtime_states db)\<rparr>"

definition move_runtime :: "account_db \<Rightarrow> ustring \<Rightarrow> ustring \<Rightarrow> int \<Rightarrow> account_db" where
  "move_runtime db a pool updated =
     db\<lparr>runtime_states := replace_row (\<lambda>r. run_account_id r = a)
          (\<lambda>r. r\<lparr>run_pool_id := pool, run_updated_at := updated\<rparr>) (runtime_states db)\<rparr>"

definition legacy_provider_fingerprint :: "ustring \<Rightarrow> ustring option \<Rightarrow> ustring \<Rightarrow> ustring" where
  "legacy_provider_fingerprint kind workspace a =
     lit ''legacy:'' @ kind @ lit '':'' @ (case workspace of Some w \<Rightarrow> w | None \<Rightarrow> []) @ lit '':'' @ a"

record registry_entry_update =
  ent_account_id :: ustring
  ent_pool_id :: ustring
  ent_position :: int
  ent_account_kind :: ustring
  ent_backend_family :: ustring
  ent_workspace_id :: "ustring option"
  ent_enabled :: bool
  ent_healthy :: bool

definition registry_row_of_entry :: "registry_entry_update \<Rightarrow> int \<Rightarrow> registry_row" where
  "registry_row_of_entry e now =
     \<lparr>reg_account_id = ent_account_id e, backend_id = lit ''local'', backend_family = ent_backend_family e,
      workspace_id = ent_workspace_id e, backend_account_handle = ent_account_id e,
      account_kind_text = ent_account_kind e,
      provider_fingerprint = legacy_provider_fingerprint (ent_account_kind e) (ent_workspace_id e) (ent_account_id e),
      display_name = None, account_source = None, reg_enabled = ent_enabled e, reg_healthy = ent_healthy e,
      reg_pool_id = ent_pool_id e, reg_position = ent_position e, reg_created_at = now, reg_updated_at = now\<rparr>"

definition upsert_registry_entry_body :: "account_db \<Rightarrow> registry_entry_update \<Rightarrow> int \<Rightarrow> ustring + account_db" where
  "upsert_registry_entry_body db e now =
     (let a = ent_account_id e; new = registry_row_of_entry e now;
          previous = read_effective_account_pool_id db a
      in if clashes db a (backend_id new) (backend_account_handle new) (provider_fingerprint new)
         then Inl constraint_error
         else
           (let db1 = db\<lparr>registry := upsert_row (\<lambda>r. reg_account_id r = a)
                  (\<lambda>r. new\<lparr>display_name := display_name r, account_source := account_source r,
                           reg_created_at := reg_created_at r\<rparr>) new (registry db)\<rparr>
            in case upsert_account_pool_membership db1 a (ent_pool_id e) (ent_position e) now now of
                 Inl err \<Rightarrow> Inl err
               | Inr db2 \<Rightarrow>
                   (let db3 = move_runtime (forget_stale_health db2 a (ent_healthy e)) a (ent_pool_id e) now
                    in Inr (if (case previous of Some p \<Rightarrow> p \<noteq> ent_pool_id e | None \<Rightarrow> False) \<or>
                               \<not> ent_enabled e \<or> \<not> ent_healthy e
                            then release_unreleased_account_leases db3 a now else db3))))"

text \<open>Write transactions whose statements may fail by themselves.\<close>

definition in_fallible_transaction ::
  "db_outcomes \<Rightarrow> string \<Rightarrow> account_db \<Rightarrow> (ustring + 'r \<times> account_db) \<Rightarrow> (ustring + 'r) \<times> account_db" where
  "in_fallible_transaction io name db body =
     (case begin_account_pool_write_transaction io (lit name) of
        Some e \<Rightarrow> (Inl e, db)
      | None \<Rightarrow> (case statement_fault io of
                   Some e \<Rightarrow> (Inl e, db)
                 | None \<Rightarrow> (case body of Inl e \<Rightarrow> (Inl e, db) | Inr (r, db1) \<Rightarrow> (Inr r, db1))))"

definition upsert_account_registry_entry ::
  "db_outcomes \<Rightarrow> instant \<Rightarrow> account_db \<Rightarrow> registry_entry_update \<Rightarrow> (ustring + unit) \<times> account_db" where
  "upsert_account_registry_entry io clock db e =
     in_fallible_transaction io ''upsert_account_registry_entry'' db
       (map_sum id (Pair ()) (upsert_registry_entry_body db e (timestamp clock)))"

definition set_account_enabled ::
  "db_outcomes \<Rightarrow> instant \<Rightarrow> account_db \<Rightarrow> ustring \<Rightarrow> bool \<Rightarrow> (ustring + bool) \<times> account_db" where
  "set_account_enabled io clock db a on =
     in_write_transaction io ''set_account_enabled'' db
       (let updated = timestamp clock; found = is_registered db a;
            db1 = db\<lparr>registry := replace_row (\<lambda>r. reg_account_id r = a)
                    (\<lambda>r. r\<lparr>reg_enabled := on, reg_updated_at := updated\<rparr>) (registry db)\<rparr>
        in (found, if found \<and> \<not> on then release_unreleased_account_leases db1 a updated else db1))"

text \<open>Deleting an account deletes what refers to it.\<close>

definition delete_account :: "account_db \<Rightarrow> ustring \<Rightarrow> account_db" where
  "delete_account db a =
     db\<lparr>registry := filter (\<lambda>r. reg_account_id r \<noteq> a) (registry db),
        memberships := filter (\<lambda>m. mem_account_id m \<noteq> a) (memberships db),
        runtime_states := filter (\<lambda>r. run_account_id r \<noteq> a) (runtime_states db),
        leases := filter (\<lambda>l. lease_account_id l \<noteq> a) (leases db),
        quotas := filter (\<lambda>q. q_account_id q \<noteq> a) (quotas db)\<rparr>"

definition remove_account_registry_entry ::
  "db_outcomes \<Rightarrow> instant \<Rightarrow> account_db \<Rightarrow> ustring \<Rightarrow> (ustring + bool) \<times> account_db" where
  "remove_account_registry_entry io clock db a =
     in_write_transaction io ''remove_account_registry_entry'' db
       (if \<not> is_registered db a then (False, db)
        else (True, (delete_account db a)\<lparr>startup := map_option (\<lambda>s.
               if sel_preferred_account_id s = Some a
               then s\<lparr>sel_preferred_account_id := None, sel_updated_at := timestamp clock\<rparr> else s)
             (startup db)\<rparr>))"

record registered_account_upsert = registered_account +
  ups_membership :: "(ustring \<times> int) option"

definition by_given_id_first :: "ustring \<Rightarrow> ustring \<Rightarrow> ustring \<Rightarrow> ordering" where
  "by_given_id_first a x y = then_with (cmp (x \<noteq> a) (y \<noteq> a)) (cmp_text x y)"

definition matching_account_ids :: "account_db \<Rightarrow> registered_account_upsert \<Rightarrow> ustring list" where
  "matching_account_ids db e =
     sort_by (by_given_id_first (reg_account_id e))
       (map reg_account_id (filter (\<lambda>r. backend_id r = backend_id e \<and>
          (backend_account_handle r = backend_account_handle e \<or>
           provider_fingerprint r = provider_fingerprint e)) (registry db)))"

definition registry_row_of_upsert :: "registered_account_upsert \<Rightarrow> ustring \<Rightarrow> int \<Rightarrow> registry_row" where
  "registry_row_of_upsert e a now =
     \<lparr>reg_account_id = a, backend_id = backend_id e, backend_family = backend_family e,
      workspace_id = workspace_id e, backend_account_handle = backend_account_handle e,
      account_kind_text = account_kind_text e, provider_fingerprint = provider_fingerprint e,
      display_name = display_name e, account_source = account_source e, reg_enabled = reg_enabled e,
      reg_healthy = reg_healthy e,
      reg_pool_id = (case ups_membership e of Some (pool, _) \<Rightarrow> pool | None \<Rightarrow> []),
      reg_position = (case ups_membership e of Some (_, pos) \<Rightarrow> pos | None \<Rightarrow> 0),
      reg_created_at = now, reg_updated_at = now\<rparr>"

definition upsert_registered_body ::
  "account_db \<Rightarrow> registered_account_upsert \<Rightarrow> ustring \<Rightarrow> int \<Rightarrow> ustring + ustring \<times> account_db" where
  "upsert_registered_body db e a now =
     (let previous = read_effective_account_pool_id db a; new = registry_row_of_upsert e a now;
          db1 = db\<lparr>registry := upsert_row (\<lambda>r. reg_account_id r = a)
             (\<lambda>r. new\<lparr>workspace_id := (if workspace_id e = None then workspace_id r else workspace_id e),
                      account_source := (if account_source e = None then account_source r else account_source e),
                      reg_created_at := reg_created_at r\<rparr>) new (registry db)\<rparr>
      in if clashes db a (backend_id e) (backend_account_handle e) (provider_fingerprint e)
         then Inl constraint_error
         else case (case ups_membership e of
                      Some (pool, pos) \<Rightarrow> upsert_account_pool_membership db1 a pool pos now now
                    | None \<Rightarrow> Inr (db1\<lparr>memberships := filter (\<lambda>m. mem_account_id m \<noteq> a) (memberships db1)\<rparr>)) of
                Inl err \<Rightarrow> Inl err
              | Inr db2 \<Rightarrow>
                  (let db3 = forget_stale_health db2 a (reg_healthy e);
                       db4 = (case ups_membership e of
                                Some (pool, _) \<Rightarrow> move_runtime db3 a pool now
                              | None \<Rightarrow> db3\<lparr>runtime_states := filter (\<lambda>r. run_account_id r \<noteq> a) (runtime_states db3)\<rparr>)
                   in Inr (a, if previous \<noteq> map_option fst (ups_membership e) \<or> ups_membership e = None \<or>
                                 \<not> reg_enabled e \<or> \<not> reg_healthy e
                              then release_unreleased_account_leases db4 a now else db4)))"

definition upsert_registered_account ::
  "db_outcomes \<Rightarrow> instant \<Rightarrow> account_db \<Rightarrow> registered_account_upsert \<Rightarrow> (ustring + ustring) \<times> account_db" where
  "upsert_registered_account io clock db e =
     (case statement_fault io of
        Some err \<Rightarrow> (Inl err, db)
      | None \<Rightarrow>
          (let conflict = lit ''conflicting registered accounts for backend_id='' @ backend_id e @
                 lit '' handle='' @ backend_account_handle e @ lit '' fingerprint='' @ provider_fingerprint e;
               run = (\<lambda>a. case upsert_registered_body db e a (timestamp clock) of
                            Inl err \<Rightarrow> (Inl err, db) | Inr (r, db1) \<Rightarrow> (Inr r, db1))
           in case matching_account_ids db e of
                [] \<Rightarrow> run (reg_account_id e)
              | [a] \<Rightarrow> run a
              | _ \<Rightarrow> (Inl conflict, db)))"

definition read_registered_account :: "account_db \<Rightarrow> ustring \<Rightarrow> registered_account option" where
  "read_registered_account db a = map_option registered_account.truncate (registry_lookup db a)"

end
