(* ===== verification/AccountStartup.thy ===== *)
theory AccountStartup
  imports AccountControl
begin

text \<open>
  Which pool and which account a fresh runtime starts with: the persisted selection and the
  import of a legacy account (\<open>state/src/runtime/account_pool.rs\<close>), registrations that are
  under way (\<open>account_pool_control.rs\<close>), the default pool's commands
  (\<open>account-pool/src/startup_default.rs\<close>) and the two ways a status is computed: by the
  runtime itself and, for any backend, by \<open>account-pool/src/startup_resolution.rs\<close>. They agree
  (\<open>startup_status_agrees\<close>). A status is computed from one database and one reading of the
  clock: its reads do not fail here, where the code passes a storage error of any of them on,
  and no other process writes between them.
\<close>

section \<open>Data\<close>

text \<open>\<open>AccountStartupSelectionState\<close> and \<open>AccountStartupSelectionUpdate\<close>.\<close>

record startup_state =
  st_default_pool_id :: "ustring option"
  st_preferred_account_id :: "ustring option"
  st_suppressed :: bool

record candidate_pool =
  cand_pool_id :: ustring
  cand_display_name :: "ustring option"
  cand_status :: "ustring option"

datatype startup_eligibility =
    SelectionSuppressed
  | MissingPool
  | PreferredAccountSelected
  | AutomaticAccountSelected
  | PreferredAccountMissing
  | PreferredAccountInOtherPool ustring
  | PreferredAccountDisabled
  | PreferredAccountUnhealthy
  | PreferredAccountBusy
  | NoEligibleStartupAccount

record startup_preview =
  prev_effective_pool_id :: "ustring option"
  prev_preferred_account_id :: "ustring option"
  prev_suppressed :: bool
  prev_predicted_account_id :: "ustring option"
  prev_eligibility :: startup_eligibility

datatype resolution_source =
    OverrideSource
  | ConfigDefault
  | PersistedSelection
  | SingleVisiblePool
  | NoSource

datatype startup_availability =
    StartupAvailable
  | StartupSuppressed
  | MultiplePoolsRequireDefault
  | InvalidExplicitDefault
  | StartupUnavailable

datatype resolution_issue_kind =
    ManyPoolsNeedDefault
  | OverridePoolUnavailable
  | ConfigDefaultPoolUnavailable
  | PersistedDefaultPoolUnavailable

record resolution_issue =
  issue_kind :: resolution_issue_kind
  issue_source :: resolution_source
  issue_pool_id :: "ustring option"
  issue_pool_count :: "nat option"
  issue_pools :: "candidate_pool list option"
  issue_message :: "ustring option"

record startup_status =
  status_preview :: startup_preview
  status_configured_default :: "ustring option"
  status_persisted_default :: "ustring option"
  status_source :: resolution_source
  status_availability :: startup_availability
  status_issue :: "resolution_issue option"
  status_pools :: "candidate_pool list"

datatype preferred_outcome =
    PreferredSelected
  | PreferredMissing
  | PreferredInOtherPool ustring
  | PreferredDisabled
  | PreferredUnhealthy
  | PreferredBusy

record selection_facts =
  preferred_account_outcome :: "preferred_outcome option"
  facts_predicted_account_id :: "ustring option"
  any_eligible_account :: bool

record resolution_input =
  override_pool_id :: "ustring option"
  configured_default_pool_id :: "ustring option"
  persisted_default_pool_id :: "ustring option"
  persisted_preferred_account_id :: "ustring option"
  input_suppressed :: bool
  input_inventory :: "candidate_pool list"

section \<open>Which pool\<close>

type_synonym pool_resolution =
  "ustring option \<times> resolution_source \<times> startup_availability option \<times> resolution_issue option"

text \<open>A pool that was named, by whatever source.\<close>

definition named_pool ::
  "candidate_pool list \<Rightarrow> ustring \<Rightarrow> resolution_source \<Rightarrow> resolution_issue_kind \<Rightarrow> pool_resolution" where
  "named_pool pools pool source kind =
     (if pool \<in> set (map cand_pool_id pools) then (Some pool, source, None, None)
      else (None, source, Some InvalidExplicitDefault,
        Some \<lparr>issue_kind = kind, issue_source = source, issue_pool_id = Some pool,
              issue_pool_count = Some (length pools), issue_pools = Some pools, issue_message = None\<rparr>))"

text \<open>No pool was named.\<close>

definition unnamed_pool :: "candidate_pool list \<Rightarrow> pool_resolution" where
  "unnamed_pool pools =
     (case pools of
        [] \<Rightarrow> (None, NoSource, Some StartupUnavailable, None)
      | [p] \<Rightarrow> (Some (cand_pool_id p), SingleVisiblePool, None, None)
      | _ \<Rightarrow> (None, NoSource, Some MultiplePoolsRequireDefault,
          Some \<lparr>issue_kind = ManyPoolsNeedDefault, issue_source = NoSource, issue_pool_id = None,
                issue_pool_count = Some (length pools), issue_pools = Some pools, issue_message = None\<rparr>))"

definition availability :: "startup_availability option \<Rightarrow> bool \<Rightarrow> startup_availability" where
  "availability settled suppressed =
     (case settled of Some a \<Rightarrow> a | None \<Rightarrow> if suppressed then StartupSuppressed else StartupAvailable)"

section \<open>The resolution for any backend\<close>

definition by_pool_id :: "candidate_pool \<Rightarrow> candidate_pool \<Rightarrow> ordering" where
  "by_pool_id l r = cmp_text (cand_pool_id l) (cand_pool_id r)"

definition resolve_pool :: "resolution_input \<Rightarrow> candidate_pool list \<Rightarrow> pool_resolution" where
  "resolve_pool input pools =
     (case override_pool_id input of
        Some pool \<Rightarrow> named_pool pools pool OverrideSource OverridePoolUnavailable
      | None \<Rightarrow> (case configured_default_pool_id input of
          Some pool \<Rightarrow> named_pool pools pool ConfigDefault ConfigDefaultPoolUnavailable
        | None \<Rightarrow> (case persisted_default_pool_id input of
            Some pool \<Rightarrow> named_pool pools pool PersistedSelection PersistedDefaultPoolUnavailable
          | None \<Rightarrow> unnamed_pool pools)))"

fun eligibility_of_outcome :: "preferred_outcome \<Rightarrow> startup_eligibility" where
  "eligibility_of_outcome PreferredSelected = PreferredAccountSelected"
| "eligibility_of_outcome PreferredMissing = PreferredAccountMissing"
| "eligibility_of_outcome (PreferredInOtherPool p) = PreferredAccountInOtherPool p"
| "eligibility_of_outcome PreferredDisabled = PreferredAccountDisabled"
| "eligibility_of_outcome PreferredUnhealthy = PreferredAccountUnhealthy"
| "eligibility_of_outcome PreferredBusy = PreferredAccountBusy"

definition eligibility_of_facts ::
  "ustring option \<Rightarrow> selection_facts \<Rightarrow> ustring + startup_eligibility \<times> ustring option" where
  "eligibility_of_facts preferred facts =
     (case preferred of
        Some a \<Rightarrow>
          (case preferred_account_outcome facts of
             None \<Rightarrow> Inl (lit ''preferred account outcome missing for persisted preferred account'')
           | Some outcome \<Rightarrow> Inr (eligibility_of_outcome outcome,
               if eligibility_of_outcome outcome = PreferredAccountSelected then Some a else None))
      | None \<Rightarrow>
          (let predicted = (if any_eligible_account facts then facts_predicted_account_id facts else None)
           in Inr (if predicted \<noteq> None then AutomaticAccountSelected else NoEligibleStartupAccount, predicted)))"

definition preview_with_facts ::
  "resolution_input \<Rightarrow> (ustring \<Rightarrow> ustring + selection_facts) \<Rightarrow> ustring option \<Rightarrow> ustring + startup_preview" where
  "preview_with_facts input facts_for_pool effective =
     (let preferred = persisted_preferred_account_id input
      in case effective of
           None \<Rightarrow> Inr \<lparr>prev_effective_pool_id = None, prev_preferred_account_id = preferred,
             prev_suppressed = input_suppressed input, prev_predicted_account_id = None,
             prev_eligibility = MissingPool\<rparr>
         | Some pool \<Rightarrow>
             (case facts_for_pool pool of
                Inl e \<Rightarrow> Inl e
              | Inr facts \<Rightarrow>
                  map_sum id (\<lambda>(eligibility, predicted).
                      \<lparr>prev_effective_pool_id = Some pool, prev_preferred_account_id = preferred,
                       prev_suppressed = input_suppressed input, prev_predicted_account_id = predicted,
                       prev_eligibility = eligibility\<rparr>)
                    (eligibility_of_facts preferred facts)))"

definition resolve_startup_status ::
  "resolution_input \<Rightarrow> (ustring \<Rightarrow> ustring + selection_facts) \<Rightarrow> ustring + startup_status" where
  "resolve_startup_status input facts_for_pool =
     (let pools = sort_by by_pool_id (input_inventory input)
      in case resolve_pool input pools of (effective, source, settled, issue) \<Rightarrow>
           map_sum id (\<lambda>preview.
               \<lparr>status_preview = preview, status_configured_default = configured_default_pool_id input,
                status_persisted_default = persisted_default_pool_id input, status_source = source,
                status_availability = availability settled (input_suppressed input),
                status_issue = issue, status_pools = pools\<rparr>)
             (preview_with_facts input facts_for_pool effective))"

section \<open>The runtime's own status\<close>

definition read_account_startup_selection :: "account_db \<Rightarrow> startup_state" where
  "read_account_startup_selection db =
     (case startup db of
        Some s \<Rightarrow> \<lparr>st_default_pool_id = sel_default_pool_id s,
                   st_preferred_account_id = sel_preferred_account_id s, st_suppressed = sel_suppressed s\<rparr>
      | None \<Rightarrow> \<lparr>st_default_pool_id = None, st_preferred_account_id = None, st_suppressed = False\<rparr>)"

definition read_account_startup_inventory :: "account_db \<Rightarrow> candidate_pool list" where
  "read_account_startup_inventory db =
     map (\<lambda>p. \<lparr>cand_pool_id = p, cand_display_name = None, cand_status = None\<rparr>)
       (sort_by cmp_text
          (remdups (map mem_pool_id (filter (\<lambda>m. is_registered db (mem_account_id m)) (memberships db)))))"

text \<open>What stands against the account the user prefers.\<close>

definition preferred_eligibility :: "account_db \<Rightarrow> instant \<Rightarrow> ustring \<Rightarrow> ustring \<Rightarrow> startup_eligibility" where
  "preferred_eligibility db now pool a =
     (case read_account_pool_membership db a of
        None \<Rightarrow> PreferredAccountMissing
      | Some m \<Rightarrow>
          if amem_pool_id m \<noteq> pool then PreferredAccountInOtherPool (amem_pool_id m)
          else if \<not> amem_enabled m then PreferredAccountDisabled
          else if \<not> not_unauthorized db a \<or>
              (case read_registered_account_selection_quota_state db a of
                 Some q \<Rightarrow> is_exhausted (exhausted_windows q) | None \<Rightarrow> False)
          then PreferredAccountUnhealthy
          else if account_has_active_lease db a now then PreferredAccountBusy
          else PreferredAccountSelected)"

definition preview_with_selection ::
  "account_db \<Rightarrow> instant \<Rightarrow> startup_state \<Rightarrow> ustring option \<Rightarrow> bool \<Rightarrow> startup_preview" where
  "preview_with_selection db now sel effective allow_suppressed_short_circuit =
     (let result = (\<lambda>pool predicted eligibility.
          \<lparr>prev_effective_pool_id = pool, prev_preferred_account_id = st_preferred_account_id sel,
           prev_suppressed = st_suppressed sel, prev_predicted_account_id = predicted,
           prev_eligibility = eligibility\<rparr>)
      in if allow_suppressed_short_circuit \<and> st_suppressed sel then result effective None SelectionSuppressed
         else case effective of
                None \<Rightarrow> result None None MissingPool
              | Some pool \<Rightarrow>
                  (case st_preferred_account_id sel of
                     Some a \<Rightarrow>
                       (let eligibility = preferred_eligibility db now pool a
                        in result (Some pool) (if eligibility = PreferredAccountSelected then Some a else None)
                             eligibility)
                   | None \<Rightarrow>
                       (let predicted = read_first_eligible_account_id db pool now
                        in result (Some pool) predicted
                             (if predicted \<noteq> None then AutomaticAccountSelected else NoEligibleStartupAccount))))"

definition preview_account_startup_selection :: "account_db \<Rightarrow> instant \<Rightarrow> ustring option \<Rightarrow> startup_preview" where
  "preview_account_startup_selection db now configured =
     (let sel = read_account_startup_selection db
      in preview_with_selection db now sel
           (if configured = None then st_default_pool_id sel else configured) True)"

definition preview_account_startup_selection_without_suppression ::
  "account_db \<Rightarrow> instant \<Rightarrow> ustring option \<Rightarrow> startup_preview" where
  "preview_account_startup_selection_without_suppression db now effective =
     preview_with_selection db now (read_account_startup_selection db) effective False"

definition runtime_resolve_pool :: "ustring option \<Rightarrow> ustring option \<Rightarrow> candidate_pool list \<Rightarrow> pool_resolution" where
  "runtime_resolve_pool configured persisted pools =
     (case configured of
        Some pool \<Rightarrow> named_pool pools pool ConfigDefault ConfigDefaultPoolUnavailable
      | None \<Rightarrow> (case persisted of
          Some pool \<Rightarrow> named_pool pools pool PersistedSelection PersistedDefaultPoolUnavailable
        | None \<Rightarrow> unnamed_pool pools))"

definition read_account_startup_status :: "account_db \<Rightarrow> instant \<Rightarrow> ustring option \<Rightarrow> startup_status" where
  "read_account_startup_status db now configured =
     (let sel = read_account_startup_selection db; persisted = st_default_pool_id sel;
          pools = read_account_startup_inventory db
      in case runtime_resolve_pool configured persisted pools of (effective, source, settled, issue) \<Rightarrow>
           \<lparr>status_preview = preview_with_selection db now sel effective False,
            status_configured_default = configured, status_persisted_default = persisted,
            status_source = source, status_availability = availability settled (st_suppressed sel),
            status_issue = issue, status_pools = pools\<rparr>)"

section \<open>What the local backend tells the shared resolution\<close>

definition outcome_of_eligibility :: "startup_eligibility \<Rightarrow> preferred_outcome option" where
  "outcome_of_eligibility e =
     (case e of
        PreferredAccountSelected \<Rightarrow> Some PreferredSelected
      | PreferredAccountMissing \<Rightarrow> Some PreferredMissing
      | PreferredAccountInOtherPool p \<Rightarrow> Some (PreferredInOtherPool p)
      | PreferredAccountDisabled \<Rightarrow> Some PreferredDisabled
      | PreferredAccountUnhealthy \<Rightarrow> Some PreferredUnhealthy
      | PreferredAccountBusy \<Rightarrow> Some PreferredBusy
      | _ \<Rightarrow> None)"

definition local_startup_selection_facts :: "account_db \<Rightarrow> instant \<Rightarrow> ustring \<Rightarrow> selection_facts" where
  "local_startup_selection_facts db now pool =
     (let predicted = read_first_eligible_account_id db pool now;
          preview = preview_account_startup_selection_without_suppression db now (Some pool)
      in \<lparr>preferred_account_outcome = outcome_of_eligibility (prev_eligibility preview),
          facts_predicted_account_id = predicted, any_eligible_account = predicted \<noteq> None\<rparr>)"

record shared_startup_status =
  shared_startup :: startup_status
  pooled_applicable :: bool

definition resolution_input_of ::
  "startup_state \<Rightarrow> candidate_pool list \<Rightarrow> ustring option \<Rightarrow> ustring option \<Rightarrow> resolution_input" where
  "resolution_input_of sel inventory configured override =
     \<lparr>override_pool_id = override, configured_default_pool_id = configured,
      persisted_default_pool_id = st_default_pool_id sel,
      persisted_preferred_account_id = st_preferred_account_id sel,
      input_suppressed = st_suppressed sel, input_inventory = inventory\<rparr>"

definition read_shared_startup_status ::
  "startup_state \<Rightarrow> candidate_pool list \<Rightarrow> (ustring \<Rightarrow> ustring + selection_facts)
   \<Rightarrow> ustring option \<Rightarrow> ustring option \<Rightarrow> ustring + shared_startup_status" where
  "read_shared_startup_status sel inventory facts configured override =
     map_sum id (\<lambda>status. \<lparr>shared_startup = status,
         pooled_applicable = (status_availability status \<noteq> StartupUnavailable)\<rparr>)
       (resolve_startup_status (resolution_input_of sel inventory configured override) facts)"

definition local_shared_startup_status ::
  "account_db \<Rightarrow> instant \<Rightarrow> ustring option \<Rightarrow> ustring option \<Rightarrow> ustring + shared_startup_status" where
  "local_shared_startup_status db now configured override =
     read_shared_startup_status (read_account_startup_selection db) (read_account_startup_inventory db)
       (\<lambda>pool. Inr (local_startup_selection_facts db now pool)) configured override"

section \<open>Writing the selection\<close>

definition LEGACY_DEFAULT_POOL_ID :: ustring where
  "LEGACY_DEFAULT_POOL_ID = lit ''legacy-default''"

definition selection_event_pool :: "account_db \<Rightarrow> startup_state \<Rightarrow> ustring" where
  "selection_event_pool db update =
     (let pool_of = (\<lambda>a. case read_effective_account_pool_id db a of
            Some p \<Rightarrow> p | None \<Rightarrow> LEGACY_DEFAULT_POOL_ID);
          previous = read_account_startup_selection db
      in case st_default_pool_id update of
           Some pool \<Rightarrow> pool
         | None \<Rightarrow> (case st_preferred_account_id update of
             Some a \<Rightarrow> pool_of a
           | None \<Rightarrow> (case st_default_pool_id previous of
               Some pool \<Rightarrow> pool
             | None \<Rightarrow> (case st_preferred_account_id previous of
                 Some a \<Rightarrow> pool_of a
               | None \<Rightarrow> LEGACY_DEFAULT_POOL_ID))))"

definition selection_event :: "account_db \<Rightarrow> instant \<Rightarrow> startup_state \<Rightarrow> pool_event" where
  "selection_event db clock update =
     (let pool = selection_event_pool db update;
          event = (\<lambda>typ reason message. account_pool_event clock pool (st_preferred_account_id update) None None
            typ (Some reason) message)
      in if st_suppressed update
         then event ''proactiveSwitchSuppressed'' ''durablySuppressed'' (lit ''startup selection is durably suppressed'')
         else case st_preferred_account_id update of
                Some a \<Rightarrow> event ''proactiveSwitchSelected'' ''preferredAccountSelected''
                  (lit ''startup selection durably prefers account '' @ a)
              | None \<Rightarrow>
                  if st_default_pool_id update \<noteq> None
                  then event ''proactiveSwitchSelected'' ''automaticAccountSelected''
                    (lit ''startup selection durably targets pool '' @ pool)
                  else event ''proactiveSwitchSelected'' ''missingPool''
                    (lit ''startup selection durably clears the selected pool''))"

definition write_account_startup_selection ::
  "db_outcomes \<Rightarrow> instant \<Rightarrow> account_db \<Rightarrow> startup_state \<Rightarrow> (ustring + unit) \<times> account_db" where
  "write_account_startup_selection io clock db update =
     in_write_transaction io ''write_account_startup_selection'' db
       ((), append_account_pool_event
          (db\<lparr>startup := Some \<lparr>sel_default_pool_id = st_default_pool_id update,
              sel_preferred_account_id = st_preferred_account_id update,
              sel_suppressed = st_suppressed update, sel_updated_at = timestamp clock\<rparr>\<rparr>)
          (selection_event db clock update))"

text \<open>The import of an account from before the pool.\<close>

definition legacy_registry_row :: "ustring \<Rightarrow> int \<Rightarrow> registry_row" where
  "legacy_registry_row a now =
     \<lparr>reg_account_id = a, backend_id = lit ''local'', backend_family = lit ''chatgpt'', workspace_id = None,
      backend_account_handle = a, account_kind_text = lit ''chatgpt'',
      provider_fingerprint = legacy_provider_fingerprint (lit ''chatgpt'') None a,
      display_name = None, account_source = Some Migrated, reg_enabled = True, reg_healthy = True,
      reg_pool_id = LEGACY_DEFAULT_POOL_ID, reg_position = 0, reg_created_at = now, reg_updated_at = now\<rparr>"

definition import_legacy_body :: "account_db \<Rightarrow> ustring \<Rightarrow> int \<Rightarrow> ustring + unit \<times> account_db" where
  "import_legacy_body db a now =
     (let pool = (case read_account_pool_membership_row db a of
                    Some (m, _) \<Rightarrow> mem_pool_id m | None \<Rightarrow> LEGACY_DEFAULT_POOL_ID);
          position = (case read_account_pool_membership_row db a of Some (m, _) \<Rightarrow> mem_position m | None \<Rightarrow> 0);
          new = legacy_registry_row a now;
          db1 = db\<lparr>registry := upsert_row (\<lambda>r. reg_account_id r = a)
                  (\<lambda>r. r\<lparr>account_source := (if account_source r \<noteq> None then account_source r
                         else if reg_pool_id r = LEGACY_DEFAULT_POOL_ID then account_source r
                         else Some Migrated)\<rparr>) new (registry db)\<rparr>
      in if \<not> is_registered db a \<and> clashes db a (backend_id new) (backend_account_handle new) (provider_fingerprint new)
         then Inl constraint_error
         else case upsert_account_pool_membership db1 a pool position now now of
                Inl e \<Rightarrow> Inl e
              | Inr db2 \<Rightarrow>
                  Inr ((), db2\<lparr>startup :=
                    (let fresh = \<lparr>sel_default_pool_id = Some pool, sel_preferred_account_id = Some a,
                                  sel_suppressed = False, sel_updated_at = now\<rparr>
                     in case startup db2 of
                          None \<Rightarrow> Some fresh
                        | Some s \<Rightarrow>
                            if sel_default_pool_id s = None \<and> sel_preferred_account_id s = None \<and>
                               \<not> sel_suppressed s
                            then Some fresh else Some s)\<rparr>))"

definition import_legacy_default_account ::
  "db_outcomes \<Rightarrow> instant \<Rightarrow> account_db \<Rightarrow> ustring \<Rightarrow> (ustring + unit) \<times> account_db" where
  "import_legacy_default_account io clock db a =
     in_fallible_transaction io ''import_legacy_default_account'' db (import_legacy_body db a (timestamp clock))"

section \<open>The default pool\<close>

record default_pool_outcome =
  state_changed :: bool
  outcome_default_pool_id :: "ustring option"
  still_config_controlled :: bool
  outcome_suppressed :: bool
  preferred_account_cleared :: bool

definition set_local_default_pool ::
  "db_outcomes \<Rightarrow> instant \<Rightarrow> account_db \<Rightarrow> ustring \<Rightarrow> ustring option
   \<Rightarrow> (ustring + default_pool_outcome) \<times> account_db" where
  "set_local_default_pool io clock db pool configured =
     (if \<not> list_ex (\<lambda>p. cand_pool_id p = pool) (read_account_startup_inventory db)
      then (Inl (lit ''pool '' @ pool @ lit '' is not visible in local startup inventory''), db)
      else
        (let sel = read_account_startup_selection db; by_config = (configured \<noteq> None);
             cleared = (\<not> by_config \<and> st_preferred_account_id sel \<noteq> None);
             changed = (st_default_pool_id sel \<noteq> Some pool \<or> cleared);
             outcome = \<lparr>state_changed = changed, outcome_default_pool_id = Some pool,
               still_config_controlled = by_config, outcome_suppressed = st_suppressed sel,
               preferred_account_cleared = cleared\<rparr>
         in if \<not> changed then (Inr outcome, db)
            else case write_account_startup_selection io clock db
                   \<lparr>st_default_pool_id = Some pool,
                    st_preferred_account_id = (if by_config then st_preferred_account_id sel else None),
                    st_suppressed = st_suppressed sel\<rparr> of
                   (Inl e, db1) \<Rightarrow> (Inl e, db1)
                 | (Inr _, db1) \<Rightarrow> (Inr outcome, db1)))"

definition clear_local_default_pool ::
  "db_outcomes \<Rightarrow> instant \<Rightarrow> account_db \<Rightarrow> ustring option \<Rightarrow> (ustring + default_pool_outcome) \<times> account_db" where
  "clear_local_default_pool io clock db configured =
     (let sel = read_account_startup_selection db; by_config = (configured \<noteq> None);
          changed = (st_default_pool_id sel \<noteq> None);
          outcome = \<lparr>state_changed = changed, outcome_default_pool_id = None,
            still_config_controlled = by_config, outcome_suppressed = st_suppressed sel,
            preferred_account_cleared =
              (st_default_pool_id sel \<noteq> None \<and> \<not> by_config \<and> st_preferred_account_id sel \<noteq> None)\<rparr>
      in if \<not> changed then (Inr outcome, db)
         else case write_account_startup_selection io clock db
                \<lparr>st_default_pool_id = None,
                 st_preferred_account_id = (if by_config then st_preferred_account_id sel else None),
                 st_suppressed = st_suppressed sel\<rparr> of
                (Inl e, db1) \<Rightarrow> (Inl e, db1)
              | (Inr _, db1) \<Rightarrow> (Inr outcome, db1))"

section \<open>Registrations under way\<close>

record new_pending_registration =
  new_idempotency_key :: ustring
  new_backend_id :: ustring
  new_provider_kind :: ustring
  new_target_pool_id :: "ustring option"
  new_backend_account_handle :: "ustring option"
  new_account_id :: "ustring option"

text \<open>One statement outside a transaction of its own.\<close>

definition run_statement :: "db_outcomes \<Rightarrow> account_db \<Rightarrow> 'r \<times> account_db \<Rightarrow> (ustring + 'r) \<times> account_db" where
  "run_statement io db body =
     (case statement_fault io of Some e \<Rightarrow> (Inl e, db) | None \<Rightarrow> (Inr (fst body), snd body))"

definition create_pending_account_registration ::
  "db_outcomes \<Rightarrow> instant \<Rightarrow> account_db \<Rightarrow> new_pending_registration \<Rightarrow> (ustring + unit) \<times> account_db" where
  "create_pending_account_registration io clock db e =
     run_statement io db ((), db\<lparr>pending_registrations :=
       upsert_row (\<lambda>p. idempotency_key p = new_idempotency_key e)
         (\<lambda>p. if completed_at p \<noteq> None then p
              else p\<lparr>pend_backend_id := new_backend_id e, provider_kind := new_provider_kind e,
                     target_pool_id := new_target_pool_id e,
                     pend_backend_account_handle := new_backend_account_handle e,
                     pend_account_id := new_account_id e, pend_updated_at := timestamp clock\<rparr>)
         \<lparr>idempotency_key = new_idempotency_key e, pend_backend_id = new_backend_id e,
          provider_kind = new_provider_kind e, target_pool_id = new_target_pool_id e,
          pend_backend_account_handle = new_backend_account_handle e, pend_account_id = new_account_id e,
          completed_at = None, started_at = timestamp clock, pend_updated_at = timestamp clock\<rparr>
         (pending_registrations db)\<rparr>)"

definition oldest_first :: "pending_registration \<Rightarrow> pending_registration \<Rightarrow> ordering" where
  "oldest_first a b =
     then_with (cmp (started_at a) (started_at b)) (cmp_text (idempotency_key a) (idempotency_key b))"

definition pending_from_row :: "pending_registration \<Rightarrow> pending_registration" where
  "pending_from_row p = p\<lparr>completed_at := map_option secs (completed_at p)\<rparr>"

definition list_pending_account_registrations :: "account_db \<Rightarrow> pending_registration list" where
  "list_pending_account_registrations db =
     map pending_from_row (sort_by oldest_first (filter (\<lambda>p. completed_at p = None) (pending_registrations db)))"

definition read_pending_account_registration :: "account_db \<Rightarrow> ustring \<Rightarrow> pending_registration option" where
  "read_pending_account_registration db key =
     map_option pending_from_row (find (\<lambda>p. idempotency_key p = key) (pending_registrations db))"

definition finalize_pending_account_registration ::
  "db_outcomes \<Rightarrow> instant \<Rightarrow> account_db \<Rightarrow> ustring \<Rightarrow> ustring \<Rightarrow> ustring \<Rightarrow> (ustring + bool) \<times> account_db" where
  "finalize_pending_account_registration io clock db key handle a =
     run_statement io db
       (let hit = (\<lambda>p. idempotency_key p = key \<and> completed_at p = None)
        in (list_ex hit (pending_registrations db),
            db\<lparr>pending_registrations := replace_row hit
              (\<lambda>p. p\<lparr>pend_backend_account_handle := Some handle, pend_account_id := Some a,
                     completed_at := Some (timestamp clock), pend_updated_at := timestamp clock\<rparr>)
              (pending_registrations db)\<rparr>))"

definition clear_pending_account_registration ::
  "db_outcomes \<Rightarrow> account_db \<Rightarrow> ustring \<Rightarrow> (ustring + bool) \<times> account_db" where
  "clear_pending_account_registration io db key =
     run_statement io db
       (list_ex (\<lambda>p. idempotency_key p = key) (pending_registrations db),
        db\<lparr>pending_registrations := filter (\<lambda>p. idempotency_key p \<noteq> key) (pending_registrations db)\<rparr>)"

definition write_account_compat_migration_state ::
  "db_outcomes \<Rightarrow> account_db \<Rightarrow> bool \<Rightarrow> (ustring + unit) \<times> account_db" where
  "write_account_compat_migration_state io db completed =
     run_statement io db ((), db\<lparr>legacy_import_completed := completed\<rparr>)"

section \<open>Both ways to compute a status agree\<close>

lemma sort_by_of_sorted: "sorted_wrt (\<lambda>a b. c a b \<noteq> Greater) xs \<Longrightarrow> sort_by c xs = xs"
proof (induction xs)
  case (Cons x xs)
  then show ?case by (cases xs) auto
qed simp

lemma ranking_text: "ranking cmp_text UNIV"
  using ranks_cmp_text [of "\<lambda>x. x"] by (simp add: ranking_iff)

interpretation pool_ids: ranking cmp_text UNIV
  by (rule ranking_text)

lemma inventory_sorted: "sort_by by_pool_id (read_account_startup_inventory db) = read_account_startup_inventory db"
  unfolding read_account_startup_inventory_def
  by (rule sort_by_of_sorted)
    (use pool_ids.sort_by_sorted in \<open>simp add: sorted_wrt_map by_pool_id_def\<close>)

lemma eligibility_there_and_back:
  "outcome_of_eligibility e = Some outcome \<Longrightarrow> eligibility_of_outcome outcome = e"
  by (auto simp: outcome_of_eligibility_def split: startup_eligibility.splits)

lemma preferred_eligibility_is_outcome: "outcome_of_eligibility (preferred_eligibility db now pool a) \<noteq> None"
  by (simp add: preferred_eligibility_def outcome_of_eligibility_def split: option.split)

lemma preview_without_suppression_eligibility:
  "st_preferred_account_id (read_account_startup_selection db) = Some a \<Longrightarrow>
   prev_eligibility (preview_account_startup_selection_without_suppression db now (Some pool)) =
     preferred_eligibility db now pool a"
  by (simp add: preview_account_startup_selection_without_suppression_def preview_with_selection_def Let_def)

lemma previews_agree:
  "preview_with_facts (resolution_input_of (read_account_startup_selection db) inventory configured override)
     (\<lambda>pool. Inr (local_startup_selection_facts db now pool)) effective =
   Inr (preview_with_selection db now (read_account_startup_selection db) effective False)"
proof (cases effective)
  case (Some pool)
  show ?thesis
  proof (cases "st_preferred_account_id (read_account_startup_selection db)")
    case None
    with Some show ?thesis
      by (simp add: preview_with_facts_def preview_with_selection_def resolution_input_of_def
          eligibility_of_facts_def local_startup_selection_facts_def Let_def)
  next
    case (Some a)
    obtain outcome where o: "outcome_of_eligibility (preferred_eligibility db now pool a) = Some outcome"
      using preferred_eligibility_is_outcome by blast
    with \<open>effective = Some pool\<close> Some eligibility_there_and_back [OF o] show ?thesis
      by (simp add: preview_with_facts_def preview_with_selection_def resolution_input_of_def
          eligibility_of_facts_def local_startup_selection_facts_def Let_def
          preview_without_suppression_eligibility)
  qed
qed (simp add: preview_with_facts_def preview_with_selection_def resolution_input_of_def Let_def)

text \<open>
  C37: The two implementations of the startup status agree: over the local backend, the
  resolution that works for any backend, which asks for the facts about one pool and
  translates them back and forth, returns for every database and every configured default
  exactly what the runtime computes from its tables, and its own checks never fail. Both are
  computed from one state of the tables at one reading of the clock: errors of the storage,
  which the code passes on from each read, and other processes writing between the reads are
  outside the statement.
\<close>

theorem startup_status_agrees:
  "local_shared_startup_status db now configured None =
   Inr \<lparr>shared_startup = read_account_startup_status db now configured,
        pooled_applicable =
          (status_availability (read_account_startup_status db now configured) \<noteq> StartupUnavailable)\<rparr>"
proof -
  let ?sel = "read_account_startup_selection db" and ?inv = "read_account_startup_inventory db"
  have "resolve_pool (resolution_input_of ?sel ?inv configured None) ?inv =
      runtime_resolve_pool configured (st_default_pool_id ?sel) ?inv"
    by (simp add: resolve_pool_def runtime_resolve_pool_def resolution_input_of_def split: option.split)
  moreover have "input_inventory (resolution_input_of ?sel ?inv configured None) = ?inv"
    "configured_default_pool_id (resolution_input_of ?sel ?inv configured None) = configured"
    "persisted_default_pool_id (resolution_input_of ?sel ?inv configured None) = st_default_pool_id ?sel"
    "input_suppressed (resolution_input_of ?sel ?inv configured None) = st_suppressed ?sel"
    by (simp_all add: resolution_input_of_def)
  ultimately show ?thesis
    by (simp add: local_shared_startup_status_def read_shared_startup_status_def resolve_startup_status_def
        read_account_startup_status_def inventory_sorted previews_agree Let_def split: prod.split)
qed

section \<open>What a written selection means\<close>

lemma written_selection:
  "write_account_startup_selection io clock db update = (Inr u, db') \<Longrightarrow>
   read_account_startup_selection db' = update \<and> memberships db' = memberships db \<and>
   registry db' = registry db \<and> leases db' = leases db"
  by (auto simp: write_account_startup_selection_def in_write_transaction_def append_account_pool_event_def
      read_account_startup_selection_def split: option.splits)

lemma inventory_frame:
  "memberships db' = memberships db \<Longrightarrow> registry db' = registry db \<Longrightarrow>
   read_account_startup_inventory db' = read_account_startup_inventory db"
  by (simp add: read_account_startup_inventory_def is_registered_def registry_lookup_def)

text \<open>
  Setting the default pool takes effect: after a successful command the pool is the
  persisted default, and when no configured default overrides it, the next status starts
  from that pool, as the persisted selection, with no account preferred over the automatic
  choice and no issue to report. Suppression is left as it was, no lease is touched, and
  setting it again writes nothing.
\<close>

theorem set_default_pool_takes_effect:
  assumes "set_local_default_pool io clock db pool configured = (Inr outcome, db')"
  shows "st_default_pool_id (read_account_startup_selection db') = Some pool \<and>
    st_suppressed (read_account_startup_selection db') = st_suppressed (read_account_startup_selection db) \<and>
    leases db' = leases db \<and>
    (configured = None \<longrightarrow>
       prev_effective_pool_id (status_preview (read_account_startup_status db' now None)) = Some pool \<and>
       status_source (read_account_startup_status db' now None) = PersistedSelection \<and>
       status_issue (read_account_startup_status db' now None) = None \<and>
       st_preferred_account_id (read_account_startup_selection db') = None) \<and>
    snd (set_local_default_pool io2 clock2 db' pool configured) = db'"
proof -
  let ?sel = "read_account_startup_selection db" and ?sel' = "read_account_startup_selection db'"
  have visible: "list_ex (\<lambda>p. cand_pool_id p = pool) (read_account_startup_inventory db)"
    using assms by (auto simp: set_local_default_pool_def split: if_splits)
  have effect: "?sel' = \<lparr>st_default_pool_id = Some pool,
      st_preferred_account_id = (if configured \<noteq> None then st_preferred_account_id ?sel else None),
      st_suppressed = st_suppressed ?sel\<rparr> \<and> memberships db' = memberships db \<and> registry db' = registry db \<and>
      leases db' = leases db"
    using assms visible
    by (cases ?sel)
      (auto simp: set_local_default_pool_def Let_def dest!: written_selection split: if_splits prod.splits sum.splits)
  then have inv: "read_account_startup_inventory db' = read_account_startup_inventory db"
    by (intro inventory_frame) simp_all
  have named: "named_pool (read_account_startup_inventory db') pool PersistedSelection PersistedDefaultPoolUnavailable =
      (Some pool, PersistedSelection, None, None)"
    using visible by (auto simp: named_pool_def inv list_ex_iff)
  have "prev_effective_pool_id (status_preview (read_account_startup_status db' now None)) = Some pool \<and>
      status_source (read_account_startup_status db' now None) = PersistedSelection \<and>
      status_issue (read_account_startup_status db' now None) = None"
    using effect
    by (simp add: read_account_startup_status_def runtime_resolve_pool_def named preview_with_selection_def Let_def
        split: option.split)
  moreover have "snd (set_local_default_pool io2 clock2 db' pool configured) = db'"
    using effect visible by (cases configured) (simp_all add: set_local_default_pool_def Let_def inv)
  ultimately show ?thesis using effect by simp
qed

text \<open>A database with one account.\<close>

definition sample_entry :: "string \<Rightarrow> bool \<Rightarrow> registry_entry_update" where
  "sample_entry name on =
     \<lparr>ent_account_id = lit name, ent_pool_id = lit ''p'', ent_position = 0, ent_account_kind = lit ''chatgpt'',
      ent_backend_family = lit ''chatgpt'', ent_workspace_id = None, ent_enabled = on, ent_healthy = True\<rparr>"

definition registered_db :: account_db where
  "registered_db = snd (upsert_account_registry_entry all_well 0 empty_db (sample_entry ''a'' True))"

lemma set_default_pool_takes_effect_witness:
  "st_default_pool_id (read_account_startup_selection
     (snd (set_local_default_pool all_well 0 registered_db (lit ''p'') None))) = Some (lit ''p'')"
proof -
  let ?run = "set_local_default_pool all_well 0 registered_db (lit ''p'') None"
  have "?run = (Inr \<lparr>state_changed = True, outcome_default_pool_id = Some (lit ''p''),
      still_config_controlled = False, outcome_suppressed = False, preferred_account_cleared = False\<rparr>, snd ?run)"
    by code_simp
  from set_default_pool_takes_effect [OF this] show ?thesis by blast
qed

section \<open>The prediction and the unranked acquisition\<close>

lemma find_append: "find P (xs @ ys) = (case find P xs of None \<Rightarrow> find P ys | Some x \<Rightarrow> Some x)"
  by (induction xs) auto

lemma expired_tables [simp]:
  "registry (release_expired_account_leases db now) = registry db"
  "memberships (release_expired_account_leases db now) = memberships db"
  "runtime_states (release_expired_account_leases db now) = runtime_states db"
  "quotas (release_expired_account_leases db now) = quotas db"
  by (simp_all add: release_expired_account_leases_def)

lemma expired_quota [simp]:
  "quota_lookup (release_expired_account_leases db now) a limit = quota_lookup db a limit"
  by (simp add: quota_lookup_def)

lemma expired_lookups [simp]:
  "registry_lookup (release_expired_account_leases db now) a = registry_lookup db a"
  "not_unauthorized (release_expired_account_leases db now) a = not_unauthorized db a"
  "not_exhausted (release_expired_account_leases db now) a family = not_exhausted db a family"
  "registered_family (release_expired_account_leases db now) a = registered_family db a"
  by (simp_all add: registry_lookup_def not_unauthorized_def runtime_lookup_def not_exhausted_def joined_windows_def
      registered_family_def cong: option.case_cong)

text \<open>Once what has expired is released, to be unreleased is to be active.\<close>

lemma unreleased_after_expiry:
  "has_unreleased_lease (release_expired_account_leases db now) a = account_has_active_lease db a now"
  by (auto simp: has_unreleased_lease_def account_has_active_lease_def release_expired_account_leases_def
      list_ex_iff unreleased_def not_le)

lemma leasable_after_expiry:
  "leasable (release_expired_account_leases db now) a \<longleftrightarrow>
   (case registry_lookup db a of Some r \<Rightarrow> reg_enabled r | None \<Rightarrow> False) \<and> not_unauthorized db a \<and>
   \<not> account_has_active_lease db a now"
  by (simp add: leasable_def unreleased_after_expiry)

lemma sort_by_Nil_iff [simp]: "sort_by c xs = [] \<longleftrightarrow> xs = []"
  using set_sort_by [of c xs] by (cases "sort_by c xs") auto

lemma no_active_lease_iff:
  "load_active_holder_lease db holder now = None \<longleftrightarrow>
   (\<forall>l \<in> set (leases db). holder_instance_id l = holder \<longrightarrow> unreleased l \<longrightarrow> expires_at l \<le> timestamp now)"
proof -
  let ?active = "filter (\<lambda>l. holder_instance_id l = holder \<and> unreleased l \<and> expires_at l > timestamp now) (leases db)"
  have "load_active_holder_lease db holder now = None \<longleftrightarrow> ?active = []"
  proof (cases "sort_by newest_first ?active")
    case Nil
    then have "?active = []" by (simp only: sort_by_Nil_iff)
    with Nil show ?thesis by (simp add: load_active_holder_lease_def)
  next
    case (Cons l ls)
    then have "?active \<noteq> []" by (metis list.discI sort_by.simps(1))
    with Cons show ?thesis by (simp add: load_active_holder_lease_def)
  qed
  then show ?thesis by (auto simp: filter_empty_conv not_less)
qed

lemma no_active_holder:
  assumes "load_active_holder_lease db holder now = None"
  shows "\<not> list_ex (\<lambda>k. holder_instance_id k = holder \<and> unreleased k) (leases (release_expired_account_leases db now))"
  using assms by (auto simp: no_active_lease_iff release_expired_account_leases_def list_ex_iff unreleased_def)

lemma active_holder_after_expiry:
  assumes "load_active_holder_lease db holder now = None"
  shows "load_active_holder_lease (release_expired_account_leases db now) holder now = None"
  using no_active_holder [OF assms] by (auto simp: no_active_lease_iff list_ex_iff)

lemma insert_after_expiry:
  assumes "load_active_holder_lease db holder now = None" and "\<forall>k \<in> set (leases db). lease_id k \<noteq> lid"
    and "\<not> account_has_active_lease db a now" and "lease_id l = lid" and "holder_instance_id l = holder"
  shows "insert_lease_row (release_expired_account_leases db now) (lease_row_for (release_expired_account_leases db now) l a) =
    Inr ((release_expired_account_leases db now)\<lparr>leases := leases (release_expired_account_leases db now) @
      [lease_row_for (release_expired_account_leases db now) l a]\<rparr>)"
proof -
  let ?db = "release_expired_account_leases db now"
  let ?row = "lease_row_for ?db l a"
  have row: "lease_id ?row = lid" "lease_account_id ?row = a" "holder_instance_id ?row = holder"
    using assms(4,5) by (simp_all add: lease_row_for_def)
  have "\<not> list_ex (\<lambda>k. lease_id k = lid) (leases ?db)"
    using assms(2) by (auto simp: list_ex_iff release_expired_account_leases_def)
  with no_active_holder [OF assms(1)] assms(3) show ?thesis
    by (simp add: insert_lease_row_def row unreleased_after_expiry)
qed

lemma acquired_row:
  assumes "\<forall>k \<in> set (leases db). lease_id k \<noteq> lid"
    and "db2 = (release_expired_account_leases db now)\<lparr>leases := leases (release_expired_account_leases db now) @ [row]\<rparr>"
    and "lease_id row = lid"
  shows "fst (finish_acquisition db db2 lid) = Inr (lease_from_row row)"
proof -
  have "find (\<lambda>l. lease_id l = lid) (leases (release_expired_account_leases db now)) = None"
    using assms(1) by (auto simp: find_None_iff release_expired_account_leases_def)
  then have "load_lease db2 lid = Some (lease_from_row row)"
    using assms(2,3) by (simp add: load_lease_def find_append)
  then show ?thesis by (simp add: finish_acquisition_def)
qed

lemma preferred_not_automatic [simp]: "preferred_eligibility db now pool a \<noteq> AutomaticAccountSelected"
  by (simp add: preferred_eligibility_def split: option.split)

lemma automatic_preview:
  assumes "prev_eligibility (preview_with_selection db now sel effective False) = AutomaticAccountSelected"
    and "prev_effective_pool_id (preview_with_selection db now sel effective False) = Some pool"
  shows "prev_predicted_account_id (preview_with_selection db now sel effective False) =
      read_first_eligible_account_id db pool now \<and> read_first_eligible_account_id db pool now \<noteq> None"
proof (cases effective)
  case (Some p)
  with assms show ?thesis
    by (cases "st_preferred_account_id sel") (auto simp: preview_with_selection_def Let_def split: if_splits)
qed (use assms in \<open>simp add: preview_with_selection_def Let_def\<close>)

text \<open>
  The prediction of the status and \<open>acquire_account_lease\<close>, which both take the first
  eligible account by position: when the status predicts an account that is chosen
  automatically in a pool, a holder without a lease that asks that pool at that moment, over
  a database that does not fail and with a lease identifier that is new, is leased the
  predicted account for the time it asked for. The manager of a session does not acquire in
  this way: its plan ranks the accounts by quota, and may lease another one than predicted
  (\<open>quota_ranking_beats_prediction\<close> in \<open>AccountTurns\<close>). In the code \<open>acquire_account_lease\<close> is
  called by tests and fixtures only.
\<close>

theorem predicted_account_is_leased:
  assumes "prev_eligibility (status_preview (read_account_startup_status db now configured)) = AutomaticAccountSelected"
    and "prev_effective_pool_id (status_preview (read_account_startup_status db now configured)) = Some pool"
    and "load_active_holder_lease db holder now = None" and "\<forall>k \<in> set (leases db). lease_id k \<noteq> lid"
    and "statement_fault io = None"
  shows "\<exists>l. fst (acquire_account_lease io now later lid db pool holder ttl) = Inr l \<and>
    Some (lease_account_id l) = prev_predicted_account_id (status_preview (read_account_startup_status db now configured)) \<and>
    lease_id l = lid \<and> lease_pool_id l = pool \<and> holder_instance_id l = holder \<and>
    released_at l = None \<and> expires_at l = secs (timestamp (now + ttl))"
proof -
  let ?db = "release_expired_account_leases db now"
  let ?new = "new_lease lid pool [] holder now ttl"
  let ?pre = "status_preview (read_account_startup_status db now configured)"
  obtain effective where "?pre = preview_with_selection db now (read_account_startup_selection db) effective False"
    by (cases "runtime_resolve_pool configured (st_default_pool_id (read_account_startup_selection db))
        (read_account_startup_inventory db)") (simp add: read_account_startup_status_def Let_def)
  with assms(1,2) automatic_preview have pre: "prev_predicted_account_id ?pre = read_first_eligible_account_id db pool now"
    "read_first_eligible_account_id db pool now \<noteq> None"
    by metis+
  let ?ok = "\<lambda>m. mem_pool_id m = pool \<and>
      (case registry_lookup db (mem_account_id m) of Some r \<Rightarrow> reg_enabled r | None \<Rightarrow> False) \<and>
      not_unauthorized db (mem_account_id m) \<and>
      not_exhausted db (mem_account_id m) (registered_family db (mem_account_id m)) \<and>
      \<not> account_has_active_lease db (mem_account_id m) now"
  from pre(2) obtain m ms where first: "sort_by by_position (filter ?ok (memberships db)) = m # ms"
    unfolding read_first_eligible_account_id_def
    by (cases "sort_by by_position (filter ?ok (memberships db))") simp_all
  then have a: "read_first_eligible_account_id db pool now = Some (mem_account_id m)"
    by (simp add: read_first_eligible_account_id_def)
  have free: "\<not> account_has_active_lease db (mem_account_id m) now"
    using first set_sort_by [of by_position "filter ?ok (memberships db)"] by auto
  let ?row = "lease_row_for ?db ?new (mem_account_id m)"
  have "filter (\<lambda>m. mem_pool_id m = pool \<and> leasable ?db (mem_account_id m) \<and>
      not_exhausted ?db (mem_account_id m) (registered_family ?db (mem_account_id m)) \<and>
      mem_account_id m \<notin> set []) (memberships ?db) = filter ?ok (memberships db)"
    by (rule filter_cong) (auto simp: leasable_after_expiry)
  then have "insert_next_eligible_lease ?db ?new pool [] = map_sum id Some (insert_lease_row ?db ?row)"
    by (simp only: insert_next_eligible_lease_def first list.case)
  also have "\<dots> = Inr (Some (?db\<lparr>leases := leases ?db @ [?row]\<rparr>))"
    by (subst insert_after_expiry [OF assms(3,4) free]) (simp_all add: new_lease_def)
  finally have ins: "insert_next_eligible_lease ?db ?new pool [] = Inr (Some (?db\<lparr>leases := leases ?db @ [?row]\<rparr>))" .
  have id: "lease_id ?row = lid" by (simp add: lease_row_for_def new_lease_def)
  have "fst (acquire_account_lease_excluding io now later lid db pool holder ttl []) = Inr (lease_from_row ?row)"
    using acquired_row [OF assms(4) refl id]
    by (simp add: acquire_account_lease_excluding_def assms(5) active_holder_after_expiry [OF assms(3)] ins Let_def)
  then have "fst (acquire_account_lease io now later lid db pool holder ttl) = Inr (lease_from_row ?row)"
    by (cases "acquire_account_lease_excluding io now later lid db pool holder ttl []")
      (simp add: acquire_account_lease_def)
  then show ?thesis
    by (simp add: pre(1) a lease_from_row_def lease_row_for_def new_lease_def)
qed

lemma predicted_account_is_leased_witness:
  "\<exists>l. fst (acquire_account_lease all_well 0 0 (lit ''l1'') registered_db (lit ''p'') (lit ''h1'') (secs 300)) = Inr l \<and>
     lease_account_id l = lit ''a'' \<and> expires_at l = secs 300"
proof -
  let ?pre = "status_preview (read_account_startup_status registered_db 0 None)"
  have "prev_eligibility ?pre = AutomaticAccountSelected" by code_simp
  moreover have "prev_effective_pool_id ?pre = Some (lit ''p'')" by code_simp
  moreover have "load_active_holder_lease registered_db (lit ''h1'') 0 = None" by code_simp
  moreover have "\<forall>k \<in> set (leases registered_db). lease_id k \<noteq> lit ''l1''" by code_simp
  moreover have "prev_predicted_account_id ?pre = Some (lit ''a'')" by code_simp
  ultimately show ?thesis
    using predicted_account_is_leased [of registered_db 0 None "lit ''p''" "lit ''h1''" "lit ''l1''" all_well 0 "secs 300"]
    by (auto simp: all_well_def secs_def timestamp_def nanos_per_sec_def)
qed

end
