(* ===== verification/AccountLeases.thy ===== *)
theory AccountLeases
  imports AccountStartup
begin

text \<open>
  What the account pool's tables guarantee whatever the processes that share the database
  do, in whatever order, and whatever fails: a state machine whose steps are the
  operations, and its invariants.
\<close>

section \<open>Steps\<close>

text \<open>A step is labelled with the lease identifier it draws, if it acquires a lease.\<close>

inductive db_step :: "ustring option \<Rightarrow> account_db \<Rightarrow> account_db \<Rightarrow> bool" where
  acquire_next: "db_step (Some lid) db (snd (acquire_account_lease io now later lid db pool holder ttl))"
| acquire_excluding:
    "db_step (Some lid) db (snd (acquire_account_lease_excluding io now later lid db pool holder ttl excluded))"
| acquire_requested:
    "db_step (Some lid) db (snd (acquire_requested_account_lease io now later lid db pool a holder ttl check))"
| renew: "db_step None db (snd (renew_account_lease io db key now ttl))"
| release: "db_step None db (snd (release_account_lease io db key now))"
| upsert_quota: "db_step None db (snd (upsert_account_quota_state io clock db r))"
| reserve_probe: "db_step None db (snd (reserve_account_quota_probe io clock db a limit now reserved_until))"
| probe_success: "db_step None db (snd (record_account_quota_probe_success io clock db a limit ob))"
| probe_blocked:
    "db_step None db (snd (record_account_quota_probe_still_blocked io clock db a limit ob windows blocked np))"
| probe_ambiguous: "db_step None db (snd (record_account_quota_probe_ambiguous io clock db a limit ob until np))"
| assign_pool: "db_step None db (snd (assign_account_pool io clock db a pool))"
| health: "db_step None db (snd (record_account_health_event ios clocks db ev))"
| upsert_entry: "db_step None db (snd (upsert_account_registry_entry io clock db ent))"
| set_enabled: "db_step None db (snd (set_account_enabled io clock db a on))"
| remove: "db_step None db (snd (remove_account_registry_entry io clock db a))"
| upsert_registered: "db_step None db (snd (upsert_registered_account io clock db ups))"
| import_legacy: "db_step None db (snd (import_legacy_default_account io clock db a))"
| write_selection: "db_step None db (snd (write_account_startup_selection io clock db update))"
| create_pending: "db_step None db (snd (create_pending_account_registration io clock db entry))"
| finalize_pending: "db_step None db (snd (finalize_pending_account_registration io clock db key handle a))"
| clear_pending: "db_step None db (snd (clear_pending_account_registration io db key))"
| write_migration: "db_step None db (snd (write_account_compat_migration_state io db completed))"

inductive db_run :: "ustring list \<Rightarrow> account_db \<Rightarrow> account_db \<Rightarrow> bool" where
  start: "db_run [] db db"
| step: "db_run ids db db1 \<Longrightarrow> db_step label db1 db2 \<Longrightarrow>
    db_run (case label of Some lid \<Rightarrow> lid # ids | None \<Rightarrow> ids) db db2"

definition reachable_db :: "account_db \<Rightarrow> bool" where
  "reachable_db db \<longleftrightarrow> (\<exists>ids. db_run ids empty_db db)"

section \<open>The lease table\<close>

text \<open>
  Two rows of which one must be missing: both unreleased for one account or one holder, or
  one epoch of an account twice.
\<close>

definition conflict :: "lease_record \<Rightarrow> lease_record \<Rightarrow> bool" where
  "conflict k l \<longleftrightarrow>
     (unreleased k \<and> unreleased l \<and>
        (lease_account_id k = lease_account_id l \<or> holder_instance_id k = holder_instance_id l)) \<or>
     (lease_account_id k = lease_account_id l \<and> lease_epoch k = lease_epoch l)"

definition lease_table_ok :: "lease_record list \<Rightarrow> bool" where
  "lease_table_ok ls \<longleftrightarrow>
     distinct (map lease_id ls) \<and>
     (\<forall>k \<in> set ls. \<forall>l \<in> set ls. conflict k l \<longrightarrow> lease_id k = lease_id l)"

lemma conflict_sym: "conflict k l \<longleftrightarrow> conflict l k"
  by (auto simp: conflict_def)

text \<open>An update that lets no lease come back and changes no identity.\<close>

definition lease_update :: "(lease_record \<Rightarrow> lease_record) \<Rightarrow> bool" where
  "lease_update f \<longleftrightarrow>
     (\<forall>l. lease_id (f l) = lease_id l \<and> lease_account_id (f l) = lease_account_id l \<and>
          lease_pool_id (f l) = lease_pool_id l \<and>
          holder_instance_id (f l) = holder_instance_id l \<and> lease_epoch (f l) = lease_epoch l \<and>
          (unreleased (f l) \<longrightarrow> unreleased l))"

lemma lease_updateD:
  assumes "lease_update f"
  shows "lease_id (f l) = lease_id l" "lease_account_id (f l) = lease_account_id l"
    "lease_pool_id (f l) = lease_pool_id l" "holder_instance_id (f l) = holder_instance_id l"
    "lease_epoch (f l) = lease_epoch l" "unreleased (f l) \<Longrightarrow> unreleased l"
  using assms unfolding lease_update_def by blast+

lemma conflict_update: "lease_update f \<Longrightarrow> conflict (f k) (f l) \<Longrightarrow> conflict k l"
proof -
  assume f: "lease_update f" and c: "conflict (f k) (f l)"
  have "unreleased (f k) \<Longrightarrow> unreleased k" "unreleased (f l) \<Longrightarrow> unreleased l" using lease_updateD(6) [OF f] by blast+
  with c show ?thesis by (auto simp: conflict_def lease_updateD(1-5) [OF f])
qed

lemma lease_table_ok_map: "lease_table_ok ls \<Longrightarrow> lease_update f \<Longrightarrow> lease_table_ok (map f ls)"
proof -
  assume ok: "lease_table_ok ls" and f: "lease_update f"
  have "map lease_id (map f ls) = map lease_id ls" by (simp add: lease_updateD(1) [OF f])
  with ok have "distinct (map lease_id (map f ls))" unfolding lease_table_ok_def by argo
  moreover have "lease_id (f k) = lease_id (f l)" if "k \<in> set ls" "l \<in> set ls" "conflict (f k) (f l)" for k l
    using ok that conflict_update [OF f that(3)] unfolding lease_table_ok_def by (simp add: lease_updateD(1) [OF f])
  ultimately show ?thesis unfolding lease_table_ok_def by auto
qed

lemma lease_table_ok_filter: "lease_table_ok ls \<Longrightarrow> lease_table_ok (filter P ls)"
  by (auto simp: lease_table_ok_def distinct_map_filter)

lemma lease_updates [simp]:
  "lease_update (\<lambda>l. if P l then l\<lparr>released_at := Some t\<rparr> else l)"
  "lease_update (\<lambda>l. if P l then l\<lparr>renewed_at := s, expires_at := t\<rparr> else l)"
  by (auto simp: lease_update_def unreleased_def)

lemma release_expired_ok [simp]:
  "lease_table_ok (leases db) \<Longrightarrow> lease_table_ok (leases (release_expired_account_leases db now))"
  by (simp add: release_expired_account_leases_def lease_table_ok_map)

lemma release_unreleased_ok [simp]:
  "lease_table_ok (leases db) \<Longrightarrow> lease_table_ok (leases (release_unreleased_account_leases db a when))"
  by (simp add: release_unreleased_account_leases_def lease_table_ok_map)

lemma foldl_max_ge: "(e::int) \<le> foldl max e es \<and> (\<forall>x \<in> set es. x \<le> foldl max e es)"
proof (induction es arbitrary: e)
  case (Cons y ys)
  from Cons.IH [of "max e y"] show ?case by auto
qed simp

lemma next_epoch_greater: "l \<in> set (leases db) \<Longrightarrow> lease_account_id l = a \<Longrightarrow> lease_epoch l < next_epoch db a"
proof -
  assume "l \<in> set (leases db)" "lease_account_id l = a"
  then have l: "lease_epoch l \<in> set (map lease_epoch (filter (\<lambda>l. lease_account_id l = a) (leases db)))" by auto
  show ?thesis
  proof (cases "map lease_epoch (filter (\<lambda>l. lease_account_id l = a) (leases db))")
    case (Cons e es)
    with l foldl_max_ge [of e es] have "lease_epoch l \<le> foldl max e es" by auto
    with Cons show ?thesis by (simp add: next_epoch_def)
  qed (use l in simp)
qed

lemma insert_lease_row_Inr:
  "insert_lease_row db l = Inr db2 \<longleftrightarrow>
     db2 = db\<lparr>leases := leases db @ [l]\<rparr> \<and> (\<forall>k \<in> set (leases db). lease_id k \<noteq> lease_id l \<and>
       (unreleased k \<longrightarrow> lease_account_id k \<noteq> lease_account_id l \<and> holder_instance_id k \<noteq> holder_instance_id l))"
  by (auto simp: insert_lease_row_def has_unreleased_lease_def list_ex_iff)

lemma insert_lease_row_ok:
  assumes "lease_table_ok (leases db)" and "insert_lease_row db (lease_row_for db l a) = Inr db2"
  shows "lease_table_ok (leases db2)"
proof -
  let ?l = "lease_row_for db l a"
  have l: "lease_account_id ?l = a" "lease_epoch ?l = next_epoch db a" by (simp_all add: lease_row_for_def)
  from assms(2) have db2: "leases db2 = leases db @ [?l]"
    and fresh: "\<forall>k \<in> set (leases db). lease_id k \<noteq> lease_id ?l \<and>
       (unreleased k \<longrightarrow> lease_account_id k \<noteq> a \<and> holder_instance_id k \<noteq> holder_instance_id ?l)"
    using l by (auto simp: insert_lease_row_Inr)
  have no: "\<not> conflict k ?l" if k: "k \<in> set (leases db)" for k
    using fresh next_epoch_greater [OF k, of a] k l by (auto simp: conflict_def)
  have ids: "distinct (map lease_id (leases db @ [?l]))"
    using assms(1) fresh by (auto simp: lease_table_ok_def)
  have no': "\<not> conflict ?l k" if "k \<in> set (leases db)" for k
    using no [OF that] conflict_sym by blast
  have same: "lease_id k = lease_id m"
    if "k \<in> insert ?l (set (leases db))" "m \<in> insert ?l (set (leases db))" "conflict k m" for k m
  proof (cases "k = ?l \<or> m = ?l")
    case True
    with that no no' show ?thesis by blast
  next
    case False
    with that assms(1) show ?thesis unfolding lease_table_ok_def by blast
  qed
  show ?thesis
    unfolding lease_table_ok_def db2
  proof (intro conjI ballI impI ids)
    fix k m assume "k \<in> set (leases db @ [?l])" "m \<in> set (leases db @ [?l])" "conflict k m"
    then show "lease_id k = lease_id m" by (intro same) simp_all
  qed
qed

lemma append_event_tables [simp]:
  "leases (append_account_pool_event db e) = leases db"
  "registry (append_account_pool_event db e) = registry db"
  "memberships (append_account_pool_event db e) = memberships db"
  "runtime_states (append_account_pool_event db e) = runtime_states db"
  "quotas (append_account_pool_event db e) = quotas db"
  by (simp_all add: append_account_pool_event_def)

section \<open>Effect of the operations on the leases\<close>

definition is_enabled :: "account_db \<Rightarrow> ustring \<Rightarrow> bool" where
  "is_enabled db a = (case registry_lookup db a of Some r \<Rightarrow> reg_enabled r | None \<Rightarrow> False)"

text \<open>What an acquisition makes of the table: expired leases end, and at most one row is added.\<close>

definition grows_by :: "account_db \<Rightarrow> ustring \<Rightarrow> account_db \<Rightarrow> bool" where
  "grows_by db lid db' \<longleftrightarrow>
     registry db' = registry db \<and>
     (lease_table_ok (leases db) \<longrightarrow> lease_table_ok (leases db')) \<and>
     (\<exists>f. lease_update f \<and>
        (leases db' = map f (leases db) \<or>
         (\<exists>l. lease_id l = lid \<and> is_enabled db (lease_account_id l) \<and> leases db' = map f (leases db) @ [l])))"

definition shrinks_to :: "account_db \<Rightarrow> account_db \<Rightarrow> bool" where
  "shrinks_to db db' \<longleftrightarrow> (\<exists>f P. lease_update f \<and> leases db' = map f (filter P (leases db)))"

lemma lease_update_id [simp]: "lease_update (\<lambda>l. l)"
  by (simp add: lease_update_def)

lemma shrinks_refl [simp]: "shrinks_to db db"
  unfolding shrinks_to_def by (intro exI [of _ "\<lambda>l. l"] exI [of _ "\<lambda>l. True"]) simp

lemma shrinks_same: "leases db' = leases db \<Longrightarrow> shrinks_to db db'"
  unfolding shrinks_to_def by (intro exI [of _ "\<lambda>l. l"] exI [of _ "\<lambda>l. True"]) simp

lemma shrinks_map: "lease_update f \<Longrightarrow> leases db' = map f (leases db) \<Longrightarrow> shrinks_to db db'"
  unfolding shrinks_to_def by (intro exI [of _ f] exI [of _ "\<lambda>l. True"]) simp

lemma shrinks_release [simp]: "leases db1 = leases db \<Longrightarrow> shrinks_to db (release_unreleased_account_leases db1 a when)"
  by (rule shrinks_map [of "\<lambda>l. if lease_account_id l = a \<and> unreleased l then l\<lparr>released_at := Some when\<rparr> else l"])
    (simp_all add: release_unreleased_account_leases_def)

lemma shrinks_ok: "shrinks_to db db' \<Longrightarrow> lease_table_ok (leases db) \<Longrightarrow> lease_table_ok (leases db')"
  by (auto simp: shrinks_to_def lease_table_ok_map lease_table_ok_filter)

lemma renew_shrinks: "shrinks_to db (snd (renew_account_lease io db key now ttl))"
  by (auto simp: renew_account_lease_def in_write_transaction_def Let_def split: option.split
      intro!: shrinks_map [of "\<lambda>l. if key_matches key l \<and> expires_at l > timestamp now
        then l\<lparr>renewed_at := timestamp now, expires_at := timestamp (now + ttl)\<rparr> else l"])

lemma release_shrinks: "shrinks_to db (snd (release_account_lease io db key now))"
  by (auto simp: release_account_lease_def in_write_transaction_def Let_def split: option.split
      intro!: shrinks_map [of "\<lambda>l. if key_matches key l then l\<lparr>released_at := Some (timestamp now)\<rparr> else l"])

lemma finish_acquisition_leases:
  "snd (finish_acquisition db db2 lid) = db \<or>
   (leases (snd (finish_acquisition db db2 lid)) = leases db2 \<and>
    registry (snd (finish_acquisition db db2 lid)) = registry db2)"
  by (simp add: finish_acquisition_def split: option.split)

lemma refuse_leases [simp]:
  "leases (snd (refuse_requested io now db pool a holder c)) = leases db"
  "registry (snd (refuse_requested io now db pool a holder c)) = registry db"
  by (simp_all add: refuse_requested_def split: option.split)

lemma release_registry [simp]:
  "registry (release_expired_account_leases db now) = registry db"
  "registry (release_unreleased_account_leases db a when) = registry db"
  by (simp_all add: release_expired_account_leases_def release_unreleased_account_leases_def)

lemma grows_same: "leases db' = leases db \<Longrightarrow> registry db' = registry db \<Longrightarrow> grows_by db lid db'"
  unfolding grows_by_def by (auto intro!: exI [of _ "\<lambda>l. l"])

lemma release_expired_map:
  "\<exists>f. lease_update f \<and> leases (release_expired_account_leases db now) = map f (leases db)"
  unfolding release_expired_account_leases_def
  by (rule exI [of _ "\<lambda>l. if unreleased l \<and> expires_at l \<le> timestamp now
        then l\<lparr>released_at := Some (timestamp now)\<rparr> else l"]) simp

lemma grows_expired:
  "leases db' = leases (release_expired_account_leases db now) \<Longrightarrow> registry db' = registry db \<Longrightarrow> grows_by db lid db'"
  unfolding grows_by_def using release_expired_map [of db now] by auto

lemma grows_insert:
  assumes "insert_lease_row db1 (lease_row_for db1 l a) = Inr db2"
    and "leases db1 = leases (release_expired_account_leases db now)" and "registry db1 = registry db"
    and "leasable db1 a" and "lease_id l = lid" and "leases db' = leases db2" and "registry db' = registry db2"
  shows "grows_by db lid db'"
proof -
  obtain f where f: "lease_update f" "leases (release_expired_account_leases db now) = map f (leases db)"
    using release_expired_map by blast
  have "leases db2 = leases db1 @ [lease_row_for db1 l a] \<and> registry db2 = registry db1"
    using assms(1) by (simp add: insert_lease_row_Inr)
  moreover have "lease_id (lease_row_for db1 l a) = lid \<and> lease_account_id (lease_row_for db1 l a) = a"
    using assms(5) by (simp add: lease_row_for_def)
  moreover have "is_enabled db a"
    using assms(3,4) by (simp add: leasable_def is_enabled_def registry_lookup_def)
  moreover have "lease_table_ok (leases db) \<Longrightarrow> lease_table_ok (leases db2)"
    using insert_lease_row_ok [OF _ assms(1)] assms(2) by simp
  ultimately show ?thesis using f assms(2,3,6,7) unfolding grows_by_def by auto
qed

lemma insert_requested_grows:
  assumes "insert_requested_lease (release_expired_account_leases db now) l a c = Inr (Some db2)"
    and "lease_id l = lid" and "leases db' = leases db2" and "registry db' = registry db2"
  shows "grows_by db lid db'"
proof -
  let ?db = "release_expired_account_leases db now"
  from assms(1) have "insert_lease_row ?db (lease_row_for ?db l a) = Inr db2 \<and> leasable ?db a"
    by (cases "insert_lease_row ?db (lease_row_for ?db l a)")
      (auto simp: insert_requested_lease_def split: if_splits)
  with assms show ?thesis by (intro grows_insert [of ?db l a db2]) simp_all
qed

lemma sorted_member: "sort_by c xs = m # ms \<Longrightarrow> m \<in> set xs"
  by (metis list.set_intros(1) set_sort_by)

lemma insert_next_grows:
  assumes "insert_next_eligible_lease (release_expired_account_leases db now) l pool excl = Inr (Some db2)"
    and "lease_id l = lid" and "leases db' = leases db2" and "registry db' = registry db2"
  shows "grows_by db lid db'"
proof -
  let ?db = "release_expired_account_leases db now"
  from assms(1) obtain a where "map_sum id Some (insert_lease_row ?db (lease_row_for ?db l a)) = Inr (Some db2)"
    and ok: "leasable ?db a"
    by (auto simp: insert_next_eligible_lease_def split: list.splits dest!: sorted_member)
  then have "insert_lease_row ?db (lease_row_for ?db l a) = Inr db2"
    by (cases "insert_lease_row ?db (lease_row_for ?db l a)") auto
  with ok assms show ?thesis by (intro grows_insert [of ?db l a db2]) simp_all
qed

lemma acquire_requested_grows:
  "grows_by db lid (snd (acquire_requested_account_lease io now later lid db pool a holder ttl c))"
proof -
  let ?db = "release_expired_account_leases db now"
  let ?l = "new_lease lid pool a holder now ttl"
  have id: "lease_id ?l = lid" by (simp add: new_lease_def)
  show ?thesis
  proof (cases "statement_fault io")
    case None
    note unfolded = acquire_requested_account_lease_def None Let_def
    show ?thesis
    proof (cases "if is_selection_family c then load_active_holder_lease ?db holder now else None")
      case (Some l)
      then show ?thesis by (simp add: unfolded grows_expired)
    next
      case none: None
      show ?thesis
      proof (cases "insert_requested_lease ?db ?l a c")
        case (Inl e)
        with none show ?thesis by (simp add: unfolded split: option.split) (simp add: grows_same)
      next
        case (Inr r)
        show ?thesis
        proof (cases r)
          case None
          with Inr none show ?thesis by (simp add: unfolded grows_same)
        next
          case (Some db2)
          from finish_acquisition_leases [of db db2 lid] show ?thesis
            using insert_requested_grows [OF Inr [unfolded Some] id] grows_same [of db db lid] Inr none Some
            by (auto simp: unfolded)
        qed
      qed
    qed
  qed (simp add: acquire_requested_account_lease_def grows_same)
qed

lemma acquire_excluding_grows:
  "grows_by db lid (snd (acquire_account_lease_excluding io now later lid db pool holder ttl excl))"
proof -
  let ?db = "release_expired_account_leases db now"
  let ?l = "new_lease lid pool [] holder now ttl"
  have id: "lease_id ?l = lid" by (simp add: new_lease_def)
  show ?thesis
  proof (cases "statement_fault io")
    case None
    note unfolded = acquire_account_lease_excluding_def None Let_def
    show ?thesis
    proof (cases "load_active_holder_lease ?db holder now")
      case (Some l)
      then show ?thesis by (simp add: unfolded grows_expired)
    next
      case none: None
      show ?thesis
      proof (cases "insert_next_eligible_lease ?db ?l pool excl")
        case (Inl e)
        with none show ?thesis by (simp add: unfolded split: option.split) (simp add: grows_same)
      next
        case (Inr r)
        show ?thesis
        proof (cases r)
          case None
          with Inr none show ?thesis by (simp add: unfolded grows_same)
        next
          case (Some db2)
          from finish_acquisition_leases [of db db2 lid] show ?thesis
            using insert_next_grows [OF Inr [unfolded Some] id] grows_same [of db db lid] Inr none Some
            by (auto simp: unfolded)
        qed
      qed
    qed
  qed (simp add: acquire_account_lease_excluding_def grows_same)
qed

lemma grows_by_leases:
  "grows_by db lid db1 \<Longrightarrow> leases db2 = leases db1 \<Longrightarrow> registry db2 = registry db1 \<Longrightarrow> grows_by db lid db2"
  by (simp add: grows_by_def)

lemma acquire_grows: "grows_by db lid (snd (acquire_account_lease io now later lid db pool holder ttl))"
proof -
  obtain r db1 where r: "acquire_account_lease_excluding io now later lid db pool holder ttl [] = (r, db1)" by fastforce
  have "leases (snd (acquire_account_lease io now later lid db pool holder ttl)) = leases db1 \<and>
      registry (snd (acquire_account_lease io now later lid db pool holder ttl)) = registry db1"
    by (auto simp: acquire_account_lease_def r split: sum.split lease_error.split option.split)
  with acquire_excluding_grows [of db lid io now later pool holder ttl "[]"] show ?thesis
    by (auto simp: r intro: grows_by_leases)
qed

lemma sync_leases: "sync_account_membership_compat db a pool pos updated = Inr (b, db1) \<Longrightarrow> leases db1 = leases db"
  by (auto simp: sync_account_membership_compat_def upsert_account_pool_membership_def split: sum.splits if_splits)

lemma assign_shrinks: "shrinks_to db (snd (assign_account_pool io clock db a pool))"
  by (auto simp: assign_account_pool_def Let_def dest: sync_leases split: option.split sum.split)

lemma follows_leases:
  "leases (registry_follows_runtime db a h updated) = leases db"
  "leases (record_runtime_health db ev updated) = leases db"
  by (simp_all add: registry_follows_runtime_def record_runtime_health_def)

lemma membership_follows_leases: "membership_follows_runtime db a updated = Inr db1 \<Longrightarrow> leases db1 = leases db"
proof -
  have "map_sum id snd (sync_account_membership_compat d a pool pos updated) = Inr db3 \<Longrightarrow> leases db3 = leases d"
    for d pool pos db3
    by (cases "sync_account_membership_compat d a pool pos updated") (auto dest: sync_leases)
  then show "membership_follows_runtime db a updated = Inr db1 \<Longrightarrow> leases db1 = leases db"
    by (auto simp: membership_follows_runtime_def split: option.splits)
qed

lemma apply_health_leases: "apply_health_event db ev updated = Inr db1 \<Longrightarrow> leases db1 = leases db"
  by (auto simp: apply_health_event_def Let_def follows_leases dest: membership_follows_leases
      split: if_splits sum.splits)

lemma record_health_leases:
  "leases (snd (record_health_attempts ios clock db ev n)) = leases db"
proof (induction n)
  case (Suc n)
  then show ?case
    by (auto simp: Let_def split: option.split sum.split dest: apply_health_leases)
qed simp

lemma set_enabled_shrinks: "shrinks_to db (snd (set_account_enabled io clock db a on))"
  by (auto simp: set_account_enabled_def in_write_transaction_def Let_def intro: shrinks_same split: option.split)

lemma remove_shrinks: "shrinks_to db (snd (remove_account_registry_entry io clock db a))"
proof -
  have "shrinks_to db (d\<lparr>startup := x\<rparr>)" if "d = delete_account db a" for d x
    unfolding shrinks_to_def that
    by (rule exI [of _ "\<lambda>l. l"], rule exI [of _ "\<lambda>l. lease_account_id l \<noteq> a"]) (simp add: delete_account_def)
  then show ?thesis
    by (auto simp: remove_account_registry_entry_def in_write_transaction_def split: option.split)
qed

lemma control_leases [simp]:
  "leases (forget_stale_health db a h) = leases db"
  "leases (move_runtime db a pool updated) = leases db"
  by (simp_all add: forget_stale_health_def move_runtime_def)

lemma membership_leases: "upsert_account_pool_membership db a pool pos t u = Inr db1 \<Longrightarrow> leases db1 = leases db"
  by (auto simp: upsert_account_pool_membership_def split: if_splits)

lemma upsert_entry_shrinks: "shrinks_to db (snd (upsert_account_registry_entry io clock db ent))"
proof -
  have body: "upsert_registry_entry_body db ent now = Inr db1 \<Longrightarrow> shrinks_to db db1" for now db1
    by (auto simp: upsert_registry_entry_body_def Let_def shrinks_same
        dest!: membership_leases split: if_splits sum.splits)
  show ?thesis
  proof (cases "upsert_registry_entry_body db ent (timestamp clock)")
    case (Inr db1)
    from body [OF this] Inr show ?thesis
      by (simp add: upsert_account_registry_entry_def in_fallible_transaction_def split: option.split)
  qed (simp add: upsert_account_registry_entry_def in_fallible_transaction_def split: option.split)
qed

lemma upsert_registered_shrinks: "shrinks_to db (snd (upsert_registered_account io clock db ups))"
proof -
  have body: "shrinks_to db db1" if "upsert_registered_body db ups a now = Inr (r, db1)" for a now r db1
  proof (cases "ups_membership ups")
    case None
    with that show ?thesis
      by (auto simp: upsert_registered_body_def Let_def shrinks_same split: if_splits)
  next
    case (Some mp)
    moreover obtain pool pos where "mp = (pool, pos)" by fastforce
    ultimately show ?thesis
      using that by (auto simp: upsert_registered_body_def Let_def shrinks_same
        dest!: membership_leases split: if_splits sum.splits)
  qed
  then have run: "shrinks_to db (snd (case upsert_registered_body db ups a now of
      Inl err \<Rightarrow> (Inl err, db) | Inr (r, db1) \<Rightarrow> (Inr r, db1)))" for a now
    by (auto split: sum.split)
  show ?thesis
    unfolding upsert_registered_account_def Let_def
    by (auto simp: run split: option.split list.split)
qed

lemma import_leases: "leases (snd (import_legacy_default_account io clock db a)) = leases db"
proof -
  have "import_legacy_body db a now = Inr (u, db1) \<Longrightarrow> leases db1 = leases db" for now u db1
    by (auto simp: import_legacy_body_def Let_def dest!: membership_leases split: if_splits sum.splits)
  then show ?thesis
    by (simp add: import_legacy_default_account_def in_fallible_transaction_def split: option.split sum.split)
qed

lemma startup_operations_frame:
  "leases (snd (write_account_startup_selection io clock db update)) = leases db"
  "registry (snd (write_account_startup_selection io clock db update)) = registry db"
  "leases (snd (create_pending_account_registration io clock db entry)) = leases db"
  "registry (snd (create_pending_account_registration io clock db entry)) = registry db"
  "leases (snd (finalize_pending_account_registration io clock db key handle a)) = leases db"
  "registry (snd (finalize_pending_account_registration io clock db key handle a)) = registry db"
  "leases (snd (clear_pending_account_registration io db key)) = leases db"
  "registry (snd (clear_pending_account_registration io db key)) = registry db"
  "leases (snd (write_account_compat_migration_state io db completed)) = leases db"
  "registry (snd (write_account_compat_migration_state io db completed)) = registry db"
  by (simp_all add: write_account_startup_selection_def in_write_transaction_def append_account_pool_event_def
      create_pending_account_registration_def finalize_pending_account_registration_def
      clear_pending_account_registration_def write_account_compat_migration_state_def run_statement_def Let_def
      split: option.split)

lemma db_step_leases:
  "db_step label db db' \<Longrightarrow> (case label of Some lid \<Rightarrow> grows_by db lid db' | None \<Rightarrow> shrinks_to db db')"
proof (induction rule: db_step.induct)
  case (acquire_next lid db io now later pool holder ttl)
  show ?case by (simp add: acquire_grows)
next
  case (acquire_excluding lid db io now later pool holder ttl excluded)
  show ?case by (simp add: acquire_excluding_grows)
next
  case (acquire_requested lid db io now later pool a holder ttl check)
  show ?case by (simp add: acquire_requested_grows)
next
  case (renew db io key now ttl)
  show ?case by (simp add: renew_shrinks)
next
  case (release db io key now)
  show ?case by (simp add: release_shrinks)
next
  case (assign_pool db io clock a pool)
  show ?case by (simp add: assign_shrinks)
next
  case (health db ios clocks ev)
  show ?case by (simp add: record_account_health_event_def record_health_leases shrinks_same)
next
  case (upsert_entry db io clock ent)
  show ?case by (simp add: upsert_entry_shrinks)
next
  case (set_enabled db io clock a on)
  show ?case by (simp add: set_enabled_shrinks)
next
  case (remove db io clock a)
  show ?case by (simp add: remove_shrinks)
next
  case (upsert_registered db io clock ups)
  show ?case by (simp add: upsert_registered_shrinks)
next
  case (import_legacy db io clock a)
  show ?case by (simp add: import_leases shrinks_same)
qed (auto intro!: shrinks_same simp: startup_operations_frame upsert_account_quota_state_def reserve_account_quota_probe_def
    record_account_quota_probe_success_def record_account_quota_probe_still_blocked_def
    record_account_quota_probe_ambiguous_def record_probe_def Let_def split: option.split)

lemma db_step_ok: "db_step label db db' \<Longrightarrow> lease_table_ok (leases db) \<Longrightarrow> lease_table_ok (leases db')"
  using db_step_leases [of label db db'] by (auto simp: grows_by_def intro: shrinks_ok split: option.splits)

lemma db_run_ok: "db_run ids db db' \<Longrightarrow> lease_table_ok (leases db) \<Longrightarrow> lease_table_ok (leases db')"
  by (induction rule: db_run.induct) (auto intro: db_step_ok)

lemma reachable_ok: "reachable_db db \<Longrightarrow> lease_table_ok (leases db)"
  unfolding reachable_db_def by (auto dest: db_run_ok simp: empty_db_def lease_table_ok_def)

section \<open>Exclusion and fencing\<close>

lemma lease_table_ok_same:
  "lease_table_ok ls \<Longrightarrow> k \<in> set ls \<Longrightarrow> l \<in> set ls \<Longrightarrow> conflict k l \<Longrightarrow> k = l"
  unfolding lease_table_ok_def by (metis distinct_map inj_onD)

text \<open>A database with one account, leased.\<close>

definition leased_db :: account_db where
  "leased_db = snd (acquire_requested_account_lease all_well 0 0 (lit ''l1'') registered_db (lit ''p'') (lit ''a'')
     (lit ''h1'') (secs 300) (SelectionFamily (lit ''codex'')))"

lemma db_run_registered: "db_run [] empty_db registered_db"
  using db_run.step [OF db_run.start db_step.upsert_entry] by (simp add: registered_db_def)

lemma db_run_leased: "db_run [lit ''l1''] empty_db leased_db"
  using db_run.step [OF db_run_registered db_step.acquire_requested] by (simp add: leased_db_def)

lemma leases_leased_db:
  "leases leased_db = [\<lparr>lease_id = lit ''l1'', lease_pool_id = lit ''p'', lease_account_id = lit ''a'',
     holder_instance_id = lit ''h1'', lease_epoch = 1, acquired_at = 0, renewed_at = 0, expires_at = 300,
     released_at = None\<rparr>]"
  by code_simp

text \<open>
  C30: No account is leased twice: whatever the processes sharing the database do and
  whatever fails, two unreleased leases of one account, or of one holder, are the same
  lease, and an epoch of an account names one lease.
\<close>

theorem leases_exclude_each_other:
  assumes "reachable_db db" and "k \<in> set (leases db)" and "l \<in> set (leases db)"
    and "(unreleased k \<and> unreleased l \<and>
            (lease_account_id k = lease_account_id l \<or> holder_instance_id k = holder_instance_id l)) \<or>
         (lease_account_id k = lease_account_id l \<and> lease_epoch k = lease_epoch l)"
  shows "k = l"
  using lease_table_ok_same [OF reachable_ok [OF assms(1)] assms(2,3)] assms(4) by (simp add: conflict_def)

lemma leases_exclude_each_other_witness:
  "hd (leases leased_db) = last (leases leased_db)"
proof (rule leases_exclude_each_other [of leased_db])
  show "reachable_db leased_db" using db_run_leased by (auto simp: reachable_db_def)
qed (simp_all add: leases_leased_db unreleased_def)

definition stale_key :: "lease_key \<Rightarrow> account_db \<Rightarrow> bool" where
  "stale_key k db \<longleftrightarrow> (\<forall>l \<in> set (leases db). \<not> key_matches k l)"

lemma key_matches_update: "lease_update f \<Longrightarrow> key_matches k (f l) \<Longrightarrow> key_matches k l"
  using lease_updateD [of f l] by (auto simp: key_matches_def)

lemma stale_step:
  "db_step label db db' \<Longrightarrow> stale_key k db \<Longrightarrow> label \<noteq> Some (key_lease_id k) \<Longrightarrow> stale_key k db'"
proof -
  assume step: "db_step label db db'" and stale: "stale_key k db" and label: "label \<noteq> Some (key_lease_id k)"
  have upd: "\<not> key_matches k (f l)" if "lease_update f" "l \<in> set (leases db)" for f l
    using stale that key_matches_update unfolding stale_key_def by blast
  show "stale_key k db'"
  proof (cases label)
    case None
    with db_step_leases [OF step] upd show ?thesis by (auto simp: shrinks_to_def stale_key_def)
  next
    case (Some lid)
    with db_step_leases [OF step] obtain f where f: "lease_update f"
      "leases db' = map f (leases db) \<or> (\<exists>l. lease_id l = lid \<and> leases db' = map f (leases db) @ [l])"
      by (auto simp: grows_by_def)
    with upd [OF f(1)] Some label show ?thesis by (auto simp: stale_key_def key_matches_def)
  qed
qed

lemma stale_run: "db_run ids db db' \<Longrightarrow> stale_key k db \<Longrightarrow> key_lease_id k \<notin> set ids \<Longrightarrow> stale_key k db'"
proof (induction rule: db_run.induct)
  case (step ids db db1 label db2)
  then show ?case by (intro stale_step [OF step.hyps(2)]) (auto split: option.splits)
qed

lemma stale_refused:
  assumes "stale_key k db"
  shows "fst (renew_account_lease io db k now ttl) \<noteq> Inr (Renewed r)"
    and "fst (release_account_lease io db k now) \<noteq> Inr True"
    and "leases (snd (renew_account_lease io db k now ttl)) = leases db"
    and "leases (snd (release_account_lease io db k now)) = leases db"
  using assms unfolding stale_key_def
  by (auto simp: renew_account_lease_def release_account_lease_def in_write_transaction_def Let_def list_ex_iff
      split: option.splits)

text \<open>
  C33: A holder that lost its account cannot get in the way of the next one: once an account
  is leased under another key, the old key neither renews nor releases anything, in that
  state and in every later one, as long as lease identifiers are not drawn twice.
\<close>

theorem superseded_lease_stays_fenced:
  assumes "reachable_db db" and "l \<in> set (leases db)" and "unreleased l"
    and "key_account_id k = lease_account_id l" and "k \<noteq> lease_key_of l"
    and "db_run ids db db'" and "key_lease_id k \<notin> set ids"
  shows "(\<forall>r. fst (renew_account_lease io db' k now ttl) \<noteq> Inr (Renewed r)) \<and>
    fst (release_account_lease io db' k now) \<noteq> Inr True \<and>
    leases (snd (renew_account_lease io db' k now ttl)) = leases db' \<and>
    leases (snd (release_account_lease io db' k now)) = leases db'"
proof -
  have "\<not> key_matches k m" if m: "m \<in> set (leases db)" for m
  proof
    assume "key_matches k m"
    with assms(3,4) have "conflict m l" "k = lease_key_of m"
      by (auto simp: key_matches_def conflict_def lease_key_of_def)
    with lease_table_ok_same [OF reachable_ok [OF assms(1)] m assms(2)] assms(5) show False by simp
  qed
  then have "stale_key k db" by (simp add: stale_key_def)
  from stale_refused [OF stale_run [OF assms(6) this assms(7)]] show ?thesis by blast
qed

lemma superseded_lease_stays_fenced_witness:
  "fst (release_account_lease all_well leased_db
      \<lparr>key_lease_id = lit ''l0'', key_account_id = lit ''a'', key_lease_epoch = 0\<rparr> 10) \<noteq> Inr True"
proof -
  let ?k = "\<lparr>key_lease_id = lit ''l0'', key_account_id = lit ''a'', key_lease_epoch = 0\<rparr>"
  have "reachable_db leased_db" using db_run_leased by (auto simp: reachable_db_def)
  from superseded_lease_stays_fenced [OF this _ _ _ _ db_run.start, of "hd (leases leased_db)" ?k all_well 10]
  show ?thesis by (simp add: leases_leased_db unreleased_def lease_key_of_def)
qed

section \<open>Only enabled accounts are leased\<close>

definition leases_enabled :: "account_db \<Rightarrow> bool" where
  "leases_enabled db \<longleftrightarrow> (\<forall>l \<in> set (leases db). unreleased l \<longrightarrow> is_enabled db (lease_account_id l))"

lemma leases_enabled_shrinks:
  assumes "shrinks_to db db'" and "leases_enabled db"
    and kept: "\<And>x. is_enabled db x \<Longrightarrow> is_enabled db' x \<or> \<not> has_unreleased_lease db' x"
  shows "leases_enabled db'"
  unfolding leases_enabled_def
proof (intro ballI impI)
  fix l' assume l': "l' \<in> set (leases db')" "unreleased l'"
  from assms(1) obtain f P where f: "lease_update f" "leases db' = map f (filter P (leases db))"
    by (auto simp: shrinks_to_def)
  with l' obtain l where l: "l \<in> set (leases db)" "l' = f l" by auto
  with l'(2) assms(2) lease_updateD [OF f(1), of l] have "is_enabled db (lease_account_id l')"
    by (auto simp: leases_enabled_def)
  moreover have "has_unreleased_lease db' (lease_account_id l')"
    using l' by (auto simp: has_unreleased_lease_def list_ex_iff)
  ultimately show "is_enabled db' (lease_account_id l')" using kept by blast
qed

lemma leases_enabled_grows: "grows_by db lid db' \<Longrightarrow> leases_enabled db \<Longrightarrow> leases_enabled db'"
proof -
  assume g: "grows_by db lid db'" and e: "leases_enabled db"
  then obtain f where f: "lease_update f" and reg: "registry db' = registry db"
    and ls: "leases db' = map f (leases db) \<or> (\<exists>l. is_enabled db (lease_account_id l) \<and> leases db' = map f (leases db) @ [l])"
    by (auto simp: grows_by_def)
  have same: "is_enabled db' a = is_enabled db a" for a by (simp add: is_enabled_def registry_lookup_def reg)
  have "is_enabled db (lease_account_id (f l))" if "l \<in> set (leases db)" "unreleased (f l)" for l
    using e that lease_updateD [OF f, of l] by (auto simp: leases_enabled_def)
  with ls show "leases_enabled db'" by (auto simp: leases_enabled_def same)
qed

lemma find_map_keyed:
  assumes "\<And>r. reg_account_id (f r) = reg_account_id r"
  shows "find (\<lambda>r. reg_account_id r = x) (map f rows) = map_option f (find (\<lambda>r. reg_account_id r = x) rows)"
  by (induction rows) (auto simp: assms)

lemma lookup_map:
  assumes "registry db' = map g (registry db)" and "\<And>r. reg_account_id (g r) = reg_account_id r"
  shows "registry_lookup db' x = map_option g (registry_lookup db x)"
  unfolding registry_lookup_def assms(1) by (rule find_map_keyed) (rule assms(2))

lemma is_enabled_keep:
  assumes "registry db' = map g (registry db)" and "\<And>r. reg_account_id (g r) = reg_account_id r"
    and "\<And>r. reg_enabled (g r) = reg_enabled r"
  shows "is_enabled db' = is_enabled db"
proof
  fix x
  show "is_enabled db' x = is_enabled db x"
    using lookup_map [OF assms(1,2), of x] by (cases "registry_lookup db x") (simp_all add: is_enabled_def assms(3))
qed

lemma is_enabled_elsewhere:
  assumes "registry db' = map (\<lambda>r. if reg_account_id r = a then f r else r) (registry db)"
    and "\<And>r. reg_account_id (f r) = a" and "x \<noteq> a"
  shows "is_enabled db' x = is_enabled db x"
proof -
  have "registry_lookup db' x = map_option (\<lambda>r. if reg_account_id r = a then f r else r) (registry_lookup db x)"
    by (rule lookup_map [OF assms(1)]) (simp add: assms(2))
  moreover have "registry_lookup db x = Some r \<Longrightarrow> reg_account_id r \<noteq> a" for r
    using assms(3) by (auto simp: registry_lookup_def find_Some_iff)
  ultimately show ?thesis by (cases "registry_lookup db x") (auto simp: is_enabled_def)
qed

lemma is_enabled_upsert:
  assumes up: "registry db' = upsert_row (\<lambda>r. reg_account_id r = a) f new (registry db)"
    and id: "\<And>r. reg_account_id (f r) = a" "reg_account_id new = a"
    and on: "\<And>r. reg_enabled (f r) = on" "reg_enabled new = on"
  shows "is_enabled db' x = (if x = a then on else is_enabled db x)"
proof (cases "list_ex (\<lambda>r. reg_account_id r = a) (registry db)")
  case True
  let ?g = "\<lambda>r. if reg_account_id r = a then f r else r"
  have map: "registry db' = map ?g (registry db)" using up True by (simp add: upsert_row_def replace_row_def)
  show ?thesis
  proof (cases "x = a")
    case eq: True
    have "registry_lookup db' a = map_option ?g (registry_lookup db a)"
      by (rule lookup_map [OF map]) (simp add: id)
    moreover from True have "registry_lookup db a \<noteq> None"
      by (auto simp: registry_lookup_def list_ex_iff find_None_iff)
    then obtain r where "registry_lookup db a = Some r" "reg_account_id r = a"
      by (auto simp: registry_lookup_def find_Some_iff)
    ultimately show ?thesis using eq by (simp add: is_enabled_def on)
  next
    case False
    from is_enabled_elsewhere [OF map id(1) False] False show ?thesis by simp
  qed
next
  case False
  then have none: "find (\<lambda>r. reg_account_id r = a) (registry db) = None" by (auto simp: find_None_iff list_ex_iff)
  have "registry db' = registry db @ [new]" using up False by (simp add: upsert_row_def)
  then have lookup: "registry_lookup db' x =
      (case registry_lookup db x of None \<Rightarrow> if x = a then Some new else None | Some r \<Rightarrow> Some r)"
    using id(2) by (auto simp: registry_lookup_def find_append split: option.split)
  show ?thesis
  proof (cases "registry_lookup db x")
    case None
    with lookup on(2) show ?thesis by (simp add: is_enabled_def)
  next
    case (Some r)
    with none have "x \<noteq> a" by (auto simp: registry_lookup_def)
    with Some lookup show ?thesis by (simp add: is_enabled_def)
  qed
qed

lemma is_enabled_same: "registry db' = registry db \<Longrightarrow> is_enabled db' = is_enabled db"
  by (auto simp: is_enabled_def registry_lookup_def)

lemma no_unreleased_after [simp]:
  "\<not> has_unreleased_lease (release_unreleased_account_leases db a when) a"
proof -
  have "\<not> list_ex (\<lambda>l. lease_account_id l = a \<and> unreleased l)
      (map (\<lambda>l. if lease_account_id l = a \<and> unreleased l then l\<lparr>released_at := Some when\<rparr> else l) ls)" for ls
    by (induction ls) (simp_all add: unreleased_def)
  then show ?thesis by (simp add: has_unreleased_lease_def release_unreleased_account_leases_def)
qed

lemma is_enabled_fields [simp]:
  "is_enabled (release_unreleased_account_leases db a when) = is_enabled db"
  "is_enabled (append_account_pool_event db e) = is_enabled db"
  "is_enabled (forget_stale_health db a h) = is_enabled db"
  "is_enabled (move_runtime db a pool updated) = is_enabled db"
  "is_enabled (record_runtime_health db ev updated) = is_enabled db"
  by (rule is_enabled_same, simp add: forget_stale_health_def move_runtime_def record_runtime_health_def)+

lemma enabled_kept: "is_enabled db' = is_enabled db \<Longrightarrow> shrinks_to db db' \<Longrightarrow> leases_enabled db \<Longrightarrow> leases_enabled db'"
  by (rule leases_enabled_shrinks) auto

lemma membership_enabled:
  "upsert_account_pool_membership db a pool pos t u = Inr db1 \<Longrightarrow> is_enabled db1 = is_enabled db"
  by (rule is_enabled_same) (auto simp: upsert_account_pool_membership_def split: if_splits)

lemma sync_enabled:
  assumes "sync_account_membership_compat db a pool pos updated = Inr (b, db1)"
  shows "is_enabled db1 = is_enabled db"
proof -
  let ?f = "\<lambda>r. r\<lparr>reg_pool_id := pool, reg_position := pos, reg_updated_at := updated\<rparr>"
  from assms obtain d where d: "upsert_account_pool_membership db a pool pos updated updated = Inr d"
    and map: "registry db1 = map (\<lambda>r. if reg_account_id r = a then ?f r else r) (registry d)"
    by (auto simp: sync_account_membership_compat_def replace_row_def split: sum.splits)
  have "is_enabled db1 = is_enabled d" by (rule is_enabled_keep [OF map]) simp_all
  with membership_enabled [OF d] show ?thesis by simp
qed

lemma assign_enabled: "is_enabled (snd (assign_account_pool io clock db a pool)) = is_enabled db"
  by (auto simp: assign_account_pool_def Let_def dest!: sync_enabled split: option.split sum.split)

lemma membership_follows_enabled:
  "membership_follows_runtime db a updated = Inr db1 \<Longrightarrow> is_enabled db1 = is_enabled db"
proof -
  have "map_sum id snd (sync_account_membership_compat d a pool pos updated) = Inr db3 \<Longrightarrow> is_enabled db3 = is_enabled d"
    for d pool pos db3
    by (cases "sync_account_membership_compat d a pool pos updated") (auto dest: sync_enabled)
  then show "membership_follows_runtime db a updated = Inr db1 \<Longrightarrow> is_enabled db1 = is_enabled db"
    by (auto simp: membership_follows_runtime_def split: option.splits)
qed

lemma follows_enabled: "is_enabled (registry_follows_runtime db a h updated) = is_enabled db"
proof -
  let ?f = "\<lambda>r. r\<lparr>reg_pool_id := (if h then (case runtime_lookup db a of Some x \<Rightarrow> run_pool_id x | None \<Rightarrow> reg_pool_id r)
          else reg_pool_id r),
        reg_healthy := (case runtime_lookup db a of Some x \<Rightarrow> run_health x = Healthy | None \<Rightarrow> False),
        reg_updated_at := updated\<rparr>"
  have map: "registry (registry_follows_runtime db a h updated) =
      map (\<lambda>r. if reg_account_id r = a then ?f r else r) (registry db)"
    by (simp add: registry_follows_runtime_def replace_row_def)
  show ?thesis by (rule is_enabled_keep [OF map]) simp_all
qed

lemma apply_health_enabled: "apply_health_event db ev updated = Inr db1 \<Longrightarrow> is_enabled db1 = is_enabled db"
  by (auto simp: apply_health_event_def Let_def follows_enabled dest!: membership_follows_enabled
      split: if_splits sum.splits)

lemma record_health_enabled: "is_enabled (snd (record_health_attempts ios clock db ev n)) = is_enabled db"
proof (induction n)
  case (Suc n)
  then show ?case
    by (auto simp: Let_def split: option.split sum.split dest: apply_health_enabled)
qed simp

lemma leases_enabled_upsert:
  assumes "registry d = upsert_row (\<lambda>r. reg_account_id r = a) f new (registry db)"
    and "\<And>r. reg_account_id (f r) = a" "reg_account_id new = a"
    and "\<And>r. reg_enabled (f r) = on" "reg_enabled new = on"
    and "is_enabled db' = is_enabled d" and "\<not> on \<Longrightarrow> \<not> has_unreleased_lease db' a"
    and "shrinks_to db db'" and "leases_enabled db"
  shows "leases_enabled db'"
proof (rule leases_enabled_shrinks [OF assms(8,9)])
  fix x assume "is_enabled db x"
  with is_enabled_upsert [OF assms(1-5), of x] assms(6,7)
  show "is_enabled db' x \<or> \<not> has_unreleased_lease db' x" by (cases "x = a") auto
qed

lemma set_enabled_ok: "leases_enabled db \<Longrightarrow> leases_enabled (snd (set_account_enabled io clock db a on))"
proof -
  assume ok: "leases_enabled db"
  define d where "d = db\<lparr>registry := map (\<lambda>r. if reg_account_id r = a
      then r\<lparr>reg_enabled := on, reg_updated_at := timestamp clock\<rparr> else r) (registry db)\<rparr>"
  let ?db' = "if is_registered db a \<and> \<not> on then release_unreleased_account_leases d a (timestamp clock) else d"
  have result: "snd (set_account_enabled io clock db a on) = db \<or> snd (set_account_enabled io clock db a on) = ?db'"
    unfolding set_account_enabled_def in_write_transaction_def Let_def replace_row_def d_def [symmetric]
    by (simp split: option.split)
  have en: "is_enabled ?db' = is_enabled d" by simp
  have "leases_enabled ?db'"
  proof (rule leases_enabled_shrinks [OF _ ok])
    show "shrinks_to db ?db'" by (simp add: shrinks_same d_def)
    fix x assume x: "is_enabled db x"
    show "is_enabled ?db' x \<or> \<not> has_unreleased_lease ?db' x"
    proof (cases "x = a")
      case True
      have "registry_lookup d x = map_option (\<lambda>r. if reg_account_id r = a
          then r\<lparr>reg_enabled := on, reg_updated_at := timestamp clock\<rparr> else r) (registry_lookup db x)"
        by (rule lookup_map) (simp_all add: d_def)
      with x have "on \<Longrightarrow> is_enabled d x" by (auto simp: is_enabled_def split: option.splits)
      moreover from x True have "is_registered db a"
        by (auto simp: is_registered_def is_enabled_def split: option.splits)
      ultimately show ?thesis using True en by (cases on) auto
    next
      case False
      have "registry_lookup d x = map_option (\<lambda>r. if reg_account_id r = a
          then r\<lparr>reg_enabled := on, reg_updated_at := timestamp clock\<rparr> else r) (registry_lookup db x)"
        by (rule lookup_map) (simp_all add: d_def)
      moreover have "registry_lookup db x = Some r \<Longrightarrow> reg_account_id r = x" for r
        by (auto simp: registry_lookup_def find_Some_iff)
      ultimately have "is_enabled d x" using x False by (auto simp: is_enabled_def split: option.splits)
      with en show ?thesis by simp
    qed
  qed
  with result ok show ?thesis by auto
qed

lemma leases_of_upsert: "leases (db\<lparr>registry := x\<rparr>) = leases db"
  by simp

lemma upsert_entry_ok: "leases_enabled db \<Longrightarrow> leases_enabled (snd (upsert_account_registry_entry io clock db ent))"
proof -
  assume ok: "leases_enabled db"
  let ?a = "ent_account_id ent"
  have body: "leases_enabled db1" if up: "upsert_registry_entry_body db ent now = Inr db1" for now db1
  proof -
    let ?new = "registry_row_of_entry ent now"
    let ?f = "\<lambda>r. ?new\<lparr>display_name := display_name r, account_source := account_source r,
        reg_created_at := reg_created_at r\<rparr>"
    define d where "d = db\<lparr>registry := upsert_row (\<lambda>r. reg_account_id r = ?a) ?f ?new (registry db)\<rparr>"
    from up obtain d2 where d2: "upsert_account_pool_membership d ?a (ent_pool_id ent) (ent_position ent) now now = Inr d2"
      unfolding upsert_registry_entry_body_def Let_def d_def [symmetric] by (auto split: if_splits sum.splits)
    let ?d3 = "move_runtime (forget_stale_health d2 ?a (ent_healthy ent)) ?a (ent_pool_id ent) now"
    have cases: "db1 = ?d3 \<and> ent_enabled ent \<or> db1 = release_unreleased_account_leases ?d3 ?a now"
      using up d2 unfolding upsert_registry_entry_body_def Let_def d_def [symmetric]
      by (simp split: if_splits sum.splits)
    have ls: "leases ?d3 = leases db" using membership_leases [OF d2] by (simp add: d_def)
    show ?thesis
    proof (rule leases_enabled_upsert [of d ?a ?f ?new db "ent_enabled ent" db1])
      show "registry d = upsert_row (\<lambda>r. reg_account_id r = ?a) ?f ?new (registry db)" by (simp add: d_def)
      show "is_enabled db1 = is_enabled d" using cases membership_enabled [OF d2] by auto
      show "shrinks_to db db1" using cases ls by (auto simp: shrinks_same)
      show "\<not> has_unreleased_lease db1 ?a" if "\<not> ent_enabled ent" using cases that by auto
    qed (simp_all add: ok registry_row_of_entry_def)
  qed
  show ?thesis
  proof (cases "upsert_registry_entry_body db ent (timestamp clock)")
    case (Inr db1)
    from body [OF this] Inr ok show ?thesis
      by (simp add: upsert_account_registry_entry_def in_fallible_transaction_def split: option.split)
  qed (use ok in \<open>simp add: upsert_account_registry_entry_def in_fallible_transaction_def split: option.split\<close>)
qed

lemma upsert_registered_ok: "leases_enabled db \<Longrightarrow> leases_enabled (snd (upsert_registered_account io clock db ups))"
proof -
  assume ok: "leases_enabled db"
  have body: "leases_enabled db1" if up: "upsert_registered_body db ups a now = Inr (r, db1)" for a now r db1
  proof -
    let ?new = "registry_row_of_upsert ups a now"
    let ?f = "\<lambda>r. ?new\<lparr>workspace_id := (if workspace_id ups = None then workspace_id r else workspace_id ups),
        account_source := (if account_source ups = None then account_source r else account_source ups),
        reg_created_at := reg_created_at r\<rparr>"
    define d where "d = db\<lparr>registry := upsert_row (\<lambda>r. reg_account_id r = a) ?f ?new (registry db)\<rparr>"
    define step where "step = (case ups_membership ups of
        Some (pool, pos) \<Rightarrow> upsert_account_pool_membership d a pool pos now now
      | None \<Rightarrow> Inr (d\<lparr>memberships := filter (\<lambda>m. mem_account_id m \<noteq> a) (memberships d)\<rparr>))"
    from up obtain d2 where d2: "step = Inr d2"
      unfolding upsert_registered_body_def Let_def d_def [symmetric] step_def [symmetric]
      by (auto split: if_splits sum.splits)
    define d4 where "d4 = (case ups_membership ups of
        Some (pool, _) \<Rightarrow> move_runtime (forget_stale_health d2 a (reg_healthy ups)) a pool now
      | None \<Rightarrow> (forget_stale_health d2 a (reg_healthy ups))\<lparr>runtime_states :=
          filter (\<lambda>r. run_account_id r \<noteq> a) (runtime_states (forget_stale_health d2 a (reg_healthy ups)))\<rparr>)"
    have same: "leases d2 = leases d \<and> is_enabled d2 = is_enabled d"
    proof (cases "ups_membership ups")
      case None
      with d2 have "d2 = d\<lparr>memberships := filter (\<lambda>m. mem_account_id m \<noteq> a) (memberships d)\<rparr>" by (simp add: step_def)
      then have "leases d2 = leases d" "registry d2 = registry d" by simp_all
      with is_enabled_same [OF this(2)] show ?thesis by simp
    next
      case (Some mp)
      obtain pool pos where "mp = (pool, pos)" by fastforce
      with Some d2 have "upsert_account_pool_membership d a pool pos now now = Inr d2" by (simp add: step_def)
      from membership_leases [OF this] membership_enabled [OF this] show ?thesis by simp
    qed
    have "is_enabled (x\<lparr>runtime_states := y\<rparr>) = is_enabled x" for x y by (rule is_enabled_same) simp
    then have d4: "leases d4 = leases d2 \<and> is_enabled d4 = is_enabled d2"
      by (simp add: d4_def split: option.split prod.split)
    have cases: "db1 = d4 \<and> reg_enabled ups \<or> db1 = release_unreleased_account_leases d4 a now"
      using up d2 unfolding upsert_registered_body_def Let_def d_def [symmetric] step_def [symmetric]
      by (auto simp add: d4_def [symmetric] split: if_splits sum.splits)
    show ?thesis
    proof (rule leases_enabled_upsert [of d a ?f ?new db "reg_enabled ups" db1])
      show "registry d = upsert_row (\<lambda>r. reg_account_id r = a) ?f ?new (registry db)" by (simp add: d_def)
      show "is_enabled db1 = is_enabled d" using cases same d4 by auto
      show "shrinks_to db db1" using cases same d4 by (auto simp: shrinks_same d_def)
      show "\<not> has_unreleased_lease db1 a" if "\<not> reg_enabled ups" using cases that by auto
    qed (simp_all add: ok registry_row_of_upsert_def)
  qed
  then have run: "leases_enabled (snd (case upsert_registered_body db ups a now of
      Inl err \<Rightarrow> (Inl err, db) | Inr (r, db1) \<Rightarrow> (Inr r, db1)))" for a now
    using ok by (auto split: sum.split)
  show ?thesis
    unfolding upsert_registered_account_def Let_def
    by (auto simp: run ok split: option.split list.split)
qed

lemma remove_ok: "leases_enabled db \<Longrightarrow> leases_enabled (snd (remove_account_registry_entry io clock db a))"
proof -
  assume ok: "leases_enabled db"
  let ?db' = "snd (remove_account_registry_entry io clock db a)"
  have "?db' = db \<or> (leases ?db' = leases (delete_account db a) \<and> registry ?db' = registry (delete_account db a))"
    unfolding remove_account_registry_entry_def in_write_transaction_def
    by (cases "is_registered db a") (simp_all split: option.split)
  then consider "?db' = db" | "leases ?db' = leases (delete_account db a)" "registry ?db' = registry (delete_account db a)"
    by blast
  then show ?thesis
  proof cases
    case 2
    have "find (\<lambda>r. reg_account_id r = x) (filter (\<lambda>r. reg_account_id r \<noteq> a) rows) =
        find (\<lambda>r. reg_account_id r = x) rows" if "x \<noteq> a" for x and rows :: "registry_row list"
      using that by (induction rows) auto
    then have kept: "is_enabled ?db' x = is_enabled db x" if "x \<noteq> a" for x
      using that 2 by (simp add: is_enabled_def registry_lookup_def delete_account_def)
    have none: "\<not> has_unreleased_lease ?db' a"
      by (simp add: has_unreleased_lease_def 2(1) delete_account_def list_ex_iff)
    show ?thesis
    proof (rule leases_enabled_shrinks [OF remove_shrinks ok])
      fix x assume "is_enabled db x"
      with kept none show "is_enabled ?db' x \<or> \<not> has_unreleased_lease ?db' x"
        by (cases "x = a") blast+
    qed
  qed (use ok in simp)
qed

lemma write_transaction_frame:
  "f (snd body) = f db \<Longrightarrow> f (snd (in_write_transaction io name db body)) = f db"
  by (simp add: in_write_transaction_def split: option.split)

lemma renew_registry: "registry (snd (renew_account_lease io db key now ttl)) = registry db"
  unfolding renew_account_lease_def by (rule write_transaction_frame) (simp add: Let_def split: option.split)

lemma release_key_registry: "registry (snd (release_account_lease io db key now)) = registry db"
  unfolding release_account_lease_def by (rule write_transaction_frame) (simp add: Let_def split: option.split)

lemma quota_operations_frame:
  "leases (snd (upsert_account_quota_state io clock db r)) = leases db"
  "registry (snd (upsert_account_quota_state io clock db r)) = registry db"
  "leases (snd (reserve_account_quota_probe io clock db a limit now reserved_until)) = leases db"
  "registry (snd (reserve_account_quota_probe io clock db a limit now reserved_until)) = registry db"
  "leases (snd (record_probe io clock db a limit ob f)) = leases db"
  "registry (snd (record_probe io clock db a limit ob f)) = registry db"
  by (simp_all add: upsert_account_quota_state_def reserve_account_quota_probe_def record_probe_def Let_def
      split: option.split)

lemma enabled_frame: "leases db' = leases db \<Longrightarrow> registry db' = registry db \<Longrightarrow> leases_enabled db \<Longrightarrow> leases_enabled db'"
  by (rule enabled_kept [OF is_enabled_same shrinks_same])

lemma import_body_enabled:
  assumes "import_legacy_body db a now = Inr (u, db1)" and x: "is_enabled db x"
  shows "is_enabled db1 x"
proof -
  let ?f = "\<lambda>r. r\<lparr>account_source := (if account_source r \<noteq> None then account_source r
      else if reg_pool_id r = LEGACY_DEFAULT_POOL_ID then account_source r else Some Migrated)\<rparr>"
  let ?rows = "upsert_row (\<lambda>r. reg_account_id r = a) ?f (legacy_registry_row a now) (registry db)"
  from assms(1) have rows: "registry db1 = ?rows"
    by (auto simp: import_legacy_body_def Let_def upsert_account_pool_membership_def split: if_splits sum.splits)
  show ?thesis
  proof (cases "list_ex (\<lambda>r. reg_account_id r = a) (registry db)")
    case True
    with rows have "registry db1 = map (\<lambda>r. if reg_account_id r = a then ?f r else r) (registry db)"
      by (simp add: upsert_row_def replace_row_def)
    from is_enabled_keep [OF this] have "is_enabled db1 = is_enabled db" by simp
    with x show ?thesis by simp
  next
    case False
    with rows have "registry db1 = registry db @ [legacy_registry_row a now]" by (simp add: upsert_row_def)
    with x show ?thesis
      by (cases "registry_lookup db x") (simp_all add: is_enabled_def registry_lookup_def find_append)
  qed
qed

lemma import_ok:
  assumes "leases_enabled db"
  shows "leases_enabled (snd (import_legacy_default_account io clock db a))"
proof (rule leases_enabled_shrinks [OF shrinks_same [OF import_leases] assms])
  fix x assume "is_enabled db x"
  then show "is_enabled (snd (import_legacy_default_account io clock db a)) x \<or>
      \<not> has_unreleased_lease (snd (import_legacy_default_account io clock db a)) x"
    by (auto simp: import_legacy_default_account_def in_fallible_transaction_def import_body_enabled
        split: option.split sum.split)
qed

lemma db_step_enabled: "db_step label db db' \<Longrightarrow> leases_enabled db \<Longrightarrow> leases_enabled db'"
proof (induction rule: db_step.induct)
  case (acquire_next lid db io now later pool holder ttl)
  then show ?case by (rule leases_enabled_grows [OF acquire_grows])
next
  case (acquire_excluding lid db io now later pool holder ttl excluded)
  then show ?case by (rule leases_enabled_grows [OF acquire_excluding_grows])
next
  case (acquire_requested lid db io now later pool a holder ttl check)
  then show ?case by (rule leases_enabled_grows [OF acquire_requested_grows])
next
  case (renew db io key now ttl)
  then show ?case by (rule enabled_kept [OF is_enabled_same [OF renew_registry] renew_shrinks])
next
  case (release db io key now)
  then show ?case by (rule enabled_kept [OF is_enabled_same [OF release_key_registry] release_shrinks])
next
  case (assign_pool db io clock a pool)
  then show ?case by (rule enabled_kept [OF assign_enabled assign_shrinks])
next
  case (health db ios clocks ev)
  then show ?case
    unfolding record_account_health_event_def
    by (rule enabled_kept [OF record_health_enabled shrinks_same [OF record_health_leases]])
next
  case (upsert_entry db io clock ent)
  then show ?case by (rule upsert_entry_ok)
next
  case (set_enabled db io clock a on)
  then show ?case by (rule set_enabled_ok)
next
  case (remove db io clock a)
  then show ?case by (rule remove_ok)
next
  case (upsert_registered db io clock ups)
  then show ?case by (rule upsert_registered_ok)
next
  case (import_legacy db io clock a)
  then show ?case by (rule import_ok)
qed (simp_all only: startup_operations_frame record_account_quota_probe_success_def record_account_quota_probe_still_blocked_def
    record_account_quota_probe_ambiguous_def enabled_frame quota_operations_frame)

text \<open>
  Only enabled accounts are leased: in every state that the operations reach, an account
  with an unreleased lease is registered and enabled, so disabling or removing an account
  takes it from its holder at once.
\<close>

theorem leased_accounts_are_enabled:
  assumes "reachable_db db" and "l \<in> set (leases db)" and "released_at l = None"
  shows "\<exists>r. registry_lookup db (lease_account_id l) = Some r \<and> reg_enabled r"
proof -
  from assms(1) obtain ids where "db_run ids empty_db db" by (auto simp: reachable_db_def)
  then have "leases_enabled empty_db \<Longrightarrow> leases_enabled db"
    by (induction rule: db_run.induct) (blast intro: db_step_enabled)+
  then have "leases_enabled db" by (simp add: leases_enabled_def empty_db_def)
  with assms(2,3) have "is_enabled db (lease_account_id l)" by (auto simp: leases_enabled_def unreleased_def)
  then show ?thesis by (auto simp: is_enabled_def split: option.splits)
qed

lemma leased_accounts_are_enabled_witness:
  "\<exists>r. registry_lookup leased_db (lit ''a'') = Some r \<and> reg_enabled r"
proof -
  have "reachable_db leased_db" using db_run_leased by (auto simp: reachable_db_def)
  from leased_accounts_are_enabled [OF this, of "hd (leases leased_db)"] show ?thesis
    by (simp add: leases_leased_db)
qed

end
