(* ===== verification/AccountManager.thy ===== *)
theory AccountManager
  imports AccountStartup
begin

text \<open>
  The manager of a session's account lease (\<open>account-pool/src/manager.rs\<close>), over any backend.
  The trait \<open>AccountPoolExecutionBackend\<close> (\<open>backend.rs\<close>) is a record of functions on a world of
  the backend's own; the clock and the source of legacy credentials are part of it. An
  operation of the manager returns its result, the manager and the world; \<open>None\<close> means that it
  does not return: a loop that goes on forever, or the panic of a duration out of range.
\<close>

section \<open>Grants\<close>

record lease_auth_binding =
  bound_account_id :: ustring
  bound_account_handle :: ustring
  bound_lease_epoch :: "64 word"

record lease_grant =
  grant_key :: lease_key
  grant_account_id :: ustring
  grant_pool_id :: ustring
  grant_session :: lease_auth_binding
  grant_expires_at :: instant
  grant_next_eligible_at :: "instant option"
  grant_acquired_at :: instant
  grant_holder :: ustring

definition grant_from_record :: "lease_record \<Rightarrow> lease_auth_binding \<Rightarrow> instant option \<Rightarrow> lease_grant" where
  "grant_from_record l session next_eligible =
     \<lparr>grant_key = lease_key_of l, grant_account_id = lease_account_id l, grant_pool_id = lease_pool_id l,
      grant_session = session, grant_expires_at = expires_at l, grant_next_eligible_at = next_eligible,
      grant_acquired_at = acquired_at l, grant_holder = holder_instance_id l\<rparr>"

definition with_record :: "lease_grant \<Rightarrow> lease_record \<Rightarrow> lease_grant" where
  "with_record g l =
     g\<lparr>grant_key := lease_key_of l, grant_account_id := lease_account_id l, grant_pool_id := lease_pool_id l,
       grant_expires_at := expires_at l, grant_acquired_at := acquired_at l, grant_holder := holder_instance_id l\<rparr>"

definition with_lease_epoch :: "lease_grant \<Rightarrow> int \<Rightarrow> lease_grant" where
  "with_lease_epoch g epoch = g\<lparr>grant_key := (grant_key g)\<lparr>key_lease_epoch := epoch\<rparr>\<rparr>"

definition grant_remaining_ttl :: "lease_grant \<Rightarrow> instant \<Rightarrow> time_span" where
  "grant_remaining_ttl g now = grant_expires_at g - now"

definition leased_account :: "lease_grant \<Rightarrow> lease_record" where
  "leased_account g =
     \<lparr>lease_id = key_lease_id (grant_key g), lease_pool_id = grant_pool_id g, lease_account_id = grant_account_id g,
      holder_instance_id = grant_holder g, lease_epoch = key_lease_epoch (grant_key g),
      acquired_at = grant_acquired_at g, renewed_at = grant_acquired_at g, expires_at = grant_expires_at g,
      released_at = None\<rparr>"

fun lease_error_text :: "lease_error \<Rightarrow> ustring" where
  "lease_error_text NoEligibleAccount = lit ''no eligible account is available''"
| "lease_error_text (Storage message) = message"

section \<open>The backend\<close>

record probe_reservation =
  reservation_limit_id :: ustring
  reservation_until :: instant

record 'w execution_backend =
  plan_runtime_selection :: "selection_request \<Rightarrow> ustring \<Rightarrow> 'w \<Rightarrow> (ustring + ustring \<times> selection_plan) \<times> 'w"
  acquire_preferred_lease :: "ustring \<Rightarrow> ustring \<Rightarrow> ustring \<Rightarrow> ustring \<Rightarrow> 'w \<Rightarrow> (lease_error + lease_grant) \<times> 'w"
  acquire_probe_lease ::
    "ustring \<Rightarrow> ustring \<Rightarrow> probe_reservation \<Rightarrow> ustring \<Rightarrow> 'w \<Rightarrow> (lease_error + lease_grant) \<times> 'w"
  read_active_holder_lease :: "ustring \<Rightarrow> 'w \<Rightarrow> (ustring + lease_grant option) \<times> 'w"
  reserve_quota_probe ::
    "ustring \<Rightarrow> ustring \<Rightarrow> instant \<Rightarrow> time_span \<Rightarrow> 'w \<Rightarrow> (ustring + probe_reservation option) \<times> 'w"
  refresh_quota_probe :: "lease_grant \<Rightarrow> probe_reservation \<Rightarrow> 'w \<Rightarrow> (ustring + probe_outcome option) \<times> 'w"
  renew_lease :: "lease_key \<Rightarrow> instant \<Rightarrow> 'w \<Rightarrow> (ustring + lease_renewal) \<times> 'w"
  release_lease :: "lease_key \<Rightarrow> instant \<Rightarrow> 'w \<Rightarrow> (ustring + bool) \<times> 'w"
  record_health_event :: "account_health_event \<Rightarrow> 'w \<Rightarrow> (ustring + unit) \<times> 'w"
  read_health_event_sequence :: "ustring \<Rightarrow> 'w \<Rightarrow> (ustring + int option) \<times> 'w"
  read_startup_selection :: "'w \<Rightarrow> (ustring + startup_state) \<times> 'w"
  read_startup_pool_inventory :: "'w \<Rightarrow> (ustring + candidate_pool list) \<times> 'w"
  read_startup_selection_facts :: "ustring \<Rightarrow> 'w \<Rightarrow> (ustring + selection_facts) \<times> 'w"
  current_legacy_auth :: "'w \<Rightarrow> (ustring + ustring option) \<times> 'w"
  utc_now :: "'w \<Rightarrow> instant \<times> 'w"

text \<open>The trait's default method, over \<open>startup_status.rs\<close>.\<close>

definition backend_startup_status ::
  "'w execution_backend \<Rightarrow> ustring option \<Rightarrow> 'w \<Rightarrow> (ustring + startup_status) \<times> 'w" where
  "backend_startup_status be configured w =
     (case read_startup_selection be w of
        (Inl e, w1) \<Rightarrow> (Inl e, w1)
      | (Inr sel, w1) \<Rightarrow>
          (case read_startup_pool_inventory be w1 of
             (Inl e, w2) \<Rightarrow> (Inl e, w2)
           | (Inr inventory, w2) \<Rightarrow>
               (map_sum id shared_startup
                  (read_shared_startup_status sel inventory
                     (\<lambda>pool. fst (read_startup_selection_facts be pool w2)) configured None),
                case fst (resolve_pool (resolution_input_of sel inventory configured None)
                       (sort_by by_pool_id inventory)) of
                  Some pool \<Rightarrow> snd (read_startup_selection_facts be pool w2)
                | None \<Rightarrow> w2)))"

section \<open>The manager\<close>

datatype pending_rotation_kind = HardFailure | SoftProactive

record account_manager =
  mgr_config :: account_pool_config
  holder_id :: ustring
  active_lease :: "lease_grant option"
  next_health_event_sequence :: int
  bootstrapped_legacy_auth :: bool
  proactive_switch_state :: proactive_state
  pending_rotation :: "pending_rotation_kind option"
  last_proactively_replaced :: "ustring option"

definition new_manager :: "account_pool_config \<Rightarrow> ustring \<Rightarrow> (ustring + account_manager) option" where
  "new_manager config holder =
     map_option (map_sum id (\<lambda>_. \<lparr>mgr_config = config, holder_id = holder, active_lease = None,
         next_health_event_sequence = 0, bootstrapped_legacy_auth = False, proactive_switch_state = None,
         pending_rotation = None, last_proactively_replaced = None\<rparr>))
       (validate_config config)"

definition bootstrap_from_legacy_auth ::
  "'w execution_backend \<Rightarrow> account_manager \<Rightarrow> 'w \<Rightarrow> (ustring + unit) \<times> account_manager \<times> 'w" where
  "bootstrap_from_legacy_auth be m w =
     (if bootstrapped_legacy_auth m then (Inr (), m, w)
      else case read_startup_selection be w of
             (Inl e, w1) \<Rightarrow> (Inl e, m, w1)
           | (Inr sel, w1) \<Rightarrow>
               (if st_default_pool_id sel \<noteq> None \<or> st_preferred_account_id sel \<noteq> None \<or> st_suppressed sel
                then (Inr (), m\<lparr>bootstrapped_legacy_auth := True\<rparr>, w1)
                else (case current_legacy_auth be w1 of
                        (Inl e, w2) \<Rightarrow> (Inl e, m, w2)
                      | (Inr _, w2) \<Rightarrow> (Inr (), m\<lparr>bootstrapped_legacy_auth := True\<rparr>, w2))))"

definition clear_lease :: "account_manager \<Rightarrow> account_manager" where
  "clear_lease m = m\<lparr>active_lease := None, next_health_event_sequence := 0,
     proactive_switch_state := proactive_reset (proactive_switch_state m)\<rparr>"

text \<open>What the manager forgets when the backend no longer knows its lease.\<close>

definition lose_lease :: "account_manager \<Rightarrow> account_manager" where
  "lose_lease m = (clear_lease m)\<lparr>pending_rotation := None, last_proactively_replaced := None\<rparr>"

definition is_current_lease :: "account_manager \<Rightarrow> lease_key \<Rightarrow> bool" where
  "is_current_lease m key \<longleftrightarrow> (case active_lease m of None \<Rightarrow> False | Some g \<Rightarrow> grant_key g = key)"

definition probe_holder_instance_id :: "account_manager \<Rightarrow> ustring" where
  "probe_holder_instance_id m = holder_id m @ lit '':probe''"

definition probe_reservation_duration :: time_span where
  "probe_reservation_duration = 30 * nanos_per_sec"

definition request_now :: "'w execution_backend \<Rightarrow> selection_request \<Rightarrow> 'w \<Rightarrow> instant \<times> 'w" where
  "request_now be req w = (case req_now req of Some t \<Rightarrow> (t, w) | None \<Rightarrow> utc_now be w)"

definition adopt_active_grant ::
  "'w execution_backend \<Rightarrow> account_manager \<Rightarrow> lease_grant \<Rightarrow> 'w
   \<Rightarrow> (lease_error + lease_record) \<times> account_manager \<times> 'w" where
  "adopt_active_grant be m g w =
     (case read_health_event_sequence be (grant_account_id g) w of
        (Inl e, w1) \<Rightarrow> (Inl (Storage e), m, w1)
      | (Inr s, w1) \<Rightarrow>
          (Inr (leased_account g),
           m\<lparr>next_health_event_sequence := (case s of Some n \<Rightarrow> n | None \<Rightarrow> 0), active_lease := Some g,
             proactive_switch_state := proactive_reset (proactive_switch_state m)\<rparr>, w1))"

definition release_active_lease_at ::
  "'w execution_backend \<Rightarrow> account_manager \<Rightarrow> instant \<Rightarrow> 'w \<Rightarrow> (ustring + unit) \<times> account_manager \<times> 'w" where
  "release_active_lease_at be m now w =
     (case active_lease m of
        None \<Rightarrow> (Inr (), clear_lease m, w)
      | Some g \<Rightarrow>
          (case release_lease be (grant_key g) now w of
             (Inl e, w1) \<Rightarrow> (Inl e, m, w1)
           | (Inr _, w1) \<Rightarrow> (Inr (), clear_lease m, w1)))"

text \<open>
  One attempt to verify a blocked account, in both loops below: \<open>Inr\<close> lets the loop go on.
\<close>

definition verify_probe ::
  "'w execution_backend \<Rightarrow> account_manager \<Rightarrow> selection_request \<Rightarrow> ustring \<Rightarrow> ustring \<Rightarrow> ustring \<Rightarrow> 'w
   \<Rightarrow> (lease_error + unit) \<times> 'w" where
  "verify_probe be m req pool a family w =
     (case request_now be req w of (now, w1) \<Rightarrow>
        (case reserve_quota_probe be a family now probe_reservation_duration w1 of
           (Inl e, w2) \<Rightarrow> (Inl (Storage e), w2)
         | (Inr None, w2) \<Rightarrow> (Inr (), w2)
         | (Inr (Some r), w2) \<Rightarrow>
             (case acquire_probe_lease be pool a r (probe_holder_instance_id m) w2 of
                (Inl NoEligibleAccount, w3) \<Rightarrow> (Inr (), w3)
              | (Inl (Storage e), w3) \<Rightarrow> (Inl (Storage e), w3)
              | (Inr lease, w3) \<Rightarrow>
                  (case refresh_quota_probe be lease r w3 of (probed, w4) \<Rightarrow>
                     (case request_now be req w4 of (at_release, w5) \<Rightarrow>
                        (case release_lease be (grant_key lease) at_release w5 of (released, w6) \<Rightarrow>
                           (case probed of
                              Inl e \<Rightarrow> (Inl (Storage e), w6)
                            | Inr _ \<Rightarrow> (map_sum Storage (\<lambda>_. ()) released, w6))))))))"

text \<open>One iteration of the loop of \<open>acquire_selected_lease\<close>.\<close>

type_synonym 'w acquisition = "(lease_error + lease_record) \<times> account_manager \<times> 'w"

definition selection_attempt ::
  "'w execution_backend \<Rightarrow> selection_request \<Rightarrow> ustring \<Rightarrow> account_manager \<Rightarrow> 'w \<Rightarrow> 'w acquisition + 'w" where
  "selection_attempt be req pool m w =
     (case plan_runtime_selection be req (holder_id m) w of
        (Inl e, w1) \<Rightarrow> Inl (Inl (Storage e), m, w1)
      | (Inr (family, plan), w1) \<Rightarrow>
          (case terminal_action plan of
             Select a \<Rightarrow>
               (case acquire_preferred_lease be pool a family (holder_id m) w1 of
                  (Inr g, w2) \<Rightarrow> Inl (adopt_active_grant be m g w2)
                | (Inl NoEligibleAccount, w2) \<Rightarrow> Inr w2
                | (Inl (Storage e), w2) \<Rightarrow> Inl (Inl (Storage e), m, w2))
           | Probe a \<Rightarrow>
               (case verify_probe be m req pool a family w1 of
                  (Inl e, w2) \<Rightarrow> Inl (Inl e, m, w2)
                | (Inr _, w2) \<Rightarrow> Inr w2)
           | _ \<Rightarrow> Inl (Inl NoEligibleAccount, m, w1)))"

definition acquire_selected_lease ::
  "'w execution_backend \<Rightarrow> selection_request \<Rightarrow> account_manager \<Rightarrow> 'w \<Rightarrow> 'w acquisition option" where
  "acquire_selected_lease be req m w =
     (case req_pool_id req of
        None \<Rightarrow> Some (Inl (Storage (lit ''runtime selection requires pool id'')), m, w)
      | Some pool \<Rightarrow> run_loop (selection_attempt be req pool m) w)"

text \<open>
  One iteration of the loop of \<open>acquire_selected_rotation_lease\<close>, away from the lease \<open>g\<close>. The
  loop changes the request, two flags, the manager and the world.
\<close>

record 'w rotation_state =
  rot_request :: selection_request
  current_released :: bool
  current_reacquire_exhausted :: bool
  rot_manager :: account_manager
  rot_world :: 'w

definition rotation_attempt ::
  "'w execution_backend \<Rightarrow> ustring \<Rightarrow> lease_grant \<Rightarrow> 'w rotation_state \<Rightarrow> 'w acquisition + 'w rotation_state" where
  "rotation_attempt be pool g s =
     (let req = rot_request s; m = rot_manager s
      in case plan_runtime_selection be req (holder_id m) (rot_world s) of
           (Inl e, w1) \<Rightarrow> Inl (Inl (Storage e), m, w1)
         | (Inr (family, plan), w1) \<Rightarrow>
             (case terminal_action plan of
                Select a \<Rightarrow>
                  (case (if current_released s then (Inr (), m, w1)
                         else (case request_now be req w1 of (now, w2) \<Rightarrow> release_active_lease_at be m now w2)) of
                     (Inl e, m2, w2) \<Rightarrow> Inl (Inl (Storage e), m2, w2)
                   | (Inr _, m2, w2) \<Rightarrow>
                       (case acquire_preferred_lease be pool a family (holder_id m2) w2 of
                          (Inr g2, w3) \<Rightarrow> Inl (adopt_active_grant be m2 g2 w3)
                        | (Inl NoEligibleAccount, w3) \<Rightarrow>
                            Inr (s\<lparr>current_released := True, rot_manager := m2, rot_world := w3\<rparr>)
                        | (Inl (Storage e), w3) \<Rightarrow> Inl (Inl (Storage e), m2, w3)))
              | Probe a \<Rightarrow>
                  (case verify_probe be m req pool a family w1 of
                     (Inl e, w2) \<Rightarrow> Inl (Inl e, m, w2)
                   | (Inr _, w2) \<Rightarrow> Inr (s\<lparr>rot_world := w2\<rparr>))
              | _ \<Rightarrow>
                  (if intent req = SoftRotation then
                     (if \<not> current_released s then Inl (Inr (leased_account g), m, w1)
                      else if current_reacquire_exhausted s then Inl (Inl NoEligibleAccount, m, w1)
                      else (case acquire_preferred_lease be pool (grant_account_id g) family (holder_id m) w1 of
                              (Inr g2, w2) \<Rightarrow> Inl (adopt_active_grant be m g2 w2)
                            | (Inl NoEligibleAccount, w2) \<Rightarrow>
                                Inr (s\<lparr>rot_request := req\<lparr>current_account_id := None\<rparr>,
                                       current_reacquire_exhausted := True, rot_world := w2\<rparr>)
                            | (Inl (Storage e), w2) \<Rightarrow> Inl (Inl (Storage e), m, w2)))
                   else
                     (case request_now be req w1 of (now, w2) \<Rightarrow>
                        (case release_active_lease_at be m now w2 of
                           (Inl e, m2, w3) \<Rightarrow> Inl (Inl (Storage e), m2, w3)
                         | (Inr _, m2, w3) \<Rightarrow> Inl (Inl NoEligibleAccount, m2, w3))))))"

definition acquire_selected_rotation_lease ::
  "'w execution_backend \<Rightarrow> selection_request \<Rightarrow> lease_grant \<Rightarrow> account_manager \<Rightarrow> 'w \<Rightarrow> 'w acquisition option" where
  "acquire_selected_rotation_lease be req g m w =
     (case req_pool_id req of
        None \<Rightarrow> Some (Inl (Storage (lit ''runtime selection requires pool id'')), m, w)
      | Some pool \<Rightarrow> run_loop (rotation_attempt be pool g)
          \<lparr>rot_request = req, current_released = False, current_reacquire_exhausted = False,
           rot_manager = m, rot_world = w\<rparr>)"

section \<open>A turn\<close>

definition rotation_request :: "account_manager \<Rightarrow> instant \<Rightarrow> pending_rotation_kind \<Rightarrow> lease_grant \<Rightarrow> selection_request" where
  "rotation_request m now pending g =
     \<lparr>req_now = Some now, req_pool_id = Some (grant_pool_id g),
      intent = (case pending of HardFailure \<Rightarrow> HardFailover | SoftProactive \<Rightarrow> SoftRotation),
      req_selection_family = None, preferred_account_id = None, current_account_id = Some (grant_account_id g),
      just_replaced_account_id = last_proactively_replaced m, reserved_probe_target_account_id = None,
      proactive_threshold_percent = proactive_switch_threshold_percent (mgr_config m)\<rparr>"

definition try_rotate_active_lease_if_needed ::
  "'w execution_backend \<Rightarrow> instant \<Rightarrow> account_manager \<Rightarrow> 'w
   \<Rightarrow> ((ustring + lease_record option) \<times> account_manager \<times> 'w) option" where
  "try_rotate_active_lease_if_needed be now m w =
     (case pending_rotation m of
        None \<Rightarrow> Some (Inr None, m, w)
      | Some pending \<Rightarrow>
          (let m1 = m\<lparr>pending_rotation := None\<rparr>
           in case active_lease m1 of
                None \<Rightarrow> Some (Inr None, m1, w)
              | Some g \<Rightarrow>
                  (case acquire_selected_rotation_lease be (rotation_request m1 now pending g) g m1 w of
                     None \<Rightarrow> None
                   | Some (Inl e, m2, w2) \<Rightarrow> Some (Inl (lease_error_text e), m2, w2)
                   | Some (Inr l, m2, w2) \<Rightarrow>
                       (let m3 = (if pending = HardFailure then m2\<lparr>last_proactively_replaced := None\<rparr> else m2);
                            m4 = (if pending = SoftProactive \<and> lease_account_id l \<noteq> grant_account_id g
                                  then m3\<lparr>last_proactively_replaced := Some (grant_account_id g)\<rparr> else m3)
                        in Some (Inr (Some l), m4, w2)))))"

datatype renewal_disposition = NotNeeded lease_grant | RenewedGrant lease_grant | MissingIn ustring

definition try_renew_active_lease_if_needed ::
  "'w execution_backend \<Rightarrow> instant \<Rightarrow> account_manager \<Rightarrow> 'w
   \<Rightarrow> ((ustring + renewal_disposition) \<times> account_manager \<times> 'w) option" where
  "try_renew_active_lease_if_needed be now m w =
     (case active_lease m of
        None \<Rightarrow> Some (Inl (lit ''active lease missing in renewal path''), m, w)
      | Some g \<Rightarrow>
          (case derived_pre_turn_safety_margin (mgr_config m) of
             None \<Rightarrow> None
           | Some margin \<Rightarrow>
               (if grant_remaining_ttl g now > margin then Some (Inr (NotNeeded g), m, w)
                else (case renew_lease be (grant_key g) now w of
                        (Inl e, w1) \<Rightarrow> Some (Inl e, m, w1)
                      | (Inr (Renewed l), w1) \<Rightarrow>
                          Some (Inr (RenewedGrant (with_record g l)), m\<lparr>active_lease := Some (with_record g l)\<rparr>, w1)
                      | (Inr MissingLease, w1) \<Rightarrow> Some (Inr (MissingIn (grant_pool_id g)), lose_lease m, w1)))))"

definition resolve_pool_id ::
  "'w execution_backend \<Rightarrow> account_manager \<Rightarrow> ustring option \<Rightarrow> 'w \<Rightarrow> (ustring + ustring) \<times> 'w" where
  "resolve_pool_id be m requested w =
     (case requested of
        Some pool \<Rightarrow> (Inr pool, w)
      | None \<Rightarrow>
          (case backend_startup_status be (default_pool_id (mgr_config m)) w of
             (Inl e, w1) \<Rightarrow> (Inl e, w1)
           | (Inr status, w1) \<Rightarrow>
               (case prev_effective_pool_id (status_preview status) of
                  Some pool \<Rightarrow> (Inr pool, w1)
                | None \<Rightarrow>
                    (case Option.bind (status_issue status) issue_pool_id of
                       Some pool \<Rightarrow> (Inl (lit ''account pool default is unavailable: '' @ pool), w1)
                     | None \<Rightarrow> (Inl (lit ''account pool has no default pool configured''), w1)))))"

definition try_rehydrate_holder_lease ::
  "'w execution_backend \<Rightarrow> account_manager \<Rightarrow> 'w \<Rightarrow> (ustring + lease_record option) \<times> account_manager \<times> 'w" where
  "try_rehydrate_holder_lease be m w =
     (case read_active_holder_lease be (holder_id m) w of
        (Inl e, w1) \<Rightarrow> (Inl e, m, w1)
      | (Inr None, w1) \<Rightarrow> (Inr None, m, w1)
      | (Inr (Some g), w1) \<Rightarrow>
          (case adopt_active_grant be m g w1 of
             (Inl e, m2, w2) \<Rightarrow> (Inl (lease_error_text e), m2, w2)
           | (Inr l, m2, w2) \<Rightarrow> (Inr (Some l), m2, w2)))"

text \<open>
  What \<open>ensure_active_lease\<close> and \<open>renew_active_lease_if_needed\<close> have in common: a lease from a
  rotation, from the active one or from the backend; or the pool to acquire in, when the
  active lease was lost; or neither.
\<close>

datatype turn_lease = Held lease_record | LostIn ustring | NoLease

definition lease_for_turn ::
  "'w execution_backend \<Rightarrow> instant \<Rightarrow> account_manager \<Rightarrow> 'w
   \<Rightarrow> ((ustring + turn_lease) \<times> account_manager \<times> 'w) option" where
  "lease_for_turn be now m w =
     (case try_rotate_active_lease_if_needed be now m w of
        None \<Rightarrow> None
      | Some (Inl e, m1, w1) \<Rightarrow> Some (Inl e, m1, w1)
      | Some (Inr (Some l), m1, w1) \<Rightarrow> Some (Inr (Held l), m1, w1)
      | Some (Inr None, m1, w1) \<Rightarrow>
          (if active_lease m1 \<noteq> None then
             (let m2 = m1\<lparr>proactive_switch_state := snd (revalidate_before_turn (proactive_switch_state m1) now)\<rparr>
              in case try_renew_active_lease_if_needed be now m2 w1 of
                   None \<Rightarrow> None
                 | Some (Inl e, m3, w2) \<Rightarrow> Some (Inl e, m3, w2)
                 | Some (Inr (NotNeeded g), m3, w2) \<Rightarrow> Some (Inr (Held (leased_account g)), m3, w2)
                 | Some (Inr (RenewedGrant g), m3, w2) \<Rightarrow> Some (Inr (Held (leased_account g)), m3, w2)
                 | Some (Inr (MissingIn pool), m3, w2) \<Rightarrow> Some (Inr (LostIn pool), m3, w2))
           else
             (case try_rehydrate_holder_lease be m1 w1 of
                (Inl e, m2, w2) \<Rightarrow> Some (Inl e, m2, w2)
              | (Inr (Some l), m2, w2) \<Rightarrow> Some (Inr (Held l), m2, w2)
              | (Inr None, m2, w2) \<Rightarrow> Some (Inr NoLease, m2, w2))))"

definition acquire_for_turn ::
  "'w execution_backend \<Rightarrow> selection_request \<Rightarrow> account_manager \<Rightarrow> 'w
   \<Rightarrow> ((ustring + lease_record) \<times> account_manager \<times> 'w) option" where
  "acquire_for_turn be req m w =
     map_option (\<lambda>(r, rest). (map_sum lease_error_text id r, rest)) (acquire_selected_lease be req m w)"

definition ensure_active_lease ::
  "'w execution_backend \<Rightarrow> selection_request \<Rightarrow> account_manager \<Rightarrow> 'w
   \<Rightarrow> ((ustring + lease_record) \<times> account_manager \<times> 'w) option" where
  "ensure_active_lease be req m w =
     (case request_now be req w of (now, w0) \<Rightarrow>
        (case lease_for_turn be now m w0 of
           None \<Rightarrow> None
         | Some (Inl e, m1, w1) \<Rightarrow> Some (Inl e, m1, w1)
         | Some (Inr (Held l), m1, w1) \<Rightarrow> Some (Inr l, m1, w1)
         | Some (Inr (LostIn pool), m1, w1) \<Rightarrow>
             acquire_for_turn be (req\<lparr>req_now := Some now, req_pool_id := Some pool\<rparr>) m1 w1
         | Some (Inr NoLease, m1, w1) \<Rightarrow>
             (case resolve_pool_id be m1 (req_pool_id req) w1 of
                (Inl e, w2) \<Rightarrow> Some (Inl e, m1, w2)
              | (Inr pool, w2) \<Rightarrow> acquire_for_turn be (req\<lparr>req_pool_id := Some pool\<rparr>) m1 w2)))"

definition renew_active_lease_if_needed ::
  "'w execution_backend \<Rightarrow> instant \<Rightarrow> account_manager \<Rightarrow> 'w
   \<Rightarrow> ((ustring + lease_record) \<times> account_manager \<times> 'w) option" where
  "renew_active_lease_if_needed be now m w =
     (let req = (\<lambda>pool. (request_for_intent Startup)\<lparr>req_now := Some now, req_pool_id := Some pool\<rparr>)
      in case lease_for_turn be now m w of
           None \<Rightarrow> None
         | Some (Inl e, m1, w1) \<Rightarrow> Some (Inl e, m1, w1)
         | Some (Inr (Held l), m1, w1) \<Rightarrow> Some (Inr l, m1, w1)
         | Some (Inr (LostIn pool), m1, w1) \<Rightarrow> acquire_for_turn be (req pool) m1 w1
         | Some (Inr NoLease, m1, w1) \<Rightarrow>
             (case resolve_pool_id be m1 (default_pool_id (mgr_config m1)) w1 of
                (Inl e, w2) \<Rightarrow> Some (Inl e, m1, w2)
              | (Inr pool, w2) \<Rightarrow> acquire_for_turn be (req pool) m1 w2))"

section \<open>Between turns\<close>

definition heartbeat_active_lease ::
  "'w execution_backend \<Rightarrow> instant \<Rightarrow> account_manager \<Rightarrow> 'w \<Rightarrow> (ustring + unit) \<times> account_manager \<times> 'w" where
  "heartbeat_active_lease be now m w =
     (case active_lease m of
        None \<Rightarrow> (Inr (), m, w)
      | Some g \<Rightarrow>
          (case renew_lease be (grant_key g) now w of
             (Inl e, w1) \<Rightarrow> (Inl e, m, w1)
           | (Inr (Renewed l), w1) \<Rightarrow> (Inr (), m\<lparr>active_lease := Some (with_record g l)\<rparr>, w1)
           | (Inr MissingLease, w1) \<Rightarrow> (Inr (), lose_lease m, w1)))"

definition release_active_lease ::
  "'w execution_backend \<Rightarrow> account_manager \<Rightarrow> 'w \<Rightarrow> (ustring + unit) \<times> account_manager \<times> 'w" where
  "release_active_lease be m w =
     (case utc_now be w of (now, w1) \<Rightarrow>
        (case release_active_lease_at be m now w1 of
           (Inl e, m2, w2) \<Rightarrow> (Inl e, m2, w2)
         | (Inr _, m2, w2) \<Rightarrow> (Inr (), m2\<lparr>pending_rotation := None, last_proactively_replaced := None\<rparr>, w2)))"

datatype event_disposition = Applied | IgnoredAsStale

record rate_limit_snapshot =
  used_percent :: f64
  snapshot_observed_at :: instant

definition report_rate_limits ::
  "lease_key \<Rightarrow> rate_limit_snapshot \<Rightarrow> account_manager \<Rightarrow> (event_disposition \<times> account_manager) option" where
  "report_rate_limits key snapshot m =
     (case active_lease m of
        None \<Rightarrow> Some (IgnoredAsStale, m)
      | Some g \<Rightarrow>
          if \<not> is_current_lease m key then Some (IgnoredAsStale, m)
          else if f64_less (used_percent snapshot)
               (Finite (of_nat (proactive_switch_threshold_percent (mgr_config m)))) then
            Some (Applied, m\<lparr>proactive_switch_state := proactive_reset (proactive_switch_state m),
              pending_rotation := (if pending_rotation m = Some SoftProactive then None else pending_rotation m)\<rparr>)
          else
            (case min_switch_interval_duration (mgr_config m) of
               None \<Rightarrow> None
             | Some interval \<Rightarrow>
                 (case observe_soft_pressure (proactive_switch_state m)
                     \<lparr>lease_acquired_at = grant_acquired_at g,
                      pressure_observed_at = snapshot_observed_at snapshot, min_switch_interval = interval\<rparr> of
                    (outcome, s) \<Rightarrow>
                      Some (Applied, m\<lparr>proactive_switch_state := s,
                        pending_rotation := (if outcome = RotateOnNextTurn \<and> pending_rotation m \<noteq> Some HardFailure
                          then Some SoftProactive else pending_rotation m)\<rparr>))))"

datatype lease_health_event = LeaseRateLimited instant | LeaseUnauthorized instant

definition into_account_health_event :: "lease_health_event \<Rightarrow> lease_record \<Rightarrow> int \<Rightarrow> account_health_event" where
  "into_account_health_event ev l sequence =
     \<lparr>he_account_id = lease_account_id l, he_pool_id = lease_pool_id l,
      he_health_state = (case ev of LeaseRateLimited _ \<Rightarrow> RateLimited | LeaseUnauthorized _ \<Rightarrow> Unauthorized),
      he_sequence_number = sequence,
      he_observed_at = (case ev of LeaseRateLimited t \<Rightarrow> t | LeaseUnauthorized t \<Rightarrow> t)\<rparr>"

text \<open>The common part of both reports of a hard failure.\<close>

definition report_failure ::
  "'w execution_backend \<Rightarrow> lease_key \<Rightarrow> ('w \<Rightarrow> lease_health_event \<times> 'w) \<Rightarrow> account_manager \<Rightarrow> 'w
   \<Rightarrow> (ustring + event_disposition) \<times> account_manager \<times> 'w" where
  "report_failure be key event m w =
     (case active_lease m of
        None \<Rightarrow> (Inr IgnoredAsStale, m, w)
      | Some g \<Rightarrow>
          if \<not> is_current_lease m key then (Inr IgnoredAsStale, m, w)
          else
            (let sequence = next_health_event_sequence m + 1; m1 = m\<lparr>next_health_event_sequence := sequence\<rparr>
             in case event w of (ev, w1) \<Rightarrow>
                  (case record_health_event be (into_account_health_event ev (leased_account g) sequence) w1 of
                     (Inl e, w2) \<Rightarrow> (Inl e, m1, w2)
                   | (Inr _, w2) \<Rightarrow>
                       (Inr Applied, m1\<lparr>proactive_switch_state := proactive_reset (proactive_switch_state m1),
                          pending_rotation := Some HardFailure\<rparr>, w2))))"

definition report_usage_limit_reached ::
  "'w execution_backend \<Rightarrow> lease_key \<Rightarrow> instant \<Rightarrow> account_manager \<Rightarrow> 'w
   \<Rightarrow> (ustring + event_disposition) \<times> account_manager \<times> 'w" where
  "report_usage_limit_reached be key observed m w = report_failure be key (Pair (LeaseRateLimited observed)) m w"

definition report_unauthorized ::
  "'w execution_backend \<Rightarrow> lease_key \<Rightarrow> account_manager \<Rightarrow> 'w
   \<Rightarrow> (ustring + event_disposition) \<times> account_manager \<times> 'w" where
  "report_unauthorized be key m w = report_failure be key (\<lambda>w. apfst LeaseUnauthorized (utc_now be w)) m w"

definition force_epoch_bump_for_test :: "ustring \<Rightarrow> account_manager \<Rightarrow> account_manager" where
  "force_epoch_bump_for_test a m =
     (case active_lease m of
        None \<Rightarrow> m
      | Some g \<Rightarrow>
          if grant_account_id g = a
          then m\<lparr>active_lease := Some (with_lease_epoch g (key_lease_epoch (grant_key g) + 1)),
                 next_health_event_sequence := 0,
                 proactive_switch_state := proactive_reset (proactive_switch_state m), pending_rotation := None\<rparr>
          else m)"

end
