(* ===== verification/AccountSession.thy ===== *)
theory AccountSession
  imports AccountManager
begin

text \<open>
  What the manager guarantees whatever it is asked to do, in whatever order, over any backend
  (the invariant of an idle manager), and over a backend that keeps the contract of
  \<open>lease_authority\<close>: the manager never acts on a lease that is not its holder's only one, and a
  hard failure never ends on the account that failed.
\<close>

section \<open>Steps\<close>

text \<open>\<open>env\<close> is what may happen to the world between the calls.\<close>

inductive manager_step ::
  "'w execution_backend \<Rightarrow> ('w \<Rightarrow> 'w \<Rightarrow> bool) \<Rightarrow> account_manager \<times> 'w \<Rightarrow> account_manager \<times> 'w \<Rightarrow> bool"
  for be env where
  environment: "env w w' \<Longrightarrow> manager_step be env (m, w) (m, w')"
| bootstrap: "bootstrap_from_legacy_auth be m w = (r, m', w') \<Longrightarrow> manager_step be env (m, w) (m', w')"
| ensure: "ensure_active_lease be req m w = Some (r, m', w') \<Longrightarrow> manager_step be env (m, w) (m', w')"
| renew_if_needed:
    "renew_active_lease_if_needed be now m w = Some (r, m', w') \<Longrightarrow> manager_step be env (m, w) (m', w')"
| heartbeat: "heartbeat_active_lease be now m w = (r, m', w') \<Longrightarrow> manager_step be env (m, w) (m', w')"
| release: "release_active_lease be m w = (r, m', w') \<Longrightarrow> manager_step be env (m, w) (m', w')"
| rate_limits: "report_rate_limits key snapshot m = Some (d, m') \<Longrightarrow> manager_step be env (m, w) (m', w)"
| usage_limit:
    "report_usage_limit_reached be key observed m w = (r, m', w') \<Longrightarrow> manager_step be env (m, w) (m', w')"
| unauthorized: "report_unauthorized be key m w = (r, m', w') \<Longrightarrow> manager_step be env (m, w) (m', w')"

inductive manager_run ::
  "'w execution_backend \<Rightarrow> ('w \<Rightarrow> 'w \<Rightarrow> bool) \<Rightarrow> account_manager \<times> 'w \<Rightarrow> account_manager \<times> 'w \<Rightarrow> bool"
  for be env where
  start: "manager_run be env s s"
| step: "manager_run be env s t \<Longrightarrow> manager_step be env t u \<Longrightarrow> manager_run be env s u"

section \<open>An idle manager\<close>

definition idle_clean :: "account_manager \<Rightarrow> bool" where
  "idle_clean m \<longleftrightarrow>
     (active_lease m = None \<longrightarrow>
        next_health_event_sequence m = 0 \<and> proactive_switch_state m = None \<and> pending_rotation m = None)"

text \<open>What the loops do to the manager: nothing, or forget the lease and perhaps adopt one.\<close>

definition lease_outcome :: "account_manager \<Rightarrow> account_manager \<Rightarrow> bool" where
  "lease_outcome m m' \<longleftrightarrow>
     m' = m \<or>
     (holder_id m' = holder_id m \<and> pending_rotation m' = pending_rotation m \<and>
      (active_lease m' = None \<longrightarrow> next_health_event_sequence m' = 0 \<and> proactive_switch_state m' = None))"

lemma clear_lease_simps [simp]:
  "active_lease (clear_lease m) = None" "next_health_event_sequence (clear_lease m) = 0"
  "proactive_switch_state (clear_lease m) = None" "pending_rotation (clear_lease m) = pending_rotation m"
  "holder_id (clear_lease m) = holder_id m" "clear_lease (clear_lease m) = clear_lease m"
  by (simp_all add: clear_lease_def proactive_reset_def)

lemma lose_lease_simps [simp]:
  "active_lease (lose_lease m) = None" "holder_id (lose_lease m) = holder_id m" "idle_clean (lose_lease m)"
  by (simp_all add: lose_lease_def idle_clean_def)

lemma lease_outcome_refl [simp]: "lease_outcome m m"
  by (simp add: lease_outcome_def)

lemma lease_outcome_clear [simp]: "lease_outcome m (clear_lease m)"
  by (simp add: lease_outcome_def)

lemma lease_outcome_trans: "lease_outcome m m1 \<Longrightarrow> lease_outcome m1 m2 \<Longrightarrow> lease_outcome m m2"
  by (auto simp: lease_outcome_def)

lemma lease_outcome_frame:
  "lease_outcome m m' \<Longrightarrow> holder_id m' = holder_id m \<and> pending_rotation m' = pending_rotation m"
  by (auto simp: lease_outcome_def)

lemma lease_outcome_idle: "lease_outcome m m' \<Longrightarrow> idle_clean m \<Longrightarrow> pending_rotation m = None \<Longrightarrow> idle_clean m'"
  by (auto simp: lease_outcome_def idle_clean_def)

lemma adopt_outcome: "adopt_active_grant be m g w = (r, m', w') \<Longrightarrow> lease_outcome m m'"
  by (auto simp: adopt_active_grant_def lease_outcome_def split: prod.splits sum.splits)

lemma release_outcome: "release_active_lease_at be m now w = (r, m', w') \<Longrightarrow> lease_outcome m m'"
  by (auto simp: release_active_lease_at_def split: option.splits prod.splits sum.splits)

text \<open>One iteration of either loop, by what the plan says and what the backend makes of it.\<close>

lemma selection_attempt_cases [consumes 1, case_names plan_failed granted refused acquire_failed probe_failed probed none]:
  assumes "selection_attempt be req pool m w = res"
  obtains
    e w1 where "plan_runtime_selection be req (holder_id m) w = (Inl e, w1)" "res = Inl (Inl (Storage e), m, w1)"
  | f p w1 a g w2 where "plan_runtime_selection be req (holder_id m) w = (Inr (f, p), w1)"
      "terminal_action p = Select a" "acquire_preferred_lease be pool a f (holder_id m) w1 = (Inr g, w2)"
      "res = Inl (adopt_active_grant be m g w2)"
  | f p w1 a w2 where "plan_runtime_selection be req (holder_id m) w = (Inr (f, p), w1)"
      "terminal_action p = Select a"
      "acquire_preferred_lease be pool a f (holder_id m) w1 = (Inl NoEligibleAccount, w2)" "res = Inr w2"
  | f p w1 a e w2 where "plan_runtime_selection be req (holder_id m) w = (Inr (f, p), w1)"
      "terminal_action p = Select a"
      "acquire_preferred_lease be pool a f (holder_id m) w1 = (Inl (Storage e), w2)"
      "res = Inl (Inl (Storage e), m, w2)"
  | f p w1 a e w2 where "plan_runtime_selection be req (holder_id m) w = (Inr (f, p), w1)"
      "terminal_action p = Probe a" "verify_probe be m req pool a f w1 = (Inl e, w2)" "res = Inl (Inl e, m, w2)"
  | f p w1 a u w2 where "plan_runtime_selection be req (holder_id m) w = (Inr (f, p), w1)"
      "terminal_action p = Probe a" "verify_probe be m req pool a f w1 = (Inr u, w2)" "res = Inr w2"
  | f p w1 where "plan_runtime_selection be req (holder_id m) w = (Inr (f, p), w1)"
      "terminal_action p = StayOnCurrent \<or> terminal_action p = NoCandidate"
      "res = Inl (Inl NoEligibleAccount, m, w1)"
proof (cases "plan_runtime_selection be req (holder_id m) w")
  case (Pair planned w1)
  show ?thesis
  proof (cases planned)
    case (Inl e)
    with Pair assms that(1) show ?thesis by (simp add: selection_attempt_def)
  next
    case (Inr fp)
    obtain f p where "fp = (f, p)" by fastforce
    with Pair Inr have plan: "plan_runtime_selection be req (holder_id m) w = (Inr (f, p), w1)" by simp
    show ?thesis
    proof (cases "terminal_action p")
      case (Select a)
      obtain got w2 where got: "acquire_preferred_lease be pool a f (holder_id m) w1 = (got, w2)" by fastforce
      show ?thesis
      proof (cases got)
        case (Inl e)
        with plan Select got assms that(3,4) show ?thesis by (cases e) (simp_all add: selection_attempt_def)
      next
        case (Inr g)
        with plan Select got assms that(2) show ?thesis by (simp add: selection_attempt_def)
      qed
    next
      case (Probe a)
      obtain x w2 where x: "verify_probe be m req pool a f w1 = (x, w2)" by fastforce
      with plan Probe assms that(5,6) show ?thesis by (cases x) (simp_all add: selection_attempt_def)
    qed (use plan assms that(7) in \<open>simp_all add: selection_attempt_def\<close>)
  qed
qed

lemma adopt_outcome': "lease_outcome m (fst (snd (adopt_active_grant be m g w)))"
  by (metis adopt_outcome prod.collapse)

lemma selection_attempt_outcome:
  assumes "selection_attempt be req pool m w = Inl res"
  shows "lease_outcome m (fst (snd res))"
  using assms
proof (cases rule: selection_attempt_cases)
  case (granted f p w1 a g w2)
  then show ?thesis using adopt_outcome' by simp
qed simp_all

lemma acquire_selected_outcome:
  assumes "acquire_selected_lease be req m w = Some res"
  shows "lease_outcome m (fst (snd res))"
proof (cases "req_pool_id req")
  case None
  with assms show ?thesis by (auto simp: acquire_selected_lease_def)
next
  case (Some pool)
  with assms have "run_loop (selection_attempt be req pool m) w = Some res"
    by (simp add: acquire_selected_lease_def)
  then show ?thesis
    by (rule run_loop_invariant [where I = "\<lambda>_. True"]) (auto dest: selection_attempt_outcome)
qed

lemma rotation_attempt_cases [consumes 1, case_names plan_failed release_failed granted refused acquire_failed
    probe_failed probed stay spent regranted rerefused reacquire_failed give_up]:
  fixes s :: "'w rotation_state"
  assumes "rotation_attempt be pool g s = res"
  obtains
    e w1 where "plan_runtime_selection be (rot_request s) (holder_id (rot_manager s)) (rot_world s) = (Inl e, w1)"
      "res = Inl (Inl (Storage e), rot_manager s, w1)"
  | f p w1 a now w2 e m2 w3 where
      "plan_runtime_selection be (rot_request s) (holder_id (rot_manager s)) (rot_world s) = (Inr (f, p), w1)"
      "terminal_action p = Select a" "\<not> current_released s" "request_now be (rot_request s) w1 = (now, w2)"
      "release_active_lease_at be (rot_manager s) now w2 = (Inl e, m2, w3)" "res = Inl (Inl (Storage e), m2, w3)"
  | f p w1 a m2 w2 g2 w3 where
      "plan_runtime_selection be (rot_request s) (holder_id (rot_manager s)) (rot_world s) = (Inr (f, p), w1)"
      "terminal_action p = Select a"
      "if current_released s then m2 = rot_manager s \<and> w2 = w1
       else \<exists>u. release_active_lease_at be (rot_manager s) (fst (request_now be (rot_request s) w1))
         (snd (request_now be (rot_request s) w1)) = (Inr u, m2, w2)"
      "acquire_preferred_lease be pool a f (holder_id m2) w2 = (Inr g2, w3)"
      "res = Inl (adopt_active_grant be m2 g2 w3)"
  | f p w1 a m2 w2 w3 where
      "plan_runtime_selection be (rot_request s) (holder_id (rot_manager s)) (rot_world s) = (Inr (f, p), w1)"
      "terminal_action p = Select a"
      "if current_released s then m2 = rot_manager s \<and> w2 = w1
       else \<exists>u. release_active_lease_at be (rot_manager s) (fst (request_now be (rot_request s) w1))
         (snd (request_now be (rot_request s) w1)) = (Inr u, m2, w2)"
      "acquire_preferred_lease be pool a f (holder_id m2) w2 = (Inl NoEligibleAccount, w3)"
      "res = Inr (s\<lparr>current_released := True, rot_manager := m2, rot_world := w3\<rparr>)"
  | f p w1 a m2 w2 e w3 where
      "plan_runtime_selection be (rot_request s) (holder_id (rot_manager s)) (rot_world s) = (Inr (f, p), w1)"
      "terminal_action p = Select a"
      "if current_released s then m2 = rot_manager s \<and> w2 = w1
       else \<exists>u. release_active_lease_at be (rot_manager s) (fst (request_now be (rot_request s) w1))
         (snd (request_now be (rot_request s) w1)) = (Inr u, m2, w2)"
      "acquire_preferred_lease be pool a f (holder_id m2) w2 = (Inl (Storage e), w3)"
      "res = Inl (Inl (Storage e), m2, w3)"
  | f p w1 a e w2 where
      "plan_runtime_selection be (rot_request s) (holder_id (rot_manager s)) (rot_world s) = (Inr (f, p), w1)"
      "terminal_action p = Probe a" "verify_probe be (rot_manager s) (rot_request s) pool a f w1 = (Inl e, w2)"
      "res = Inl (Inl e, rot_manager s, w2)"
  | f p w1 a u w2 where
      "plan_runtime_selection be (rot_request s) (holder_id (rot_manager s)) (rot_world s) = (Inr (f, p), w1)"
      "terminal_action p = Probe a" "verify_probe be (rot_manager s) (rot_request s) pool a f w1 = (Inr u, w2)"
      "res = Inr (s\<lparr>rot_world := w2\<rparr>)"
  | f p w1 where
      "plan_runtime_selection be (rot_request s) (holder_id (rot_manager s)) (rot_world s) = (Inr (f, p), w1)"
      "intent (rot_request s) = SoftRotation" "\<not> current_released s"
      "res = Inl (Inr (leased_account g), rot_manager s, w1)"
  | f p w1 where
      "plan_runtime_selection be (rot_request s) (holder_id (rot_manager s)) (rot_world s) = (Inr (f, p), w1)"
      "intent (rot_request s) = SoftRotation" "current_released s"
      "res = Inl (Inl NoEligibleAccount, rot_manager s, w1)"
  | f p w1 g2 w2 where
      "plan_runtime_selection be (rot_request s) (holder_id (rot_manager s)) (rot_world s) = (Inr (f, p), w1)"
      "intent (rot_request s) = SoftRotation" "current_released s"
      "acquire_preferred_lease be pool (grant_account_id g) f (holder_id (rot_manager s)) w1 = (Inr g2, w2)"
      "res = Inl (adopt_active_grant be (rot_manager s) g2 w2)"
  | f p w1 w2 where
      "plan_runtime_selection be (rot_request s) (holder_id (rot_manager s)) (rot_world s) = (Inr (f, p), w1)"
      "intent (rot_request s) = SoftRotation" "current_released s" "\<not> current_reacquire_exhausted s"
      "acquire_preferred_lease be pool (grant_account_id g) f (holder_id (rot_manager s)) w1 = (Inl NoEligibleAccount, w2)"
      "res = Inr (s\<lparr>rot_request := (rot_request s)\<lparr>current_account_id := None\<rparr>,
         current_reacquire_exhausted := True, rot_world := w2\<rparr>)"
  | f p w1 e w2 where
      "plan_runtime_selection be (rot_request s) (holder_id (rot_manager s)) (rot_world s) = (Inr (f, p), w1)"
      "intent (rot_request s) = SoftRotation" "current_released s"
      "acquire_preferred_lease be pool (grant_account_id g) f (holder_id (rot_manager s)) w1 = (Inl (Storage e), w2)"
      "res = Inl (Inl (Storage e), rot_manager s, w2)"
  | f p w1 now w2 x m2 w3 where
      "plan_runtime_selection be (rot_request s) (holder_id (rot_manager s)) (rot_world s) = (Inr (f, p), w1)"
      "intent (rot_request s) \<noteq> SoftRotation" "request_now be (rot_request s) w1 = (now, w2)"
      "release_active_lease_at be (rot_manager s) now w2 = (x, m2, w3)"
      "res = Inl (Inl (case x of Inl e \<Rightarrow> Storage e | Inr _ \<Rightarrow> NoEligibleAccount), m2, w3)"
proof (cases "plan_runtime_selection be (rot_request s) (holder_id (rot_manager s)) (rot_world s)")
  case (Pair planned w1)
  note out = that
  show ?thesis
  proof (cases planned)
    case (Inl e)
    with Pair assms that(1) show ?thesis by (simp add: rotation_attempt_def Let_def)
  next
    case (Inr fp)
    obtain f p where "fp = (f, p)" by fastforce
    with Pair Inr have plan:
      "plan_runtime_selection be (rot_request s) (holder_id (rot_manager s)) (rot_world s) = (Inr (f, p), w1)" by simp
    obtain now w2 where now: "request_now be (rot_request s) w1 = (now, w2)" by fastforce
    obtain x m2 w3 where rel: "release_active_lease_at be (rot_manager s) now w2 = (x, m2, w3)" by (metis prod_cases3)
    have idle: ?thesis if idle: "terminal_action p = StayOnCurrent \<or> terminal_action p = NoCandidate"
    proof (cases "intent (rot_request s) = SoftRotation")
      case soft: True
      obtain got w4 where got: "acquire_preferred_lease be pool (grant_account_id g) f (holder_id (rot_manager s)) w1 =
          (got, w4)" by fastforce
      note body = assms [unfolded rotation_attempt_def Let_def plan prod.case sum.case if_P [OF soft]]
      show ?thesis
      proof (cases "current_released s")
        case True
        note here = out(9-12) [OF plan soft True]
        show ?thesis
        proof (cases "current_reacquire_exhausted s")
          case spent: True
          with idle True body have "res = Inl (Inl NoEligibleAccount, rot_manager s, w1)" by auto
          then show ?thesis by (rule here(1))
        next
          case False
          with idle True body got have eq: "res =
              (case got of
                 Inr g2 \<Rightarrow> Inl (adopt_active_grant be (rot_manager s) g2 w4)
               | Inl NoEligibleAccount \<Rightarrow> Inr (s\<lparr>rot_request := (rot_request s)\<lparr>current_account_id := None\<rparr>,
                   current_reacquire_exhausted := True, rot_world := w4\<rparr>)
               | Inl (Storage e) \<Rightarrow> Inl (Inl (Storage e), rot_manager s, w4))"
            by (auto split: sum.split lease_error.split)
          show ?thesis
          proof (cases got)
            case (Inl e)
            with eq got here(3) [OF False] here(4) show ?thesis by (cases e) simp_all
          next
            case (Inr g2)
            with eq got here(2) show ?thesis by simp
          qed
        qed
      next
        case False
        with idle body have "res = Inl (Inr (leased_account g), rot_manager s, w1)" by auto
        then show ?thesis by (rule out(8) [OF plan soft False])
      qed
    next
      case False
      have "res = Inl (Inl (case x of Inl e \<Rightarrow> Storage e | Inr _ \<Rightarrow> NoEligibleAccount), m2, w3)"
        using assms idle False plan now rel by (cases x) (auto simp: rotation_attempt_def Let_def)
      then show ?thesis by (rule out(13) [OF plan False now rel])
    qed
    show ?thesis
    proof (cases "terminal_action p")
      case (Select a)
      show ?thesis
      proof (cases "\<not> current_released s \<and> isl x")
        case True
        then obtain e where "x = Inl e" by (auto simp: isl_def)
        with True plan Select now rel assms that(2) show ?thesis by (simp add: rotation_attempt_def Let_def)
      next
        case False
        define m3 where "m3 = (if current_released s then rot_manager s else m2)"
        define w4 where "w4 = (if current_released s then w1 else w3)"
        have go: "if current_released s then m3 = rot_manager s \<and> w4 = w1
            else \<exists>u. release_active_lease_at be (rot_manager s) (fst (request_now be (rot_request s) w1))
              (snd (request_now be (rot_request s) w1)) = (Inr u, m3, w4)"
          using False rel now by (cases x) (auto simp: m3_def w4_def)
        obtain got w5 where got: "acquire_preferred_lease be pool a f (holder_id m3) w4 = (got, w5)" by fastforce
        have body: "rotation_attempt be pool g s =
            (case got of
               Inr g2 \<Rightarrow> Inl (adopt_active_grant be m3 g2 w5)
             | Inl NoEligibleAccount \<Rightarrow> Inr (s\<lparr>current_released := True, rot_manager := m3, rot_world := w5\<rparr>)
             | Inl (Storage e) \<Rightarrow> Inl (Inl (Storage e), m3, w5))"
          using False plan Select now rel got
          by (cases x) (auto simp: rotation_attempt_def Let_def m3_def w4_def split: sum.split lease_error.split)
        show ?thesis
        proof (cases got)
          case (Inl e)
          with that(4,5) [OF plan Select go] got body assms show ?thesis by (cases e) auto
        next
          case (Inr g2)
          with that(3) [OF plan Select go] got body assms show ?thesis by auto
        qed
      qed
    next
      case (Probe a)
      obtain y w4 where y: "verify_probe be (rot_manager s) (rot_request s) pool a f w1 = (y, w4)" by fastforce
      with plan Probe assms that(6,7) show ?thesis by (cases y) (simp_all add: rotation_attempt_def Let_def)
    qed (use idle in simp_all)
  qed
qed


section \<open>The turns\<close>

lemma rotation_attempt_outcome:
  assumes "rotation_attempt be pool g s = res" and "lease_outcome m (rot_manager s)"
  shows "case res of Inl r \<Rightarrow> lease_outcome m (fst (snd r)) | Inr s' \<Rightarrow> lease_outcome m (rot_manager s')"
proof -
  have adopted: "lease_outcome m (fst (snd (adopt_active_grant be m2 g2 w)))" if "lease_outcome m m2" for m2 g2 w
    by (rule lease_outcome_trans [OF that adopt_outcome'])
  have released: "lease_outcome m m2" if "release_active_lease_at be (rot_manager s) now w = (x, m2, w')" for x m2 w' now w
    by (rule lease_outcome_trans [OF assms(2) release_outcome [OF that]])
  show ?thesis
    using assms(1)
  proof (cases rule: rotation_attempt_cases)
    case (granted f p w1 a m2 w2 g2 w3)
    then show ?thesis using released assms(2) by (auto intro!: adopted split: if_splits)
  next
    case (refused f p w1 a m2 w2 w3)
    then show ?thesis using released assms(2) by (auto split: if_splits)
  next
    case (reacquire_failed f p w1 e w2)
    then show ?thesis using assms(2) by simp
  next
    case (acquire_failed f p w1 a m2 w2 e w3)
    then show ?thesis using released assms(2) by (auto split: if_splits)
  next
    case (regranted f p w1 g2 w2)
    then show ?thesis using assms(2) by (auto intro!: adopted)
  qed (use assms(2) released in auto)
qed

lemma acquire_rotation_outcome:
  assumes "acquire_selected_rotation_lease be req g m w = Some res"
  shows "lease_outcome m (fst (snd res))"
proof (cases "req_pool_id req")
  case None
  with assms show ?thesis by (auto simp: acquire_selected_rotation_lease_def)
next
  case (Some pool)
  with assms have ret: "run_loop (rotation_attempt be pool g) \<lparr>rot_request = req, current_released = False,
      current_reacquire_exhausted = False, rot_manager = m, rot_world = w\<rparr> = Some res"
    by (simp add: acquire_selected_rotation_lease_def)
  show ?thesis
    by (rule run_loop_invariant [OF ret, where I = "\<lambda>s. lease_outcome m (rot_manager s)"])
      (auto dest: rotation_attempt_outcome)
qed


lemma rotate_outcome:
  assumes "try_rotate_active_lease_if_needed be now m w = Some (r, m', w')" and "idle_clean m"
  shows "idle_clean m' \<and> pending_rotation m' = None \<and> holder_id m' = holder_id m"
proof (cases "pending_rotation m")
  case None
  with assms show ?thesis by (simp add: try_rotate_active_lease_if_needed_def)
next
  case (Some pending)
  let ?m1 = "m\<lparr>pending_rotation := None\<rparr>"
  have m1: "idle_clean ?m1" using assms(2) by (simp add: idle_clean_def)
  show ?thesis
  proof (cases "active_lease m")
    case None
    with assms Some m1 show ?thesis by (auto simp: try_rotate_active_lease_if_needed_def)
  next
    case active: (Some g)
    then obtain r2 m2 w2 where rot:
        "acquire_selected_rotation_lease be (rotation_request ?m1 now pending g) g ?m1 w = Some (r2, m2, w2)"
      using assms(1) Some
      by (cases "acquire_selected_rotation_lease be (rotation_request ?m1 now pending g) g ?m1 w")
        (auto simp: try_rotate_active_lease_if_needed_def)
    from acquire_rotation_outcome [OF rot] have out: "lease_outcome ?m1 m2" by simp
    then have m2: "idle_clean m2" "pending_rotation m2 = None" "holder_id m2 = holder_id m"
      using lease_outcome_idle [OF out m1] lease_outcome_frame [OF out] by auto
    show ?thesis
      using assms(1) Some active rot m2
      by (cases r2) (auto simp: try_rotate_active_lease_if_needed_def Let_def idle_clean_def)
  qed
qed

lemma renew_outcome:
  assumes "try_renew_active_lease_if_needed be now m w = Some (r, m', w')" and "pending_rotation m = None"
    and "active_lease m \<noteq> None"
  shows "idle_clean m' \<and> pending_rotation m' = None \<and> holder_id m' = holder_id m"
proof -
  from assms(3) obtain g where g: "active_lease m = Some g" by blast
  obtain margin where margin: "derived_pre_turn_safety_margin (mgr_config m) = Some margin"
    using assms(1) g by (cases "derived_pre_turn_safety_margin (mgr_config m)")
      (auto simp: try_renew_active_lease_if_needed_def)
  obtain x w1 where renewed: "renew_lease be (grant_key g) now w = (x, w1)" by fastforce
  have idle: "idle_clean m" "idle_clean (m\<lparr>active_lease := Some h\<rparr>)" for h
    using g by (simp_all add: idle_clean_def)
  show ?thesis
  proof (cases "grant_remaining_ttl g now > margin")
    case True
    with assms(1,2) g margin idle(1) show ?thesis by (simp add: try_renew_active_lease_if_needed_def)
  next
    case False
    note body = assms(1) [unfolded try_renew_active_lease_if_needed_def g option.case margin if_not_P [OF False]
        renewed prod.case]
    show ?thesis
    proof (cases x)
      case (Inl e)
      with body assms(2) idle(1) show ?thesis by simp
    next
      case (Inr y)
      with body assms(2) idle(2) show ?thesis by (cases y) (auto simp: lose_lease_def idle_clean_def)
    qed
  qed
qed

lemma rehydrate_outcome: "try_rehydrate_holder_lease be m w = (r, m', w') \<Longrightarrow> lease_outcome m m'"
  by (auto simp: try_rehydrate_holder_lease_def dest: adopt_outcome split: prod.splits sum.splits option.splits)

lemma lease_for_turn_outcome:
  assumes "lease_for_turn be now m w = Some (r, m', w')" and "idle_clean m"
  shows "idle_clean m' \<and> pending_rotation m' = None \<and> holder_id m' = holder_id m"
proof -
  obtain r1 m1 w1 where rot: "try_rotate_active_lease_if_needed be now m w = Some (r1, m1, w1)"
    using assms(1) by (cases "try_rotate_active_lease_if_needed be now m w") (auto simp: lease_for_turn_def)
  note m1 = rotate_outcome [OF rot assms(2)]
  show ?thesis
  proof (cases "r1 = Inr None")
    case False
    then show ?thesis using assms(1) rot m1
      by (auto simp: lease_for_turn_def split: sum.splits option.splits)
  next
    case rotated: True
    show ?thesis
    proof (cases "active_lease m1")
      case None
      obtain r2 m2 w2 where re: "try_rehydrate_holder_lease be m1 w1 = (r2, m2, w2)" by (metis prod_cases3)
      have "m' = m2"
        using assms(1) rot rotated None re by (auto simp: lease_for_turn_def split: sum.splits option.splits)
      then show ?thesis
        using lease_outcome_idle [OF rehydrate_outcome [OF re]] lease_outcome_frame [OF rehydrate_outcome [OF re]] m1
        by auto
    next
      case (Some g)
      let ?m2 = "m1\<lparr>proactive_switch_state := snd (revalidate_before_turn (proactive_switch_state m1) now)\<rparr>"
      obtain r3 m3 w3 where re: "try_renew_active_lease_if_needed be now ?m2 w1 = Some (r3, m3, w3)"
        using assms(1) rot rotated Some
        by (cases "try_renew_active_lease_if_needed be now ?m2 w1") (auto simp: lease_for_turn_def Let_def)
      have "m' = m3"
        using assms(1) rot rotated Some re
        by (cases r3) (auto simp: lease_for_turn_def Let_def split: renewal_disposition.splits)
      then show ?thesis using renew_outcome [OF re] m1 Some by simp
    qed
  qed
qed


lemma acquire_for_turn_outcome:
  assumes "acquire_for_turn be req m w = Some (r, m', w')" and "idle_clean m" and "pending_rotation m = None"
  shows "idle_clean m' \<and> holder_id m' = holder_id m"
proof -
  obtain x where "acquire_selected_lease be req m w = Some (x, m', w')"
    using assms(1) by (auto simp: acquire_for_turn_def)
  from acquire_selected_outcome [OF this] have "lease_outcome m m'" by simp
  with assms(2,3) show ?thesis using lease_outcome_idle lease_outcome_frame by metis
qed

lemma ensure_outcome:
  assumes "ensure_active_lease be req m w = Some (r, m', w')" and "idle_clean m"
  shows "idle_clean m' \<and> holder_id m' = holder_id m"
proof -
  obtain now w0 where now: "request_now be req w = (now, w0)" by fastforce
  obtain r1 m1 w1 where turn: "lease_for_turn be now m w0 = Some (r1, m1, w1)"
    using assms(1) now by (cases "lease_for_turn be now m w0") (auto simp: ensure_active_lease_def)
  note m1 = lease_for_turn_outcome [OF turn assms(2)]
  have cont: "idle_clean m' \<and> holder_id m' = holder_id m" if "acquire_for_turn be req' m1 w'' = Some (r, m', w')" for req' w''
    using acquire_for_turn_outcome [OF that] m1 by simp
  note body = assms(1) [unfolded ensure_active_lease_def now prod.case turn option.case]
  show ?thesis
  proof (cases r1)
    case (Inl e)
    with body m1 show ?thesis by auto
  next
    case (Inr t)
    show ?thesis
    proof (cases t)
      case NoLease
      with body Inr m1 cont show ?thesis by (auto split: prod.splits sum.splits)
    qed (use body Inr m1 cont in auto)
  qed
qed

lemma renew_if_needed_outcome:
  assumes "renew_active_lease_if_needed be now m w = Some (r, m', w')" and "idle_clean m"
  shows "idle_clean m' \<and> holder_id m' = holder_id m"
proof -
  obtain r1 m1 w1 where turn: "lease_for_turn be now m w = Some (r1, m1, w1)"
    using assms(1) by (cases "lease_for_turn be now m w") (auto simp: renew_active_lease_if_needed_def)
  note m1 = lease_for_turn_outcome [OF turn assms(2)]
  have cont: "idle_clean m' \<and> holder_id m' = holder_id m" if "acquire_for_turn be req' m1 w'' = Some (r, m', w')" for req' w''
    using acquire_for_turn_outcome [OF that] m1 by simp
  note body = assms(1) [unfolded renew_active_lease_if_needed_def Let_def turn option.case prod.case]
  show ?thesis
  proof (cases r1)
    case (Inl e)
    with body m1 show ?thesis by auto
  next
    case (Inr t)
    show ?thesis
    proof (cases t)
      case NoLease
      with body Inr m1 cont show ?thesis by (auto split: prod.splits sum.splits)
    qed (use body Inr m1 cont in auto)
  qed
qed

lemma report_failure_outcome:
  "report_failure be key event m w = (r, m', w') \<Longrightarrow> idle_clean m \<Longrightarrow>
     idle_clean m' \<and> holder_id m' = holder_id m \<and> active_lease m' = active_lease m"
  by (auto simp: report_failure_def idle_clean_def Let_def split: option.splits if_splits prod.splits sum.splits)

lemma report_rate_limits_outcome:
  "report_rate_limits key snapshot m = Some (d, m') \<Longrightarrow> idle_clean m \<Longrightarrow>
     idle_clean m' \<and> holder_id m' = holder_id m \<and> active_lease m' = active_lease m"
  by (auto simp: report_rate_limits_def idle_clean_def split: option.splits if_splits prod.splits)

lemma release_active_outcome:
  assumes "release_active_lease be m w = (r, m', w')" and "idle_clean m"
  shows "idle_clean m' \<and> holder_id m' = holder_id m"
proof -
  obtain now w1 x m2 w2 where "utc_now be w = (now, w1)"
    and rel: "release_active_lease_at be m now w1 = (x, m2, w2)" by (metis prod_cases3 surj_pair)
  with assms(1) have "m' = (case x of Inl _ \<Rightarrow> m2
      | Inr _ \<Rightarrow> m2\<lparr>pending_rotation := None, last_proactively_replaced := None\<rparr>)"
    by (cases x) (auto simp: release_active_lease_def)
  moreover have "x = Inl e \<Longrightarrow> m2 = m" for e
    using rel by (auto simp: release_active_lease_at_def split: option.splits prod.splits sum.splits)
  ultimately show ?thesis
    using release_outcome [OF rel] assms(2) by (cases x) (auto simp: lease_outcome_def idle_clean_def)
qed

lemma manager_step_outcome:
  assumes "manager_step be env (m, w) (m', w')" and "idle_clean m"
  shows "idle_clean m' \<and> holder_id m' = holder_id m"
  using assms(1)
proof cases
  case (bootstrap r)
  with assms(2) show ?thesis
    by (auto simp: bootstrap_from_legacy_auth_def idle_clean_def split: if_splits prod.splits sum.splits)
next
  case (heartbeat now r)
  with assms(2) show ?thesis
    by (auto simp: heartbeat_active_lease_def idle_clean_def lose_lease_def
        split: option.splits prod.splits sum.splits lease_renewal.splits)
next
  case (ensure req r)
  with assms(2) show ?thesis by (blast dest: ensure_outcome)
next
  case (renew_if_needed now r)
  with assms(2) show ?thesis by (blast dest: renew_if_needed_outcome)
next
  case (release r)
  with assms(2) show ?thesis by (blast dest: release_active_outcome)
next
  case (usage_limit key observed r)
  with assms(2) show ?thesis by (auto simp: report_usage_limit_reached_def dest: report_failure_outcome)
next
  case (unauthorized key r)
  with assms(2) show ?thesis by (auto simp: report_unauthorized_def dest: report_failure_outcome)
next
  case (rate_limits key snapshot d)
  with assms(2) show ?thesis by (auto dest: report_rate_limits_outcome)
qed (use assms(2) in simp_all)

lemma manager_run_outcome:
  "manager_run be env s t \<Longrightarrow> idle_clean (fst s) \<Longrightarrow> idle_clean (fst t) \<and> holder_id (fst t) = holder_id (fst s)"
proof (induction rule: manager_run.induct)
  case (step s t u)
  then show ?case using manager_step_outcome [of be env "fst t" "snd t" "fst u" "snd u"] by simp
qed simp

lemma new_manager_clean:
  assumes "new_manager config holder = Some (Inr m)"
  shows "idle_clean m \<and> holder_id m = holder \<and> active_lease m = None"
proof (cases "validate_config config")
  case (Some x)
  with assms show ?thesis by (cases x) (auto simp: new_manager_def idle_clean_def)
qed (use assms in \<open>simp add: new_manager_def\<close>)

end
