(* ===== verification/AccountFencing.thy ===== *)
theory AccountFencing
  imports AccountSession
begin

text \<open>
  What a manager can rely on: the contract of a backend that keeps the leases of one holder,
  and what the manager makes of it. The contract is the locale \<open>lease_authority\<close>; its instance
  over the local database is in the theory \<open>AccountAuthority\<close>.
\<close>

section \<open>The contract\<close>

text \<open>A call that gives the holder no lease: its unreleased leases only become fewer.\<close>

definition keeps :: "('w \<Rightarrow> bool) \<Rightarrow> ('w \<Rightarrow> lease_key set) \<Rightarrow> 'w \<Rightarrow> 'w \<Rightarrow> bool" where
  "keeps good owned w w' \<longleftrightarrow> good w' \<and> owned w' \<subseteq> owned w"

text \<open>The manager is the holder's and knows of every lease that the holder has, if it has a lease itself.\<close>

definition fenced ::
  "ustring \<Rightarrow> ('w \<Rightarrow> bool) \<Rightarrow> ('w \<Rightarrow> lease_key set) \<Rightarrow> account_manager \<Rightarrow> 'w \<Rightarrow> bool" where
  "fenced holder good owned m w \<longleftrightarrow>
     holder_id m = holder \<and> good w \<and> (\<forall>g. active_lease m = Some g \<longrightarrow> owned w \<subseteq> {grant_key g})"

locale lease_authority =
  fixes be :: "'w execution_backend" and holder :: ustring and env :: "'w \<Rightarrow> 'w \<Rightarrow> bool"
    and good :: "'w \<Rightarrow> bool" and owned :: "'w \<Rightarrow> lease_key set"
  assumes others_keep: "good w \<Longrightarrow> env w w' \<Longrightarrow> keeps good owned w w'"
    and plan_keeps: "good w \<Longrightarrow> plan_runtime_selection be req holder w = (r, w') \<Longrightarrow> keeps good owned w w'"
    and plan_leaves_current: "good w \<Longrightarrow> plan_runtime_selection be req holder w = (Inr (family, plan), w') \<Longrightarrow>
        current_account_id req = Some c \<Longrightarrow> intent req \<noteq> ProbeRecovery \<Longrightarrow>
        terminal_action plan = Select a \<Longrightarrow> a \<noteq> c"
    and acquire_granted: "good w \<Longrightarrow> acquire_preferred_lease be pool a family holder w = (Inr g, w') \<Longrightarrow>
        good w' \<and> owned w' \<subseteq> {grant_key g} \<and> (owned w = {} \<longrightarrow> grant_account_id g = a)"
    and acquire_refused: "good w \<Longrightarrow> acquire_preferred_lease be pool a family holder w = (Inl NoEligibleAccount, w') \<Longrightarrow>
        keeps good owned w w'"
    and acquire_failed: "good w \<Longrightarrow> acquire_preferred_lease be pool a family holder w = (Inl e, w') \<Longrightarrow> good w'"
    and probe_keeps: "good w \<Longrightarrow> other \<noteq> holder \<Longrightarrow> acquire_probe_lease be pool a reservation other w = (r2, w') \<Longrightarrow>
        keeps good owned w w'"
    and reserve_keeps: "good w \<Longrightarrow> reserve_quota_probe be a family now d w = (r3, w') \<Longrightarrow> keeps good owned w w'"
    and refresh_keeps: "good w \<Longrightarrow> refresh_quota_probe be g reservation w = (r4, w') \<Longrightarrow> keeps good owned w w'"
    and read_holder: "good w \<Longrightarrow> read_active_holder_lease be holder w = (r5, w') \<Longrightarrow>
        keeps good owned w w' \<and> (case r5 of Inr (Some g) \<Rightarrow> owned w' \<subseteq> {grant_key g} | _ \<Rightarrow> True)"
    and renew_keeps: "good w \<Longrightarrow> renew_lease be key now w = (r6, w') \<Longrightarrow>
        keeps good owned w w' \<and> (case r6 of Inr (Renewed l) \<Rightarrow> lease_key_of l = key | _ \<Rightarrow> True)"
    and release_drops: "good w \<Longrightarrow> release_lease be key now w = (r7, w') \<Longrightarrow>
        keeps good owned w w' \<and> (\<not> isl r7 \<longrightarrow> key \<notin> owned w')"
    and health_keeps: "good w \<Longrightarrow> record_health_event be ev w = (r8, w') \<Longrightarrow> keeps good owned w w'"
    and sequence_keeps: "good w \<Longrightarrow> read_health_event_sequence be a w = (r9, w') \<Longrightarrow> keeps good owned w w'"
    and startup_keeps: "good w \<Longrightarrow> keeps good owned w (snd (read_startup_selection be w))"
    and inventory_keeps: "good w \<Longrightarrow> keeps good owned w (snd (read_startup_pool_inventory be w))"
    and facts_keep: "good w \<Longrightarrow> keeps good owned w (snd (read_startup_selection_facts be pool w))"
    and legacy_keeps: "good w \<Longrightarrow> keeps good owned w (snd (current_legacy_auth be w))"
    and clock_keeps: "good w \<Longrightarrow> utc_now be w = (t, w') \<Longrightarrow> keeps good owned w w'"

section \<open>The manager over the contract\<close>

context lease_authority
begin

lemma keepsD: "keeps good owned w w' \<Longrightarrow> good w'" "keeps good owned w w' \<Longrightarrow> owned w' \<subseteq> owned w"
  by (simp_all add: keeps_def)

lemma keeps_refl: "good w \<Longrightarrow> keeps good owned w w"
  by (simp add: keeps_def)

lemma keeps_trans: "keeps good owned w w1 \<Longrightarrow> keeps good owned w1 w2 \<Longrightarrow> keeps good owned w w2"
  by (auto simp: keeps_def)

lemma now_keeps: "good w \<Longrightarrow> request_now be req w = (t, w') \<Longrightarrow> keeps good owned w w'"
  by (auto simp: request_now_def keeps_def split: option.splits dest: clock_keeps [unfolded keeps_def])

lemma fenced_keeps: "fenced holder good owned m w \<Longrightarrow> keeps good owned w w' \<Longrightarrow> fenced holder good owned m w'"
  by (auto simp: fenced_def keeps_def)

lemma fenced_good: "fenced holder good owned m w \<Longrightarrow> good w" "fenced holder good owned m w \<Longrightarrow> holder_id m = holder"
  by (simp_all add: fenced_def)

lemma fenced_clear: "fenced holder good owned m w \<Longrightarrow> fenced holder good owned (clear_lease m) w"
  by (simp add: fenced_def)

lemma adopt_keeps:
  "good w \<Longrightarrow> adopt_active_grant be m g w = (r, m', w') \<Longrightarrow> keeps good owned w w'"
  by (auto simp: adopt_active_grant_def split: prod.splits sum.splits dest: sequence_keeps)

lemma adopt_fenced:
  assumes "adopt_active_grant be m g w = (r, m', w')" and "good w" and "owned w \<subseteq> {grant_key g}"
    and "holder_id m = holder" and "active_lease m = None"
  shows "fenced holder good owned m' w'" and "r = Inr l \<Longrightarrow> active_lease m' = Some g \<and> l = leased_account g"
proof -
  have keep: "keeps good owned w w'" using assms(1,2) by (rule adopt_keeps [rotated])
  then show "fenced holder good owned m' w'"
    using assms by (auto simp: adopt_active_grant_def fenced_def keeps_def split: prod.splits sum.splits)
  show "active_lease m' = Some g \<and> l = leased_account g" if "r = Inr l"
    using assms(1) that by (auto simp: adopt_active_grant_def split: prod.splits sum.splits)
qed

lemma release_at_fenced:
  assumes "release_active_lease_at be m now w = (r, m', w')" and "fenced holder good owned m w"
  shows "fenced holder good owned m' w'"
    and "keeps good owned w w'"
    and "r = Inr u \<Longrightarrow> active_lease m' = None \<and> (active_lease m \<noteq> None \<longrightarrow> owned w' = {})"
proof -
  show "keeps good owned w w'"
    using assms by (auto simp: release_active_lease_at_def fenced_def keeps_refl
        split: option.splits prod.splits sum.splits dest: release_drops)
  with assms show "fenced holder good owned m' w'"
    by (auto simp: release_active_lease_at_def split: option.splits prod.splits sum.splits
        intro: fenced_keeps fenced_clear)
  show "active_lease m' = None \<and> (active_lease m \<noteq> None \<longrightarrow> owned w' = {})" if "r = Inr u"
  proof (cases "active_lease m")
    case None
    with assms that show ?thesis by (auto simp: release_active_lease_at_def)
  next
    case (Some g)
    obtain x w1 where x: "release_lease be (grant_key g) now w = (x, w1)" by fastforce
    with assms(1) Some that have "m' = clear_lease m" "w1 = w'" "\<not> isl x"
      by (auto simp: release_active_lease_at_def split: sum.splits)
    with release_drops [of w, OF _ x] assms(2) Some show ?thesis by (auto simp: fenced_def keeps_def)
  qed
qed

lemma probe_holder_differs: "probe_holder_instance_id m \<noteq> holder_id m"
  by (simp add: probe_holder_instance_id_def lit_def)

lemma verify_probe_keeps:
  assumes "verify_probe be m req pool a family w = (r, w')" and "good w" and "holder_id m = holder"
  shows "keeps good owned w w'"
proof -
  obtain now w1 where now: "request_now be req w = (now, w1)" by fastforce
  note k1 = now_keeps [OF assms(2) now]
  obtain x w2 where x: "reserve_quota_probe be a family now probe_reservation_duration w1 = (x, w2)" by fastforce
  note k2 = keeps_trans [OF k1 reserve_keeps [OF keepsD(1) [OF k1] x]]
  note body = assms(1) [unfolded verify_probe_def now prod.case x]
  show ?thesis
  proof (cases "\<exists>reservation. x = Inr (Some reservation)")
    case False
    with body k2 show ?thesis by (auto split: sum.splits option.splits)
  next
    case True
    then obtain reservation where res: "x = Inr (Some reservation)" by blast
    obtain y w3 where y: "acquire_probe_lease be pool a reservation (probe_holder_instance_id m) w2 = (y, w3)" by fastforce
    have k3: "keeps good owned w w3"
      using keeps_trans [OF k2 probe_keeps [OF keepsD(1) [OF k2] _ y]] probe_holder_differs [of m] assms(3) by simp
    show ?thesis
    proof (cases y)
      case (Inl e)
      with body res y k3 show ?thesis by (cases e) auto
    next
      case (Inr lease)
      obtain p w4 where p: "refresh_quota_probe be lease reservation w3 = (p, w4)" by fastforce
      note k4 = keeps_trans [OF k3 refresh_keeps [OF keepsD(1) [OF k3] p]]
      obtain t w5 where t: "request_now be req w4 = (t, w5)" by fastforce
      note k5 = keeps_trans [OF k4 now_keeps [OF keepsD(1) [OF k4] t]]
      obtain z w6 where z: "release_lease be (grant_key lease) t w5 = (z, w6)" by fastforce
      have k6: "keeps good owned w w6"
        using keeps_trans [OF k5] release_drops [OF keepsD(1) [OF k5] z] by blast
      have "w' = w6" using body res y Inr p t z by (auto split: sum.splits)
      with k6 show ?thesis by simp
    qed
  qed
qed

lemma plan_fenced:
  "fenced holder good owned m w \<Longrightarrow> plan_runtime_selection be req (holder_id m) w = (r, w') \<Longrightarrow>
     fenced holder good owned m w' \<and> owned w' \<subseteq> owned w"
  using fenced_keeps plan_keeps fenced_good keepsD(2) by metis

lemma now_fenced:
  "fenced holder good owned m w \<Longrightarrow> request_now be req w = (t, w') \<Longrightarrow>
     fenced holder good owned m w' \<and> owned w' \<subseteq> owned w"
  using fenced_keeps now_keeps fenced_good keepsD(2) by metis

lemma verify_fenced:
  "fenced holder good owned m w \<Longrightarrow> verify_probe be m req pool a family w = (r, w') \<Longrightarrow>
     fenced holder good owned m w' \<and> owned w' \<subseteq> owned w"
  using fenced_keeps verify_probe_keeps fenced_good keepsD(2) by metis

lemma refused_fenced:
  "fenced holder good owned m w \<Longrightarrow>
     acquire_preferred_lease be pool a family (holder_id m) w = (Inl NoEligibleAccount, w') \<Longrightarrow>
     fenced holder good owned m w' \<and> owned w' \<subseteq> owned w"
  using fenced_keeps acquire_refused fenced_good keepsD(2) by metis

lemma failed_fenced:
  "fenced holder good owned m w \<Longrightarrow> active_lease m = None \<Longrightarrow>
     acquire_preferred_lease be pool a family (holder_id m) w = (Inl e, w') \<Longrightarrow> fenced holder good owned m w'"
  using acquire_failed fenced_good(1) by (metis fenced_def option.distinct(1))

text \<open>A result of an acquisition: it stays fenced, and hands out the lease that the manager holds.\<close>

definition handed :: "('e + lease_record) \<times> account_manager \<times> 'w \<Rightarrow> bool" where
  "handed res \<longleftrightarrow>
     fenced holder good owned (fst (snd res)) (snd (snd res)) \<and>
     (\<forall>l. fst res = Inr l \<longrightarrow> (\<exists>g. active_lease (fst (snd res)) = Some g \<and> l = leased_account g))"

lemma handed_error [simp]: "handed (Inl e, m, w) \<longleftrightarrow> fenced holder good owned m w"
  by (simp add: handed_def)

lemma granted_handed:
  assumes "fenced holder good owned m w" and "active_lease m = None"
    and "acquire_preferred_lease be pool a family (holder_id m) w = (Inr g, w')"
  shows "handed (adopt_active_grant be m g w')"
    and "owned w = {} \<Longrightarrow> fst (adopt_active_grant be m g w') = Inr l \<Longrightarrow> lease_account_id l = a"
proof -
  have got: "good w' \<and> owned w' \<subseteq> {grant_key g} \<and> (owned w = {} \<longrightarrow> grant_account_id g = a)"
    using acquire_granted assms(1,3) by (metis fenced_good)
  obtain x m2 w3 where x: "adopt_active_grant be m g w' = (x, m2, w3)" by (metis prod_cases3)
  note adopted = adopt_fenced [OF x _ _ fenced_good(2) [OF assms(1)] assms(2)]
  from adopted got show "handed (adopt_active_grant be m g w')" by (auto simp: x handed_def)
  show "owned w = {} \<Longrightarrow> fst (adopt_active_grant be m g w') = Inr l \<Longrightarrow> lease_account_id l = a"
    using adopted(2) got by (auto simp: x leased_account_def)
qed

lemma acquire_selected_handed:
  assumes "acquire_selected_lease be req m w = Some res" and "fenced holder good owned m w" and "active_lease m = None"
  shows "handed res"
proof (cases "req_pool_id req")
  case None
  with assms show ?thesis by (auto simp: acquire_selected_lease_def)
next
  case (Some pool)
  with assms(1) have ret: "run_loop (selection_attempt be req pool m) w = Some res"
    by (simp add: acquire_selected_lease_def)
  have attempt: "case res of Inl r \<Rightarrow> handed r | Inr w' \<Rightarrow> fenced holder good owned m w'"
    if "selection_attempt be req pool m w = res" and f: "fenced holder good owned m w" for w res
  proof -
    note planned = plan_fenced [OF f, THEN conjunct1]
    show ?thesis
      using that(1)
    proof (cases rule: selection_attempt_cases)
      case (granted f' p w1 a g w2)
      with granted_handed(1) [OF planned [OF granted(1)] assms(3) granted(3)] show ?thesis by simp
    next
      case (refused f' p w1 a w2)
      with refused_fenced [OF planned [OF refused(1)] refused(3)] show ?thesis by simp
    next
      case (acquire_failed f' p w1 a e w2)
      with failed_fenced [OF planned [OF acquire_failed(1)] assms(3) acquire_failed(3)] show ?thesis by simp
    next
      case (plan_failed e w1)
      with planned [OF plan_failed(1)] show ?thesis by simp
    next
      case (probe_failed f' p w1 a e w2)
      with verify_fenced [OF planned [OF probe_failed(1)] probe_failed(3)] show ?thesis by simp
    next
      case (probed f' p w1 a u w2)
      with verify_fenced [OF planned [OF probed(1)] probed(3)] show ?thesis by simp
    next
      case (none f' p w1)
      with planned [OF none(1)] show ?thesis by simp
    qed
  qed
  show ?thesis
    by (rule run_loop_invariant [OF ret, where I = "fenced holder good owned m"])
      (use assms(2) attempt in fastforce)+
qed

section \<open>Rotation\<close>

text \<open>The loop of a rotation: until it releases the lease the manager is as it was.\<close>

definition rotating :: "lease_grant \<Rightarrow> 'w rotation_state \<Rightarrow> bool" where
  "rotating g s \<longleftrightarrow>
     fenced holder good owned (rot_manager s) (rot_world s) \<and>
     (if current_released s then active_lease (rot_manager s) = None \<and> owned (rot_world s) = {}
      else active_lease (rot_manager s) = Some g) \<and>
     (intent (rot_request s) = HardFailover \<longrightarrow> current_account_id (rot_request s) = Some (grant_account_id g))"

definition rotated :: "bool \<Rightarrow> lease_grant \<Rightarrow> 'w acquisition \<Rightarrow> bool" where
  "rotated hard g res \<longleftrightarrow> handed res \<and> (hard \<longrightarrow> (\<forall>l. fst res = Inr l \<longrightarrow> lease_account_id l \<noteq> grant_account_id g))"

lemma rotation_release:
  assumes "rotating g s" and "fenced holder good owned (rot_manager s) w1" and "owned w1 \<subseteq> owned (rot_world s)"
    and "if current_released s then m2 = rot_manager s \<and> w2 = w1
       else \<exists>u. release_active_lease_at be (rot_manager s) (fst (request_now be (rot_request s) w1))
         (snd (request_now be (rot_request s) w1)) = (Inr u, m2, w2)"
  shows "fenced holder good owned m2 w2 \<and> active_lease m2 = None \<and> owned w2 = {}"
proof (cases "current_released s")
  case True
  with assms show ?thesis by (auto simp: rotating_def)
next
  case False
  obtain t w where t: "request_now be (rot_request s) w1 = (t, w)" by fastforce
  from now_fenced [OF assms(2) t] have f: "fenced holder good owned (rot_manager s) w" by blast
  from False assms(4) t obtain u where u: "release_active_lease_at be (rot_manager s) t w = (Inr u, m2, w2)" by auto
  from release_at_fenced(1,3) [OF u f] False assms(1) show ?thesis by (auto simp: rotating_def)
qed

lemma rotation_attempt_rotating:
  assumes "rotation_attempt be pool g s = res" and "rotating g s"
  shows "case res of Inl r \<Rightarrow> rotated (intent (rot_request s) = HardFailover) g r
    | Inr s' \<Rightarrow> rotating g s' \<and> intent (rot_request s') = intent (rot_request s)"
proof -
  have f: "fenced holder good owned (rot_manager s) (rot_world s)" using assms(2) by (simp add: rotating_def)
  note planned = plan_fenced [OF f]
  have released: "current_released s \<Longrightarrow> active_lease (rot_manager s) = None \<and> owned (rot_world s) = {}"
    using assms(2) by (simp add: rotating_def)
  have differs: "a \<noteq> grant_account_id g"
    if "plan_runtime_selection be (rot_request s) (holder_id (rot_manager s)) (rot_world s) = (Inr (f', p), w1)"
      "terminal_action p = Select a" "intent (rot_request s) = HardFailover" for f' p w1 a
    using plan_leaves_current [OF fenced_good(1) [OF f] that(1) [unfolded fenced_good(2) [OF f]]] that(2,3) assms(2) by (simp add: rotating_def)
  show ?thesis
    using assms(1)
  proof (cases rule: rotation_attempt_cases)
    case (plan_failed e w1)
    with planned [OF plan_failed(1)] show ?thesis by (simp add: rotated_def)
  next
    case (release_failed f' p w1 a now w2 e m2 w3)
    have "fenced holder good owned (rot_manager s) w2"
      using planned [OF release_failed(1)] now_fenced release_failed(4) by blast
    from release_at_fenced(1) [OF release_failed(5) this] release_failed(6) show ?thesis by (simp add: rotated_def)
  next
    case (granted f' p w1 a m2 w2 g2 w3)
    from planned [OF granted(1)] have "fenced holder good owned m2 w2 \<and> active_lease m2 = None \<and> owned w2 = {}"
      by (intro rotation_release [OF assms(2) _ _ granted(3)]) simp_all
    with granted_handed [OF _ _ granted(4)] differs [OF granted(1,2)] granted(5) show ?thesis
      by (auto simp: rotated_def)
  next
    case (refused f' p w1 a m2 w2 w3)
    from planned [OF refused(1)] have "fenced holder good owned m2 w2 \<and> active_lease m2 = None \<and> owned w2 = {}"
      by (intro rotation_release [OF assms(2) _ _ refused(3)]) simp_all
    with refused_fenced [OF _ refused(4)] assms(2) refused(5) show ?thesis by (auto simp: rotating_def)
  next
    case (acquire_failed f' p w1 a m2 w2 e w3)
    from planned [OF acquire_failed(1)] have "fenced holder good owned m2 w2 \<and> active_lease m2 = None \<and> owned w2 = {}"
      by (intro rotation_release [OF assms(2) _ _ acquire_failed(3)]) simp_all
    with failed_fenced [OF _ _ acquire_failed(4)] acquire_failed(5) show ?thesis by (auto simp: rotated_def)
  next
    case (probe_failed f' p w1 a e w2)
    with verify_fenced [OF planned [OF probe_failed(1), THEN conjunct1] probe_failed(3)]
    show ?thesis by (simp add: rotated_def)
  next
    case (probed f' p w1 a u w2)
    from planned [OF probed(1)] verify_fenced [OF _ probed(3)]
    have "fenced holder good owned (rot_manager s) w2 \<and> owned w2 \<subseteq> owned (rot_world s)" by blast
    with assms(2) probed(4) show ?thesis by (auto simp: rotating_def)
  next
    case (stay f' p w1)
    with planned [OF stay(1)] assms(2) show ?thesis by (simp add: rotated_def handed_def rotating_def)
  next
    case (spent f' p w1)
    with planned [OF spent(1)] show ?thesis by (simp add: rotated_def)
  next
    case (regranted f' p w1 g2 w2)
    with granted_handed(1) [OF planned [OF regranted(1), THEN conjunct1] _ regranted(4)] released
    show ?thesis by (simp add: rotated_def)
  next
    case (rerefused f' p w1 w2)
    from planned [OF rerefused(1)] refused_fenced [OF _ rerefused(5)]
    have "fenced holder good owned (rot_manager s) w2 \<and> owned w2 \<subseteq> owned (rot_world s)" by blast
    with assms(2) rerefused(2,3,6) show ?thesis by (auto simp: rotating_def)
  next
    case (reacquire_failed f' p w1 e w2)
    with failed_fenced [OF planned [OF reacquire_failed(1), THEN conjunct1] _ reacquire_failed(4)] released
    show ?thesis by (simp add: rotated_def)
  next
    case (give_up f' p w1 now w2 x m2 w3)
    have "fenced holder good owned (rot_manager s) w2"
      using planned [OF give_up(1)] now_fenced give_up(3) by blast
    from release_at_fenced(1) [OF give_up(4) this] give_up(5) show ?thesis by (simp add: rotated_def)
  qed
qed

lemma acquire_rotation_rotated:
  assumes "acquire_selected_rotation_lease be req g m w = Some res" and "fenced holder good owned m w"
    and "active_lease m = Some g" and "current_account_id req = Some (grant_account_id g)"
  shows "rotated (intent req = HardFailover) g res"
proof (cases "req_pool_id req")
  case None
  with assms show ?thesis by (auto simp: acquire_selected_rotation_lease_def rotated_def)
next
  case (Some pool)
  with assms(1) have ret: "run_loop (rotation_attempt be pool g) \<lparr>rot_request = req, current_released = False,
      current_reacquire_exhausted = False, rot_manager = m, rot_world = w\<rparr> = Some res"
    by (simp add: acquire_selected_rotation_lease_def)
  show ?thesis
    by (rule run_loop_invariant [OF ret, where I = "\<lambda>s. rotating g s \<and> intent (rot_request s) = intent req"])
      (use assms(2-4) in \<open>auto simp: rotating_def [of g "\<lparr>rot_request = _, current_released = _,
        current_reacquire_exhausted = _, rot_manager = _, rot_world = _\<rparr>"] dest!: rotation_attempt_rotating\<close>)
qed

section \<open>Turns\<close>

lemma fenced_same:
  "holder_id m' = holder_id m \<Longrightarrow> active_lease m' = active_lease m \<Longrightarrow>
     fenced holder good owned m' w = fenced holder good owned m w"
  by (simp add: fenced_def)

lemma handed_same:
  "holder_id m' = holder_id m \<Longrightarrow> active_lease m' = active_lease m \<Longrightarrow> handed (r, m', w) = handed (r, m, w)"
  by (simp add: handed_def fenced_def)

lemma handed_text: "handed (map_sum f id r, m, w) = handed (r, m, w)"
  by (cases r) (simp_all add: handed_def)

lemma rotate_fenced:
  assumes "try_rotate_active_lease_if_needed be now m w = Some (r, m', w')" and "fenced holder good owned m w"
  shows "fenced holder good owned m' w'"
    and "r = Inr (Some l) \<Longrightarrow> (\<exists>g. active_lease m' = Some g \<and> l = leased_account g) \<and>
      (pending_rotation m = Some HardFailure \<longrightarrow> active_lease m = Some g0 \<longrightarrow> lease_account_id l \<noteq> grant_account_id g0)"
proof -
  have "fenced holder good owned m' w' \<and>
    (\<forall>l. r = Inr (Some l) \<longrightarrow> (\<exists>g. active_lease m' = Some g \<and> l = leased_account g) \<and>
      (\<forall>g0. pending_rotation m = Some HardFailure \<longrightarrow> active_lease m = Some g0 \<longrightarrow>
         lease_account_id l \<noteq> grant_account_id g0))"
  proof (cases "pending_rotation m")
    case None
    with assms show ?thesis by (auto simp: try_rotate_active_lease_if_needed_def)
  next
    case (Some pending)
    let ?m1 = "m\<lparr>pending_rotation := None\<rparr>"
    have m1: "fenced holder good owned ?m1 w" using assms(2) by (simp add: fenced_def)
    show ?thesis
    proof (cases "active_lease m")
      case None
      with assms Some m1 show ?thesis by (auto simp: try_rotate_active_lease_if_needed_def)
    next
      case active: (Some g)
      let ?req = "rotation_request ?m1 now pending g"
      obtain r2 m2 w2 where rot: "acquire_selected_rotation_lease be ?req g ?m1 w = Some (r2, m2, w2)"
        using assms(1) Some active
        by (cases "acquire_selected_rotation_lease be ?req g ?m1 w")
          (auto simp: try_rotate_active_lease_if_needed_def)
      have "current_account_id ?req = Some (grant_account_id g)"
        and hard: "intent ?req = HardFailover \<longleftrightarrow> pending = HardFailure"
        by (cases pending; simp add: rotation_request_def)+
      with acquire_rotation_rotated [OF rot m1] active
      have "rotated (pending = HardFailure) g (r2, m2, w2)" by simp
      then show ?thesis
        using assms(1) Some active rot
        by (cases r2; cases pending)
          (auto simp: try_rotate_active_lease_if_needed_def Let_def rotated_def handed_def fenced_def split: if_splits)
    qed
  qed
  then show "fenced holder good owned m' w'"
    and "r = Inr (Some l) \<Longrightarrow> (\<exists>g. active_lease m' = Some g \<and> l = leased_account g) \<and>
      (pending_rotation m = Some HardFailure \<longrightarrow> active_lease m = Some g0 \<longrightarrow> lease_account_id l \<noteq> grant_account_id g0)"
    by blast+
qed

lemma lose_fenced: "fenced holder good owned m w \<Longrightarrow> fenced holder good owned (lose_lease m) w"
  by (simp add: fenced_def)

lemma record_fenced:
  "fenced holder good owned m w \<Longrightarrow> active_lease m = Some g \<Longrightarrow> lease_key_of l = grant_key g \<Longrightarrow>
     fenced holder good owned (m\<lparr>active_lease := Some (with_record g l)\<rparr>) w"
  by (simp add: fenced_def with_record_def)

lemma renewed_fenced:
  assumes "fenced holder good owned m w" and "active_lease m = Some g"
    and "renew_lease be (grant_key g) now w = (r, w')"
  shows "fenced holder good owned m w'"
    and "r = Inr (Renewed l) \<Longrightarrow> fenced holder good owned (m\<lparr>active_lease := Some (with_record g l)\<rparr>) w'"
proof -
  note renewed = renew_keeps [OF fenced_good(1) [OF assms(1)] assms(3)]
  then show keep: "fenced holder good owned m w'" using fenced_keeps assms(1) by blast
  show "fenced holder good owned (m\<lparr>active_lease := Some (with_record g l)\<rparr>) w'" if "r = Inr (Renewed l)"
    using record_fenced [OF keep assms(2)] renewed that by simp
qed

lemma try_renew_fenced:
  assumes "try_renew_active_lease_if_needed be now m w = Some (r, m', w')" and "fenced holder good owned m w"
  shows "fenced holder good owned m' w'"
    and "r = Inr (NotNeeded g') \<or> r = Inr (RenewedGrant g') \<Longrightarrow> active_lease m' = Some g'"
    and "r = Inr (MissingIn pool) \<Longrightarrow> active_lease m' = None"
proof -
  have "fenced holder good owned m' w' \<and>
    (case r of Inr (NotNeeded g') \<Rightarrow> active_lease m' = Some g' | Inr (RenewedGrant g') \<Rightarrow> active_lease m' = Some g'
     | Inr (MissingIn pool) \<Rightarrow> active_lease m' = None | Inl e \<Rightarrow> True)"
  proof (cases "active_lease m")
    case None
    with assms show ?thesis by (auto simp: try_renew_active_lease_if_needed_def)
  next
    case (Some g)
    obtain margin where margin: "derived_pre_turn_safety_margin (mgr_config m) = Some margin"
      using assms(1) Some by (cases "derived_pre_turn_safety_margin (mgr_config m)")
        (auto simp: try_renew_active_lease_if_needed_def)
    obtain x w1 where renewed: "renew_lease be (grant_key g) now w = (x, w1)" by fastforce
    note f = renewed_fenced [OF assms(2) Some renewed]
    show ?thesis
    proof (cases "grant_remaining_ttl g now > margin")
      case True
      with assms Some margin show ?thesis by (auto simp: try_renew_active_lease_if_needed_def)
    next
      case False
      note body = assms(1) [unfolded try_renew_active_lease_if_needed_def Some option.case margin
          if_not_P [OF False] renewed prod.case]
      show ?thesis
      proof (cases x)
        case (Inl e)
        with body f(1) show ?thesis by auto
      next
        case (Inr y)
        with body f lose_fenced [OF f(1)] show ?thesis by (cases y) auto
      qed
    qed
  qed
  then show "fenced holder good owned m' w'"
    and "r = Inr (NotNeeded g') \<or> r = Inr (RenewedGrant g') \<Longrightarrow> active_lease m' = Some g'"
    and "r = Inr (MissingIn pool) \<Longrightarrow> active_lease m' = None" by auto
qed

lemma rehydrate_fenced:
  assumes "try_rehydrate_holder_lease be m w = (r, m', w')" and "fenced holder good owned m w" and "active_lease m = None"
  shows "fenced holder good owned m' w'"
    and "r = Inr (Some l) \<Longrightarrow> \<exists>g. active_lease m' = Some g \<and> l = leased_account g"
    and "r = Inr None \<Longrightarrow> active_lease m' = None"
proof -
  obtain x w1 where x: "read_active_holder_lease be (holder_id m) w = (x, w1)" by fastforce
  note got = read_holder [OF fenced_good(1) [OF assms(2)] x [unfolded fenced_good(2) [OF assms(2)]]]
  have f: "fenced holder good owned m w1" using got fenced_keeps [OF assms(2)] by blast
  have "fenced holder good owned m' w' \<and>
    (\<forall>l. r = Inr (Some l) \<longrightarrow> (\<exists>g. active_lease m' = Some g \<and> l = leased_account g)) \<and>
    (r = Inr None \<longrightarrow> active_lease m' = None)"
  proof (cases "\<exists>g. x = Inr (Some g)")
    case False
    with assms(1,3) x f show ?thesis by (auto simp: try_rehydrate_holder_lease_def split: sum.splits option.splits)
  next
    case True
    then obtain g where g: "x = Inr (Some g)" by blast
    obtain y m2 w2 where y: "adopt_active_grant be m g w1 = (y, m2, w2)" by (metis prod_cases3)
    from got g have "owned w1 \<subseteq> {grant_key g}" by simp
    note adopted = adopt_fenced [OF y fenced_good(1) [OF f] this fenced_good(2) [OF f] assms(3)]
    show ?thesis using assms(1) x g y adopted by (cases y) (auto simp: try_rehydrate_holder_lease_def)
  qed
  then show "fenced holder good owned m' w'"
    and "r = Inr (Some l) \<Longrightarrow> \<exists>g. active_lease m' = Some g \<and> l = leased_account g"
    and "r = Inr None \<Longrightarrow> active_lease m' = None" by auto
qed

text \<open>A lease for the turn is the one that is held; otherwise none is.\<close>

definition turn_fenced :: "ustring + turn_lease \<Rightarrow> account_manager \<Rightarrow> 'w \<Rightarrow> bool" where
  "turn_fenced r m' w' \<longleftrightarrow>
     fenced holder good owned m' w' \<and>
     (case r of
        Inl _ \<Rightarrow> True
      | Inr (Held l) \<Rightarrow> \<exists>g. active_lease m' = Some g \<and> l = leased_account g
      | Inr _ \<Rightarrow> active_lease m' = None)"

lemma rotate_settles:
  "try_rotate_active_lease_if_needed be now m w = Some (r, m', w') \<Longrightarrow> pending_rotation m = Some k \<Longrightarrow>
     active_lease m = Some g \<Longrightarrow> r \<noteq> Inr None"
  by (auto simp: try_rotate_active_lease_if_needed_def Let_def split: option.splits prod.splits sum.splits)

lemma lease_for_turn_fenced:
  assumes "lease_for_turn be now m w = Some (r, m', w')" and "fenced holder good owned m w"
  shows "turn_fenced r m' w'"
    and "pending_rotation m = Some HardFailure \<Longrightarrow> active_lease m = Some g \<Longrightarrow>
      (\<exists>e. r = Inl e) \<or> (\<exists>l. r = Inr (Held l) \<and> lease_account_id l \<noteq> grant_account_id g)"
proof -
  obtain r1 m1 w1 where rot: "try_rotate_active_lease_if_needed be now m w = Some (r1, m1, w1)"
    using assms(1) by (cases "try_rotate_active_lease_if_needed be now m w") (auto simp: lease_for_turn_def)
  note f1 = rotate_fenced [OF rot assms(2)]
  note body = assms(1) [unfolded lease_for_turn_def rot option.case prod.case]
  show "(\<exists>e. r = Inl e) \<or> (\<exists>l. r = Inr (Held l) \<and> lease_account_id l \<noteq> grant_account_id g)"
    if "pending_rotation m = Some HardFailure" "active_lease m = Some g"
    using body rotate_settles [OF rot that] f1(2) that by (auto split: sum.splits option.splits)
  show "turn_fenced r m' w'"
  proof (cases "r1 = Inr None")
    case False
    with body f1 show ?thesis by (auto simp: turn_fenced_def split: sum.splits option.splits)
  next
    case kept: True
    show ?thesis
    proof (cases "active_lease m1")
      case None
      obtain r2 m2 w2 where re: "try_rehydrate_holder_lease be m1 w1 = (r2, m2, w2)" by (metis prod_cases3)
      from body kept None re rehydrate_fenced [OF re f1(1) None] show ?thesis
        by (auto simp: turn_fenced_def split: sum.splits option.splits)
    next
      case (Some g)
      let ?m2 = "m1\<lparr>proactive_switch_state := snd (revalidate_before_turn (proactive_switch_state m1) now)\<rparr>"
      obtain r3 m3 w3 where re: "try_renew_active_lease_if_needed be now ?m2 w1 = Some (r3, m3, w3)"
        using body kept Some by (cases "try_renew_active_lease_if_needed be now ?m2 w1") (auto simp: Let_def)
      have m2: "fenced holder good owned ?m2 w1" using f1(1) by (simp add: fenced_def)
      note f3 = try_renew_fenced [OF re m2]
      show ?thesis
      proof (cases r3)
        case (Inl e)
        with body kept Some re f3(1) show ?thesis by (auto simp: turn_fenced_def Let_def)
      next
        case (Inr d)
        with body kept Some re f3 show ?thesis by (cases d) (auto simp: turn_fenced_def Let_def)
      qed
    qed
  qed
qed

lemma startup_status_keeps:
  assumes "good w" and "backend_startup_status be configured w = (r, w')"
  shows "keeps good owned w w'"
proof -
  obtain x w1 where x: "read_startup_selection be w = (x, w1)" by fastforce
  obtain y w2 where y: "read_startup_pool_inventory be w1 = (y, w2)" by fastforce
  have k1: "keeps good owned w w1" using startup_keeps [OF assms(1)] x by simp
  have k2: "keeps good owned w w2" using keeps_trans [OF k1 inventory_keeps [OF keepsD(1) [OF k1]]] y by simp
  have k3: "keeps good owned w (snd (read_startup_selection_facts be pool w2))" for pool
    by (rule keeps_trans [OF k2 facts_keep [OF keepsD(1) [OF k2]]])
  show ?thesis
    using assms(2) x y k1 k2 k3
    by (auto simp: backend_startup_status_def split: sum.splits option.splits)
qed

lemma resolve_pool_keeps: "good w \<Longrightarrow> resolve_pool_id be m requested w = (r, w') \<Longrightarrow> keeps good owned w w'"
  by (auto simp: resolve_pool_id_def keeps_refl split: option.splits prod.splits sum.splits dest: startup_status_keeps)

lemma acquire_for_turn_handed:
  assumes "acquire_for_turn be req m w = Some res" and "fenced holder good owned m w" and "active_lease m = None"
  shows "handed res"
proof -
  obtain x m' w' where x: "acquire_selected_lease be req m w = Some (x, m', w')"
    and "res = (map_sum lease_error_text id x, m', w')" using assms(1) by (auto simp: acquire_for_turn_def)
  with acquire_selected_handed [OF x assms(2,3)] show ?thesis by (simp add: handed_text)
qed

lemma ensure_handed:
  assumes "ensure_active_lease be req m w = Some res" and "fenced holder good owned m w"
  shows "handed res"
    and "pending_rotation m = Some HardFailure \<Longrightarrow> active_lease m = Some g \<Longrightarrow> fst res = Inr l \<Longrightarrow>
      lease_account_id l \<noteq> grant_account_id g"
proof -
  obtain now w0 where now: "request_now be req w = (now, w0)" by fastforce
  obtain r1 m1 w1 where turn: "lease_for_turn be now m w0 = Some (r1, m1, w1)"
    using assms(1) now by (cases "lease_for_turn be now m w0") (auto simp: ensure_active_lease_def)
  from now_fenced [OF assms(2) now] have f0: "fenced holder good owned m w0" by blast
  note f1 = lease_for_turn_fenced [OF turn f0]
  note body = assms(1) [unfolded ensure_active_lease_def now prod.case turn option.case]
  show "lease_account_id l \<noteq> grant_account_id g"
    if "pending_rotation m = Some HardFailure" "active_lease m = Some g" "fst res = Inr l"
    using f1(2) [OF that(1,2)] body that(3) by auto
  show "handed res"
  proof (cases r1)
    case (Inl e)
    with body f1(1) show ?thesis by (auto simp: turn_fenced_def)
  next
    case (Inr t)
    show ?thesis
    proof (cases t)
      case (Held l)
      with body Inr f1(1) show ?thesis by (auto simp: turn_fenced_def handed_def)
    next
      case (LostIn pool)
      with body Inr have "acquire_for_turn be (req\<lparr>req_now := Some now, req_pool_id := Some pool\<rparr>) m1 w1 = Some res" by simp
      from acquire_for_turn_handed [OF this] f1(1) Inr LostIn show ?thesis by (simp add: turn_fenced_def)
    next
      case NoLease
      obtain y w2 where y: "resolve_pool_id be m1 (req_pool_id req) w1 = (y, w2)" by fastforce
      have m1: "fenced holder good owned m1 w2 \<and> active_lease m1 = None"
        using f1(1) Inr NoLease resolve_pool_keeps [OF fenced_good(1) y] fenced_keeps by (auto simp: turn_fenced_def)
      show ?thesis
      proof (cases y)
        case (Inl e)
        with body Inr NoLease y m1 show ?thesis by auto
      next
        case pool: (Inr pool)
        with body Inr NoLease y have "acquire_for_turn be (req\<lparr>req_pool_id := Some pool\<rparr>) m1 w2 = Some res" by simp
        from acquire_for_turn_handed [OF this] m1 show ?thesis by simp
      qed
    qed
  qed
qed

lemma renew_if_needed_handed:
  assumes "renew_active_lease_if_needed be now m w = Some res" and "fenced holder good owned m w"
  shows "handed res"
proof -
  obtain r1 m1 w1 where turn: "lease_for_turn be now m w = Some (r1, m1, w1)"
    using assms(1) by (cases "lease_for_turn be now m w") (auto simp: renew_active_lease_if_needed_def)
  note f1 = lease_for_turn_fenced(1) [OF turn assms(2)]
  note body = assms(1) [unfolded renew_active_lease_if_needed_def Let_def turn option.case prod.case]
  show ?thesis
  proof (cases r1)
    case (Inl e)
    with body f1 show ?thesis by (auto simp: turn_fenced_def)
  next
    case (Inr t)
    show ?thesis
    proof (cases t)
      case (Held l)
      with body Inr f1 show ?thesis by (auto simp: turn_fenced_def handed_def)
    next
      case (LostIn pool)
      with body Inr f1 show ?thesis by (auto simp: turn_fenced_def intro: acquire_for_turn_handed)
    next
      case NoLease
      obtain y w2 where y: "resolve_pool_id be m1 (default_pool_id (mgr_config m1)) w1 = (y, w2)" by fastforce
      have m1: "fenced holder good owned m1 w2 \<and> active_lease m1 = None"
        using f1 Inr NoLease resolve_pool_keeps [OF fenced_good(1) y] fenced_keeps by (auto simp: turn_fenced_def)
      with body Inr NoLease y show ?thesis by (cases y) (auto intro: acquire_for_turn_handed)
    qed
  qed
qed

section \<open>Any operation\<close>

lemma heartbeat_fenced:
  assumes "heartbeat_active_lease be now m w = (r, m', w')" and "fenced holder good owned m w"
  shows "fenced holder good owned m' w'"
proof (cases "active_lease m")
  case (Some g)
  obtain x w1 where x: "renew_lease be (grant_key g) now w = (x, w1)" by fastforce
  note f = renewed_fenced [OF assms(2) Some x]
  from assms(1) Some x f lose_fenced [OF f(1)] show ?thesis
    by (auto simp: heartbeat_active_lease_def split: sum.splits lease_renewal.splits)
qed (use assms in \<open>simp add: heartbeat_active_lease_def\<close>)

lemma release_fenced:
  assumes "release_active_lease be m w = (r, m', w')" and "fenced holder good owned m w"
  shows "fenced holder good owned m' w'"
proof -
  obtain now w1 where now: "utc_now be w = (now, w1)" by fastforce
  obtain x m2 w2 where rel: "release_active_lease_at be m now w1 = (x, m2, w2)" by (metis prod_cases3)
  from clock_keeps [OF fenced_good(1) [OF assms(2)] now] have "fenced holder good owned m w1"
    by (rule fenced_keeps [OF assms(2)])
  from release_at_fenced(1) [OF rel this] assms(1) now rel show ?thesis
    by (cases x) (auto simp: release_active_lease_def fenced_def)
qed

lemma report_failure_fenced:
  assumes "report_failure be key event m w = (r, m', w')" and "fenced holder good owned m w"
    and "\<And>ev w1. event w = (ev, w1) \<Longrightarrow> keeps good owned w w1"
  shows "fenced holder good owned m' w'"
proof (cases "active_lease m")
  case None
  with assms show ?thesis by (simp add: report_failure_def)
next
  case (Some g)
  obtain ev w1 where ev: "event w = (ev, w1)" by fastforce
  let ?ev = "into_account_health_event ev (leased_account g) (next_health_event_sequence m + 1)"
  obtain x w2 where x: "record_health_event be ?ev w1 = (x, w2)" by fastforce
  have "keeps good owned w w2"
    using keeps_trans [OF assms(3) [OF ev] health_keeps [OF _ x]] keepsD(1) [OF assms(3) [OF ev]] by blast
  then have "fenced holder good owned m w2" by (rule fenced_keeps [OF assms(2)])
  then show ?thesis
    using assms(1,2) Some ev x
    by (auto simp: report_failure_def Let_def fenced_def split: if_splits sum.splits)
qed

lemma bootstrap_fenced:
  assumes "bootstrap_from_legacy_auth be m w = (r, m', w')" and "fenced holder good owned m w"
  shows "fenced holder good owned m' w'"
proof -
  obtain x w1 where x: "read_startup_selection be w = (x, w1)" by fastforce
  obtain y w2 where y: "current_legacy_auth be w1 = (y, w2)" by fastforce
  have k1: "keeps good owned w w1" using startup_keeps [OF fenced_good(1) [OF assms(2)]] x by simp
  have k2: "keeps good owned w w2" using keeps_trans [OF k1 legacy_keeps [OF keepsD(1) [OF k1]]] y by simp
  from assms x y fenced_keeps [OF assms(2) k1] fenced_keeps [OF assms(2) k2] show ?thesis
    by (auto simp: bootstrap_from_legacy_auth_def fenced_def split: if_splits sum.splits)
qed

lemma handed_fenced: "handed (r, m, w) \<Longrightarrow> fenced holder good owned m w"
  by (simp add: handed_def)

lemma manager_step_fenced:
  assumes "manager_step be env (m, w) (m', w')" and "fenced holder good owned m w"
  shows "fenced holder good owned m' w'"
  using assms(1)
proof cases
  case environment
  then show ?thesis using fenced_keeps [OF assms(2) others_keep [OF fenced_good(1) [OF assms(2)]]] by blast
next
  case (bootstrap r)
  with assms(2) show ?thesis by (blast intro: bootstrap_fenced)
next
  case (ensure req r)
  with assms(2) show ?thesis by (blast intro: handed_fenced ensure_handed(1))
next
  case (renew_if_needed now r)
  with assms(2) show ?thesis by (blast intro: handed_fenced renew_if_needed_handed)
next
  case (heartbeat now r)
  with assms(2) show ?thesis by (blast intro: heartbeat_fenced)
next
  case (release r)
  with assms(2) show ?thesis by (blast intro: release_fenced)
next
  case (rate_limits key snapshot d)
  then have "holder_id m' = holder_id m \<and> active_lease m' = active_lease m \<and> w' = w"
    by (auto simp: report_rate_limits_def split: option.splits if_splits prod.splits)
  with assms(2) show ?thesis by (simp add: fenced_def)
next
  case (usage_limit key observed r)
  show ?thesis
    by (rule report_failure_fenced [OF usage_limit [unfolded report_usage_limit_reached_def] assms(2)])
      (use fenced_good(1) [OF assms(2)] in \<open>auto simp: keeps_refl\<close>)
next
  case (unauthorized key r)
  show ?thesis
    by (rule report_failure_fenced [OF unauthorized [unfolded report_unauthorized_def] assms(2)])
      (use clock_keeps fenced_good(1) [OF assms(2)] in \<open>metis (no_types) apfst_conv old.prod.exhaust prod.inject\<close>)
qed

lemma manager_run_fenced:
  "manager_run be env s t \<Longrightarrow> fenced holder good owned (fst s) (snd s) \<Longrightarrow> fenced holder good owned (fst t) (snd t)"
proof (induction rule: manager_run.induct)
  case (step s t u)
  then show ?case using manager_step_fenced [of "fst t" "snd t" "fst u" "snd u"] by simp
qed

end

end
