(* ===== verification/AccountBackend.thy ===== *)
theory AccountBackend
  imports AccountManager AccountLeases
begin

text \<open>
  The backend over the local database (\<open>account-pool/src/backend/local/{mod,execution}.rs\<close>) with
  the credentials kept beside it (\<open>login/src/auth/lease_scoped_session.rs\<close>). The world is the
  database, the credential directories and a script of what each call meets: the clock, the
  identifier that is drawn, the faults of the database and of the disk, and what the other
  processes did to the database since the call before. Every call of the runtime and every
  access to a marker file is one entry of the script, so that others may act between any two.
\<close>

section \<open>The world\<close>

text \<open>
  A credential directory: the marker with the epoch of the lease it was written for, and the
  account of the stored credentials, if there are any and they name one.
\<close>

record auth_namespace =
  epoch_marker :: "64 word option"
  stored_auth :: "ustring option option"

record backend_call =
  call_io :: db_outcomes
  call_attempts :: "nat \<Rightarrow> db_outcomes \<times> instant"
  call_clock :: instant
  call_later :: instant
  call_lease_id :: ustring
  call_disk :: "ustring option"
  call_interference :: "account_db \<Rightarrow> account_db"

record local_world =
  pool_db :: account_db
  auth_homes :: "ustring \<Rightarrow> auth_namespace"
  script :: "nat \<Rightarrow> backend_call"
  calls_made :: nat

definition next_call :: "local_world \<Rightarrow> backend_call \<times> local_world" where
  "next_call w =
     (script w (calls_made w),
      w\<lparr>pool_db := call_interference (script w (calls_made w)) (pool_db w), calls_made := Suc (calls_made w)\<rparr>)"

text \<open>A call that reads the database, and one that may change it.\<close>

definition db_read :: "(backend_call \<Rightarrow> account_db \<Rightarrow> 'r) \<Rightarrow> local_world \<Rightarrow> (ustring + 'r) \<times> local_world" where
  "db_read f w =
     (case next_call w of (c, w1) \<Rightarrow>
        (case statement_fault (call_io c) of Some e \<Rightarrow> (Inl e, w1) | None \<Rightarrow> (Inr (f c (pool_db w1)), w1)))"

definition db_write :: "(backend_call \<Rightarrow> account_db \<Rightarrow> 'r \<times> account_db) \<Rightarrow> local_world \<Rightarrow> 'r \<times> local_world" where
  "db_write f w =
     (case next_call w of (c, w1) \<Rightarrow> (case f c (pool_db w1) of (r, db) \<Rightarrow> (r, w1\<lparr>pool_db := db\<rparr>)))"

section \<open>Credentials\<close>

definition write_lease_epoch_marker :: "ustring \<Rightarrow> 64 word \<Rightarrow> local_world \<Rightarrow> (ustring + unit) \<times> local_world" where
  "write_lease_epoch_marker handle epoch w =
     (case next_call w of (c, w1) \<Rightarrow>
        (case call_disk c of
           Some e \<Rightarrow> (Inl e, w1)
         | None \<Rightarrow> (Inr (), w1\<lparr>auth_homes := (auth_homes w1)
             (handle := (auth_homes w1 handle)\<lparr>epoch_marker := Some epoch\<rparr>)\<rparr>)))"

definition clear_lease_epoch_marker :: "ustring \<Rightarrow> local_world \<Rightarrow> (ustring + unit) \<times> local_world" where
  "clear_lease_epoch_marker handle w =
     (case next_call w of (c, w1) \<Rightarrow>
        (case call_disk c of
           Some e \<Rightarrow> (Inl e, w1)
         | None \<Rightarrow> (Inr (), w1\<lparr>auth_homes := (auth_homes w1)
             (handle := (auth_homes w1 handle)\<lparr>epoch_marker := None\<rparr>)\<rparr>)))"

definition load_bound_auth :: "lease_auth_binding \<Rightarrow> auth_namespace \<Rightarrow> ustring + ustring" where
  "load_bound_auth b home =
     (case stored_auth home of
        None \<Rightarrow> Inl (lit ''missing pooled auth for backend account '' @ bound_account_handle b)
      | Some account \<Rightarrow>
          (case epoch_marker home of
             None \<Rightarrow> Inl (lit ''No such file or directory (os error 2)'')
           | Some epoch \<Rightarrow>
               if epoch \<noteq> bound_lease_epoch b
               then Inl (lit ''pooled auth lease epoch mismatch for backend account '' @ bound_account_handle b)
               else (case account of
                       None \<Rightarrow> Inl (lit ''pooled auth is missing an account id'')
                     | Some a \<Rightarrow>
                         if a \<noteq> bound_account_id b
                         then Inl (lit ''pooled auth rebinding detected for backend account '' @ bound_account_handle b)
                         else Inr a)))"

definition ensure_current :: "lease_auth_binding \<Rightarrow> local_world \<Rightarrow> (ustring + unit) \<times> local_world" where
  "ensure_current b w =
     (case next_call w of (c, w1) \<Rightarrow>
        (case call_disk c of
           Some e \<Rightarrow> (Inl e, w1)
         | None \<Rightarrow> (map_sum id (\<lambda>_. ()) (load_bound_auth b (auth_homes w1 (bound_account_handle b))), w1)))"

section \<open>Planning\<close>

definition account_kind_of :: "registered_account \<Rightarrow> account_kind" where
  "account_kind_of r = (if account_kind_text r = lit ''chatgpt'' then ChatGpt else ManualOnly)"

definition resolve_selection_family :: "selection_request \<Rightarrow> local_world \<Rightarrow> (ustring + ustring) \<times> local_world" where
  "resolve_selection_family req w =
     (case req_selection_family req of
        Some family \<Rightarrow> (Inr family, w)
      | None \<Rightarrow>
          if intent req = Startup then (Inr (lit ''codex''), w)
          else (case current_account_id req of
                  None \<Rightarrow> (Inr (lit ''codex''), w)
                | Some a \<Rightarrow>
                    apfst (map_sum id (\<lambda>found. case found of
                        Some r \<Rightarrow> normalized_selection_family (backend_family r) | None \<Rightarrow> lit ''codex''))
                      (db_read (\<lambda>_ db. read_registered_account db a) w)))"

type_synonym candidate_row =
  "registered_account \<times> account_health_state option \<times> lease_record option \<times> int"

definition candidate_record ::
  "ustring \<Rightarrow> candidate_row \<Rightarrow> quota_state option \<Rightarrow> quota_state option \<Rightarrow> account_record" where
  "candidate_record holder row selection fallback =
     (case row of (r, health, lease, pos) \<Rightarrow>
        \<lparr>account_id = reg_account_id r, healthy = reg_healthy r, acct_kind = account_kind_of r,
         enabled = reg_enabled r, selector_auth_eligible = (health \<noteq> Some Unauthorized),
         pool_position = nat pos,
         leased_to_other_holder = (case lease of Some l \<Rightarrow> holder_instance_id l \<noteq> holder | None \<Rightarrow> False),
         quota = \<lparr>selection_quota = selection, codex_fallback = fallback\<rparr>\<rparr>)"

text \<open>The loop over the rows, which reads the quota of each.\<close>

fun load_candidates ::
  "ustring \<Rightarrow> ustring \<Rightarrow> candidate_row list \<Rightarrow> local_world \<Rightarrow> (ustring + account_record list) \<times> local_world" where
  "load_candidates holder family [] w = (Inr [], w)"
| "load_candidates holder family (row # rows) w =
     (let a = reg_account_id (fst row)
      in case db_read (\<lambda>_ db. read_account_quota_state db a family) w of
           (Inl e, w1) \<Rightarrow> (Inl e, w1)
         | (Inr selection, w1) \<Rightarrow>
             (case (if family = lit ''codex'' \<or> selection \<noteq> None then (Inr None, w1)
                    else db_read (\<lambda>_ db. read_account_quota_state db a (lit ''codex'')) w1) of
                (Inl e, w2) \<Rightarrow> (Inl e, w2)
              | (Inr fallback, w2) \<Rightarrow>
                  apfst (map_sum id (Cons (candidate_record holder row selection fallback)))
                    (load_candidates holder family rows w2)))"

definition load_runtime_selection_candidates ::
  "ustring \<Rightarrow> ustring \<Rightarrow> ustring \<Rightarrow> local_world \<Rightarrow> (ustring + account_record list) \<times> local_world" where
  "load_runtime_selection_candidates pool holder family w =
     (case db_read (\<lambda>c db. read_account_lease_selection_candidates db pool (call_clock c)) w of
        (Inl e, w1) \<Rightarrow> (Inl e, w1)
      | (Inr rows, w1) \<Rightarrow> load_candidates holder family rows w1)"

text \<open>The clock that the plan reads when the request does not set the time.\<close>

definition local_plan_runtime_selection ::
  "selection_request \<Rightarrow> ustring \<Rightarrow> local_world \<Rightarrow> (ustring + ustring \<times> selection_plan) \<times> local_world" where
  "local_plan_runtime_selection req holder w =
     (case req_pool_id req of
        None \<Rightarrow> (Inl (lit ''runtime selection requires pool_id''), w)
      | Some pool \<Rightarrow>
          (case resolve_selection_family req w of
             (Inl e, w1) \<Rightarrow> (Inl e, w1)
           | (Inr family, w1) \<Rightarrow>
               (case load_runtime_selection_candidates pool holder family w1 of
                  (Inl e, w2) \<Rightarrow> (Inl e, w2)
                | (Inr candidates, w2) \<Rightarrow>
                    (Inr (family, run_plan (call_clock (script w2 (calls_made w2)))
                        (foldl with_candidate
                          (build_selection_plan (req\<lparr>req_selection_family := Some family\<rparr>)) candidates)), w2))))"

section \<open>Leases\<close>

definition release_failed_acquisition :: "lease_record \<Rightarrow> ustring option \<Rightarrow> local_world \<Rightarrow> local_world" where
  "release_failed_acquisition l handle w =
     (let w1 = (case handle of Some h \<Rightarrow> snd (clear_lease_epoch_marker h w) | None \<Rightarrow> w)
      in snd (db_write (\<lambda>c db. release_account_lease (call_io c) db (lease_key_of l) (call_clock c)) w1))"

definition grant_for_lease_record :: "lease_record \<Rightarrow> local_world \<Rightarrow> (lease_error + lease_grant) \<times> local_world" where
  "grant_for_lease_record l w =
     (case db_read (\<lambda>_ db. read_registered_account db (lease_account_id l)) w of
        (Inl e, w1) \<Rightarrow> (Inl (Storage e), release_failed_acquisition l None w1)
      | (Inr None, w1) \<Rightarrow>
          (Inl (Storage (lit ''registered account missing for acquired lease'')),
           release_failed_acquisition l None w1)
      | (Inr (Some r), w1) \<Rightarrow>
          (let binding = \<lparr>bound_account_id = lease_account_id l, bound_account_handle = backend_account_handle r,
                 bound_lease_epoch = word_of_int (lease_epoch l)\<rparr>
           in case write_lease_epoch_marker (backend_account_handle r) (bound_lease_epoch binding) w1 of
                (Inl e, w2) \<Rightarrow>
                  (Inl (Storage e), release_failed_acquisition l (Some (backend_account_handle r)) w2)
              | (Inr _, w2) \<Rightarrow> (Inr (grant_from_record l binding None), w2)))"

definition granted :: "(lease_error + lease_record) \<times> local_world \<Rightarrow> (lease_error + lease_grant) \<times> local_world" where
  "granted acquired =
     (case acquired of (Inl e, w) \<Rightarrow> (Inl e, w) | (Inr l, w) \<Rightarrow> grant_for_lease_record l w)"

definition local_acquire_lease_excluding ::
  "time_span \<Rightarrow> ustring \<Rightarrow> ustring \<Rightarrow> ustring list \<Rightarrow> local_world \<Rightarrow> (lease_error + lease_grant) \<times> local_world" where
  "local_acquire_lease_excluding ttl pool holder excluded w =
     granted (db_write (\<lambda>c db. acquire_account_lease_excluding (call_io c) (call_clock c) (call_later c)
       (call_lease_id c) db pool holder ttl excluded) w)"

definition local_acquire_preferred_lease ::
  "time_span \<Rightarrow> ustring \<Rightarrow> ustring \<Rightarrow> ustring \<Rightarrow> ustring \<Rightarrow> local_world \<Rightarrow> (lease_error + lease_grant) \<times> local_world" where
  "local_acquire_preferred_lease ttl pool a family holder w =
     granted (db_write (\<lambda>c db. acquire_preferred_account_lease (call_io c) (call_clock c) (call_later c)
       (call_lease_id c) db pool a family holder ttl) w)"

definition local_acquire_probe_lease ::
  "time_span \<Rightarrow> ustring \<Rightarrow> ustring \<Rightarrow> probe_reservation \<Rightarrow> ustring \<Rightarrow> local_world
   \<Rightarrow> (lease_error + lease_grant) \<times> local_world" where
  "local_acquire_probe_lease ttl pool a reservation holder w =
     granted (db_write (\<lambda>c db. acquire_quota_probe_account_lease (call_io c) (call_clock c) (call_later c)
       (call_lease_id c) db pool a (reservation_limit_id reservation) (reservation_until reservation) holder ttl) w)"

definition local_read_active_holder_lease :: "ustring \<Rightarrow> local_world \<Rightarrow> (ustring + lease_grant option) \<times> local_world" where
  "local_read_active_holder_lease holder w =
     (case db_read (\<lambda>c db. load_active_holder_lease db holder (call_clock c)) w of
        (Inl e, w1) \<Rightarrow> (Inl e, w1)
      | (Inr None, w1) \<Rightarrow> (Inr None, w1)
      | (Inr (Some l), w1) \<Rightarrow>
          apfst (map_sum (\<lambda>e. lit ''failed to rehydrate active holder lease '' @ holder @ lit '': '' @ lease_error_text e) Some)
            (grant_for_lease_record l w1))"

definition local_renew_lease ::
  "time_span \<Rightarrow> lease_key \<Rightarrow> instant \<Rightarrow> local_world \<Rightarrow> (ustring + lease_renewal) \<times> local_world" where
  "local_renew_lease ttl key now w = db_write (\<lambda>c db. renew_account_lease (call_io c) db key now ttl) w"

definition local_release_lease :: "lease_key \<Rightarrow> instant \<Rightarrow> local_world \<Rightarrow> (ustring + bool) \<times> local_world" where
  "local_release_lease key now w =
     (case db_write (\<lambda>c db. release_account_lease (call_io c) db key now) w of
        (Inl e, w1) \<Rightarrow> (Inl e, w1)
      | (Inr False, w1) \<Rightarrow> (Inr False, w1)
      | (Inr True, w1) \<Rightarrow>
          (case db_read (\<lambda>_ db. read_registered_account db (key_account_id key)) w1 of
             (Inl e, w2) \<Rightarrow> (Inl e, w2)
           | (Inr None, w2) \<Rightarrow> (Inr True, w2)
           | (Inr (Some r), w2) \<Rightarrow>
               apfst (map_sum id (\<lambda>_. True)) (clear_lease_epoch_marker (backend_account_handle r) w2)))"

section \<open>Probes\<close>

definition local_reserve_quota_probe ::
  "ustring \<Rightarrow> ustring \<Rightarrow> instant \<Rightarrow> time_span \<Rightarrow> local_world \<Rightarrow> (ustring + probe_reservation option) \<times> local_world" where
  "local_reserve_quota_probe a family now reserved_for w =
     (case db_read (\<lambda>_ db. read_selection_quota_state db a family) w of
        (Inl e, w1) \<Rightarrow> (Inl e, w1)
      | (Inr None, w1) \<Rightarrow> (Inr None, w1)
      | (Inr (Some q), w1) \<Rightarrow>
          apfst (map_sum id (\<lambda>reserved. if reserved
              then Some \<lparr>reservation_limit_id = limit_id q, reservation_until = now + reserved_for\<rparr> else None))
            (db_write (\<lambda>c db. reserve_account_quota_probe (call_io c) (call_clock c) db a (limit_id q) now
                (now + reserved_for)) w1))"

definition record_probe_refresh ::
  "ustring \<Rightarrow> quota_state \<Rightarrow> instant \<Rightarrow> instant \<Rightarrow> local_world \<Rightarrow> (ustring + probe_outcome option) \<times> local_world" where
  "record_probe_refresh a q observed reserved_until w =
     (let ob = \<lparr>probe_observed_at = observed, probe_reserved_until = reserved_until\<rparr>
      in if \<not> is_exhausted (exhausted_windows q) then
           apfst (map_sum id (\<lambda>recorded. if recorded then Some ProbeOk else None))
             (db_write (\<lambda>c db. record_account_quota_probe_success (call_io c) (call_clock c) db a (limit_id q) ob) w)
         else
           apfst (map_sum id (\<lambda>recorded. if recorded then Some StillBlocked else None))
             (db_write (\<lambda>c db. record_account_quota_probe_still_blocked (call_io c) (call_clock c) db a (limit_id q) ob
                (exhausted_windows q) (predicted_blocked_until q) (observed + 30 * nanos_per_sec)) w))"

text \<open>\<open>observed_at\<close> is the clock of the first call.\<close>

definition local_refresh_quota_probe ::
  "lease_grant \<Rightarrow> probe_reservation \<Rightarrow> local_world \<Rightarrow> (ustring + probe_outcome option) \<times> local_world" where
  "local_refresh_quota_probe g reservation w =
     (let observed = call_clock (script w (calls_made w)); a = grant_account_id g;
          backoff_until = observed + 30 * nanos_per_sec
      in case db_read (\<lambda>_ db. read_account_quota_state db a (reservation_limit_id reservation)) w of
           (Inl e, w1) \<Rightarrow> (Inl e, w1)
         | (Inr found, w1) \<Rightarrow>
             (case ensure_current (grant_session g) w1 of
                (Inl _, w2) \<Rightarrow>
                  (case found of
                     None \<Rightarrow> (Inr None, w2)
                   | Some q \<Rightarrow>
                       apfst (map_sum id (\<lambda>recorded. if recorded then Some Ambiguous else None))
                         (db_write (\<lambda>c db. record_account_quota_probe_ambiguous (call_io c) (call_clock c) db a
                            (limit_id q) \<lparr>probe_observed_at = observed,
                              probe_reserved_until = reservation_until reservation\<rparr>
                            backoff_until backoff_until) w2))
              | (Inr _, w2) \<Rightarrow>
                  (case found of
                     None \<Rightarrow> (Inr None, w2)
                   | Some q \<Rightarrow> record_probe_refresh a q observed (reservation_until reservation) w2)))"

section \<open>The backend\<close>

definition local_record_health_event :: "account_health_event \<Rightarrow> local_world \<Rightarrow> (ustring + unit) \<times> local_world" where
  "local_record_health_event ev w =
     db_write (\<lambda>c db. record_account_health_event (fst \<circ> call_attempts c) (snd \<circ> call_attempts c) db ev) w"

definition local_utc_now :: "local_world \<Rightarrow> instant \<times> local_world" where
  "local_utc_now w = apfst call_clock (next_call w)"

text \<open>\<open>legacy_auth\<close> is the snapshot of a legacy account, which the caller supplies.\<close>

definition local_backend ::
  "time_span \<Rightarrow> (local_world \<Rightarrow> ustring + ustring option) \<Rightarrow> local_world execution_backend" where
  "local_backend ttl legacy_auth =
     \<lparr>plan_runtime_selection = local_plan_runtime_selection,
      acquire_preferred_lease = local_acquire_preferred_lease ttl,
      acquire_probe_lease = local_acquire_probe_lease ttl,
      read_active_holder_lease = local_read_active_holder_lease,
      reserve_quota_probe = local_reserve_quota_probe,
      refresh_quota_probe = local_refresh_quota_probe,
      renew_lease = local_renew_lease ttl,
      release_lease = local_release_lease,
      record_health_event = local_record_health_event,
      read_health_event_sequence = (\<lambda>a. db_read (\<lambda>_ db. read_account_health_event_sequence db a)),
      read_startup_selection = db_read (\<lambda>_. read_account_startup_selection),
      read_startup_pool_inventory = db_read (\<lambda>_. read_account_startup_inventory),
      read_startup_selection_facts = (\<lambda>pool. db_read (\<lambda>c db. local_startup_selection_facts db (call_clock c) pool)),
      current_legacy_auth = (\<lambda>w. (legacy_auth w, w)),
      utc_now = local_utc_now\<rparr>"

end
