(* ===== verification/AccountAuthority.thy ===== *)
theory AccountAuthority
  imports AccountFencing AccountBackend
begin

text \<open>
  The local backend keeps the contract of \<open>lease_authority\<close>, for a holder whose name no other
  process uses; hence what the contract gives the manager holds of the program: its lease is
  the only one of its holder, and a hard failure never ends on the account that failed.
\<close>

section \<open>The leases of a holder\<close>

definition holder_keys :: "ustring \<Rightarrow> account_db \<Rightarrow> lease_key set" where
  "holder_keys holder db = lease_key_of ` {l \<in> set (leases db). holder_instance_id l = holder \<and> unreleased l}"

text \<open>What may be done to the database without giving the holder a lease.\<close>

definition harmless :: "ustring \<Rightarrow> (account_db \<Rightarrow> account_db) \<Rightarrow> bool" where
  "harmless holder f \<longleftrightarrow>
     (\<forall>db. lease_table_ok (leases db) \<longrightarrow>
        lease_table_ok (leases (f db)) \<and> holder_keys holder (f db) \<subseteq> holder_keys holder db)"

lemma holder_keys_only:
  assumes "lease_table_ok (leases db)" and "k \<in> holder_keys holder db"
  shows "holder_keys holder db \<subseteq> {k}"
  using assms lease_table_ok_same [OF assms(1)] by (fastforce simp: holder_keys_def conflict_def)

lemma holder_keys_same: "leases db' = leases db \<Longrightarrow> holder_keys holder db' = holder_keys holder db"
  by (simp add: holder_keys_def)

lemma holder_keys_shrink: "shrinks_to db db' \<Longrightarrow> holder_keys holder db' \<subseteq> holder_keys holder db"
  by (auto simp: shrinks_to_def holder_keys_def lease_key_of_def lease_update_def)

lemma harmless_shrinks: "(\<And>db. shrinks_to db (f db)) \<Longrightarrow> harmless holder f"
  by (auto simp: harmless_def intro: shrinks_ok dest: holder_keys_shrink [THEN subsetD, rotated])

lemma harmless_leases: "(\<And>db. leases (f db) = leases db) \<Longrightarrow> harmless holder f"
  by (rule harmless_shrinks) (rule shrinks_same)

lemma harmless_id [simp]: "harmless holder (\<lambda>db. db)"
  by (simp add: harmless_def)

lemma active_holder_key:
  assumes "load_active_holder_lease db holder now = Some l"
  shows "lease_key_of l \<in> holder_keys holder db"
proof -
  obtain k ks where "sort_by newest_first (filter (\<lambda>l. holder_instance_id l = holder \<and> unreleased l \<and>
      expires_at l > timestamp now) (leases db)) = k # ks" and "l = lease_from_row k"
    using assms by (auto simp: load_active_holder_lease_def split: list.splits)
  then have "k \<in> set (leases db)" "holder_instance_id k = holder" "unreleased k" "lease_key_of l = lease_key_of k"
    by (auto dest!: sorted_member simp: lease_key_of_def lease_from_row_def)
  then show ?thesis by (auto simp: holder_keys_def)
qed

lemma expired_shrinks: "shrinks_to db (release_expired_account_leases db now)"
  using release_expired_map [of db now] shrinks_map by blast

lemma loaded_lease:
  "lease_table_ok (leases db) \<Longrightarrow> k \<in> set (leases db) \<Longrightarrow> load_lease db (lease_id k) = Some (lease_from_row k)"
proof -
  assume ok: "lease_table_ok (leases db)" and k: "k \<in> set (leases db)"
  then obtain l where l: "find (\<lambda>l. lease_id l = lease_id k) (leases db) = Some l"
    by (cases "find (\<lambda>l. lease_id l = lease_id k) (leases db)") (auto simp: find_None_iff)
  then have "l \<in> set (leases db)" "lease_id l = lease_id k" by (auto simp: find_Some_iff)
  with ok k have "l = k" unfolding lease_table_ok_def by (metis distinct_map inj_onD)
  with l show ?thesis by (simp add: load_lease_def)
qed

section \<open>Acquisition\<close>

lemma key_of_row [simp]: "lease_key_of (lease_from_row l) = lease_key_of l" "lease_account_id (lease_from_row l) = lease_account_id l"
  by (simp_all add: lease_key_of_def lease_from_row_def)

lemma insert_requested_effect:
  assumes "insert_requested_lease db1 (new_lease lid pool a holder now ttl) a c = Inr (Some db2)"
    and "lease_table_ok (leases db1)"
  shows "lease_table_ok (leases db2)"
    and "\<exists>k. leases db2 = leases db1 @ [k] \<and> lease_id k = lid \<and> lease_account_id k = a \<and> holder_instance_id k = holder \<and>
      unreleased k"
proof -
  let ?k = "lease_row_for db1 (new_lease lid pool a holder now ttl) a"
  have ins: "insert_lease_row db1 ?k = Inr db2"
    using assms(1) by (cases "insert_lease_row db1 ?k") (auto simp: insert_requested_lease_def split: if_splits)
  from insert_lease_row_ok [OF assms(2) this] show "lease_table_ok (leases db2)" .
  have "leases db2 = leases db1 @ [?k]" using ins by (simp add: insert_lease_row_Inr)
  then show "\<exists>k. leases db2 = leases db1 @ [k] \<and> lease_id k = lid \<and> lease_account_id k = a \<and>
      holder_instance_id k = holder \<and> unreleased k"
    by (intro exI [of _ ?k]) (simp add: lease_row_for_def new_lease_def unreleased_def)
qed

lemma acquire_requested_effect:
  assumes "acquire_requested_account_lease io now later lid db pool a holder ttl c = (res, db')"
    and ok: "lease_table_ok (leases db)"
  shows "lease_table_ok (leases db')"
    and "h \<noteq> holder \<Longrightarrow> holder_keys h db' \<subseteq> holder_keys h db"
    and "res = Inl e \<Longrightarrow> holder_keys holder db' \<subseteq> holder_keys holder db"
    and "res = Inr l \<Longrightarrow> lease_key_of l \<in> holder_keys holder db' \<and> (holder_keys holder db = {} \<longrightarrow> lease_account_id l = a)"
proof -
  let ?db1 = "release_expired_account_leases db now"
  let ?post = "lease_table_ok (leases db') \<and> (\<forall>h. h \<noteq> holder \<longrightarrow> holder_keys h db' \<subseteq> holder_keys h db) \<and>
    (case res of Inl _ \<Rightarrow> holder_keys holder db' \<subseteq> holder_keys holder db
     | Inr l \<Rightarrow> lease_key_of l \<in> holder_keys holder db' \<and> (holder_keys holder db = {} \<longrightarrow> lease_account_id l = a))"
  have ok1: "lease_table_ok (leases ?db1)" using ok by simp
  have sub1: "holder_keys h ?db1 \<subseteq> holder_keys h db" for h by (rule holder_keys_shrink [OF expired_shrinks])
  have same: ?post if "leases db' = leases db" "\<exists>e. res = Inl e"
    using that ok holder_keys_same [OF that(1)] by auto
  have held: ?post if "load_active_holder_lease d holder t = Some l" "res = Inr l" "leases db' = leases d" "d = db \<or> d = ?db1"
    for d t l
  proof -
    have key: "lease_key_of l \<in> holder_keys holder db'"
      using active_holder_key [OF that(1)] holder_keys_same [OF that(3)] by simp
    have "holder_keys h db' \<subseteq> holder_keys h db" for h
      using holder_keys_same [OF that(3)] sub1 that(4) by auto
    moreover have "lease_table_ok (leases db')" using that(3,4) ok ok1 by auto
    ultimately show ?thesis using key that(2) by auto
  qed
  have ?post
  proof (cases "statement_fault io")
    case (Some e)
    with assms(1) same show ?thesis by (auto simp: acquire_requested_account_lease_def)
  next
    case None
    note body = assms(1) [unfolded acquire_requested_account_lease_def None option.case Let_def]
    show ?thesis
    proof (cases "if is_selection_family c then load_active_holder_lease ?db1 holder now else None")
      case (Some l)
      with body held [of ?db1 now l] show ?thesis by (auto split: if_splits)
    next
      case free: None
      note body = body [unfolded free option.case]
      have refused: ?post if "(res, db') = refuse_requested io now db pool a holder c"
      proof (rule same)
        from that show "leases db' = leases db" by (metis refuse_leases(1) snd_conv)
        from that show "\<exists>e. res = Inl e" by (auto simp: refuse_requested_def split: option.splits)
      qed
      show ?thesis
      proof (cases "insert_requested_lease ?db1 (new_lease lid pool a holder now ttl) a c")
        case (Inl e)
        show ?thesis
        proof (cases "account_lease_is_contention_error e")
          case False
          with body Inl same show ?thesis by auto
        next
          case True
          show ?thesis
          proof (cases "if is_selection_family c then load_active_holder_lease db holder later else None")
            case None
            with body Inl True refused show ?thesis by auto
          next
            case (Some l)
            with body Inl True held [of db later l] show ?thesis by (auto split: if_splits)
          qed
        qed
      next
        case (Inr r)
        show ?thesis
        proof (cases r)
          case None
          with body Inr refused show ?thesis by auto
        next
          case (Some db2)
          from insert_requested_effect [OF Inr [unfolded Some] ok1] obtain k where ok2: "lease_table_ok (leases db2)"
            and k: "leases db2 = leases ?db1 @ [k]" "lease_id k = lid" "lease_account_id k = a"
              "holder_instance_id k = holder" "unreleased k" by blast
          from loaded_lease [OF ok2, of k] k(1,2) have "load_lease db2 lid = Some (lease_from_row k)" by simp
          with body Inr Some have res: "res = Inr (lease_from_row k)" and leases: "leases db' = leases db2"
            by (auto simp: finish_acquisition_def)
          have "holder_keys h db' \<subseteq> holder_keys h db" if "h \<noteq> holder" for h
            using sub1 [of h] k(4) that by (auto simp: holder_keys_def leases k(1))
          moreover have "lease_key_of k \<in> holder_keys holder db'"
            using k(4,5) by (auto simp: holder_keys_def leases k(1))
          ultimately show ?thesis using ok2 leases res k(3) by simp
        qed
      qed
    qed
  qed
  then show "lease_table_ok (leases db')" and "h \<noteq> holder \<Longrightarrow> holder_keys h db' \<subseteq> holder_keys h db"
    and "res = Inl e \<Longrightarrow> holder_keys holder db' \<subseteq> holder_keys holder db"
    and "res = Inr l \<Longrightarrow> lease_key_of l \<in> holder_keys holder db' \<and> (holder_keys holder db = {} \<longrightarrow> lease_account_id l = a)"
    by auto
qed

section \<open>Renewal and release\<close>

lemma key_matches_key: "key_matches key l \<longleftrightarrow> lease_key_of l = key \<and> unreleased l"
  by (cases key) (auto simp: key_matches_def lease_key_of_def)

lemma renew_effect:
  assumes "renew_account_lease io db key now ttl = (Inr (Renewed l), db')" and "lease_table_ok (leases db)"
  shows "lease_key_of l = key"
proof -
  define hit where "hit l \<longleftrightarrow> key_matches key l \<and> expires_at l > timestamp now" for l
  define f where "f l = (if hit l then l\<lparr>renewed_at := timestamp now, expires_at := timestamp (now + ttl)\<rparr> else l)" for l
  define db1 where "db1 = db\<lparr>leases := map f (leases db)\<rparr>"
  note body = assms(1) [unfolded renew_account_lease_def Let_def, folded hit_def, folded f_def, folded db1_def]
  have listed: "list_ex hit (leases db)" and loaded: "load_lease db1 (key_lease_id key) = Some l"
    using body by (auto simp: in_write_transaction_def split: option.splits if_splits)
  then obtain k where k: "k \<in> set (leases db)" "hit k" by (auto simp: list_ex_iff)
  have upd: "lease_update f" unfolding f_def by simp
  have "load_lease db1 (lease_id (f k)) = Some (lease_from_row (f k))"
    using k(1) lease_table_ok_map [OF assms(2) upd] by (intro loaded_lease) (simp_all add: db1_def)
  moreover have "lease_id (f k) = key_lease_id key" using k(2) by (simp add: f_def hit_def key_matches_def)
  ultimately have "l = lease_from_row (f k)" using loaded by simp
  then show ?thesis using k(2) by (simp add: f_def hit_def key_matches_key) (simp add: lease_key_of_def)
qed

lemma release_effect:
  assumes "release_account_lease io db key now = (Inr b, db')"
  shows "key \<notin> holder_keys holder db'"
proof -
  have gone: "key \<notin> holder_keys holder d" if "\<forall>l \<in> set (leases d). \<not> key_matches key l" for d
    using that by (auto simp: holder_keys_def key_matches_key)
  show ?thesis
  proof (cases "list_ex (key_matches key) (leases db)")
    case False
    with assms have "db' = db" by (auto simp: release_account_lease_def in_write_transaction_def split: option.splits)
    with False gone show ?thesis by (auto simp: list_ex_iff)
  next
    case True
    with assms have "leases db' =
        map (\<lambda>l. if key_matches key l then l\<lparr>released_at := Some (timestamp now)\<rparr> else l) (leases db)"
      by (auto simp: release_account_lease_def in_write_transaction_def Let_def split: option.splits)
    then show ?thesis by (intro gone) (auto simp: key_matches_def unreleased_def)
  qed
qed

section \<open>Calls\<close>

definition world_ok :: "ustring \<Rightarrow> local_world \<Rightarrow> bool" where
  "world_ok holder w \<longleftrightarrow>
     lease_table_ok (leases (pool_db w)) \<and> (\<forall>n. harmless holder (call_interference (script w n)))"

definition local_owned :: "ustring \<Rightarrow> local_world \<Rightarrow> lease_key set" where
  "local_owned holder w = holder_keys holder (pool_db w)"

abbreviation call_keeps :: "ustring \<Rightarrow> local_world \<Rightarrow> local_world \<Rightarrow> bool" where
  "call_keeps holder \<equiv> keeps (world_ok holder) (local_owned holder)"

lemma call_keeps_trans: "call_keeps holder w w1 \<Longrightarrow> call_keeps holder w1 w2 \<Longrightarrow> call_keeps holder w w2"
  by (auto simp: keeps_def)

lemma call_keeps_refl: "world_ok holder w \<Longrightarrow> call_keeps holder w w"
  by (simp add: keeps_def)

lemma call_keeps_ok: "call_keeps holder w w' \<Longrightarrow> world_ok holder w'"
  by (simp add: keeps_def)

lemma harmless_call: "world_ok holder w \<Longrightarrow> harmless holder f \<Longrightarrow> script w' = script w \<Longrightarrow>
    pool_db w' = f (pool_db w) \<Longrightarrow> call_keeps holder w w'"
  by (auto simp: keeps_def world_ok_def local_owned_def harmless_def)

lemma next_call_keeps: "world_ok holder w \<Longrightarrow> next_call w = (c, w') \<Longrightarrow> call_keeps holder w w'"
  by (rule harmless_call [of _ _ "call_interference (script w (calls_made w))"])
    (auto simp: next_call_def world_ok_def)

lemma db_read_keeps: "world_ok holder w \<Longrightarrow> db_read f w = (r, w') \<Longrightarrow> call_keeps holder w w'"
  by (auto simp: db_read_def split: prod.splits option.splits dest: next_call_keeps)

lemma db_write_keeps:
  assumes "world_ok holder w" and "db_write f w = (r, w')" and "\<And>c. harmless holder (\<lambda>db. snd (f c db))"
  shows "call_keeps holder w w'"
proof -
  obtain c w1 where c: "next_call w = (c, w1)" by fastforce
  note k1 = next_call_keeps [OF assms(1) c]
  have "call_keeps holder w1 w'"
    by (rule harmless_call [OF call_keeps_ok [OF k1] assms(3) [of c]])
      (use assms(2) c in \<open>auto simp: db_write_def split: prod.splits\<close>)
  with k1 show ?thesis by (rule call_keeps_trans)
qed

lemma write_marker_keeps:
  "world_ok holder w \<Longrightarrow> write_lease_epoch_marker handle epoch w = (r, w') \<Longrightarrow> call_keeps holder w w'"
  by (auto simp: write_lease_epoch_marker_def keeps_def world_ok_def local_owned_def
      split: prod.splits option.splits dest!: next_call_keeps [unfolded keeps_def world_ok_def local_owned_def, rotated])

lemma clear_marker_keeps:
  "world_ok holder w \<Longrightarrow> clear_lease_epoch_marker handle w = (r, w') \<Longrightarrow> call_keeps holder w w'"
  by (auto simp: clear_lease_epoch_marker_def keeps_def world_ok_def local_owned_def
      split: prod.splits option.splits dest!: next_call_keeps [unfolded keeps_def world_ok_def local_owned_def, rotated])

lemma ensure_current_keeps: "world_ok holder w \<Longrightarrow> ensure_current b w = (r, w') \<Longrightarrow> call_keeps holder w w'"
  by (auto simp: ensure_current_def split: prod.splits option.splits dest: next_call_keeps)

lemma release_key_harmless: "harmless holder (\<lambda>db. snd (release_account_lease io db key now))"
  by (rule harmless_shrinks) (rule release_shrinks)

lemma renew_key_harmless: "harmless holder (\<lambda>db. snd (renew_account_lease io db key now ttl))"
  by (rule harmless_shrinks) (rule renew_shrinks)

lemma acquire_other_harmless:
  "h \<noteq> holder \<Longrightarrow> harmless holder (\<lambda>db. snd (acquire_requested_account_lease io now later lid db pool a h ttl c))"
  unfolding harmless_def using acquire_requested_effect(1,2) by (metis prod.collapse)

lemma release_failed_keeps: "world_ok holder w \<Longrightarrow> call_keeps holder w (release_failed_acquisition l handle w)"
proof -
  assume ok: "world_ok holder w"
  define w1 where "w1 = (case handle of Some h \<Rightarrow> snd (clear_lease_epoch_marker h w) | None \<Rightarrow> w)"
  have k1: "call_keeps holder w w1"
    using ok by (cases handle)
      (simp_all add: w1_def call_keeps_refl clear_marker_keeps [OF _ prod.collapse [symmetric]])
  have "call_keeps holder w1 (snd (db_write (\<lambda>c db. release_account_lease (call_io c) db (lease_key_of l) (call_clock c)) w1))"
    by (rule db_write_keeps [OF call_keeps_ok [OF k1] prod.collapse [symmetric] release_key_harmless])
  with k1 show ?thesis unfolding release_failed_acquisition_def Let_def w1_def by (rule call_keeps_trans)
qed

lemma grant_effect:
  assumes "grant_for_lease_record l w = (r, w')" and "world_ok holder w"
  shows "call_keeps holder w w'" and "r \<noteq> Inl NoEligibleAccount"
    and "r = Inr g \<Longrightarrow> grant_key g = lease_key_of l \<and> grant_account_id g = lease_account_id l"
proof -
  obtain x w1 where x: "db_read (\<lambda>_ db. read_registered_account db (lease_account_id l)) w = (x, w1)" by fastforce
  note k1 = db_read_keeps [OF assms(2) x]
  note body = assms(1) [unfolded grant_for_lease_record_def x prod.case]
  have k2: "call_keeps holder w (release_failed_acquisition l None w1)"
    by (rule call_keeps_trans [OF k1 release_failed_keeps [OF call_keeps_ok [OF k1]]])
  have "call_keeps holder w w' \<and> r \<noteq> Inl NoEligibleAccount \<and>
    (\<forall>g. r = Inr g \<longrightarrow> grant_key g = lease_key_of l \<and> grant_account_id g = lease_account_id l)"
  proof (cases "\<exists>row. x = Inr (Some row)")
    case False
    with body k2 show ?thesis by (auto split: sum.splits option.splits)
  next
    case True
    then obtain row where row: "x = Inr (Some row)" by blast
    obtain y w2 where y: "write_lease_epoch_marker (backend_account_handle row) (word_of_int (lease_epoch l)) w1 = (y, w2)"
      by fastforce
    note k2 = call_keeps_trans [OF k1 write_marker_keeps [OF call_keeps_ok [OF k1] y]]
    note k3 = call_keeps_trans [OF k2 release_failed_keeps [OF call_keeps_ok [OF k2]]]
    from body row y k2 k3 show ?thesis
      by (cases y) (auto simp: Let_def grant_from_record_def)
  qed
  then show "call_keeps holder w w'" and "r \<noteq> Inl NoEligibleAccount"
    and "r = Inr g \<Longrightarrow> grant_key g = lease_key_of l \<and> grant_account_id g = lease_account_id l" by auto
qed

section \<open>Planning\<close>

lemma admit_loop_admits:
  "admit_loop req family now admitted rejected cs = (admitted', rejected') \<Longrightarrow>
     \<forall>c \<in> set admitted. hard_reject_reason req (record_of c) = None \<Longrightarrow>
     \<forall>c \<in> set admitted'. hard_reject_reason req (record_of c) = None"
proof (induction cs arbitrary: admitted rejected)
  case (Cons c cs)
  let ?c = "if pool_position c = 0 then c\<lparr>pool_position := length admitted + length rejected\<rparr> else c"
  show ?case
  proof (cases "hard_reject_reason req ?c")
    case None
    with Cons.prems(1) obtain cls rej where
      "admit_loop req family now (admitted @ [\<lparr>record_of = ?c, block_class = cls\<rparr>]) rej cs = (admitted', rejected')"
      by (auto simp: Let_def)
    then show ?thesis by (rule Cons.IH) (use Cons.prems(2) None in auto)
  next
    case (Some reason)
    with Cons.prems(1) obtain rej where "admit_loop req family now admitted rej cs = (admitted', rejected')"
      by (auto simp: Let_def)
    then show ?thesis by (rule Cons.IH) (rule Cons.prems(2))
  qed
qed simp

lemma planned_admitted:
  assumes "terminal_action (evaluate_selection clock req cs) = Select a"
  shows "intent req \<noteq> ProbeRecovery" and "\<exists>c. account_id c = a \<and> hard_reject_reason req c = None"
proof -
  define now where "now = (case req_now req of Some t \<Rightarrow> t | None \<Rightarrow> clock)"
  obtain admitted rejected where loop:
    "admit_loop req (request_selection_family req) now [] [] cs = (admitted, rejected)" by fastforce
  have free: "\<forall>c \<in> set admitted. hard_reject_reason req (record_of c) = None"
    by (rule admit_loop_admits [OF loop]) simp
  note unfolded = assms [unfolded evaluate_selection_def Let_def, folded now_def, unfolded loop prod.case]
  show ordinary: "intent req \<noteq> ProbeRecovery"
    using unfolded by (auto simp: is_probe_recovery_def finalize_probe_recovery_def Let_def split: option.splits)
  define el where "el = sort_by (compare_ordinary req)
      (map record_of (filter (\<lambda>c. is_not_blocked (block_class c)) admitted))"
  define pref where "pref = (case preferred_account_id req of None \<Rightarrow> None
      | Some p \<Rightarrow> position (\<lambda>c. account_id c = p) el)"
  have ordinary': "\<not> is_probe_recovery (intent req)" using ordinary by (cases "intent req") (simp_all add: is_probe_recovery_def)
  note action = unfolded [unfolded if_not_P [OF ordinary'], folded el_def, folded pref_def]
  have "\<exists>c \<in> set el. account_id c = a"
  proof (cases pref)
    case (Some i)
    then have "i < length el" by (auto simp: pref_def split: option.splits dest: position_Some)
    then have "el ! i \<in> set el" by (rule nth_mem)
    moreover from action Some have "account_id (el ! i) = a" by simp
    ultimately show ?thesis by blast
  next
    case None
    with action show ?thesis by (cases el) (auto split: option.splits if_splits)
  qed
  then show "\<exists>c. account_id c = a \<and> hard_reject_reason req c = None" using free by (auto simp: el_def)
qed

lemma planned_not_current:
  assumes "terminal_action (evaluate_selection clock req cs) = Select a" and "current_account_id req = Some b"
  shows "a \<noteq> b"
proof -
  from planned_admitted [OF assms(1)] obtain c where c: "account_id c = a" "hard_reject_reason req c = None"
    and "\<not> is_probe_recovery (intent req)" by (cases "intent req") (auto simp: is_probe_recovery_def)
  with assms(2) show ?thesis by (auto simp: hard_reject_reason_def split: if_splits)
qed

lemma mapped_read_keeps: "world_ok holder w \<Longrightarrow> apfst f (db_read g w) = (r, w') \<Longrightarrow> call_keeps holder w w'"
  by (cases "db_read g w") (auto dest: db_read_keeps)

lemma resolve_family_keeps: "world_ok holder w \<Longrightarrow> resolve_selection_family req w = (r, w') \<Longrightarrow> call_keeps holder w w'"
  by (auto simp: resolve_selection_family_def call_keeps_refl split: option.splits if_splits dest: mapped_read_keeps)

lemma load_candidates_keep:
  "world_ok holder w \<Longrightarrow> load_candidates h family rows w = (r, w') \<Longrightarrow> call_keeps holder w w'"
proof (induction rows arbitrary: w w' r)
  case Nil
  then show ?case by (simp add: call_keeps_refl)
next
  case (Cons row rows)
  let ?a = "reg_account_id (fst row)"
  obtain x w1 where x: "db_read (\<lambda>_ db. read_account_quota_state db ?a family) w = (x, w1)" by fastforce
  note k1 = db_read_keeps [OF Cons.prems(1) x]
  note body = Cons.prems(2) [unfolded load_candidates.simps Let_def x prod.case]
  show ?case
  proof (cases x)
    case (Inl e)
    with body k1 show ?thesis by simp
  next
    case (Inr selection)
    define second where "second = (if family = lit ''codex'' \<or> selection \<noteq> None then (Inr None, w1)
        else db_read (\<lambda>_ db. read_account_quota_state db ?a (lit ''codex'')) w1)"
    obtain y w2 where y: "second = (y, w2)" by fastforce
    have "call_keeps holder w1 w2"
      using y db_read_keeps [OF call_keeps_ok [OF k1]] call_keeps_refl [OF call_keeps_ok [OF k1]]
      by (auto simp: second_def split: if_splits)
    with k1 have k2: "call_keeps holder w w2" by (rule call_keeps_trans)
    note body = body [unfolded Inr sum.case, folded second_def, unfolded y prod.case]
    show ?thesis
    proof (cases y)
      case (Inl e)
      with body k2 show ?thesis by simp
    next
      case (Inr fallback)
      obtain z w3 where z: "load_candidates h family rows w2 = (z, w3)" by fastforce
      with body Inr Cons.IH [OF call_keeps_ok [OF k2] z] k2 show ?thesis by (auto intro: call_keeps_trans)
    qed
  qed
qed

lemma plan_effect:
  assumes "local_plan_runtime_selection req h w = (r, w')" and "world_ok holder w"
  shows "call_keeps holder w w'"
    and "r = Inr (family, plan) \<Longrightarrow> current_account_id req = Some b \<Longrightarrow> terminal_action plan = Select a \<Longrightarrow> a \<noteq> b"
proof -
  have "call_keeps holder w w' \<and> (\<forall>family plan. r = Inr (family, plan) \<longrightarrow> (\<exists>clock req' cs.
      plan = evaluate_selection clock req' cs \<and> current_account_id req' = current_account_id req))"
  proof (cases "req_pool_id req")
    case None
    with assms show ?thesis by (auto simp: local_plan_runtime_selection_def call_keeps_refl)
  next
    case (Some pool)
    note body = assms(1) [unfolded local_plan_runtime_selection_def Some option.case]
    obtain x w1 where x: "resolve_selection_family req w = (x, w1)" by fastforce
    note k1 = resolve_family_keeps [OF assms(2) x]
    note body = body [unfolded x prod.case]
    show ?thesis
    proof (cases x)
      case (Inl e)
      with body k1 show ?thesis by auto
    next
      case (Inr family)
      obtain rows w2 where rows: "db_read (\<lambda>c db. read_account_lease_selection_candidates db pool (call_clock c)) w1 = (rows, w2)"
        by fastforce
      note k2 = call_keeps_trans [OF k1 db_read_keeps [OF call_keeps_ok [OF k1] rows]]
      obtain y w3 where y: "load_runtime_selection_candidates pool h family w1 = (y, w3)" by fastforce
      have k3: "call_keeps holder w w3"
        using y rows k2 call_keeps_trans [OF k2 load_candidates_keep [OF call_keeps_ok [OF k2]]]
        by (auto simp: load_runtime_selection_candidates_def split: sum.splits)
      have build: "foldl with_candidate b cs = b\<lparr>builder_candidates := builder_candidates b @ cs\<rparr>" for b cs
        by (induction cs arbitrary: b) (simp_all add: with_candidate_def)
      show ?thesis
      proof (cases y)
        case (Inl e)
        with body \<open>x = Inr family\<close> y k3 show ?thesis by auto
      next
        case (Inr cs)
        let ?req = "req\<lparr>req_selection_family := Some family\<rparr>"
        from Inr body \<open>x = Inr family\<close> y have
          "r = Inr (family, evaluate_selection (call_clock (script w3 (calls_made w3))) ?req cs)" and "w' = w3"
          by (auto simp: build run_plan_def build_selection_plan_def)
        moreover have "current_account_id ?req = current_account_id req" by simp
        ultimately show ?thesis using k3 by blast
      qed
    qed
  qed
  then show "call_keeps holder w w'"
    and "r = Inr (family, plan) \<Longrightarrow> current_account_id req = Some b \<Longrightarrow> terminal_action plan = Select a \<Longrightarrow> a \<noteq> b"
    using planned_not_current by metis+
qed

section \<open>Leases of the holder and of others\<close>

lemma db_write_parts:
  assumes "db_write f w = (r, w2)"
  obtains c w1 where "next_call w = (c, w1)" and "f c (pool_db w1) = (r, pool_db w2)" and "script w2 = script w1"
  using assms by (auto simp: db_write_def split: prod.splits)

lemma granted_keeps: "granted (x, w) = (r, w') \<Longrightarrow> world_ok holder w \<Longrightarrow> call_keeps holder w w'"
  by (cases x) (auto simp: granted_def call_keeps_refl dest: grant_effect(1))

lemma acquire_preferred_effect:
  assumes "local_acquire_preferred_lease ttl pool a family holder w = (r, w')" and "world_ok holder w"
  shows "world_ok holder w'"
    and "r = Inr g \<Longrightarrow> local_owned holder w' \<subseteq> {grant_key g} \<and> (local_owned holder w = {} \<longrightarrow> grant_account_id g = a)"
    and "r = Inl NoEligibleAccount \<Longrightarrow> call_keeps holder w w'"
proof -
  obtain res w2 where wrote: "db_write (\<lambda>c db. acquire_preferred_account_lease (call_io c) (call_clock c) (call_later c)
      (call_lease_id c) db pool a family holder ttl) w = (res, w2)" by fastforce
  with assms(1) have rest: "granted (res, w2) = (r, w')" by (simp add: local_acquire_preferred_lease_def)
  from wrote obtain c w1 where c: "next_call w = (c, w1)" and acquired:
      "acquire_requested_account_lease (call_io c) (call_clock c) (call_later c) (call_lease_id c) (pool_db w1) pool a
        holder ttl (SelectionFamily family) = (res, pool_db w2)" and scr: "script w2 = script w1"
    by (rule db_write_parts) (simp add: acquire_preferred_account_lease_def)
  note k1 = next_call_keeps [OF assms(2) c]
  have ok1: "lease_table_ok (leases (pool_db w1))" using call_keeps_ok [OF k1] by (simp add: world_ok_def)
  note effect = acquire_requested_effect [OF acquired ok1]
  have ok2: "world_ok holder w2" using call_keeps_ok [OF k1] effect(1) scr by (simp add: world_ok_def)
  note k3 = granted_keeps [OF rest ok2]
  show "world_ok holder w'" by (rule call_keeps_ok [OF k3])
  have sub: "local_owned holder w1 \<subseteq> local_owned holder w" "local_owned holder w' \<subseteq> local_owned holder w2"
    using k1 k3 by (simp_all add: keeps_def)
  show "local_owned holder w' \<subseteq> {grant_key g} \<and> (local_owned holder w = {} \<longrightarrow> grant_account_id g = a)" if "r = Inr g"
  proof -
    from rest that obtain l where l: "res = Inr l" and "grant_for_lease_record l w2 = (Inr g, w')"
      by (cases res) (auto simp: granted_def)
    from grant_effect(3) [OF this(2) ok2] effect(4) [OF l]
      holder_keys_only [OF effect(1), of "lease_key_of l" holder]
    show ?thesis using sub by (auto simp: local_owned_def)
  qed
  show "call_keeps holder w w'" if "r = Inl NoEligibleAccount"
  proof -
    from rest that grant_effect(2) [OF _ ok2] obtain e where "res = Inl e"
      by (cases res) (auto simp: granted_def)
    with effect(3) ok2 k3 sub show ?thesis by (auto simp: keeps_def local_owned_def)
  qed
qed

lemma probe_lease_keeps:
  assumes "local_acquire_probe_lease ttl pool a reservation h w = (r, w')" and "world_ok holder w" and "h \<noteq> holder"
  shows "call_keeps holder w w'"
proof -
  obtain res w2 where wrote: "db_write (\<lambda>c db. acquire_quota_probe_account_lease (call_io c) (call_clock c) (call_later c)
      (call_lease_id c) db pool a (reservation_limit_id reservation) (reservation_until reservation) h ttl) w = (res, w2)"
    by fastforce
  have k: "call_keeps holder w w2"
    by (rule db_write_keeps [OF assms(2) wrote])
      (simp add: acquire_quota_probe_account_lease_def acquire_other_harmless [OF assms(3)])
  from assms(1) wrote have "granted (res, w2) = (r, w')" by (simp add: local_acquire_probe_lease_def)
  from call_keeps_trans [OF k granted_keeps [OF this call_keeps_ok [OF k]]] show ?thesis .
qed

lemma read_holder_effect:
  assumes "local_read_active_holder_lease holder w = (r, w')" and "world_ok holder w"
  shows "call_keeps holder w w' \<and> (case r of Inr (Some g) \<Rightarrow> local_owned holder w' \<subseteq> {grant_key g} | _ \<Rightarrow> True)"
proof -
  obtain x w1 where x: "db_read (\<lambda>c db. load_active_holder_lease db holder (call_clock c)) w = (x, w1)" by fastforce
  note k1 = db_read_keeps [OF assms(2) x]
  note body = assms(1) [unfolded local_read_active_holder_lease_def x prod.case]
  show ?thesis
  proof (cases "\<exists>l. x = Inr (Some l)")
    case False
    with body k1 show ?thesis by (auto split: sum.splits option.splits)
  next
    case True
    then obtain l where l: "x = Inr (Some l)" by blast
    obtain y w2 where y: "grant_for_lease_record l w1 = (y, w2)" by fastforce
    note effect = grant_effect [OF y call_keeps_ok [OF k1]]
    have k2: "call_keeps holder w w2" by (rule call_keeps_trans [OF k1 effect(1)])
    have ok1: "lease_table_ok (leases (pool_db w1))" using call_keeps_ok [OF k1] by (simp add: world_ok_def)
    from x l have "\<exists>t. load_active_holder_lease (pool_db w1) holder t = Some l"
      by (auto simp: db_read_def split: prod.splits option.splits)
    then have "holder_keys holder (pool_db w1) \<subseteq> {lease_key_of l}"
      by (blast dest: holder_keys_only [OF ok1 active_holder_key])
    with effect(1) have "local_owned holder w2 \<subseteq> {lease_key_of l}" by (auto simp: keeps_def local_owned_def)
    with body l y k2 effect(3) show ?thesis by (cases y) auto
  qed
qed

lemma renew_lease_effect:
  assumes "local_renew_lease ttl key now w = (r, w')" and "world_ok holder w"
  shows "call_keeps holder w w' \<and> (case r of Inr (Renewed l) \<Rightarrow> lease_key_of l = key | _ \<Rightarrow> True)"
proof -
  note wrote = assms(1) [unfolded local_renew_lease_def]
  have k: "call_keeps holder w w'" by (rule db_write_keeps [OF assms(2) wrote renew_key_harmless])
  from wrote obtain c w1 where c: "next_call w = (c, w1)"
    and "renew_account_lease (call_io c) (pool_db w1) key now ttl = (r, pool_db w')" by (rule db_write_parts)
  moreover have "lease_table_ok (leases (pool_db w1))"
    using call_keeps_ok [OF next_call_keeps [OF assms(2) c]] by (simp add: world_ok_def)
  ultimately show ?thesis using k renew_effect by (auto split: sum.splits lease_renewal.splits)
qed

lemma release_lease_effect:
  assumes "local_release_lease key now w = (r, w')" and "world_ok holder w"
  shows "call_keeps holder w w' \<and> (\<not> isl r \<longrightarrow> key \<notin> local_owned holder w')"
proof -
  obtain x w1 where x: "db_write (\<lambda>c db. release_account_lease (call_io c) db key now) w = (x, w1)" by fastforce
  have k1: "call_keeps holder w w1" by (rule db_write_keeps [OF assms(2) x release_key_harmless])
  have gone: "key \<notin> local_owned holder w1" if "x = Inr b" for b
    using x that by (auto simp: local_owned_def elim!: db_write_parts dest: release_effect)
  note body = assms(1) [unfolded local_release_lease_def x prod.case]
  show ?thesis
  proof (cases "x = Inr True")
    case False
    with body k1 gone show ?thesis by (auto split: sum.splits bool.splits)
  next
    case True
    obtain y w2 where y: "db_read (\<lambda>_ db. read_registered_account db (key_account_id key)) w1 = (y, w2)" by fastforce
    note k2 = db_read_keeps [OF call_keeps_ok [OF k1] y]
    have "call_keeps holder w1 w'"
    proof (cases "\<exists>row. y = Inr (Some row)")
      case False
      with body True y k2 show ?thesis by (auto split: sum.splits option.splits)
    next
      case row: True
      then obtain row where "y = Inr (Some row)" by blast
      moreover obtain z w3 where z: "clear_lease_epoch_marker (backend_account_handle row) w2 = (z, w3)" by fastforce
      ultimately show ?thesis
        using body True y call_keeps_trans [OF k2 clear_marker_keeps [OF call_keeps_ok [OF k2] z]] by auto
    qed
    with k1 gone [OF True] show ?thesis by (auto simp: keeps_def)
  qed
qed

lemma reserve_probe_keeps:
  assumes "local_reserve_quota_probe a family now d w = (r, w')" and "world_ok holder w"
  shows "call_keeps holder w w'"
proof -
  obtain x w1 where x: "db_read (\<lambda>_ db. read_selection_quota_state db a family) w = (x, w1)" by fastforce
  note k1 = db_read_keeps [OF assms(2) x]
  have reserve: "call_keeps holder w1 w2"
    if "db_write (\<lambda>c db. reserve_account_quota_probe (call_io c) (call_clock c) db a l now u) w1 = (y, w2)" for l u y w2
    by (rule db_write_keeps [OF call_keeps_ok [OF k1] that]) (rule harmless_leases, rule quota_operations_frame)
  show ?thesis
    using assms(1) x k1 call_keeps_trans [OF k1 reserve]
    by (auto simp: local_reserve_quota_probe_def apfst_def map_prod_def split: sum.splits option.splits prod.splits)
qed

lemma record_probe_keeps:
  assumes "apfst f (db_write (\<lambda>c db. record_probe (call_io c) (call_clock c) db a l ob u) w) = (r, w')"
    and "world_ok holder w"
  shows "call_keeps holder w w'"
proof -
  obtain x where "db_write (\<lambda>c db. record_probe (call_io c) (call_clock c) db a l ob u) w = (x, w')"
    using assms(1) by (auto simp: apfst_def map_prod_def split: prod.splits)
  then show ?thesis
    by (rule db_write_keeps [OF assms(2)]) (rule harmless_leases, rule quota_operations_frame)
qed

lemma refresh_probe_keeps:
  assumes "local_refresh_quota_probe g reservation w = (r, w')" and "world_ok holder w"
  shows "call_keeps holder w w'"
proof -
  let ?a = "grant_account_id g"
  obtain x w1 where x: "db_read (\<lambda>_ db. read_account_quota_state db ?a (reservation_limit_id reservation)) w = (x, w1)"
    by fastforce
  note k1 = db_read_keeps [OF assms(2) x]
  obtain y w2 where y: "ensure_current (grant_session g) w1 = (y, w2)" by fastforce
  note k2 = call_keeps_trans [OF k1 ensure_current_keeps [OF call_keeps_ok [OF k1] y]]
  note recorded = call_keeps_trans [OF k2 record_probe_keeps [OF _ call_keeps_ok [OF k2]]]
  note body = assms(1) [unfolded local_refresh_quota_probe_def Let_def x prod.case y]
  show ?thesis
  proof (cases "\<exists>q. x = Inr (Some q)")
    case False
    with body k1 k2 show ?thesis by (auto split: sum.splits option.splits)
  next
    case True
    then obtain q where q: "x = Inr (Some q)" by blast
    show ?thesis
    proof (cases y)
      case (Inl e)
      with body q show ?thesis
        by (auto simp: record_account_quota_probe_ambiguous_def intro: recorded)
    next
      case (Inr u)
      with body q show ?thesis
        by (auto simp: record_probe_refresh_def record_account_quota_probe_success_def
            record_account_quota_probe_still_blocked_def Let_def split: if_splits intro: recorded)
    qed
  qed
qed

lemma health_event_keeps:
  "world_ok holder w \<Longrightarrow> local_record_health_event ev w = (r, w') \<Longrightarrow> call_keeps holder w w'"
  unfolding local_record_health_event_def record_account_health_event_def
  by (rule db_write_keeps) (assumption, assumption, rule harmless_leases, rule record_health_leases)

lemma read_keeps: "world_ok holder w \<Longrightarrow> call_keeps holder w (snd (db_read f w))"
  by (rule db_read_keeps [OF _ prod.collapse [symmetric]])

lemma utc_now_keeps: "world_ok holder w \<Longrightarrow> local_utc_now w = (t, w') \<Longrightarrow> call_keeps holder w w'"
  by (cases "next_call w") (auto simp: local_utc_now_def dest: next_call_keeps)

section \<open>The local backend keeps the contract\<close>

definition others_act :: "ustring \<Rightarrow> local_world \<Rightarrow> local_world \<Rightarrow> bool" where
  "others_act holder w w' \<longleftrightarrow> (\<exists>f. harmless holder f \<and> w' = w\<lparr>pool_db := f (pool_db w)\<rparr>)"

interpretation local_authority: lease_authority "local_backend ttl legacy_auth" holder "others_act holder"
  "world_ok holder" "local_owned holder"
proof (unfold_locales, unfold local_backend_def execution_backend.simps)
  fix w w' assume "world_ok holder w" "others_act holder w w'"
  then show "call_keeps holder w w'" by (auto simp: others_act_def intro: harmless_call)
next
  fix w w' req and r :: "ustring + ustring \<times> selection_plan"
  assume "world_ok holder w" "local_plan_runtime_selection req holder w = (r, w')"
  then show "call_keeps holder w w'" by (blast dest: plan_effect)
next
  fix w w' req family plan c a
  assume "world_ok holder w" "local_plan_runtime_selection req holder w = (Inr (family, plan), w')"
    "current_account_id req = Some c" "terminal_action plan = Select a"
  then show "a \<noteq> c" by (blast dest: plan_effect)
qed (auto dest: acquire_preferred_effect probe_lease_keeps reserve_probe_keeps refresh_probe_keeps
    read_holder_effect renew_lease_effect release_lease_effect health_event_keeps db_read_keeps
    utc_now_keeps intro: read_keeps call_keeps_refl)

section \<open>The other processes\<close>

text \<open>What another process does under a name of its own is harmless.\<close>

lemma insert_next_effect:
  assumes "insert_next_eligible_lease db1 (new_lease lid pool [] h now ttl) pool excl = Inr (Some db2)"
    and "lease_table_ok (leases db1)"
  shows "lease_table_ok (leases db2)" and "holder \<noteq> h \<Longrightarrow> holder_keys holder db2 = holder_keys holder db1"
proof -
  from assms(1) obtain a where "map_sum id Some (insert_lease_row db1 (lease_row_for db1 (new_lease lid pool [] h now ttl) a)) =
      Inr (Some db2)"
    by (auto simp: insert_next_eligible_lease_def split: list.splits)
  then have ins: "insert_lease_row db1 (lease_row_for db1 (new_lease lid pool [] h now ttl) a) = Inr db2"
    by (cases "insert_lease_row db1 (lease_row_for db1 (new_lease lid pool [] h now ttl) a)") auto
  from insert_lease_row_ok [OF assms(2) this] show "lease_table_ok (leases db2)" .
  show "holder_keys holder db2 = holder_keys holder db1" if "holder \<noteq> h"
    using ins that by (auto simp: insert_lease_row_Inr holder_keys_def lease_row_for_def new_lease_def)
qed

lemma acquire_excluding_effect:
  assumes "lease_table_ok (leases db)" and "holder \<noteq> h"
  shows "lease_table_ok (leases (snd (acquire_account_lease_excluding io now later lid db pool h ttl excl))) \<and>
    holder_keys holder (snd (acquire_account_lease_excluding io now later lid db pool h ttl excl)) \<subseteq> holder_keys holder db"
proof -
  let ?db1 = "release_expired_account_leases db now"
  have ok1: "lease_table_ok (leases ?db1)" and sub1: "holder_keys holder ?db1 \<subseteq> holder_keys holder db"
    using assms(1) holder_keys_shrink [OF expired_shrinks] by auto
  show ?thesis
  proof (cases "statement_fault io")
    case None
    note unfolded = acquire_account_lease_excluding_def None Let_def
    show ?thesis
    proof (cases "load_active_holder_lease ?db1 h now")
      case (Some l)
      with ok1 sub1 show ?thesis by (simp add: unfolded)
    next
      case free: None
      show ?thesis
      proof (cases "insert_next_eligible_lease ?db1 (new_lease lid pool [] h now ttl) pool excl")
        case (Inl e)
        with free assms(1) show ?thesis by (simp add: unfolded split: option.split)
      next
        case (Inr r)
        show ?thesis
        proof (cases r)
          case None
          with Inr free assms(1) show ?thesis by (simp add: unfolded)
        next
          case (Some db2)
          have "leases (snd (finish_acquisition db db2 lid)) = leases db \<or>
              leases (snd (finish_acquisition db db2 lid)) = leases db2"
            using finish_acquisition_leases [of db db2 lid] by auto
          moreover have "lease_table_ok (leases db2)" "holder_keys holder db2 \<subseteq> holder_keys holder db"
            using insert_next_effect [OF Inr [unfolded Some] ok1] assms(2) sub1 by auto
          ultimately have "lease_table_ok (leases (snd (finish_acquisition db db2 lid))) \<and>
              holder_keys holder (snd (finish_acquisition db db2 lid)) \<subseteq> holder_keys holder db"
            using assms(1) by (auto simp: holder_keys_def)
          with Inr free Some show ?thesis by (simp add: unfolded)
        qed
      qed
    qed
  qed (use assms(1) in \<open>simp add: acquire_account_lease_excluding_def\<close>)
qed

lemma others_harmless:
  "h \<noteq> holder \<Longrightarrow> harmless holder (\<lambda>db. snd (acquire_requested_account_lease io now later lid db pool a h ttl c))"
  "h \<noteq> holder \<Longrightarrow> harmless holder (\<lambda>db. snd (acquire_account_lease_excluding io now later lid db pool h ttl excl))"
  "harmless holder (\<lambda>db. snd (renew_account_lease io db key now ttl))"
  "harmless holder (\<lambda>db. snd (release_account_lease io db key now))"
  "harmless holder (\<lambda>db. snd (assign_account_pool io clock db a pool))"
  "harmless holder (\<lambda>db. snd (record_account_health_event ios clocks db ev))"
  "harmless holder (\<lambda>db. snd (upsert_account_registry_entry io clock db ent))"
  "harmless holder (\<lambda>db. snd (set_account_enabled io clock db a on))"
  "harmless holder (\<lambda>db. snd (remove_account_registry_entry io clock db a))"
  "harmless holder (\<lambda>db. snd (upsert_registered_account io clock db ups))"
  by (auto intro: acquire_other_harmless renew_key_harmless release_key_harmless harmless_shrinks harmless_leases
      assign_shrinks upsert_entry_shrinks set_enabled_shrinks remove_shrinks upsert_registered_shrinks
      simp: record_account_health_event_def record_health_leases)
    (use acquire_excluding_effect in \<open>force simp: harmless_def\<close>)

end
