(* ===== verification/AccountTurns.thy ===== *)
theory AccountTurns
  imports AccountAuthority
begin

text \<open>
  What the contract gives the manager over the local backend, stated of the program: runs of a
  manager from its creation, among other processes that use other holder names.
\<close>

section \<open>A run\<close>

text \<open>The manager and the world when a process starts, and what the processes do from then on.\<close>

definition local_run :: "time_span \<Rightarrow> account_pool_config \<Rightarrow> ustring \<Rightarrow> local_world \<Rightarrow> account_manager \<Rightarrow> local_world \<Rightarrow> bool" where
  "local_run ttl config holder w0 m w \<longleftrightarrow>
     reachable_db (pool_db w0) \<and> (\<forall>n. harmless holder (call_interference (script w0 n))) \<and>
     (\<exists>m0 legacy_auth. new_manager config holder = Some (Inr m0) \<and>
        manager_run (local_backend ttl legacy_auth) (others_act holder) (m0, w0) (m, w))"

abbreviation local_fenced :: "ustring \<Rightarrow> account_manager \<Rightarrow> local_world \<Rightarrow> bool" where
  "local_fenced holder \<equiv> fenced holder (world_ok holder) (local_owned holder)"

lemma local_run_fenced: "local_run ttl config holder w0 m w \<Longrightarrow> local_fenced holder m w"
proof -
  assume "local_run ttl config holder w0 m w"
  then obtain m0 legacy_auth where m0: "new_manager config holder = Some (Inr m0)"
    and ok: "world_ok holder w0"
    and run: "manager_run (local_backend ttl legacy_auth) (others_act holder) (m0, w0) (m, w)"
    by (auto simp: local_run_def world_ok_def reachable_ok)
  have "local_fenced holder m0 w0" using ok new_manager_clean [OF m0] by (simp add: fenced_def)
  with local_authority.manager_run_fenced [OF run] show ?thesis by simp
qed

section \<open>An example\<close>

text \<open>Two accounts of one pool, and a world without faults in which nobody else acts.\<close>

definition two_accounts :: account_db where
  "two_accounts = snd (upsert_account_registry_entry all_well 0 registered_db (sample_entry ''b'' True))"

definition quiet_call :: "nat \<Rightarrow> backend_call" where
  "quiet_call n =
     \<lparr>call_io = all_well, call_attempts = (\<lambda>_. (all_well, 0)), call_clock = 0, call_later = 0,
      call_lease_id = replicate (Suc n) 108, call_disk = None, call_interference = (\<lambda>db. db)\<rparr>"

definition quiet_world :: local_world where
  "quiet_world =
     \<lparr>pool_db = two_accounts, auth_homes = (\<lambda>_. \<lparr>epoch_marker = None, stored_auth = None\<rparr>),
      script = quiet_call, calls_made = 0\<rparr>"

definition fresh_manager :: account_manager where
  "fresh_manager =
     \<lparr>mgr_config = default_account_pool_config, holder_id = lit ''h1'', active_lease = None,
      next_health_event_sequence = 0, bootstrapped_legacy_auth = False, proactive_switch_state = None,
      pending_rotation = None, last_proactively_replaced = None\<rparr>"

abbreviation quiet_backend :: "local_world execution_backend" where
  "quiet_backend \<equiv> local_backend (secs 300) (\<lambda>_. Inr None)"

definition pool_request :: selection_request where
  "pool_request = (request_for_intent Startup)\<lparr>req_now := Some 0, req_pool_id := Some (lit ''p'')\<rparr>"

lemma fresh_manager_new: "new_manager default_account_pool_config (lit ''h1'') = Some (Inr fresh_manager)"
  by (simp add: new_manager_def default_config_valid fresh_manager_def)

lemma quiet_start:
  "manager_run quiet_backend (others_act (lit ''h1'')) (fresh_manager, quiet_world) (m, w) \<Longrightarrow>
     local_run (secs 300) default_account_pool_config (lit ''h1'') quiet_world m w"
proof -
  have "db_run [] empty_db two_accounts"
    using db_run.step [OF db_run_registered db_step.upsert_entry] by (simp add: two_accounts_def)
  then have "reachable_db (pool_db quiet_world)" by (auto simp: reachable_db_def quiet_world_def)
  moreover have "\<forall>n. harmless (lit ''h1'') (call_interference (script quiet_world n))"
    by (simp add: quiet_world_def quiet_call_def)
  ultimately show "manager_run quiet_backend (others_act (lit ''h1'')) (fresh_manager, quiet_world) (m, w) \<Longrightarrow> ?thesis"
    using fresh_manager_new unfolding local_run_def by blast
qed

text \<open>A turn on the first account, a usage limit, a turn on the second one, a release.\<close>

lemma failover_example:
  "case ensure_active_lease quiet_backend pool_request fresh_manager quiet_world of
     Some (Inr l1, m1, w1) \<Rightarrow>
       (case report_usage_limit_reached quiet_backend (grant_key (the (active_lease m1))) 0 m1 w1 of
          (Inr Applied, m2, w2) \<Rightarrow>
            (case ensure_active_lease quiet_backend pool_request m2 w2 of
               Some (Inr l3, m3, w3) \<Rightarrow>
                 active_lease m1 \<noteq> None \<and> lease_account_id l1 = lit ''a'' \<and> lease_account_id l3 = lit ''b'' \<and>
                 active_lease m3 \<noteq> None \<and>
                 list_ex (\<lambda>k. unreleased k \<and> holder_instance_id k = lit ''h1'') (leases (pool_db w3)) \<and>
                 (case release_active_lease quiet_backend m3 w3 of (r, m4, w4) \<Rightarrow> active_lease m4 = None)
             | _ \<Rightarrow> False)
        | _ \<Rightarrow> False)
   | _ \<Rightarrow> False"
  by code_simp

text \<open>
  The status tells the user that the account in the first position starts next; the plan
  prefers an account with known quota to spare.
\<close>

definition spare_quota :: quota_state where
  "spare_quota =
     \<lparr>quota_account_id = lit ''b'', limit_id = lit ''codex'', primary_used_percent = Some (Finite 10),
      primary_resets_at = None, secondary_used_percent = None, secondary_resets_at = None, quota_observed_at = 0,
      exhausted_windows = NoWindow, predicted_blocked_until = None, next_probe_after = None,
      probe_backoff_level = 0, last_probe_result = None\<rparr>"

lemma quota_ranking_beats_prediction:
  "case upsert_account_quota_state all_well 0 two_accounts spare_quota of (stored, db) \<Rightarrow>
     stored = Inr () \<and>
     prev_predicted_account_id (status_preview (read_account_startup_status db 0 None)) = Some (lit ''a'') \<and>
     (case ensure_active_lease quiet_backend pool_request fresh_manager (quiet_world\<lparr>pool_db := db\<rparr>) of
        Some (Inr l, m, w) \<Rightarrow> lease_account_id l = lit ''b''
      | _ \<Rightarrow> False)"
  by code_simp

lemma turn_given:
  "(case t of Some (Inr l, m, w) \<Rightarrow> P l m w | _ \<Rightarrow> False) \<Longrightarrow> \<exists>l m w. t = Some (Inr l, m, w) \<and> P l m w"
  by (auto split: option.splits prod.splits sum.splits)

lemma report_applied:
  "(case t of (Inr Applied, m, w) \<Rightarrow> P m w | _ \<Rightarrow> False) \<Longrightarrow> \<exists>m w. t = (Inr Applied, m, w) \<and> P m w"
  by (auto split: prod.splits sum.splits event_disposition.splits)

lemma failover_stages:
  obtains l1 m1 w1 g1 m2 w2 l3 m3 w3 g3 k m4 w4 r where
    "ensure_active_lease quiet_backend pool_request fresh_manager quiet_world = Some (Inr l1, m1, w1)"
    "active_lease m1 = Some g1"
    "report_usage_limit_reached quiet_backend (grant_key g1) 0 m1 w1 = (Inr Applied, m2, w2)"
    "ensure_active_lease quiet_backend pool_request m2 w2 = Some (Inr l3, m3, w3)" "active_lease m3 = Some g3"
    "k \<in> set (leases (pool_db w3))" "unreleased k" "holder_instance_id k = lit ''h1''"
    "release_active_lease quiet_backend m3 w3 = (r, m4, w4)" "active_lease m4 = None"
proof -
  from turn_given [OF failover_example] obtain l1 m1 w1 where
    one: "ensure_active_lease quiet_backend pool_request fresh_manager quiet_world = Some (Inr l1, m1, w1)"
    and rest1: "case report_usage_limit_reached quiet_backend (grant_key (the (active_lease m1))) 0 m1 w1 of
        (Inr Applied, m2, w2) \<Rightarrow>
          (case ensure_active_lease quiet_backend pool_request m2 w2 of
             Some (Inr l3, m3, w3) \<Rightarrow>
               active_lease m1 \<noteq> None \<and> lease_account_id l1 = lit ''a'' \<and> lease_account_id l3 = lit ''b'' \<and>
               active_lease m3 \<noteq> None \<and>
               list_ex (\<lambda>k. unreleased k \<and> holder_instance_id k = lit ''h1'') (leases (pool_db w3)) \<and>
               (case release_active_lease quiet_backend m3 w3 of (r, m4, w4) \<Rightarrow> active_lease m4 = None)
           | _ \<Rightarrow> False)
      | _ \<Rightarrow> False" by (elim exE conjE) (rule that; assumption)
  from report_applied [OF rest1] obtain m2 w2 where
    two: "report_usage_limit_reached quiet_backend (grant_key (the (active_lease m1))) 0 m1 w1 = (Inr Applied, m2, w2)"
    and rest2: "case ensure_active_lease quiet_backend pool_request m2 w2 of
        Some (Inr l3, m3, w3) \<Rightarrow>
          active_lease m1 \<noteq> None \<and> lease_account_id l1 = lit ''a'' \<and> lease_account_id l3 = lit ''b'' \<and>
          active_lease m3 \<noteq> None \<and>
          list_ex (\<lambda>k. unreleased k \<and> holder_instance_id k = lit ''h1'') (leases (pool_db w3)) \<and>
          (case release_active_lease quiet_backend m3 w3 of (r, m4, w4) \<Rightarrow> active_lease m4 = None)
      | _ \<Rightarrow> False" by (elim exE conjE) (rule that; assumption)
  from turn_given [OF rest2] obtain l3 m3 w3 where
    three: "ensure_active_lease quiet_backend pool_request m2 w2 = Some (Inr l3, m3, w3)"
    and ends: "active_lease m1 \<noteq> None" "active_lease m3 \<noteq> None"
      "list_ex (\<lambda>k. unreleased k \<and> holder_instance_id k = lit ''h1'') (leases (pool_db w3))"
      "case release_active_lease quiet_backend m3 w3 of (r, m4, w4) \<Rightarrow> active_lease m4 = None"
    by (elim exE conjE) (rule that; assumption)
  obtain r m4 w4 where four: "release_active_lease quiet_backend m3 w3 = (r, m4, w4)" by (metis prod_cases3)
  from ends(3) obtain k where k: "k \<in> set (leases (pool_db w3))" "unreleased k" "holder_instance_id k = lit ''h1''"
    by (auto simp: list_ex_iff)
  from ends(1,2) obtain g1 g3 where g: "active_lease m1 = Some g1" "active_lease m3 = Some g3" by blast
  from ends(4) four have "active_lease m4 = None" by simp
  with one two three four k g show ?thesis using that by simp
qed

lemma failover_run:
  assumes "ensure_active_lease quiet_backend pool_request fresh_manager quiet_world = Some (Inr l1, m1, w1)"
  shows "manager_run quiet_backend (others_act (lit ''h1'')) (fresh_manager, quiet_world) (m1, w1)"
  by (rule manager_run.step [OF manager_run.start manager_step.ensure [OF assms]])

section \<open>Properties\<close>

text \<open>
  C31: A manager never loses track of a lease: whatever it is asked to do and whatever fails,
  while the other processes use other holder names, an unreleased lease in its name, at a
  time when it holds one, is the lease it holds.
\<close>

theorem manager_holds_only_lease:
  assumes "local_run ttl config holder w0 m w" and "active_lease m = Some g"
    and "k \<in> set (leases (pool_db w))" and "unreleased k" and "holder_instance_id k = holder"
  shows "lease_key_of k = grant_key g"
  using local_run_fenced [OF assms(1)] assms(2-5) by (auto simp: fenced_def local_owned_def holder_keys_def)

lemma manager_holds_only_lease_witness:
  "\<exists>(g :: lease_grant) k (w :: local_world). k \<in> set (leases (pool_db w)) \<and> unreleased k \<and> lease_key_of k = grant_key g"
proof -
  obtain l1 m1 w1 g1 m2 w2 l3 m3 w3 g3 k m4 w4 r where
    one: "ensure_active_lease quiet_backend pool_request fresh_manager quiet_world = Some (Inr l1, m1, w1)"
      "active_lease m1 = Some g1"
    and two: "report_usage_limit_reached quiet_backend (grant_key g1) 0 m1 w1 = (Inr Applied, m2, w2)"
    and three: "ensure_active_lease quiet_backend pool_request m2 w2 = Some (Inr l3, m3, w3)" "active_lease m3 = Some g3"
      "k \<in> set (leases (pool_db w3))" "unreleased k" "holder_instance_id k = lit ''h1''"
    by (rule failover_stages)
  have run: "manager_run quiet_backend (others_act (lit ''h1'')) (fresh_manager, quiet_world) (m3, w3)"
    by (rule manager_run.step [OF manager_run.step [OF failover_run [OF one(1)] manager_step.usage_limit [OF two]]
          manager_step.ensure [OF three(1)]])
  show ?thesis
    using manager_holds_only_lease [OF quiet_start [OF run] three(2-5)] three(3,4) by blast
qed

text \<open>
  C32: A failed account is left: once a usage limit or a rejected credential has been reported
  for the lease of a manager, and the report applied, the turn after it is not given the
  failed account, but another one whose lease is the one the manager then holds.
\<close>

theorem failure_changes_account:
  assumes "local_run ttl config holder w0 m w" and "active_lease m = Some g"
    and "report_usage_limit_reached (local_backend ttl legacy_auth) key observed m w = (Inr Applied, m1, w1) \<or>
      report_unauthorized (local_backend ttl legacy_auth) key m w = (Inr Applied, m1, w1)"
    and "others_act holder w1 w2"
    and "ensure_active_lease (local_backend ttl legacy_auth) req m1 w2 = Some (Inr l, m3, w3)"
  shows "lease_account_id l \<noteq> grant_account_id g \<and> (\<exists>g'. active_lease m3 = Some g' \<and> l = leased_account g')"
proof -
  note f = local_run_fenced [OF assms(1)]
  have "manager_step (local_backend ttl legacy_auth) (others_act holder) (m, w) (m1, w1)"
    using assms(3) by (auto intro: manager_step.usage_limit manager_step.unauthorized)
  from local_authority.manager_step_fenced [OF this f] have "local_fenced holder m1 w1" .
  from local_authority.manager_step_fenced [OF manager_step.environment this] assms(4)
  have f2: "local_fenced holder m1 w2" .
  have "pending_rotation m1 = Some HardFailure \<and> active_lease m1 = Some g"
    using assms(2,3)
    by (auto simp: report_usage_limit_reached_def report_unauthorized_def report_failure_def Let_def
        split: if_splits prod.splits sum.splits)
  with local_authority.ensure_handed [OF assms(5) f2] show ?thesis
    by (auto simp: local_authority.handed_def)
qed

lemma failure_changes_account_witness:
  "\<exists>(l :: lease_record) (g :: lease_grant). lease_account_id l \<noteq> grant_account_id g"
proof -
  obtain l1 m1 w1 g1 m2 w2 l3 m3 w3 g3 k m4 w4 r where
    one: "ensure_active_lease quiet_backend pool_request fresh_manager quiet_world = Some (Inr l1, m1, w1)"
      "active_lease m1 = Some g1"
    and two: "report_usage_limit_reached quiet_backend (grant_key g1) 0 m1 w1 = (Inr Applied, m2, w2)"
    and three: "ensure_active_lease quiet_backend pool_request m2 w2 = Some (Inr l3, m3, w3)"
    by (rule failover_stages)
  have "others_act (lit ''h1'') w2 w2" by (auto simp: others_act_def intro!: exI [of _ "\<lambda>db. db"])
  from failure_changes_account [OF quiet_start [OF failover_run [OF one(1)]] one(2) disjI1 [OF two] this three]
  show ?thesis by blast
qed



text \<open>
  C36: A rotation that cannot be planned is forgotten: when the backend fails to plan the
  rotation away from a failed lease, the turn fails with that error, and the next turn is
  given the same account again, as long as its lease is not about to expire.
\<close>

theorem failed_rotation_is_forgotten:
  assumes "active_lease m = Some g" and "pending_rotation m = Some k"
    and "req_now req = Some now" and "req_now req' = Some later"
    and "plan_runtime_selection be (rotation_request (m\<lparr>pending_rotation := None\<rparr>) now k g) (holder_id m) w = (Inl e, w1)"
    and "derived_pre_turn_safety_margin (mgr_config m) = Some margin" and "grant_remaining_ttl g later > margin"
  shows "\<exists>m1. ensure_active_lease be req m w = Some (Inl e, m1, w1) \<and>
    (\<forall>w2. \<exists>m2. ensure_active_lease be req' m1 w2 = Some (Inr (leased_account g), m2, w2))"
proof -
  let ?m = "m\<lparr>pending_rotation := None\<rparr>"
  have "req_pool_id (rotation_request ?m now k g) = Some (grant_pool_id g)" by (simp add: rotation_request_def)
  then have "acquire_selected_rotation_lease be (rotation_request ?m now k g) g ?m w = Some (Inl (Storage e), ?m, w1)"
    using assms(5) by (simp add: acquire_selected_rotation_lease_def run_loop_Inl rotation_attempt_def)
  then have "ensure_active_lease be req m w = Some (Inl e, ?m, w1)"
    using assms(1-3)
    by (simp add: ensure_active_lease_def request_now_def lease_for_turn_def try_rotate_active_lease_if_needed_def)
  moreover have "ensure_active_lease be req' ?m w2 = Some (Inr (leased_account g),
      ?m\<lparr>proactive_switch_state := snd (revalidate_before_turn (proactive_switch_state m) later)\<rparr>, w2)" for w2
    using assms(1,4,6,7)
    by (simp add: ensure_active_lease_def request_now_def lease_for_turn_def try_rotate_active_lease_if_needed_def
        try_renew_active_lease_if_needed_def)
  ultimately show ?thesis by blast
qed

text \<open>A lease for five minutes, and a world in which every statement fails.\<close>

definition sample_grant :: lease_grant where
  "sample_grant =
     \<lparr>grant_key = \<lparr>key_lease_id = lit ''l1'', key_account_id = lit ''a'', key_lease_epoch = 1\<rparr>,
      grant_account_id = lit ''a'', grant_pool_id = lit ''p'',
      grant_session = \<lparr>bound_account_id = lit ''a'', bound_account_handle = lit ''a'', bound_lease_epoch = 1\<rparr>,
      grant_expires_at = secs 300, grant_next_eligible_at = None, grant_acquired_at = 0, grant_holder = lit ''h1''\<rparr>"

definition broken_world :: local_world where
  "broken_world = quiet_world\<lparr>script := (\<lambda>n. (quiet_call n)
     \<lparr>call_io := all_well\<lparr>statement_fault := Some (lit ''disk I/O error'')\<rparr>\<rparr>)\<rparr>"

lemma failed_rotation_is_forgotten_witness:
  "\<exists>(m :: account_manager) w m1 w1 e. pending_rotation m = Some HardFailure \<and>
     ensure_active_lease quiet_backend pool_request m w = Some (Inl e, m1, w1) \<and>
     (\<exists>m2. ensure_active_lease quiet_backend pool_request m1 quiet_world =
        Some (Inr (leased_account sample_grant), m2, quiet_world))"
proof -
  let ?m = "fresh_manager\<lparr>active_lease := Some sample_grant, pending_rotation := Some HardFailure\<rparr>"
  let ?req = "rotation_request (?m\<lparr>pending_rotation := None\<rparr>) 0 HardFailure sample_grant"
  have margin: "derived_pre_turn_safety_margin (mgr_config ?m) = Some (120 * nanos_per_sec)"
    by (simp add: fresh_manager_def default_account_pool_config_def derived_pre_turn_safety_margin_def
        saturating_double_def duration_seconds_def i64_max_def nanos_per_sec_def)
  have ttl: "grant_remaining_ttl sample_grant 0 > 120 * nanos_per_sec"
    by (simp add: grant_remaining_ttl_def sample_grant_def secs_def nanos_per_sec_def)
  have "\<exists>w1. plan_runtime_selection quiet_backend ?req (holder_id ?m) broken_world = (Inl (lit ''disk I/O error''), w1)"
    by (simp add: local_backend_def local_plan_runtime_selection_def rotation_request_def resolve_selection_family_def
        db_read_def next_call_def broken_world_def quiet_world_def quiet_call_def)
  then obtain w1 where
    plan: "plan_runtime_selection quiet_backend ?req (holder_id ?m) broken_world = (Inl (lit ''disk I/O error''), w1)" ..
  have now: "req_now pool_request = Some 0" by (simp add: pool_request_def)
  from failed_rotation_is_forgotten [of ?m, OF _ _ now now plan margin ttl] obtain m1 where
    "ensure_active_lease quiet_backend pool_request ?m broken_world = Some (Inl (lit ''disk I/O error''), m1, w1)"
    "\<exists>m2. ensure_active_lease quiet_backend pool_request m1 quiet_world =
       Some (Inr (leased_account sample_grant), m2, quiet_world)"
    by auto
  moreover have "pending_rotation ?m = Some HardFailure" by simp
  ultimately show ?thesis by blast
qed

end
