(* ===== verification/AccountLivelock.thy ===== *)
theory AccountLivelock
  imports AccountAuthority
begin

text \<open>
  A way in which the acquisition of a lease does not return. The plan looks for leases of an
  account under the pool the account belongs to, the acquisition for leases under any pool.
  They disagree on an account that belongs to one pool and is leased under another, and the
  manager then selects the account and is refused it over and over. A health event that a
  former holder reports moves an account into that state.
\<close>

section \<open>An account leased under another pool\<close>

text \<open>
  The account is the only one of the pool and may be used; its lease is under another pool,
  and runs for a minute after the time.
\<close>

definition leased_elsewhere :: "ustring \<Rightarrow> ustring \<Rightarrow> ustring \<Rightarrow> lease_key \<Rightarrow> instant \<Rightarrow> account_db \<Rightarrow> bool" where
  "leased_elsewhere pool a holder key time db \<longleftrightarrow>
     map mem_account_id (filter (\<lambda>m. mem_pool_id m = pool) (memberships db)) = [a] \<and>
     is_enabled db a \<and> not_unauthorized db a \<and> quota_lookup db a (lit ''codex'') = None \<and>
     (\<forall>l \<in> set (leases db). unreleased l \<longrightarrow> holder_instance_id l \<noteq> holder \<and>
        (lease_account_id l = a \<longrightarrow> lease_pool_id l \<noteq> pool)) \<and>
     (\<exists>l \<in> set (leases db). lease_key_of l = key \<and> unreleased l \<and> expires_at l > timestamp time + 60) \<and>
     key_account_id key = a"

lemma leased_elsewhere_frame:
  "memberships db' = memberships db \<Longrightarrow> registry db' = registry db \<Longrightarrow> runtime_states db' = runtime_states db \<Longrightarrow>
     quotas db' = quotas db \<Longrightarrow> leases db' = leases db \<Longrightarrow>
     leased_elsewhere pool a holder key time db' = leased_elsewhere pool a holder key time db"
  by (simp add: leased_elsewhere_def is_enabled_def registry_lookup_def not_unauthorized_def runtime_lookup_def
      quota_lookup_def)

lemma pool_row:
  assumes "leased_elsewhere pool a holder key time db"
  shows "\<exists>r health pos. read_account_lease_selection_candidates db pool t = [(r, health, None, pos)] \<and>
    reg_account_id r = a \<and> reg_enabled r \<and> health \<noteq> Some Unauthorized"
proof -
  from assms obtain m where m: "filter (\<lambda>m. mem_pool_id m = pool) (memberships db) = [m]" "mem_account_id m = a"
    by (auto simp: leased_elsewhere_def)
  from m(1) have pool: "mem_pool_id m = pool" by (metis (mono_tags) filter_eq_ConsD list.set_intros(1) mem_Collect_eq set_filter)
  from assms obtain r where r: "registry_lookup db a = Some r" "reg_enabled r"
    by (auto simp: leased_elsewhere_def is_enabled_def split: option.splits)
  then have id: "reg_account_id r = a" by (auto simp: registry_lookup_def find_Some_iff)
  have "filter (\<lambda>l. lease_account_id l = a \<and> lease_pool_id l = pool \<and> unreleased l \<and> expires_at l > timestamp t)
      (leases db) = []"
    using assms by (auto simp: leased_elsewhere_def filter_empty_conv)
  then show ?thesis
    using m pool r id assms
    by (auto simp: read_account_lease_selection_candidates_def leased_elsewhere_def not_unauthorized_def Let_def
        registered_account.defs split: option.splits)
qed

lemma lone_candidate:
  assumes "intent req = Startup" and "preferred_account_id req = None" and "current_account_id req = None"
    and "just_replaced_account_id req = None"
    and "enabled c" and "selector_auth_eligible c" and "\<not> leased_to_other_holder c"
    and "quota c = \<lparr>selection_quota = None, codex_fallback = None\<rparr>"
  shows "terminal_action (evaluate_selection clock req [c]) = Select (account_id c)"
  using assms
  by (simp add: evaluate_selection_def hard_reject_reason_def is_probe_recovery_def classify_candidate_def
      effective_quota_def is_not_blocked_def Let_def)

section \<open>The loop\<close>

lemma refused_elsewhere:
  assumes "leased_elsewhere pool a holder key time db" and "timestamp now \<le> timestamp time + 60"
  shows "\<exists>e. acquire_preferred_account_lease all_well now later lid db pool a family holder ttl =
    (Inl NoEligibleAccount, append_account_pool_event db e)"
proof -
  let ?db1 = "release_expired_account_leases db now"
  from assms obtain l where l: "l \<in> set (leases db)" "lease_account_id l = a" "unreleased l"
      "expires_at l > timestamp now"
    by (auto simp: leased_elsewhere_def lease_key_of_def)
  then have "has_unreleased_lease ?db1 a"
    by (force simp: has_unreleased_lease_def list_ex_iff release_expired_account_leases_def)
  moreover have "load_active_holder_lease ?db1 holder now = None"
  proof -
    have "filter (\<lambda>l. holder_instance_id l = holder \<and> unreleased l \<and> expires_at l > timestamp now) (leases ?db1) = []"
      using assms(1) by (auto simp: filter_empty_conv release_expired_account_leases_def leased_elsewhere_def)
    then show ?thesis by (simp add: load_active_holder_lease_def)
  qed
  ultimately show ?thesis
    by (simp add: acquire_preferred_account_lease_def acquire_requested_account_lease_def all_well_def Let_def
        is_selection_family_def insert_requested_lease_def leasable_def refuse_requested_def) blast
qed

text \<open>The time that a call finds the clock at, and others that renew the lease in time.\<close>

definition previous_clock :: "instant \<Rightarrow> (nat \<Rightarrow> backend_call) \<Rightarrow> nat \<Rightarrow> instant" where
  "previous_clock t0 calls n = (case n of 0 \<Rightarrow> t0 | Suc k \<Rightarrow> call_clock (calls k))"

definition kept_elsewhere :: "ustring \<Rightarrow> ustring \<Rightarrow> ustring \<Rightarrow> lease_key \<Rightarrow> instant \<Rightarrow> (nat \<Rightarrow> backend_call) \<Rightarrow> bool" where
  "kept_elsewhere pool a holder key t0 calls \<longleftrightarrow>
     (\<forall>n. call_io (calls n) = all_well) \<and>
     (\<forall>n db. leased_elsewhere pool a holder key (previous_clock t0 calls n) db \<longrightarrow>
        leased_elsewhere pool a holder key (call_clock (calls n)) (call_interference (calls n) db))"

definition stuck :: "ustring \<Rightarrow> ustring \<Rightarrow> ustring \<Rightarrow> lease_key \<Rightarrow> instant \<Rightarrow> (nat \<Rightarrow> backend_call) \<Rightarrow> local_world \<Rightarrow> bool" where
  "stuck pool a holder key t0 calls w \<longleftrightarrow>
     script w = calls \<and> leased_elsewhere pool a holder key (previous_clock t0 calls (calls_made w)) (pool_db w)"

lemma stuck_call:
  assumes "kept_elsewhere pool a holder key t0 calls" and "stuck pool a holder key t0 calls w" and "next_call w = (c, w1)"
  shows "stuck pool a holder key t0 calls w1" and "call_io c = all_well"
    and "leased_elsewhere pool a holder key (call_clock c) (pool_db w1)"
  using assms by (auto simp: kept_elsewhere_def stuck_def next_call_def previous_clock_def)

lemma stuck_read:
  assumes "kept_elsewhere pool a holder key t0 calls" and "stuck pool a holder key t0 calls w"
  obtains c w1 where "db_read f w = (Inr (f c (pool_db w1)), w1)" and "stuck pool a holder key t0 calls w1"
    and "leased_elsewhere pool a holder key (call_clock c) (pool_db w1)"
proof -
  obtain c w1 where c: "next_call w = (c, w1)" by fastforce
  note call = stuck_call [OF assms c]
  show ?thesis
    by (rule that [OF _ call(1,3)]) (simp add: db_read_def c call(2), simp add: all_well_def)
qed

lemma stuck_attempt:
  assumes kept: "kept_elsewhere pool a holder key t0 calls" and stuck: "stuck pool a holder key t0 calls w"
    and req: "req = (request_for_intent Startup)\<lparr>req_now := now, req_pool_id := Some pool\<rparr>" and m: "holder_id m = holder"
  shows "\<exists>w'. selection_attempt (local_backend ttl legacy_auth) req pool m w = Inr w' \<and> stuck pool a holder key t0 calls w'"
proof -
  obtain w1 and c1 :: backend_call where rows: "db_read (\<lambda>c db. read_account_lease_selection_candidates db pool (call_clock c)) w =
      (Inr (read_account_lease_selection_candidates (pool_db w1) pool (call_clock c1)), w1)"
    and s1: "stuck pool a holder key t0 calls w1" and l1: "leased_elsewhere pool a holder key (call_clock c1) (pool_db w1)"
    by (rule stuck_read [OF kept stuck, of "\<lambda>c db. read_account_lease_selection_candidates db pool (call_clock c)"])
  obtain r health pos where row: "read_account_lease_selection_candidates (pool_db w1) pool (call_clock c1) =
      [(r, health, None, pos)]" and r: "reg_account_id r = a" "reg_enabled r" "health \<noteq> Some Unauthorized"
    using pool_row [OF l1] by blast
  obtain w2 and c2 :: backend_call where quota: "db_read (\<lambda>_ db. read_account_quota_state db a (lit ''codex'')) w1 =
      (Inr (read_account_quota_state (pool_db w2) a (lit ''codex'')), w2)"
    and s2: "stuck pool a holder key t0 calls w2" and l2: "leased_elsewhere pool a holder key (call_clock c2) (pool_db w2)"
    by (rule stuck_read [OF kept s1, of "\<lambda>_ db. read_account_quota_state db a (lit ''codex'')"])
  have none: "read_account_quota_state (pool_db w2) a (lit ''codex'') = None"
    using l2 by (simp add: leased_elsewhere_def read_account_quota_state_def)
  define cand where "cand = candidate_record holder (r, health, None, pos) None None"
  have cands: "load_runtime_selection_candidates pool holder (lit ''codex'') w = (Inr [cand], w2)"
    by (simp add: load_runtime_selection_candidates_def rows row r(1) quota none cand_def)
  let ?req = "req\<lparr>req_selection_family := Some (lit ''codex'')\<rparr>"
  have "terminal_action (evaluate_selection clk ?req [cand]) = Select (account_id cand)" for clk
    by (rule lone_candidate)
      (use r(2,3) in \<open>simp_all add: req request_for_intent_def cand_def candidate_record_def\<close>)
  moreover have "account_id cand = a" using r(1) by (simp add: cand_def candidate_record_def)
  ultimately have "\<exists>plan. local_plan_runtime_selection req holder w = (Inr (lit ''codex'', plan), w2) \<and>
      terminal_action plan = Select a"
    using cands
    by (simp add: local_plan_runtime_selection_def req request_for_intent_def resolve_selection_family_def
        with_candidate_def run_plan_def build_selection_plan_def)
  then obtain plan where plan: "local_plan_runtime_selection req holder w = (Inr (lit ''codex'', plan), w2)"
    "terminal_action plan = Select a" by blast
  obtain c3 w3 where c3: "next_call w2 = (c3, w3)" by fastforce
  note s3 = stuck_call [OF kept s2 c3]
  obtain e where e: "acquire_preferred_account_lease all_well (call_clock c3) (call_later c3) (call_lease_id c3) (pool_db w3)
      pool a (lit ''codex'') holder ttl = (Inl NoEligibleAccount, append_account_pool_event (pool_db w3) e)"
    using refused_elsewhere [OF s3(3)] by force
  let ?w4 = "w3\<lparr>pool_db := append_account_pool_event (pool_db w3) e\<rparr>"
  have "local_acquire_preferred_lease ttl pool a (lit ''codex'') holder w2 = (Inl NoEligibleAccount, ?w4)"
    by (simp add: local_acquire_preferred_lease_def db_write_def c3 s3(2) e granted_def)
  with plan m have "selection_attempt (local_backend ttl legacy_auth) req pool m w = Inr ?w4"
    by (simp add: selection_attempt_def local_backend_def)
  moreover have "stuck pool a holder key t0 calls ?w4"
    using s3(1) by (simp add: stuck_def leased_elsewhere_frame [of "append_account_pool_event (pool_db w3) e" "pool_db w3"])
  ultimately show ?thesis by blast
qed

text \<open>
  C35: An acquisition may never return: when the only account of a pool is leased under
  another pool, which its holder keeps renewing, a startup acquisition in the pool selects
  it, is refused it, and starts again without end.
\<close>

theorem foreign_lease_livelock:
  assumes "leased_elsewhere pool a holder key t0 (pool_db w)" and "calls_made w = 0"
    and "kept_elsewhere pool a holder key t0 (script w)" and "holder_id m = holder"
  shows "acquire_selected_lease (local_backend ttl legacy_auth)
     ((request_for_intent Startup)\<lparr>req_now := now, req_pool_id := Some pool\<rparr>) m w = None"
proof -
  have "stuck pool a holder key t0 (script w) w" using assms(1,2) by (simp add: stuck_def previous_clock_def)
  then have "run_loop (selection_attempt (local_backend ttl legacy_auth)
      ((request_for_intent Startup)\<lparr>req_now := now, req_pool_id := Some pool\<rparr>) pool m) w = None"
    by (rule run_loop_diverges) (rule stuck_attempt [OF assms(3) _ refl assms(4)])
  then show ?thesis by (simp add: acquire_selected_lease_def)
qed

text \<open>
  The state is reachable: an account leased in one pool is assigned to another one and leased
  there; then the holder that lost it reports a usage limit.
\<close>

definition second_key :: lease_key where
  "second_key = \<lparr>key_lease_id = lit ''l2'', key_account_id = lit ''a'', key_lease_epoch = 2\<rparr>"

definition reassigned_db :: account_db where
  "reassigned_db = snd (acquire_requested_account_lease all_well 0 0 (lit ''l2'')
     (snd (assign_account_pool all_well 0 leased_db (lit ''a'') (lit ''q''))) (lit ''q'') (lit ''a'') (lit ''h2'')
     (secs 300) (SelectionFamily (lit ''codex'')))"

definition stale_report :: account_health_event where
  "stale_report =
     \<lparr>he_account_id = lit ''a'', he_pool_id = lit ''p'', he_health_state = RateLimited, he_sequence_number = 1,
      he_observed_at = 0\<rparr>"

definition moved_back_db :: account_db where
  "moved_back_db = snd (record_account_health_event (\<lambda>_. all_well) (\<lambda>_. 0) reassigned_db stale_report)"

definition renewing_call :: "nat \<Rightarrow> backend_call" where
  "renewing_call n =
     \<lparr>call_io = all_well, call_attempts = (\<lambda>_. (all_well, 0)), call_clock = secs (int n), call_later = secs (int n),
      call_lease_id = replicate (Suc n) 108, call_disk = None,
      call_interference = (\<lambda>db. snd (renew_account_lease all_well db second_key (secs (int n)) (secs 300)))\<rparr>"

lemma timestamp_secs [simp]: "timestamp (secs k) = k" "timestamp 0 = 0"
  by (simp_all add: timestamp_def secs_def nanos_per_sec_def)

lemma timestamp_secs_add [simp]: "timestamp (secs k + secs j) = k + j"
  by (metis secs_def int_distrib(1) timestamp_secs(1))

lemma moved_back_reachable: "reachable_db moved_back_db"
proof -
  have "db_run [lit ''l1''] empty_db (snd (assign_account_pool all_well 0 leased_db (lit ''a'') (lit ''q'')))"
    using db_run.step [OF db_run_leased db_step.assign_pool] by simp
  from db_run.step [OF this db_step.acquire_requested] have "db_run [lit ''l2'', lit ''l1''] empty_db reassigned_db"
    by (simp add: reassigned_db_def)
  from db_run.step [OF this db_step.health] have "db_run [lit ''l2'', lit ''l1''] empty_db moved_back_db"
    by (simp add: moved_back_db_def)
  then show ?thesis unfolding reachable_db_def by (rule exI)
qed

lemma begin_well: "begin_account_pool_write_transaction all_well name = None"
  by (simp add: begin_account_pool_write_transaction_def all_well_def ACCOUNT_POOL_WRITE_RETRY_ATTEMPTS_def
      numeral_eq_Suc)

lemma renewing_kept: "kept_elsewhere (lit ''p'') (lit ''a'') (lit ''h3'') second_key 0 renewing_call"
proof -
  have "leased_elsewhere (lit ''p'') (lit ''a'') (lit ''h3'') second_key (secs (int n))
      (snd (renew_account_lease all_well db second_key (secs (int n)) (secs 300)))"
    if before: "leased_elsewhere (lit ''p'') (lit ''a'') (lit ''h3'') second_key (previous_clock 0 renewing_call n) db" for n db
  proof -
    let ?db = "snd (renew_account_lease all_well db second_key (secs (int n)) (secs 300))"
    define f where "f l = (if key_matches second_key l \<and> expires_at l > int n
        then l\<lparr>renewed_at := int n, expires_at := int n + 300\<rparr> else l)" for l
    have tables: "memberships ?db = memberships db" "registry ?db = registry db" "runtime_states ?db = runtime_states db"
        "quotas ?db = quotas db"
      by (simp_all add: renew_account_lease_def in_write_transaction_def Let_def split: option.split)
    obtain l where l: "l \<in> set (leases db)" "lease_key_of l = second_key" "unreleased l"
        "expires_at l > timestamp (previous_clock 0 renewing_call n) + 60"
      using before by (auto simp: leased_elsewhere_def)
    have "timestamp (previous_clock 0 renewing_call n) \<ge> int n - 1"
      by (cases n) (simp_all add: previous_clock_def renewing_call_def)
    with l(4) have late: "expires_at l > int n" by simp
    have hit: "key_matches second_key l" using l(2,3) by (simp add: key_matches_key)
    have leases: "leases ?db = map f (leases db)"
      using l(1) hit late
      by (auto simp: renew_account_lease_def in_write_transaction_def begin_well Let_def f_def list_ex_iff
          split: option.split) (simp_all add: all_well_def)
    have upd: "lease_update f" by (auto simp: f_def lease_update_def unreleased_def)
    have "f l \<in> set (leases ?db)" using l(1) leases by simp
    moreover have "lease_key_of (f l) = second_key" "unreleased (f l)" "expires_at (f l) > int n + 60"
      using hit late l(2,3) by (simp_all add: f_def lease_key_of_def unreleased_def)
    ultimately have "\<exists>l \<in> set (leases ?db). lease_key_of l = second_key \<and> unreleased l \<and> expires_at l > int n + 60"
      by blast
    moreover have "\<forall>k \<in> set (leases ?db). unreleased k \<longrightarrow> holder_instance_id k \<noteq> lit ''h3'' \<and>
        (lease_account_id k = lit ''a'' \<longrightarrow> lease_pool_id k \<noteq> lit ''p'')"
      using before lease_updateD [OF upd] by (auto simp: leases leased_elsewhere_def)
    ultimately show ?thesis
      using before tables
      by (simp add: leased_elsewhere_def is_enabled_def registry_lookup_def not_unauthorized_def runtime_lookup_def
          quota_lookup_def)
  qed
  then show ?thesis by (simp add: kept_elsewhere_def renewing_call_def)
qed

lemma foreign_lease_livelock_witness:
  "\<exists>w. reachable_db (pool_db w) \<and>
     acquire_selected_lease (local_backend (secs 300) (\<lambda>_. Inr None))
       ((request_for_intent Startup)\<lparr>req_now := None, req_pool_id := Some (lit ''p'')\<rparr>)
       \<lparr>mgr_config = default_account_pool_config, holder_id = lit ''h3'', active_lease = None,
        next_health_event_sequence = 0, bootstrapped_legacy_auth = False, proactive_switch_state = None,
        pending_rotation = None, last_proactively_replaced = None\<rparr> w = None"
proof -
  let ?w = "\<lparr>pool_db = moved_back_db, auth_homes = (\<lambda>_. \<lparr>epoch_marker = None, stored_auth = None\<rparr>),
      script = renewing_call, calls_made = 0\<rparr>"
  have tables: "map mem_account_id (filter (\<lambda>m. mem_pool_id m = lit ''p'') (memberships moved_back_db)) = [lit ''a'']"
      "is_enabled moved_back_db (lit ''a'')" "not_unauthorized moved_back_db (lit ''a'')"
      "quota_lookup moved_back_db (lit ''a'') (lit ''codex'') = None"
    by code_simp+
  have "list_all (\<lambda>l. unreleased l \<longrightarrow> holder_instance_id l \<noteq> lit ''h3'' \<and>
      (lease_account_id l = lit ''a'' \<longrightarrow> lease_pool_id l \<noteq> lit ''p'')) (leases moved_back_db)"
    and "list_ex (\<lambda>l. lease_key_of l = second_key \<and> unreleased l \<and> expires_at l > 60) (leases moved_back_db)"
    by code_simp+
  then have "leased_elsewhere (lit ''p'') (lit ''a'') (lit ''h3'') second_key 0 (pool_db ?w)"
    using tables by (simp add: leased_elsewhere_def list_all_iff list_ex_iff timestamp_def second_key_def)
  from foreign_lease_livelock [OF this, of _ "secs 300" "\<lambda>_. Inr None" None] renewing_kept moved_back_reachable
  show ?thesis by (intro exI [of _ ?w]) simp
qed

end
