(* ===== verification/NetworkHost.thy ===== *)
theory NetworkHost
  imports ExecRule Utf8Text "HOL-Library.Word"
begin

unbundle bit_operations_syntax

text \<open>
  Hosts and addresses of the network proxy (\<open>network-proxy/src/policy.rs\<close>): the text of IP
  addresses as the standard library reads it, the classification of addresses that are not on
  the public internet, and the normalisation of hosts.
\<close>

section \<open>Text of IP addresses\<close>

type_synonym ipv4 = "32 word"
type_synonym ipv6 = "128 word"

datatype ip_addr = V4 ipv4 | V6 ipv6

definition digit_value :: "int \<Rightarrow> uchar \<Rightarrow> int option" where
  "digit_value radix c =
     (let d = (if 48 \<le> c \<and> c \<le> 57 then int c - 48
               else if 97 \<le> c \<and> c \<le> 122 then int c - 87
               else if 65 \<le> c \<and> c \<le> 90 then int c - 55 else radix)
      in if d < radix then Some d else None)"

fun read_digits :: "int \<Rightarrow> ustring \<Rightarrow> int list \<times> ustring" where
  "read_digits radix [] = ([], [])"
| "read_digits radix (c # s) =
     (case digit_value radix c of
        None \<Rightarrow> ([], c # s)
      | Some d \<Rightarrow> (let (ds, rest) = read_digits radix s in (d # ds, rest)))"

text \<open>\<open>Parser::read_number\<close>: the longest run of digits, of at most \<open>most\<close> of them.\<close>

definition read_number ::
  "int \<Rightarrow> nat \<Rightarrow> bool \<Rightarrow> int \<Rightarrow> ustring \<Rightarrow> (int \<times> ustring) option" where
  "read_number radix most zero_prefix bound s =
     (case read_digits radix s of
        (ds, rest) \<Rightarrow>
          (let n = foldl (\<lambda>n d. radix * n + d) 0 ds
           in if ds = [] \<or> most < length ds \<or> bound < n
                 \<or> (\<not> zero_prefix \<and> hd ds = 0 \<and> 1 < length ds)
              then None else Some (n, rest)))"

definition read_separator ::
  "uchar \<Rightarrow> nat \<Rightarrow> (ustring \<Rightarrow> ('a \<times> ustring) option) \<Rightarrow> ustring \<Rightarrow> ('a \<times> ustring) option" where
  "read_separator sep i inner s =
     (if i = 0 then inner s
      else case s of [] \<Rightarrow> None | c # rest \<Rightarrow> if c = sep then inner rest else None)"

fun read_octets :: "nat \<Rightarrow> nat \<Rightarrow> ustring \<Rightarrow> (int list \<times> ustring) option" where
  "read_octets 0 i s = Some ([], s)"
| "read_octets (Suc n) i s =
     (case read_separator 46 i (read_number 10 3 False 255) s of
        None \<Rightarrow> None
      | Some (v, rest) \<Rightarrow> map_option (\<lambda>(vs, r). (v # vs, r)) (read_octets n (Suc i) rest))"

definition ipv4_of_octets :: "int list \<Rightarrow> ipv4" where
  "ipv4_of_octets os = word_of_int (foldl (\<lambda>n d. 256 * n + d) 0 os)"

definition ipv6_of_segments :: "int list \<Rightarrow> ipv6" where
  "ipv6_of_segments gs = word_of_int (foldl (\<lambda>n d. 65536 * n + d) 0 gs)"

fun read_groups :: "nat \<Rightarrow> nat \<Rightarrow> ustring \<Rightarrow> int list \<times> bool \<times> ustring" where
  "read_groups 0 i s = ([], False, s)"
| "read_groups (Suc r) i s =
     (case (if 0 < r then read_separator 58 i (read_octets 4 0) s else None) of
        Some (os, rest) \<Rightarrow>
          ([256 * os ! 0 + os ! 1, 256 * os ! 2 + os ! 3], True, rest)
      | None \<Rightarrow>
          (case read_separator 58 i (read_number 16 4 True 65535) s of
             None \<Rightarrow> ([], False, s)
           | Some (g, rest) \<Rightarrow>
               (let (gs, v4, rest') = read_groups r (Suc i) rest in (g # gs, v4, rest'))))"

definition read_ipv6 :: "ustring \<Rightarrow> (ipv6 \<times> ustring) option" where
  "read_ipv6 s =
     (case read_groups 8 0 s of
        (front, v4, rest) \<Rightarrow>
          if length front = 8 then Some (ipv6_of_segments front, rest)
          else if v4 \<or> \<not> prefix [58, 58] rest then None
          else (case read_groups (8 - (length front + 1)) 0 (drop 2 rest) of
                  (rear, _, rest') \<Rightarrow>
                    Some (ipv6_of_segments
                           (front @ replicate (8 - length front - length rear) 0 @ rear), rest')))"

text \<open>\<open>str::parse::<IpAddr>\<close>: the whole text has to be read.\<close>

definition parse_ip :: "ustring \<Rightarrow> ip_addr option" where
  "parse_ip s =
     (case (case read_octets 4 0 s of
              Some (os, rest) \<Rightarrow> Some (V4 (ipv4_of_octets os), rest)
            | None \<Rightarrow> map_option (\<lambda>(ip, rest). (V6 ip, rest)) (read_ipv6 s)) of
        Some (ip, []) \<Rightarrow> Some ip
      | _ \<Rightarrow> None)"

section \<open>Addresses that are not public\<close>

text \<open>The predicates of \<open>Ipv4Addr\<close> and \<open>Ipv6Addr\<close> the code calls.\<close>

definition octet0 :: "ipv4 \<Rightarrow> int" where
  "octet0 ip = uint (drop_bit 24 ip)"

definition v4_is_loopback :: "ipv4 \<Rightarrow> bool" where
  "v4_is_loopback ip \<longleftrightarrow> octet0 ip = 127"

definition v4_is_private :: "ipv4 \<Rightarrow> bool" where
  "v4_is_private ip \<longleftrightarrow>
     octet0 ip = 10 \<or> drop_bit 20 ip = 0xAC1 \<or> drop_bit 16 ip = 0xC0A8"

definition v4_is_link_local :: "ipv4 \<Rightarrow> bool" where
  "v4_is_link_local ip \<longleftrightarrow> drop_bit 16 ip = 0xA9FE"

definition v4_is_multicast :: "ipv4 \<Rightarrow> bool" where
  "v4_is_multicast ip \<longleftrightarrow> 224 \<le> octet0 ip \<and> octet0 ip \<le> 239"

definition v6_to_v4 :: "ipv6 \<Rightarrow> ipv4 option" where
  "v6_to_v4 ip = (if drop_bit 32 ip = 0 \<or> drop_bit 32 ip = 0xFFFF then Some (ucast ip) else None)"

definition v6_is_multicast :: "ipv6 \<Rightarrow> bool" where
  "v6_is_multicast ip \<longleftrightarrow> drop_bit 120 ip = 0xFF"

definition v6_is_unique_local :: "ipv6 \<Rightarrow> bool" where
  "v6_is_unique_local ip \<longleftrightarrow> drop_bit 112 ip AND 0xFE00 = 0xFC00"

definition v6_is_unicast_link_local :: "ipv6 \<Rightarrow> bool" where
  "v6_is_unicast_link_local ip \<longleftrightarrow> drop_bit 112 ip AND 0xFFC0 = 0xFE80"

fun ip_is_loopback :: "ip_addr \<Rightarrow> bool" where
  "ip_is_loopback (V4 ip) = v4_is_loopback ip"
| "ip_is_loopback (V6 ip) = (ip = 1)"

text \<open>The code's own checks.\<close>

definition ipv4_in_cidr :: "ipv4 \<Rightarrow> int list \<Rightarrow> nat \<Rightarrow> bool" where
  "ipv4_in_cidr ip base pre =
     (let base = ipv4_of_octets base;
          mask = (if pre = 0 then 0 else push_bit (32 - pre) (- 1 :: ipv4))
      in (ip AND mask) = (base AND mask))"

definition is_non_public_ipv4 :: "ipv4 \<Rightarrow> bool" where
  "is_non_public_ipv4 ip \<longleftrightarrow>
     v4_is_loopback ip \<or> v4_is_private ip \<or> v4_is_link_local ip \<or> ip = 0 \<or> v4_is_multicast ip
     \<or> ip = - 1
     \<or> ipv4_in_cidr ip [0, 0, 0, 0] 8
     \<or> ipv4_in_cidr ip [100, 64, 0, 0] 10
     \<or> ipv4_in_cidr ip [192, 0, 0, 0] 24
     \<or> ipv4_in_cidr ip [192, 0, 2, 0] 24
     \<or> ipv4_in_cidr ip [198, 18, 0, 0] 15
     \<or> ipv4_in_cidr ip [198, 51, 100, 0] 24
     \<or> ipv4_in_cidr ip [203, 0, 113, 0] 24
     \<or> ipv4_in_cidr ip [240, 0, 0, 0] 4"

definition is_non_public_ipv6 :: "ipv6 \<Rightarrow> bool" where
  "is_non_public_ipv6 ip =
     (case v6_to_v4 ip of
        Some v4 \<Rightarrow> is_non_public_ipv4 v4 \<or> ip = 1
      | None \<Rightarrow> ip = 1 \<or> ip = 0 \<or> v6_is_multicast ip \<or> v6_is_unique_local ip
               \<or> v6_is_unicast_link_local ip)"

fun is_non_public_ip :: "ip_addr \<Rightarrow> bool" where
  "is_non_public_ip (V4 ip) = is_non_public_ipv4 ip"
| "is_non_public_ip (V6 ip) = is_non_public_ipv6 ip"

section \<open>Hosts\<close>

definition normalize_dns_host :: "ustring \<Rightarrow> ustring" where
  "normalize_dns_host host = trim_end_matches 46 (to_ascii_lowercase host)"

definition normalize_host :: "ustring \<Rightarrow> ustring" where
  "normalize_host raw =
     (let host = trim raw
      in case (if prefix [91] host then position (\<lambda>c. c = 93) host else None) of
           Some i \<Rightarrow> normalize_dns_host (drop 1 (take i host))
         | None \<Rightarrow>
             if count_list host 58 = 1 then normalize_dns_host (hd (split_on 58 host))
             else normalize_dns_host host)"

definition host_parse :: "ustring \<Rightarrow> ustring option" where
  "host_parse input =
     (let normalized = normalize_host input in if normalized = [] then None else Some normalized)"

definition without_scope :: "ustring \<Rightarrow> ustring" where
  "without_scope host = (case split_once 37 host of Some (ip, _) \<Rightarrow> ip | None \<Rightarrow> host)"

definition is_loopback_host :: "ustring \<Rightarrow> bool" where
  "is_loopback_host host =
     (let host = without_scope host
      in if host = lit ''localhost'' then True
         else case parse_ip host of Some ip \<Rightarrow> ip_is_loopback ip | None \<Rightarrow> False)"

section \<open>The reserved IPv4 blocks\<close>

text \<open>The special-purpose blocks as intervals, from the RFCs the comments of the code name.\<close>

definition reserved_ipv4_blocks :: "(int \<times> int) list" where
  "reserved_ipv4_blocks =
     [(0x00000000, 0x00FFFFFF), (0x0A000000, 0x0AFFFFFF), (0x64400000, 0x647FFFFF),
      (0x7F000000, 0x7FFFFFFF), (0xA9FE0000, 0xA9FEFFFF), (0xAC100000, 0xAC1FFFFF),
      (0xC0000000, 0xC00000FF), (0xC0000200, 0xC00002FF), (0xC0A80000, 0xC0A8FFFF),
      (0xC6120000, 0xC613FFFF), (0xC6336400, 0xC63364FF), (0xCB007100, 0xCB0071FF),
      (0xE0000000, 0xFFFFFFFF)]"

lemma uint_drop_bit: "uint (drop_bit k w) = uint w div 2 ^ k"
  for w :: "'a::len word"
proof -
  have "uint w div 2 ^ k \<le> uint w div 1" by (rule zdiv_mono2) simp_all
  then have "uint w div 2 ^ k \<le> uint w" by simp
  then have "uint w div 2 ^ k < 2 ^ LENGTH('a)" using uint_bounded [of w] by linarith
  then show ?thesis
    by (simp only: unsigned_drop_bit_eq) (simp add: drop_bit_eq_div take_bit_eq_mod)
qed

lemma masked_eq_iff_drop_bit:
  "(a AND push_bit k (- 1)) = (b AND push_bit k (- 1)) \<longleftrightarrow> drop_bit k a = drop_bit k b"
  for a b :: "'a::len word"
proof
  assume "(a AND push_bit k (- 1)) = (b AND push_bit k (- 1))"
  then have "drop_bit k (a AND push_bit k (- 1)) = drop_bit k (b AND push_bit k (- 1))" by simp
  moreover have "drop_bit k (x AND push_bit k (- 1)) = drop_bit k x" for x :: "'a word"
    by (rule bit_word_eqI)
      (auto simp: bit_drop_bit_eq bit_and_iff bit_push_bit_iff bit_not_iff bit_mask_iff
        dest: bit_imp_le_length)
  ultimately show "drop_bit k a = drop_bit k b" by simp
next
  assume eq: "drop_bit k a = drop_bit k b"
  have "(x AND push_bit k (- 1)) = push_bit k (drop_bit k x)" for x :: "'a word"
    by (rule bit_word_eqI)
      (auto simp: bit_drop_bit_eq bit_and_iff bit_push_bit_iff bit_not_iff bit_mask_iff
        dest: bit_imp_le_length)
  with eq show "(a AND push_bit k (- 1)) = (b AND push_bit k (- 1))" by simp
qed

lemma div_eq_range:
  fixes x :: int
  assumes "0 < d"
  shows "x div d = q \<longleftrightarrow> q * d \<le> x \<and> x \<le> q * d + d - 1"
proof
  assume "x div d = q"
  then have "x = q * d + x mod d" using div_mult_mod_eq [of x d] by simp
  moreover have "0 \<le> x mod d" "x mod d < d" using assms by simp_all
  ultimately show "q * d \<le> x \<and> x \<le> q * d + d - 1" by linarith
next
  assume "q * d \<le> x \<and> x \<le> q * d + d - 1"
  then show "x div d = q" using assms
    by (intro int_div_pos_eq [of x d q "x - q * d"]) (auto simp: algebra_simps)
qed

lemma drop_bit_eq_range:
  fixes ip :: "'a::len word"
  shows "drop_bit k ip = w \<longleftrightarrow>
    uint w * 2 ^ k \<le> uint ip \<and> uint ip \<le> uint w * 2 ^ k + 2 ^ k - 1"
proof -
  have "drop_bit k ip = w \<longleftrightarrow> uint ip div 2 ^ k = uint w"
    by (simp add: word_uint_eq_iff uint_drop_bit)
  then show ?thesis by (simp add: div_eq_range)
qed

lemma ipv4_in_cidr_range:
  assumes "0 < p"
  shows "ipv4_in_cidr ip base p \<longleftrightarrow>
    (let b = uint (ipv4_of_octets base) div 2 ^ (32 - p) * 2 ^ (32 - p)
     in b \<le> uint ip \<and> uint ip \<le> b + 2 ^ (32 - p) - 1)"
  using assms
  by (simp add: ipv4_in_cidr_def masked_eq_iff_drop_bit drop_bit_eq_range uint_drop_bit Let_def
      del: push_bit_minus_one_eq_not_mask)

lemma uint_ipv4 [simp]: "uint (ip :: ipv4) \<le> 0xFFFFFFFF"
  using uint_bounded [of ip] by simp

lemma octet0_eq: "octet0 ip = q \<longleftrightarrow> q * 0x1000000 \<le> uint ip \<and> uint ip \<le> q * 0x1000000 + 0xFFFFFF"
  by (simp add: octet0_def uint_drop_bit div_eq_range add.commute)

lemma is_non_public_ipv4_iff:
  "is_non_public_ipv4 ip \<longleftrightarrow>
     list_ex (\<lambda>(lo, hi). lo \<le> uint ip \<and> uint ip \<le> hi) reserved_ipv4_blocks"
proof -
  have multicast: "v4_is_multicast ip \<longleftrightarrow> 0xE0000000 \<le> uint ip \<and> uint ip \<le> 0xEFFFFFFF"
    unfolding v4_is_multicast_def octet0_def by (simp add: uint_drop_bit) linarith
  have zero: "ip = 0 \<longleftrightarrow> uint ip = 0" by (simp add: word_uint_eq_iff)
  have ones: "ip = - 1 \<longleftrightarrow> uint ip = 0xFFFFFFFF"
    by (simp add: word_uint_eq_iff unsigned_minus_1_eq_mask mask_eq_exp_minus_1)
  have upper: "v4_is_multicast ip \<or> ip = - 1 \<or> ipv4_in_cidr ip [240, 0, 0, 0] 4 \<longleftrightarrow>
      0xE0000000 \<le> uint ip \<and> uint ip \<le> 0xFFFFFFFF"
    unfolding multicast ones
    by (simp add: ipv4_in_cidr_range ipv4_of_octets_def) linarith
  have lower: "ip = 0 \<or> ipv4_in_cidr ip [0, 0, 0, 0] 8 \<longleftrightarrow> 0 \<le> uint ip \<and> uint ip \<le> 0x00FFFFFF"
    unfolding zero by (simp add: ipv4_in_cidr_range ipv4_of_octets_def) linarith
  have "is_non_public_ipv4 ip \<longleftrightarrow>
      (ip = 0 \<or> ipv4_in_cidr ip [0, 0, 0, 0] 8) \<or> v4_is_private ip \<or>
      ipv4_in_cidr ip [100, 64, 0, 0] 10 \<or> v4_is_loopback ip \<or> v4_is_link_local ip \<or>
      ipv4_in_cidr ip [192, 0, 0, 0] 24 \<or> ipv4_in_cidr ip [192, 0, 2, 0] 24 \<or>
      ipv4_in_cidr ip [198, 18, 0, 0] 15 \<or> ipv4_in_cidr ip [198, 51, 100, 0] 24 \<or>
      ipv4_in_cidr ip [203, 0, 113, 0] 24 \<or>
      (v4_is_multicast ip \<or> ip = - 1 \<or> ipv4_in_cidr ip [240, 0, 0, 0] 4)"
    unfolding is_non_public_ipv4_def by blast
  also have "\<dots> \<longleftrightarrow> list_ex (\<lambda>(lo, hi). lo \<le> uint ip \<and> uint ip \<le> hi) reserved_ipv4_blocks"
    unfolding upper lower v4_is_private_def v4_is_loopback_def v4_is_link_local_def octet0_eq
      drop_bit_eq_range reserved_ipv4_blocks_def
    by (simp add: ipv4_in_cidr_range ipv4_of_octets_def) (simp only: disj_ac)
  finally show ?thesis .
qed

text \<open>
  C27: the addresses the proxy treats as not public, by the checks of the standard library and its
  own masks, are exactly the special-purpose IPv4 blocks: thirteen intervals of 32-bit numbers,
  with every mask and every comparison of an octet at the right boundary.
\<close>

theorem non_public_ipv4_blocks:
  "is_non_public_ipv4 ip \<longleftrightarrow>
     list_ex (\<lambda>(lo, hi). lo \<le> uint ip \<and> uint ip \<le> hi) reserved_ipv4_blocks"
  by (rule is_non_public_ipv4_iff)

text \<open>
  Some IPv6 addresses that are not globally routable count as public: documentation, site-local
  and the translation prefix that carries 127.0.0.1.
\<close>

lemma reserved_ipv6_counts_as_public:
  "\<not> is_non_public_ip (V6 0x20010DB8000000000000000000000001)"
  "\<not> is_non_public_ip (V6 0xFEC00000000000000000000000000001)"
  "\<not> is_non_public_ip (V6 0x0064FF9B00000000000000007F000001)"
  by (simp_all add: is_non_public_ipv6_def v6_to_v4_def v6_is_multicast_def v6_is_unique_local_def
      v6_is_unicast_link_local_def)
end
