(* ===== verification/NetworkPatterns.thy ===== *)
theory NetworkPatterns
  imports NetworkHost
begin

text \<open>
  Domain patterns of the network proxy (\<open>network-proxy/src/policy.rs\<close>): the three forms of a
  pattern and their comparison, and the compilation of pattern lists to sets of globs. The
  matcher of the \<open>globset\<close> package and the host parser of the \<open>url\<close> package are the fields of
  the parameter \<open>net_lib\<close>; \<open>glob_law\<close> states what is documented of the matcher.
\<close>

section \<open>Domain patterns\<close>

text \<open>
  The packages the code calls: whether one glob pattern is well formed, whether a set of them can
  be compiled, whether a (case-insensitive) glob matches a host, and \<open>url::Host::parse\<close>
  followed by \<open>to_string\<close>.
\<close>

record net_lib =
  glob_ok :: "ustring \<Rightarrow> bool"
  globset_ok :: "ustring list \<Rightarrow> bool"
  glob_match :: "ustring \<Rightarrow> ustring \<Rightarrow> bool"
  url_host :: "ustring \<Rightarrow> ustring option"

datatype domain_pattern =
    ApexAndSubdomains ustring
  | SubdomainsOnly ustring
  | Exact ustring

definition normalize_pattern :: "ustring \<Rightarrow> ustring" where
  "normalize_pattern raw =
     (let pattern = trim raw
      in if pattern = lit ''*'' then lit ''*''
         else case strip_prefix (lit ''**.'') pattern of
                Some domain \<Rightarrow> lit ''**.'' @ normalize_host domain
              | None \<Rightarrow>
                  (case strip_prefix (lit ''*.'') pattern of
                     Some domain \<Rightarrow> lit ''*.'' @ normalize_host domain
                   | None \<Rightarrow> normalize_host pattern))"

definition parse_domain :: "ustring \<Rightarrow> (ustring \<Rightarrow> domain_pattern) \<Rightarrow> domain_pattern" where
  "parse_domain domain build =
     (let domain = trim domain in if domain = [] then Exact [] else build domain)"

definition domain_pattern_parse :: "ustring \<Rightarrow> domain_pattern" where
  "domain_pattern_parse raw =
     (let input = trim raw
      in if input = [] then Exact []
         else case strip_prefix (lit ''**.'') input of
                Some domain \<Rightarrow> parse_domain domain ApexAndSubdomains
              | None \<Rightarrow>
                  (case strip_prefix (lit ''*.'') input of
                     Some domain \<Rightarrow> parse_domain domain SubdomainsOnly
                   | None \<Rightarrow> Exact input))"

definition parse_domain_for_constraints :: "net_lib \<Rightarrow> ustring \<Rightarrow> ustring" where
  "parse_domain_for_constraints lib raw =
     (let domain = trim_end_matches 46 (trim raw)
      in if domain = [] then []
         else
           (let host = (if prefix [91] domain \<and> suffix [93] domain
                        then drop 1 (take (length domain - 1) domain) else domain)
            in if 42 \<in> set host \<or> 63 \<in> set host \<or> 37 \<in> set host then domain
               else case url_host lib host of Some h \<Rightarrow> h | None \<Rightarrow> []))"

definition parse_for_constraints :: "net_lib \<Rightarrow> ustring \<Rightarrow> domain_pattern" where
  "parse_for_constraints lib raw =
     (let input = trim raw
      in if input = [] then Exact []
         else case strip_prefix (lit ''**.'') input of
                Some domain \<Rightarrow> ApexAndSubdomains (parse_domain_for_constraints lib domain)
              | None \<Rightarrow>
                  (case strip_prefix (lit ''*.'') input of
                     Some domain \<Rightarrow> SubdomainsOnly (parse_domain_for_constraints lib domain)
                   | None \<Rightarrow> Exact (parse_domain_for_constraints lib input)))"

definition normalize_domain :: "ustring \<Rightarrow> ustring" where
  "normalize_domain domain = to_ascii_lowercase (trim_end_matches 46 domain)"

definition domain_eq :: "ustring \<Rightarrow> ustring \<Rightarrow> bool" where
  "domain_eq left right \<longleftrightarrow> normalize_domain left = normalize_domain right"

definition is_subdomain_or_equal :: "ustring \<Rightarrow> ustring \<Rightarrow> bool" where
  "is_subdomain_or_equal child parent =
     (let child = normalize_domain child; parent = normalize_domain parent
      in if child = parent then True else suffix (46 # parent) child)"

definition is_strict_subdomain :: "ustring \<Rightarrow> ustring \<Rightarrow> bool" where
  "is_strict_subdomain child parent =
     (let child = normalize_domain child; parent = normalize_domain parent
      in child \<noteq> parent \<and> suffix (46 # parent) child)"

fun pattern_allows :: "domain_pattern \<Rightarrow> domain_pattern \<Rightarrow> bool" where
  "pattern_allows (Exact domain) (Exact candidate) = domain_eq candidate domain"
| "pattern_allows (Exact domain) _ = False"
| "pattern_allows (SubdomainsOnly domain) (Exact candidate) = is_strict_subdomain candidate domain"
| "pattern_allows (SubdomainsOnly domain) (SubdomainsOnly candidate) =
     is_subdomain_or_equal candidate domain"
| "pattern_allows (SubdomainsOnly domain) (ApexAndSubdomains candidate) =
     is_strict_subdomain candidate domain"
| "pattern_allows (ApexAndSubdomains domain) (Exact candidate) =
     is_subdomain_or_equal candidate domain"
| "pattern_allows (ApexAndSubdomains domain) (SubdomainsOnly candidate) =
     is_subdomain_or_equal candidate domain"
| "pattern_allows (ApexAndSubdomains domain) (ApexAndSubdomains candidate) =
     is_subdomain_or_equal candidate domain"

definition expand_domain_pattern :: "ustring \<Rightarrow> ustring list" where
  "expand_domain_pattern pattern =
     (case domain_pattern_parse pattern of
        Exact domain \<Rightarrow> [domain]
      | SubdomainsOnly domain \<Rightarrow> [lit ''?*.'' @ domain]
      | ApexAndSubdomains domain \<Rightarrow> [domain, lit ''?*.'' @ domain])"

definition is_global_wildcard_domain_pattern :: "ustring \<Rightarrow> bool" where
  "is_global_wildcard_domain_pattern pattern \<longleftrightarrow>
     list_ex (\<lambda>c. c = lit ''*'') (expand_domain_pattern (normalize_pattern pattern))"

section \<open>Compiled patterns\<close>

datatype proxy_error =
    UnsupportedGlobalWildcard
  | InvalidGlob ustring
  | GlobSetFailed
  | NotAbsolute nat ustring
  | SocketPath nat ustring
  | InvalidValue ustring "ustring list" "ustring list"
  | MissingProxyHost ustring
  | InvalidNetworkHost
  | MitmFailed
  | ReloaderError ustring

datatype global_wildcard = AllowWildcard | RejectWildcard

type_synonym globset = "ustring list"

definition is_match :: "net_lib \<Rightarrow> globset \<Rightarrow> ustring \<Rightarrow> bool" where
  "is_match lib gs host \<longleftrightarrow> list_ex (\<lambda>g. glob_match lib g host) gs"

fun add_candidates :: "net_lib \<Rightarrow> ustring list \<Rightarrow> globset \<Rightarrow> proxy_error + globset" where
  "add_candidates lib [] acc = Inr acc"
| "add_candidates lib (c # cs) acc =
     (if c \<in> set acc then add_candidates lib cs acc
      else if glob_ok lib c then add_candidates lib cs (acc @ [c]) else Inl (InvalidGlob c))"

fun compile_loop ::
  "net_lib \<Rightarrow> global_wildcard \<Rightarrow> ustring list \<Rightarrow> globset \<Rightarrow> proxy_error + globset" where
  "compile_loop lib policy [] acc = Inr acc"
| "compile_loop lib policy (p # ps) acc =
     (if policy = RejectWildcard \<and> is_global_wildcard_domain_pattern p
      then Inl UnsupportedGlobalWildcard
      else case add_candidates lib (expand_domain_pattern (normalize_pattern p)) acc of
             Inl e \<Rightarrow> Inl e
           | Inr acc' \<Rightarrow> compile_loop lib policy ps acc')"

definition compile_globset_with_policy ::
  "net_lib \<Rightarrow> ustring list \<Rightarrow> global_wildcard \<Rightarrow> proxy_error + globset" where
  "compile_globset_with_policy lib patterns policy =
     (case compile_loop lib policy patterns [] of
        Inl e \<Rightarrow> Inl e
      | Inr gs \<Rightarrow> if globset_ok lib gs then Inr gs else Inl GlobSetFailed)"

definition compile_allowlist_globset :: "net_lib \<Rightarrow> ustring list \<Rightarrow> proxy_error + globset" where
  "compile_allowlist_globset lib patterns = compile_globset_with_policy lib patterns AllowWildcard"

definition compile_denylist_globset :: "net_lib \<Rightarrow> ustring list \<Rightarrow> proxy_error + globset" where
  "compile_denylist_globset lib patterns = compile_globset_with_policy lib patterns RejectWildcard"


section \<open>What a pattern covers\<close>

text \<open>
  The hosts each form of a pattern stands for: the host itself, its subdomains, or both
  (the comment on the supported patterns in \<open>compile_globset_with_policy\<close>).
\<close>

fun pattern_covers :: "domain_pattern \<Rightarrow> ustring \<Rightarrow> bool" where
  "pattern_covers (Exact domain) host = domain_eq host domain"
| "pattern_covers (SubdomainsOnly domain) host = is_strict_subdomain host domain"
| "pattern_covers (ApexAndSubdomains domain) host = is_subdomain_or_equal host domain"

fun pattern_domain :: "domain_pattern \<Rightarrow> ustring" where
  "pattern_domain (Exact domain) = domain"
| "pattern_domain (SubdomainsOnly domain) = domain"
| "pattern_domain (ApexAndSubdomains domain) = domain"

lemmas subdomain_defs = is_subdomain_or_equal_def is_strict_subdomain_def domain_eq_def Let_def

lemma suffix_dot_trans: "suffix (d # p) c \<Longrightarrow> suffix (d # q) p \<Longrightarrow> suffix (d # q) c"
  by (auto simp: suffix_def)

lemma suffix_dot_neq: "suffix (d # p) c \<Longrightarrow> c \<noteq> p"
  by (auto dest: suffix_length_le)

lemma pattern_allows_sound:
  "pattern_allows m c \<Longrightarrow> pattern_covers c h \<Longrightarrow> pattern_covers m h"
  by (cases m; cases c)
    (auto simp: subdomain_defs split: if_splits dest: suffix_dot_trans suffix_dot_neq)

lemma trim_end_matches_append:
  "trim_end_matches x b \<noteq> [] \<Longrightarrow> trim_end_matches x (a @ b) = a @ trim_end_matches x b"
  by (auto simp: trim_end_matches_def dropWhile_append)

lemma normalize_domain_Nil: "normalize_domain d = [] \<longleftrightarrow> trim_end_matches 46 d = []"
  by (simp add: normalize_domain_def to_ascii_lowercase_def)

lemma normalize_domain_label:
  assumes "normalize_domain d \<noteq> []" "to_ascii_lower x = x"
  shows "normalize_domain (x # 46 # d) = x # 46 # normalize_domain d"
proof -
  have "trim_end_matches 46 ([x, 46] @ d) = [x, 46] @ trim_end_matches 46 d"
    using assms(1) by (intro trim_end_matches_append) (simp add: normalize_domain_Nil)
  then show ?thesis
    using assms(2) by (simp add: normalize_domain_def to_ascii_lowercase_def to_ascii_lower_def)
qed

lemma suffix_label:
  assumes "suffix (46 # q) (x # 46 # c)" "x \<noteq> 46"
  shows "q = c \<or> suffix (46 # q) c"
  using assms by (auto simp: suffix_Cons)

text \<open>Two subdomains of a domain, to tell a pattern with subdomains from a single host.\<close>

lemma subdomain_x:
  assumes "normalize_domain d \<noteq> []"
  shows "is_strict_subdomain (120 # 46 # d) d" "is_strict_subdomain (121 # 46 # d) d"
    "normalize_domain (120 # 46 # d) = 120 # 46 # normalize_domain d"
    "normalize_domain (121 # 46 # d) = 121 # 46 # normalize_domain d"
  using assms
  by (auto simp: subdomain_defs normalize_domain_label to_ascii_lower_def suffix_Cons)

lemma strict_subdomain_covered:
  assumes c: "normalize_domain c \<noteq> []"
    and all: "\<And>h. is_strict_subdomain h c \<Longrightarrow> pattern_covers m h"
  shows "pattern_allows m (SubdomainsOnly c)"
proof -
  note x = all [OF subdomain_x(1) [OF c]] and y = all [OF subdomain_x(2) [OF c]]
  note n = subdomain_x(3,4) [OF c]
  show ?thesis
  proof (cases m)
    case (ApexAndSubdomains d)
    have x': "120 # 46 # normalize_domain c = normalize_domain d \<or>
        suffix (46 # normalize_domain d) (120 # 46 # normalize_domain c)"
      and y': "121 # 46 # normalize_domain c = normalize_domain d \<or>
        suffix (46 # normalize_domain d) (121 # 46 # normalize_domain c)"
      using x y n ApexAndSubdomains by (auto simp: subdomain_defs split: if_splits)
    have "suffix (46 # normalize_domain d) (120 # 46 # normalize_domain c)"
    proof (rule ccontr)
      assume "\<not> ?thesis"
      with x' have d: "normalize_domain d = 120 # 46 # normalize_domain c" by simp
      with y' have "suffix (46 # 120 # 46 # normalize_domain c) (121 # 46 # normalize_domain c)"
        by simp
      then show False by (auto dest: suffix_length_le)
    qed
    then have "normalize_domain d = normalize_domain c \<or>
        suffix (46 # normalize_domain d) (normalize_domain c)"
      by (rule suffix_label) simp
    then show ?thesis using ApexAndSubdomains by (auto simp: subdomain_defs)
  next
    case (SubdomainsOnly d)
    have "suffix (46 # normalize_domain d) (120 # 46 # normalize_domain c)"
      using x n SubdomainsOnly by (simp add: subdomain_defs)
    then have "normalize_domain d = normalize_domain c \<or>
        suffix (46 # normalize_domain d) (normalize_domain c)"
      by (rule suffix_label) simp
    then show ?thesis using SubdomainsOnly by (auto simp: subdomain_defs)
  next
    case (Exact d)
    then have "120 # 46 # normalize_domain c = 121 # 46 # normalize_domain c"
      using x y n by (simp add: domain_eq_def del: list.inject)
    then show ?thesis by simp
  qed
qed

lemma pattern_allows_complete:
  assumes c: "normalize_domain (pattern_domain c) \<noteq> []"
    and all: "\<And>h. pattern_covers c h \<Longrightarrow> pattern_covers m h"
  shows "pattern_allows m c"
proof (cases c)
  case (SubdomainsOnly d)
  then show ?thesis using c all by (auto intro!: strict_subdomain_covered)
next
  case (Exact d)
  then have "pattern_covers m d" using all by (simp add: subdomain_defs)
  then show ?thesis using Exact by (cases m) auto
next
  case (ApexAndSubdomains d)
  then have self: "pattern_covers m d" using all by (simp add: subdomain_defs)
  have "pattern_allows m (SubdomainsOnly d)"
    using c all ApexAndSubdomains
    by (intro strict_subdomain_covered) (auto simp: subdomain_defs)
  with self show ?thesis using ApexAndSubdomains by (cases m) auto
qed

text \<open>
  C26: one domain pattern allows another (\<open>DomainPattern::allows\<close>, the test managed allowlists are
  checked with) exactly when every host the second one covers is covered by the first; the
  domain of the second must not be blank.
\<close>

theorem pattern_allows_iff_covers:
  assumes "normalize_domain (pattern_domain c) \<noteq> []"
  shows "pattern_allows m c \<longleftrightarrow> (\<forall>h. pattern_covers c h \<longrightarrow> pattern_covers m h)"
  using pattern_allows_sound pattern_allows_complete [OF assms] by blast

theorem pattern_allows_iff_covers_witness:
  "pattern_allows (SubdomainsOnly (lit ''b.c'')) (ApexAndSubdomains (lit ''A.B.c.''))
   \<and> pattern_covers (ApexAndSubdomains (lit ''A.B.c.'')) (lit ''x.a.b.c'')
   \<and> pattern_covers (SubdomainsOnly (lit ''b.c'')) (lit ''x.a.b.c'')"
proof -
  have n: "normalize_domain (pattern_domain (ApexAndSubdomains (lit ''A.B.c.''))) \<noteq> []"
    by code_simp
  have "pattern_allows (SubdomainsOnly (lit ''b.c'')) (ApexAndSubdomains (lit ''A.B.c.''))"
    "pattern_covers (ApexAndSubdomains (lit ''A.B.c.'')) (lit ''x.a.b.c'')"
    by code_simp+
  with pattern_allows_iff_covers [OF n] show ?thesis by blast
qed

section \<open>Normalised hosts and patterns\<close>

lemma whitespace_lower [simp]: "is_whitespace (to_ascii_lower c) = is_whitespace c"
  by (auto simp: is_whitespace_def to_ascii_lower_def)

text \<open>Characters that are not letters are what lower-casing keeps apart from the others.\<close>

abbreviation unlettered :: "uchar \<Rightarrow> bool" where
  "unlettered x \<equiv> x < 65 \<or> 90 < x \<and> x < 97 \<or> 122 < x"

lemma lower_eq_special: "unlettered x \<Longrightarrow> to_ascii_lower c = x \<longleftrightarrow> c = x"
  by (auto simp: to_ascii_lower_def)

lemma special_eq_lower: "unlettered x \<Longrightarrow> x = to_ascii_lower c \<longleftrightarrow> x = c"
  by (auto simp: to_ascii_lower_def)

lemmas special_simps = lower_eq_special special_eq_lower to_ascii_lowercase_def

lemma dropWhile_map_lower:
  "(\<And>c. P (to_ascii_lower c) = P c) \<Longrightarrow>
   dropWhile P (map to_ascii_lower s) = map to_ascii_lower (dropWhile P s)"
  by (induction s) auto

lemma trim_lower: "trim (to_ascii_lowercase s) = to_ascii_lowercase (trim s)"
  by (simp add: trim_def trim_start_def trim_end_def to_ascii_lowercase_def dropWhile_map_lower
      rev_map)

lemma prefix_lower:
  "list_all unlettered p \<Longrightarrow> prefix p (to_ascii_lowercase s) \<longleftrightarrow> prefix p s"
proof (induction p arbitrary: s)
  case (Cons x p)
  then show ?case by (cases s) (simp_all add: special_simps)
qed simp

lemma position_lower:
  "unlettered x \<Longrightarrow> position (\<lambda>c. c = x) (to_ascii_lowercase s) = position (\<lambda>c. c = x) s"
  by (induction s) (simp_all add: special_simps)

lemma count_list_lower: "unlettered x \<Longrightarrow> count_list (to_ascii_lowercase s) x = count_list s x"
  by (induction s) (simp_all add: special_simps)

lemma split_on_lower:
  "unlettered x \<Longrightarrow> split_on x (to_ascii_lowercase s) = map to_ascii_lowercase (split_on x s)"
  by (induction s) (simp_all add: special_simps split: list.splits)

lemma slice_lower:
  "drop n (take i (to_ascii_lowercase s)) = to_ascii_lowercase (drop n (take i s))"
  by (simp add: to_ascii_lowercase_def take_map drop_map)

lemma strip_prefix_lower:
  "list_all unlettered p \<Longrightarrow>
   strip_prefix p (to_ascii_lowercase s) = map_option to_ascii_lowercase (strip_prefix p s)"
  by (simp add: strip_prefix_def prefix_lower) (simp add: to_ascii_lowercase_def drop_map)

lemma normalize_dns_host_lower [simp]:
  "normalize_dns_host (to_ascii_lowercase s) = normalize_dns_host s"
  by (simp add: normalize_dns_host_def)

lemma normalize_host_lower [simp]: "normalize_host (to_ascii_lowercase s) = normalize_host s"
  unfolding normalize_host_def Let_def trim_lower
  by (simp add: position_lower prefix_lower slice_lower count_list_lower split_on_lower hd_map
      split: option.split)

lemma lit_stars: "lit ''*'' = [42]" "lit ''**.'' = [42, 42, 46]" "lit ''*.'' = [42, 46]"
  "lit ''?*.'' = [63, 42, 46]"
  by (simp_all add: lit_def uc_def)

lemma lower_eq_star: "to_ascii_lowercase s = [42] \<longleftrightarrow> s = [42]"
  by (cases s) (simp_all add: special_simps)

lemma normalize_pattern_lower: "normalize_pattern (to_ascii_lowercase s) = normalize_pattern s"
  unfolding normalize_pattern_def Let_def trim_lower lit_stars
  by (auto simp: strip_prefix_lower lower_eq_star split: option.split)

lemma trim_end_matches_last: "trim_end_matches x s \<noteq> [] \<Longrightarrow> last (trim_end_matches x s) \<noteq> x"
  using hd_dropWhile [of "\<lambda>y. y = x" "rev s"]
  by (simp add: trim_end_matches_def last_rev del: dropWhile_eq_Nil_conv)

lemma trim_end_matches_id: "s = [] \<or> last s \<noteq> x \<Longrightarrow> trim_end_matches x s = s"
  by (cases s rule: rev_cases) (auto simp: trim_end_matches_def)

definition normal_host :: "ustring \<Rightarrow> bool" where
  "normal_host h \<longleftrightarrow> h \<noteq> [] \<and> to_ascii_lowercase h = h \<and> last h \<noteq> 46"

lemma lower_id_iff: "to_ascii_lowercase s = s \<longleftrightarrow> (\<forall>c \<in> set s. to_ascii_lower c = c)"
  by (induction s) (auto simp: to_ascii_lowercase_def)

lemma lower_trim_end_matches:
  "to_ascii_lowercase s = s \<Longrightarrow> to_ascii_lowercase (trim_end_matches x s) = trim_end_matches x s"
  by (auto simp: lower_id_iff trim_end_matches_def dest!: set_dropWhileD)

lemma normal_host_dns: "normalize_dns_host s \<noteq> [] \<Longrightarrow> normal_host (normalize_dns_host s)"
  by (auto simp: normal_host_def normalize_dns_host_def lower_trim_end_matches
      dest: trim_end_matches_last)

lemma normalize_host_is_dns: "\<exists>t. normalize_host s = normalize_dns_host t"
  by (auto simp: normalize_host_def Let_def split: option.split)

lemma host_parse_normal: "host_parse s = Some h \<Longrightarrow> normal_host h"
  using normalize_host_is_dns [of s] normal_host_dns
  by (auto simp: host_parse_def Let_def split: if_splits) metis

lemma normalize_domain_normal: "normal_host h \<Longrightarrow> normalize_domain h = h"
  by (simp add: normal_host_def normalize_domain_def trim_end_matches_id)

section \<open>What the matcher is relied on for\<close>

definition host_char :: "uchar \<Rightarrow> bool" where
  "host_char c \<longleftrightarrow> 97 \<le> c \<and> c \<le> 122 \<or> 48 \<le> c \<and> c \<le> 57 \<or> c = 45 \<or> c = 46 \<or> c = 58 \<or> c = 95"

text \<open>Names without glob metacharacters, in the form normalisation gives them.\<close>

definition plain_domain :: "ustring \<Rightarrow> bool" where
  "plain_domain d \<longleftrightarrow> d \<noteq> [] \<and> list_all host_char d \<and> last d \<noteq> 46"

text \<open>
  The documented behaviour of \<open>globset\<close>, for case-insensitive globs: a text without
  metacharacters matches itself, \<open>?\<close> matches one character and \<open>*\<close> any number of them.
\<close>

definition glob_law :: "net_lib \<Rightarrow> bool" where
  "glob_law lib \<longleftrightarrow>
     (\<forall>d h. plain_domain d \<longrightarrow>
        glob_match lib d h = (to_ascii_lowercase h = to_ascii_lowercase d)
        \<and> glob_match lib (lit ''?*.'' @ d) h =
            (\<exists>pre t. pre \<noteq> [] \<and> h = pre @ 46 # t \<and> to_ascii_lowercase t = to_ascii_lowercase d))"

text \<open>
  Less than that is enough for denials: a literal text, without the characters that mean
  something in a glob (\<open>? * [ ] { } \\<close>), matches itself. A literal host is its own normal form;
  IPv6 addresses are.
\<close>

definition literal_host :: "ustring \<Rightarrow> bool" where
  "literal_host h \<longleftrightarrow> h \<noteq> [] \<and> normalize_host h = h
     \<and> list_all (\<lambda>c. c \<notin> {63, 42, 91, 93, 123, 125, 92}) h"

definition literal_law :: "net_lib \<Rightarrow> bool" where
  "literal_law lib \<longleftrightarrow> (\<forall>h. literal_host h \<longrightarrow> glob_match lib h h)"

text \<open>The globs a pattern is compiled to.\<close>

definition pattern_globs :: "ustring \<Rightarrow> globset" where
  "pattern_globs p = expand_domain_pattern (normalize_pattern p)"

lemma pattern_globs_lower: "to_ascii_lowercase p = to_ascii_lowercase q \<Longrightarrow> pattern_globs p = pattern_globs q"
  using normalize_pattern_lower by (metis pattern_globs_def)

text \<open>A pattern as it is compiled.\<close>

definition compiled_pattern :: "ustring \<Rightarrow> domain_pattern" where
  "compiled_pattern p = domain_pattern_parse (normalize_pattern p)"

definition plain_pattern :: "ustring \<Rightarrow> bool" where
  "plain_pattern p \<longleftrightarrow> plain_domain (pattern_domain (compiled_pattern p))"

lemma compiled_pattern_lower: "compiled_pattern (to_ascii_lowercase p) = compiled_pattern p"
  by (simp add: compiled_pattern_def normalize_pattern_lower)

lemma lower_host_chars: "list_all host_char d \<Longrightarrow> to_ascii_lowercase d = d"
  by (induction d) (auto simp: to_ascii_lowercase_def to_ascii_lower_def host_char_def)

lemma plain_domain_normal: "plain_domain d \<Longrightarrow> normal_host d"
  by (simp add: plain_domain_def normal_host_def lower_host_chars)

lemma strict_subdomain_split:
  assumes "normal_host h" "hd h \<noteq> 46" "normal_host d"
  shows "is_strict_subdomain h d \<longleftrightarrow>
    (\<exists>pre t. pre \<noteq> [] \<and> h = pre @ 46 # t \<and> to_ascii_lowercase t = to_ascii_lowercase d)"
    (is "_ \<longleftrightarrow> ?R")
proof
  assume "is_strict_subdomain h d"
  then obtain pre where "h = pre @ 46 # d" "h \<noteq> d"
    using assms by (auto simp: subdomain_defs normalize_domain_normal suffix_def)
  moreover from this have "pre \<noteq> []" using assms(2) by (cases pre) auto
  ultimately show ?R by blast
next
  assume ?R
  then obtain pre t where h: "pre \<noteq> []" "h = pre @ 46 # t" "to_ascii_lowercase t = to_ascii_lowercase d"
    by blast
  then have "to_ascii_lowercase t = t" using assms(1)
    by (simp add: normal_host_def to_ascii_lowercase_def)
  then have "t = d" using h(3) assms(3) by (simp add: normal_host_def)
  then show "is_strict_subdomain h d"
    using h assms by (auto simp: subdomain_defs normalize_domain_normal suffix_def)
qed

lemma subdomain_or_equal_iff:
  "is_subdomain_or_equal h d \<longleftrightarrow> domain_eq h d \<or> is_strict_subdomain h d"
  by (auto simp: subdomain_defs)

lemma expand_matches_iff_covers:
  assumes law: "glob_law lib" and plain: "plain_pattern p" and h: "normal_host h" "hd h \<noteq> 46"
  shows "list_ex (\<lambda>g. glob_match lib g h) (expand_domain_pattern (normalize_pattern p)) \<longleftrightarrow>
    pattern_covers (compiled_pattern p) h"
proof -
  let ?d = "pattern_domain (compiled_pattern p)"
  have d: "plain_domain ?d" using plain by (simp add: plain_pattern_def)
  have eq: "glob_match lib ?d h \<longleftrightarrow> domain_eq h ?d"
    using law d h plain_domain_normal [OF d]
    by (simp add: glob_law_def domain_eq_def normalize_domain_normal normal_host_def)
  have sub: "glob_match lib (lit ''?*.'' @ ?d) h \<longleftrightarrow> is_strict_subdomain h ?d"
    using law d strict_subdomain_split [OF h plain_domain_normal [OF d]]
    by (simp add: glob_law_def)
  show ?thesis
    using eq sub
    by (cases "compiled_pattern p")
      (auto simp: expand_domain_pattern_def compiled_pattern_def subdomain_or_equal_iff)
qed

section \<open>Compiled sets\<close>

lemma add_candidates_set:
  "add_candidates lib cs acc = Inr acc' \<Longrightarrow> set acc' = set acc \<union> set cs"
  by (induction lib cs acc rule: add_candidates.induct) (auto split: if_splits)

lemma compile_loop_set:
  "compile_loop lib policy ps acc = Inr gs \<Longrightarrow>
   set gs = set acc \<union> (\<Union>p \<in> set ps. set (expand_domain_pattern (normalize_pattern p)))"
  by (induction lib policy ps acc rule: compile_loop.induct)
    (auto dest!: add_candidates_set split: if_splits sum.splits)

lemma compile_set:
  assumes "compile_globset_with_policy lib ps policy = Inr gs"
  shows "is_match lib gs h \<longleftrightarrow>
     (\<exists>p \<in> set ps. list_ex (\<lambda>g. glob_match lib g h) (expand_domain_pattern (normalize_pattern p)))"
proof -
  have "compile_loop lib policy ps [] = Inr gs"
    using assms by (simp add: compile_globset_with_policy_def split: sum.splits if_splits)
  from compile_loop_set [OF this] show ?thesis
    unfolding is_match_def list_ex_iff by auto
qed

lemma compiled_globs_match:
  assumes "compile_globset_with_policy lib ps policy = Inr gs" "p \<in> set ps"
    "is_match lib (pattern_globs p) h"
  shows "is_match lib gs h"
  using compile_set [OF assms(1)] assms(2,3) by (auto simp: pattern_globs_def is_match_def)

lemma compiled_matches:
  assumes "compile_globset_with_policy lib ps policy = Inr gs" "glob_law lib"
    "normal_host h" "hd h \<noteq> 46" "p \<in> set ps" "plain_pattern p" "pattern_covers (compiled_pattern p) h"
  shows "is_match lib gs h"
  using assms compile_set [OF assms(1)] expand_matches_iff_covers by blast

lemma compiled_match_covered:
  assumes "compile_globset_with_policy lib ps policy = Inr gs" "glob_law lib"
    "normal_host h" "hd h \<noteq> 46" "\<And>p. p \<in> set ps \<Longrightarrow> plain_pattern p" "is_match lib gs h"
  obtains p where "p \<in> set ps" "pattern_covers (compiled_pattern p) h"
  using assms compile_set [OF assms(1)] expand_matches_iff_covers by blast

section \<open>A matcher that satisfies the law\<close>

fun glob_like :: "ustring \<Rightarrow> ustring \<Rightarrow> bool" where
  "glob_like [] s \<longleftrightarrow> s = []"
| "glob_like (c # p) [] \<longleftrightarrow> c = 42 \<and> glob_like p []"
| "glob_like (c # p) (x # s) \<longleftrightarrow>
     (if c = 42 then glob_like p (x # s) \<or> glob_like (c # p) s
      else (c = 63 \<or> to_ascii_lower c = to_ascii_lower x) \<and> glob_like p s)"

definition example_lib :: net_lib where
  "example_lib = \<lparr>glob_ok = \<lambda>p. True, globset_ok = \<lambda>ps. True, glob_match = glob_like,
     url_host = \<lambda>h. if list_all host_char (to_ascii_lowercase h) then Some (to_ascii_lowercase h) else None\<rparr>"

lemma glob_like_plain:
  "\<forall>c \<in> set d. c \<noteq> 42 \<and> c \<noteq> 63 \<Longrightarrow>
   glob_like d s \<longleftrightarrow> to_ascii_lowercase s = to_ascii_lowercase d"
  by (induction d s rule: glob_like.induct) (auto simp: to_ascii_lowercase_def)

lemma glob_like_star: "glob_like (42 # p) s \<longleftrightarrow> (\<exists>a b. s = a @ b \<and> glob_like p b)"
proof (induction s)
  case (Cons x s)
  have "(\<exists>a b. x # s = a @ b \<and> glob_like p b) \<longleftrightarrow>
      glob_like p (x # s) \<or> (\<exists>a b. s = a @ b \<and> glob_like p b)"
    by (metis Cons_eq_append_conv)
  with Cons show ?case by simp
qed simp

lemma example_lib_law: "glob_law example_lib"
proof -
  have no_meta: "\<forall>c \<in> set d. c \<noteq> 42 \<and> c \<noteq> 63" if "plain_domain d" for d
    using that by (auto simp: plain_domain_def list_all_iff host_char_def)
  have "glob_like (63 # 42 # 46 # d) h \<longleftrightarrow>
      (\<exists>pre t. pre \<noteq> [] \<and> h = pre @ 46 # t \<and> to_ascii_lowercase t = to_ascii_lowercase d)"
    (is "_ \<longleftrightarrow> ?R") if d: "plain_domain d" for d h
  proof (cases h)
    case (Cons x s)
    have dot: "glob_like (46 # d) b \<longleftrightarrow> (\<exists>t. b = 46 # t \<and> to_ascii_lowercase t = to_ascii_lowercase d)" for b
      by (cases b) (auto simp: glob_like_plain no_meta [OF d] lower_eq_special
          eq_commute [of "to_ascii_lower 46"] to_ascii_lower_def)
    have "glob_like (63 # 42 # 46 # d) h \<longleftrightarrow> (\<exists>a b. s = a @ b \<and> glob_like (46 # d) b)"
      using Cons by (simp add: glob_like_star del: glob_like.simps(3)) (simp add: glob_like_star)
    also have "\<dots> \<longleftrightarrow> ?R"
      unfolding dot Cons by (auto simp: Cons_eq_append_conv)
    finally show ?thesis .
  qed simp
  then show ?thesis
    by (simp add: glob_law_def example_lib_def lit_stars glob_like_plain no_meta)
qed

lemma example_lib_literal: "literal_law example_lib"
  by (auto simp: literal_law_def literal_host_def example_lib_def glob_like_plain list_all_iff)
end
