(* ===== verification/NetworkSettings.thy ===== *)
theory NetworkSettings
  imports NetworkPatterns "HOL-Library.List_Lexorder"
begin

text \<open>
  The settings of the network proxy (\<open>network-proxy/src/config.rs\<close>): domain entries and their
  effective permissions, the operations that read and rewrite them, unix socket entries, the
  addresses the proxy binds, and the parsing of its own address settings. \<open>url::Url::parse\<close>
  is a parameter.
\<close>

section \<open>Domain permissions\<close>

datatype domain_permission = PermNone | PermAllow | PermDeny

fun permission_rank :: "domain_permission \<Rightarrow> nat" where
  "permission_rank PermNone = 0"
| "permission_rank PermAllow = 1"
| "permission_rank PermDeny = 2"

lemma permission_rank_inject: "permission_rank a = permission_rank b \<Longrightarrow> a = b"
  by (cases a; cases b) auto

text \<open>The derived \<open>Ord\<close>: the order of the variants.\<close>

instantiation domain_permission :: linorder
begin

definition less_eq_domain_permission :: "domain_permission \<Rightarrow> domain_permission \<Rightarrow> bool" where
  "a \<le> b \<longleftrightarrow> permission_rank a \<le> permission_rank b"

definition less_domain_permission :: "domain_permission \<Rightarrow> domain_permission \<Rightarrow> bool" where
  "a < b \<longleftrightarrow> permission_rank a < permission_rank b"

instance
  by standard (auto simp: less_eq_domain_permission_def less_domain_permission_def
      dest: permission_rank_inject)

end

record domain_entry =
  de_pattern :: ustring
  de_permission :: domain_permission

text \<open>One step of the loop: the order of first occurrence and the highest permission so far.\<close>

definition effective_step ::
  "ustring list \<times> (ustring \<rightharpoonup> domain_permission) \<Rightarrow> domain_entry \<Rightarrow>
   ustring list \<times> (ustring \<rightharpoonup> domain_permission)" where
  "effective_step st e =
     (case st of
        (order, m) \<Rightarrow>
          (let order = (case m (de_pattern e) of None \<Rightarrow> order @ [de_pattern e] | Some _ \<Rightarrow> order);
               p = (case m (de_pattern e) of None \<Rightarrow> de_permission e | Some q \<Rightarrow> q);
               p = (if p < de_permission e then de_permission e else p)
           in (order, m(de_pattern e \<mapsto> p))))"

fun take_effective ::
  "ustring list \<Rightarrow> (ustring \<rightharpoonup> domain_permission) \<Rightarrow> domain_entry list" where
  "take_effective [] m = []"
| "take_effective (p # ps) m =
     (case m p of
        None \<Rightarrow> take_effective ps m
      | Some q \<Rightarrow> \<lparr>de_pattern = p, de_permission = q\<rparr> # take_effective ps (m(p := None)))"

definition effective_entries :: "domain_entry list \<Rightarrow> domain_entry list" where
  "effective_entries es =
     (case foldl effective_step ([], \<lambda>p. None) es of (order, m) \<Rightarrow> take_effective order m)"

section \<open>Settings\<close>

datatype unix_socket_permission = SocketAllow | SocketNone

text \<open>The entries of a \<open>BTreeMap\<close> are a list in the order of the keys.\<close>

fun btree_insert :: "ustring \<Rightarrow> 'v \<Rightarrow> (ustring \<times> 'v) list \<Rightarrow> (ustring \<times> 'v) list" where
  "btree_insert k v [] = [(k, v)]"
| "btree_insert k v ((k', v') # xs) =
     (if k = k' then (k, v) # xs
      else if k < k' then (k, v) # (k', v') # xs
      else (k', v') # btree_insert k v xs)"

datatype network_mode = Limited | Full

record network_settings =
  net_enabled :: bool
  proxy_url :: ustring
  enable_socks5 :: bool
  socks_url :: ustring
  enable_socks5_udp :: bool
  allow_upstream_proxy :: bool
  dangerously_allow_non_loopback_proxy :: bool
  dangerously_allow_all_unix_sockets :: bool
  net_mode :: network_mode
  net_domains :: "domain_entry list option"
  net_unix_sockets :: "(ustring \<times> unix_socket_permission) list option"
  allow_local_binding :: bool
  net_mitm :: bool

definition default_proxy_url :: ustring where
  "default_proxy_url = lit ''http://127.0.0.1:3128''"

definition default_socks_url :: ustring where
  "default_socks_url = lit ''http://127.0.0.1:8081''"

definition default_network_settings :: network_settings where
  "default_network_settings =
     \<lparr>net_enabled = False, proxy_url = default_proxy_url, enable_socks5 = True,
      socks_url = default_socks_url, enable_socks5_udp = True, allow_upstream_proxy = True,
      dangerously_allow_non_loopback_proxy = False, dangerously_allow_all_unix_sockets = False,
      net_mode = Full, net_domains = None, net_unix_sockets = None, allow_local_binding = False,
      net_mitm = False\<rparr>"

definition domain_entries :: "network_settings \<Rightarrow> domain_permission \<Rightarrow> ustring list option" where
  "domain_entries s permission =
     (case map_option (\<lambda>ds. map de_pattern
              (filter (\<lambda>e. de_permission e = permission) (effective_entries ds))) (net_domains s) of
        Some [] \<Rightarrow> None
      | entries \<Rightarrow> entries)"

definition allowed_domains :: "network_settings \<Rightarrow> ustring list option" where
  "allowed_domains s = domain_entries s PermAllow"

definition denied_domains :: "network_settings \<Rightarrow> ustring list option" where
  "denied_domains s = domain_entries s PermDeny"

definition allow_unix_sockets :: "network_settings \<Rightarrow> ustring list" where
  "allow_unix_sockets s =
     (case net_unix_sockets s of
        None \<Rightarrow> []
      | Some entries \<Rightarrow> map fst (filter (\<lambda>(_, p). p = SocketAllow) entries))"

definition some_unless_empty :: "'a list \<Rightarrow> 'a list option" where
  "some_unless_empty xs = (if xs = [] then None else Some xs)"

definition unwrap_or_default :: "'a list option \<Rightarrow> 'a list" where
  "unwrap_or_default xs = (case xs of None \<Rightarrow> [] | Some ys \<Rightarrow> ys)"

definition upsert_domain_permission ::
  "ustring \<Rightarrow> domain_permission \<Rightarrow> (ustring \<Rightarrow> ustring) \<Rightarrow> network_settings \<Rightarrow> network_settings" where
  "upsert_domain_permission host permission normalizer s =
     (let entries = filter (\<lambda>e. normalizer (de_pattern e) \<noteq> normalizer host)
                      (unwrap_or_default (net_domains s))
      in s\<lparr>net_domains :=
             some_unless_empty (entries @ [\<lparr>de_pattern = host, de_permission = permission\<rparr>])\<rparr>)"

definition push_missing :: "domain_permission \<Rightarrow> domain_entry list \<Rightarrow> ustring \<Rightarrow> domain_entry list" where
  "push_missing permission es entry =
     (if list_ex (\<lambda>e. de_pattern e = entry \<and> de_permission e = permission) es then es
      else es @ [\<lparr>de_pattern = entry, de_permission = permission\<rparr>])"

definition set_domain_entries ::
  "ustring list \<Rightarrow> domain_permission \<Rightarrow> network_settings \<Rightarrow> network_settings" where
  "set_domain_entries entries permission s =
     (let kept = filter (\<lambda>e. de_permission e \<noteq> permission) (unwrap_or_default (net_domains s))
      in s\<lparr>net_domains := some_unless_empty (foldl (push_missing permission) kept entries)\<rparr>)"

definition set_allowed_domains :: "ustring list \<Rightarrow> network_settings \<Rightarrow> network_settings" where
  "set_allowed_domains entries s = set_domain_entries entries PermAllow s"

definition set_denied_domains :: "ustring list \<Rightarrow> network_settings \<Rightarrow> network_settings" where
  "set_denied_domains entries s = set_domain_entries entries PermDeny s"

definition set_unix_socket_entries ::
  "ustring list \<Rightarrow> unix_socket_permission \<Rightarrow> network_settings \<Rightarrow> network_settings" where
  "set_unix_socket_entries entries permission s =
     (let kept = filter (\<lambda>(_, p). p \<noteq> permission) (unwrap_or_default (net_unix_sockets s))
      in s\<lparr>net_unix_sockets :=
             some_unless_empty (foldl (\<lambda>m e. btree_insert e permission m) kept entries)\<rparr>)"

definition set_allow_unix_sockets :: "ustring list \<Rightarrow> network_settings \<Rightarrow> network_settings" where
  "set_allow_unix_sockets entries s = set_unix_socket_entries entries SocketAllow s"

fun allows_method :: "network_mode \<Rightarrow> ustring \<Rightarrow> bool" where
  "allows_method Full method = True"
| "allows_method Limited method = (method \<in> lit ` {''GET'', ''HEAD'', ''OPTIONS''})"

section \<open>Addresses the proxy binds\<close>

record socket_addr =
  sa_ip :: ip_addr
  sa_port :: nat

definition localhost_at :: "nat \<Rightarrow> socket_addr" where
  "localhost_at port = \<lparr>sa_ip = V4 (ipv4_of_octets [127, 0, 0, 1]), sa_port = port\<rparr>"

definition clamp_non_loopback :: "socket_addr \<Rightarrow> bool \<Rightarrow> socket_addr" where
  "clamp_non_loopback addr allow_non_loopback =
     (if ip_is_loopback (sa_ip addr) then addr
      else if allow_non_loopback then addr
      else localhost_at (sa_port addr))"

definition clamp_bind_addrs ::
  "socket_addr \<Rightarrow> socket_addr \<Rightarrow> network_settings \<Rightarrow> socket_addr \<times> socket_addr" where
  "clamp_bind_addrs http socks cfg =
     (let http = clamp_non_loopback http (dangerously_allow_non_loopback_proxy cfg);
          socks = clamp_non_loopback socks (dangerously_allow_non_loopback_proxy cfg)
      in if allow_unix_sockets cfg = [] \<and> \<not> dangerously_allow_all_unix_sockets cfg
         then (http, socks)
         else (localhost_at (sa_port http), localhost_at (sa_port socks)))"

datatype unix_socket_path = NativeSocket ustring | UnixStyleAbsolute ustring

text \<open>\<open>ValidatedUnixSocketPath::parse\<close> on a Unix host.\<close>

definition unix_socket_path_parse :: "path_env \<Rightarrow> nat \<Rightarrow> ustring \<Rightarrow> proxy_error + unix_socket_path" where
  "unix_socket_path_parse env i socket_path =
     (if is_absolute socket_path
      then (case from_absolute_path env socket_path of
              None \<Rightarrow> Inl (SocketPath i socket_path)
            | Some path \<Rightarrow> Inr (NativeSocket path))
      else if prefix [slash] socket_path then Inr (UnixStyleAbsolute socket_path)
      else Inl (NotAbsolute i socket_path))"

fun validate_socket_paths :: "path_env \<Rightarrow> nat \<Rightarrow> ustring list \<Rightarrow> proxy_error option" where
  "validate_socket_paths env i [] = None"
| "validate_socket_paths env i (p # ps) =
     (case unix_socket_path_parse env i p of
        Inl e \<Rightarrow> Some e
      | Inr _ \<Rightarrow> validate_socket_paths env (Suc i) ps)"

definition validate_unix_socket_allowlist_paths :: "path_env \<Rightarrow> network_settings \<Rightarrow> proxy_error option" where
  "validate_unix_socket_allowlist_paths env cfg =
     validate_socket_paths env 0 (allow_unix_sockets cfg)"

section \<open>Host and port of a setting\<close>

record address_parts =
  ap_host :: ustring
  ap_port :: nat

text \<open>\<open>str::parse::<u16>\<close>: an optional sign, then digits.\<close>

definition parse_u16 :: "ustring \<Rightarrow> nat option" where
  "parse_u16 s =
     (let digits = (case strip_prefix [43] s of Some r \<Rightarrow> r | None \<Rightarrow> s)
      in if digits \<noteq> [] \<and> all_digits digits \<and> undecimal digits < 65536
         then Some (undecimal digits) else None)"

definition parse_host_port_fallback :: "ustring \<Rightarrow> nat \<Rightarrow> proxy_error + address_parts" where
  "parse_host_port_fallback input default_port =
     (let rest = (case find_sub (lit ''://'') input of Some i \<Rightarrow> drop (i + 3) input | None \<Rightarrow> input);
          host_port = hd (split_on 47 rest);
          host_port = (case rsplit_once 64 host_port of Some (_, r) \<Rightarrow> r | None \<Rightarrow> host_port)
      in case (if prefix [91] host_port then position (\<lambda>c. c = 93) host_port else None) of
           Some i \<Rightarrow>
             (let host = drop 1 (take i host_port);
                  port = (case strip_prefix [58] (drop (i + 1) host_port) of
                            None \<Rightarrow> default_port
                          | Some p \<Rightarrow> (case parse_u16 p of Some n \<Rightarrow> n | None \<Rightarrow> default_port))
              in if host = [] then Inl (MissingProxyHost input)
                 else Inr \<lparr>ap_host = host, ap_port = port\<rparr>)
         | None \<Rightarrow>
             (case (if count_list host_port 58 = 1 then rsplit_once 58 host_port else None) of
                Some (host, port) \<Rightarrow>
                  if host = [] then Inl (MissingProxyHost input)
                  else Inr \<lparr>ap_host = host,
                            ap_port = (case parse_u16 port of Some n \<Rightarrow> n | None \<Rightarrow> default_port)\<rparr>
              | None \<Rightarrow>
                  if host_port = [] then Inl (MissingProxyHost input)
                  else Inr \<lparr>ap_host = host_port, ap_port = default_port\<rparr>))"

text \<open>What \<open>Url::parse\<close> gives of a URL: its host text and its port, each if there is one.\<close>

type_synonym url_parser = "ustring \<Rightarrow> (ustring option \<times> nat option) option"

definition trim_brackets :: "ustring \<Rightarrow> ustring" where
  "trim_brackets s =
     rev (dropWhile (\<lambda>c. c = 91 \<or> c = 93) (rev (dropWhile (\<lambda>c. c = 91 \<or> c = 93) s)))"

definition parse_host_port :: "url_parser \<Rightarrow> ustring \<Rightarrow> nat \<Rightarrow> proxy_error + address_parts" where
  "parse_host_port url_parse url default_port =
     (let trimmed = trim url
      in if trimmed = [] then Inl (MissingProxyHost url)
         else if (case parse_ip trimmed of Some (V6 _) \<Rightarrow> True | _ \<Rightarrow> False) \<and> \<not> prefix [91] trimmed
         then Inr \<lparr>ap_host = trimmed, ap_port = default_port\<rparr>
         else
           (let candidate = (if contains (lit ''://'') trimmed then trimmed
                             else lit ''http://'' @ trimmed)
            in case url_parse candidate of
                 Some (Some host, port) \<Rightarrow>
                   (let host = trim_brackets host
                    in if host = [] then Inl (MissingProxyHost url)
                       else Inr \<lparr>ap_host = host,
                                 ap_port = (case port of Some n \<Rightarrow> n | None \<Rightarrow> default_port)\<rparr>)
               | _ \<Rightarrow> parse_host_port_fallback trimmed default_port))"

definition resolve_addr :: "url_parser \<Rightarrow> ustring \<Rightarrow> nat \<Rightarrow> proxy_error + socket_addr" where
  "resolve_addr url_parse url default_port =
     (case parse_host_port url_parse url default_port of
        Inl e \<Rightarrow> Inl e
      | Inr parts \<Rightarrow>
          (let host = (if eq_ignore_ascii_case (ap_host parts) (lit ''localhost'')
                       then lit ''127.0.0.1'' else ap_host parts)
           in case parse_ip host of
                Some ip \<Rightarrow> Inr \<lparr>sa_ip = ip, sa_port = ap_port parts\<rparr>
              | None \<Rightarrow> Inr (localhost_at (ap_port parts))))"

definition format_host_and_port :: "ustring \<Rightarrow> nat \<Rightarrow> ustring" where
  "format_host_and_port host port =
     (if 58 \<in> set host then lit ''['' @ host @ lit '']:'' @ decimal port
      else host @ lit '':'' @ decimal port)"

definition host_and_port_from_network_addr :: "url_parser \<Rightarrow> ustring \<Rightarrow> nat \<Rightarrow> ustring" where
  "host_and_port_from_network_addr url_parse value default_port =
     (let trimmed = trim value
      in if trimmed = [] then lit ''<missing>''
         else case parse_host_port url_parse trimmed default_port of
                Inl _ \<Rightarrow> format_host_and_port trimmed default_port
              | Inr parts \<Rightarrow> format_host_and_port (ap_host parts) (ap_port parts))"

record runtime_config =
  http_addr :: socket_addr
  socks_addr :: socket_addr

definition resolve_runtime ::
  "path_env \<Rightarrow> url_parser \<Rightarrow> network_settings \<Rightarrow> proxy_error + runtime_config" where
  "resolve_runtime env url_parse cfg =
     (case validate_unix_socket_allowlist_paths env cfg of
        Some e \<Rightarrow> Inl e
      | None \<Rightarrow>
          (case resolve_addr url_parse (proxy_url cfg) 3128 of
             Inl e \<Rightarrow> Inl e
           | Inr http \<Rightarrow>
               (case resolve_addr url_parse (socks_url cfg) 8081 of
                  Inl e \<Rightarrow> Inl e
                | Inr socks \<Rightarrow>
                    (case clamp_bind_addrs http socks cfg of
                       (http, socks) \<Rightarrow> Inr \<lparr>http_addr = http, socks_addr = socks\<rparr>))))"

section \<open>Effective permissions\<close>

text \<open>
  The pairs a list of entries stands for: a pattern is allowed or denied by the highest of the
  permissions given to it.
\<close>

definition first_occurrences :: "'a list \<Rightarrow> 'a list" where
  "first_occurrences xs = rev (remdups (rev xs))"

definition permissions_of :: "domain_entry list \<Rightarrow> ustring \<Rightarrow> domain_permission set" where
  "permissions_of es p = de_permission ` {e \<in> set es. de_pattern e = p}"

lemma first_occurrences_snoc:
  "first_occurrences (xs @ [x]) = first_occurrences xs @ (if x \<in> set xs then [] else [x])"
  by (simp add: first_occurrences_def)

lemma first_occurrences_simps [simp]:
  "set (first_occurrences xs) = set xs" "distinct (first_occurrences xs)" "first_occurrences [] = []"
  by (simp_all add: first_occurrences_def)

lemma permissions_of_snoc:
  "permissions_of (es @ [e]) p =
     (if p = de_pattern e then insert (de_permission e) (permissions_of es p) else permissions_of es p)"
  by (auto simp: permissions_of_def)

lemma permissions_of_finite [simp]: "finite (permissions_of es p)"
  by (simp add: permissions_of_def)

lemma permissions_of_empty: "permissions_of es p = {} \<longleftrightarrow> p \<notin> de_pattern ` set es"
  by (auto simp: permissions_of_def)

lemma effective_step_eq:
  "effective_step (order, m) e =
     (order @ (if m (de_pattern e) = None then [de_pattern e] else []),
      m(de_pattern e \<mapsto>
        (case m (de_pattern e) of None \<Rightarrow> de_permission e | Some q \<Rightarrow> max q (de_permission e))))"
  by (auto simp: effective_step_def Let_def max_def split: option.split)

lemma effective_fold:
  "foldl effective_step ([], \<lambda>p. None) es =
     (first_occurrences (map de_pattern es),
      \<lambda>p. if p \<in> de_pattern ` set es then Some (Max (permissions_of es p)) else None)"
proof (induction es rule: rev_induct)
  case (snoc e es)
  let ?p = "de_pattern e"
  have max: "Max (permissions_of (es @ [e]) ?p) =
      (if ?p \<in> de_pattern ` set es
       then max (Max (permissions_of es ?p)) (de_permission e) else de_permission e)"
    using permissions_of_empty [of es ?p]
    by (auto simp: permissions_of_snoc Max_insert max.commute)
  have other: "permissions_of (es @ [e]) q = permissions_of es q" if "q \<noteq> ?p" for q
    using that by (simp add: permissions_of_snoc)
  show ?case
    unfolding foldl_append foldl.simps snoc.IH effective_step_eq
    by (auto simp: first_occurrences_snoc max other fun_eq_iff image_iff)
qed simp

lemma take_effective_map:
  "distinct ps \<Longrightarrow> \<forall>p \<in> set ps. m p \<noteq> None \<Longrightarrow>
   take_effective ps m = map (\<lambda>p. \<lparr>de_pattern = p, de_permission = the (m p)\<rparr>) ps"
proof (induction ps arbitrary: m)
  case (Cons p ps)
  have "take_effective ps (m(p := None)) =
      map (\<lambda>q. \<lparr>de_pattern = q, de_permission = the ((m(p := None)) q)\<rparr>) ps"
    by (rule Cons.IH) (use Cons.prems in auto)
  also have "\<dots> = map (\<lambda>q. \<lparr>de_pattern = q, de_permission = the (m q)\<rparr>) ps"
    by (rule map_cong) (use Cons.prems in auto)
  finally show ?case using Cons.prems by auto
qed simp

lemma effective_entries_eq:
  "effective_entries es =
     map (\<lambda>p. \<lparr>de_pattern = p, de_permission = Max (permissions_of es p)\<rparr>)
       (first_occurrences (map de_pattern es))"
  by (simp add: effective_entries_def effective_fold take_effective_map)

abbreviation domains_of :: "network_settings \<Rightarrow> domain_entry list" where
  "domains_of s \<equiv> unwrap_or_default (net_domains s)"

abbreviation allowed_list :: "network_settings \<Rightarrow> ustring list" where
  "allowed_list s \<equiv> unwrap_or_default (allowed_domains s)"

abbreviation denied_list :: "network_settings \<Rightarrow> ustring list" where
  "denied_list s \<equiv> unwrap_or_default (denied_domains s)"

lemma unwrap_simps [simp]:
  "unwrap_or_default None = []" "unwrap_or_default (Some xs) = xs"
  "unwrap_or_default (some_unless_empty xs) = xs"
  by (simp_all add: unwrap_or_default_def some_unless_empty_def)

lemma domain_entries_eq:
  "unwrap_or_default (domain_entries s permission) =
     filter (\<lambda>p. Max (permissions_of (domains_of s) p) = permission)
       (first_occurrences (map de_pattern (domains_of s)))"
  by (auto simp: domain_entries_def effective_entries_eq filter_map comp_def
      split: option.split list.split)

lemma domain_entries_None: "domain_entries s permission = None \<longleftrightarrow> unwrap_or_default (domain_entries s permission) = []"
  by (auto simp: domain_entries_def split: option.split list.split)

lemma permission_cases: "q = PermNone \<or> q = PermAllow \<or> q = PermDeny"
  by (cases q) auto

lemma permission_le [simp]: "PermNone \<le> q" "q \<le> PermDeny" "PermAllow \<le> q \<longleftrightarrow> q \<noteq> PermNone"
  "q \<le> PermAllow \<longleftrightarrow> q \<noteq> PermDeny" "PermDeny \<le> q \<longleftrightarrow> q = PermDeny"
  by (cases q; simp add: less_eq_domain_permission_def)+

lemma Max_permission:
  assumes "finite A" "A \<noteq> {}"
  shows "Max A = PermDeny \<longleftrightarrow> PermDeny \<in> A" "Max A = PermAllow \<longleftrightarrow> PermAllow \<in> A \<and> PermDeny \<notin> A"
  using assms by (auto simp: Max_eq_iff)

lemma set_denied_list:
  "p \<in> set (denied_list s) \<longleftrightarrow> PermDeny \<in> permissions_of (domains_of s) p"
  using permissions_of_empty [of "domains_of s" p] Max_permission(1) [of "permissions_of (domains_of s) p"]
  by (auto simp: denied_domains_def domain_entries_eq)

lemma set_allowed_list:
  "p \<in> set (allowed_list s) \<longleftrightarrow>
     PermAllow \<in> permissions_of (domains_of s) p \<and> PermDeny \<notin> permissions_of (domains_of s) p"
  using permissions_of_empty [of "domains_of s" p] Max_permission(2) [of "permissions_of (domains_of s) p"]
  by (auto simp: allowed_domains_def domain_entries_eq)

section \<open>Rewriting the entries\<close>

lemma permissions_of_filter:
  "permissions_of (filter P es) p = de_permission ` {e \<in> set es. de_pattern e = p \<and> P e}"
  by (auto simp: permissions_of_def)

lemma permissions_upsert:
  "permissions_of (domains_of (upsert_domain_permission host permission nz s)) p =
     (if p = host then {permission}
      else if nz p = nz host then {} else permissions_of (domains_of s) p)"
  by (simp add: upsert_domain_permission_def Let_def permissions_of_snoc permissions_of_filter)
    (auto simp: permissions_of_def)

lemma permissions_push_missing:
  "permissions_of (foldl (push_missing permission) es ps) p =
     permissions_of es p \<union> (if p \<in> set ps then {permission} else {})"
proof (induction ps arbitrary: es)
  case (Cons q ps)
  have "permissions_of (push_missing permission es q) p =
      permissions_of es p \<union> (if p = q then {permission} else {})"
    by (auto simp: push_missing_def permissions_of_snoc list_ex_iff) (auto simp: permissions_of_def)
  then show ?case by (auto simp: Cons)
qed simp

lemma permissions_set_domain_entries:
  "permissions_of (domains_of (set_domain_entries ps permission s)) p =
     permissions_of (domains_of s) p - {permission} \<union> (if p \<in> set ps then {permission} else {})"
  by (auto simp: set_domain_entries_def Let_def permissions_push_missing permissions_of_filter)
    (auto simp: permissions_of_def)

lemma btree_insert_allow:
  "fst ` {x \<in> set (btree_insert k SocketAllow xs). snd x = SocketAllow} =
     insert k (fst ` {x \<in> set xs. snd x = SocketAllow})"
  by (induction k "SocketAllow" xs rule: btree_insert.induct) (auto simp: image_iff)

lemma set_allow_unix_sockets_set:
  "set (allow_unix_sockets (set_allow_unix_sockets ps s)) = set ps"
proof -
  have fold: "fst ` {x \<in> set (foldl (\<lambda>m e. btree_insert e SocketAllow m) xs ps). snd x = SocketAllow} =
      set ps \<union> fst ` {x \<in> set xs. snd x = SocketAllow}" for xs
    by (induction ps arbitrary: xs) (auto simp: btree_insert_allow)
  have "set (allow_unix_sockets t) =
      fst ` {x \<in> set (unwrap_or_default (net_unix_sockets t)). snd x = SocketAllow}" for t
    by (cases "net_unix_sockets t") (auto simp: allow_unix_sockets_def image_iff)
  then show ?thesis
    by (simp add: set_allow_unix_sockets_def set_unix_socket_entries_def Let_def fold)
      (auto simp: case_prod_beta)
qed

lemma upsert_denied:
  "set (denied_list (upsert_domain_permission host permission nz s)) =
     {p \<in> set (denied_list s). nz p \<noteq> nz host} \<union> (if permission = PermDeny then {host} else {})"
  by (auto simp: set_denied_list permissions_upsert split: if_splits)

lemma upsert_allowed:
  "set (allowed_list (upsert_domain_permission host permission nz s)) =
     {p \<in> set (allowed_list s). nz p \<noteq> nz host} \<union> (if permission = PermAllow then {host} else {})"
  by (auto simp: set_allowed_list permissions_upsert split: if_splits)

text \<open>
  filing a permission for a host (\<open>upsert_domain_permission\<close>) leaves one entry for it under
  any spelling that normalises alike: afterwards the host is denied exactly when the new
  permission is a denial and allowed exactly when it is an allowance, every other spelling of it
  is neither, and the remaining patterns are allowed and denied as before.
\<close>

theorem upsert_decides_host:
  "set (denied_list (upsert_domain_permission host permission nz s)) =
     {p \<in> set (denied_list s). nz p \<noteq> nz host} \<union> (if permission = PermDeny then {host} else {})
   \<and> set (allowed_list (upsert_domain_permission host permission nz s)) =
     {p \<in> set (allowed_list s). nz p \<noteq> nz host} \<union> (if permission = PermAllow then {host} else {})"
  by (simp only: upsert_denied upsert_allowed simp_thms)

section \<open>Bound addresses\<close>

lemma localhost_is_loopback [simp]: "ip_is_loopback (sa_ip (localhost_at port))"
  by (simp add: localhost_at_def v4_is_loopback_def octet0_def ipv4_of_octets_def)

text \<open>
  C28: the proxy listens on loopback addresses only, whatever its settings name, unless the
  non-loopback override is set; and even with the override whenever any unix socket can be
  reached through it (\<open>resolve_runtime\<close> with \<open>clamp_bind_addrs\<close>).
\<close>

theorem bound_addresses_are_local:
  assumes "resolve_runtime env url_parse cfg = Inr rt"
    and "\<not> dangerously_allow_non_loopback_proxy cfg \<or> allow_unix_sockets cfg \<noteq> []
      \<or> dangerously_allow_all_unix_sockets cfg"
  shows "ip_is_loopback (sa_ip (http_addr rt)) \<and> ip_is_loopback (sa_ip (socks_addr rt))"
  using assms
  by (auto simp: resolve_runtime_def clamp_bind_addrs_def clamp_non_loopback_def Let_def
      split: option.splits sum.splits if_splits)

text \<open>A proxy asked to listen on every interface, on port 80.\<close>

definition exposed_settings :: network_settings where
  "exposed_settings = default_network_settings\<lparr>proxy_url := lit ''0.0.0.0:80''\<rparr>"

definition no_environment :: path_env where
  "no_environment = \<lparr>home_dir = None, current_dir = None\<rparr>"

definition example_url_parse :: url_parser where
  "example_url_parse u =
     (if u = lit ''http://0.0.0.0:80'' then Some (Some (lit ''0.0.0.0''), Some 80)
      else if u = default_socks_url then Some (Some (lit ''127.0.0.1''), Some 8081) else None)"

lemmas ip_parse_eval = parse_ip_def read_separator_def read_number_def digit_value_def lit_def uc_def
  ipv4_of_octets_def numeral_eq_Suc read_ipv6_def

lemma exposed_addr:
  "resolve_addr example_url_parse (lit ''0.0.0.0:80'') 3128 = Inr \<lparr>sa_ip = V4 0, sa_port = 80\<rparr>"
proof -
  have t: "trim (lit ''0.0.0.0:80'') = lit ''0.0.0.0:80''" 
    by (simp add: trim_def trim_start_def trim_end_def is_whitespace_def lit_def uc_def)
  have p: "parse_ip (lit ''0.0.0.0:80'') = None"
    by (simp add: ip_parse_eval)
  have c: "\<not> contains (lit ''://'') (lit ''0.0.0.0:80'')"
    by (simp add: contains_def lit_def uc_def)
  have u: "example_url_parse (lit ''http://'' @ lit ''0.0.0.0:80'') = Some (Some (lit ''0.0.0.0''), Some 80)"
    by (simp add: example_url_parse_def flip: lit_append)
  have b: "trim_brackets (lit ''0.0.0.0'') = lit ''0.0.0.0''"
    by (simp add: trim_brackets_def lit_def uc_def)
  have l: "\<not> eq_ignore_ascii_case (lit ''0.0.0.0'') (lit ''localhost'')"
    by (simp add: eq_ignore_ascii_case_def to_ascii_lowercase_def to_ascii_lower_def lit_def uc_def)
  have i: "parse_ip (lit ''0.0.0.0'') = Some (V4 0)"
    by (simp add: ip_parse_eval)
  show ?thesis
    by (simp add: resolve_addr_def parse_host_port_def t p c u b l i)
qed

lemma default_socks_addr:
  "resolve_addr example_url_parse default_socks_url 8081 = Inr (localhost_at 8081)"
proof -
  have t: "trim default_socks_url = default_socks_url"
    by (simp add: default_socks_url_def trim_def trim_start_def trim_end_def is_whitespace_def
        lit_def uc_def)
  have p: "parse_ip default_socks_url = None"
    by (simp add: default_socks_url_def ip_parse_eval)
  have c: "contains (lit ''://'') default_socks_url"
    by (simp add: default_socks_url_def contains_def lit_def uc_def)
  have u: "example_url_parse default_socks_url = Some (Some (lit ''127.0.0.1''), Some 8081)"
    by (simp add: example_url_parse_def default_socks_url_def)
  have b: "trim_brackets (lit ''127.0.0.1'') = lit ''127.0.0.1''"
    by (simp add: trim_brackets_def lit_def uc_def)
  have l: "\<not> eq_ignore_ascii_case (lit ''127.0.0.1'') (lit ''localhost'')"
    by (simp add: eq_ignore_ascii_case_def to_ascii_lowercase_def to_ascii_lower_def lit_def uc_def)
  have i: "parse_ip (lit ''127.0.0.1'') = Some (V4 (ipv4_of_octets [127, 0, 0, 1]))"
    by (simp add: ip_parse_eval)
  have "default_socks_url \<noteq> []" by (simp add: default_socks_url_def)
  then show ?thesis
    by (simp add: resolve_addr_def parse_host_port_def t p c u b l i localhost_at_def)
qed

lemma exposed_runtime:
  "resolve_runtime no_environment example_url_parse exposed_settings =
     Inr \<lparr>http_addr = localhost_at 80, socks_addr = localhost_at 8081\<rparr>"
proof -
  have "\<not> ip_is_loopback (V4 0)" by (simp add: v4_is_loopback_def octet0_def)
  then show ?thesis
    using exposed_addr default_socks_addr
    by (simp add: resolve_runtime_def exposed_settings_def default_network_settings_def
        validate_unix_socket_allowlist_paths_def allow_unix_sockets_def clamp_bind_addrs_def
        clamp_non_loopback_def)
qed

theorem bound_addresses_are_local_witness:
  "\<exists>rt. resolve_runtime no_environment example_url_parse exposed_settings = Inr rt
     \<and> ip_is_loopback (sa_ip (http_addr rt)) \<and> ip_is_loopback (sa_ip (socks_addr rt))"
  using exposed_runtime bound_addresses_are_local [OF exposed_runtime]
  by (simp add: exposed_settings_def default_network_settings_def)

end
