(* ===== verification/NetworkConstraints.thy ===== *)
theory NetworkConstraints
  imports NetworkSettings
begin

text \<open>
  Managed constraints on the network proxy (\<open>network-proxy/src/state.rs\<close>): the validation of
  settings against them and the compilation of settings to the state the proxy runs on. The text
  of an error is kept as the entries it prints; the directory of certificates the MITM state
  needs is a parameter that tells whether it can be built.
\<close>

section \<open>Constraints\<close>

record proxy_constraints =
  c_enabled :: "bool option"
  c_mode :: "network_mode option"
  c_allow_upstream_proxy :: "bool option"
  c_non_loopback_proxy :: "bool option"
  c_all_unix_sockets :: "bool option"
  c_allowed_domains :: "ustring list option"
  c_allowlist_expansion :: "bool option"
  c_denied_domains :: "ustring list option"
  c_denylist_expansion :: "bool option"
  c_unix_sockets :: "ustring list option"
  c_local_binding :: "bool option"

definition no_constraints :: proxy_constraints where
  "no_constraints =
     \<lparr>c_enabled = None, c_mode = None, c_allow_upstream_proxy = None, c_non_loopback_proxy = None,
      c_all_unix_sockets = None, c_allowed_domains = None, c_allowlist_expansion = None,
      c_denied_domains = None, c_denylist_expansion = None, c_unix_sockets = None,
      c_local_binding = None\<rparr>"

section \<open>Validation\<close>

fun network_mode_rank :: "network_mode \<Rightarrow> nat" where
  "network_mode_rank Limited = 0"
| "network_mode_rank Full = 1"

fun debug_mode :: "network_mode \<Rightarrow> ustring" where
  "debug_mode Limited = lit ''Limited''"
| "debug_mode Full = lit ''Full''"

definition validate_non_global_wildcard_domain_patterns ::
  "ustring \<Rightarrow> ustring list \<Rightarrow> proxy_error option" where
  "validate_non_global_wildcard_domain_patterns field patterns =
     map_option
       (\<lambda>p. InvalidValue field [trim p]
              [lit ''exact hosts or scoped wildcards like *.example.com or **.example.com''])
       (List.find is_global_wildcard_domain_pattern patterns)"

definition check_flag :: "ustring \<Rightarrow> bool \<Rightarrow> bool option \<Rightarrow> proxy_error option" where
  "check_flag field candidate managed =
     (case managed of
        Some cap \<Rightarrow>
          if candidate \<and> \<not> cap
          then Some (InvalidValue field [lit ''true''] [lit ''false (disabled by managed config)''])
          else None
      | None \<Rightarrow> None)"

definition check_mode :: "network_mode \<Rightarrow> network_mode option \<Rightarrow> proxy_error option" where
  "check_mode candidate managed =
     (case managed of
        Some cap \<Rightarrow>
          if network_mode_rank cap < network_mode_rank candidate
          then Some (InvalidValue (lit ''network.mode'') [debug_mode candidate]
                       [debug_mode cap @ lit '' or more restrictive''])
          else None
      | None \<Rightarrow> None)"

definition lowers :: "ustring list \<Rightarrow> ustring list" where
  "lowers xs = map to_ascii_lowercase xs"

definition missing_entries :: "ustring list \<Rightarrow> ustring list \<Rightarrow> ustring list" where
  "missing_entries required present =
     filter (\<lambda>e. e \<notin> set present) (remdups (lowers required))"

definition check_allowed ::
  "net_lib \<Rightarrow> network_settings \<Rightarrow> ustring list \<Rightarrow> bool option \<Rightarrow> proxy_error option" where
  "check_allowed lib cfg managed expansion =
     (let field = lit ''network.allowed_domains'';
          candidate = allowed_list cfg;
          overrides = lowers (denied_list cfg)
      in case expansion of
           Some True \<Rightarrow>
             (let missing = missing_entries managed (lowers candidate @ overrides)
              in if missing = [] then None
                 else Some (InvalidValue field [lit ''missing managed allowed_domains entries''] missing))
         | Some False \<Rightarrow>
             (if set (lowers candidate) = set (lowers managed) - set overrides then None
              else Some (InvalidValue field candidate [lit ''must match managed allowed_domains'']))
         | None \<Rightarrow>
             (let patterns = map (parse_for_constraints lib) managed;
                  invalid = filter (\<lambda>e. \<not> list_ex (\<lambda>m. pattern_allows m (parse_for_constraints lib e))
                                           patterns) candidate
              in if invalid = [] then None
                 else Some (InvalidValue field invalid [lit ''subset of managed allowed_domains''])))"

definition check_denied ::
  "network_settings \<Rightarrow> ustring list \<Rightarrow> bool option \<Rightarrow> proxy_error option" where
  "check_denied cfg managed expansion =
     (let field = lit ''network.denied_domains'';
          candidate = denied_list cfg
      in if expansion = Some False
         then (if set (lowers candidate) = set (lowers managed) then None
               else Some (InvalidValue field candidate [lit ''must match managed denied_domains'']))
         else (let missing = missing_entries managed (lowers candidate)
               in if missing = [] then None
                  else Some (InvalidValue field [lit ''missing managed denied_domains entries''] missing)))"

definition check_unix_sockets :: "network_settings \<Rightarrow> ustring list \<Rightarrow> proxy_error option" where
  "check_unix_sockets cfg managed =
     (let invalid = filter (\<lambda>e. to_ascii_lowercase e \<notin> set (lowers managed)) (allow_unix_sockets cfg)
      in if invalid = [] then None
         else Some (InvalidValue (lit ''network.allow_unix_sockets'') invalid
                      [lit ''subset of managed allow_unix_sockets'']))"

text \<open>The checks in their order; the first error is returned.\<close>

definition validate_policy_against_constraints ::
  "net_lib \<Rightarrow> network_settings \<Rightarrow> proxy_constraints \<Rightarrow> proxy_error option" where
  "validate_policy_against_constraints lib cfg c =
     find_map (\<lambda>check. check)
       [validate_non_global_wildcard_domain_patterns (lit ''network.denied_domains'') (denied_list cfg),
        check_flag (lit ''network.enabled'') (net_enabled cfg) (c_enabled c),
        check_mode (net_mode cfg) (c_mode c),
        check_flag (lit ''network.allow_upstream_proxy'') (allow_upstream_proxy cfg)
          (c_allow_upstream_proxy c),
        check_flag (lit ''network.dangerously_allow_non_loopback_proxy'')
          (dangerously_allow_non_loopback_proxy cfg) (c_non_loopback_proxy c),
        check_flag (lit ''network.dangerously_allow_all_unix_sockets'')
          (dangerously_allow_all_unix_sockets cfg)
          (Some (case c_all_unix_sockets c of Some b \<Rightarrow> b | None \<Rightarrow> c_unix_sockets c = None)),
        check_flag (lit ''network.allow_local_binding'') (allow_local_binding cfg) (c_local_binding c),
        (case c_allowed_domains c of
           None \<Rightarrow> None
         | Some managed \<Rightarrow>
             (case validate_non_global_wildcard_domain_patterns (lit ''network.allowed_domains'') managed of
                Some e \<Rightarrow> Some e
              | None \<Rightarrow> check_allowed lib cfg managed (c_allowlist_expansion c))),
        (case c_denied_domains c of
           None \<Rightarrow> None
         | Some managed \<Rightarrow>
             (case validate_non_global_wildcard_domain_patterns (lit ''network.denied_domains'') managed of
                Some e \<Rightarrow> Some e
              | None \<Rightarrow> check_denied cfg managed (c_denylist_expansion c))),
        (case c_unix_sockets c of
           None \<Rightarrow> None
         | Some managed \<Rightarrow> check_unix_sockets cfg managed)]"

section \<open>The compiled state\<close>

record blocked_request =
  br_host :: ustring
  br_reason :: ustring
  br_client :: "ustring option"
  br_method :: "ustring option"
  br_mode :: "network_mode option"
  br_protocol :: ustring
  br_decision :: "ustring option"
  br_source :: "ustring option"
  br_port :: "nat option"
  br_timestamp :: int

record config_state =
  cs_config :: network_settings
  allow_set :: globset
  deny_set :: globset
  mitm_state :: "bool option"
  cs_constraints :: proxy_constraints
  blocked :: "blocked_request list"
  blocked_total :: nat

text \<open>
  \<open>MitmState::new\<close> reads or creates the certificate authority of the proxy; \<open>mitm_ok\<close> tells
  whether that succeeds, and the state keeps the flag it was built with.
\<close>

definition build_config_state ::
  "net_lib \<Rightarrow> path_env \<Rightarrow> bool \<Rightarrow> network_settings \<Rightarrow> proxy_constraints \<Rightarrow> proxy_error + config_state" where
  "build_config_state lib env mitm_ok config constraints =
     (case validate_unix_socket_allowlist_paths env config of
        Some e \<Rightarrow> Inl e
      | None \<Rightarrow>
     (case validate_non_global_wildcard_domain_patterns (lit ''network.denied_domains'')
             (denied_list config) of
        Some e \<Rightarrow> Inl e
      | None \<Rightarrow>
     (case compile_denylist_globset lib (denied_list config) of
        Inl e \<Rightarrow> Inl e
      | Inr deny \<Rightarrow>
     (case compile_allowlist_globset lib (allowed_list config) of
        Inl e \<Rightarrow> Inl e
      | Inr allow \<Rightarrow>
          if net_mitm config \<and> \<not> mitm_ok then Inl MitmFailed
          else Inr \<lparr>cs_config = config, allow_set = allow, deny_set = deny,
                    mitm_state = (if net_mitm config then Some (allow_upstream_proxy config) else None),
                    cs_constraints = constraints, blocked = [], blocked_total = 0\<rparr>))))"

section \<open>What validation accepts\<close>

lemma validate_non_global_None:
  "validate_non_global_wildcard_domain_patterns field ps = None \<longleftrightarrow>
     (\<forall>p \<in> set ps. \<not> is_global_wildcard_domain_pattern p)"
  by (auto simp: validate_non_global_wildcard_domain_patterns_def find_None_iff)

lemma check_flag_None: "check_flag field b managed = None \<longleftrightarrow> (managed = Some False \<longrightarrow> \<not> b)"
  by (auto simp: check_flag_def split: option.splits)

lemma check_mode_None: "check_mode m managed = None \<longleftrightarrow> (managed = Some Limited \<longrightarrow> m = Limited)"
  by (cases m; cases "the managed") (auto simp: check_mode_def split: option.splits)

lemma missing_entries_Nil:
  "missing_entries required present = [] \<longleftrightarrow> set (lowers required) \<subseteq> set present"
  by (auto simp: missing_entries_def filter_empty_conv)

lemma check_denied_None:
  "check_denied cfg managed expansion = None \<longleftrightarrow>
     (if expansion = Some False then set (lowers (denied_list cfg)) = set (lowers managed)
      else set (lowers managed) \<subseteq> set (lowers (denied_list cfg)))"
  by (simp add: check_denied_def Let_def missing_entries_Nil)

lemma check_unix_sockets_None:
  "check_unix_sockets cfg managed = None \<longleftrightarrow>
     (\<forall>e \<in> set (allow_unix_sockets cfg). to_ascii_lowercase e \<in> set (lowers managed))"
  by (simp add: check_unix_sockets_def Let_def filter_empty_conv)

lemma check_allowed_None:
  "check_allowed lib cfg managed expansion = None \<longleftrightarrow>
     (case expansion of
        Some True \<Rightarrow> set (lowers managed) \<subseteq> set (lowers (allowed_list cfg)) \<union> set (lowers (denied_list cfg))
      | Some False \<Rightarrow>
          set (lowers (allowed_list cfg)) = set (lowers managed) - set (lowers (denied_list cfg))
      | None \<Rightarrow> \<forall>e \<in> set (allowed_list cfg). \<exists>m \<in> set managed.
          pattern_allows (parse_for_constraints lib m) (parse_for_constraints lib e))"
  by (auto simp: check_allowed_def Let_def missing_entries_Nil filter_empty_conv list_ex_iff
      split: option.split bool.split)

lemma validate_None:
  "validate_policy_against_constraints lib cfg c = None \<longleftrightarrow>
     (\<forall>p \<in> set (denied_list cfg). \<not> is_global_wildcard_domain_pattern p)
     \<and> (c_enabled c = Some False \<longrightarrow> \<not> net_enabled cfg)
     \<and> (c_mode c = Some Limited \<longrightarrow> net_mode cfg = Limited)
     \<and> (c_allow_upstream_proxy c = Some False \<longrightarrow> \<not> allow_upstream_proxy cfg)
     \<and> (c_non_loopback_proxy c = Some False \<longrightarrow> \<not> dangerously_allow_non_loopback_proxy cfg)
     \<and> (c_all_unix_sockets c = Some False \<or> c_all_unix_sockets c = None \<and> c_unix_sockets c \<noteq> None
          \<longrightarrow> \<not> dangerously_allow_all_unix_sockets cfg)
     \<and> (c_local_binding c = Some False \<longrightarrow> \<not> allow_local_binding cfg)
     \<and> (\<forall>managed. c_allowed_domains c = Some managed \<longrightarrow>
          (\<forall>p \<in> set managed. \<not> is_global_wildcard_domain_pattern p)
          \<and> check_allowed lib cfg managed (c_allowlist_expansion c) = None)
     \<and> (\<forall>managed. c_denied_domains c = Some managed \<longrightarrow>
          (\<forall>p \<in> set managed. \<not> is_global_wildcard_domain_pattern p)
          \<and> check_denied cfg managed (c_denylist_expansion c) = None)
     \<and> (\<forall>managed. c_unix_sockets c = Some managed \<longrightarrow> check_unix_sockets cfg managed = None)"
proof -
  have unix: "(Some (case c_all_unix_sockets c of Some b \<Rightarrow> b | None \<Rightarrow> c_unix_sockets c = None) =
      Some False) \<longleftrightarrow>
      c_all_unix_sockets c = Some False \<or> c_all_unix_sockets c = None \<and> c_unix_sockets c \<noteq> None"
    by (auto split: option.split)
  have opt: "(case x of None \<Rightarrow> None | Some m \<Rightarrow> f m) = None \<longleftrightarrow> (\<forall>m. x = Some m \<longrightarrow> f m = None)"
    for x :: "'a option" and f :: "'a \<Rightarrow> proxy_error option"
    by (cases x) auto
  have opt2: "(case x of Some e \<Rightarrow> Some e | None \<Rightarrow> y) = None \<longleftrightarrow> x = None \<and> y = None"
    for x y :: "proxy_error option"
    by (cases x) auto
  show ?thesis
    unfolding validate_policy_against_constraints_def find_map_None list.set ball_simps
      validate_non_global_None check_flag_None check_mode_None unix opt opt2
    by (simp only: conj_assoc simp_thms)
qed

text \<open>A managed denial is one of the denials of accepted settings, up to the case of letters.\<close>

lemma validated_denial_present:
  assumes "validate_policy_against_constraints lib cfg c = None"
    and "c_denied_domains c = Some managed" "d \<in> set managed"
  obtains p where "p \<in> set (denied_list cfg)" "to_ascii_lowercase p = to_ascii_lowercase d"
proof -
  have "check_denied cfg managed (c_denylist_expansion c) = None"
    using assms by (simp add: validate_None)
  then have "set (lowers managed) \<subseteq> set (lowers (denied_list cfg))"
    by (auto simp: check_denied_None split: if_splits)
  then have "to_ascii_lowercase d \<in> set (lowers (denied_list cfg))"
    using assms(3) by (auto simp: lowers_def)
  then show thesis using that by (auto simp: lowers_def)
qed

end
