(* ===== verification/NetworkProxy.thy ===== *)
theory NetworkProxy
  imports NetworkConstraints
begin

text \<open>
  The state of a running network proxy (\<open>network-proxy/src/runtime.rs\<close>): reloading, the
  decision on a host, the record of blocked requests, unix sockets, and the updates of the mode
  and of the domain lists. Every operation first asks the reloader for a fresh state. The two
  updates work on a snapshot and commit it only when the configuration and the constraints are
  still the same; what other tasks do in between is an argument of each attempt. DNS, the
  canonicalisation of paths and the platform are the fields of a parameter.
\<close>

section \<open>The world of the proxy\<close>

record proxy_world =
  w_lib :: net_lib
  w_paths :: path_env
  w_mitm_ok :: bool
  w_dns :: "ustring \<Rightarrow> nat \<Rightarrow> ip_addr list option"
  w_canonical :: "ustring \<Rightarrow> ustring option"
  w_unix_supported :: bool

text \<open>What \<open>ConfigReloader::maybe_reload\<close> answers.\<close>

datatype reload_result = ReloadError ustring | Unchanged | Fresh config_state

definition keep_blocked :: "config_state \<Rightarrow> config_state \<Rightarrow> config_state" where
  "keep_blocked old new = new\<lparr>blocked := blocked old, blocked_total := blocked_total old\<rparr>"

definition reload_if_needed :: "reload_result \<Rightarrow> config_state \<Rightarrow> proxy_error + config_state" where
  "reload_if_needed r s =
     (case r of
        ReloadError e \<Rightarrow> Inl (ReloaderError e)
      | Unchanged \<Rightarrow> Inr s
      | Fresh new \<Rightarrow> Inr (keep_blocked s new))"

text \<open>\<open>force_reload\<close>: \<open>reload_now\<close> gives a state or an error.\<close>

definition force_reload :: "ustring + config_state \<Rightarrow> config_state \<Rightarrow> proxy_error option \<times> config_state" where
  "force_reload r s =
     (case r of
        Inl e \<Rightarrow> (Some (ReloaderError e), s)
      | Inr new \<Rightarrow> (None, new\<lparr>blocked := blocked s\<rparr>))"

definition replace_config_state ::
  "reload_result \<Rightarrow> config_state \<Rightarrow> config_state \<Rightarrow> proxy_error option \<times> config_state" where
  "replace_config_state r new s =
     (case reload_if_needed r s of
        Inl e \<Rightarrow> (Some e, s)
      | Inr s1 \<Rightarrow> (None, keep_blocked s1 new))"

section \<open>The decision on a host\<close>

datatype host_block_reason = Denied | NotAllowed | NotAllowedLocal

fun reason_str :: "host_block_reason \<Rightarrow> ustring" where
  "reason_str Denied = lit ''denied''"
| "reason_str NotAllowed = lit ''not_allowed''"
| "reason_str NotAllowedLocal = lit ''not_allowed_local''"

datatype host_block_decision = HostAllowed | HostBlocked host_block_reason

definition is_explicit_local_allowlisted :: "ustring list \<Rightarrow> ustring \<Rightarrow> bool" where
  "is_explicit_local_allowlisted allowed host \<longleftrightarrow>
     list_ex (\<lambda>raw.
       (let pattern = trim raw
        in if pattern = lit ''*'' \<or> prefix (lit ''*.'') pattern \<or> prefix (lit ''**.'') pattern then False
           else if 42 \<in> set pattern \<or> 63 \<in> set pattern then False
           else normalize_host pattern = host)) allowed"

definition host_resolves_to_non_public_ip :: "proxy_world \<Rightarrow> ustring \<Rightarrow> nat \<Rightarrow> bool" where
  "host_resolves_to_non_public_ip w host port =
     (case parse_ip host of
        Some ip \<Rightarrow> is_non_public_ip ip
      | None \<Rightarrow>
          (case w_dns w host port of
             None \<Rightarrow> True
           | Some addrs \<Rightarrow> list_ex is_non_public_ip addrs))"

definition is_local_literal :: "ustring \<Rightarrow> bool" where
  "is_local_literal host =
     (if is_loopback_host host then True
      else case parse_ip (without_scope host) of
             Some ip \<Rightarrow> is_non_public_ip ip
           | None \<Rightarrow> False)"

definition host_decision ::
  "proxy_world \<Rightarrow> config_state \<Rightarrow> ustring \<Rightarrow> nat \<Rightarrow> host_block_decision" where
  "host_decision w s raw port =
     (case host_parse raw of
        None \<Rightarrow> HostBlocked NotAllowed
      | Some host \<Rightarrow>
          (let cfg = cs_config s;
               allowed = allowed_domains cfg;
               is_allowlisted = is_match (w_lib w) (allow_set s) host;
               blocked_as_local =
                 (if allow_local_binding cfg then False
                  else if is_local_literal host
                  then \<not> is_explicit_local_allowlisted (unwrap_or_default allowed) host
                  else host_resolves_to_non_public_ip w host port)
           in if is_match (w_lib w) (deny_set s) host then HostBlocked Denied
              else if blocked_as_local then HostBlocked NotAllowedLocal
              else if allowed = None \<or> \<not> is_allowlisted then HostBlocked NotAllowed
              else HostAllowed))"

definition host_blocked ::
  "proxy_world \<Rightarrow> reload_result \<Rightarrow> ustring \<Rightarrow> nat \<Rightarrow> config_state \<Rightarrow>
   proxy_error + (host_block_decision \<times> config_state)" where
  "host_blocked w r host port s =
     (case reload_if_needed r s of
        Inl e \<Rightarrow> Inl e
      | Inr s1 \<Rightarrow> Inr (host_decision w s1 host port, s1))"

section \<open>Blocked requests\<close>

definition max_blocked_events :: nat where
  "max_blocked_events = 200"

definition push_blocked :: "blocked_request \<Rightarrow> config_state \<Rightarrow> config_state" where
  "push_blocked entry s =
     (let queue = blocked s @ [entry]
      in s\<lparr>blocked := drop (length queue - max_blocked_events) queue,
           blocked_total := sat_add_usize (blocked_total s) 1\<rparr>)"

definition blocked_snapshot ::
  "reload_result \<Rightarrow> config_state \<Rightarrow> proxy_error + (blocked_request list \<times> config_state)" where
  "blocked_snapshot r s =
     (case reload_if_needed r s of Inl e \<Rightarrow> Inl e | Inr s1 \<Rightarrow> Inr (blocked s1, s1))"

definition drain_blocked ::
  "reload_result \<Rightarrow> config_state \<Rightarrow> proxy_error + (blocked_request list \<times> config_state)" where
  "drain_blocked r s =
     (case reload_if_needed r s of Inl e \<Rightarrow> Inl e | Inr s1 \<Rightarrow> Inr (blocked s1, s1\<lparr>blocked := []\<rparr>))"

section \<open>Unix sockets\<close>

definition socket_entry_allows :: "proxy_world \<Rightarrow> ustring \<Rightarrow> ustring \<Rightarrow> bool" where
  "socket_entry_allows w requested entry =
     (case unix_socket_path_parse (w_paths w) 0 entry of
        Inr (NativeSocket path) \<Rightarrow>
          (if path = requested then True
           else case w_canonical w requested of
                  None \<Rightarrow> False
                | Some c \<Rightarrow> w_canonical w path = Some c)
      | _ \<Rightarrow> False)"

definition unix_socket_decision :: "proxy_world \<Rightarrow> config_state \<Rightarrow> ustring \<Rightarrow> bool" where
  "unix_socket_decision w s path =
     (if \<not> w_unix_supported w then False
      else if \<not> is_absolute path then False
      else if dangerously_allow_all_unix_sockets (cs_config s) then True
      else case from_absolute_path (w_paths w) path of
             None \<Rightarrow> False
           | Some requested \<Rightarrow>
               list_ex (socket_entry_allows w requested) (allow_unix_sockets (cs_config s)))"

definition is_unix_socket_allowed ::
  "proxy_world \<Rightarrow> reload_result \<Rightarrow> ustring \<Rightarrow> config_state \<Rightarrow> proxy_error + (bool \<times> config_state)" where
  "is_unix_socket_allowed w r path s =
     (case reload_if_needed r s of
        Inl e \<Rightarrow> Inl e
      | Inr s1 \<Rightarrow> Inr (unix_socket_decision w s1 path, s1))"

section \<open>Updates\<close>

text \<open>
  One attempt of an update: what the reloader answers, and what other tasks make of the shared
  state between the snapshot and the commit.
\<close>

type_synonym attempt = "reload_result \<times> (config_state \<Rightarrow> config_state)"

text \<open>
  \<open>set_network_mode\<close>. The result is \<open>None\<close> while the loop is still retrying after the given
  attempts.
\<close>

fun set_network_mode ::
  "proxy_world \<Rightarrow> network_mode \<Rightarrow> attempt list \<Rightarrow> config_state \<Rightarrow>
   (proxy_error option \<times> config_state) option" where
  "set_network_mode w mode [] s = None"
| "set_network_mode w mode ((r, others) # attempts) s =
     (case reload_if_needed r s of
        Inl e \<Rightarrow> Some (Some e, s)
      | Inr s1 \<Rightarrow>
          (case validate_policy_against_constraints (w_lib w) ((cs_config s1)\<lparr>net_mode := mode\<rparr>)
                  (cs_constraints s1) of
             Some e \<Rightarrow> Some (Some e, others s1)
           | None \<Rightarrow>
               (let now = others s1
                in if cs_constraints now \<noteq> cs_constraints s1
                   then set_network_mode w mode attempts now
                   else Some (None, now\<lparr>cs_config := (cs_config now)\<lparr>net_mode := mode\<rparr>\<rparr>))))"

datatype domain_list_kind = AllowList | DenyList

fun target_permission :: "domain_list_kind \<Rightarrow> domain_permission" where
  "target_permission AllowList = PermAllow"
| "target_permission DenyList = PermDeny"

fun target_entries :: "domain_list_kind \<Rightarrow> network_settings \<Rightarrow> ustring list" where
  "target_entries AllowList cfg = allowed_list cfg"
| "target_entries DenyList cfg = denied_list cfg"

fun opposite_entries :: "domain_list_kind \<Rightarrow> network_settings \<Rightarrow> ustring list" where
  "opposite_entries AllowList cfg = denied_list cfg"
| "opposite_entries DenyList cfg = allowed_list cfg"

text \<open>The host is in the list already, and not in the other one.\<close>

definition already_listed :: "domain_list_kind \<Rightarrow> ustring \<Rightarrow> network_settings \<Rightarrow> bool" where
  "already_listed target host cfg \<longleftrightarrow>
     list_ex (\<lambda>e. normalize_host e = host) (target_entries target cfg)
     \<and> \<not> list_ex (\<lambda>e. normalize_host e = host) (opposite_entries target cfg)"

text \<open>The state an update builds from its snapshot.\<close>

definition updated_state ::
  "proxy_world \<Rightarrow> domain_list_kind \<Rightarrow> ustring \<Rightarrow> config_state \<Rightarrow> proxy_error + config_state" where
  "updated_state w target host s =
     (let candidate = upsert_domain_permission host (target_permission target) normalize_host
                        (cs_config s)
      in case validate_policy_against_constraints (w_lib w) candidate (cs_constraints s) of
           Some e \<Rightarrow> Inl e
         | None \<Rightarrow>
             (case build_config_state (w_lib w) (w_paths w) (w_mitm_ok w) candidate (cs_constraints s) of
                Inl e \<Rightarrow> Inl e
              | Inr new \<Rightarrow> Inr (keep_blocked s new)))"

fun update_attempts ::
  "proxy_world \<Rightarrow> domain_list_kind \<Rightarrow> ustring \<Rightarrow> attempt list \<Rightarrow> config_state \<Rightarrow>
   (proxy_error option \<times> config_state) option" where
  "update_attempts w target host [] s = None"
| "update_attempts w target host ((r, others) # attempts) s =
     (case reload_if_needed r s of
        Inl e \<Rightarrow> Some (Some e, s)
      | Inr s1 \<Rightarrow>
          if already_listed target host (cs_config s1) then Some (None, others s1)
          else
            (case updated_state w target host s1 of
               Inl e \<Rightarrow> Some (Some e, others s1)
             | Inr new \<Rightarrow>
                 (let now = others s1
                  in if cs_constraints now \<noteq> cs_constraints s1 \<or> cs_config now \<noteq> cs_config s1
                     then update_attempts w target host attempts now
                     else Some (None, new))))"

definition update_domain_list ::
  "proxy_world \<Rightarrow> domain_list_kind \<Rightarrow> ustring \<Rightarrow> attempt list \<Rightarrow> config_state \<Rightarrow>
   (proxy_error option \<times> config_state) option" where
  "update_domain_list w target raw attempts s =
     (case host_parse raw of
        None \<Rightarrow> Some (Some InvalidNetworkHost, s)
      | Some host \<Rightarrow> update_attempts w target host attempts s)"

definition add_allowed_domain ::
  "proxy_world \<Rightarrow> ustring \<Rightarrow> attempt list \<Rightarrow> config_state \<Rightarrow> (proxy_error option \<times> config_state) option" where
  "add_allowed_domain w host = update_domain_list w AllowList host"

definition add_denied_domain ::
  "proxy_world \<Rightarrow> ustring \<Rightarrow> attempt list \<Rightarrow> config_state \<Rightarrow> (proxy_error option \<times> config_state) option" where
  "add_denied_domain w host = update_domain_list w DenyList host"

section \<open>States that fit their configuration\<close>

text \<open>The configuration respects the constraints and the sets are compiled from it.\<close>

definition state_ok :: "proxy_world \<Rightarrow> config_state \<Rightarrow> bool" where
  "state_ok w s \<longleftrightarrow>
     validate_policy_against_constraints (w_lib w) (cs_config s) (cs_constraints s) = None
     \<and> compile_denylist_globset (w_lib w) (denied_list (cs_config s)) = Inr (deny_set s)
     \<and> compile_allowlist_globset (w_lib w) (allowed_list (cs_config s)) = Inr (allow_set s)"

lemma build_config_state_Inr:
  assumes "build_config_state lib env mitm_ok cfg c = Inr new"
  shows "cs_config new = cfg" "cs_constraints new = c" "blocked new = []" "blocked_total new = 0"
    "compile_denylist_globset lib (denied_list cfg) = Inr (deny_set new)"
    "compile_allowlist_globset lib (allowed_list cfg) = Inr (allow_set new)"
  using assms by (auto simp: build_config_state_def split: option.splits sum.splits if_splits)

lemma keep_blocked_simps [simp]:
  "cs_config (keep_blocked s new) = cs_config new"
  "cs_constraints (keep_blocked s new) = cs_constraints new"
  "deny_set (keep_blocked s new) = deny_set new" "allow_set (keep_blocked s new) = allow_set new"
  "blocked (keep_blocked s new) = blocked s" "blocked_total (keep_blocked s new) = blocked_total s"
  by (simp_all add: keep_blocked_def)

lemma push_blocked_simps [simp]:
  "cs_config (push_blocked e s) = cs_config s" "cs_constraints (push_blocked e s) = cs_constraints s"
  "deny_set (push_blocked e s) = deny_set s" "allow_set (push_blocked e s) = allow_set s"
  by (simp_all add: push_blocked_def Let_def)

lemma updated_state_Inr:
  assumes "updated_state w target host s = Inr new"
  shows "state_ok w new" "cs_constraints new = cs_constraints s" "blocked new = blocked s"
    "blocked_total new = blocked_total s"
    "cs_config new = upsert_domain_permission host (target_permission target) normalize_host (cs_config s)"
  using assms
  by (auto simp: updated_state_def state_ok_def Let_def build_config_state_Inr
      split: option.splits sum.splits)

lemma mode_entries [simp]:
  "denied_list (cfg\<lparr>net_mode := mode\<rparr>) = denied_list cfg"
  "allowed_list (cfg\<lparr>net_mode := mode\<rparr>) = allowed_list cfg"
  "allow_unix_sockets (cfg\<lparr>net_mode := mode\<rparr>) = allow_unix_sockets cfg"
  by (simp_all add: denied_domains_def allowed_domains_def domain_entries_def allow_unix_sockets_def)

text \<open>
  The mode of a configuration is checked on its own, so a mode validated on one configuration
  can be set in another one under the same constraints.
\<close>

lemma mode_validates:
  assumes "validate_policy_against_constraints lib (cfg\<lparr>net_mode := mode\<rparr>) c = None"
    and "validate_policy_against_constraints lib cfg' c = None"
  shows "validate_policy_against_constraints lib (cfg'\<lparr>net_mode := mode\<rparr>) c = None"
  using assms
  by (simp add: validate_None check_allowed_def check_denied_def check_unix_sockets_def)

section \<open>Reachable states\<close>

text \<open>
  The states the shared configuration goes through, when the loader gives the states in
  \<open>trusted\<close>. An update commits a state built from an earlier state of the proxy; \<open>forced\<close> tells
  whether the reload is ever forced.
\<close>

inductive proxy_reachable ::
  "proxy_world \<Rightarrow> (config_state \<Rightarrow> bool) \<Rightarrow> bool \<Rightarrow> config_state \<Rightarrow> bool"
  for w trusted forced where
  start: "trusted s \<Longrightarrow> proxy_reachable w trusted forced s"
| reloaded: "\<lbrakk>proxy_reachable w trusted forced s; trusted new;
     reload_if_needed (Fresh new) s = Inr s'\<rbrakk> \<Longrightarrow> proxy_reachable w trusted forced s'"
| force_reloaded: "\<lbrakk>proxy_reachable w trusted forced s; forced; trusted new;
     force_reload (Inr new) s = (None, s')\<rbrakk> \<Longrightarrow> proxy_reachable w trusted forced s'"
| replaced: "\<lbrakk>proxy_reachable w trusted forced s; trusted new;
     replace_config_state Unchanged new s = (None, s')\<rbrakk> \<Longrightarrow> proxy_reachable w trusted forced s'"
| recorded: "proxy_reachable w trusted forced s \<Longrightarrow> proxy_reachable w trusted forced (push_blocked e s)"
| drained: "\<lbrakk>proxy_reachable w trusted forced s; drain_blocked Unchanged s = Inr (es, s')\<rbrakk> \<Longrightarrow>
     proxy_reachable w trusted forced s'"
| mode_set: "\<lbrakk>proxy_reachable w trusted forced snap; proxy_reachable w trusted forced now;
     validate_policy_against_constraints (w_lib w) ((cs_config snap)\<lparr>net_mode := mode\<rparr>)
       (cs_constraints snap) = None;
     cs_constraints now = cs_constraints snap\<rbrakk> \<Longrightarrow>
     proxy_reachable w trusted forced (now\<lparr>cs_config := (cs_config now)\<lparr>net_mode := mode\<rparr>\<rparr>)"
| updated: "\<lbrakk>proxy_reachable w trusted forced snap; proxy_reachable w trusted forced now;
     updated_state w target host snap = Inr new;
     cs_constraints now = cs_constraints snap; cs_config now = cs_config snap\<rbrakk> \<Longrightarrow>
     proxy_reachable w trusted forced new"

lemma reload_reachable:
  "proxy_reachable w trusted forced s \<Longrightarrow> (\<And>new. r = Fresh new \<Longrightarrow> trusted new) \<Longrightarrow>
   reload_if_needed r s = Inr s' \<Longrightarrow> proxy_reachable w trusted forced s'"
  by (cases r) (auto simp: reload_if_needed_def intro: proxy_reachable.reloaded)

text \<open>The attempts of an update whose reloads are trusted and whose other tasks take proxy steps.\<close>

definition fair_attempts ::
  "proxy_world \<Rightarrow> (config_state \<Rightarrow> bool) \<Rightarrow> bool \<Rightarrow> attempt list \<Rightarrow> bool" where
  "fair_attempts w trusted forced attempts \<longleftrightarrow>
     (\<forall>(r, others) \<in> set attempts. (\<forall>new. r = Fresh new \<longrightarrow> trusted new)
        \<and> (\<forall>t. proxy_reachable w trusted forced t \<longrightarrow> proxy_reachable w trusted forced (others t)))"

lemma set_network_mode_reachable:
  "proxy_reachable w trusted forced s \<Longrightarrow> fair_attempts w trusted forced attempts \<Longrightarrow>
   set_network_mode w mode attempts s = Some (res, s') \<Longrightarrow> proxy_reachable w trusted forced s'"
proof (induction w mode attempts s rule: set_network_mode.induct)
  case (2 w mode r others attempts s)
  have rest: "fair_attempts w trusted forced attempts"
    and step: "\<And>t. proxy_reachable w trusted forced t \<Longrightarrow> proxy_reachable w trusted forced (others t)"
    and new: "\<And>new. r = Fresh new \<Longrightarrow> trusted new"
    using "2.prems" by (auto simp: fair_attempts_def)
  show ?case
  proof (cases "reload_if_needed r s")
    case (Inl e)
    then show ?thesis using "2.prems" by simp
  next
    case (Inr s1)
    then have s1: "proxy_reachable w trusted forced s1"
      using reload_reachable [OF "2.prems"(1) new] by blast
    show ?thesis
      using "2.prems" "2.IH" [OF Inr _ refl] Inr s1 step rest
      by (auto simp: Let_def split: option.splits if_splits intro: proxy_reachable.mode_set)
  qed
qed simp

lemma update_loop_reachable:
  "proxy_reachable w trusted forced s \<Longrightarrow> fair_attempts w trusted forced attempts \<Longrightarrow>
   update_attempts w target host attempts s = Some (res, s') \<Longrightarrow> proxy_reachable w trusted forced s'"
proof (induction w target host attempts s rule: update_attempts.induct)
  case (2 w target host r others attempts s)
  have rest: "fair_attempts w trusted forced attempts"
    and step: "\<And>t. proxy_reachable w trusted forced t \<Longrightarrow> proxy_reachable w trusted forced (others t)"
    and new: "\<And>new. r = Fresh new \<Longrightarrow> trusted new"
    using "2.prems" by (auto simp: fair_attempts_def)
  show ?case
  proof (cases "reload_if_needed r s")
    case (Inl e)
    then show ?thesis using "2.prems" by simp
  next
    case (Inr s1)
    then have s1: "proxy_reachable w trusted forced s1"
      using reload_reachable [OF "2.prems"(1) new] by blast
    show ?thesis
      using "2.prems" "2.IH" [OF Inr _ _ refl] Inr s1 step rest
      by (auto simp: Let_def split: sum.splits if_splits intro: proxy_reachable.updated)
  qed
qed simp

lemma reachable_state_ok:
  assumes "proxy_reachable w trusted forced s" "\<And>t. trusted t \<Longrightarrow> state_ok w t"
  shows "state_ok w s"
  using assms
proof (induction rule: proxy_reachable.induct)
  case (mode_set snap now mode)
  then show ?case by (auto simp: state_ok_def intro: mode_validates)
next
  case (updated snap now target host new)
  then show ?case by (blast intro: updated_state_Inr)
qed (auto simp: state_ok_def reload_if_needed_def force_reload_def replace_config_state_def
    drain_blocked_def)

lemma reachable_constraints:
  assumes "proxy_reachable w trusted forced s" "\<And>t. trusted t \<Longrightarrow> P (cs_constraints t)"
  shows "P (cs_constraints s)"
  using assms
  by (induction rule: proxy_reachable.induct)
    (auto simp: updated_state_Inr reload_if_needed_def force_reload_def replace_config_state_def
      drain_blocked_def)

text \<open>
  A domain the managed constraints deny stays denied. Whatever the users of the proxy do (changes
  of the mode and of the domain lists, also concurrent ones, reloads and replacements by states
  the loader validated), every request to a host that a glob of the denied pattern matches is
  blocked as denied.
\<close>

lemma managed_denials_hold:
  assumes "proxy_reachable w trusted forced s"
    and "\<And>t. trusted t \<Longrightarrow> state_ok w t"
    and "\<And>t. trusted t \<Longrightarrow> \<exists>managed. c_denied_domains (cs_constraints t) = Some managed \<and> d \<in> set managed"
    and "host_parse raw = Some host" and "is_match (w_lib w) (pattern_globs d) host"
  shows "host_decision w s raw port = HostBlocked Denied"
proof -
  have ok: "state_ok w s" using assms(1,2) by (rule reachable_state_ok)
  have "\<exists>managed. c_denied_domains (cs_constraints s) = Some managed \<and> d \<in> set managed"
    using reachable_constraints [OF assms(1), where P = "\<lambda>c. \<exists>managed. c_denied_domains c = Some managed
      \<and> d \<in> set managed"] assms(3) by blast
  then obtain p where p: "p \<in> set (denied_list (cs_config s))"
    "to_ascii_lowercase p = to_ascii_lowercase d"
    using ok by (auto simp: state_ok_def elim: validated_denial_present)
  have "is_match (w_lib w) (deny_set s) host"
  proof (rule compiled_globs_match)
    show "compile_globset_with_policy (w_lib w) (denied_list (cs_config s)) RejectWildcard = Inr (deny_set s)"
      using ok by (simp add: state_ok_def compile_denylist_globset_def)
    show "p \<in> set (denied_list (cs_config s))" by (rule p(1))
    show "is_match (w_lib w) (pattern_globs p) host"
      using assms(5) pattern_globs_lower [OF p(2)] by simp
  qed
  then show ?thesis using assms(4) by (simp add: host_decision_def Let_def)
qed

text \<open>
  The trait \<open>ConfigReloader\<close>: whatever gives the proxy its states gives states that are validated
  and compiled from their configuration. The proxy then stays in such states.
\<close>

locale config_reloader =
  fixes w :: proxy_world and gives :: "config_state \<Rightarrow> bool"
  assumes gives_ok: "gives t \<Longrightarrow> state_ok w t"
begin

lemma stays_ok: "proxy_reachable w gives forced s \<Longrightarrow> state_ok w s"
  by (rule reachable_state_ok [OF _ gives_ok])

lemma denials_stay:
  assumes "proxy_reachable w gives forced s"
    and "\<And>t. gives t \<Longrightarrow> \<exists>managed. c_denied_domains (cs_constraints t) = Some managed \<and> d \<in> set managed"
    and "host_parse raw = Some host" "is_match (w_lib w) (pattern_globs d) host"
  shows "host_decision w s raw port = HostBlocked Denied"
  by (rule managed_denials_hold [OF assms(1) gives_ok assms(2-4)])

end


section \<open>An example\<close>

definition example_world :: proxy_world where
  "example_world = \<lparr>w_lib = example_lib, w_paths = no_environment, w_mitm_ok = True,
     w_dns = \<lambda>h p. Some [V4 0x08080808], w_canonical = \<lambda>p. None, w_unix_supported = False\<rparr>"

definition example_settings :: network_settings where
  "example_settings = default_network_settings\<lparr>net_enabled := True, net_domains :=
     Some [\<lparr>de_pattern = lit ''evil.com'', de_permission = PermDeny\<rparr>,
           \<lparr>de_pattern = lit ''**.Example.com'', de_permission = PermAllow\<rparr>]\<rparr>"

definition example_constraints :: proxy_constraints where
  "example_constraints = no_constraints\<lparr>c_denied_domains := Some [lit ''Evil.com'']\<rparr>"

definition example_state :: config_state where
  "example_state = \<lparr>cs_config = example_settings,
     allow_set = [lit ''example.com'', lit ''?*.example.com''], deny_set = [lit ''evil.com''],
     mitm_state = None, cs_constraints = example_constraints, blocked = [], blocked_total = 0\<rparr>"

lemmas host_text_eval = trim_def trim_start_def trim_end_def is_whitespace_def lit_def uc_def
  normalize_host_def normalize_dns_host_def trim_end_matches_def to_ascii_lowercase_def
  to_ascii_lower_def normalize_pattern_def strip_prefix_def domain_pattern_parse_def parse_domain_def
  expand_domain_pattern_def is_global_wildcard_domain_pattern_def

lemma example_denied [simp]: "denied_list example_settings = [lit ''evil.com'']"
  and example_allowed [simp]: "allowed_list example_settings = [lit ''**.Example.com'']"
  by (simp_all add: example_settings_def denied_domains_def allowed_domains_def domain_entries_def
      effective_entries_def effective_step_def less_domain_permission_def)

lemma evil_pattern:
  "compiled_pattern (lit ''Evil.com'') = Exact (lit ''evil.com'')"
  "is_global_wildcard_domain_pattern (lit ''Evil.com'') = False"
  "expand_domain_pattern (normalize_pattern (lit ''evil.com'')) = [lit ''evil.com'']"
  "is_global_wildcard_domain_pattern (lit ''evil.com'') = False"
  by (simp_all add: compiled_pattern_def host_text_eval)

lemma evil_globs: "pattern_globs (lit ''Evil.com'') = [lit ''evil.com'']"
  by (simp add: pattern_globs_def host_text_eval)

lemma glob_like_evil: "glob_like (lit ''evil.com'') (lit ''evil.com'')"
  by (simp add: lit_def uc_def)

lemma example_pattern:
  "expand_domain_pattern (normalize_pattern (lit ''**.Example.com'')) =
     [lit ''example.com'', lit ''?*.example.com'']"
  by (simp add: host_text_eval)

lemma example_state_ok: "state_ok example_world example_state"
proof -
  have flags: "\<not> dangerously_allow_all_unix_sockets example_settings"
    "allow_unix_sockets example_settings = []"
    by (simp_all add: example_settings_def default_network_settings_def allow_unix_sockets_def)
  show ?thesis
    by (simp add: state_ok_def example_state_def validate_None example_constraints_def
        no_constraints_def check_denied_None lowers_def compile_denylist_globset_def
        compile_allowlist_globset_def compile_globset_with_policy_def evil_pattern example_pattern
        example_world_def example_lib_def flags)
      (simp add: to_ascii_lowercase_def to_ascii_lower_def lit_def uc_def)
qed

section \<open>Local networks\<close>

text \<open>
  A host that names a local address: without its IPv6 scope it is \<open>localhost\<close> or the text of an
  address that is not public.
\<close>

definition names_local_address :: "ustring \<Rightarrow> bool" where
  "names_local_address host \<longleftrightarrow>
     (let h = takeWhile (\<lambda>c. c \<noteq> 37) host
      in h = lit ''localhost'' \<or> (case parse_ip h of None \<Rightarrow> False | Some ip \<Rightarrow> is_non_public_ip ip))"

lemma split_once_fst: "(case split_once c s of Some (a, b) \<Rightarrow> a | None \<Rightarrow> s) = takeWhile (\<lambda>x. x \<noteq> c) s"
proof (induction s)
  case (Cons x s)
  then show ?case by (cases "position (\<lambda>x. x = c) s") (auto simp: split_once_def)
qed (simp add: split_once_def)

lemma loopback_non_public: "ip_is_loopback ip \<Longrightarrow> is_non_public_ip ip"
  by (cases ip) (auto simp: is_non_public_ipv4_def is_non_public_ipv6_def split: option.split)

lemma is_local_literal_names: "is_local_literal host \<longleftrightarrow> names_local_address host"
  by (auto simp: is_local_literal_def is_loopback_host_def names_local_address_def without_scope_def
      split_once_fst Let_def dest: loopback_non_public split: option.splits if_splits)

text \<open>
  C20: without local binding, an allowed host is never an address of the local network by
  surprise. A host that names a local address (\<open>localhost\<close> or an address that is not public, with or
  without an IPv6 scope) is allowed only when an entry of the allowlist without wildcards names
  exactly it. Any other host is a public address, or its name resolved, in this check, to public
  addresses only, whatever the allowlist says; a name that cannot be resolved is blocked.
\<close>

theorem allowed_hosts_are_public_or_listed:
  assumes "host_decision w s raw port = HostAllowed" "\<not> allow_local_binding (cs_config s)"
  shows "\<exists>host. host_parse raw = Some host \<and>
    (if names_local_address host
     then \<exists>p \<in> set (allowed_list (cs_config s)). 42 \<notin> set (trim p) \<and> 63 \<notin> set (trim p)
            \<and> normalize_host (trim p) = host
     else case parse_ip host of
            Some ip \<Rightarrow> \<not> is_non_public_ip ip
          | None \<Rightarrow> (\<exists>addrs. w_dns w host port = Some addrs \<and> list_all (\<lambda>ip. \<not> is_non_public_ip ip) addrs))"
proof -
  obtain host where h: "host_parse raw = Some host"
    using assms(1) by (auto simp: host_decision_def split: option.splits)
  show ?thesis
  proof (cases "names_local_address host")
    case True
    then have "is_explicit_local_allowlisted (allowed_list (cs_config s)) host"
      using assms h by (auto simp: host_decision_def Let_def is_local_literal_names split: if_splits)
    then show ?thesis using h True
      by (auto simp: is_explicit_local_allowlisted_def list_ex_iff Let_def split: if_splits)
  next
    case False
    then have "\<not> host_resolves_to_non_public_ip w host port"
      using assms h by (auto simp: host_decision_def Let_def is_local_literal_names split: if_splits)
    then show ?thesis using h False
      by (auto simp: host_resolves_to_non_public_ip_def list_all_iff list_ex_iff split: option.splits)
  qed
qed

lemma example_matches:
  "is_match example_lib [lit ''evil.com''] (lit ''api.example.com'') = False"
  "is_match example_lib [lit ''example.com'', lit ''?*.example.com''] (lit ''api.example.com'')"
  by (simp_all add: is_match_def example_lib_def lit_def uc_def to_ascii_lower_def)

lemma example_allowed_host:
  assumes p: "host_parse raw = Some (lit ''api.example.com'')"
  shows "host_decision example_world example_state raw port = HostAllowed"
proof -
  have ip: "parse_ip (lit ''api.example.com'') = None"
    by (simp add: ip_parse_eval)
  have scope: "without_scope (lit ''api.example.com'') = lit ''api.example.com''"
    by (simp add: without_scope_def split_once_def lit_def uc_def)
  have some: "allowed_domains example_settings \<noteq> None"
    using example_allowed by (metis list.distinct(1) unwrap_simps(1))
  have pub: "\<not> is_non_public_ip (V4 0x08080808)"
    by (simp add: is_non_public_ipv4_iff reserved_ipv4_blocks_def)
  show ?thesis
    using some pub
    by (simp add: host_decision_def p is_local_literal_def is_loopback_host_def scope ip
        host_resolves_to_non_public_ip_def example_state_def example_world_def example_matches
        example_settings_def default_network_settings_def)
qed

theorem allowed_hosts_are_public_or_listed_witness:
  "host_decision example_world example_state (lit ''api.example.com:443'') 443 = HostAllowed
   \<and> (\<exists>addrs. w_dns example_world (lit ''api.example.com'') 443 = Some addrs
        \<and> list_all (\<lambda>ip. \<not> is_non_public_ip ip) addrs)"
proof -
  have host: "host_parse (lit ''api.example.com:443'') = Some (lit ''api.example.com'')"
    by (simp add: host_parse_def host_text_eval)
  from example_allowed_host [OF this]
  have run: "host_decision example_world example_state (lit ''api.example.com:443'') 443 = HostAllowed" .
  have ip: "parse_ip (lit ''api.example.com'') = None" by (simp add: ip_parse_eval)
  have "takeWhile (\<lambda>c. c \<noteq> 37) (lit ''api.example.com'') = lit ''api.example.com''"
    "lit ''api.example.com'' \<noteq> lit ''localhost''"
    by (simp_all add: lit_def uc_def)
  then have "\<not> names_local_address (lit ''api.example.com'')"
    unfolding names_local_address_def by (simp only: Let_def ip option.case simp_thms)
  moreover have "\<not> allow_local_binding (cs_config example_state)"
    by (simp add: example_state_def example_settings_def default_network_settings_def)
  ultimately show ?thesis
    using allowed_hosts_are_public_or_listed [OF run] run host ip by simp
qed

section \<open>Updates\<close>

lemma trim_idem [simp]: "trim (trim s) = trim s"
proof -
  let ?t = "dropWhile is_whitespace s"
  have "trim_start (trim s) = trim s"
  proof (cases "trim s")
    case (Cons x r)
    then obtain q where "?t = x # q"
      using suffix_dropWhile [of is_whitespace "rev ?t"]
      by (auto simp: trim_def trim_start_def trim_end_def suffix_def rev_eq_append_conv)
    then have "\<not> is_whitespace x" using hd_dropWhile [of is_whitespace s] by auto
    then show ?thesis using Cons by (simp add: trim_start_def)
  qed (simp add: trim_start_def)
  then show ?thesis by (simp add: trim_def [of "trim s"]) (simp add: trim_def trim_end_def)
qed

text \<open>A host is at most as long as what it is read from, so its own normal form has no blanks around.\<close>

lemma length_trim: "length (trim s) \<le> length s"
  using length_dropWhile_le [of is_whitespace s]
    length_dropWhile_le [of is_whitespace "rev (dropWhile is_whitespace s)"]
  by (simp add: trim_def trim_start_def trim_end_def)

lemma trim_full_length: "length (trim s) = length s \<Longrightarrow> trim s = s"
proof -
  assume len: "length (trim s) = length s"
  let ?t = "dropWhile is_whitespace s"
  have whole: "length (dropWhile P xs) = length xs \<Longrightarrow> dropWhile P xs = xs" for P and xs :: ustring
    using length_dropWhile_le [of P "tl xs"] by (cases xs) auto
  have "length (trim s) \<le> length ?t" "length ?t \<le> length s"
    using length_dropWhile_le [of is_whitespace "rev ?t"] length_dropWhile_le [of is_whitespace s]
    by (simp_all add: trim_def trim_start_def trim_end_def)
  then have "?t = s" using len whole [of is_whitespace s] by simp
  moreover have "dropWhile is_whitespace (rev ?t) = rev ?t"
    using len calculation whole [of is_whitespace "rev ?t"]
    by (simp add: trim_def trim_start_def trim_end_def)
  ultimately show "trim s = s" by (simp add: trim_def trim_start_def trim_end_def)
qed

lemma length_normalize_dns_host: "length (normalize_dns_host s) \<le> length s"
  using length_dropWhile_le [of "\<lambda>c. c = 46" "rev (to_ascii_lowercase s)"]
  by (simp add: normalize_dns_host_def trim_end_matches_def to_ascii_lowercase_def)

lemma length_hd_split: "length (hd (split_on c s)) \<le> length s"
  by (induction s) (auto split: list.split)

lemma length_normalize_host: "length (normalize_host s) \<le> length (trim s)"
proof -
  have "length (drop 1 (take i (trim s))) \<le> length (trim s)" for i by simp
  then show ?thesis
    using length_hd_split [of 58 "trim s"]
    by (auto simp: normalize_host_def Let_def split: option.split
        intro: le_trans [OF length_normalize_dns_host])
qed

lemma trim_normal: "normalize_host h = h \<Longrightarrow> trim h = h"
  using length_normalize_host [of h] length_trim [of h] by (intro trim_full_length) simp

text \<open>A pattern that normalises to a literal host as a host is compiled to that host alone.\<close>

lemma star_stays:
  assumes "trim p = 42 # r"
  shows "42 \<in> set (normalize_host p)"
proof -
  have hd_split: "hd (split_on 58 (42 # r)) = 42 # hd (split_on 58 r)"
    by (cases "split_on 58 r") auto
  have low: "to_ascii_lower 42 = 42" by (simp add: to_ascii_lower_def)
  have "42 \<in> set (normalize_dns_host (42 # u))" for u
  proof (cases "normalize_dns_host u = []")
    case True
    then show ?thesis
      by (auto simp: normalize_dns_host_def to_ascii_lowercase_def trim_end_matches_def low
          dropWhile_append)
  next
    case False
    then have "normalize_dns_host (42 # u) = 42 # normalize_dns_host u"
      using trim_end_matches_append [of 46 "to_ascii_lowercase u" "[42]"]
      by (simp add: normalize_dns_host_def to_ascii_lowercase_def low)
    then show ?thesis by simp
  qed
  then show ?thesis
    by (simp add: normalize_host_def assms Let_def hd_split del: split_on.simps)
qed

lemma literal_pattern:
  assumes "literal_host h" "normalize_host p = h"
  shows "pattern_globs p = [h]"
proof -
  have h: "h \<noteq> []" "trim h = h" "42 \<notin> set h"
    using assms(1) trim_normal by (auto simp: literal_host_def list_all_iff)
  have no_star: "\<not> prefix (42 # q) (trim p)" for q
    using star_stays [of p] assms(2) h(3) by (auto simp: prefix_def)
  have pattern: "normalize_pattern p = h"
    using no_star [of "[]"] no_star [of "[46]"] no_star [of "[42, 46]"] assms(2)
    by (auto simp: normalize_pattern_def lit_stars strip_prefix_def Let_def normalize_host_def trim_idem)
  have "\<not> prefix (42 # q) h" for q using h(3) by (auto simp: prefix_def)
  then show ?thesis
    using h by (simp add: pattern_globs_def pattern expand_domain_pattern_def domain_pattern_parse_def
        lit_stars strip_prefix_def)
qed

lemma listed_host_denied:
  assumes "compile_denylist_globset (w_lib w) (denied_list (cs_config s)) = Inr (deny_set s)"
    and "p \<in> set (denied_list (cs_config s))" "normalize_host p = host"
    and "literal_law (w_lib w)" "host_parse raw = Some host" "literal_host host"
  shows "host_decision w s raw port = HostBlocked Denied"
proof -
  have "is_match (w_lib w) (pattern_globs p) host"
    using literal_pattern [OF assms(6,3)] assms(4,6) by (simp add: is_match_def literal_law_def)
  then have "is_match (w_lib w) (deny_set s) host"
    by (rule compiled_globs_match [OF assms(1) [unfolded compile_denylist_globset_def] assms(2)])
  then show ?thesis using assms(5) by (simp add: host_decision_def Let_def)
qed

text \<open>
  C25: a literal host added to the denylist is denied from then on: when the update succeeds,
  from a state that fits its configuration (as every state of the proxy does) and with nobody else
  changing the configuration meanwhile, every request that names the host is blocked as denied,
  whether the entry was there already or not, and whatever the allowlist says. A host is literal
  when it is its own normal form (names and addresses of both kinds are, but not a text in
  brackets that holds blanks or a single colon) and has none of the characters \<open>? * [ ] { } \\<close>,
  which the glob the entry is compiled to reads as wildcards; of the glob matcher it is used
  that the glob of a literal host matches that host (\<open>literal_law\<close>).
\<close>

theorem added_denial_takes_effect:
  assumes "add_denied_domain w raw [(r, \<lambda>t. t)] s = Some (None, s')"
    and "\<And>t. reload_if_needed r s = Inr t \<Longrightarrow> state_ok w t"
    and "literal_law (w_lib w)"
    and "host_parse raw = Some host" "literal_host host" "host_parse raw' = Some host"
  shows "host_decision w s' raw' port = HostBlocked Denied"
proof -
  have run: "update_attempts w DenyList host [(r, \<lambda>t. t)] s = Some (None, s')"
    using assms(1,4) by (simp add: add_denied_domain_def update_domain_list_def)
  then obtain s1 where s1: "reload_if_needed r s = Inr s1"
    by (auto split: sum.splits)
  have "state_ok w s' \<and> (\<exists>p \<in> set (denied_list (cs_config s')). normalize_host p = host)"
  proof (cases "already_listed DenyList host (cs_config s1)")
    case True
    then show ?thesis using run s1 assms(2) by (auto simp: already_listed_def list_ex_iff)
  next
    case False
    then have u: "updated_state w DenyList host s1 = Inr s'"
      using run s1 by (auto simp: Let_def split: sum.splits)
    then have "host \<in> set (denied_list (cs_config s'))"
      by (simp add: updated_state_Inr upsert_denied)
    then show ?thesis
      using updated_state_Inr(1) [OF u] assms(5) by (auto simp: literal_host_def)
  qed
  then show ?thesis
    using assms(3,5,6) by (auto simp: state_ok_def intro: listed_host_denied)
qed

lemma add_candidates_example: "\<exists>gs. add_candidates example_lib cs acc = Inr gs"
  by (induction "example_lib" cs acc rule: add_candidates.induct) (auto simp: example_lib_def)

lemma compile_loop_example:
  "\<forall>p \<in> set ps. \<not> is_global_wildcard_domain_pattern p \<Longrightarrow>
   \<exists>gs. compile_loop example_lib policy ps acc = Inr gs"
proof (induction ps arbitrary: acc)
  case (Cons p ps)
  obtain gs where "add_candidates example_lib (expand_domain_pattern (normalize_pattern p)) acc = Inr gs"
    using add_candidates_example by blast
  with Cons show ?case by simp
qed simp

lemma compile_example:
  assumes "\<forall>p \<in> set ps. \<not> is_global_wildcard_domain_pattern p"
  shows "\<exists>gs. compile_globset_with_policy example_lib ps policy = Inr gs"
proof -
  obtain gs where "compile_loop example_lib policy ps [] = Inr gs"
    using compile_loop_example [OF assms] by blast
  then show ?thesis by (simp add: compile_globset_with_policy_def) (simp add: example_lib_def)
qed

lemma upsert_keeps [simp]:
  "dangerously_allow_all_unix_sockets (upsert_domain_permission h p nz s) = dangerously_allow_all_unix_sockets s"
  "net_unix_sockets (upsert_domain_permission h p nz s) = net_unix_sockets s"
  "net_mitm (upsert_domain_permission h p nz s) = net_mitm s"
  by (simp_all add: upsert_domain_permission_def Let_def)

lemma api_pattern:
  "is_global_wildcard_domain_pattern (lit ''api.example.com'') = False"
  "is_global_wildcard_domain_pattern (lit ''**.Example.com'') = False"
  "normalize_host (lit ''api.example.com'') = lit ''api.example.com''"
  "normalize_host (lit ''evil.com'') = lit ''evil.com''"
  "normalize_host (lit ''**.Example.com'') = lit ''**.example.com''"
  by (simp_all add: host_text_eval)

lemma example_literal: "literal_host (lit ''api.example.com'')" "literal_host (lit ''evil.com'')"
  unfolding literal_host_def api_pattern by (simp_all add: lit_def uc_def)

lemma api_denial_updates:
  "\<exists>s'. updated_state example_world DenyList (lit ''api.example.com'') example_state = Inr s'"
proof -
  let ?c = "upsert_domain_permission (lit ''api.example.com'') PermDeny normalize_host example_settings"
  have denied: "set (denied_list ?c) = {lit ''evil.com'', lit ''api.example.com''}"
    unfolding upsert_denied example_denied by (auto simp: api_pattern)
  have allowed: "set (allowed_list ?c) = {lit ''**.Example.com''}"
    unfolding upsert_allowed example_allowed by (auto simp: api_pattern)
  have plain: "\<forall>p \<in> set (denied_list ?c). \<not> is_global_wildcard_domain_pattern p"
    "\<forall>p \<in> set (allowed_list ?c). \<not> is_global_wildcard_domain_pattern p"
    unfolding denied allowed by (simp_all add: evil_pattern api_pattern)
  have sockets: "allow_unix_sockets ?c = []" "\<not> dangerously_allow_all_unix_sockets ?c" "\<not> net_mitm ?c"
    by (simp_all add: allow_unix_sockets_def example_settings_def default_network_settings_def)
  have evil: "to_ascii_lowercase (lit ''Evil.com'') \<in> to_ascii_lowercase ` set (denied_list ?c)"
    unfolding denied by (simp add: to_ascii_lowercase_def to_ascii_lower_def lit_def uc_def)
  have valid: "validate_policy_against_constraints example_lib ?c example_constraints = None"
    using plain(1) evil sockets
    by (simp add: validate_None example_constraints_def no_constraints_def check_denied_None lowers_def
        evil_pattern)
  obtain ds as where "compile_denylist_globset example_lib (denied_list ?c) = Inr ds"
    "compile_allowlist_globset example_lib (allowed_list ?c) = Inr as"
    using compile_example [OF plain(1), of RejectWildcard] compile_example [OF plain(2), of AllowWildcard]
    unfolding compile_denylist_globset_def compile_allowlist_globset_def by blast
  then show ?thesis
    using valid plain(1) sockets
    by (simp add: updated_state_def example_state_def example_world_def build_config_state_def
        validate_unix_socket_allowlist_paths_def validate_non_global_None [THEN iffD2])
qed

theorem added_denial_takes_effect_witness:
  "\<exists>s'. add_denied_domain example_world (lit ''API.example.com'') [(Unchanged, \<lambda>t. t)] example_state =
      Some (None, s')
    \<and> host_decision example_world s' (lit ''api.example.com:443'') 443 = HostBlocked Denied"
proof -
  obtain s' where u: "updated_state example_world DenyList (lit ''api.example.com'') example_state = Inr s'"
    using api_denial_updates by blast
  have h: "host_parse (lit ''API.example.com'') = Some (lit ''api.example.com'')"
    by (simp add: host_parse_def host_text_eval)
  have "\<not> already_listed DenyList (lit ''api.example.com'') (cs_config example_state)"
    by (simp add: already_listed_def example_state_def api_pattern)
  then have run: "add_denied_domain example_world (lit ''API.example.com'') [(Unchanged, \<lambda>t. t)]
      example_state = Some (None, s')"
    using u h by (simp add: add_denied_domain_def update_domain_list_def reload_if_needed_def)
  have "host_decision example_world s' (lit ''api.example.com:443'') 443 = HostBlocked Denied"
  proof (rule added_denial_takes_effect [OF run])
    show "state_ok example_world t" if "reload_if_needed Unchanged example_state = Inr t" for t
      using that example_state_ok by (simp add: reload_if_needed_def)
    show "literal_law (w_lib example_world)" by (simp add: example_world_def example_lib_literal)
    show "host_parse (lit ''API.example.com'') = Some (lit ''api.example.com'')" by (rule h)
    show "host_parse (lit ''api.example.com:443'') = Some (lit ''api.example.com'')"
      by (simp add: host_parse_def host_text_eval)
    show "literal_host (lit ''api.example.com'')" by (rule example_literal)
  qed
  with run show ?thesis by blast
qed

definition undisturbed :: "attempt \<Rightarrow> bool" where
  "undisturbed a \<longleftrightarrow>
     (\<forall>t. cs_config (snd a t) = cs_config t \<and> cs_constraints (snd a t) = cs_constraints t)"

lemma update_attempts_ends:
  "list_ex undisturbed attempts \<Longrightarrow> update_attempts w target host attempts s \<noteq> None"
proof (induction w target host attempts s rule: update_attempts.induct)
  case (2 w target host r others attempts s)
  show ?case
  proof (cases "reload_if_needed r s")
    case (Inr s1)
    show ?thesis
    proof (cases "already_listed target host (cs_config s1)")
      case False
      show ?thesis
      proof (cases "updated_state w target host s1")
        case new: (Inr new)
        show ?thesis
        proof (cases "cs_constraints (others s1) \<noteq> cs_constraints s1 \<or> cs_config (others s1) \<noteq> cs_config s1")
          case True
          then have "\<not> undisturbed (r, others)" by (auto simp: undisturbed_def)
          then have "list_ex undisturbed attempts" using "2.prems" by simp
          then have "update_attempts w target host attempts (others s1) \<noteq> None"
            using "2.IH" [OF Inr False new refl] True by blast
          then show ?thesis using Inr False new True by (simp add: Let_def)
        qed (use Inr False new in \<open>simp add: Let_def\<close>)
      qed (use Inr False in simp)
    qed (use Inr in simp)
  qed simp
qed simp

text \<open>
  an update of the domain lists ends as soon as one of its attempts is not disturbed: with
  nobody changing the configuration or the constraints between the snapshot and the commit of
  that attempt, the update returns, with success or with an error.
\<close>

theorem undisturbed_update_ends:
  assumes "list_ex undisturbed attempts"
  shows "update_domain_list w target raw attempts s \<noteq> None"
  using update_attempts_ends [OF assms] by (simp add: update_domain_list_def split: option.split)

theorem undisturbed_update_ends_witness:
  "update_domain_list example_world AllowList (lit ''a.org'')
     [(Unchanged, \<lambda>t. t\<lparr>cs_constraints := no_constraints\<rparr>), (Unchanged, push_blocked e)] example_state \<noteq> None"
  by (rule undisturbed_update_ends) (simp add: undisturbed_def)

text \<open>
  A request blocked between the snapshot and the commit of an update is forgotten: the committed
  state carries the queue and the count of the snapshot.
\<close>

lemma update_forgets_blocked_request:
  assumes "reload_if_needed r s = Inr s1" "\<not> already_listed target host (cs_config s1)"
    "update_attempts w target host ((r, push_blocked e) # attempts) s = Some (None, s')"
  shows "blocked s' = blocked s1 \<and> blocked_total s' = blocked_total s1"
  using assms by (auto simp: Let_def updated_state_Inr split: sum.splits)

section \<open>The record of blocked requests\<close>

definition telemetry_ok :: "config_state \<Rightarrow> bool" where
  "telemetry_ok s \<longleftrightarrow> length (blocked s) \<le> max_blocked_events
     \<and> length (blocked s) \<le> blocked_total s \<and> blocked_total s \<le> usize_max"

lemma push_blocked_telemetry: "telemetry_ok s \<Longrightarrow> telemetry_ok (push_blocked e s)"
  by (auto simp: telemetry_ok_def push_blocked_def Let_def sat_add_usize_def max_blocked_events_def
      usize_max_def)

text \<open>
  as long as no reload is forced, the proxy keeps at most 200 blocked requests, never more
  than it counted, and the count stays in its 64 bits, in every reachable state.
\<close>

theorem telemetry_is_bounded:
  assumes "proxy_reachable w trusted forced s" "\<not> forced" "\<And>t. trusted t \<Longrightarrow> telemetry_ok t"
  shows "telemetry_ok s"
  using assms
proof (induction rule: proxy_reachable.induct)
  case (recorded s e)
  then show ?case by (blast intro: push_blocked_telemetry)
qed (auto simp: telemetry_ok_def reload_if_needed_def replace_config_state_def drain_blocked_def
    updated_state_Inr)

theorem telemetry_is_bounded_witness:
  "telemetry_ok (push_blocked e (push_blocked e example_state))"
proof (rule telemetry_is_bounded [where trusted = "\<lambda>t. t = example_state" and forced = False
      and w = example_world])
  show "proxy_reachable example_world (\<lambda>t. t = example_state) False
      (push_blocked e (push_blocked e example_state))"
    by (intro proxy_reachable.recorded proxy_reachable.start) simp
  show "telemetry_ok t" if "t = example_state" for t
    using that by (simp add: telemetry_ok_def example_state_def)
qed simp

text \<open>A forced reload takes the count of the new state, which is less than the queue it keeps.\<close>

lemma forced_reload_loses_count:
  "\<exists>s'. force_reload (Inr example_state) (push_blocked e example_state) = (None, s')
     \<and> length (blocked s') = 1 \<and> blocked_total s' = 0"
  by (simp add: force_reload_def push_blocked_def example_state_def max_blocked_events_def)
end
