(* ===== verification/NetworkAccess.thy ===== *)
theory NetworkAccess
  imports NetworkProxy
begin

text \<open>
  Requests through the network proxy: the policy decision with the decider of the host program
  (\<open>network-proxy/src/network_policy.rs\<close>) and the handlers that act on it: CONNECT and plain HTTP
  (\<open>http_proxy.rs\<close>), SOCKS5 streams and datagrams (\<open>socks5.rs\<close>), and the requests inside an
  intercepted tunnel (\<open>mitm.rs\<close>). An audit event has the fields of the code's event but its
  timestamp and the session's metadata, which no decision reads; a missing method or client is
  printed as \<open>none\<close> or \<open>unknown\<close>. \<open>Status\<close> is the number of an HTTP answer; the two I/O errors of the
  SOCKS5 handlers are 400 (invalid input) and 500 (other). The parsing of requests and the forwarding of bytes belong to
  the \<open>rama\<close> packages: a handler takes the parsed parts and ends in a verdict. Each call on
  the shared state asks the reloader; its answers are the function \<open>rs\<close> of the number of the call.
  Between the calls of one request only the reloader changes the state: other tasks are not
  interleaved with it.
\<close>

section \<open>Policy decisions\<close>

datatype proxy_protocol = PlainHttp | HttpsConnect | Socks5Stream | Socks5Datagram

fun as_policy_protocol :: "proxy_protocol \<Rightarrow> ustring" where
  "as_policy_protocol PlainHttp = lit ''http''"
| "as_policy_protocol HttpsConnect = lit ''https_connect''"
| "as_policy_protocol Socks5Stream = lit ''socks5_tcp''"
| "as_policy_protocol Socks5Datagram = lit ''socks5_udp''"

datatype policy_decision = DecideDeny | DecideAsk

fun policy_decision_str :: "policy_decision \<Rightarrow> ustring" where
  "policy_decision_str DecideDeny = lit ''deny''"
| "policy_decision_str DecideAsk = lit ''ask''"

datatype decision_source = BaselinePolicy | ModeGuard | ProxyStateSource | DeciderSource

fun decision_source_str :: "decision_source \<Rightarrow> ustring" where
  "decision_source_str BaselinePolicy = lit ''baseline_policy''"
| "decision_source_str ModeGuard = lit ''mode_guard''"
| "decision_source_str ProxyStateSource = lit ''proxy_state''"
| "decision_source_str DeciderSource = lit ''decider''"

record policy_request =
  pr_protocol :: proxy_protocol
  pr_host :: ustring
  pr_port :: nat
  pr_client :: "ustring option"
  pr_method :: "ustring option"
  pr_command :: "ustring option"
  pr_exec_policy_hint :: "ustring option"

datatype network_decision = AllowNet | DenyNet ustring decision_source policy_decision

definition reason_or_default :: "ustring \<Rightarrow> ustring" where
  "reason_or_default reason = (if reason = [] then lit ''policy_denied'' else reason)"

definition deny_with_source :: "ustring \<Rightarrow> decision_source \<Rightarrow> network_decision" where
  "deny_with_source reason source = DenyNet (reason_or_default reason) source DecideDeny"

definition ask_with_source :: "ustring \<Rightarrow> decision_source \<Rightarrow> network_decision" where
  "ask_with_source reason source = DenyNet (reason_or_default reason) source DecideAsk"

record audit_event =
  ae_scope :: ustring
  ae_decision :: ustring
  ae_source :: ustring
  ae_reason :: ustring
  ae_protocol :: proxy_protocol
  ae_address :: ustring
  ae_port :: nat
  ae_method :: "ustring option"
  ae_client :: "ustring option"
  ae_override :: bool

text \<open>
  \<open>NetworkProxyState\<close> with what it sends out: the blocked requests its observer was told of and
  the audit events.
\<close>

record proxy_state =
  ps_config :: config_state
  ps_observed :: bool
  ps_notified :: "blocked_request list"
  ps_audit :: "audit_event list"

definition emit_audit :: "audit_event \<Rightarrow> proxy_state \<Rightarrow> proxy_state" where
  "emit_audit e px = px\<lparr>ps_audit := ps_audit px @ [e]\<rparr>"

definition non_domain_event ::
  "ustring \<Rightarrow> decision_source \<Rightarrow> ustring \<Rightarrow> proxy_protocol \<Rightarrow> ustring \<Rightarrow> nat \<Rightarrow> ustring option \<Rightarrow>
   ustring option \<Rightarrow> audit_event" where
  "non_domain_event decision source reason protocol address port method client =
     \<lparr>ae_scope = lit ''non_domain'', ae_decision = decision, ae_source = decision_source_str source,
      ae_reason = reason, ae_protocol = protocol, ae_address = address, ae_port = port,
      ae_method = method, ae_client = client, ae_override = False\<rparr>"

definition record_blocked ::
  "reload_result \<Rightarrow> blocked_request \<Rightarrow> proxy_state \<Rightarrow> proxy_error option \<times> proxy_state" where
  "record_blocked r entry px =
     (case reload_if_needed r (ps_config px) of
        Inl e \<Rightarrow> (Some e, px)
      | Inr s \<Rightarrow>
          (None, px\<lparr>ps_config := push_blocked entry s,
                    ps_notified := ps_notified px @ (if ps_observed px then [entry] else [])\<rparr>))"

type_synonym decider = "policy_request \<Rightarrow> network_decision"

fun map_decider_decision :: "network_decision \<Rightarrow> network_decision" where
  "map_decider_decision AllowNet = AllowNet"
| "map_decider_decision (DenyNet reason source decision) = DenyNet reason DeciderSource decision"

text \<open>The decision on a host and whether the decider overrode the allowlist.\<close>

definition policy_decision_for ::
  "decider option \<Rightarrow> policy_request \<Rightarrow> host_block_decision \<Rightarrow> network_decision \<times> bool" where
  "policy_decision_for decider request host =
     (case host of
        HostAllowed \<Rightarrow> (AllowNet, False)
      | HostBlocked NotAllowed \<Rightarrow>
          (case decider of
             Some decide \<Rightarrow>
               (let d = map_decider_decision (decide request) in (d, d = AllowNet))
           | None \<Rightarrow> (deny_with_source (reason_str NotAllowed) BaselinePolicy, False))
      | HostBlocked reason \<Rightarrow> (deny_with_source (reason_str reason) BaselinePolicy, False))"

definition domain_event :: "policy_request \<Rightarrow> network_decision \<Rightarrow> bool \<Rightarrow> audit_event" where
  "domain_event request decision policy_override =
     (let (verdict, source, reason) =
            (case decision of
               AllowNet \<Rightarrow>
                 (lit ''allow'', if policy_override then DeciderSource else BaselinePolicy,
                  if policy_override then reason_str NotAllowed else lit ''allow'')
             | DenyNet reason source d \<Rightarrow> (policy_decision_str d, source, reason))
      in \<lparr>ae_scope = lit ''domain'', ae_decision = verdict, ae_source = decision_source_str source,
          ae_reason = reason, ae_protocol = pr_protocol request, ae_address = pr_host request,
          ae_port = pr_port request, ae_method = pr_method request, ae_client = pr_client request,
          ae_override = policy_override\<rparr>)"

definition evaluate_host_policy ::
  "proxy_world \<Rightarrow> decider option \<Rightarrow> reload_result \<Rightarrow> policy_request \<Rightarrow> proxy_state \<Rightarrow>
   proxy_error + (network_decision \<times> proxy_state)" where
  "evaluate_host_policy w decider r request px =
     (case host_blocked w r (pr_host request) (pr_port request) (ps_config px) of
        Inl e \<Rightarrow> Inl e
      | Inr (host, s) \<Rightarrow>
          (let (decision, policy_override) = policy_decision_for decider request host
           in Inr (decision,
                   emit_audit (domain_event request decision policy_override) (px\<lparr>ps_config := s\<rparr>))))"

section \<open>Verdicts\<close>

datatype verdict =
    Opened network_mode "bool option"
  | Forwarded bool
  | SocketForwarded ustring
  | Relayed
  | Status nat ustring
  | Refused ustring

definition blocked_message :: "ustring \<Rightarrow> ustring" where
  "blocked_message reason =
     (if reason = lit ''not_allowed'' then lit ''Domain not in allowlist.''
      else if reason = lit ''not_allowed_local''
      then lit ''Sandbox policy blocks local/private network addresses.''
      else if reason = lit ''denied'' then lit ''Domain denied by the sandbox policy.''
      else if reason = lit ''method_not_allowed'' then lit ''Method not allowed in limited mode.''
      else if reason = lit ''mitm_required'' then lit ''MITM required for limited HTTPS.''
      else if reason = lit ''proxy_disabled'' then lit ''network proxy is disabled''
      else lit ''Request blocked by network policy.'')"

text \<open>
  A call that reads the configuration: the reload, then the rest of the handler on the state it
  leaves, or the refusal the handler answers an error with.
\<close>

definition reading ::
  "reload_result \<Rightarrow> verdict \<Rightarrow> proxy_state \<Rightarrow> (proxy_state \<Rightarrow> verdict \<times> proxy_state) \<Rightarrow>
   verdict \<times> proxy_state" where
  "reading r on_error px k =
     (case reload_if_needed r (ps_config px) of
        Inl _ \<Rightarrow> (on_error, px)
      | Inr s \<Rightarrow> k (px\<lparr>ps_config := s\<rparr>))"

abbreviation px_settings :: "proxy_state \<Rightarrow> network_settings" where
  "px_settings px \<equiv> cs_config (ps_config px)"

text \<open>A refusal that is recorded; a failure to record it is ignored.\<close>

definition refuse ::
  "reload_result \<Rightarrow> int \<Rightarrow> policy_request \<Rightarrow> ustring \<Rightarrow> ustring \<Rightarrow> network_mode option \<Rightarrow>
   (policy_decision \<times> decision_source) option \<Rightarrow> verdict \<Rightarrow> proxy_state \<Rightarrow> verdict \<times> proxy_state" where
  "refuse r now request protocol reason mode details answer px =
     (let entry = \<lparr>br_host = pr_host request, br_reason = reason, br_client = pr_client request,
                   br_method = pr_method request, br_mode = mode, br_protocol = protocol,
                   br_decision = map_option (policy_decision_str \<circ> fst) details,
                   br_source = map_option (decision_source_str \<circ> snd) details,
                   br_port = Some (pr_port request), br_timestamp = now\<rparr>
      in (answer, snd (record_blocked r entry px)))"

definition proxy_disabled_response ::
  "reload_result \<Rightarrow> int \<Rightarrow> policy_request \<Rightarrow> (ustring \<times> nat) option \<Rightarrow> proxy_state \<Rightarrow>
   verdict \<times> proxy_state" where
  "proxy_disabled_response r now request audit_endpoint px =
     (let (address, port) = (case audit_endpoint of Some e \<Rightarrow> e
                             | None \<Rightarrow> (pr_host request, pr_port request));
          reason = lit ''proxy_disabled''
      in refuse r now request (as_policy_protocol (pr_protocol request)) reason None
           (Some (DecideDeny, ProxyStateSource)) (Status 503 (blocked_message reason))
           (emit_audit (non_domain_event (lit ''deny'') ProxyStateSource reason (pr_protocol request)
              address port (pr_method request) (pr_client request)) px))"

section \<open>CONNECT\<close>

definition http_connect_accept ::
  "proxy_world \<Rightarrow> decider option \<Rightarrow> (nat \<Rightarrow> reload_result) \<Rightarrow> int \<Rightarrow> (ustring \<times> nat) option \<Rightarrow>
   ustring option \<Rightarrow> proxy_state \<Rightarrow> verdict \<times> proxy_state" where
  "http_connect_accept w decider rs now authority client px =
     (case authority of
        None \<Rightarrow> (Status 400 (lit ''missing authority''), px)
      | Some (raw, port) \<Rightarrow>
          (let host = normalize_host raw;
               failed = Status 500 (lit ''error'');
               request = \<lparr>pr_protocol = HttpsConnect, pr_host = host, pr_port = port,
                          pr_client = client, pr_method = Some (lit ''CONNECT''), pr_command = None,
                          pr_exec_policy_hint = None\<rparr>
           in if host = [] then (Status 400 (lit ''invalid host''), px)
              else reading (rs 0) failed px (\<lambda>px.
                if \<not> net_enabled (px_settings px)
                then proxy_disabled_response (rs 1) now request None px
                else case evaluate_host_policy w decider (rs 1) request px of
                  Inl _ \<Rightarrow> (failed, px)
                | Inr (DenyNet reason source d, px) \<Rightarrow>
                    refuse (rs 2) now request (lit ''http-connect'') reason None (Some (d, source))
                      (Refused reason) px
                | Inr (AllowNet, px) \<Rightarrow>
                    reading (rs 2) failed px (\<lambda>px.
                      (let mode = net_mode (px_settings px) in
                       reading (rs 3) failed px (\<lambda>px.
                         (let mitm = mitm_state (ps_config px);
                              reason = lit ''mitm_required''
                          in if mode = Limited \<and> mitm = None
                             then refuse (rs 4) now request (lit ''http-connect'') reason (Some Limited)
                                    (Some (DecideDeny, ModeGuard)) (Refused reason)
                                    (emit_audit (non_domain_event (lit ''deny'') ModeGuard reason
                                       HttpsConnect host port (Some (lit ''CONNECT'')) client) px)
                             else (Opened mode mitm, px))))))))"

section \<open>SOCKS5\<close>

definition socks5_label :: "proxy_protocol \<Rightarrow> ustring" where
  "socks5_label protocol =
     (if protocol = Socks5Datagram then lit ''socks5-udp'' else lit ''socks5'')"

text \<open>\<open>handle_socks5_tcp\<close> and \<open>inspect_socks5_udp\<close>, which differ in the protocol they name.\<close>

definition handle_socks5 ::
  "proxy_world \<Rightarrow> decider option \<Rightarrow> (nat \<Rightarrow> reload_result) \<Rightarrow> int \<Rightarrow> proxy_protocol \<Rightarrow> ustring \<Rightarrow>
   nat \<Rightarrow> ustring option \<Rightarrow> proxy_state \<Rightarrow> verdict \<times> proxy_state" where
  "handle_socks5 w decider rs now protocol raw port client px =
     (let host = normalize_host raw;
          failed = Status 500 (lit ''proxy error'');
          request = \<lparr>pr_protocol = protocol, pr_host = host, pr_port = port, pr_client = client,
                     pr_method = None, pr_command = None, pr_exec_policy_hint = None\<rparr>;
          guard = (\<lambda>r reason source mode px.
            refuse r now request (socks5_label protocol) reason mode (Some (DecideDeny, source))
              (Refused reason)
              (emit_audit (non_domain_event (lit ''deny'') source reason protocol host port None client) px))
      in if host = [] then (Status 400 (lit ''invalid host''), px)
         else reading (rs 0) failed px (\<lambda>px.
           if \<not> net_enabled (px_settings px)
           then guard (rs 1) (lit ''proxy_disabled'') ProxyStateSource None px
           else reading (rs 1) failed px (\<lambda>px.
             if net_mode (px_settings px) = Limited
             then guard (rs 2) (lit ''method_not_allowed'') ModeGuard (Some Limited) px
             else case evaluate_host_policy w decider (rs 2) request px of
               Inl _ \<Rightarrow> (failed, px)
             | Inr (DenyNet reason source d, px) \<Rightarrow>
                 refuse (rs 3) now request (socks5_label protocol) reason None (Some (d, source))
                   (Refused reason) px
             | Inr (AllowNet, px) \<Rightarrow> (Relayed, px))))"

section \<open>Plain HTTP\<close>

datatype host_header = NoHostHeader | BadHostHeader | HostHeader ustring "nat option"

text \<open>
  The parts of a parsed request: its method, the \<open>x-unix-socket\<close> header (\<open>Some None\<close> when it is not
  text), the target (host, written port, effective port, whether that is the default port) and the
  \<open>Host\<close> header.
\<close>

record http_request =
  rq_method :: ustring
  rq_client :: "ustring option"
  rq_unix_socket :: "ustring option option"
  rq_target :: "(ustring \<times> nat option \<times> nat \<times> bool) option"
  rq_absolute :: bool
  rq_host_header :: host_header

definition validate_absolute_form_host_header ::
  "http_request \<Rightarrow> ustring \<times> nat option \<times> nat \<times> bool \<Rightarrow> ustring option" where
  "validate_absolute_form_host_header req target =
     (let mismatch = Some (lit ''Host header does not match request target'')
      in case target of
        (host, port, _, default_port) \<Rightarrow>
          if \<not> rq_absolute req then None
          else case rq_host_header req of
                 BadHostHeader \<Rightarrow> Some (lit ''invalid Host header'')
               | NoHostHeader \<Rightarrow> None
               | HostHeader h p \<Rightarrow>
                   if h \<noteq> host then mismatch
                   else case p of
                          Some n \<Rightarrow> if Some n \<noteq> port then mismatch else None
                        | None \<Rightarrow> if \<not> default_port then mismatch else None)"

text \<open>The branch for requests to a unix socket; \<open>allowed\<close> is the answer on the method.\<close>

definition unix_socket_branch ::
  "proxy_world \<Rightarrow> (nat \<Rightarrow> reload_result) \<Rightarrow> int \<Rightarrow> http_request \<Rightarrow> bool \<Rightarrow> ustring \<Rightarrow> proxy_state \<Rightarrow>
   verdict \<times> proxy_state" where
  "unix_socket_branch w rs now req allowed path px =
     (let failed = Status 500 (lit ''error'');
          event = (\<lambda>decision source reason. non_domain_event decision source reason PlainHttp
                     (lit ''unix-socket'') 0 (Some (rq_method req)) (rq_client req));
          request = \<lparr>pr_protocol = PlainHttp, pr_host = path, pr_port = 0, pr_client = rq_client req,
                     pr_method = Some (rq_method req), pr_command = None, pr_exec_policy_hint = None\<rparr>
      in reading (rs 1) failed px (\<lambda>px.
           if \<not> net_enabled (px_settings px)
           then proxy_disabled_response (rs 2) now request (Some (lit ''unix-socket'', 0)) px
           else if \<not> allowed
           then (Refused (lit ''method_not_allowed''),
                 emit_audit (event (lit ''deny'') ModeGuard (lit ''method_not_allowed'')) px)
           else if \<not> w_unix_supported w
           then (Status 501 (lit ''unix sockets unsupported''),
                 emit_audit (event (lit ''deny'') ProxyStateSource (lit ''unix_socket_unsupported'')) px)
           else case is_unix_socket_allowed w (rs 2) path (ps_config px) of
                  Inl _ \<Rightarrow> (failed, px)
                | Inr (True, s) \<Rightarrow>
                    (SocketForwarded path,
                     emit_audit (event (lit ''allow'') ProxyStateSource (lit ''allow'')) (px\<lparr>ps_config := s\<rparr>))
                | Inr (False, s) \<Rightarrow>
                    (Refused (lit ''not_allowed''),
                     emit_audit (event (lit ''deny'') ProxyStateSource (lit ''not_allowed''))
                       (px\<lparr>ps_config := s\<rparr>))))"

text \<open>The branch for requests to a host.\<close>

definition target_branch ::
  "proxy_world \<Rightarrow> decider option \<Rightarrow> (nat \<Rightarrow> reload_result) \<Rightarrow> int \<Rightarrow> http_request \<Rightarrow> bool \<Rightarrow>
   proxy_state \<Rightarrow> verdict \<times> proxy_state" where
  "target_branch w decider rs now req allowed px =
     (case rq_target req of
        None \<Rightarrow> (Status 400 (lit ''missing host''), px)
      | Some target \<Rightarrow>
          (let failed = Status 500 (lit ''error'');
               host = normalize_host (fst target);
               port = fst (snd (snd target));
               request = \<lparr>pr_protocol = PlainHttp, pr_host = host, pr_port = port,
                          pr_client = rq_client req, pr_method = Some (rq_method req),
                          pr_command = None, pr_exec_policy_hint = None\<rparr>
           in case validate_absolute_form_host_header req target of
                Some reason \<Rightarrow> (Status 400 reason, px)
              | None \<Rightarrow>
                  reading (rs 1) failed px (\<lambda>px.
                    if \<not> net_enabled (px_settings px)
                    then proxy_disabled_response (rs 2) now request None px
                    else case evaluate_host_policy w decider (rs 2) request px of
                      Inl _ \<Rightarrow> (failed, px)
                    | Inr (DenyNet reason source d, px) \<Rightarrow>
                        refuse (rs 3) now request (lit ''http'') reason None (Some (d, source))
                          (Refused reason) px
                    | Inr (AllowNet, px) \<Rightarrow>
                        if \<not> allowed
                        then refuse (rs 3) now request (lit ''http'') (lit ''method_not_allowed'')
                               (Some Limited) (Some (DecideDeny, ModeGuard))
                               (Refused (lit ''method_not_allowed''))
                               (emit_audit (non_domain_event (lit ''deny'') ModeGuard
                                  (lit ''method_not_allowed'') PlainHttp host port
                                  (Some (rq_method req)) (rq_client req)) px)
                        else reading (rs 3) failed px (\<lambda>px.
                          (Forwarded (allow_upstream_proxy (px_settings px)), px)))))"

definition http_plain_proxy ::
  "proxy_world \<Rightarrow> decider option \<Rightarrow> (nat \<Rightarrow> reload_result) \<Rightarrow> int \<Rightarrow> http_request \<Rightarrow> proxy_state \<Rightarrow>
   verdict \<times> proxy_state" where
  "http_plain_proxy w decider rs now req px =
     reading (rs 0) (Status 500 (lit ''error'')) px (\<lambda>px.
       (let allowed = allows_method (net_mode (px_settings px)) (rq_method req)
        in case rq_unix_socket req of
             Some None \<Rightarrow> (Status 400 (lit ''invalid x-unix-socket header''), px)
           | Some (Some path) \<Rightarrow> unix_socket_branch w rs now req allowed path px
           | None \<Rightarrow> target_branch w decider rs now req allowed px))"

section \<open>Inside an intercepted tunnel\<close>

text \<open>
  \<open>mitm_blocking_response\<close>: the inner request is checked against the target and the mode of its
  tunnel; \<open>None\<close> lets it pass.
\<close>

definition mitm_blocking_response ::
  "proxy_world \<Rightarrow> (nat \<Rightarrow> reload_result) \<Rightarrow> int \<Rightarrow> ustring \<Rightarrow> nat \<Rightarrow> network_mode \<Rightarrow> ustring \<Rightarrow>
   ustring option \<Rightarrow> ustring option \<Rightarrow> proxy_state \<Rightarrow> proxy_error + (verdict option \<times> proxy_state)" where
  "mitm_blocking_response w rs now target_host target_port mode method request_host client px =
     (let request = \<lparr>pr_protocol = PlainHttp, pr_host = target_host, pr_port = target_port,
                     pr_client = client, pr_method = Some method, pr_command = None,
                     pr_exec_policy_hint = None\<rparr>;
          block = (\<lambda>reason px.
            (case refuse (rs 1) now request (lit ''https'') reason (Some mode) None (Refused reason) px of
               (v, px) \<Rightarrow> Inr (Some v, px)))
      in if method = lit ''CONNECT''
         then Inr (Some (Status 405 (lit ''CONNECT not supported inside MITM'')), px)
         else if (case request_host of
                    Some h \<Rightarrow> normalize_host h \<noteq> [] \<and> normalize_host h \<noteq> target_host
                  | None \<Rightarrow> False)
         then Inr (Some (Status 400 (lit ''host mismatch'')), px)
         else case host_blocked w (rs 0) target_host target_port (ps_config px) of
                Inl e \<Rightarrow> Inl e
              | Inr (d, s) \<Rightarrow>
                  (let px = px\<lparr>ps_config := s\<rparr>
                   in if d = HostBlocked NotAllowedLocal then block (reason_str NotAllowedLocal) px
                      else if \<not> allows_method mode method then block (lit ''method_not_allowed'') px
                      else Inr (None, px)))"

section \<open>What a decision to allow means\<close>

text \<open>The hosts a request may go to in a state: allowed ones, and misses the decider lets pass.\<close>

definition host_passes :: "proxy_world \<Rightarrow> decider option \<Rightarrow> policy_request \<Rightarrow> config_state \<Rightarrow> bool" where
  "host_passes w decider request s \<longleftrightarrow>
     (let d = host_decision w s (pr_host request) (pr_port request)
      in d = HostAllowed
         \<or> (d = HostBlocked NotAllowed \<and> (\<exists>decide. decider = Some decide \<and> decide request = AllowNet)))"

lemma map_decider_AllowNet: "map_decider_decision d = AllowNet \<longleftrightarrow> d = AllowNet"
  by (cases d) auto

lemma policy_decision_AllowNet:
  "fst (policy_decision_for decider request h) = AllowNet \<longleftrightarrow>
     h = HostAllowed
     \<or> (h = HostBlocked NotAllowed \<and> (\<exists>decide. decider = Some decide \<and> decide request = AllowNet))"
  by (auto simp: policy_decision_for_def deny_with_source_def map_decider_AllowNet Let_def
      split: host_block_decision.splits host_block_reason.splits option.splits)

lemma evaluate_Inr:
  assumes "evaluate_host_policy w decider r request px = Inr (d, px')"
  obtains s where "reload_if_needed r (ps_config px) = Inr s" "ps_config px' = s"
    "d = fst (policy_decision_for decider request (host_decision w s (pr_host request) (pr_port request)))"
  using assms
  by (auto simp: evaluate_host_policy_def host_blocked_def emit_audit_def case_prod_beta Let_def
      split: sum.splits)

lemma evaluate_allow:
  assumes "evaluate_host_policy w decider r request px = Inr (AllowNet, px')"
  obtains s where "reload_if_needed r (ps_config px) = Inr s" "ps_config px' = s"
    "host_passes w decider request s"
proof -
  obtain s where s: "reload_if_needed r (ps_config px) = Inr s" "ps_config px' = s"
    "AllowNet = fst (policy_decision_for decider request
       (host_decision w s (pr_host request) (pr_port request)))"
    using evaluate_Inr [OF assms] by metis
  moreover have "host_passes w decider request s"
    using s(3) policy_decision_AllowNet [THEN iffD1, OF s(3) [symmetric]]
    by (simp add: host_passes_def Let_def)
  ultimately show thesis using that by blast
qed

text \<open>
  C21: the decider of the host program overrides the allowlist and nothing else. A request is
  allowed exactly when the proxy allows the host, or when the host is merely missing from the
  allowlist and the decider allows it; a denied host and a local address are refused by the
  baseline policy without the decider being able to change it.
\<close>

theorem decider_overrides_only_misses:
  assumes "evaluate_host_policy w decider r request px = Inr (d, px')"
  shows "\<exists>s. reload_if_needed r (ps_config px) = Inr s \<and> ps_config px' = s
    \<and> (d = AllowNet \<longleftrightarrow> host_passes w decider request s)
    \<and> (\<forall>reason. host_decision w s (pr_host request) (pr_port request) = HostBlocked reason
         \<and> reason \<noteq> NotAllowed \<longrightarrow> d = DenyNet (reason_str reason) BaselinePolicy DecideDeny)"
proof -
  obtain s where s: "reload_if_needed r (ps_config px) = Inr s" "ps_config px' = s"
    "d = fst (policy_decision_for decider request
       (host_decision w s (pr_host request) (pr_port request)))"
    using evaluate_Inr [OF assms] by metis
  have "d = DenyNet (reason_str reason) BaselinePolicy DecideDeny"
    if "host_decision w s (pr_host request) (pr_port request) = HostBlocked reason"
      "reason \<noteq> NotAllowed" for reason
    using s(3) that
    by (cases reason) (simp_all add: policy_decision_for_def deny_with_source_def reason_or_default_def)
  moreover have "d = AllowNet \<longleftrightarrow> host_passes w decider request s"
    unfolding s(3) policy_decision_AllowNet host_passes_def Let_def by simp
  ultimately show ?thesis using s(1,2) by blast
qed

section \<open>Handlers\<close>

fun reaches_network :: "verdict \<Rightarrow> bool" where
  "reaches_network (Opened mode mitm) = True"
| "reaches_network (Forwarded upstream) = True"
| "reaches_network Relayed = True"
| "reaches_network _ = False"

lemma reading_passes:
  assumes "reading r u px k = (v, px')" "reaches_network v" "\<not> reaches_network u"
  obtains s where "reload_if_needed r (ps_config px) = Inr s" "k (px\<lparr>ps_config := s\<rparr>) = (v, px')"
  using assms by (auto simp: reading_def split: sum.splits)

lemma refuse_passes:
  "refuse r now request protocol reason mode details answer px = (v, px') \<Longrightarrow> v = answer"
  by (auto simp: refuse_def Let_def)

lemma disabled_passes:
  "proxy_disabled_response r now request endpoint px = (v, px') \<Longrightarrow> \<not> reaches_network v"
  by (auto simp: proxy_disabled_response_def Let_def case_prod_beta dest: refuse_passes)

text \<open>A decision of the policy and what follows it: only an allowance goes on.\<close>

lemma decision_passes:
  assumes "(case evaluate_host_policy w decider r request px of
      Inl _ \<Rightarrow> (failed, px)
    | Inr (DenyNet reason source d, px) \<Rightarrow>
        refuse r' now request protocol reason mode (Some (d, source)) (Refused reason) px
    | Inr (AllowNet, px) \<Rightarrow> k px) = (v, px')"
    and "reaches_network v" "\<not> reaches_network failed"
  obtains s px1 where "reload_if_needed r (ps_config px) = Inr s" "ps_config px1 = s"
    "host_passes w decider request s" "k px1 = (v, px')"
proof (cases "evaluate_host_policy w decider r request px")
  case (Inl e)
  then show thesis using assms by simp
next
  case (Inr res)
  obtain d px1 where res: "res = (d, px1)" by (cases res)
  show thesis
  proof (cases d)
    case AllowNet
    then have "evaluate_host_policy w decider r request px = Inr (AllowNet, px1)"
      using Inr res by simp
    from evaluate_allow [OF this] obtain s where
      "reload_if_needed r (ps_config px) = Inr s" "ps_config px1 = s" "host_passes w decider request s" .
    moreover have "k px1 = (v, px')" using assms(1) Inr res AllowNet by simp
    ultimately show thesis using that by blast
  next
    case (DenyNet reason source x)
    then show thesis using assms Inr res by (auto dest: refuse_passes)
  qed
qed

lemma guard_passes:
  "(if b then x else y) = z \<Longrightarrow> (x = z \<Longrightarrow> False) \<Longrightarrow> (\<not> b \<Longrightarrow> y = z \<Longrightarrow> R) \<Longrightarrow> R"
  by (auto split: if_splits)

lemmas handler_passes = reading_passes decision_passes guard_passes

lemma connect_opened:
  assumes "http_connect_accept w decider rs now authority client px = (v, px')" "reaches_network v"
  obtains raw port request s0 s1 s2 s3 where
    "authority = Some (raw, port)" "pr_host request = normalize_host raw" "pr_port request = port"
    "reload_if_needed (rs 0) (ps_config px) = Inr s0" "net_enabled (cs_config s0)"
    "reload_if_needed (rs 1) s0 = Inr s1" "host_passes w decider request s1"
    "reload_if_needed (rs 2) s1 = Inr s2" "reload_if_needed (rs 3) s2 = Inr s3"
    "v = Opened (net_mode (cs_config s2)) (mitm_state s3)"
    "net_mode (cs_config s2) = Limited \<longrightarrow> mitm_state s3 \<noteq> None"
proof (cases authority)
  case None
  then show thesis using assms by (auto simp: http_connect_accept_def)
next
  case (Some a)
  obtain raw port where a: "a = (raw, port)" by (cases a)
  let ?request = "\<lparr>pr_protocol = HttpsConnect, pr_host = normalize_host raw, pr_port = port,
    pr_client = client, pr_method = Some (lit ''CONNECT''), pr_command = None, pr_exec_policy_hint = None\<rparr>"
  have ne: "normalize_host raw \<noteq> []"
    using assms by (auto simp: http_connect_accept_def Some a Let_def)
  note run = assms(1) [unfolded http_connect_accept_def Some a Let_def option.case prod.case
      if_not_P [OF ne]]
  from run assms(2) show thesis
    by (elim handler_passes)
      (auto dest: disabled_passes refuse_passes intro: that [OF Some [unfolded a], where request = ?request])
qed

lemma socks5_relayed:
  assumes "handle_socks5 w decider rs now protocol raw port client px = (v, px')" "reaches_network v"
  obtains request s0 s1 s2 where
    "pr_host request = normalize_host raw" "pr_port request = port"
    "reload_if_needed (rs 0) (ps_config px) = Inr s0" "net_enabled (cs_config s0)"
    "reload_if_needed (rs 1) s0 = Inr s1" "net_mode (cs_config s1) = Full"
    "reload_if_needed (rs 2) s1 = Inr s2" "host_passes w decider request s2"
proof -
  have ne: "normalize_host raw \<noteq> []"
    using assms by (auto simp: handle_socks5_def Let_def)
  have full: "m \<noteq> Limited \<Longrightarrow> m = Full" for m by (cases m) auto
  note run = assms(1) [unfolded handle_socks5_def Let_def if_not_P [OF ne]]
  from run assms(2) show thesis
    by (elim handler_passes)
      (auto dest: disabled_passes refuse_passes intro!: that dest!: full)
qed

lemma target_forwarded:
  assumes "target_branch w decider rs now req allowed px = (v, px')" "reaches_network v"
  obtains raw port written default_port request s1 s2 where
    "rq_target req = Some (raw, written, port, default_port)"
    "pr_host request = normalize_host raw" "pr_port request = port" "allowed"
    "reload_if_needed (rs 1) (ps_config px) = Inr s1" "net_enabled (cs_config s1)"
    "reload_if_needed (rs 2) s1 = Inr s2" "host_passes w decider request s2"
proof -
  obtain raw written port default_port where
    target: "rq_target req = Some (raw, written, port, default_port)"
    using assms by (auto simp: target_branch_def split: option.splits)
  have valid: "validate_absolute_form_host_header req (raw, written, port, default_port) = None"
    using assms target by (auto simp: target_branch_def Let_def split: option.splits)
  note run = assms(1) [unfolded target_branch_def Let_def target option.case fst_conv snd_conv valid]
  from run assms(2) show thesis
    by (elim handler_passes)
      (auto dest: disabled_passes refuse_passes intro!: that [OF target])
qed

text \<open>A request goes to a unix socket only past the checks of the flag and of the method.\<close>

lemma unix_socket_forwarded:
  assumes "unix_socket_branch w rs now req allowed path px = (SocketForwarded p, px')"
  shows "allowed \<and> p = path
    \<and> (\<exists>s. reload_if_needed (rs 1) (ps_config px) = Inr s \<and> net_enabled (cs_config s))"
  using assms
  by (auto simp: unix_socket_branch_def reading_def proxy_disabled_response_def Let_def refuse_def
      case_prod_beta split: sum.splits bool.splits if_splits)

lemma unix_socket_refused: "\<not> reaches_network (fst (unix_socket_branch w rs now req allowed path px))"
  by (auto simp: unix_socket_branch_def reading_def proxy_disabled_response_def Let_def refuse_def
      case_prod_beta split: sum.splits bool.splits)

lemma plain_forwarded:
  assumes "http_plain_proxy w decider rs now req px = (v, px')" "reaches_network v"
  obtains raw port written default_port request s0 s1 s2 where
    "rq_target req = Some (raw, written, port, default_port)"
    "pr_host request = normalize_host raw" "pr_port request = port"
    "reload_if_needed (rs 0) (ps_config px) = Inr s0"
    "allows_method (net_mode (cs_config s0)) (rq_method req)"
    "reload_if_needed (rs 1) s0 = Inr s1" "net_enabled (cs_config s1)"
    "reload_if_needed (rs 2) s1 = Inr s2" "host_passes w decider request s2"
proof -
  obtain s0 where s0: "reload_if_needed (rs 0) (ps_config px) = Inr s0"
    and run: "(case rq_unix_socket req of
        Some None \<Rightarrow> (Status 400 (lit ''invalid x-unix-socket header''), px\<lparr>ps_config := s0\<rparr>)
      | Some (Some path) \<Rightarrow> unix_socket_branch w rs now req
          (allows_method (net_mode (px_settings (px\<lparr>ps_config := s0\<rparr>))) (rq_method req)) path
          (px\<lparr>ps_config := s0\<rparr>)
      | None \<Rightarrow> target_branch w decider rs now req
          (allows_method (net_mode (px_settings (px\<lparr>ps_config := s0\<rparr>))) (rq_method req))
          (px\<lparr>ps_config := s0\<rparr>)) = (v, px')"
    by (rule reading_passes [OF assms(1) [unfolded http_plain_proxy_def Let_def] assms(2)]) simp_all
  then have "target_branch w decider rs now req
      (allows_method (net_mode (cs_config s0)) (rq_method req)) (px\<lparr>ps_config := s0\<rparr>) = (v, px')"
    using assms(2) unix_socket_refused by (auto split: option.splits) (metis fst_conv)
  then show thesis
    using assms(2) by (rule target_forwarded) (auto intro: that s0)
qed

lemma target_not_socket:
  "target_branch w decider rs now req allowed px \<noteq> (SocketForwarded p, px')"
  by (auto simp: target_branch_def reading_def proxy_disabled_response_def Let_def refuse_def
      case_prod_beta split: option.splits sum.splits network_decision.splits if_splits)

lemma plain_socket:
  assumes "http_plain_proxy w decider rs now req px = (SocketForwarded p, px')"
  obtains s s' where "reload_if_needed (rs 0) (ps_config px) = Inr s"
    "allows_method (net_mode (cs_config s)) (rq_method req)"
    "reload_if_needed (rs 1) s = Inr s'" "net_enabled (cs_config s')"
proof -
  obtain s where s: "reload_if_needed (rs 0) (ps_config px) = Inr s"
    using assms by (auto simp: http_plain_proxy_def reading_def split: sum.splits)
  note run = assms [unfolded http_plain_proxy_def reading_def s sum.case Let_def]
  then obtain path where "unix_socket_branch w rs now req
      (allows_method (net_mode (cs_config s)) (rq_method req)) path (px\<lparr>ps_config := s\<rparr>) =
      (SocketForwarded p, px')"
    by (auto simp: target_not_socket split: option.splits)
  from unix_socket_forwarded [OF this] obtain s' where
    "allows_method (net_mode (cs_config s)) (rq_method req)"
    "reload_if_needed (rs 1) s = Inr s'" "net_enabled (cs_config s')"
    by auto
  with s show thesis by (rule that)
qed

text \<open>
  C22: limited mode only reads, and a disabled proxy starts nothing. A tunnel is opened, in
  either mode, only when the handler found the proxy enabled, and in limited mode it is an
  intercepted one. A plain request is forwarded, to a host or to a unix socket, only when the
  proxy was enabled and the mode allows its method: in limited mode GET, HEAD and OPTIONS. A SOCKS5
  connection is relayed only when the proxy was enabled and in full mode. A request inside an
  intercepted tunnel passes only with a method that the mode of its tunnel allows; whether the
  proxy has been disabled since the tunnel was opened is not asked there.
\<close>

theorem limited_mode_only_reads:
  "(fst (http_connect_accept w decider rs now authority client px) = Opened opened mitm \<longrightarrow>
      (opened = Full \<or> mitm \<noteq> None)
      \<and> (\<exists>s. reload_if_needed (rs 0) (ps_config px) = Inr s \<and> net_enabled (cs_config s)))
   \<and> (mitm_blocking_response w rs now host port mode method request_host client px = Inr (None, px') \<longrightarrow>
      mode = Full \<or> method \<in> lit ` {''GET'', ''HEAD'', ''OPTIONS''})
   \<and> (fst (http_plain_proxy w decider rs now req px) \<in> {Forwarded up, SocketForwarded path} \<longrightarrow>
      (\<exists>s s'. reload_if_needed (rs 0) (ps_config px) = Inr s
         \<and> (net_mode (cs_config s) = Full \<or> rq_method req \<in> lit ` {''GET'', ''HEAD'', ''OPTIONS''})
         \<and> reload_if_needed (rs 1) s = Inr s' \<and> net_enabled (cs_config s')))
   \<and> (fst (handle_socks5 w decider rs now protocol raw port client px) = Relayed \<longrightarrow>
      (\<exists>s s'. reload_if_needed (rs 0) (ps_config px) = Inr s \<and> net_enabled (cs_config s)
         \<and> reload_if_needed (rs 1) s = Inr s' \<and> net_mode (cs_config s') = Full))"
  (is "(?C \<longrightarrow> _) \<and> (?M \<longrightarrow> _) \<and> (?P \<longrightarrow> _) \<and> (?S \<longrightarrow> _)")
proof (intro conjI impI)
  have full: "m = Full \<or> m = Limited" for m by (cases m) auto
  assume ?C
  then show "opened = Full \<or> mitm \<noteq> None"
    "\<exists>s. reload_if_needed (rs 0) (ps_config px) = Inr s \<and> net_enabled (cs_config s)"
    using full [of opened]
    by (cases "http_connect_accept w decider rs now authority client px"; auto elim!: connect_opened)+
next
  assume ?M
  then have "allows_method mode method"
    by (auto simp: mitm_blocking_response_def Let_def case_prod_beta split: if_splits sum.splits)
  then show "mode = Full \<or> method \<in> lit ` {''GET'', ''HEAD'', ''OPTIONS''}" by (cases mode) simp_all
next
  assume ?P
  then obtain v px1 where run: "http_plain_proxy w decider rs now req px = (v, px1)"
    and v: "v = Forwarded up \<or> v = SocketForwarded path"
    by (cases "http_plain_proxy w decider rs now req px") auto
  obtain s s' where s: "reload_if_needed (rs 0) (ps_config px) = Inr s"
    "allows_method (net_mode (cs_config s)) (rq_method req)"
    "reload_if_needed (rs 1) s = Inr s'" "net_enabled (cs_config s')"
    using v
  proof
    assume "v = Forwarded up"
    with run show thesis by (auto elim: plain_forwarded intro: that)
  next
    assume "v = SocketForwarded path"
    with run have "http_plain_proxy w decider rs now req px = (SocketForwarded path, px1)" by simp
    then show thesis by (rule plain_socket) (rule that)
  qed
  have "net_mode (cs_config s) = Full \<or> rq_method req \<in> lit ` {''GET'', ''HEAD'', ''OPTIONS''}"
    using s(2) by (cases "net_mode (cs_config s)") simp_all
  with s show "\<exists>s s'. reload_if_needed (rs 0) (ps_config px) = Inr s
         \<and> (net_mode (cs_config s) = Full \<or> rq_method req \<in> lit ` {''GET'', ''HEAD'', ''OPTIONS''})
         \<and> reload_if_needed (rs 1) s = Inr s' \<and> net_enabled (cs_config s')"
    by blast
next
  assume ?S
  then show "\<exists>s s'. reload_if_needed (rs 0) (ps_config px) = Inr s \<and> net_enabled (cs_config s)
         \<and> reload_if_needed (rs 1) s = Inr s' \<and> net_mode (cs_config s') = Full"
    by (cases "handle_socks5 w decider rs now protocol raw port client px") (auto elim!: socks5_relayed)
qed

definition example_proxy :: proxy_state where
  "example_proxy = \<lparr>ps_config = example_state, ps_observed = True, ps_notified = [], ps_audit = []\<rparr>"

text \<open>In an example proxy in full mode a plain POST to an allowed host goes through.\<close>

definition example_post :: http_request where
  "example_post = \<lparr>rq_method = lit ''POST'', rq_client = None, rq_unix_socket = None,
     rq_target = Some (lit ''api.example.com'', Some 80, 80, True), rq_absolute = True,
     rq_host_header = HostHeader (lit ''api.example.com'') None\<rparr>"

lemma example_config: "cs_config example_state = example_settings"
  by (simp add: example_state_def)

lemma example_post_forwarded:
  "fst (http_plain_proxy example_world None (\<lambda>i. Unchanged) 0 example_post example_proxy) = Forwarded True"
proof -
  have n: "normalize_host (lit ''api.example.com'') = lit ''api.example.com''"
    by (rule api_pattern)
  then have p: "host_parse (lit ''api.example.com'') = Some (lit ''api.example.com'')"
    by (simp add: host_parse_def)
  have settings: "net_enabled example_settings" "net_mode example_settings = Full"
    "allow_upstream_proxy example_settings"
    by (simp_all add: example_settings_def default_network_settings_def)
  have target: "fst (target_branch example_world None (\<lambda>i. Unchanged) 0 example_post True example_proxy) =
      Forwarded True"
    using settings example_allowed_host [OF p]
    by (simp add: target_branch_def example_post_def validate_absolute_form_host_header_def
        reading_def reload_if_needed_def example_proxy_def evaluate_host_policy_def host_blocked_def
        policy_decision_for_def n emit_audit_def Let_def example_config)
  have "example_proxy\<lparr>ps_config := ps_config example_proxy\<rparr> = example_proxy" by simp
  moreover have "net_mode (px_settings example_proxy) = Full"
    using settings by (simp add: example_proxy_def example_state_def)
  moreover have "rq_unix_socket example_post = None" by (simp add: example_post_def)
  ultimately show ?thesis
    using target by (simp add: http_plain_proxy_def reading_def reload_if_needed_def)
qed

theorem limited_mode_only_reads_witness:
  "fst (http_plain_proxy example_world None (\<lambda>i. Unchanged) 0 example_post example_proxy) = Forwarded True
   \<and> net_mode example_settings = Full \<and> net_enabled example_settings"
proof -
  have post: "rq_method example_post \<notin> lit ` {''GET'', ''HEAD'', ''OPTIONS''}"
    by (simp add: example_post_def lit_def uc_def)
  from example_post_forwarded post
    limited_mode_only_reads [where w = example_world and decider = None and rs = "\<lambda>i. Unchanged"
      and now = 0 and req = example_post and px = example_proxy and up = True]
  show ?thesis by (auto simp: reload_if_needed_def example_proxy_def example_config)
qed

section \<open>Managed denials end to end\<close>

lemma reload_trusted:
  assumes "proxy_reachable w trusted forced s" "\<forall>i new. rs i = Fresh new \<longrightarrow> trusted new"
    and "reload_if_needed (rs i) s = Inr s'"
  shows "proxy_reachable w trusted forced s'"
  using assms by (blast intro: reload_reachable)

text \<open>
  C18: no request reaches a host that the managed constraints deny. When every state the loader
  gives fits its configuration, meets its constraints and has the pattern \<open>d\<close> among the managed
  denials, then in every reachable state of the proxy and with any decider, CONNECT opens no
  tunnel to a host that a glob of \<open>d\<close> matches, plain HTTP forwards nothing to it and SOCKS5 relays
  nothing to it. The globs are those \<open>d\<close> is compiled to; what they match is the glob matcher's.
\<close>

theorem denied_host_is_never_reached:
  assumes reach: "proxy_reachable w trusted forced (ps_config px)"
    and fresh: "\<And>i new. rs i = Fresh new \<Longrightarrow> trusted new"
    and ok: "\<And>t. trusted t \<Longrightarrow> state_ok w t"
    and managed: "\<And>t. trusted t \<Longrightarrow>
      \<exists>managed. c_denied_domains (cs_constraints t) = Some managed \<and> d \<in> set managed"
    and host: "host_parse (normalize_host raw) = Some host" "is_match (w_lib w) (pattern_globs d) host"
  shows "\<not> reaches_network (fst (http_connect_accept w decider rs now (Some (raw, port)) client px))
    \<and> \<not> reaches_network (fst (handle_socks5 w decider rs now protocol raw port client px))
    \<and> (fst (the (rq_target req)) = raw \<longrightarrow>
        \<not> reaches_network (fst (http_plain_proxy w decider rs now req px)))"
proof -
  have denied: "\<not> host_passes w decider request s"
    if "proxy_reachable w trusted forced s" "pr_host request = normalize_host raw" for s request
    using managed_denials_hold [OF that(1) ok managed host, where port = "pr_port request"] that(2)
    by (simp add: host_passes_def)
  have "\<forall>i new. rs i = Fresh new \<longrightarrow> trusted new" using fresh by blast
  note step = reload_trusted [OF _ this]
  have denied2: "\<not> host_passes w decider request s1"
    if "reload_if_needed (rs i) (ps_config px) = Inr s0" "reload_if_needed (rs j) s0 = Inr s1"
      "pr_host request = normalize_host raw" for i j s0 s1 request
    using denied step [OF reach that(1)] step that(2,3) by blast
  have denied3: "\<not> host_passes w decider request s2"
    if "reload_if_needed (rs i) (ps_config px) = Inr s0" "reload_if_needed (rs j) s0 = Inr s1"
      "reload_if_needed (rs k) s1 = Inr s2" "pr_host request = normalize_host raw"
    for i j k s0 s1 s2 request
    using denied step [OF reach that(1)] step that(2-4) by blast
  show ?thesis
  proof (intro conjI impI notI)
    assume "reaches_network (fst (http_connect_accept w decider rs now (Some (raw, port)) client px))"
    then show False
      by (cases "http_connect_accept w decider rs now (Some (raw, port)) client px")
        (auto elim!: connect_opened dest: denied2)
  next
    assume "reaches_network (fst (handle_socks5 w decider rs now protocol raw port client px))"
    then show False
      by (cases "handle_socks5 w decider rs now protocol raw port client px")
        (auto elim!: socks5_relayed dest: denied3)
  next
    assume "fst (the (rq_target req)) = raw"
      "reaches_network (fst (http_plain_proxy w decider rs now req px))"
    then show False
      by (cases "http_plain_proxy w decider rs now req px")
        (auto elim!: plain_forwarded dest: denied3)
  qed
qed

theorem denied_host_is_never_reached_witness:
  "\<not> reaches_network (fst (http_connect_accept example_world (Some (\<lambda>r. AllowNet)) (\<lambda>i. Unchanged) 0
      (Some (lit ''EVIL.com.:443'', 443)) None example_proxy))"
proof -
  let ?P = "proxy_reachable example_world (\<lambda>t. t = example_state) True (ps_config example_proxy)"
  have reach: ?P by (rule proxy_reachable.start) (simp add: example_proxy_def)
  have host: "host_parse (normalize_host (lit ''EVIL.com.:443'')) = Some (lit ''evil.com'')"
    by (simp add: host_parse_def host_text_eval)
  have covers: "is_match (w_lib example_world) (pattern_globs (lit ''Evil.com'')) (lit ''evil.com'')"
    unfolding evil_globs by (simp add: is_match_def example_world_def example_lib_def glob_like_evil)
  have ok: "state_ok example_world t" if "t = example_state" for t
    using that example_state_ok by simp
  have managed: "\<exists>managed. c_denied_domains (cs_constraints t) = Some managed \<and> lit ''Evil.com'' \<in> set managed"
    if "t = example_state" for t
    using that by (simp add: example_state_def example_constraints_def)
  show ?thesis
    using denied_host_is_never_reached [where rs = "\<lambda>i. Unchanged", OF reach _ ok managed host covers,
        where decider = "Some (\<lambda>r. AllowNet)" and now = 0 and port = 443 and client = None]
    by blast
qed

text \<open>A decider that allows everything does not get a request to a denied host through.\<close>

theorem decider_overrides_only_misses_witness:
  "\<exists>d px'. evaluate_host_policy example_world (Some (\<lambda>r. AllowNet)) Unchanged
       \<lparr>pr_protocol = HttpsConnect, pr_host = lit ''evil.com'', pr_port = 443, pr_client = None,
        pr_method = Some (lit ''CONNECT''), pr_command = None, pr_exec_policy_hint = None\<rparr>
       example_proxy = Inr (d, px')
     \<and> d = DenyNet (lit ''denied'') BaselinePolicy DecideDeny"
proof -
  let ?request = "\<lparr>pr_protocol = HttpsConnect, pr_host = lit ''evil.com'', pr_port = 443, pr_client = None,
    pr_method = Some (lit ''CONNECT''), pr_command = None, pr_exec_policy_hint = None\<rparr>"
  have blocked: "host_decision example_world example_state (lit ''evil.com'') 443 = HostBlocked Denied"
  proof (rule listed_host_denied [where p = "lit ''evil.com''"])
    show "compile_denylist_globset (w_lib example_world) (denied_list (cs_config example_state)) =
        Inr (deny_set example_state)"
      using example_state_ok by (simp add: state_ok_def)
    show "literal_law (w_lib example_world)" by (simp add: example_world_def example_lib_literal)
    show "literal_host (lit ''evil.com'')" by (rule example_literal)
    show "host_parse (lit ''evil.com'') = Some (lit ''evil.com'')"
      by (simp add: host_parse_def host_text_eval)
    show "lit ''evil.com'' \<in> set (denied_list (cs_config example_state))"
      by (simp add: example_config)
    show "normalize_host (lit ''evil.com'') = lit ''evil.com''" by (rule api_pattern)
  qed
  obtain d px' where run: "evaluate_host_policy example_world (Some (\<lambda>r. AllowNet)) Unchanged ?request
      example_proxy = Inr (d, px')"
    by (simp add: evaluate_host_policy_def host_blocked_def reload_if_needed_def case_prod_beta)
  have "d = DenyNet (reason_str Denied) BaselinePolicy DecideDeny"
    using decider_overrides_only_misses [OF run] blocked
    by (auto simp: reload_if_needed_def example_proxy_def)
  with run show ?thesis by simp
qed
end
