(* ===== verification/NetworkSpec.thy ===== *)
theory NetworkSpec
  imports NetworkAccess ExecPolicy SandboxPolicy
begin

text \<open>
  The configuration a proxy is started with: the network tables of the configuration layers
  (\<open>config/src/permissions_toml.rs\<close>), the constraints of the trusted layers
  (\<open>core/src/network_proxy_loader.rs\<close>), the requirements of an administrator and the network rules
  of the exec policy (\<open>core/src/config/network_proxy_spec.rs\<close>).
\<close>

section \<open>Network tables\<close>

datatype toml_domain_permission = TomlAllow | TomlDeny

datatype toml_socket_permission = TomlSocketAllow | TomlSocketNone

text \<open>The entries of the tables are ordered maps: lists in the order of the keys.\<close>

type_synonym toml_domains = "(ustring \<times> toml_domain_permission) list"
type_synonym toml_sockets = "(ustring \<times> toml_socket_permission) list"

definition toml_allowed_domains :: "toml_domains \<Rightarrow> ustring list option" where
  "toml_allowed_domains ds = some_unless_empty (map fst (filter (\<lambda>(_, p). p = TomlAllow) ds))"

definition toml_denied_domains :: "toml_domains \<Rightarrow> ustring list option" where
  "toml_denied_domains ds = some_unless_empty (map fst (filter (\<lambda>(_, p). p = TomlDeny) ds))"

definition toml_allow_unix_sockets :: "toml_sockets \<Rightarrow> ustring list" where
  "toml_allow_unix_sockets ss = map fst (filter (\<lambda>(_, p). p = TomlSocketAllow) ss)"

record network_toml =
  nt_enabled :: "bool option"
  nt_proxy_url :: "ustring option"
  nt_enable_socks5 :: "bool option"
  nt_socks_url :: "ustring option"
  nt_enable_socks5_udp :: "bool option"
  nt_allow_upstream_proxy :: "bool option"
  nt_non_loopback_proxy :: "bool option"
  nt_all_unix_sockets :: "bool option"
  nt_mode :: "network_mode option"
  nt_domains :: "toml_domains option"
  nt_unix_sockets :: "toml_sockets option"
  nt_local_binding :: "bool option"

fun proxy_permission :: "toml_domain_permission \<Rightarrow> domain_permission" where
  "proxy_permission TomlAllow = PermAllow"
| "proxy_permission TomlDeny = PermDeny"

fun proxy_socket_permission :: "toml_socket_permission \<Rightarrow> unix_socket_permission" where
  "proxy_socket_permission TomlSocketAllow = SocketAllow"
| "proxy_socket_permission TomlSocketNone = SocketNone"

definition overlay_network_domain_permissions ::
  "toml_domains \<Rightarrow> network_settings \<Rightarrow> network_settings" where
  "overlay_network_domain_permissions ds cfg =
     fold (\<lambda>(pattern, p). upsert_domain_permission pattern (proxy_permission p) normalize_host) ds cfg"

text \<open>\<open>if let Some(x) = table.field\<close>: the field is set when the table has it.\<close>

definition overlay :: "'a option \<Rightarrow> ('a \<Rightarrow> 's \<Rightarrow> 's) \<Rightarrow> 's \<Rightarrow> 's" where
  "overlay x set_field s = (case x of None \<Rightarrow> s | Some v \<Rightarrow> set_field v s)"

definition overlay_unix_sockets :: "toml_sockets \<Rightarrow> network_settings \<Rightarrow> network_settings" where
  "overlay_unix_sockets ss cfg =
     cfg\<lparr>net_unix_sockets := some_unless_empty
            (fold (\<lambda>(path, p). btree_insert path (proxy_socket_permission p)) ss
               (unwrap_or_default (net_unix_sockets cfg)))\<rparr>"

definition apply_to_network_proxy_config :: "network_toml \<Rightarrow> network_settings \<Rightarrow> network_settings" where
  "apply_to_network_proxy_config t cfg =
     (let cfg = overlay (nt_enabled t) (\<lambda>v c. c\<lparr>net_enabled := v\<rparr>) cfg;
          cfg = overlay (nt_proxy_url t) (\<lambda>v c. c\<lparr>proxy_url := v\<rparr>) cfg;
          cfg = overlay (nt_enable_socks5 t) (\<lambda>v c. c\<lparr>enable_socks5 := v\<rparr>) cfg;
          cfg = overlay (nt_socks_url t) (\<lambda>v c. c\<lparr>socks_url := v\<rparr>) cfg;
          cfg = overlay (nt_enable_socks5_udp t) (\<lambda>v c. c\<lparr>enable_socks5_udp := v\<rparr>) cfg;
          cfg = overlay (nt_allow_upstream_proxy t) (\<lambda>v c. c\<lparr>allow_upstream_proxy := v\<rparr>) cfg;
          cfg = overlay (nt_non_loopback_proxy t)
                  (\<lambda>v c. c\<lparr>dangerously_allow_non_loopback_proxy := v\<rparr>) cfg;
          cfg = overlay (nt_all_unix_sockets t)
                  (\<lambda>v c. c\<lparr>dangerously_allow_all_unix_sockets := v\<rparr>) cfg;
          cfg = overlay (nt_mode t) (\<lambda>v c. c\<lparr>net_mode := v\<rparr>) cfg;
          cfg = overlay (nt_domains t) overlay_network_domain_permissions cfg;
          cfg = overlay (nt_unix_sockets t) overlay_unix_sockets cfg
      in overlay (nt_local_binding t) (\<lambda>v c. c\<lparr>allow_local_binding := v\<rparr>) cfg)"

section \<open>Exec policy rules\<close>

text \<open>\<open>upsert_network_domains\<close>: a host already filed in this call is skipped.\<close>

fun upsert_hosts :: "domain_permission \<Rightarrow> ustring list \<Rightarrow> ustring list \<Rightarrow> network_settings \<Rightarrow> network_settings" where
  "upsert_hosts permission [] incoming cfg = cfg"
| "upsert_hosts permission (h # hs) incoming cfg =
     (if h \<in> set incoming then upsert_hosts permission hs incoming cfg
      else upsert_hosts permission hs (h # incoming)
             (upsert_domain_permission h permission normalize_host cfg))"

definition upsert_network_domains :: "ustring list \<Rightarrow> bool \<Rightarrow> network_settings \<Rightarrow> network_settings" where
  "upsert_network_domains hosts allow cfg =
     upsert_hosts (if allow then PermAllow else PermDeny) hosts [] cfg"

definition apply_exec_policy_network_rules :: "policy \<Rightarrow> network_settings \<Rightarrow> network_settings" where
  "apply_exec_policy_network_rules pol cfg =
     (let (allowed, denied) = compiled_network_domains pol
      in upsert_network_domains denied False (upsert_network_domains allowed True cfg))"

section \<open>Configuration layers\<close>

text \<open>
  A layer is whether a user controls it and the network table its profile selects. The loader
  takes the settings from every layer and the constraints from the layers no user controls, from
  the lowest precedence to the highest.
\<close>

type_synonym network_layer = "bool \<times> network_toml option"

definition loader_exec_policy_rules :: "policy \<Rightarrow> network_settings \<Rightarrow> network_settings" where
  "loader_exec_policy_rules pol cfg =
     (let (allowed, denied) = compiled_network_domains pol
      in fold (\<lambda>h. upsert_domain_permission h PermDeny normalize_host) denied
           (fold (\<lambda>h. upsert_domain_permission h PermAllow normalize_host) allowed cfg))"

definition config_from_layers :: "network_layer list \<Rightarrow> policy \<Rightarrow> network_settings" where
  "config_from_layers layers pol =
     loader_exec_policy_rules pol
       (fold (\<lambda>(_, t) cfg. overlay t apply_to_network_proxy_config cfg) layers default_network_settings)"

definition apply_network_constraints :: "network_toml \<Rightarrow> proxy_constraints \<Rightarrow> proxy_constraints" where
  "apply_network_constraints t c =
     (let c = overlay (nt_enabled t) (\<lambda>v c. c\<lparr>c_enabled := Some v\<rparr>) c;
          c = overlay (nt_mode t) (\<lambda>v c. c\<lparr>c_mode := Some v\<rparr>) c;
          c = overlay (nt_allow_upstream_proxy t) (\<lambda>v c. c\<lparr>c_allow_upstream_proxy := Some v\<rparr>) c;
          c = overlay (nt_non_loopback_proxy t) (\<lambda>v c. c\<lparr>c_non_loopback_proxy := Some v\<rparr>) c;
          c = overlay (nt_all_unix_sockets t) (\<lambda>v c. c\<lparr>c_all_unix_sockets := Some v\<rparr>) c;
          c = overlay (nt_domains t)
                (\<lambda>ds c.
                  (let cfg = overlay (c_allowed_domains c) set_allowed_domains default_network_settings;
                       cfg = overlay (c_denied_domains c) set_denied_domains cfg;
                       cfg = overlay_network_domain_permissions ds cfg
                   in c\<lparr>c_allowed_domains := allowed_domains cfg, c_denied_domains := denied_domains cfg\<rparr>)) c;
          c = overlay (nt_unix_sockets t)
                (\<lambda>ss c. c\<lparr>c_unix_sockets := Some (toml_allow_unix_sockets ss)\<rparr>) c
      in overlay (nt_local_binding t) (\<lambda>v c. c\<lparr>c_local_binding := Some v\<rparr>) c)"

definition network_constraints_from_trusted_layers :: "network_layer list \<Rightarrow> proxy_constraints" where
  "network_constraints_from_trusted_layers layers =
     fold (\<lambda>(user, t) c. if user then c else overlay t apply_network_constraints c) layers no_constraints"

definition config_state_from_layers ::
  "net_lib \<Rightarrow> path_env \<Rightarrow> bool \<Rightarrow> network_layer list \<Rightarrow> policy \<Rightarrow> proxy_error + config_state" where
  "config_state_from_layers lib env mitm_ok layers pol =
     (let config = config_from_layers layers pol;
          constraints = network_constraints_from_trusted_layers layers
      in case validate_policy_against_constraints lib config constraints of
           Some e \<Rightarrow> Inl e
         | None \<Rightarrow> build_config_state lib env mitm_ok config constraints)"

section \<open>Requirements\<close>

record network_requirements =
  req_enabled :: "bool option"
  req_http_port :: "nat option"
  req_socks_port :: "nat option"
  req_allow_upstream_proxy :: "bool option"
  req_non_loopback_proxy :: "bool option"
  req_all_unix_sockets :: "bool option"
  req_domains :: "toml_domains option"
  req_managed_allowed_domains_only :: "bool option"
  req_unix_sockets :: "toml_sockets option"
  req_local_binding :: "bool option"

definition managed_allowed_domains_only :: "network_requirements \<Rightarrow> bool" where
  "managed_allowed_domains_only req = (req_managed_allowed_domains_only req = Some True)"

fun asks_for_network :: "sandbox_policy \<Rightarrow> bool" where
  "asks_for_network (ReadOnly access net) = True"
| "asks_for_network (WorkspaceWrite roots access net tmp slash_tmp) = True"
| "asks_for_network _ = False"

definition allowlist_expansion_enabled :: "sandbox_policy \<Rightarrow> bool \<Rightarrow> bool" where
  "allowlist_expansion_enabled sandbox hard_deny \<longleftrightarrow> asks_for_network sandbox \<and> \<not> hard_deny"

definition denylist_expansion_enabled :: "sandbox_policy \<Rightarrow> bool" where
  "denylist_expansion_enabled sandbox = asks_for_network sandbox"

definition merge_domain_lists :: "ustring list \<Rightarrow> ustring list \<Rightarrow> ustring list" where
  "merge_domain_lists managed user_entries =
     foldl (\<lambda>acc e. if list_ex (\<lambda>m. eq_ignore_ascii_case m e) acc then acc else acc @ [e])
       managed user_entries"

definition localhost_url :: "nat \<Rightarrow> ustring" where
  "localhost_url port = lit ''http://127.0.0.1:'' @ decimal port"

text \<open>The domains part of \<open>apply_requirements\<close>, on the settings and the constraints.\<close>

definition require_allowed ::
  "network_requirements \<Rightarrow> bool \<Rightarrow> bool \<Rightarrow> network_settings \<times> proxy_constraints \<Rightarrow>
   network_settings \<times> proxy_constraints" where
  "require_allowed req expansion hard_deny st =
     (let managed = (let ds = Option.bind (req_domains req) toml_allowed_domains
                     in if hard_deny then Some (unwrap_or_default ds) else ds)
      in case (managed, st) of
           (None, st) \<Rightarrow> st
         | (Some managed, (cfg, c)) \<Rightarrow>
             (let effective = (if expansion then merge_domain_lists managed (allowed_list cfg) else managed)
              in (set_allowed_domains effective cfg,
                  c\<lparr>c_allowed_domains := Some managed, c_allowlist_expansion := Some expansion\<rparr>)))"

definition require_denied ::
  "network_requirements \<Rightarrow> bool \<Rightarrow> network_settings \<times> proxy_constraints \<Rightarrow>
   network_settings \<times> proxy_constraints" where
  "require_denied req expansion st =
     (case (Option.bind (req_domains req) toml_denied_domains, st) of
        (None, st) \<Rightarrow> st
      | (Some managed, (cfg, c)) \<Rightarrow>
          (let effective = (if expansion then merge_domain_lists managed (denied_list cfg) else managed)
           in (set_denied_domains effective cfg,
               c\<lparr>c_denied_domains := Some managed, c_denylist_expansion := Some expansion\<rparr>)))"

definition apply_requirements ::
  "network_settings \<Rightarrow> network_requirements \<Rightarrow> sandbox_policy \<Rightarrow> bool \<Rightarrow>
   network_settings \<times> proxy_constraints" where
  "apply_requirements config req sandbox hard_deny =
     (let st = (config, no_constraints);
          st = overlay (req_enabled req) (\<lambda>v (g, c). (g\<lparr>net_enabled := v\<rparr>, c\<lparr>c_enabled := Some v\<rparr>)) st;
          st = overlay (req_http_port req) (\<lambda>v (g, c). (g\<lparr>proxy_url := localhost_url v\<rparr>, c)) st;
          st = overlay (req_socks_port req) (\<lambda>v (g, c). (g\<lparr>socks_url := localhost_url v\<rparr>, c)) st;
          st = overlay (req_allow_upstream_proxy req)
                 (\<lambda>v (g, c). (g\<lparr>allow_upstream_proxy := v\<rparr>, c\<lparr>c_allow_upstream_proxy := Some v\<rparr>)) st;
          st = overlay (req_non_loopback_proxy req)
                 (\<lambda>v (g, c). (g\<lparr>dangerously_allow_non_loopback_proxy := v\<rparr>,
                               c\<lparr>c_non_loopback_proxy := Some v\<rparr>)) st;
          st = overlay (req_all_unix_sockets req)
                 (\<lambda>v (g, c). (g\<lparr>dangerously_allow_all_unix_sockets := v\<rparr>,
                               c\<lparr>c_all_unix_sockets := Some v\<rparr>)) st;
          st = require_allowed req (allowlist_expansion_enabled sandbox hard_deny) hard_deny st;
          st = require_denied req (denylist_expansion_enabled sandbox) st;
          st = overlay (req_unix_sockets req)
                 (\<lambda>ss (g, c). (set_allow_unix_sockets (toml_allow_unix_sockets ss) g,
                                c\<lparr>c_unix_sockets := Some (toml_allow_unix_sockets ss)\<rparr>)) st
      in overlay (req_local_binding req)
           (\<lambda>v (g, c). (g\<lparr>allow_local_binding := v\<rparr>, c\<lparr>c_local_binding := Some v\<rparr>)) st)"

record network_proxy_spec =
  sp_base_config :: network_settings
  sp_requirements :: "network_requirements option"
  sp_config :: network_settings
  sp_constraints :: proxy_constraints
  sp_hard_deny :: bool

definition from_config_and_constraints ::
  "net_lib \<Rightarrow> network_settings \<Rightarrow> network_requirements option \<Rightarrow> sandbox_policy \<Rightarrow>
   proxy_error + network_proxy_spec" where
  "from_config_and_constraints lib config requirements sandbox =
     (let hard_deny = (case requirements of None \<Rightarrow> False | Some r \<Rightarrow> managed_allowed_domains_only r);
          (cfg, c) = (case requirements of
                        None \<Rightarrow> (config, no_constraints)
                      | Some r \<Rightarrow> apply_requirements config r sandbox hard_deny)
      in case validate_policy_against_constraints lib cfg c of
           Some e \<Rightarrow> Inl e
         | None \<Rightarrow> Inr \<lparr>sp_base_config = config, sp_requirements = requirements, sp_config = cfg,
                        sp_constraints = c, sp_hard_deny = hard_deny\<rparr>)"

definition recompute_for_sandbox_policy ::
  "net_lib \<Rightarrow> network_proxy_spec \<Rightarrow> sandbox_policy \<Rightarrow> proxy_error + network_proxy_spec" where
  "recompute_for_sandbox_policy lib spec sandbox =
     from_config_and_constraints lib (sp_base_config spec) (sp_requirements spec) sandbox"

definition with_exec_policy_network_rules ::
  "net_lib \<Rightarrow> network_proxy_spec \<Rightarrow> policy \<Rightarrow> proxy_error + network_proxy_spec" where
  "with_exec_policy_network_rules lib spec pol =
     (let spec = spec\<lparr>sp_config := apply_exec_policy_network_rules pol (sp_config spec)\<rparr>
      in case validate_policy_against_constraints lib (sp_config spec) (sp_constraints spec) of
           Some e \<Rightarrow> Inl e
         | None \<Rightarrow> Inr spec)"

definition build_config_state_for_spec ::
  "net_lib \<Rightarrow> path_env \<Rightarrow> bool \<Rightarrow> network_proxy_spec \<Rightarrow> proxy_error + config_state" where
  "build_config_state_for_spec lib env mitm_ok spec =
     build_config_state lib env mitm_ok (sp_config spec) (sp_constraints spec)"

text \<open>The decider \<open>start_proxy\<close> gives the proxy.\<close>

definition started_decider ::
  "network_proxy_spec \<Rightarrow> sandbox_policy \<Rightarrow> decider option \<Rightarrow> bool \<Rightarrow> decider option" where
  "started_decider spec sandbox policy_decider approval_flow =
     (if approval_flow \<and> \<not> sp_hard_deny spec
      then (case policy_decider of
              Some d \<Rightarrow> Some d
            | None \<Rightarrow>
                if asks_for_network sandbox
                then Some (\<lambda>_. ask_with_source (lit ''not_allowed'') DeciderSource) else None)
      else None)"

section \<open>Denials of the exec policy\<close>

definition files_denial :: "network_settings \<Rightarrow> ustring \<Rightarrow> bool" where
  "files_denial cfg host \<longleftrightarrow>
     (\<exists>p \<in> set (denied_list cfg). normalize_host p = normalize_host host)
     \<and> (\<forall>p \<in> set (allowed_list cfg). normalize_host p \<noteq> normalize_host host)"

lemma files_denial_upsert:
  "files_denial cfg h \<or> normalize_host h' = normalize_host h \<Longrightarrow>
   files_denial (upsert_domain_permission h' PermDeny normalize_host cfg) h"
  by (auto simp: files_denial_def upsert_denied upsert_allowed)

lemma files_denial_hosts:
  "h \<in> set hs \<or> files_denial cfg h \<Longrightarrow> (\<And>g. g \<in> set incoming \<Longrightarrow> files_denial cfg g) \<Longrightarrow>
   files_denial (upsert_hosts PermDeny hs incoming cfg) h"
proof (induction PermDeny hs incoming cfg rule: upsert_hosts.induct)
  case (2 h' hs incoming cfg)
  show ?case
  proof (cases "h' \<in> set incoming")
    case True
    then show ?thesis using 2 by auto
  next
    case False
    let ?cfg = "upsert_domain_permission h' PermDeny normalize_host cfg"
    have "h \<in> set hs \<or> files_denial ?cfg h" using "2.prems"(1) files_denial_upsert by auto
    moreover have "files_denial ?cfg g" if "g \<in> set (h' # incoming)" for g
      using that "2.prems"(2) files_denial_upsert by auto
    ultimately show ?thesis using False "2.hyps"(2) by simp
  qed
qed auto

text \<open>
  C23: a host the network rules of the exec policy deny is denied by the proxy built from them:
  if the specification with the rules passes validation and its state is built, every request
  that names the host, in its normal form, is blocked as denied, whatever the settings of the user
  said of it. The host must be literal: its normal form is stable and has none of the characters
  \<open>? * [ ] { } \\<close>, which a glob reads as wildcards (the policy accepts brackets, braces and
  backslashes in hosts); host names and addresses of both kinds are. Of the glob matcher it is
  used that the glob of a literal host matches that host (\<open>literal_law\<close>).
\<close>

theorem exec_policy_denials_reach_the_proxy:
  assumes "with_exec_policy_network_rules (w_lib w) spec pol = Inr spec'"
    and "build_config_state_for_spec (w_lib w) (w_paths w) mitm_ok spec' = Inr s"
    and "compiled_network_domains pol = (allowed, denied)" "host \<in> set denied"
    and "literal_law (w_lib w)" "literal_host (normalize_host host)"
    and "host_parse raw = Some (normalize_host host)"
  shows "host_decision w s raw port = HostBlocked Denied"
proof -
  have "sp_config spec' = apply_exec_policy_network_rules pol (sp_config spec)"
    using assms(1) by (auto simp: with_exec_policy_network_rules_def Let_def split: option.splits)
  then have "files_denial (sp_config spec') host"
    using assms(3,4)
    by (auto simp: apply_exec_policy_network_rules_def upsert_network_domains_def
        intro!: files_denial_hosts)
  then obtain p where p: "p \<in> set (denied_list (sp_config spec'))" "normalize_host p = normalize_host host"
    by (auto simp: files_denial_def)
  note built = build_config_state_Inr [OF assms(2) [unfolded build_config_state_for_spec_def]]
  show ?thesis
    using p built assms(5-7) by (auto intro!: listed_host_denied)
qed

section \<open>Requirements are met\<close>

lemma overlay_cases:
  "(x = None \<Longrightarrow> P s) \<Longrightarrow> (\<And>v. x = Some v \<Longrightarrow> P (f v s)) \<Longrightarrow> P (overlay x f s)"
  by (cases x) (auto simp: overlay_def)

lemma merge_domain_lists_set:
  "set managed \<subseteq> set (merge_domain_lists managed user_entries)"
  "set (merge_domain_lists managed user_entries) \<subseteq> set managed \<union> set user_entries"
  unfolding merge_domain_lists_def
  by (induction user_entries arbitrary: managed) (auto, fastforce+)

lemma allowed_after_set:
  "p \<in> set (allowed_list (set_domain_entries ps permission cfg)) \<longleftrightarrow>
     PermAllow \<in> permissions_of (domains_of cfg) p - {permission} \<union> (if p \<in> set ps then {permission} else {})
     \<and> PermDeny \<notin> permissions_of (domains_of cfg) p - {permission} \<union> (if p \<in> set ps then {permission} else {})"
  by (simp add: set_allowed_list permissions_set_domain_entries)

lemma denied_after_set_denied: "set (denied_list (set_denied_domains ps cfg)) = set ps"
  by (auto simp: set_denied_domains_def set_denied_list permissions_set_domain_entries split: if_splits)

lemma denied_after_set_allowed:
  "set (denied_list (set_allowed_domains ps cfg)) = set (denied_list cfg)"
  by (auto simp: set_allowed_domains_def set_denied_list permissions_set_domain_entries split: if_splits)

lemma allowed_after_set_allowed:
  "set (allowed_list (set_allowed_domains ps cfg)) = set ps - set (denied_list cfg)"
  by (auto simp: set_allowed_domains_def allowed_after_set set_denied_list split: if_splits)

lemma allow_entries_set_allowed:
  "PermAllow \<in> permissions_of (domains_of (set_allowed_domains ps cfg)) p \<longleftrightarrow> p \<in> set ps"
  by (auto simp: set_allowed_domains_def permissions_set_domain_entries)

lemma allow_entries_set_denied:
  "PermAllow \<in> permissions_of (domains_of (set_denied_domains ps cfg)) p \<longleftrightarrow>
     PermAllow \<in> permissions_of (domains_of cfg) p"
  by (auto simp: set_denied_domains_def permissions_set_domain_entries split: if_splits)

lemma overlay_net_domains:
  "(\<And>v s. net_domains (fst (f v s)) = net_domains (fst s)) \<Longrightarrow>
   net_domains (fst (overlay x f st)) = net_domains (fst st)"
  by (simp add: overlay_def split: option.split)

lemma set_allow_unix_sockets_domains [simp]:
  "net_domains (set_allow_unix_sockets ps cfg) = net_domains cfg"
  by (simp add: set_allow_unix_sockets_def set_unix_socket_entries_def Let_def)

definition managed_allowlist :: "network_requirements \<Rightarrow> ustring list" where
  "managed_allowlist req = unwrap_or_default (Option.bind (req_domains req) toml_allowed_domains)"

lemma require_allowed_hard:
  "fst (require_allowed req False True st) = set_allowed_domains (managed_allowlist req) (fst st)"
  by (simp add: require_allowed_def managed_allowlist_def split: prod.split)

lemma require_denied_allow_entries:
  "PermAllow \<in> permissions_of (domains_of (fst (require_denied req expansion st))) p \<longleftrightarrow>
     PermAllow \<in> permissions_of (domains_of (fst st)) p"
  by (simp add: require_denied_def Let_def allow_entries_set_denied split: option.split prod.split)

lemma apply_requirements_allow_entries:
  "PermAllow \<in> permissions_of (domains_of (fst (apply_requirements config req sandbox True))) p \<longleftrightarrow>
     p \<in> set (managed_allowlist req)"
  by (simp add: apply_requirements_def Let_def allowlist_expansion_enabled_def overlay_net_domains
      case_prod_beta require_denied_allow_entries require_allowed_hard allow_entries_set_allowed)

text \<open>
  C24: when the administrator lets managed domains only through, the settings of the user add
  nothing: whatever the user and the sandbox policy say, every allowed domain
  of an accepted specification is one of the managed allowances, an empty list when there are
  none, and the proxy is started without a decider that could let another host through.
\<close>

theorem managed_only_pins_allowlist:
  assumes "from_config_and_constraints lib config (Some req) sandbox = Inr spec"
    and "managed_allowed_domains_only req"
  shows "set (allowed_list (sp_config spec)) \<subseteq> set (managed_allowlist req)
    \<and> started_decider spec sandbox' policy_decider approval_flow = None"
proof -
  have "sp_config spec = fst (apply_requirements config req sandbox True)" "sp_hard_deny spec"
    using assms by (auto simp: from_config_and_constraints_def Let_def split: prod.splits option.splits)
  then show ?thesis
    by (auto simp: started_decider_def set_allowed_list apply_requirements_allow_entries)
qed

definition example_requirements :: network_requirements where
  "example_requirements =
     \<lparr>req_enabled = None, req_http_port = None, req_socks_port = None, req_allow_upstream_proxy = None,
      req_non_loopback_proxy = None, req_all_unix_sockets = None,
      req_domains = Some [(lit ''api.example.com'', TomlAllow)],
      req_managed_allowed_domains_only = Some True, req_unix_sockets = None,
      req_local_binding = None\<rparr>"

lemma example_requirements_applied:
  "apply_requirements example_settings example_requirements sandbox True =
     (set_allowed_domains [lit ''api.example.com''] example_settings,
      no_constraints\<lparr>c_allowed_domains := Some [lit ''api.example.com''], c_allowlist_expansion := Some False\<rparr>)"
  by (simp add: apply_requirements_def example_requirements_def Let_def overlay_def require_allowed_def
      require_denied_def toml_allowed_domains_def toml_denied_domains_def allowlist_expansion_enabled_def
      some_unless_empty_def)

lemma example_requirements_accepted:
  "\<exists>spec. from_config_and_constraints example_lib example_settings (Some example_requirements) sandbox = Inr spec"
proof -
  let ?cfg = "set_allowed_domains [lit ''api.example.com''] example_settings"
  let ?c = "no_constraints\<lparr>c_allowed_domains := Some [lit ''api.example.com''],
    c_allowlist_expansion := Some False\<rparr>"
  have managed: "managed_allowed_domains_only example_requirements"
    by (simp add: managed_allowed_domains_only_def example_requirements_def)
  have differ: "lit ''evil.com'' \<noteq> lit ''api.example.com''" by (simp add: lit_def uc_def)
  have lower: "to_ascii_lowercase (lit ''evil.com'') = lit ''evil.com''"
    "to_ascii_lowercase (lit ''api.example.com'') = lit ''api.example.com''"
    by (simp_all add: to_ascii_lowercase_def to_ascii_lower_def lit_def uc_def)
  have denied: "set (denied_list ?cfg) = {lit ''evil.com''}"
    by (simp only: denied_after_set_allowed example_denied list.set)
  have allowed: "set (allowed_list ?cfg) = {lit ''api.example.com''}"
    using differ by (simp only: allowed_after_set_allowed example_denied list.set) auto
  have "\<not> dangerously_allow_all_unix_sockets ?cfg"
    by (simp add: set_allowed_domains_def set_domain_entries_def example_settings_def
        default_network_settings_def Let_def)
  then have "validate_policy_against_constraints example_lib ?cfg ?c = None"
    using differ
    by (simp add: validate_None denied allowed no_constraints_def check_allowed_None lowers_def
        evil_pattern api_pattern lower)
  then show ?thesis
    by (simp add: from_config_and_constraints_def managed example_requirements_applied Let_def)
qed

theorem managed_only_pins_allowlist_witness:
  "\<exists>spec. from_config_and_constraints example_lib example_settings (Some example_requirements)
       (ReadOnly FullAccess True) = Inr spec
     \<and> set (allowed_list (sp_config spec)) \<subseteq> {lit ''api.example.com''}
     \<and> started_decider spec (ReadOnly FullAccess True) (Some (\<lambda>r. AllowNet)) True = None"
proof -
  obtain spec where spec: "from_config_and_constraints example_lib example_settings
      (Some example_requirements) (ReadOnly FullAccess True) = Inr spec"
    using example_requirements_accepted by blast
  have "managed_allowed_domains_only example_requirements"
    "managed_allowlist example_requirements = [lit ''api.example.com'']"
    by (simp_all add: managed_allowed_domains_only_def example_requirements_def managed_allowlist_def
        toml_allowed_domains_def some_unless_empty_def)
  with managed_only_pins_allowlist [OF spec] spec show ?thesis by auto
qed

definition example_rules :: policy where
  "example_rules = \<lparr>rules_by_program = [], network_rules =
     [\<lparr>net_host = lit ''api.example.com'', net_protocol = Https, net_decision = Forbidden,
       net_justification = None\<rparr>],
     host_executables_by_name = Map.empty\<rparr>"

theorem exec_policy_denials_reach_the_proxy_witness:
  "\<exists>spec' s. with_exec_policy_network_rules example_lib
       \<lparr>sp_base_config = example_settings, sp_requirements = None, sp_config = example_settings,
        sp_constraints = example_constraints, sp_hard_deny = False\<rparr> example_rules = Inr spec'
     \<and> build_config_state_for_spec example_lib no_environment True spec' = Inr s
     \<and> host_decision example_world s (lit ''API.example.com'') 443 = HostBlocked Denied"
proof -
  let ?spec = "\<lparr>sp_base_config = example_settings, sp_requirements = None, sp_config = example_settings,
        sp_constraints = example_constraints, sp_hard_deny = False\<rparr>"
  let ?c = "upsert_domain_permission (lit ''api.example.com'') PermDeny normalize_host example_settings"
  let ?spec' = "?spec\<lparr>sp_config := ?c\<rparr>"
  have rules: "compiled_network_domains example_rules = ([], [lit ''api.example.com''])"
    by (simp add: compiled_network_domains_def example_rules_def upsert_domain_def)
  then have config: "apply_exec_policy_network_rules example_rules example_settings = ?c"
    by (simp add: apply_exec_policy_network_rules_def upsert_network_domains_def)
  obtain s where "updated_state example_world DenyList (lit ''api.example.com'') example_state = Inr s"
    using api_denial_updates by blast
  then obtain new where "validate_policy_against_constraints example_lib ?c example_constraints = None"
    and built: "build_config_state example_lib no_environment True ?c example_constraints = Inr new"
    by (auto simp: updated_state_def example_state_def example_world_def Let_def
        split: option.splits sum.splits)
  then have spec': "with_exec_policy_network_rules (w_lib example_world) ?spec example_rules = Inr ?spec'"
    and state: "build_config_state_for_spec (w_lib example_world) (w_paths example_world) True ?spec' = Inr new"
    using config
    by (simp_all add: with_exec_policy_network_rules_def build_config_state_for_spec_def example_world_def)
  have "host_decision example_world new (lit ''API.example.com'') 443 = HostBlocked Denied"
  proof (rule exec_policy_denials_reach_the_proxy [OF spec' state rules])
    show "literal_law (w_lib example_world)" by (simp add: example_world_def example_lib_literal)
    show "literal_host (normalize_host (lit ''api.example.com''))"
      unfolding api_pattern by (rule example_literal)
    show "host_parse (lit ''API.example.com'') = Some (normalize_host (lit ''api.example.com''))"
      by (simp add: host_parse_def host_text_eval)
  qed simp
  with spec' state show ?thesis by (auto simp: example_world_def)
qed

text \<open>
  Without expansion, a denial of the user that differs from a managed allowance in letter case
  only is kept, removes nothing from the allowlist, and is still subtracted from the expected
  one: no specification is built.
\<close>

lemma case_variant_denial_is_rejected:
  "\<exists>e. from_config_and_constraints example_lib
       (default_network_settings\<lparr>net_domains := Some [\<lparr>de_pattern = lit ''API.example.com'', de_permission = PermDeny\<rparr>]\<rparr>)
       (Some (example_requirements\<lparr>req_managed_allowed_domains_only := None\<rparr>)) DangerFullAccess = Inl e"
proof -
  let ?user = "default_network_settings\<lparr>net_domains :=
    Some [\<lparr>de_pattern = lit ''API.example.com'', de_permission = PermDeny\<rparr>]\<rparr>"
  let ?req = "example_requirements\<lparr>req_managed_allowed_domains_only := None\<rparr>"
  let ?cfg = "set_allowed_domains [lit ''api.example.com''] ?user"
  let ?c = "no_constraints\<lparr>c_allowed_domains := Some [lit ''api.example.com''],
    c_allowlist_expansion := Some False\<rparr>"
  have applied: "apply_requirements ?user ?req DangerFullAccess False = (?cfg, ?c)"
    by (simp add: apply_requirements_def example_requirements_def Let_def overlay_def require_allowed_def
        require_denied_def toml_allowed_domains_def toml_denied_domains_def allowlist_expansion_enabled_def
        some_unless_empty_def)
  have user: "denied_list ?user = [lit ''API.example.com'']"
    by (simp add: denied_domains_def domain_entries_def effective_entries_def effective_step_def
        less_domain_permission_def)
  have differ: "lit ''api.example.com'' \<noteq> lit ''API.example.com''" by (simp add: lit_def uc_def)
  have lower: "to_ascii_lowercase (lit ''API.example.com'') = lit ''api.example.com''"
    "to_ascii_lowercase (lit ''api.example.com'') = lit ''api.example.com''"
    by (simp_all add: to_ascii_lowercase_def to_ascii_lower_def lit_def uc_def)
  have denied: "set (denied_list ?cfg) = {lit ''API.example.com''}"
    by (simp only: denied_after_set_allowed user list.set)
  have allowed: "set (allowed_list ?cfg) = {lit ''api.example.com''}"
    using differ by (simp only: allowed_after_set_allowed user list.set) auto
  have "check_allowed example_lib ?cfg [lit ''api.example.com''] (Some False) \<noteq> None"
    by (simp add: check_allowed_None lowers_def denied allowed lower)
  then have "validate_policy_against_constraints example_lib ?cfg ?c \<noteq> None"
    by (simp add: validate_None)
  moreover have "\<not> managed_allowed_domains_only ?req"
    by (simp add: managed_allowed_domains_only_def)
  ultimately show ?thesis
    by (auto simp: from_config_and_constraints_def applied Let_def)
qed

section \<open>What gives the proxy its states\<close>

text \<open>The states the loader builds from the layers.\<close>

definition loader_gives :: "proxy_world \<Rightarrow> config_state \<Rightarrow> bool" where
  "loader_gives w t \<longleftrightarrow>
     (\<exists>layers pol. config_state_from_layers (w_lib w) (w_paths w) (w_mitm_ok w) layers pol = Inr t)"

text \<open>
  The states of a session under the requirements \<open>req\<close>: from any settings and sandbox policy, also
  with the network rules of an exec policy added.
\<close>

definition spec_gives :: "proxy_world \<Rightarrow> network_requirements \<Rightarrow> config_state \<Rightarrow> bool" where
  "spec_gives w req t \<longleftrightarrow>
     (\<exists>config sandbox spec spec'. from_config_and_constraints (w_lib w) config (Some req) sandbox = Inr spec
        \<and> (spec' = spec \<or> (\<exists>pol. with_exec_policy_network_rules (w_lib w) spec pol = Inr spec'))
        \<and> build_config_state_for_spec (w_lib w) (w_paths w) (w_mitm_ok w) spec' = Inr t)"

lemma built_state_ok:
  assumes "build_config_state (w_lib w) env mitm_ok cfg c = Inr t"
    and "validate_policy_against_constraints (w_lib w) cfg c = None"
  shows "state_ok w t"
  using assms(2) build_config_state_Inr [OF assms(1)] by (simp add: state_ok_def)

lemma spec_valid:
  assumes "from_config_and_constraints lib config (Some req) sandbox = Inr spec"
  shows "validate_policy_against_constraints lib (sp_config spec) (sp_constraints spec) = None"
    "sp_constraints spec =
       snd (apply_requirements config req sandbox (managed_allowed_domains_only req))"
  using assms by (auto simp: from_config_and_constraints_def Let_def split: prod.splits option.splits)

lemma rules_valid:
  assumes "with_exec_policy_network_rules lib spec pol = Inr spec'"
  shows "validate_policy_against_constraints lib (sp_config spec') (sp_constraints spec') = None"
    "sp_constraints spec' = sp_constraints spec"
  using assms by (auto simp: with_exec_policy_network_rules_def Let_def split: option.splits)

lemma spec_gives_cases:
  assumes "spec_gives w req t"
  obtains config sandbox and spec :: network_proxy_spec where
    "build_config_state (w_lib w) (w_paths w) (w_mitm_ok w) (sp_config spec) (sp_constraints spec) = Inr t"
    "validate_policy_against_constraints (w_lib w) (sp_config spec) (sp_constraints spec) = None"
    "sp_constraints spec =
       snd (apply_requirements config req sandbox (managed_allowed_domains_only req))"
proof -
  obtain config sandbox spec spec' where spec:
    "from_config_and_constraints (w_lib w) config (Some req) sandbox = Inr spec"
    and rules: "spec' = spec \<or> (\<exists>pol. with_exec_policy_network_rules (w_lib w) spec pol = Inr spec')"
    and built: "build_config_state (w_lib w) (w_paths w) (w_mitm_ok w) (sp_config spec')
      (sp_constraints spec') = Inr t"
    using assms unfolding spec_gives_def build_config_state_for_spec_def by (elim exE conjE)
  have "validate_policy_against_constraints (w_lib w) (sp_config spec') (sp_constraints spec') = None"
    "sp_constraints spec' = sp_constraints spec"
    using rules spec_valid(1) [OF spec] by (auto dest: rules_valid)
  with built spec_valid(2) [OF spec] show thesis by (intro that [of spec' config sandbox]) simp_all
qed

interpretation loader: config_reloader w "loader_gives w" for w
  by unfold_locales
    (auto simp: loader_gives_def config_state_from_layers_def Let_def intro: built_state_ok
      split: option.splits)

interpretation session: config_reloader w "spec_gives w req" for w req
  by unfold_locales (auto elim!: spec_gives_cases intro: built_state_ok)

text \<open>No step of the requirements but one touches the managed denials.\<close>

lemma overlay_denials:
  "(\<And>v s. c_denied_domains (snd (f v s)) = c_denied_domains (snd s)) \<Longrightarrow>
   c_denied_domains (snd (overlay x f st)) = c_denied_domains (snd st)"
  by (simp add: overlay_def split: option.split)

lemma require_allowed_denials:
  "c_denied_domains (snd (require_allowed req expansion hard_deny st)) = c_denied_domains (snd st)"
  by (simp add: require_allowed_def Let_def split: option.split prod.split)

lemma require_denied_denials:
  "c_denied_domains (snd (require_denied req expansion st)) =
     (case Option.bind (req_domains req) toml_denied_domains of
        None \<Rightarrow> c_denied_domains (snd st) | Some managed \<Rightarrow> Some managed)"
  by (simp add: require_denied_def Let_def split: option.split prod.split)

lemma apply_requirements_denials:
  "c_denied_domains (snd (apply_requirements config req sandbox hard_deny)) =
     Option.bind (req_domains req) toml_denied_domains"
  by (simp add: apply_requirements_def Let_def overlay_denials require_allowed_denials
      require_denied_denials case_prod_beta no_constraints_def split: option.split)

text \<open>
  C19: a domain the administrator's requirements deny is denied for the whole session: in every
  state the proxy reaches from states built under these requirements, from any settings, any
  sandbox policy and any exec policy, and whatever is added to its domain lists meanwhile, every
  request to a host that a glob of the denied pattern matches is blocked as denied. The globs are
  those the pattern is compiled to; what they match is the glob matcher's.
\<close>

theorem required_denials_hold:
  assumes "proxy_reachable w (spec_gives w req) forced s"
    and "Option.bind (req_domains req) toml_denied_domains = Some managed" "d \<in> set managed"
    and "host_parse raw = Some host" "is_match (w_lib w) (pattern_globs d) host"
  shows "host_decision w s raw port = HostBlocked Denied"
proof (rule session.denials_stay [OF assms(1) _ assms(4,5)])
  fix t assume "spec_gives w req t"
  then obtain config sandbox and spec :: network_proxy_spec where
    "build_config_state (w_lib w) (w_paths w) (w_mitm_ok w) (sp_config spec) (sp_constraints spec) = Inr t"
    "sp_constraints spec =
       snd (apply_requirements config req sandbox (managed_allowed_domains_only req))"
    by (rule spec_gives_cases)
  then have "c_denied_domains (cs_constraints t) = Some managed"
    using assms(2) by (simp add: build_config_state_Inr(2) apply_requirements_denials)
  then show "\<exists>managed. c_denied_domains (cs_constraints t) = Some managed \<and> d \<in> set managed"
    using assms(3) by blast
qed

definition example_denials :: network_requirements where
  "example_denials = example_requirements\<lparr>req_domains := Some [(lit ''Evil.com'', TomlDeny)],
     req_managed_allowed_domains_only := None\<rparr>"

lemma example_denials_applied:
  "apply_requirements example_settings example_denials (ReadOnly access True) False =
     (set_denied_domains [lit ''Evil.com''] example_settings,
      no_constraints\<lparr>c_denied_domains := Some [lit ''Evil.com''], c_denylist_expansion := Some True\<rparr>)"
proof -
  have "merge_domain_lists [lit ''Evil.com''] (denied_list example_settings) = [lit ''Evil.com'']"
    by (simp add: merge_domain_lists_def eq_ignore_ascii_case_def to_ascii_lowercase_def
        to_ascii_lower_def lit_def uc_def)
  then show ?thesis
    by (simp add: apply_requirements_def example_denials_def example_requirements_def Let_def overlay_def
        require_allowed_def require_denied_def toml_allowed_domains_def toml_denied_domains_def
        denylist_expansion_enabled_def some_unless_empty_def)
qed

lemma example_denials_given: "\<exists>t. spec_gives example_world example_denials t"
proof -
  let ?cfg = "set_denied_domains [lit ''Evil.com''] example_settings"
  let ?c = "no_constraints\<lparr>c_denied_domains := Some [lit ''Evil.com''], c_denylist_expansion := Some True\<rparr>"
  let ?spec = "\<lparr>sp_base_config = example_settings, sp_requirements = Some example_denials,
    sp_config = ?cfg, sp_constraints = ?c, sp_hard_deny = False\<rparr>"
  have managed: "\<not> managed_allowed_domains_only example_denials"
    by (simp add: managed_allowed_domains_only_def example_denials_def)
  have denied: "set (denied_list ?cfg) = {lit ''Evil.com''}"
    by (simp only: denied_after_set_denied list.set)
  have "PermAllow \<in> permissions_of (domains_of ?cfg) p \<Longrightarrow> p = lit ''**.Example.com''" for p
    unfolding allow_entries_set_denied by (auto simp: permissions_of_def example_settings_def)
  then have allowed: "set (allowed_list ?cfg) \<subseteq> {lit ''**.Example.com''}"
    by (auto simp: set_allowed_list)
  have plain: "\<forall>p \<in> set (denied_list ?cfg). \<not> is_global_wildcard_domain_pattern p"
    "\<forall>p \<in> set (allowed_list ?cfg). \<not> is_global_wildcard_domain_pattern p"
    using allowed by (auto simp: denied evil_pattern api_pattern)
  have flags: "\<not> dangerously_allow_all_unix_sockets ?cfg" "allow_unix_sockets ?cfg = []" "\<not> net_mitm ?cfg"
    by (simp_all add: set_denied_domains_def set_domain_entries_def example_settings_def
        default_network_settings_def allow_unix_sockets_def Let_def)
  have valid: "validate_policy_against_constraints example_lib ?cfg ?c = None"
    using plain(1) flags(1)
    by (simp add: validate_None no_constraints_def check_denied_None lowers_def denied evil_pattern)
  then have spec: "from_config_and_constraints example_lib example_settings (Some example_denials)
      (ReadOnly access True) = Inr ?spec"
    by (simp add: from_config_and_constraints_def managed example_denials_applied Let_def)
  obtain ds as where "compile_denylist_globset example_lib (denied_list ?cfg) = Inr ds"
    "compile_allowlist_globset example_lib (allowed_list ?cfg) = Inr as"
    using compile_example [OF plain(1), of RejectWildcard] compile_example [OF plain(2), of AllowWildcard]
    unfolding compile_denylist_globset_def compile_allowlist_globset_def by blast
  then obtain t where "build_config_state example_lib no_environment True ?cfg ?c = Inr t"
    using plain(1) flags(2,3)
    by (simp add: build_config_state_def validate_unix_socket_allowlist_paths_def
        validate_non_global_None [THEN iffD2])
  with spec show ?thesis
    unfolding spec_gives_def build_config_state_for_spec_def example_world_def by fastforce
qed

definition example_blocked :: blocked_request where
  "example_blocked =
     \<lparr>br_host = lit ''evil.com'', br_reason = lit ''denied'', br_client = None, br_method = None,
      br_mode = None, br_protocol = lit ''http'', br_decision = None, br_source = None,
      br_port = Some 80, br_timestamp = 0\<rparr>"

theorem required_denials_hold_witness:
  "\<exists>t. spec_gives example_world example_denials t
     \<and> host_decision example_world (push_blocked example_blocked t) (lit ''EVIL.com:443'') 443 = HostBlocked Denied"
proof -
  obtain t where t: "spec_gives example_world example_denials t"
    using example_denials_given by blast
  have reach: "proxy_reachable example_world (spec_gives example_world example_denials) False
      (push_blocked example_blocked t)"
    by (intro proxy_reachable.recorded proxy_reachable.start t)
  have managed: "Option.bind (req_domains example_denials) toml_denied_domains = Some [lit ''Evil.com'']"
    by (simp add: example_denials_def toml_denied_domains_def some_unless_empty_def)
  have "host_decision example_world (push_blocked example_blocked t) (lit ''EVIL.com:443'') 443 = HostBlocked Denied"
  proof (rule required_denials_hold [OF reach managed])
    show "lit ''Evil.com'' \<in> set [lit ''Evil.com'']" by simp
    show "host_parse (lit ''EVIL.com:443'') = Some (lit ''evil.com'')"
      by (simp add: host_parse_def host_text_eval)
    show "is_match (w_lib example_world) (pattern_globs (lit ''Evil.com'')) (lit ''evil.com'')"
      unfolding evil_globs by (simp add: is_match_def example_world_def example_lib_def glob_like_evil)
  qed
  with t show ?thesis by blast
qed
end
