(* ===== verification/Spec2Isabelle.thy ===== *)
theory Spec2Isabelle
  imports Prelude Numbers Utf8Text ResponseItems ContextFragments TurnItems ContextNormalize
    Truncation TokenUsage ContextHistory Paths ExecRule ExecPolicy BashScript CommandSafety
    ExecAmend ExecApproval PatchParser PatchSeek PatchApply PatchFiles HeadTail StreamText
    InlineTags Utf8Stream TaggedLines SandboxPolicy FilePermissions PatchSafety AccountTypes
    QuotaSelection AccountStore AccountControl AccountStartup AccountLeases AccountManager
    AccountSession AccountFencing AccountBackend AccountAuthority AccountTurns
    AccountLivelock NetworkHost NetworkPatterns NetworkSettings NetworkConstraints
    NetworkProxy NetworkAccess NetworkSpec
begin

text \<open>
  A verification library for the agent in \<open>codex-rs\<close>: the code that stands between what a
  model asks for and the machine it runs on. A request arrives as an argument vector or as
  a patch; the command is read (is it a shell script of plain commands?), compared with the
  exec policy and the safe lists, and either run, shown to the user for approval, or
  refused; a patch is parsed, previewed, checked against the writable paths and applied to
  files; the network is reached through a proxy that follows the same policy; what a command
  prints is kept in a bounded buffer, and what the model says is parsed as it streams in.

  Theories, with the files under \<open>codex-rs\<close> they model:

  \<^item> \<open>Prelude\<close>: texts as lists of code points and the operations of the Rust standard library
    on them (\<open>trim\<close>, \<open>lines\<close>, \<open>split\<close>, \<open>find\<close>, \<open>strip_prefix\<close>), I/O errors as values.
  \<^item> \<open>Paths\<close> (\<open>utils/absolute-path/src\<close>): components, lexical normalisation, resolution against
    a base. \<open>normalize_path_idem\<close>: a normalised path is a fixed point.
  \<^item> \<open>ExecRule\<close>, \<open>ExecPolicy\<close> (\<open>execpolicy/src/{decision,rule,error,executable_name,policy}.rs\<close>):
    decisions in increasing order, prefix and network rules, the policy as multimaps by
    program. The locale \<open>command_rule\<close> is what a policy asks of a rule. Properties: each
    operation keeps the policy well formed, the strictest matching rule decides, longer
    commands and overlays never relax a decision, the compiled domains follow the last rule.
  \<^item> \<open>ExecAmend\<close> (\<open>execpolicy/src/amend.rs\<close>): appending a rule to the policy file, each system
    call with its error.
  \<^item> \<open>BashScript\<close> (\<open>shell-command/src/{bash,shell_detect}.rs\<close>): the walks over the syntax tree.
    The tree-sitter parser is a parameter that maps a script to a tree.
  \<^item> \<open>CommandSafety\<close> (\<open>shell-command/src/command_safety\<close>): the safe and the dangerous list.
  \<^item> \<open>ExecApproval\<close> (\<open>core/src/exec_policy.rs\<close>, \<open>core/src/tools/sandboxing.rs\<close>): the approval
    requirement of a command and the manager's updates of the policy.
  \<^item> \<open>SandboxPolicy\<close>, \<open>FilePermissions\<close> (\<open>protocol/src/{protocol,models,permissions}.rs\<close>): sandbox
    settings, access modes of paths, their roots, and the translations between both kinds
    of policy.
  \<^item> \<open>PatchParser\<close>, \<open>PatchSeek\<close>, \<open>PatchApply\<close>, \<open>PatchFiles\<close> (\<open>apply-patch/src\<close>): the patch format, the
    search for the lines of a chunk, the replacements, and their effect on files behind the
    \<open>ExecutorFileSystem\<close> trait, with the preview that is approved.
  \<^item> \<open>PatchSafety\<close> (\<open>core/src/{safety,apply_patch}.rs\<close>): whether a patch needs approval; what an
    approved patch changes is writable, unless two hunks name one path or links make two
    paths one file.
  \<^item> \<open>HeadTail\<close> (\<open>core/src/unified_exec/head_tail_buffer.rs\<close>): the capped output buffer.
  \<^item> \<open>StreamText\<close>, \<open>InlineTags\<close>, \<open>TaggedLines\<close>, \<open>Utf8Stream\<close> (\<open>utils/stream-parser/src\<close>): the trait
    \<open>StreamTextParser\<close> is the locale \<open>stream_text_parser\<close>, whose laws make chunking
    irrelevant; citations, proposed plans and the assistant text parser interpret it, and
    the UTF-8 adapter is proved over it.
  \<^item> \<open>Numbers\<close>, \<open>Utf8Text\<close>: bounded integers, \<open>f64\<close> rounding, decimals, and text sliced at byte
    offsets. \<open>Truncation\<close> (\<open>utils/string\<close>, \<open>utils/output-truncation\<close>): what is kept of output that
    is too long; no slice is taken inside a character, and the budget of a tool output is
    spent on its texts in order.
  \<^item> \<open>ResponseItems\<close>, \<open>ContextFragments\<close>, \<open>TurnItems\<close>, \<open>ContextNormalize\<close> (\<open>protocol/src\<close>,
    \<open>core/src/{event_mapping,web_search}.rs\<close>, \<open>core/src/{context,context_manager}\<close>): the items of a
    conversation, the injected context, what the user is shown, and the repair that pairs
    calls with outputs before a request. \<open>TokenUsage\<close>, \<open>ContextHistory\<close>
    (\<open>core/src/context_manager/history.rs\<close>): the transcript as a transition system of its
    operations; rollback, trimming, and what a reachable history sends.
  \<^item> \<open>AccountTypes\<close>, \<open>QuotaSelection\<close> (\<open>account-pool/src\<close>): the account pool's data and the choice of
    an account for a session. The plan meets an order-free specification (locale \<open>ranking\<close>,
    interpreted on both comparisons), and accounts for every candidate.
  \<^item> \<open>AccountStore\<close>, \<open>AccountControl\<close> (\<open>state/src/runtime/account_pool*.rs\<close>, \<open>state/migrations\<close>): the
    tables and every statement on leases, quota facts, health, membership and registration.
    A transaction returns the old database when it fails; faults are inputs.
  \<^item> \<open>AccountLeases\<close>: the transition system of these operations. In every reachable database
    leases exclude each other, a superseded lease is fenced off for good, and only enabled
    accounts are leased.
  \<^item> \<open>AccountStartup\<close> (\<open>account-pool/src/startup_*.rs\<close>, \<open>state/src/runtime/account_pool*.rs\<close>): the
    persisted selection, the default pool commands, pending registrations, and the two
    computations of the startup status, which agree for a database that answers every read.
  \<^item> \<open>AccountManager\<close> (\<open>account-pool/src/{manager,backend,lease_lifecycle}.rs\<close>): the manager of a
    session's lease over any backend; the trait is a record of functions on a world.
    \<open>AccountSession\<close>: any sequence of its operations, and what an idle manager forgets.
  \<^item> \<open>AccountFencing\<close>: the contract of a backend that keeps the leases of one holder (locale
    \<open>lease_authority\<close>) and the manager over it. \<open>AccountBackend\<close>
    (\<open>account-pool/src/backend/local\<close>, \<open>login/src/auth/lease_scoped_session.rs\<close>) is the local
    backend, on a world with the database, the credential directories and a script of what
    each call meets: faults, the clock, the doings of other processes. \<open>AccountAuthority\<close>
    interprets the contract on it. \<open>AccountTurns\<close>: the manager's lease is its holder's only
    one, a failed account is left, a rotation that cannot be planned is forgotten, and the
    account acquired may differ from the one the startup status shows.
  \<^item> \<open>AccountLivelock\<close>: an acquisition that never returns, and a reachable database for it.
  \<^item> \<open>NetworkHost\<close>, \<open>NetworkPatterns\<close> (\<open>network-proxy/src/policy.rs\<close>): hosts, the addresses that are
    not public, which are exactly the special-purpose blocks, and domain patterns, whose
    comparison is containment of what they cover. \<open>NetworkSettings\<close>, \<open>NetworkConstraints\<close>
    (\<open>{config,state}.rs\<close>): the settings, the addresses the proxy binds, and the validation
    against managed constraints. \<open>NetworkProxy\<close> (\<open>runtime.rs\<close>): the running proxy as a transition
    system of its operations; the decision on a host, updates that retry while others change
    the state, and the bounded record of blocked requests. \<open>NetworkAccess\<close>
    (\<open>{network_policy,http_proxy,socks5,mitm}.rs\<close>): the handlers from a parsed request to a
    verdict; no handler reaches a host that a glob of a managed denial matches, limited mode
    only reads, and nothing is started while the proxy is disabled. The tasks of other
    requests do not act between two reads of one request.
    \<open>NetworkSpec\<close> (\<open>core/src/config/network_proxy_spec.rs\<close>, \<open>core/src/network_proxy_loader.rs\<close>,
    \<open>config/src\<close>): the configuration from layers, requirements and the exec policy; what the
    exec policy denies by a literal host is denied by the proxy built from it.
  How code is rendered: structs are records, enums datatypes, \<open>Result\<close> a sum with the error
  on the left, \<open>Option\<close> an option; a panic, or a loop that would not end, is \<open>None\<close> of an outer
  option, and the properties say where it cannot occur. Loops are recursive functions; two
  kinds may not end: the loop of \<open>inline_hidden_tag.rs\<close> is a \<open>partial_function\<close> shown to
  return for the parsers that are built, and the manager's \<open>loop\<close>s are \<open>run_loop\<close> of the prelude,
  whose value is \<open>None\<close> when they go on forever. No fuel is used. \<open>usize\<close>
  counters are natural numbers: they count elements of data in memory and cannot reach
  their bound; where the code saturates, the truncated subtraction of the naturals is it.

  Parameters, for code that is not in the repository: the syntax trees of tree-sitter, the
  PowerShell parser process, \<open>shlex\<close>, \<open>serde_json\<close> on strings, the unified diff of \<open>similar\<close>, the
  glob compiler, the URL parser, DNS, and the answers of the operating system about files.

  Not modelled: the asynchronous session and turn loop, the terminal interface, the app
  server, MCP, the proxy's sockets and certificates, the sandboxes' system calls,
  configuration and state files (but the account pool's tables and the proxy's settings), and
  Windows branches: these are orchestration and I/O over the parts above.
\<close>


end
